(* ===== verification/Prelude.thy ===== *)
theory Prelude
  imports Main "HOL-Library.Word" "HOL-Library.AList" "HOL-Library.Multiset"
    "HOL-Library.Product_Lexorder"
begin

text \<open>
  Shared vocabulary of the development: the sentinel errors of \<open>pkg/xerr\<close> and the gRPC
  codes the services answer with, Go's wall-clock times and 64-bit integer arithmetic, the
  decimal printer and parser of \<open>strconv\<close>, splitting and joining of strings, and the generic
  list and string lemmas the components rest on. The collections \<open>redis_simps\<close>,
  \<open>key_simps\<close> and \<open>codec_simps\<close> gather the facts that \<open>simp add:\<close> uses across theories.
\<close>

named_theorems redis_simps "reads after writes of the Redis model"
named_theorems key_simps "distinctness and injectivity of Redis keys"
named_theorems codec_simps "round trips of the textual codecs"

section \<open>Errors\<close>

text \<open>The sentinel errors of \<open>pkg/xerr/errors.go\<close> that the modelled services return.\<close>

datatype xerr =
    ErrInvalidParam | ErrInternal
  | ErrProgramShowTimeNotFound | ErrProgramTicketCategoryNotFound
  | ErrSeatInventoryInsufficient | ErrSeatFreezeNotFound | ErrSeatFreezeRequestConflict
  | ErrSeatFreezeStatusInvalid | ErrProgramSeatLedgerNotReady | ErrProgramInventoryPreheated
  | ErrOrderNotFound | ErrOrderExpired | ErrOrderAlreadyPaid | ErrOrderStatusInvalid
  | ErrOrderRefundNotAllowed | ErrOrderRefundWindowClosed | ErrOrderRefundRuleInvalid
  | ErrOrderTicketUserInvalid | ErrOrderPurchaseLimitExceeded | ErrOrderLimitLedgerNotReady
  | ErrOrderSubmitTooFrequent | ErrOrderOperateTooFrequent | ErrPayBillNotFound
  | ErrUserAlreadyExists | ErrUserNotFound | ErrInvalidPassword | ErrLoginFailedTooMany | ErrEmailAlreadyUsed
  | ErrMobileAlreadyUsed | ErrTicketUserExists | ErrUnauthorized

text \<open>The gRPC codes used by the services.\<close>

datatype grpc_code =
    CInvalidArgument | CNotFound | CFailedPrecondition | CResourceExhausted
  | CInternal | CUnavailable | CDeadlineExceeded | CAlreadyExists | CUnauthenticated

text \<open>
  A Go error value: a sentinel, a gRPC status whose message is that of a sentinel, a gRPC
  status with a message of its own, the row-not-found error of the data models, a MySQL
  duplicate-key error naming the violated index, a timeout, or any other error with its text.
\<close>

datatype goerr =
    Sentinel xerr
  | Status grpc_code xerr
  | StatusMsg grpc_code string
  | ModelNotFound
  | Duplicate string
  | Timeout
  | Other string

type_synonym 'a res = "goerr + 'a"

text \<open>\<open>status.Code(err) != codes.Unknown\<close>: the error already is a gRPC status.\<close>

fun isStatus :: "goerr \<Rightarrow> bool" where
  "isStatus (Status _ _) = True"
| "isStatus (StatusMsg _ _) = True"
| "isStatus _ = False"

text \<open>The answer of a query for one row, and that of a statement that may fail.\<close>

definition orNotFound :: "'a option \<Rightarrow> 'a res" where
  "orNotFound r = (case r of None \<Rightarrow> Inl ModelNotFound | Some x \<Rightarrow> Inr x)"

text \<open>An error of a read, with the error a handler gives for a missing row.\<close>

definition ifMissing :: "goerr \<Rightarrow> 'a res \<Rightarrow> 'a res" where
  "ifMissing e r = (case r of Inl x \<Rightarrow> Inl (if x = ModelNotFound then e else x) | Inr a \<Rightarrow> Inr a)"

definition orFault :: "goerr option \<Rightarrow> 'a res \<Rightarrow> 'a res" where
  "orFault f r = (case f of Some e \<Rightarrow> Inl e | None \<Rightarrow> r)"

text \<open>
  A database transaction: the function sees the tables and returns an error, which rolls back, or
  the new tables; the commit may fail, or succeed without its acknowledgement arriving.
\<close>

datatype txfault = TxOk | TxFail goerr | TxLostAck goerr

definition runTx :: "txfault \<Rightarrow> ('d \<Rightarrow> 'a res \<times> 'd) \<Rightarrow> 'd \<Rightarrow> 'a res \<times> 'd" where
  "runTx flt f d =
     (case f d of
        (Inl e, _) \<Rightarrow> (Inl e, d)
      | (Inr a, d') \<Rightarrow>
          (case flt of TxOk \<Rightarrow> (Inr a, d') | TxFail e \<Rightarrow> (Inl e, d) | TxLostAck e \<Rightarrow> (Inl e, d')))"

section \<open>Go integers and times\<close>

definition int64_min :: int where "int64_min = - (2 ^ 63)"
definition int64_max :: int where "int64_max = 2 ^ 63 - 1"

definition in_int64 :: "int \<Rightarrow> bool" where
  "in_int64 i \<longleftrightarrow> int64_min \<le> i \<and> i \<le> int64_max"

text \<open>Wrap-around of a 64-bit signed result, and Go's division, which truncates towards zero.\<close>

definition wrap64 :: "int \<Rightarrow> int" where
  "wrap64 i = (i + 2 ^ 63) mod 2 ^ 64 - 2 ^ 63"

definition tdiv :: "int \<Rightarrow> int \<Rightarrow> int" where
  "tdiv a b = sgn a * sgn b * (\<bar>a\<bar> div \<bar>b\<bar>)"

lemma wrap64_id: "in_int64 i \<Longrightarrow> wrap64 i = i"
  by (simp add: in_int64_def int64_min_def int64_max_def wrap64_def)

lemma tdiv_nonneg: "0 \<le> a \<Longrightarrow> 0 < b \<Longrightarrow> tdiv a b = a div b"
  by (cases "a = 0") (simp_all add: tdiv_def)

lemma tdiv_mono:
  assumes "a \<le> a'" "0 < b" shows "tdiv a b \<le> tdiv a' b"
proof -
  have nonpos: "tdiv x b = - ((- x) div b)" if "x \<le> 0" for x
    using that assms(2) by (cases "x = 0") (simp_all add: tdiv_def)
  consider "0 \<le> a" | "a \<le> 0" "a' \<le> 0" | "a \<le> 0" "0 \<le> a'" by linarith
  then show ?thesis
  proof cases
    case 1
    then show ?thesis using assms by (simp add: tdiv_nonneg zdiv_mono1)
  next
    case 2
    then show ?thesis using assms by (simp add: nonpos zdiv_mono1)
  next
    case 3
    then show ?thesis using assms by (simp add: nonpos tdiv_nonneg) (smt (verit) pos_imp_zdiv_nonneg_iff)
  qed
qed

text \<open>
  A \<open>time.Time\<close> is its nanoseconds since the Unix epoch; \<open>None\<close> is Go's zero time, the
  one \<open>IsZero\<close> accepts.
\<close>

type_synonym gotime = "int option"

definition is_zero :: "gotime \<Rightarrow> bool" where "is_zero t \<longleftrightarrow> t = None"

definition unix_milli :: "int \<Rightarrow> int" where "unix_milli ns = ns div 1000000"
definition unix_sec :: "int \<Rightarrow> int" where "unix_sec ns = ns div 1000000000"

text \<open>\<open>int(a.Sub(b).Seconds())\<close>: whole seconds between two times, truncated towards zero.\<close>

definition sub_seconds :: "int \<Rightarrow> int \<Rightarrow> int" where
  "sub_seconds a b = tdiv (a - b) 1000000000"

section \<open>Decimal text\<close>

text \<open>\<open>strconv.FormatInt(v, 10)\<close>.\<close>

definition digit_char :: "nat \<Rightarrow> char" where
  "digit_char d = char_of (48 + d)"

definition digit_val :: "char \<Rightarrow> nat option" where
  "digit_val c = (let n = of_char c :: nat in if 48 \<le> n \<and> n \<le> 57 then Some (n - 48) else None)"

fun show_nat :: "nat \<Rightarrow> string" where
  "show_nat n = (if n < 10 then [digit_char n] else show_nat (n div 10) @ [digit_char (n mod 10)])"

declare show_nat.simps [simp del]

definition show_int :: "int \<Rightarrow> string" where
  "show_int i = (if i < 0 then CHR ''-'' # show_nat (nat (- i)) else show_nat (nat i))"

text \<open>
  \<open>strconv.ParseInt(s, 10, 64)\<close>: an optional sign and at least one digit; \<open>None\<close> is the
  syntax or range error.
\<close>

fun parse_digits :: "nat \<Rightarrow> string \<Rightarrow> nat option" where
  "parse_digits acc [] = Some acc"
| "parse_digits acc (c # cs) =
     (case digit_val c of None \<Rightarrow> None | Some d \<Rightarrow> parse_digits (10 * acc + d) cs)"

definition parse_nat :: "string \<Rightarrow> nat option" where
  "parse_nat s = (if s = [] then None else parse_digits 0 s)"

definition parse_int64 :: "string \<Rightarrow> int option" where
  "parse_int64 s =
     (case s of
        [] \<Rightarrow> None
      | c # cs \<Rightarrow>
          (let v = (if c = CHR ''-'' then map_option (\<lambda>n. - int n) (parse_nat cs)
                    else if c = CHR ''+'' then map_option int (parse_nat cs)
                    else map_option int (parse_nat s))
           in case v of None \<Rightarrow> None | Some i \<Rightarrow> (if in_int64 i then Some i else None)))"

lemma digit_val_char [simp]: "d < 10 \<Longrightarrow> digit_val (digit_char d) = Some d"
  by (simp add: digit_val_def digit_char_def Let_def)

lemma digit_char_range: "d < 10 \<Longrightarrow> 48 \<le> (of_char (digit_char d) :: nat) \<and> (of_char (digit_char d) :: nat) \<le> 57"
  by (simp add: digit_char_def)

definition is_digit :: "char \<Rightarrow> bool" where
  "is_digit c \<longleftrightarrow> digit_val c \<noteq> None"

lemma show_nat_digits: "c \<in> set (show_nat n) \<Longrightarrow> is_digit c"
proof (induction n rule: show_nat.induct)
  case (1 n)
  then show ?case
    by (cases "n < 10") (auto simp: show_nat.simps [of n] is_digit_def)
qed

lemma show_nat_nonempty [simp]: "show_nat n \<noteq> []"
  by (subst show_nat.simps) simp

lemma parse_digits_append:
  "parse_digits acc (xs @ ys) = (case parse_digits acc xs of None \<Rightarrow> None | Some a \<Rightarrow> parse_digits a ys)"
  by (induction xs arbitrary: acc) (auto split: option.splits)

lemma parse_digits_show_nat [simp]: "parse_digits 0 (show_nat n) = Some n"
proof (induction n rule: show_nat.induct)
  case (1 n)
  show ?case
  proof (cases "n < 10")
    case True
    then show ?thesis by (simp add: show_nat.simps [of n])
  next
    case False
    with "1.IH" show ?thesis
      by (simp add: show_nat.simps [of n] parse_digits_append)
  qed
qed

lemma parse_nat_show_nat [simp, codec_simps]: "parse_nat (show_nat n) = Some n"
  by (simp add: parse_nat_def)

lemma not_digit_sign [simp]: "\<not> is_digit (CHR ''-'')" "\<not> is_digit (CHR ''+'')"
  "\<not> is_digit (CHR '','')" "\<not> is_digit (CHR '':'')" "\<not> is_digit (CHR ''|'')" "\<not> is_digit (CHR ''}'')"
  by (simp_all add: is_digit_def digit_val_def)

lemma parse_int64_show_int [simp, codec_simps]: "in_int64 i \<Longrightarrow> parse_int64 (show_int i) = Some i"
proof (cases "i < 0")
  case True
  moreover assume "in_int64 i"
  ultimately show ?thesis
    by (simp add: parse_int64_def show_int_def Let_def)
next
  case False
  assume range: "in_int64 i"
  obtain c cs where s: "show_nat (nat i) = c # cs"
    using show_nat_nonempty by (metis neq_Nil_conv)
  then have "is_digit c" by (metis list.set_intros(1) show_nat_digits)
  then have c: "c \<noteq> CHR ''-''" "c \<noteq> CHR ''+''" by auto
  have p: "parse_nat (c # cs) = Some (nat i)" by (metis s parse_nat_show_nat)
  show ?thesis using False range c p
    by (simp add: parse_int64_def show_int_def s)
qed

lemma show_nat_inject [simp]: "show_nat m = show_nat n \<longleftrightarrow> m = n"
  by (metis option.inject parse_digits_show_nat)

lemma show_int_nonempty [simp]: "show_int i \<noteq> []"
  by (simp add: show_int_def)

definition num_char :: "char \<Rightarrow> bool" where
  "num_char c \<longleftrightarrow> is_digit c \<or> c = CHR ''-''"

lemma show_int_chars: "c \<in> set (show_int i) \<Longrightarrow> num_char c"
  by (auto simp: show_int_def num_char_def dest: show_nat_digits split: if_splits)

lemma show_int_inject [simp, codec_simps]: "show_int i = show_int j \<longleftrightarrow> i = j"
proof
  assume eq: "show_int i = show_int j"
  have hd: "hd (show_nat n) \<noteq> CHR ''-''" for n
    by (metis hd_in_set not_digit_sign(1) show_nat_digits show_nat_nonempty)
  from eq have "(i < 0) = (j < 0)"
    using hd by (auto simp: show_int_def split: if_splits) (metis list.sel(1))+
  with eq show "i = j" by (auto simp: show_int_def split: if_splits)
qed simp

lemma separator_notin_show_int [simp, codec_simps]:
  "CHR '','' \<notin> set (show_int i)" "CHR '':'' \<notin> set (show_int i)"
  "CHR ''|'' \<notin> set (show_int i)" "CHR ''}'' \<notin> set (show_int i)"
  by (auto dest!: show_int_chars simp: num_char_def)

section \<open>Splitting and joining\<close>

text \<open>\<open>strings.Split(s, sep)\<close> with a one-character separator.\<close>

fun split_on :: "char \<Rightarrow> string \<Rightarrow> string list" where
  "split_on c [] = [[]]"
| "split_on c (x # xs) =
     (if x = c then [] # split_on c xs
      else case split_on c xs of [] \<Rightarrow> [[x]] | w # ws \<Rightarrow> (x # w) # ws)"

text \<open>\<open>strings.Join(parts, sep)\<close>.\<close>

fun join_with :: "string \<Rightarrow> string list \<Rightarrow> string" where
  "join_with sep [] = []"
| "join_with sep [w] = w"
| "join_with sep (w # ws) = w @ sep @ join_with sep ws"

text \<open>\<open>strings.TrimSpace\<close> on ASCII text.\<close>

definition is_space :: "char \<Rightarrow> bool" where
  "is_space c \<longleftrightarrow> (let n = of_char c :: nat in n = 32 \<or> (9 \<le> n \<and> n \<le> 13))"

definition trim_space :: "string \<Rightarrow> string" where
  "trim_space s = rev (dropWhile is_space (rev (dropWhile is_space s)))"

lemma split_on_nonempty [simp]: "split_on c s \<noteq> []"
  by (induction s) (auto split: list.splits)

lemma split_on_free: "c \<notin> set w \<Longrightarrow> split_on c w = [w]"
  by (induction w) auto

lemma split_on_sep: "c \<notin> set w \<Longrightarrow> split_on c (w @ c # s) = w # split_on c s"
  by (induction w) (auto split: list.splits)

lemma split_join [codec_simps]:
  "ws \<noteq> [] \<Longrightarrow> \<forall>w \<in> set ws. c \<notin> set w \<Longrightarrow> split_on c (join_with [c] ws) = ws"
  by (induction "[c]" ws rule: join_with.induct) (simp_all add: split_on_free split_on_sep)

lemma separator_unique:
  assumes "c \<notin> set xs" "c \<notin> set xs'" "xs @ c # ys = xs' @ c # ys'"
  shows "xs = xs' \<and> ys = ys'"
  using assms by (induction xs arbitrary: xs') (auto simp: Cons_eq_append_conv append_eq_Cons_conv)

lemma trim_space_id: "\<forall>c \<in> set s. \<not> is_space c \<Longrightarrow> trim_space s = s"
proof -
  assume a: "\<forall>c \<in> set s. \<not> is_space c"
  have d: "dropWhile is_space t = t" if "\<forall>c \<in> set t. \<not> is_space c" for t
    using that by (cases t) auto
  have "dropWhile is_space s = s" "dropWhile is_space (rev s) = rev s"
    using a d [of s] d [of "rev s"] by auto
  then show ?thesis by (simp add: trim_space_def)
qed

lemma num_char_not_space: "num_char c \<Longrightarrow> \<not> is_space c"
  by (auto simp: num_char_def is_digit_def digit_val_def is_space_def Let_def split: if_splits)

lemma trim_space_show_int [simp, codec_simps]: "trim_space (show_int i) = show_int i"
  by (rule trim_space_id) (auto dest: show_int_chars num_char_not_space)

section \<open>Searching lists\<close>

lemma find_unique_key:
  assumes "distinct (map k xs)" "x \<in> set xs" "P x"
  shows "find (\<lambda>y. P y \<and> k y = k x) xs = Some x"
  using assms by (induction xs) (auto simp: rev_image_eqI)

lemma find_someD: "find P xs = Some x \<Longrightarrow> x \<in> set xs \<and> P x"
  by (auto simp: find_Some_iff)

section \<open>Sources whose key grows at every step\<close>

text \<open>The states a partial step function passes through on a list of inputs.\<close>

fun trace :: "('s \<Rightarrow> 'i \<Rightarrow> 's option) \<Rightarrow> 's \<Rightarrow> 'i list \<Rightarrow> 's list option" where
  "trace step s [] = Some []"
| "trace step s (i # is) =
     (case step s i of None \<Rightarrow> None | Some s' \<Rightarrow> map_option (\<lambda>ss. s' # ss) (trace step s' is))"

locale increasing_source =
  fixes step :: "'s \<Rightarrow> 'i \<Rightarrow> 's option"
    and key :: "'s \<Rightarrow> 'k::linorder"
  assumes step_increases: "step s i = Some s' \<Longrightarrow> key s < key s'"
begin

lemma trace_increasing:
  "trace step s is = Some ss \<Longrightarrow> sorted_wrt (<) (key s # map key ss)"
proof (induction "is" arbitrary: s ss)
  case Nil
  then show ?case by simp
next
  case (Cons i "is")
  then obtain s' ss' where s: "step s i = Some s'" "trace step s' is = Some ss'" "ss = s' # ss'"
    by (auto split: option.splits)
  from Cons.IH [OF s(2)] step_increases [OF s(1)] show ?case
    by (auto simp: s(3) intro: less_trans)
qed

lemma trace_keys_distinct: "trace step s is = Some ss \<Longrightarrow> distinct (map key ss)"
  by (drule trace_increasing) (simp add: strict_sorted_iff)

end

section \<open>Invariants of step relations, and pools whose total is kept\<close>

text \<open>
  Every stateful component is a step relation with an invariant; what one step keeps, a run
  keeps.
\<close>

locale step_invariant =
  fixes step :: "'s \<Rightarrow> 's \<Rightarrow> bool"
    and inv :: "'s \<Rightarrow> bool"
  assumes inv_step: "inv s \<Longrightarrow> step s s' \<Longrightarrow> inv s'"
begin

lemma run_inv: "step\<^sup>*\<^sup>* s s' \<Longrightarrow> inv s \<Longrightarrow> inv s'"
  by (induction rule: rtranclp_induct) (auto intro: inv_step)

lemma run_stable:
  assumes "step\<^sup>*\<^sup>* s s'" "inv s" "P s"
    and keeps: "\<And>t t'. inv t \<Longrightarrow> step t t' \<Longrightarrow> P t \<Longrightarrow> P t'"
  shows "P s'"
  using assms(1-3)
proof (induction rule: rtranclp_induct)
  case (step y z)
  then show ?case using run_inv [of s y] keeps [of y z] by simp
qed

end

text \<open>
  The contract between a store that lends tickets or seats and its clients: every step keeps the
  invariant and the sum of what is available and what is held.
\<close>

locale ticket_pool = step_invariant step inv
  for step :: "'s \<Rightarrow> 's \<Rightarrow> bool" and inv :: "'s \<Rightarrow> bool" +
  fixes avail :: "'s \<Rightarrow> int"
    and held :: "'s \<Rightarrow> int"
  assumes total_step: "inv s \<Longrightarrow> step s s' \<Longrightarrow> avail s' + held s' = avail s + held s"
    and avail_nonneg: "inv s \<Longrightarrow> 0 \<le> avail s"
begin

lemma run_total: "step\<^sup>*\<^sup>* s s' \<Longrightarrow> inv s \<Longrightarrow> avail s' + held s' = avail s + held s"
proof (induction rule: rtranclp_induct)
  case (step y z)
  then show ?case using run_inv [of s y] total_step [of y z] by simp
qed simp

lemma never_oversold: "step\<^sup>*\<^sup>* s s' \<Longrightarrow> inv s \<Longrightarrow> held s' \<le> avail s + held s"
  using run_total [of s s'] run_inv [of s s'] avail_nonneg [of s'] by simp

end

end
