(* ===== verification/Sharding.thy ===== *)
theory Sharding
  imports Prelude
begin

unbundle bit_operations_syntax

text \<open>
  The order-number sharding of \<open>services/order-rpc/sharding\<close>: the gene of a user
  (\<open>logic_slot.go\<close>), the bit layout of an order number (\<open>order_number_codec.go\<close>), the
  versioned route map (\<open>route_map.go\<close>) and the static router (\<open>router.go\<close>). Order numbers
  are \<open>int64\<close> values; \<open>drop_bit\<close> on \<open>int\<close> is Go's arithmetic shift. The hash of a user
  identifier works on \<open>uint64\<close> and is written over \<open>64 word\<close>, so its multiplications wrap.
\<close>

section \<open>Genes and logic slots\<close>

definition orderNumberEpoch :: int where "orderNumberEpoch = 1767225600"
definition logicSlotCount :: int where "logicSlotCount = 1024"
definition maxWorkerID :: int where "maxWorkerID = 1023"
definition maxSequence :: int where "maxSequence = 4095"
definition maxOrderTimePart :: int where "maxOrderTimePart = 2147483647"

definition splitMix64 :: "64 word \<Rightarrow> 64 word" where
  "splitMix64 v0 =
     (let v1 = v0 + 0x9e3779b97f4a7c15;
          v2 = (v1 XOR drop_bit 30 v1) * 0xbf58476d1ce4e5b9;
          v3 = (v2 XOR drop_bit 27 v2) * 0x94d049bb133111eb
      in v3 XOR drop_bit 31 v3)"

definition genePartsByUserID :: "int \<Rightarrow> int \<times> int" where
  "genePartsByUserID userID =
     (let mixed = splitMix64 (word_of_int userID)
      in (uint (mixed AND 31), uint (drop_bit 5 mixed AND 31)))"

definition LogicSlotByUserID :: "int \<Rightarrow> int" where
  "LogicSlotByUserID userID =
     (case genePartsByUserID userID of (dbGene, tableGene) \<Rightarrow> push_bit 5 dbGene OR tableGene)"

section \<open>Order numbers\<close>

record OrderNumberParts =
  TimePart :: int
  DBGene :: int
  TableGene :: int
  WorkerID :: int
  Sequence :: int

definition LogicSlot :: "OrderNumberParts \<Rightarrow> int" where
  "LogicSlot p = push_bit 5 (DBGene p) OR TableGene p"

text \<open>\<open>Inl\<close> is the panic; \<open>sec\<close> is the Unix second of the \<open>now\<close> argument.\<close>

definition BuildOrderNumber :: "int \<Rightarrow> int \<Rightarrow> int \<Rightarrow> int \<Rightarrow> int res" where
  "BuildOrderNumber userID sec workerID seq =
     (case genePartsByUserID userID of (dbGene, tableGene) \<Rightarrow>
      let timePart = sec - orderNumberEpoch in
      if timePart < 0 \<or> timePart > maxOrderTimePart then Inl (Other ''order number time out of range'')
      else if workerID < 0 \<or> workerID > maxWorkerID then Inl (Other ''worker id out of range'')
      else if seq < 0 \<or> seq > maxSequence then Inl (Other ''sequence out of range'')
      else Inr (push_bit 32 timePart OR push_bit 27 dbGene OR push_bit 22 tableGene
                OR push_bit 12 workerID OR seq))"

definition isOldFormatOrderNumber :: "int \<Rightarrow> int \<Rightarrow> bool" where
  "isOldFormatOrderNumber nowSec timePart =
     (if timePart < 0 \<or> timePart > maxOrderTimePart then True
      else timePart > (nowSec - orderNumberEpoch) + 7 * 24 * 60 * 60)"

definition ParseOrderNumber :: "int \<Rightarrow> int \<Rightarrow> OrderNumberParts res" where
  "ParseOrderNumber nowSec orderNumber =
     (if orderNumber \<le> 0 then Inl (Other ''invalid order number'')
      else let timePart = drop_bit 32 orderNumber in
        if isOldFormatOrderNumber nowSec timePart then Inl (Other ''invalid order number'')
        else Inr \<lparr>TimePart = timePart,
                  DBGene = drop_bit 27 orderNumber AND 31,
                  TableGene = drop_bit 22 orderNumber AND 31,
                  WorkerID = drop_bit 12 orderNumber AND maxWorkerID,
                  Sequence = orderNumber AND maxSequence\<rparr>)"

definition LogicSlotByOrderNumber :: "int \<Rightarrow> int \<Rightarrow> int res" where
  "LogicSlotByOrderNumber nowSec orderNumber =
     (case ParseOrderNumber nowSec orderNumber of
        Inl e \<Rightarrow> Inl e
      | Inr parts \<Rightarrow> Inr (LogicSlot parts))"

section \<open>The route map\<close>

record RouteEntry =
  Version :: string
  EntrySlot :: int
  DBKey :: string
  TableSuffix :: string
  RStatus :: string
  WriteMode :: string

text \<open>A \<open>Route\<close> has the same six fields as a \<open>RouteEntry\<close>.\<close>

type_synonym Route = RouteEntry

record RouteMap =
  currentVersion :: string
  entries :: "string \<rightharpoonup> (int \<rightharpoonup> RouteEntry)"

definition RouteStatusStable :: string where "RouteStatusStable = ''stable''"
definition WriteModeShardPrimary :: string where "WriteModeShardPrimary = ''shard_primary''"

definition isSupportedRouteStatus :: "string \<Rightarrow> bool" where
  "isSupportedRouteStatus status = (status = RouteStatusStable)"

definition isSupportedWriteMode :: "string \<Rightarrow> bool" where
  "isSupportedWriteMode mode = (mode = WriteModeShardPrimary)"

definition ErrInvalidRouteEntry :: goerr where "ErrInvalidRouteEntry = Other ''invalid route entry''"
definition ErrRouteNotFound :: goerr where "ErrRouteNotFound = Other ''route not found''"
definition ErrRouteVersionMissing :: goerr where
  "ErrRouteVersionMissing = Other ''route map version missing''"

definition validateRouteStatusWriteMode :: "string \<Rightarrow> string \<Rightarrow> goerr option" where
  "validateRouteStatusWriteMode status writeMode =
     (if status \<noteq> RouteStatusStable then Some ErrInvalidRouteEntry
      else if writeMode \<noteq> WriteModeShardPrimary then Some ErrInvalidRouteEntry
      else None)"

definition validateRouteEntry :: "RouteEntry \<Rightarrow> goerr option" where
  "validateRouteEntry entry =
     (if Version entry = [] \<or> DBKey entry = [] \<or> TableSuffix entry = [] then Some ErrInvalidRouteEntry
      else if EntrySlot entry < 0 \<or> EntrySlot entry \<ge> logicSlotCount then Some ErrInvalidRouteEntry
      else if \<not> isSupportedRouteStatus (RStatus entry) then Some ErrInvalidRouteEntry
      else if \<not> isSupportedWriteMode (WriteMode entry) then Some ErrInvalidRouteEntry
      else validateRouteStatusWriteMode (RStatus entry) (WriteMode entry))"

fun addRouteEntries :: "RouteMap \<Rightarrow> RouteEntry list \<Rightarrow> RouteMap res" where
  "addRouteEntries snapshot [] = Inr snapshot"
| "addRouteEntries snapshot (entry # rest) =
     (case validateRouteEntry entry of
        Some e \<Rightarrow> Inl e
      | None \<Rightarrow>
          (let slots = (case entries snapshot (Version entry) of None \<Rightarrow> Map.empty | Some m \<Rightarrow> m)
           in if slots (EntrySlot entry) \<noteq> None then Inl ErrInvalidRouteEntry
              else addRouteEntries
                     (snapshot\<lparr>entries := (entries snapshot)(Version entry \<mapsto> slots(EntrySlot entry \<mapsto> entry))\<rparr>)
                     rest))"

definition NewRouteMap :: "string \<Rightarrow> RouteEntry list \<Rightarrow> RouteMap res" where
  "NewRouteMap version es =
     (if version = [] then Inl ErrRouteVersionMissing
      else case addRouteEntries \<lparr>currentVersion = version, entries = Map.empty\<rparr> es of
             Inl e \<Rightarrow> Inl e
           | Inr snapshot \<Rightarrow>
               (if entries snapshot version = None then Inl ErrRouteVersionMissing else Inr snapshot))"

definition RouteByVersionAndSlot :: "RouteMap \<Rightarrow> string \<Rightarrow> int \<Rightarrow> Route res" where
  "RouteByVersionAndSlot m version logicSlot =
     (case entries m version of
        None \<Rightarrow> Inl ErrRouteNotFound
      | Some versionEntries \<Rightarrow>
          (case versionEntries logicSlot of None \<Rightarrow> Inl ErrRouteNotFound | Some entry \<Rightarrow> Inr entry))"

definition RouteByLogicSlot :: "RouteMap \<Rightarrow> int \<Rightarrow> Route res" where
  "RouteByLogicSlot m logicSlot = RouteByVersionAndSlot m (currentVersion m) logicSlot"

definition ValidateRouteStatusTransition :: "string \<Rightarrow> string \<Rightarrow> goerr option" where
  "ValidateRouteStatusTransition from to =
     (if \<not> isSupportedRouteStatus from then Some ErrInvalidRouteEntry
      else if \<not> isSupportedRouteStatus to then Some ErrInvalidRouteEntry
      else if \<not> (from = RouteStatusStable \<and> to = RouteStatusStable) then Some ErrInvalidRouteEntry
      else None)"

section \<open>The static router\<close>

definition RouteByUserID :: "RouteMap \<Rightarrow> int \<Rightarrow> Route res" where
  "RouteByUserID m userID = RouteByLogicSlot m (LogicSlotByUserID userID)"

definition RouteByOrderNumber :: "RouteMap \<Rightarrow> int \<Rightarrow> int \<Rightarrow> Route res" where
  "RouteByOrderNumber m nowSec orderNumber =
     (case LogicSlotByOrderNumber nowSec orderNumber of
        Inl e \<Rightarrow> Inl e
      | Inr logicSlot \<Rightarrow> RouteByLogicSlot m logicSlot)"

section \<open>Bit layout lemmas\<close>

text \<open>A non-negative integer below \<open>2 ^ k\<close> has no bit at or above position \<open>k\<close>.\<close>

lemma no_high_bits: "0 \<le> (a::int) \<Longrightarrow> a < 2 ^ k \<Longrightarrow> k \<le> n \<Longrightarrow> \<not> bit a n"
proof -
  assume a: "0 \<le> a" "a < 2 ^ k" and kn: "k \<le> n"
  then have "take_bit k a = a" by (simp add: take_bit_int_eq_self_iff)
  then have "bit a n = bit (take_bit k a) n" by simp
  with kn show "\<not> bit a n" by (simp add: bit_take_bit_iff)
qed

lemma gene_bounds:
  assumes "genePartsByUserID u = (d, t)"
  shows "0 \<le> d \<and> d < 32 \<and> 0 \<le> t \<and> t < 32"
proof -
  have b: "uint (w AND (31 :: 64 word)) < 32" for w
  proof -
    have "w AND 31 \<le> 31" by (rule word_and_le1)
    then show ?thesis by (simp add: word_le_def)
  qed
  from assms b show ?thesis by (auto simp: genePartsByUserID_def Let_def)
qed

text \<open>The five fields of an order number, packed and unpacked.\<close>

definition pack :: "int \<Rightarrow> int \<Rightarrow> int \<Rightarrow> int \<Rightarrow> int \<Rightarrow> int" where
  "pack tp d t w q = push_bit 32 tp OR push_bit 27 d OR push_bit 22 t OR push_bit 12 w OR q"

definition fields_ok :: "int \<Rightarrow> int \<Rightarrow> int \<Rightarrow> int \<Rightarrow> int \<Rightarrow> bool" where
  "fields_ok tp d t w q \<longleftrightarrow> 0 \<le> tp \<and> tp < 2 ^ 31 \<and> 0 \<le> d \<and> d < 2 ^ 5 \<and> 0 \<le> t \<and> t < 2 ^ 5
     \<and> 0 \<le> w \<and> w < 2 ^ 10 \<and> 0 \<le> q \<and> q < 2 ^ 12"

lemma pack_arith:
  assumes "fields_ok tp d t w q"
  shows "pack tp d t w q = tp * 2 ^ 32 + d * 2 ^ 27 + t * 2 ^ 22 + w * 2 ^ 12 + q"
proof -
  have disj: "push_bit k a OR b = push_bit k a + b" if "0 \<le> b" "b < 2 ^ k" for k and a b :: int
    by (rule disjunctive_add [symmetric]) (use no_high_bits [OF that] in \<open>auto simp: bit_push_bit_iff\<close>)
  have b: "0 \<le> tp" "tp < 2 ^ 31" "0 \<le> d" "d < 2 ^ 5" "0 \<le> t" "t < 2 ^ 5" "0 \<le> w" "w < 2 ^ 10" "0 \<le> q" "q < 2 ^ 12"
    using assms by (simp_all add: fields_ok_def)
  have 1: "push_bit 12 w OR q = w * 2 ^ 12 + q"
    using b disj [of q 12 w] by (simp add: push_bit_eq_mult)
  have 2: "push_bit 22 t OR (w * 2 ^ 12 + q) = t * 2 ^ 22 + (w * 2 ^ 12 + q)"
    using b disj [of "w * 2 ^ 12 + q" 22 t] by (simp add: push_bit_eq_mult)
  have 3: "push_bit 27 d OR (t * 2 ^ 22 + (w * 2 ^ 12 + q)) = d * 2 ^ 27 + (t * 2 ^ 22 + (w * 2 ^ 12 + q))"
    using b disj [of "t * 2 ^ 22 + (w * 2 ^ 12 + q)" 27 d] by (simp add: push_bit_eq_mult)
  have 4: "push_bit 32 tp OR (d * 2 ^ 27 + (t * 2 ^ 22 + (w * 2 ^ 12 + q)))
      = tp * 2 ^ 32 + (d * 2 ^ 27 + (t * 2 ^ 22 + (w * 2 ^ 12 + q)))"
    using b disj [of "d * 2 ^ 27 + (t * 2 ^ 22 + (w * 2 ^ 12 + q))" 32 tp] by (simp add: push_bit_eq_mult)
  show ?thesis
    unfolding pack_def or.assoc 1 2 3 4 by simp
qed

lemma mask_mod:
  "(x::int) AND 31 = x mod 32" "x AND maxWorkerID = x mod 1024" "x AND maxSequence = x mod 4096"
  using take_bit_eq_mask [of 5 x] take_bit_eq_mask [of 10 x] take_bit_eq_mask [of 12 x]
  by (simp_all add: maxWorkerID_def maxSequence_def mask_eq_exp_minus_1 take_bit_eq_mod)

lemma unpack:
  assumes "fields_ok tp d t w q"
  shows "drop_bit 32 (pack tp d t w q) = tp" "drop_bit 27 (pack tp d t w q) AND 31 = d"
    "drop_bit 22 (pack tp d t w q) AND 31 = t" "drop_bit 12 (pack tp d t w q) AND maxWorkerID = w"
    "pack tp d t w q AND maxSequence = q"
proof -
  have b: "0 \<le> d" "d < 32" "0 \<le> t" "t < 32" "0 \<le> w" "w < 1024" "0 \<le> q" "q < 4096"
    using assms by (simp_all add: fields_ok_def)
  let ?n = "tp * 2 ^ 32 + d * 2 ^ 27 + t * 2 ^ 22 + w * 2 ^ 12 + q"
  note p = pack_arith [OF assms]
  from b show "drop_bit 32 (pack tp d t w q) = tp" by (simp add: p drop_bit_eq_div)
  from b have "?n div 2 ^ 27 = tp * 32 + d" by simp
  with b show "drop_bit 27 (pack tp d t w q) AND 31 = d" by (simp add: p mask_mod drop_bit_eq_div)
  from b have e22: "?n div 2 ^ 22 = (tp * 32 + d) * 32 + t" by simp
  have "((tp * 32 + d) * 32 + t) mod 32 = t" using b by (metis mod_mult_self3 mod_pos_pos_trivial)
  with e22 show "drop_bit 22 (pack tp d t w q) AND 31 = t" by (simp only: p mask_mod drop_bit_eq_div)
  from b have e12: "?n div 2 ^ 12 = ((tp * 32 + d) * 32 + t) * 1024 + w" by simp
  have "(((tp * 32 + d) * 32 + t) * 1024 + w) mod 1024 = w" using b by (metis mod_mult_self3 mod_pos_pos_trivial)
  with e12 show "drop_bit 12 (pack tp d t w q) AND maxWorkerID = w" by (simp only: p mask_mod drop_bit_eq_div)
  have e0: "?n = (((tp * 32 + d) * 32 + t) * 1024 + w) * 4096 + q" by simp
  have "((((tp * 32 + d) * 32 + t) * 1024 + w) * 4096 + q) mod 4096 = q" using b by (metis mod_mult_self3 mod_pos_pos_trivial)
  with e0 show "pack tp d t w q AND maxSequence = q" by (simp only: p mask_mod)
qed

text \<open>What a successful build says of its arguments and of its result.\<close>

lemma BuildOrderNumber_Inr:
  assumes "BuildOrderNumber u sec w q = Inr n"
  obtains d t where "genePartsByUserID u = (d, t)" "n = pack (sec - orderNumberEpoch) d t w q"
    "fields_ok (sec - orderNumberEpoch) d t w q"
proof -
  obtain d t where g: "genePartsByUserID u = (d, t)" by (cases "genePartsByUserID u")
  with assms gene_bounds [OF g] show ?thesis
    by (intro that [of d t])
      (auto simp: BuildOrderNumber_def pack_def fields_ok_def Let_def maxOrderTimePart_def
        maxWorkerID_def maxSequence_def split: if_splits)
qed

lemma BuildOrderNumber_bounds:
  assumes "BuildOrderNumber u sec w q = Inr n"
  shows "0 \<le> n \<and> n < 2 ^ 63"
  using assms by (rule BuildOrderNumber_Inr) (auto simp: pack_arith fields_ok_def)

lemma BuildOrderNumber_inject:
  assumes "BuildOrderNumber u sec w q = Inr n" and "BuildOrderNumber u' sec' w' q' = Inr n"
  shows "sec = sec' \<and> w = w' \<and> q = q' \<and> genePartsByUserID u = genePartsByUserID u' \<and> in_int64 n"
proof -
  obtain d t where 1: "genePartsByUserID u = (d, t)" "n = pack (sec - orderNumberEpoch) d t w q"
    "fields_ok (sec - orderNumberEpoch) d t w q" using assms(1) by (rule BuildOrderNumber_Inr)
  obtain d' t' where 2: "genePartsByUserID u' = (d', t')" "n = pack (sec' - orderNumberEpoch) d' t' w' q'"
    "fields_ok (sec' - orderNumberEpoch) d' t' w' q'" using assms(2) by (rule BuildOrderNumber_Inr)
  have "in_int64 n" using BuildOrderNumber_bounds [OF assms(1)]
    by (simp add: in_int64_def int64_min_def int64_max_def)
  then show ?thesis
    using 1 2 unpack [OF 1(3)] unpack [OF 2(3)] by auto
qed

lemma ParseOrderNumber_Build:
  assumes "BuildOrderNumber u sec w q = Inr n" "0 < n" "sec \<le> nowSec + 7 * 24 * 60 * 60"
  shows "\<exists>d t. genePartsByUserID u = (d, t) \<and> ParseOrderNumber nowSec n =
    Inr \<lparr>TimePart = sec - orderNumberEpoch, DBGene = d, TableGene = t, WorkerID = w, Sequence = q\<rparr>"
proof -
  obtain d t where g: "genePartsByUserID u = (d, t)" and n: "n = pack (sec - orderNumberEpoch) d t w q"
    and f: "fields_ok (sec - orderNumberEpoch) d t w q"
    using assms(1) by (rule BuildOrderNumber_Inr)
  have "\<not> isOldFormatOrderNumber nowSec (sec - orderNumberEpoch)"
    using f assms(3) by (simp add: isOldFormatOrderNumber_def fields_ok_def maxOrderTimePart_def)
  with f assms(2) have "ParseOrderNumber nowSec n =
      Inr \<lparr>TimePart = sec - orderNumberEpoch, DBGene = d, TableGene = t, WorkerID = w, Sequence = q\<rparr>"
    unfolding n ParseOrderNumber_def by (simp add: unpack [OF f])
  with g show ?thesis by blast
qed

lemma LogicSlotByOrderNumber_Build:
  assumes "BuildOrderNumber u sec w q = Inr n" "0 < n" "sec \<le> nowSec + 7 * 24 * 60 * 60"
  shows "LogicSlotByOrderNumber nowSec n = Inr (LogicSlotByUserID u)"
  using ParseOrderNumber_Build [OF assms]
  by (auto simp: LogicSlotByOrderNumber_def LogicSlotByUserID_def LogicSlot_def)

lemma slot_bound:
  assumes "0 \<le> d" "d < 32" "0 \<le> t" "t < (32::int)"
  shows "0 \<le> push_bit 5 d OR t \<and> push_bit 5 d OR t < logicSlotCount"
proof -
  have "push_bit 5 d OR t = push_bit 5 d + t"
    by (rule disjunctive_add [symmetric]) (use assms no_high_bits [of t 5] in \<open>auto simp: bit_push_bit_iff\<close>)
  with assms show ?thesis by (simp add: push_bit_eq_mult logicSlotCount_def)
qed

lemma LogicSlotByUserID_bound: "0 \<le> LogicSlotByUserID u \<and> LogicSlotByUserID u < logicSlotCount"
proof -
  obtain d t where g: "genePartsByUserID u = (d, t)" by (cases "genePartsByUserID u")
  with gene_bounds [OF g] slot_bound [of d t] show ?thesis by (simp add: LogicSlotByUserID_def)
qed

section \<open>The routing contract\<close>

text \<open>
  What the repository relies on: an order number issued for a user is routed where the user is.
\<close>

locale gene_router =
  fixes issue :: "int \<Rightarrow> int \<Rightarrow> int \<Rightarrow> int \<Rightarrow> int res"
    and by_user :: "int \<Rightarrow> 'route res"
    and by_order :: "int \<Rightarrow> int \<Rightarrow> 'route res"
  assumes order_follows_user:
    "issue u sec w q = Inr n \<Longrightarrow> 0 < n \<Longrightarrow> sec \<le> nowSec + 7 * 24 * 60 * 60 \<Longrightarrow> by_order nowSec n = by_user u"
begin

lemma orders_of_user_colocated:
  assumes "issue u sec w q = Inr n" "0 < n" "sec \<le> nowSec + 7 * 24 * 60 * 60"
    and "issue u sec' w' q' = Inr n'" "0 < n'" "sec' \<le> nowSec + 7 * 24 * 60 * 60"
  shows "by_order nowSec n = by_order nowSec n'"
  using assms by (simp add: order_follows_user)

lemma route_stable:
  assumes "issue u sec w q = Inr n" "0 < n" "sec \<le> nowSec + 7 * 24 * 60 * 60" "nowSec \<le> later"
  shows "by_order later n = by_order nowSec n"
  using assms order_follows_user [of u sec w q n nowSec] order_follows_user [of u sec w q n later] by simp

end

interpretation static_router: gene_router BuildOrderNumber "RouteByUserID m" "RouteByOrderNumber m" for m
  by unfold_locales (simp add: RouteByOrderNumber_def RouteByUserID_def LogicSlotByOrderNumber_Build)

section \<open>Route map lemmas\<close>

definition lookup_entry :: "RouteMap \<Rightarrow> string \<Rightarrow> int \<Rightarrow> RouteEntry option" where
  "lookup_entry m v s = Option.bind (entries m v) (\<lambda>slots. slots s)"

lemma addRouteEntries_spec:
  "addRouteEntries m es = Inr m' \<Longrightarrow>
     currentVersion m' = currentVersion m
     \<and> (\<forall>v s. lookup_entry m' v s =
          (case lookup_entry m v s of Some e \<Rightarrow> Some e
           | None \<Rightarrow> find (\<lambda>e. Version e = v \<and> EntrySlot e = s) es))
     \<and> (\<forall>e \<in> set es. validateRouteEntry e = None)
     \<and> (\<forall>v. entries m' v \<noteq> None \<longleftrightarrow> entries m v \<noteq> None \<or> v \<in> Version ` set es)
     \<and> distinct (map (\<lambda>e. (Version e, EntrySlot e)) es)
     \<and> (\<forall>e \<in> set es. lookup_entry m (Version e) (EntrySlot e) = None)"
proof (induction es arbitrary: m)
  case Nil
  then show ?case by (auto split: option.splits)
next
  case (Cons e es)
  let ?slots = "case entries m (Version e) of None \<Rightarrow> Map.empty | Some x \<Rightarrow> x"
  let ?m1 = "m\<lparr>entries := (entries m)(Version e \<mapsto> ?slots(EntrySlot e \<mapsto> e))\<rparr>"
  from Cons.prems have v: "validateRouteEntry e = None" and s: "?slots (EntrySlot e) = None"
    and r: "addRouteEntries ?m1 es = Inr m'"
    by (auto simp: Let_def split: option.splits if_splits)
  have l: "lookup_entry ?m1 v' s' =
      (if v' = Version e \<and> s' = EntrySlot e then Some e else lookup_entry m v' s')" for v' s'
    by (auto simp: lookup_entry_def split: option.splits)
  have n: "lookup_entry m (Version e) (EntrySlot e) = None"
    using s by (auto simp: lookup_entry_def split: option.splits)
  from Cons.IH [OF r] v n show ?case
    by (auto simp: l split: option.splits if_splits)
qed

lemma NewRouteMap_Inr:
  assumes "NewRouteMap version es = Inr m"
  shows "currentVersion m = version"
    and "lookup_entry m v s = find (\<lambda>e. Version e = v \<and> EntrySlot e = s) es"
    and "\<forall>e \<in> set es. validateRouteEntry e = None"
    and "distinct (map (\<lambda>e. (Version e, EntrySlot e)) es)"
    and "version \<in> Version ` set es"
proof -
  from assms have r: "addRouteEntries \<lparr>currentVersion = version, entries = Map.empty\<rparr> es = Inr m"
    and e: "entries m version \<noteq> None"
    by (auto simp: NewRouteMap_def split: if_splits sum.splits)
  note sp = addRouteEntries_spec [OF r]
  from sp show "currentVersion m = version" by simp
  from sp show "lookup_entry m v s = find (\<lambda>e. Version e = v \<and> EntrySlot e = s) es"
    by (simp add: lookup_entry_def)
  from sp show "\<forall>e \<in> set es. validateRouteEntry e = None" by blast
  from sp show "distinct (map (\<lambda>e. (Version e, EntrySlot e)) es)" by blast
  from sp e show "version \<in> Version ` set es" by simp
qed

lemma RouteByLogicSlot_lookup:
  "RouteByLogicSlot m s = (case lookup_entry m (currentVersion m) s of None \<Rightarrow> Inl ErrRouteNotFound | Some e \<Rightarrow> Inr e)"
  by (auto simp: RouteByLogicSlot_def RouteByVersionAndSlot_def lookup_entry_def split: option.splits)

lemma find_distinct_key:
  "distinct (map f es) \<Longrightarrow> e \<in> set es \<Longrightarrow> find (\<lambda>x. f x = f e) es = Some e"
  by (induction es) (auto simp: image_iff)

section \<open>Properties\<close>

text \<open>
  C23. Gene routing: the order number issued to a user is routed to the shard of that user, so a
  lookup by order number and a listing by user reach the same database and tables.
\<close>

theorem route_order_follows_user:
  assumes "BuildOrderNumber userID sec workerID seq = Inr n" "0 < n"
    and "sec \<le> nowSec + 7 * 24 * 60 * 60"
  shows "RouteByOrderNumber m nowSec n = RouteByUserID m userID"
  using assms by (rule static_router.order_follows_user)

theorem route_order_follows_user_witness:
  "BuildOrderNumber 10001 1777356000 256 0 = Inr 43509738860707840 \<and>
   RouteByOrderNumber \<lparr>currentVersion = ''v1'', entries = Map.empty\<rparr> 1777356000 43509738860707840 =
     RouteByUserID \<lparr>currentVersion = ''v1'', entries = Map.empty\<rparr> 10001"
proof -
  have h: "BuildOrderNumber 10001 1777356000 256 0 = Inr 43509738860707840" by code_simp
  show ?thesis using h route_order_follows_user [OF h] by simp
qed

text \<open>
  Round trip of the order-number layout: parsing an issued number gives back its second, the
  genes of the user, the worker and the sequence.
\<close>

theorem parse_build_roundtrip:
  assumes "BuildOrderNumber userID sec workerID seq = Inr n" "0 < n"
    and "sec \<le> nowSec + 7 * 24 * 60 * 60"
  shows "ParseOrderNumber nowSec n = Inr \<lparr>TimePart = sec - orderNumberEpoch,
      DBGene = fst (genePartsByUserID userID), TableGene = snd (genePartsByUserID userID),
      WorkerID = workerID, Sequence = seq\<rparr>"
  using ParseOrderNumber_Build [OF assms] by auto

theorem parse_build_roundtrip_witness:
  "BuildOrderNumber 10001 1777356000 7 4095 = Inr 43509738859692031 \<and>
   ParseOrderNumber 1777356000 43509738859692031 = Inr \<lparr>TimePart = 10130400,
      DBGene = 16, TableGene = 4, WorkerID = 7, Sequence = 4095\<rparr>"
proof -
  have h: "BuildOrderNumber 10001 1777356000 7 4095 = Inr 43509738859692031" by code_simp
  have g: "genePartsByUserID 10001 = (16, 4)" by code_simp
  show ?thesis using h parse_build_roundtrip [OF h, of 1777356000] by (simp add: g orderNumberEpoch_def)
qed

text \<open>
  C39. Order numbers are positive-range 64-bit values and determine their fields: two calls that
  return the same number agree on second, worker, sequence and genes.
\<close>

theorem build_injective:
  assumes "BuildOrderNumber u sec w q = Inr n" and "BuildOrderNumber u' sec' w' q' = Inr n"
  shows "sec = sec' \<and> w = w' \<and> q = q' \<and> genePartsByUserID u = genePartsByUserID u' \<and> in_int64 n"
  using assms by (rule BuildOrderNumber_inject)

theorem build_injective_witness:
  "BuildOrderNumber 10001 1777356000 7 1 = Inr 43509738859687937 \<and> in_int64 43509738859687937"
proof -
  have h: "BuildOrderNumber 10001 1777356000 7 1 = Inr 43509738859687937" by code_simp
  show ?thesis using h build_injective [OF h h] by simp
qed

text \<open>
  A route map that loads is unambiguous: every entry of the current version is found under its
  slot, every route returned is one of the loaded entries, and each is valid.
\<close>

theorem route_map_lookup:
  assumes "NewRouteMap version es = Inr m"
  shows "(\<forall>e. e \<in> set es \<and> Version e = version \<longrightarrow> RouteByLogicSlot m (EntrySlot e) = Inr e)
    \<and> (\<forall>s r. RouteByLogicSlot m s = Inr r \<longrightarrow>
         r \<in> set es \<and> Version r = version \<and> EntrySlot r = s \<and> validateRouteEntry r = None)"
proof -
  note sp = NewRouteMap_Inr [OF assms]
  have 1: "RouteByLogicSlot m (EntrySlot e) = Inr e" if "e \<in> set es" "Version e = version" for e
    using find_distinct_key [OF sp(4) that(1)] that(2) by (simp add: RouteByLogicSlot_lookup sp(1,2))
  have 2: "r \<in> set es \<and> Version r = version \<and> EntrySlot r = s \<and> validateRouteEntry r = None"
    if "RouteByLogicSlot m s = Inr r" for s r
    using that sp(3) by (auto simp: RouteByLogicSlot_lookup sp(1,2) find_Some_iff split: option.splits)
  from 1 2 show ?thesis by blast
qed

definition sampleRouteEntry :: "int \<Rightarrow> RouteEntry" where
  "sampleRouteEntry s = \<lparr>Version = ''v1'', EntrySlot = s, DBKey = ''order-db-0'', TableSuffix = ''00'',
     RStatus = ''stable'', WriteMode = ''shard_primary''\<rparr>"

theorem route_map_lookup_witness:
  "\<exists>m. NewRouteMap ''v1'' [sampleRouteEntry 516, sampleRouteEntry 0] = Inr m
     \<and> RouteByLogicSlot m 516 = Inr (sampleRouteEntry 516)"
proof -
  obtain m where m: "NewRouteMap ''v1'' [sampleRouteEntry 516, sampleRouteEntry 0] = Inr m"
    by (simp add: NewRouteMap_def sampleRouteEntry_def validateRouteEntry_def logicSlotCount_def
        isSupportedRouteStatus_def isSupportedWriteMode_def validateRouteStatusWriteMode_def
        RouteStatusStable_def WriteModeShardPrimary_def)
  have "sampleRouteEntry 516 \<in> set [sampleRouteEntry 516, sampleRouteEntry 0]"
    "Version (sampleRouteEntry 516) = ''v1''" "EntrySlot (sampleRouteEntry 516) = 516"
    by (simp_all add: sampleRouteEntry_def)
  with route_map_lookup [OF m] m show ?thesis by metis
qed

end
