(* ===== verification/OrderNumberGen.thy ===== *)
theory OrderNumberGen
  imports Sharding
begin

text \<open>
  The order-number generator of
  \<open>services/order-rpc/internal/logic/order_number_generator.go\<close>: its two counters, one call of
  \<open>Next\<close> run alone, and the interleaving of calls, in which \<open>waitNextSecondLocked\<close> gives the
  mutex up while it sleeps. The clock is an argument: the readings a waiting call makes, in order.
\<close>

definition maxOrderNumberSequence :: int where "maxOrderNumberSequence = 4095"

record orderNumberGenerator =
  lastUnixSecond :: int
  sequence :: int

definition newOrderNumberGenerator :: orderNumberGenerator where
  "newOrderNumberGenerator = \<lparr>lastUnixSecond = 0, sequence = - 1\<rparr>"

text \<open>
  The loop of \<open>waitNextSecondLocked\<close>: one clock reading per iteration, \<open>None\<close> when the
  readings end before a later second is seen.
\<close>

fun waitNextSecondLocked :: "int \<Rightarrow> int list \<Rightarrow> int option" where
  "waitNextSecondLocked lastSec [] = None"
| "waitNextSecondLocked lastSec (current # readings) =
     (if current > lastSec then Some current else waitNextSecondLocked lastSec readings)"

text \<open>The locked part of \<open>Next\<close>: the counters after the call.\<close>

definition advance :: "orderNumberGenerator \<Rightarrow> int \<times> int list \<Rightarrow> orderNumberGenerator option" where
  "advance g = (\<lambda>(nowSec, readings).
     let unixSecond = (if nowSec < lastUnixSecond g then lastUnixSecond g else nowSec) in
     if sequence g = - 1 \<or> unixSecond > lastUnixSecond g then
       Some \<lparr>lastUnixSecond = unixSecond, sequence = 0\<rparr>
     else if sequence g < maxOrderNumberSequence then Some (g\<lparr>sequence := sequence g + 1\<rparr>)
     else map_option (\<lambda>s. \<lparr>lastUnixSecond = s, sequence = 0\<rparr>)
            (waitNextSecondLocked (lastUnixSecond g) readings))"

definition Next :: "orderNumberGenerator \<Rightarrow> int \<Rightarrow> int \<Rightarrow> int \<times> int list \<Rightarrow> (int res \<times> orderNumberGenerator) option" where
  "Next g userID workerID now =
     (case advance g now of
        None \<Rightarrow> None
      | Some g' \<Rightarrow> Some (BuildOrderNumber userID (lastUnixSecond g') workerID (sequence g'), g'))"

text \<open>A sequence of calls, each after the one before has returned.\<close>

fun NextAll :: "orderNumberGenerator \<Rightarrow> (int \<times> int \<times> int \<times> int list) list \<Rightarrow> int res list option" where
  "NextAll g [] = Some []"
| "NextAll g ((userID, workerID, now) # calls) =
     (case Next g userID workerID now of
        None \<Rightarrow> None
      | Some (r, g') \<Rightarrow> map_option (\<lambda>rs. r # rs) (NextAll g' calls))"

section \<open>Interleaved calls\<close>

text \<open>
  Between taking and giving up the mutex a call runs alone, so a call is at most two kinds of
  atomic steps: entering, which returns at once or starts to wait with the second it captured,
  and waking up with the mutex held again and one more clock reading.
\<close>

record genSystem =
  gen :: orderNumberGenerator
  waiting :: "nat \<rightharpoonup> int"
  issued :: "(int \<times> int) list"

datatype genEvent = Enter nat int int | Wake nat int

definition issue :: "genSystem \<Rightarrow> orderNumberGenerator \<Rightarrow> genSystem" where
  "issue s g = s\<lparr>gen := g, issued := issued s @ [(lastUnixSecond g, sequence g)]\<rparr>"

fun genStep :: "genSystem \<Rightarrow> genEvent \<Rightarrow> genSystem" where
  "genStep s (Enter i nowSec current) =
     (if waiting s i \<noteq> None then s
      else case advance (gen s) (nowSec, [current]) of
             Some g' \<Rightarrow> issue s g'
           | None \<Rightarrow> s\<lparr>waiting := (waiting s)(i \<mapsto> lastUnixSecond (gen s))\<rparr>)"
| "genStep s (Wake i current) =
     (case waiting s i of
        None \<Rightarrow> s
      | Some captured \<Rightarrow>
          (case waitNextSecondLocked captured [current] of
             None \<Rightarrow> s
           | Some sec \<Rightarrow> issue (s\<lparr>waiting := (waiting s)(i := None)\<rparr>) \<lparr>lastUnixSecond = sec, sequence = 0\<rparr>))"

definition genInit :: genSystem where
  "genInit = \<lparr>gen = newOrderNumberGenerator, waiting = Map.empty, issued = []\<rparr>"

inductive genReachable :: "genSystem \<Rightarrow> bool" where
  init: "genReachable genInit"
| step: "genReachable s \<Longrightarrow> genReachable (genStep s e)"

section \<open>One call at a time\<close>

definition genKey :: "orderNumberGenerator \<Rightarrow> int \<times> int" where
  "genKey g = (lastUnixSecond g, sequence g)"

lemma waitNextSecondLocked_later: "waitNextSecondLocked lastSec rs = Some s \<Longrightarrow> lastSec < s"
  by (induction rs) (auto split: if_splits)

lemma waitNextSecondLocked_returns: "c \<in> set rs \<Longrightarrow> lastSec < c \<Longrightarrow> \<exists>s. waitNextSecondLocked lastSec rs = Some s"
  by (induction rs) auto

interpretation counters: increasing_source advance genKey
proof unfold_locales
  fix g now g'
  assume "advance g now = Some g'"
  then show "genKey g < genKey g'"
    by (cases now) (auto simp: advance_def genKey_def Let_def less_prod_def
        dest: waitNextSecondLocked_later split: if_splits)
qed

lemma NextAll_trace:
  "NextAll g calls = Some rs \<Longrightarrow>
     \<exists>gs. trace advance g (map (\<lambda>(u, w, now). now) calls) = Some gs \<and> length gs = length rs \<and>
       (\<forall>i < length rs. \<exists>u w. rs ! i = BuildOrderNumber u (lastUnixSecond (gs ! i)) w (sequence (gs ! i)))"
proof (induction calls arbitrary: g rs)
  case Nil
  then show ?case by simp
next
  case (Cons call calls)
  obtain u w now where call: "call = (u, w, now)" by (cases call)
  from Cons.prems obtain g' rs' where a: "advance g now = Some g'"
    and rs: "rs = BuildOrderNumber u (lastUnixSecond g') w (sequence g') # rs'"
    and n: "NextAll g' calls = Some rs'"
    by (auto simp: call Next_def split: option.splits)
  from Cons.IH [OF n] obtain gs where gs:
    "trace advance g' (map (\<lambda>(u, w, now). now) calls) = Some gs" "length gs = length rs'"
    "\<forall>i < length rs'. \<exists>u w. rs' ! i = BuildOrderNumber u (lastUnixSecond (gs ! i)) w (sequence (gs ! i))"
    by blast
  have "\<exists>u w. rs ! i = BuildOrderNumber u (lastUnixSecond ((g' # gs) ! i)) w (sequence ((g' # gs) ! i))"
    if "i < length rs" for i
    using gs(3) that rs by (cases i) auto
  with a gs rs show ?case by (intro exI [of _ "g' # gs"]) (simp add: call)
qed

text \<open>A burst within one second: \<open>k + 1\<close> calls at second \<open>t\<close> use the sequences \<open>0, \<dots>, k\<close>.\<close>

definition burst :: "int \<Rightarrow> nat \<Rightarrow> genSystem" where
  "burst t k = \<lparr>gen = \<lparr>lastUnixSecond = t, sequence = int k\<rparr>, waiting = Map.empty,
     issued = map (\<lambda>j. (t, int j)) [0..<Suc k]\<rparr>"

lemma burst_reachable: "0 < t \<Longrightarrow> k \<le> 4095 \<Longrightarrow> genReachable (burst t k)"
proof (induction k)
  case 0
  have "genStep genInit (Enter 0 t t) = burst t 0"
    using 0 by (simp add: genInit_def newOrderNumberGenerator_def advance_def issue_def burst_def)
  then show ?case by (metis genReachable.init genReachable.step)
next
  case (Suc k)
  have "genStep (burst t k) (Enter 0 t t) = burst t (Suc k)"
    using Suc.prems by (simp add: burst_def advance_def issue_def maxOrderNumberSequence_def)
  with Suc show ?case by (metis Suc_leD genReachable.step)
qed

text \<open>Two calls that find the second exhausted, and then both wake up in the next one.\<close>

lemma two_waiters:
  assumes "gen s = \<lparr>lastUnixSecond = t, sequence = 4095\<rparr>" "waiting s = Map.empty"
  shows "issued (genStep (genStep (genStep (genStep s (Enter 1 t t)) (Enter 2 t t)) (Wake 1 (t + 1))) (Wake 2 (t + 1)))
    = issued s @ [(t + 1, 0), (t + 1, 0)]"
  using assms by (simp add: advance_def issue_def maxOrderNumberSequence_def)

section \<open>Properties\<close>

text \<open>
  Calls of \<open>Next\<close> that do not overlap never return the same order number, whatever the users,
  the workers and the clock do, as long as no call panics.
\<close>

theorem sequential_numbers_distinct:
  assumes "NextAll g calls = Some rs" "i < j" "j < length rs" "rs ! i = Inr n" "rs ! j = Inr n'"
  shows "n \<noteq> n'"
proof
  assume eq: "n = n'"
  obtain gs where gs: "trace advance g (map (\<lambda>(u, w, now). now) calls) = Some gs" "length gs = length rs"
    and nth: "\<forall>k < length rs. \<exists>u w. rs ! k = BuildOrderNumber u (lastUnixSecond (gs ! k)) w (sequence (gs ! k))"
    using NextAll_trace [OF assms(1)] by blast
  from nth assms obtain u w u' w' where
    "BuildOrderNumber u (lastUnixSecond (gs ! i)) w (sequence (gs ! i)) = Inr n"
    "BuildOrderNumber u' (lastUnixSecond (gs ! j)) w' (sequence (gs ! j)) = Inr n"
    using eq by (metis less_trans)
  then have "genKey (gs ! i) = genKey (gs ! j)"
    using BuildOrderNumber_inject by (simp add: genKey_def)
  moreover have "genKey (gs ! i) \<noteq> genKey (gs ! j)"
    using counters.trace_keys_distinct [OF gs(1)] assms(2,3) gs(2) by (simp add: distinct_conv_nth)
  ultimately show False by simp
qed

theorem sequential_numbers_distinct_witness:
  "\<exists>n n'. NextAll newOrderNumberGenerator [(10001, 256, 1777356000, []), (10001, 256, 1777355990, [])] = Some [Inr n, Inr n']
     \<and> n \<noteq> n'"
proof -
  have h: "NextAll newOrderNumberGenerator [(10001, 256, 1777356000, []), (10001, 256, 1777355990, [])]
      = Some [Inr 43509738860707840, Inr 43509738860707841]" by code_simp
  show ?thesis using h sequential_numbers_distinct [OF h, of 0 1] by simp
qed

text \<open>
  A call that exhausts the sequence of its second returns as soon as the clock shows a later
  second, and continues there with sequence 0.
\<close>

theorem exhausted_second_returns:
  assumes "nowSec \<le> lastUnixSecond g" "sequence g = maxOrderNumberSequence"
    and "c \<in> set readings" "lastUnixSecond g < c"
  shows "\<exists>r g'. Next g userID workerID (nowSec, readings) = Some (r, g') \<and> sequence g' = 0
    \<and> lastUnixSecond g < lastUnixSecond g'"
proof -
  obtain s where s: "waitNextSecondLocked (lastUnixSecond g) readings = Some s"
    using waitNextSecondLocked_returns [OF assms(3,4)] by blast
  from waitNextSecondLocked_later [OF s] s assms(1,2) show ?thesis
    by (simp add: Next_def advance_def maxOrderNumberSequence_def)
qed

theorem exhausted_second_returns_witness:
  "\<exists>r g'. Next \<lparr>lastUnixSecond = 1777356000, sequence = 4095\<rparr> 10001 256 (1777356000, [1777356000, 1777356001])
     = Some (r, g') \<and> sequence g' = 0 \<and> 1777356000 < lastUnixSecond g'"
  using exhausted_second_returns [of 1777356000 "\<lparr>lastUnixSecond = 1777356000, sequence = 4095\<rparr>"
      1777356001 "[1777356000, 1777356001]" 10001 256]
  by (simp add: maxOrderNumberSequence_def)

text \<open>
  C40. Overlapping calls can collide: because \<open>waitNextSecondLocked\<close> releases the mutex while it
  sleeps, two calls that both exhausted a second each restart the next one at sequence 0, so a
  reachable state of the generator has handed out one pair of second and sequence twice.
\<close>

theorem concurrent_waiters_collide: "\<exists>s. genReachable s \<and> \<not> distinct (issued s)"
proof -
  let ?b = "burst 1 4095"
  let ?s = "genStep (genStep (genStep (genStep ?b (Enter 1 1 1)) (Enter 2 1 1)) (Wake 1 (1 + 1))) (Wake 2 (1 + 1))"
  have e: "issued ?s = issued ?b @ [(1 + 1, 0), (1 + 1, 0)]"
    by (rule two_waiters) (simp_all add: burst_def)
  have "genReachable ?b" by (rule burst_reachable) simp_all
  then have "genReachable ?s" by (intro genReachable.step)
  moreover have "\<not> distinct (issued ?s)" unfolding e by simp
  ultimately show ?thesis by blast
qed

end
