(* ===== verification/Redis.thy ===== *)
theory Redis
  imports Prelude
begin

text \<open>
  The part of Redis the rush store uses: a keyspace of hashes with expiry. Keys, fields and values
  are strings, as on the wire; a hash whose last field is deleted disappears; an expired key is
  gone for every command. Times are the server's milliseconds. A script runs atomically, and a call
  may fail on the way to the server or on the way back, after the script has run.
\<close>

record hentry =
  hfields :: "(string \<times> string) list"
  expireAt :: "int option"

type_synonym redis = "string \<rightharpoonup> hentry"

definition purge :: "int \<Rightarrow> redis \<Rightarrow> redis" where
  "purge t r = (\<lambda>k. case r k of None \<Rightarrow> None
     | Some e \<Rightarrow> (case expireAt e of None \<Rightarrow> Some e | Some d \<Rightarrow> if d \<le> t then None else Some e))"

definition EXISTS :: "redis \<Rightarrow> string \<Rightarrow> bool" where
  "EXISTS r k \<longleftrightarrow> r k \<noteq> None"

definition HGETALL :: "redis \<Rightarrow> string \<Rightarrow> (string \<times> string) list" where
  "HGETALL r k = (case r k of None \<Rightarrow> [] | Some e \<Rightarrow> hfields e)"

definition HGET :: "redis \<Rightarrow> string \<Rightarrow> string \<Rightarrow> string option" where
  "HGET r k f = map_of (HGETALL r k) f"

definition HSET :: "redis \<Rightarrow> string \<Rightarrow> string \<Rightarrow> string \<Rightarrow> redis" where
  "HSET r k f v = r(k \<mapsto> (case r k of None \<Rightarrow> \<lparr>hfields = [(f, v)], expireAt = None\<rparr>
     | Some e \<Rightarrow> e\<lparr>hfields := AList.update f v (hfields e)\<rparr>))"

fun HMSET :: "redis \<Rightarrow> string \<Rightarrow> (string \<times> string) list \<Rightarrow> redis" where
  "HMSET r k [] = r"
| "HMSET r k ((f, v) # fvs) = HMSET (HSET r k f v) k fvs"

definition HDEL :: "redis \<Rightarrow> string \<Rightarrow> string \<Rightarrow> redis" where
  "HDEL r k f = (case r k of None \<Rightarrow> r
     | Some e \<Rightarrow> (let fs = AList.delete f (hfields e) in
         if fs = [] then r(k := None) else r(k \<mapsto> e\<lparr>hfields := fs\<rparr>)))"

fun HDELs :: "redis \<Rightarrow> string \<Rightarrow> string list \<Rightarrow> redis" where
  "HDELs r k [] = r"
| "HDELs r k (f # fs) = HDELs (HDEL r k f) k fs"

fun HSETs :: "redis \<Rightarrow> string \<Rightarrow> string list \<Rightarrow> string \<Rightarrow> redis" where
  "HSETs r k [] v = r"
| "HSETs r k (f # fs) v = HSETs (HSET r k f v) k fs v"

text \<open>\<open>HINCRBY\<close> treats a missing field as 0; \<open>None\<close> is its error on a non-integer or an overflow.\<close>

definition HINCRBY :: "redis \<Rightarrow> string \<Rightarrow> string \<Rightarrow> int \<Rightarrow> redis option" where
  "HINCRBY r k f d =
     (case (case HGET r k f of None \<Rightarrow> Some 0 | Some v \<Rightarrow> parse_int64 v) of
        None \<Rightarrow> None
      | Some i \<Rightarrow> if in_int64 (i + d) then Some (HSET r k f (show_int (i + d))) else None)"

definition EXPIRE :: "int \<Rightarrow> redis \<Rightarrow> string \<Rightarrow> int \<Rightarrow> redis" where
  "EXPIRE t r k seconds = (case r k of None \<Rightarrow> r
     | Some e \<Rightarrow> r(k \<mapsto> e\<lparr>expireAt := Some (t + 1000 * seconds)\<rparr>))"

text \<open>The scripts' guarded form: \<open>if ttl > 0 then redis.call("EXPIRE", ...)\<close>.\<close>

definition EXPIRE_pos :: "int \<Rightarrow> redis \<Rightarrow> string \<Rightarrow> int \<Rightarrow> redis" where
  "EXPIRE_pos t r k seconds = (if seconds > 0 then EXPIRE t r k seconds else r)"

definition TTL :: "int \<Rightarrow> redis \<Rightarrow> string \<Rightarrow> int" where
  "TTL t r k = (case r k of None \<Rightarrow> - 2
     | Some e \<Rightarrow> (case expireAt e of None \<Rightarrow> - 1 | Some d \<Rightarrow> (d - t + 500) div 1000))"

definition DEL :: "redis \<Rightarrow> string \<Rightarrow> redis" where
  "DEL r k = r(k := None)"

text \<open>Lua's \<open>tonumber(x)\<close> on the decimal integers the store writes and passes.\<close>

definition lua_tonumber :: "string \<Rightarrow> int option" where
  "lua_tonumber s = parse_int64 s"

definition lua_num :: "string \<Rightarrow> int" where
  "lua_num s = (case lua_tonumber s of None \<Rightarrow> 0 | Some i \<Rightarrow> i)"

text \<open>Lua's \<open>string.gmatch(csv, "([^,]+)")\<close>: the non-empty pieces between commas.\<close>

definition csv_values :: "string \<Rightarrow> string list" where
  "csv_values csv = filter (\<lambda>w. w \<noteq> []) (split_on (CHR '','') csv)"

text \<open>Replies of a script, and what the network can do to a call.\<close>

datatype evalv = VInt int | VStr string

datatype fault = NoFault | LostRequest goerr | LostReply goerr

definition eval_ctx :: "fault \<Rightarrow> ('s \<Rightarrow> 'a res \<times> 's) \<Rightarrow> 's \<Rightarrow> 'a res \<times> 's" where
  "eval_ctx flt script r =
     (case flt of
        NoFault \<Rightarrow> script r
      | LostRequest e \<Rightarrow> (Inl e, r)
      | LostReply e \<Rightarrow> (Inl e, snd (script r)))"

section \<open>Reads after writes\<close>

text \<open>No command of the model ever stores an empty hash.\<close>

definition no_empty_hash :: "redis \<Rightarrow> bool" where
  "no_empty_hash r \<longleftrightarrow> (\<forall>k e. r k = Some e \<longrightarrow> hfields e \<noteq> [])"

lemma map_of_update: "map_of (AList.update f v fs) g = (if g = f then Some v else map_of fs g)"
  by (simp add: update_conv')

lemma map_of_delete: "map_of (AList.delete f fs) g = (if g = f then None else map_of fs g)"
  by (simp add: delete_conv')

lemma HGET_HSET [redis_simps]:
  "HGET (HSET r k f v) k' f' = (if k' = k \<and> f' = f then Some v else HGET r k' f')"
  by (auto simp: HGET_def HGETALL_def HSET_def map_of_update split: option.splits)

lemma EXISTS_HSET [redis_simps]: "EXISTS (HSET r k f v) k' \<longleftrightarrow> k' = k \<or> EXISTS r k'"
  by (auto simp: EXISTS_def HSET_def)

lemma HGET_HDEL [redis_simps]:
  "HGET (HDEL r k f) k' f' = (if k' = k \<and> f' = f then None else HGET r k' f')"
proof (cases "r k")
  case (Some e)
  have d: "map_of (AList.delete f (hfields e)) g = (if g = f then None else map_of (hfields e) g)" for g
    by (rule map_of_delete)
  show ?thesis
  proof (cases "AList.delete f (hfields e) = []")
    case True
    with d have "map_of (hfields e) g = None" if "g \<noteq> f" for g
      using that by (metis map_of.simps(1))
    with Some True show ?thesis by (auto simp: HGET_def HGETALL_def HDEL_def)
  next
    case False
    with Some d show ?thesis by (auto simp: HGET_def HGETALL_def HDEL_def Let_def)
  qed
qed (auto simp: HGET_def HGETALL_def HDEL_def)

lemma EXISTS_HDEL_other [redis_simps]: "k' \<noteq> k \<Longrightarrow> EXISTS (HDEL r k f) k' = EXISTS r k'"
  by (auto simp: EXISTS_def HDEL_def Let_def split: option.splits)

lemma HGET_EXPIRE_pos [redis_simps]: "HGET (EXPIRE_pos t r k s) k' f = HGET r k' f"
  by (auto simp: HGET_def HGETALL_def EXPIRE_pos_def EXPIRE_def split: option.splits)

lemma EXISTS_EXPIRE_pos [redis_simps]: "EXISTS (EXPIRE_pos t r k s) k' = EXISTS r k'"
  by (auto simp: EXISTS_def EXPIRE_pos_def EXPIRE_def split: option.splits)

lemma HGET_HMSET [redis_simps]:
  "HGET (HMSET r k fvs) k' f =
     (if k' = k then (case map_of (rev fvs) f of Some v \<Rightarrow> Some v | None \<Rightarrow> HGET r k' f) else HGET r k' f)"
  by (induction r k fvs rule: HMSET.induct) (auto simp: HGET_HSET map_add_def split: option.splits)

lemma EXISTS_HMSET [redis_simps]: "EXISTS (HMSET r k fvs) k' \<longleftrightarrow> EXISTS r k' \<or> k' = k \<and> fvs \<noteq> []"
  by (induction r k fvs rule: HMSET.induct) (auto simp: EXISTS_HSET)

lemma HGET_HDELs [redis_simps]:
  "HGET (HDELs r k fs) k' f = (if k' = k \<and> f \<in> set fs then None else HGET r k' f)"
  by (induction r k fs rule: HDELs.induct) (auto simp: HGET_HDEL)

lemma EXISTS_HDELs_other [redis_simps]: "k' \<noteq> k \<Longrightarrow> EXISTS (HDELs r k fs) k' = EXISTS r k'"
  by (induction r k fs rule: HDELs.induct) (auto simp: EXISTS_HDEL_other)

lemma HGET_HSETs [redis_simps]:
  "HGET (HSETs r k fs v) k' f = (if k' = k \<and> f \<in> set fs then Some v else HGET r k' f)"
  by (induction r k fs v rule: HSETs.induct) (auto simp: HGET_HSET)

lemma EXISTS_HSETs_other [redis_simps]: "k' \<noteq> k \<Longrightarrow> EXISTS (HSETs r k fs v) k' = EXISTS r k'"
  by (induction r k fs v rule: HSETs.induct) (auto simp: EXISTS_HSET)

lemma HGET_not_EXISTS [redis_simps]: "\<not> EXISTS r k \<Longrightarrow> HGET r k f = None"
  by (simp add: EXISTS_def HGET_def HGETALL_def)

lemma HGET_DEL [redis_simps]: "HGET (DEL r k) k' f = (if k' = k then None else HGET r k' f)"
  by (simp add: DEL_def HGET_def HGETALL_def)

lemma EXISTS_DEL [redis_simps]: "EXISTS (DEL r k) k' \<longleftrightarrow> k' \<noteq> k \<and> EXISTS r k'"
  by (simp add: DEL_def EXISTS_def)

lemma HINCRBY_Some:
  assumes "HINCRBY r k f d = Some r'"
  obtains i where "i = (case HGET r k f of None \<Rightarrow> 0 | Some v \<Rightarrow> the (parse_int64 v))"
    "in_int64 (i + d)" "r' = HSET r k f (show_int (i + d))"
  using assms by (auto simp: HINCRBY_def split: option.splits if_splits)

lemma lua_num_show [simp, codec_simps]: "in_int64 i \<Longrightarrow> lua_num (show_int i) = i"
  by (simp add: lua_num_def lua_tonumber_def)

lemma csv_values_join [codec_simps]:
  assumes "\<forall>w \<in> set ws. w \<noteq> [] \<and> CHR '','' \<notin> set w"
  shows "csv_values (join_with '','' ws) = ws"
proof (cases "ws = []")
  case True
  then show ?thesis by (simp add: csv_values_def)
next
  case False
  with assms have "split_on (CHR '','') (join_with '','' ws) = ws" by (intro split_join) auto
  with assms show ?thesis by (simp add: csv_values_def filter_id_conv)
qed

text \<open>Keyspaces without an expired key and without an empty hash, kept by every command.\<close>

definition unexpired :: "int \<Rightarrow> redis \<Rightarrow> bool" where
  "unexpired t r \<longleftrightarrow> (\<forall>k e d. r k = Some e \<longrightarrow> expireAt e = Some d \<longrightarrow> t < d)"

definition tidy :: "int \<Rightarrow> redis \<Rightarrow> bool" where
  "tidy t r \<longleftrightarrow> unexpired t r \<and> no_empty_hash r"

lemma purge_unexpired: "unexpired t r \<Longrightarrow> purge t r = r"
  by (fastforce simp: unexpired_def purge_def fun_eq_iff split: option.splits)

lemma tidy_purge: "no_empty_hash r \<Longrightarrow> tidy t (purge t r)"
  by (auto simp: tidy_def unexpired_def no_empty_hash_def purge_def split: option.splits if_splits)

lemma update_nonempty [simp]: "AList.update f v fs \<noteq> []"
  by (cases fs) auto

lemma tidy_HSET: "tidy t r \<Longrightarrow> tidy t (HSET r k f v)"
  by (auto simp: tidy_def unexpired_def no_empty_hash_def HSET_def split: option.splits)

lemma tidy_HMSET: "tidy t r \<Longrightarrow> tidy t (HMSET r k fvs)"
  by (induction r k fvs rule: HMSET.induct) (auto intro: tidy_HSET)

lemma tidy_HSETs: "tidy t r \<Longrightarrow> tidy t (HSETs r k fs v)"
  by (induction r k fs v rule: HSETs.induct) (auto intro: tidy_HSET)

lemma tidy_HDEL: "tidy t r \<Longrightarrow> tidy t (HDEL r k f)"
  by (auto simp: tidy_def unexpired_def no_empty_hash_def HDEL_def Let_def split: option.splits)

lemma tidy_HDELs: "tidy t r \<Longrightarrow> tidy t (HDELs r k fs)"
  by (induction r k fs rule: HDELs.induct) (auto intro: tidy_HDEL)

lemma tidy_HINCRBY: "tidy t r \<Longrightarrow> HINCRBY r k f d = Some r' \<Longrightarrow> tidy t r'"
  by (auto simp: HINCRBY_def split: option.splits if_splits intro: tidy_HSET)

lemma tidy_EXPIRE_pos: "tidy t r \<Longrightarrow> tidy t (EXPIRE_pos t r k s)"
  by (auto simp: tidy_def unexpired_def no_empty_hash_def EXPIRE_pos_def EXPIRE_def split: option.splits)

lemmas tidy_intros = tidy_HSET tidy_HMSET tidy_HSETs tidy_HDEL tidy_HDELs tidy_EXPIRE_pos

end
