(* ===== verification/AttemptStore.thy ===== *)
theory AttemptStore
  imports Redis
begin

text \<open>
  The rush store of \<open>services/order-rpc/internal/rush\<close>: the states and codes of
  \<open>attempt_state.go\<close>, the keys of \<open>attempt_keys.go\<close>, the record and the CSV codec of
  \<open>attempt_record.go\<close>, the six Lua scripts and the methods of \<open>attempt_store.go\<close> that call
  them. A method takes the server time in milliseconds, the wall clock of the caller in nanoseconds
  and the fault of its Redis call, and returns its result with the new keyspace.
\<close>

section \<open>States, codes and keys\<close>

definition AttemptStatePending :: string where "AttemptStatePending = ''PENDING''"
definition AttemptStateProcessing :: string where "AttemptStateProcessing = ''PROCESSING''"
definition AttemptStateSuccess :: string where "AttemptStateSuccess = ''SUCCESS''"
definition AttemptStateFailed :: string where "AttemptStateFailed = ''FAILED''"

lemmas state_defs = AttemptStatePending_def AttemptStateProcessing_def AttemptStateSuccess_def
  AttemptStateFailed_def

datatype AttemptTransitionOutcome =
    AttemptTransitioned | AttemptAlreadyFailed | AttemptAlreadySucceeded | AttemptLostOwnership
  | AttemptStateMissing

definition AdmitDecisionRejected :: int where "AdmitDecisionRejected = 0"
definition AdmitDecisionAccepted :: int where "AdmitDecisionAccepted = 1"
definition AdmitDecisionReused :: int where "AdmitDecisionReused = 2"
definition AdmitRejectNone :: int where "AdmitRejectNone = 0"
definition AdmitRejectUserInflightConflict :: int where "AdmitRejectUserInflightConflict = 1001"
definition AdmitRejectViewerInflightConflict :: int where "AdmitRejectViewerInflightConflict = 1002"
definition AdmitRejectQuotaExhausted :: int where "AdmitRejectQuotaExhausted = 1003"

lemmas admit_code_defs = AdmitDecisionRejected_def AdmitDecisionAccepted_def AdmitDecisionReused_def
  AdmitRejectNone_def AdmitRejectUserInflightConflict_def AdmitRejectViewerInflightConflict_def
  AdmitRejectQuotaExhausted_def

definition rushScopeTag :: "int \<Rightarrow> string" where
  "rushScopeTag showTimeID = ''{st:'' @ show_int showTimeID @ ''}''"

definition attemptRecordKey :: "string \<Rightarrow> int \<Rightarrow> int \<Rightarrow> string" where
  "attemptRecordKey prefix showTimeID orderNumber =
     prefix @ '':attempt:'' @ rushScopeTag showTimeID @ '':'' @ show_int orderNumber"

definition userInflightKey :: "string \<Rightarrow> int \<Rightarrow> string" where
  "userInflightKey prefix showTimeID = prefix @ '':user_inflight:'' @ rushScopeTag showTimeID"

definition viewerInflightKey :: "string \<Rightarrow> int \<Rightarrow> string" where
  "viewerInflightKey prefix showTimeID = prefix @ '':viewer_inflight:'' @ rushScopeTag showTimeID"

definition userActiveKey :: "string \<Rightarrow> int \<Rightarrow> string" where
  "userActiveKey prefix showTimeID = prefix @ '':user_active:'' @ rushScopeTag showTimeID"

definition viewerActiveKey :: "string \<Rightarrow> int \<Rightarrow> string" where
  "viewerActiveKey prefix showTimeID = prefix @ '':viewer_active:'' @ rushScopeTag showTimeID"

definition quotaAvailableKey :: "string \<Rightarrow> int \<Rightarrow> string" where
  "quotaAvailableKey prefix showTimeID = prefix @ '':quota:'' @ rushScopeTag showTimeID"

section \<open>The attempt record and its codec\<close>

record AttemptRecord =
  ar_OrderNumber :: int
  ar_UserID :: int
  ar_ProgramID :: int
  ar_ShowTimeID :: int
  ar_TicketCategoryID :: int
  ar_ViewerIDs :: "int list"
  ar_TicketCount :: int
  ar_SaleWindowEndAt :: gotime
  ar_ShowEndAt :: gotime
  ar_State :: string
  ar_ReasonCode :: string
  ar_AcceptedAt :: gotime
  ar_FinishedAt :: gotime
  ar_ProcessingStartedAt :: gotime
  ar_CreatedAt :: gotime
  ar_LastTransitionAt :: gotime

text \<open>\<open>MapAttemptRecordToPoll\<close>: the status code shown to a polling client and whether it is final.\<close>

definition MapAttemptRecordToPoll :: "AttemptRecord option \<Rightarrow> (int \<times> bool) res" where
  "MapAttemptRecordToPoll rec =
     (case rec of
        None \<Rightarrow> Inl (Sentinel ErrInvalidParam)
      | Some a \<Rightarrow>
          (if ar_State a = AttemptStatePending \<or> ar_State a = AttemptStateProcessing then Inr (1, False)
           else if ar_State a = AttemptStateSuccess then Inr (3, True)
           else if ar_State a = AttemptStateFailed then Inr (4, True)
           else Inl (Other ''unknown attempt state'')))"

fun parseCSVParts :: "string list \<Rightarrow> int list res" where
  "parseCSVParts [] = Inr []"
| "parseCSVParts (part # parts) =
     (let p = trim_space part in
      if p = [] then parseCSVParts parts
      else case parse_int64 p of
             None \<Rightarrow> Inl (Other ''strconv.ParseInt'')
           | Some v \<Rightarrow> (case parseCSVParts parts of Inl e \<Rightarrow> Inl e | Inr vs \<Rightarrow> Inr (v # vs)))"

definition parseInt64CSV :: "string \<Rightarrow> int list res" where
  "parseInt64CSV raw = (if raw = [] then Inr [] else parseCSVParts (split_on (CHR '','') raw))"

text \<open>The loop over a slice that skips values already seen, and \<open>formatInt64CSV\<close>.\<close>

fun dedup :: "int set \<Rightarrow> int list \<Rightarrow> int list" where
  "dedup seen [] = []"
| "dedup seen (v # vs) = (if v \<in> seen then dedup seen vs else v # dedup (insert v seen) vs)"

definition formatInt64CSV :: "int list \<Rightarrow> string" where
  "formatInt64CSV values = join_with '','' (map show_int (dedup {} values))"

definition normalizedInt64s :: "int list \<Rightarrow> int list" where
  "normalizedInt64s values = sort (dedup {} (filter (\<lambda>v. v > 0) values))"

section \<open>Time to live\<close>

definition durationToSeconds :: "int \<Rightarrow> int \<Rightarrow> int" where
  "durationToSeconds value defaultValue =
     (let v = (if value \<le> 0 then defaultValue else value);
          seconds = tdiv v 1000000000;
          seconds' = (if v mod 1000000000 \<noteq> 0 then seconds + 1 else seconds)
      in if seconds' \<le> 0 then 1 else seconds')"

definition maxInt :: "int \<Rightarrow> int \<Rightarrow> int" where
  "maxInt a b = (if a > b then a else b)"

definition computeAttemptRecordTTLSeconds :: "gotime \<Rightarrow> gotime \<Rightarrow> int \<Rightarrow> int" where
  "computeAttemptRecordTTLSeconds now saleWindowEndAt fallback0 =
     (let fallback = (if fallback0 \<le> 0 then 1800 else fallback0) in
      case (now, saleWindowEndAt) of
        (Some n, Some s) \<Rightarrow> maxInt fallback (sub_seconds s n + 2 * 60 * 60)
      | _ \<Rightarrow> fallback)"

definition computeActiveProjectionTTLSeconds :: "gotime \<Rightarrow> gotime \<Rightarrow> int" where
  "computeActiveProjectionTTLSeconds now showEndAt =
     (let retention = 7 * 24 * 60 * 60 in
      case (now, showEndAt) of
        (Some n, Some s) \<Rightarrow> maxInt retention (sub_seconds s n + retention)
      | _ \<Rightarrow> retention)"

section \<open>The store and its scripts\<close>

record AttemptStoreT =
  as_prefix :: string
  inFlightTTLSeconds :: int
  finalStateTTLSeconds :: int

definition NewAttemptStore :: "string \<Rightarrow> int \<Rightarrow> int \<Rightarrow> AttemptStoreT" where
  "NewAttemptStore cfgPrefix cfgInFlightTTL cfgFinalStateTTL =
     \<lparr>as_prefix = (if cfgPrefix = [] then ''livepass:order:rush'' else cfgPrefix),
      inFlightTTLSeconds = durationToSeconds cfgInFlightTTL (30 * 1000000000),
      finalStateTTLSeconds = durationToSeconds cfgFinalStateTTL (30 * 60 * 1000000000)\<rparr>"

text \<open>The keys and arguments a script receives, as strings.\<close>

record rushKeys =
  kAttempt :: string
  kUserActive :: string
  kUserInflight :: string
  kViewerActive :: string
  kViewerInflight :: string
  kQuota :: string

definition rushKeysOf :: "AttemptStoreT \<Rightarrow> int \<Rightarrow> int \<Rightarrow> rushKeys" where
  "rushKeysOf s showTimeID orderNumber =
     \<lparr>kAttempt = attemptRecordKey (as_prefix s) showTimeID orderNumber,
      kUserActive = userActiveKey (as_prefix s) showTimeID,
      kUserInflight = userInflightKey (as_prefix s) showTimeID,
      kViewerActive = viewerActiveKey (as_prefix s) showTimeID,
      kViewerInflight = viewerInflightKey (as_prefix s) showTimeID,
      kQuota = quotaAvailableKey (as_prefix s) showTimeID\<rparr>"

record admitArgv =
  aaOrderNo :: string
  aaUserID :: string
  aaProgramID :: string
  aaShowTimeID :: string
  aaTicketCategoryID :: string
  aaTicketCount :: string
  aaSaleWindowEndAt :: string
  aaShowEndAt :: string
  aaNow :: string
  aaInFlightTTL :: string
  aaPendingAttemptTTL :: string
  aaProjectionTTL :: string
  aaViewerIDsCSV :: string

text \<open>The loops of the script that look for a viewer with an order: the first one found.\<close>

fun firstHeld :: "redis \<Rightarrow> string \<Rightarrow> string list \<Rightarrow> string option" where
  "firstHeld r k [] = None"
| "firstHeld r k (f # fs) =
     (case HGET r k f of
        None \<Rightarrow> firstHeld r k fs
      | Some v \<Rightarrow> (if v \<noteq> [] then Some v else firstHeld r k fs))"

definition admitAttemptScript :: "int \<Rightarrow> rushKeys \<Rightarrow> admitArgv \<Rightarrow> redis \<Rightarrow> evalv list res \<times> redis" where
  "admitAttemptScript t ks a r =
     (let ticketCount = lua_num (aaTicketCount a);
          viewerIDs = csv_values (aaViewerIDsCSV a) in
      if EXISTS r (kAttempt ks) then
        (Inr [VInt 2, VStr (case HGET r (kAttempt ks) ''order_number'' of None \<Rightarrow> aaOrderNo a | Some v \<Rightarrow> v), VInt 0], r)
      else case firstHeld r (kUserActive ks) [aaUserID a] of
        Some v \<Rightarrow> (Inr [VInt 0, VStr v, VInt 1001], r)
      | None \<Rightarrow>
      (case firstHeld r (kViewerActive ks) viewerIDs of
        Some v \<Rightarrow> (Inr [VInt 0, VStr v, VInt 1002], r)
      | None \<Rightarrow>
      (case firstHeld r (kUserInflight ks) [aaUserID a] of
        Some v \<Rightarrow> (Inr [VInt 0, VStr v, VInt 1001], r)
      | None \<Rightarrow>
      (case firstHeld r (kViewerInflight ks) viewerIDs of
        Some v \<Rightarrow> (Inr [VInt 0, VStr v, VInt 1002], r)
      | None \<Rightarrow>
      (case lua_tonumber (case HGET r (kQuota ks) (aaTicketCategoryID a) of None \<Rightarrow> [] | Some v \<Rightarrow> v) of
        None \<Rightarrow> (Inr [VInt 0, VInt 0, VInt 1003], r)
      | Some quota \<Rightarrow>
        (if quota < ticketCount then (Inr [VInt 0, VInt 0, VInt 1003], r)
         else case HINCRBY r (kQuota ks) (aaTicketCategoryID a) (- ticketCount) of
           None \<Rightarrow> (Inl (Other ''ERR hash value is not an integer''), r)
         | Some r1 \<Rightarrow>
           (let r2 = EXPIRE_pos t r1 (kQuota ks) (lua_num (aaProjectionTTL a));
                r3 = HMSET r2 (kAttempt ks)
                  [(''order_number'', aaOrderNo a), (''user_id'', aaUserID a),
                   (''program_id'', aaProgramID a), (''show_time_id'', aaShowTimeID a),
                   (''ticket_category_id'', aaTicketCategoryID a), (''viewer_ids'', aaViewerIDsCSV a),
                   (''ticket_count'', show_int ticketCount), (''sale_window_end_at'', aaSaleWindowEndAt a),
                   (''state'', ''PENDING''), (''reason_code'', ''''), (''accepted_at'', aaNow a),
                   (''finished_at'', ''0''), (''show_end_at'', aaShowEndAt a), (''created_at'', aaNow a),
                   (''last_transition_at'', aaNow a)];
                r4 = EXPIRE_pos t r3 (kAttempt ks) (lua_num (aaPendingAttemptTTL a));
                r5 = HSET r4 (kUserInflight ks) (aaUserID a) (aaOrderNo a);
                r6 = HSETs r5 (kViewerInflight ks) viewerIDs (aaOrderNo a);
                r7 = EXPIRE_pos t r6 (kUserInflight ks) (lua_num (aaInFlightTTL a));
                r8 = EXPIRE_pos t r7 (kViewerInflight ks) (lua_num (aaInFlightTTL a))
            in (Inr [VInt 1, VStr (aaOrderNo a), VInt 0], r8))))))))"

text \<open>\<open>prepare_attempt_for_consume.lua\<close>\<close>

definition hget_blank :: "redis \<Rightarrow> string \<Rightarrow> string \<Rightarrow> string" where
  "hget_blank r k f = (case HGET r k f of None \<Rightarrow> [] | Some v \<Rightarrow> v)"

definition prepareFields :: "string list" where
  "prepareFields = [''order_number'', ''user_id'', ''program_id'', ''show_time_id'',
     ''ticket_category_id'', ''viewer_ids'', ''ticket_count'', ''sale_window_end_at'', ''show_end_at'',
     ''reason_code'', ''accepted_at'', ''finished_at'', ''processing_started_at'', ''created_at'',
     ''last_transition_at'']"

definition prepareAttemptForConsumeScript :: "int \<Rightarrow> string \<Rightarrow> string \<Rightarrow> string \<Rightarrow> redis \<Rightarrow> evalv list res \<times> redis" where
  "prepareAttemptForConsumeScript t k now processingTTL r =
     (let ttl = TTL t r k in
      if ttl \<le> 0 then (Inr [VInt ttl], r)
      else
        let state = hget_blank r k ''state'' in
        if state = ''PENDING'' then
          (let r1 = HMSET r k [(''state'', ''PROCESSING''), (''processing_started_at'', now), (''last_transition_at'', now)];
               r2 = EXPIRE_pos t r1 k (lua_num processingTTL)
           in (Inr (VInt 1 # VStr ''PROCESSING'' # map (\<lambda>f. VStr (hget_blank r2 k f)) prepareFields), r2))
        else (Inr (VInt 0 # VStr state # map (\<lambda>f. VStr (hget_blank r k f)) prepareFields), r))"

definition refreshProcessingLeaseScript :: "int \<Rightarrow> string \<Rightarrow> string \<Rightarrow> redis \<Rightarrow> evalv res \<times> redis" where
  "refreshProcessingLeaseScript t k processingTTL r =
     (let ttl = TTL t r k in
      if ttl \<le> 0 then (Inr (VInt ttl), r)
      else if HGET r k ''state'' \<noteq> Some ''PROCESSING'' then (Inr (VInt 0), r)
      else (Inr (VInt 1), EXPIRE_pos t r k (lua_num processingTTL)))"

text \<open>The arguments of the four finishing scripts.\<close>

record finishArgv =
  faReason :: string
  faUserID :: string
  faViewerIDsCSV :: string
  faTicketCategoryID :: string
  faTicketCount :: string
  faNow :: string
  faFinalAttemptTTL :: string
  faProjectionTTL :: string
  faInflightTTL :: string
  faOrderNo :: string

text \<open>The return of a ticket count to the quota hash, shared by the three scripts that fail an attempt.\<close>

definition returnQuota :: "redis \<Rightarrow> string \<Rightarrow> string \<Rightarrow> string \<Rightarrow> redis option" where
  "returnQuota r k category tickets =
     (let n = lua_num tickets in if n > 0 then HINCRBY r k category n else Some r)"

definition failBeforeProcessingScript :: "int \<Rightarrow> rushKeys \<Rightarrow> finishArgv \<Rightarrow> redis \<Rightarrow> evalv res \<times> redis" where
  "failBeforeProcessingScript t ks a r =
     (let state = HGET r (kAttempt ks) ''state'' in
      if \<not> EXISTS r (kAttempt ks) then (Inr (VStr ''state_missing''), r)
      else if state = Some ''FAILED'' then (Inr (VStr ''already_failed''), r)
      else if state = Some ''SUCCESS'' \<or> state = Some ''PROCESSING'' then (Inr (VStr ''lost_ownership''), r)
      else if state \<noteq> Some ''PENDING'' then (Inr (VStr ''state_missing''), r)
      else
        let r1 = HMSET r (kAttempt ks) [(''state'', ''FAILED''), (''reason_code'', faReason a),
                   (''finished_at'', faNow a), (''last_transition_at'', faNow a)] in
        case returnQuota r1 (kQuota ks) (faTicketCategoryID a) (faTicketCount a) of
          None \<Rightarrow> (Inl (Other ''ERR hash value is not an integer''), r1)
        | Some r2 \<Rightarrow>
          (let viewers = csv_values (faViewerIDsCSV a);
               r3 = HDEL r2 (kUserInflight ks) (faUserID a);
               r4 = HDELs r3 (kViewerInflight ks) viewers;
               r5 = EXPIRE_pos t r4 (kQuota ks) (lua_num (faProjectionTTL a));
               r6 = EXPIRE_pos t r5 (kUserInflight ks) (lua_num (faInflightTTL a));
               r7 = EXPIRE_pos t r6 (kViewerInflight ks) (lua_num (faInflightTTL a));
               r8 = EXPIRE_pos t r7 (kAttempt ks) (lua_num (faFinalAttemptTTL a))
           in (Inr (VStr ''transitioned''), r8)))"

definition finalizeSuccessScript :: "int \<Rightarrow> rushKeys \<Rightarrow> finishArgv \<Rightarrow> redis \<Rightarrow> evalv res \<times> redis" where
  "finalizeSuccessScript t ks a r =
     (let state = HGET r (kAttempt ks) ''state'' in
      if \<not> EXISTS r (kAttempt ks) then (Inr (VStr ''state_missing''), r)
      else if state = Some ''SUCCESS'' then (Inr (VStr ''already_succeeded''), r)
      else if state = Some ''FAILED'' then (Inr (VStr ''already_failed''), r)
      else if state \<noteq> Some ''PROCESSING'' then (Inr (VStr ''lost_ownership''), r)
      else
        let viewers = csv_values (faViewerIDsCSV a);
            r1 = HMSET r (kAttempt ks) [(''state'', ''SUCCESS''), (''reason_code'', ''ORDER_COMMITTED''),
                   (''finished_at'', faNow a), (''last_transition_at'', faNow a)];
            r2 = HSET r1 (kUserActive ks) (faUserID a) (faOrderNo a);
            r3 = HSETs r2 (kViewerActive ks) viewers (faOrderNo a);
            r4 = HDEL r3 (kUserInflight ks) (faUserID a);
            r5 = HDELs r4 (kViewerInflight ks) viewers;
            r6 = EXPIRE_pos t r5 (kUserActive ks) (lua_num (faProjectionTTL a));
            r7 = EXPIRE_pos t r6 (kViewerActive ks) (lua_num (faProjectionTTL a));
            r8 = EXPIRE_pos t r7 (kAttempt ks) (lua_num (faFinalAttemptTTL a))
        in (Inr (VStr ''transitioned''), r8))"

text \<open>The common tail of \<open>finalize_failure.lua\<close> and \<open>finalize_closed_order.lua\<close>.\<close>

definition releaseAttempt :: "int \<Rightarrow> rushKeys \<Rightarrow> finishArgv \<Rightarrow> string \<Rightarrow> redis \<Rightarrow> evalv res \<times> redis" where
  "releaseAttempt t ks a reason r =
     (let r1 = HMSET r (kAttempt ks) [(''state'', ''FAILED''), (''reason_code'', reason),
                 (''finished_at'', faNow a), (''last_transition_at'', faNow a)] in
      case returnQuota r1 (kQuota ks) (faTicketCategoryID a) (faTicketCount a) of
        None \<Rightarrow> (Inl (Other ''ERR hash value is not an integer''), r1)
      | Some r2 \<Rightarrow>
        (let viewers = csv_values (faViewerIDsCSV a);
             r3 = HDEL r2 (kUserActive ks) (faUserID a);
             r4 = HDEL r3 (kUserInflight ks) (faUserID a);
             r5 = HDELs r4 (kViewerActive ks) viewers;
             r6 = HDELs r5 (kViewerInflight ks) viewers;
             r7 = EXPIRE_pos t r6 (kUserActive ks) (lua_num (faProjectionTTL a));
             r8 = EXPIRE_pos t r7 (kViewerActive ks) (lua_num (faProjectionTTL a));
             r9 = EXPIRE_pos t r8 (kQuota ks) (lua_num (faProjectionTTL a));
             r10 = EXPIRE_pos t r9 (kUserInflight ks) (lua_num (faInflightTTL a));
             r11 = EXPIRE_pos t r10 (kViewerInflight ks) (lua_num (faInflightTTL a));
             r12 = EXPIRE_pos t r11 (kAttempt ks) (lua_num (faFinalAttemptTTL a))
         in (Inr (VStr ''transitioned''), r12)))"

definition finalizeFailureScript :: "int \<Rightarrow> rushKeys \<Rightarrow> finishArgv \<Rightarrow> redis \<Rightarrow> evalv res \<times> redis" where
  "finalizeFailureScript t ks a r =
     (let state = HGET r (kAttempt ks) ''state'' in
      if \<not> EXISTS r (kAttempt ks) then (Inr (VStr ''state_missing''), r)
      else if state = Some ''FAILED'' then (Inr (VStr ''already_failed''), r)
      else if state = Some ''SUCCESS'' then (Inr (VStr ''already_succeeded''), r)
      else if state \<noteq> Some ''PROCESSING'' then (Inr (VStr ''lost_ownership''), r)
      else releaseAttempt t ks a (faReason a) r)"

definition finalizeClosedOrderScript :: "int \<Rightarrow> rushKeys \<Rightarrow> finishArgv \<Rightarrow> redis \<Rightarrow> evalv res \<times> redis" where
  "finalizeClosedOrderScript t ks a r =
     (let state = HGET r (kAttempt ks) ''state'' in
      if \<not> EXISTS r (kAttempt ks) then (Inr (VStr ''state_missing''), r)
      else if state = Some ''FAILED'' then (Inr (VStr ''already_failed''), r)
      else if state \<noteq> Some ''SUCCESS'' then (Inr (VStr ''lost_ownership''), r)
      else releaseAttempt t ks a ''CLOSED_ORDER_RELEASED'' r)"

section \<open>Decoding replies\<close>

definition parseEvalInt64 :: "evalv \<Rightarrow> int res" where
  "parseEvalInt64 v =
     (case v of
        VInt i \<Rightarrow> Inr i
      | VStr s \<Rightarrow> (case parse_int64 s of None \<Rightarrow> Inl (Other ''strconv.ParseInt'') | Some i \<Rightarrow> Inr i))"

definition parseEvalInt64AllowBlank :: "evalv \<Rightarrow> int res" where
  "parseEvalInt64AllowBlank v = (if v = VStr [] then Inr 0 else parseEvalInt64 v)"

definition parseEvalString :: "evalv \<Rightarrow> string res" where
  "parseEvalString v = (case v of VStr s \<Rightarrow> Inr s | VInt _ \<Rightarrow> Inl (Other ''unsupported eval string type''))"

definition parseAttemptTransitionOutcome :: "evalv \<Rightarrow> AttemptTransitionOutcome res" where
  "parseAttemptTransitionOutcome v =
     (case parseEvalString v of
        Inl e \<Rightarrow> Inl e
      | Inr raw \<Rightarrow>
          (if raw = ''transitioned'' then Inr AttemptTransitioned
           else if raw = ''already_failed'' then Inr AttemptAlreadyFailed
           else if raw = ''already_succeeded'' then Inr AttemptAlreadySucceeded
           else if raw = ''lost_ownership'' then Inr AttemptLostOwnership
           else if raw = ''state_missing'' then Inr AttemptStateMissing
           else Inl (Other ''unknown attempt transition outcome'')))"

definition milli_time :: "int \<Rightarrow> gotime" where
  "milli_time ms = (if ms \<le> 0 then None else Some (ms * 1000000))"

definition parsePreparedTime :: "evalv \<Rightarrow> gotime res" where
  "parsePreparedTime v =
     (case parseEvalString v of
        Inl e \<Rightarrow> Inl e
      | Inr raw \<Rightarrow>
          (if raw = [] then Inr None
           else case parse_int64 raw of None \<Rightarrow> Inl (Other ''strconv.ParseInt'') | Some ms \<Rightarrow> Inr (milli_time ms)))"

definition parseFieldInt64 :: "(string \<times> string) list \<Rightarrow> string \<Rightarrow> int res" where
  "parseFieldInt64 fs key =
     (case map_of fs key of
        None \<Rightarrow> Inr 0
      | Some raw \<Rightarrow>
          (if raw = [] then Inr 0
           else case parse_int64 raw of None \<Rightarrow> Inl (Other ''strconv.ParseInt'') | Some i \<Rightarrow> Inr i))"

definition parseFieldTime :: "(string \<times> string) list \<Rightarrow> string \<Rightarrow> gotime res" where
  "parseFieldTime fs key =
     (case map_of fs key of
        None \<Rightarrow> Inr None
      | Some raw \<Rightarrow>
          (if raw = [] then Inr None
           else case parse_int64 raw of None \<Rightarrow> Inl (Other ''strconv.ParseInt'') | Some ms \<Rightarrow> Inr (milli_time ms)))"

text \<open>Sequencing of fallible reads: the chain of \<open>if err != nil { return nil, err }\<close>.\<close>

definition bind_res :: "'a res \<Rightarrow> ('a \<Rightarrow> 'b res) \<Rightarrow> 'b res" where
  "bind_res x f = (case x of Inl e \<Rightarrow> Inl e | Inr a \<Rightarrow> f a)"

lemma bind_res_simps [simp]: "bind_res (Inl e) f = Inl e" "bind_res (Inr a) f = f a"
  by (simp_all add: bind_res_def)

definition field_str :: "(string \<times> string) list \<Rightarrow> string \<Rightarrow> string" where
  "field_str fs key = (case map_of fs key of None \<Rightarrow> [] | Some v \<Rightarrow> v)"

definition mapAttemptRecord :: "(string \<times> string) list \<Rightarrow> AttemptRecord res" where
  "mapAttemptRecord fs =
     bind_res (parseFieldInt64 fs ''order_number'') (\<lambda>orderNumber.
     bind_res (parseFieldInt64 fs ''user_id'') (\<lambda>userID.
     bind_res (parseFieldInt64 fs ''program_id'') (\<lambda>programID.
     bind_res (parseFieldInt64 fs ''show_time_id'') (\<lambda>showTimeID.
     bind_res (parseFieldInt64 fs ''ticket_category_id'') (\<lambda>ticketCategoryID.
     bind_res (parseFieldInt64 fs ''ticket_count'') (\<lambda>ticketCount.
     bind_res (parseInt64CSV (field_str fs ''viewer_ids'')) (\<lambda>viewerIDs.
     bind_res (parseFieldTime fs ''accepted_at'') (\<lambda>acceptedAt.
     bind_res (parseFieldTime fs ''finished_at'') (\<lambda>finishedAt.
     bind_res (parseFieldTime fs ''sale_window_end_at'') (\<lambda>saleWindowEndAt.
     bind_res (parseFieldTime fs ''show_end_at'') (\<lambda>showEndAt.
     bind_res (parseFieldTime fs ''processing_started_at'') (\<lambda>processingStartedAt.
     bind_res (parseFieldTime fs ''created_at'') (\<lambda>createdAt.
     bind_res (parseFieldTime fs ''last_transition_at'') (\<lambda>lastTransitionAt.
     Inr \<lparr>ar_OrderNumber = orderNumber, ar_UserID = userID, ar_ProgramID = programID,
       ar_ShowTimeID = (if showTimeID \<le> 0 then programID else showTimeID),
       ar_TicketCategoryID = ticketCategoryID, ar_ViewerIDs = viewerIDs, ar_TicketCount = ticketCount,
       ar_SaleWindowEndAt = saleWindowEndAt, ar_ShowEndAt = showEndAt,
       ar_State = field_str fs ''state'', ar_ReasonCode = field_str fs ''reason_code'',
       ar_AcceptedAt = acceptedAt, ar_FinishedAt = finishedAt,
       ar_ProcessingStartedAt = processingStartedAt, ar_CreatedAt = createdAt,
       ar_LastTransitionAt = lastTransitionAt\<rparr>))))))))))))))"

definition mapPreparedAttemptRecord :: "evalv list \<Rightarrow> AttemptRecord res" where
  "mapPreparedAttemptRecord vs =
     bind_res (parseEvalString (vs ! 1)) (\<lambda>state.
     bind_res (parseEvalInt64AllowBlank (vs ! 2)) (\<lambda>orderNumber.
     bind_res (parseEvalInt64AllowBlank (vs ! 3)) (\<lambda>userID.
     bind_res (parseEvalInt64AllowBlank (vs ! 4)) (\<lambda>programID.
     bind_res (parseEvalInt64AllowBlank (vs ! 5)) (\<lambda>showTimeID.
     bind_res (parseEvalInt64AllowBlank (vs ! 6)) (\<lambda>ticketCategoryID.
     bind_res (parseEvalString (vs ! 7)) (\<lambda>viewerIDsRaw.
     bind_res (parseInt64CSV viewerIDsRaw) (\<lambda>viewerIDs.
     bind_res (parseEvalInt64AllowBlank (vs ! 8)) (\<lambda>ticketCount.
     bind_res (parsePreparedTime (vs ! 9)) (\<lambda>saleWindowEndAt.
     bind_res (parsePreparedTime (vs ! 10)) (\<lambda>showEndAt.
     bind_res (parseEvalString (vs ! 11)) (\<lambda>reasonCode.
     bind_res (parsePreparedTime (vs ! 12)) (\<lambda>acceptedAt.
     bind_res (parsePreparedTime (vs ! 13)) (\<lambda>finishedAt.
     bind_res (parsePreparedTime (vs ! 14)) (\<lambda>processingStartedAt.
     bind_res (parsePreparedTime (vs ! 15)) (\<lambda>createdAt.
     bind_res (parsePreparedTime (vs ! 16)) (\<lambda>lastTransitionAt.
     Inr \<lparr>ar_OrderNumber = orderNumber, ar_UserID = userID, ar_ProgramID = programID,
       ar_ShowTimeID = showTimeID, ar_TicketCategoryID = ticketCategoryID, ar_ViewerIDs = viewerIDs,
       ar_TicketCount = ticketCount, ar_SaleWindowEndAt = saleWindowEndAt, ar_ShowEndAt = showEndAt,
       ar_State = state, ar_ReasonCode = reasonCode, ar_AcceptedAt = acceptedAt,
       ar_FinishedAt = finishedAt, ar_ProcessingStartedAt = processingStartedAt,
       ar_CreatedAt = createdAt, ar_LastTransitionAt = lastTransitionAt\<rparr>)))))))))))))))))"

section \<open>The methods\<close>

record AdmitAttemptRequest =
  rq_OrderNumber :: int
  rq_UserID :: int
  rq_ProgramID :: int
  rq_ShowTimeID :: int
  rq_TicketCategoryID :: int
  rq_ViewerIDs :: "int list"
  rq_TicketCount :: int
  rq_SaleWindowEndAt :: gotime
  rq_ShowEndAt :: gotime
  rq_Now :: gotime

record AdmitAttemptResult =
  rs_OrderNumber :: int
  rs_Decision :: int
  rs_RejectCode :: int

definition SetQuotaAvailable :: "AttemptStoreT \<Rightarrow> int \<Rightarrow> int \<Rightarrow> int \<Rightarrow> int \<Rightarrow> redis \<Rightarrow> unit res \<times> redis" where
  "SetQuotaAvailable s t showTimeID ticketCategoryID available r =
     (if showTimeID \<le> 0 \<or> ticketCategoryID \<le> 0 \<or> available < 0 then (Inl (Sentinel ErrInvalidParam), r)
      else (Inr (), HSET (purge t r) (quotaAvailableKey (as_prefix s) showTimeID)
                      (show_int ticketCategoryID) (show_int available)))"

definition GetQuotaAvailable :: "AttemptStoreT \<Rightarrow> int \<Rightarrow> int \<Rightarrow> int \<Rightarrow> redis \<Rightarrow> (int \<times> bool) res" where
  "GetQuotaAvailable s t showTimeID ticketCategoryID r =
     (if showTimeID \<le> 0 \<or> ticketCategoryID \<le> 0 then Inl (Sentinel ErrInvalidParam)
      else case HGET (purge t r) (quotaAvailableKey (as_prefix s) showTimeID) (show_int ticketCategoryID) of
             None \<Rightarrow> Inr (0, False)
           | Some raw \<Rightarrow>
               (if raw = [] then Inr (0, False)
                else case parse_int64 raw of
                       None \<Rightarrow> Inl (Other ''strconv.ParseInt'')
                     | Some value \<Rightarrow> Inr (value, True)))"

definition admitReply :: "evalv list \<Rightarrow> AdmitAttemptResult res" where
  "admitReply vs =
     (if length vs < 3 then Inl (Other ''unexpected admit result length'')
      else bind_res (parseEvalInt64 (vs ! 0)) (\<lambda>decision.
           bind_res (parseEvalInt64AllowBlank (vs ! 1)) (\<lambda>orderNumber.
           bind_res (parseEvalInt64 (vs ! 2)) (\<lambda>rejectCode.
           Inr \<lparr>rs_OrderNumber = orderNumber, rs_Decision = decision, rs_RejectCode = rejectCode\<rparr>))))"

definition admitArgs :: "AttemptStoreT \<Rightarrow> int \<Rightarrow> AdmitAttemptRequest \<Rightarrow> int list \<Rightarrow> int \<Rightarrow> int \<Rightarrow> admitArgv" where
  "admitArgs s now req viewerIDs ticketCount showTimeID =
     (let saleWindowEndAt = (case rq_SaleWindowEndAt req of
            None \<Rightarrow> now + inFlightTTLSeconds s * 1000000000 | Some x \<Rightarrow> x);
          showEndAt = (case rq_ShowEndAt req of None \<Rightarrow> saleWindowEndAt | Some x \<Rightarrow> x)
      in \<lparr>aaOrderNo = show_int (rq_OrderNumber req), aaUserID = show_int (rq_UserID req),
          aaProgramID = show_int (rq_ProgramID req), aaShowTimeID = show_int showTimeID,
          aaTicketCategoryID = show_int (rq_TicketCategoryID req),
          aaTicketCount = show_int ticketCount,
          aaSaleWindowEndAt = show_int (unix_milli saleWindowEndAt),
          aaShowEndAt = show_int (unix_milli showEndAt), aaNow = show_int (unix_milli now),
          aaInFlightTTL = show_int (inFlightTTLSeconds s),
          aaPendingAttemptTTL = show_int (computeAttemptRecordTTLSeconds (Some now) (Some saleWindowEndAt) (inFlightTTLSeconds s)),
          aaProjectionTTL = show_int (computeActiveProjectionTTLSeconds (Some now) (Some showEndAt)),
          aaViewerIDsCSV = formatInt64CSV viewerIDs\<rparr>)"

definition Admit :: "AttemptStoreT \<Rightarrow> int \<Rightarrow> int \<Rightarrow> fault \<Rightarrow> AdmitAttemptRequest \<Rightarrow> redis \<Rightarrow> AdmitAttemptResult res \<times> redis" where
  "Admit s t wall flt req r =
     (let showTimeID = (if rq_ShowTimeID req \<le> 0 then rq_ProgramID req else rq_ShowTimeID req);
          viewerIDs = normalizedInt64s (rq_ViewerIDs req);
          ticketCount = (if rq_TicketCount req \<le> 0 then int (length viewerIDs) else rq_TicketCount req);
          now = (case rq_Now req of None \<Rightarrow> wall | Some n \<Rightarrow> n) in
      if rq_OrderNumber req \<le> 0 \<or> rq_UserID req \<le> 0 \<or> rq_ProgramID req \<le> 0 \<or> showTimeID \<le> 0
         \<or> rq_TicketCategoryID req \<le> 0 then (Inl (Sentinel ErrInvalidParam), r)
      else if viewerIDs = [] then (Inl (Sentinel ErrInvalidParam), r)
      else if ticketCount \<le> 0 \<or> ticketCount \<noteq> int (length viewerIDs) then (Inl (Sentinel ErrInvalidParam), r)
      else
        case eval_ctx flt (admitAttemptScript t (rushKeysOf s showTimeID (rq_OrderNumber req))
               (admitArgs s now req viewerIDs ticketCount showTimeID)) (purge t r) of
          (Inl e, r') \<Rightarrow> (Inl e, r')
        | (Inr vs, r') \<Rightarrow> (admitReply vs, r'))"

definition GetByShowTimeAndOrderNumber :: "AttemptStoreT \<Rightarrow> int \<Rightarrow> int \<Rightarrow> int \<Rightarrow> redis \<Rightarrow> AttemptRecord res" where
  "GetByShowTimeAndOrderNumber s t showTimeID orderNumber r =
     (if showTimeID \<le> 0 \<or> orderNumber \<le> 0 then Inl (Sentinel ErrInvalidParam)
      else
        let fs = HGETALL (purge t r) (attemptRecordKey (as_prefix s) showTimeID orderNumber) in
        if fs = [] then Inl (Sentinel ErrOrderNotFound)
        else bind_res (mapAttemptRecord fs) (\<lambda>a.
          let a1 = (if ar_OrderNumber a = 0 then a\<lparr>ar_OrderNumber := orderNumber\<rparr> else a);
              a2 = (if ar_ShowTimeID a1 = 0 then a1\<lparr>ar_ShowTimeID := showTimeID\<rparr> else a1)
          in Inr a2))"

text \<open>\<open>ClearUserInflightByShowTime\<close> and its two siblings delete one hash of a show.\<close>

definition ClearUserInflightByShowTime :: "AttemptStoreT \<Rightarrow> int \<Rightarrow> redis \<Rightarrow> unit res \<times> redis" where
  "ClearUserInflightByShowTime s showTimeID r =
     (if showTimeID \<le> 0 then (Inl (Sentinel ErrInvalidParam), r)
      else (Inr (), DEL r (userInflightKey (as_prefix s) showTimeID)))"

definition ClearViewerInflightByShowTime :: "AttemptStoreT \<Rightarrow> int \<Rightarrow> redis \<Rightarrow> unit res \<times> redis" where
  "ClearViewerInflightByShowTime s showTimeID r =
     (if showTimeID \<le> 0 then (Inl (Sentinel ErrInvalidParam), r)
      else (Inr (), DEL r (viewerInflightKey (as_prefix s) showTimeID)))"

definition ClearQuotaByShowTime :: "AttemptStoreT \<Rightarrow> int \<Rightarrow> redis \<Rightarrow> unit res \<times> redis" where
  "ClearQuotaByShowTime s showTimeID r =
     (if showTimeID \<le> 0 then (Inl (Sentinel ErrInvalidParam), r)
      else (Inr (), DEL r (quotaAvailableKey (as_prefix s) showTimeID)))"

text \<open>
  The replacement of an active projection; \<open>rows\<close> lists the Go map in some iteration order, each
  key once. The deletion has already happened when a row turns out invalid.
\<close>

definition replaceActive :: "string \<Rightarrow> int \<Rightarrow> int \<Rightarrow> (int \<times> int) list \<Rightarrow> int \<Rightarrow> redis \<Rightarrow> unit res \<times> redis" where
  "replaceActive key t showTimeID rows ttlSeconds r =
     (if showTimeID \<le> 0 \<or> ttlSeconds < 0 then (Inl (Sentinel ErrInvalidParam), r)
      else
        let r1 = DEL (purge t r) key in
        if \<exists>row \<in> set rows. fst row \<le> 0 \<or> snd row \<le> 0 then (Inl (Sentinel ErrInvalidParam), r1)
        else (Inr (), EXPIRE_pos t (HMSET r1 key (map (\<lambda>(i, n). (show_int i, show_int n)) rows)) key ttlSeconds))"

definition ReplaceUserActiveByShowTime :: "AttemptStoreT \<Rightarrow> int \<Rightarrow> int \<Rightarrow> (int \<times> int) list \<Rightarrow> int \<Rightarrow> redis \<Rightarrow> unit res \<times> redis" where
  "ReplaceUserActiveByShowTime s t showTimeID rows ttlSeconds r =
     replaceActive (userActiveKey (as_prefix s) showTimeID) t showTimeID rows ttlSeconds r"

definition ReplaceViewerActiveByShowTime :: "AttemptStoreT \<Rightarrow> int \<Rightarrow> int \<Rightarrow> (int \<times> int) list \<Rightarrow> int \<Rightarrow> redis \<Rightarrow> unit res \<times> redis" where
  "ReplaceViewerActiveByShowTime s t showTimeID rows ttlSeconds r =
     replaceActive (viewerActiveKey (as_prefix s) showTimeID) t showTimeID rows ttlSeconds r"

text \<open>The transitions of an attempt. Each call runs one script on the attempt's keys.\<close>

definition orNow :: "gotime \<Rightarrow> int \<Rightarrow> int" where
  "orNow now wall = (case now of None \<Rightarrow> wall | Some n \<Rightarrow> n)"

definition PrepareAttemptForConsume :: "AttemptStoreT \<Rightarrow> int \<Rightarrow> int \<Rightarrow> fault \<Rightarrow> int \<Rightarrow> int \<Rightarrow> gotime \<Rightarrow> redis
    \<Rightarrow> (AttemptRecord \<times> bool) res \<times> redis" where
  "PrepareAttemptForConsume s t wall flt showTimeID orderNumber now r =
     (if showTimeID \<le> 0 \<or> orderNumber \<le> 0 then (Inl (Sentinel ErrInvalidParam), r)
      else
        case eval_ctx flt (prepareAttemptForConsumeScript t (attemptRecordKey (as_prefix s) showTimeID orderNumber)
               (show_int (unix_milli (orNow now wall))) (show_int (inFlightTTLSeconds s))) (purge t r) of
          (Inl e, r') \<Rightarrow> (Inl e, r')
        | (Inr vs, r') \<Rightarrow>
            ((if length vs = 1 \<and> (case parseEvalInt64 (vs ! 0) of Inl _ \<Rightarrow> False | Inr c \<Rightarrow> c \<le> 0)
              then Inl (Sentinel ErrOrderNotFound)
              else if length vs < 17 then Inl (Other ''unexpected prepare attempt result length'')
              else
                bind_res (parseEvalInt64 (vs ! 0)) (\<lambda>shouldProcessCode.
                bind_res (mapPreparedAttemptRecord vs) (\<lambda>a.
                let a1 = (if ar_OrderNumber a = 0 then a\<lparr>ar_OrderNumber := orderNumber\<rparr> else a);
                    a2 = (if ar_ShowTimeID a1 = 0 then a1\<lparr>ar_ShowTimeID := showTimeID\<rparr> else a1)
                in Inr (a2, shouldProcessCode = 1)))), r'))"

definition RefreshProcessingLease :: "AttemptStoreT \<Rightarrow> int \<Rightarrow> fault \<Rightarrow> int \<Rightarrow> int \<Rightarrow> redis \<Rightarrow> bool res \<times> redis" where
  "RefreshProcessingLease s t flt showTimeID orderNumber r =
     (if showTimeID \<le> 0 \<or> orderNumber \<le> 0 then (Inl (Sentinel ErrInvalidParam), r)
      else
        case eval_ctx flt (refreshProcessingLeaseScript t (attemptRecordKey (as_prefix s) showTimeID orderNumber)
               (show_int (inFlightTTLSeconds s))) (purge t r) of
          (Inl e, r') \<Rightarrow> (Inl e, r')
        | (Inr v, r') \<Rightarrow> (bind_res (parseEvalInt64 v) (\<lambda>statusCode. Inr (statusCode = 1)), r'))"

text \<open>The arguments the four finishing methods build from a record.\<close>

definition finishArgs :: "AttemptStoreT \<Rightarrow> int \<Rightarrow> string \<Rightarrow> AttemptRecord \<Rightarrow> finishArgv" where
  "finishArgs s now reason a =
     \<lparr>faReason = reason, faUserID = show_int (ar_UserID a),
      faViewerIDsCSV = formatInt64CSV (normalizedInt64s (ar_ViewerIDs a)),
      faTicketCategoryID = show_int (ar_TicketCategoryID a), faTicketCount = show_int (ar_TicketCount a),
      faNow = show_int (unix_milli now), faFinalAttemptTTL = show_int (finalStateTTLSeconds s),
      faProjectionTTL = show_int (computeActiveProjectionTTLSeconds (Some now) (ar_ShowEndAt a)),
      faInflightTTL = show_int (inFlightTTLSeconds s), faOrderNo = show_int (ar_OrderNumber a)\<rparr>"

definition recordIdsOk :: "AttemptRecord \<Rightarrow> bool" where
  "recordIdsOk a \<longleftrightarrow> ar_OrderNumber a > 0 \<and> ar_UserID a > 0 \<and> ar_ProgramID a > 0 \<and> ar_ShowTimeID a > 0"

definition runFinish :: "fault \<Rightarrow> (redis \<Rightarrow> evalv res \<times> redis) \<Rightarrow> redis \<Rightarrow> AttemptTransitionOutcome res \<times> redis" where
  "runFinish flt script r =
     (case eval_ctx flt script r of
        (Inl e, r') \<Rightarrow> (Inl e, r')
      | (Inr v, r') \<Rightarrow> (parseAttemptTransitionOutcome v, r'))"

definition FailBeforeProcessing :: "AttemptStoreT \<Rightarrow> int \<Rightarrow> int \<Rightarrow> fault \<Rightarrow> AttemptRecord \<Rightarrow> string \<Rightarrow> gotime \<Rightarrow> redis
    \<Rightarrow> AttemptTransitionOutcome res \<times> redis" where
  "FailBeforeProcessing s t wall flt a reason now r =
     (if \<not> recordIdsOk a \<or> ar_TicketCategoryID a \<le> 0 then (Inl (Sentinel ErrInvalidParam), r)
      else if reason = [] then (Inl (Sentinel ErrInvalidParam), r)
      else runFinish flt (failBeforeProcessingScript t (rushKeysOf s (ar_ShowTimeID a) (ar_OrderNumber a))
             (finishArgs s (orNow now wall) reason a)) (purge t r))"

definition FinalizeSuccess :: "AttemptStoreT \<Rightarrow> int \<Rightarrow> int \<Rightarrow> fault \<Rightarrow> AttemptRecord \<Rightarrow> gotime \<Rightarrow> redis \<Rightarrow> unit res \<times> redis" where
  "FinalizeSuccess s t wall flt a now r =
     (if \<not> recordIdsOk a then (Inl (Sentinel ErrInvalidParam), r)
      else
        case runFinish flt (finalizeSuccessScript t (rushKeysOf s (ar_ShowTimeID a) (ar_OrderNumber a))
               (finishArgs s (orNow now wall) [] a)) (purge t r) of
          (Inl e, r') \<Rightarrow> (Inl e, r')
        | (Inr outcome, r') \<Rightarrow>
            ((if outcome = AttemptStateMissing then Inl (Sentinel ErrOrderNotFound) else Inr ()), r'))"

definition FinalizeFailure :: "AttemptStoreT \<Rightarrow> int \<Rightarrow> int \<Rightarrow> fault \<Rightarrow> AttemptRecord \<Rightarrow> string \<Rightarrow> gotime \<Rightarrow> redis
    \<Rightarrow> AttemptTransitionOutcome res \<times> redis" where
  "FinalizeFailure s t wall flt a reason now r =
     (if \<not> recordIdsOk a \<or> ar_TicketCategoryID a \<le> 0 then (Inl (Sentinel ErrInvalidParam), r)
      else if reason = [] then (Inl (Sentinel ErrInvalidParam), r)
      else runFinish flt (finalizeFailureScript t (rushKeysOf s (ar_ShowTimeID a) (ar_OrderNumber a))
             (finishArgs s (orNow now wall) reason a)) (purge t r))"

definition FinalizeClosedOrder :: "AttemptStoreT \<Rightarrow> int \<Rightarrow> int \<Rightarrow> fault \<Rightarrow> AttemptRecord \<Rightarrow> gotime \<Rightarrow> redis
    \<Rightarrow> AttemptTransitionOutcome res \<times> redis" where
  "FinalizeClosedOrder s t wall flt a now r =
     (if \<not> recordIdsOk a \<or> ar_TicketCategoryID a \<le> 0 then (Inl (Sentinel ErrInvalidParam), r)
      else runFinish flt (finalizeClosedOrderScript t (rushKeysOf s (ar_ShowTimeID a) (ar_OrderNumber a))
             (finishArgs s (orNow now wall) [] a)) (purge t r))"

end
