(* ===== verification/RushInvariant.thy ===== *)
theory RushInvariant
  imports AttemptStore
begin

text \<open>
  What the rush store promises about the quota of a show and about its users and viewers. The
  keyspace is seen through \<open>rushView\<close>, one map per hash; each script is shown to be an update of
  that view, and the invariant is proved on the view.
\<close>

declare HMSET.simps [simp del]

section \<open>Keys\<close>

lemma rushScopeTag_inject [key_simps]: "rushScopeTag i @ x = rushScopeTag j @ y \<longleftrightarrow> i = j \<and> x = y"
proof
  assume "rushScopeTag i @ x = rushScopeTag j @ y"
  then have "show_int i @ CHR ''}'' # x = show_int j @ CHR ''}'' # y" by (simp add: rushScopeTag_def)
  from separator_unique [OF _ _ this] show "i = j \<and> x = y" by simp
qed simp

lemma attemptRecordKey_inject [key_simps]:
  "attemptRecordKey p i n = attemptRecordKey p j m \<longleftrightarrow> i = j \<and> n = m"
  by (simp add: attemptRecordKey_def key_simps)

lemma hash_keys_distinct [key_simps]:
  "attemptRecordKey p i n \<noteq> userInflightKey p j" "attemptRecordKey p i n \<noteq> viewerInflightKey p j"
  "attemptRecordKey p i n \<noteq> userActiveKey p j" "attemptRecordKey p i n \<noteq> viewerActiveKey p j"
  "attemptRecordKey p i n \<noteq> quotaAvailableKey p j"
  "userInflightKey p i \<noteq> viewerInflightKey p j" "userInflightKey p i \<noteq> userActiveKey p j"
  "userInflightKey p i \<noteq> viewerActiveKey p j" "userInflightKey p i \<noteq> quotaAvailableKey p j"
  "viewerInflightKey p i \<noteq> userActiveKey p j" "viewerInflightKey p i \<noteq> viewerActiveKey p j"
  "viewerInflightKey p i \<noteq> quotaAvailableKey p j" "userActiveKey p i \<noteq> viewerActiveKey p j"
  "userActiveKey p i \<noteq> quotaAvailableKey p j" "viewerActiveKey p i \<noteq> quotaAvailableKey p j"
  by (simp_all add: attemptRecordKey_def userInflightKey_def viewerInflightKey_def userActiveKey_def
      viewerActiveKey_def quotaAvailableKey_def)

lemmas hash_keys_distinct' [key_simps] = hash_keys_distinct [symmetric]

section \<open>The view of a show\<close>

record rushView =
  vAtt :: "int \<Rightarrow> string \<rightharpoonup> string"
  vQuota :: "string \<rightharpoonup> string"
  vUserActive :: "string \<rightharpoonup> string"
  vUserInflight :: "string \<rightharpoonup> string"
  vViewerActive :: "string \<rightharpoonup> string"
  vViewerInflight :: "string \<rightharpoonup> string"

definition view :: "AttemptStoreT \<Rightarrow> int \<Rightarrow> redis \<Rightarrow> rushView" where
  "view s st r = \<lparr>vAtt = (\<lambda>n. HGET r (attemptRecordKey (as_prefix s) st n)),
     vQuota = HGET r (quotaAvailableKey (as_prefix s) st),
     vUserActive = HGET r (userActiveKey (as_prefix s) st),
     vUserInflight = HGET r (userInflightKey (as_prefix s) st),
     vViewerActive = HGET r (viewerActiveKey (as_prefix s) st),
     vViewerInflight = HGET r (viewerInflightKey (as_prefix s) st)\<rparr>"

definition blank :: "string option \<Rightarrow> string" where
  "blank x = (case x of None \<Rightarrow> [] | Some v \<Rightarrow> v)"

definition setAll :: "(string \<rightharpoonup> string) \<Rightarrow> string list \<Rightarrow> string option \<Rightarrow> string \<rightharpoonup> string" where
  "setAll f ks x = (\<lambda>k. if k \<in> set ks then x else f k)"

text \<open>The specification of the three kinds of update.\<close>

definition admitted :: "int \<Rightarrow> admitArgv \<Rightarrow> rushView \<Rightarrow> rushView" where
  "admitted n a v = v
     \<lparr>vAtt := (vAtt v)(n := vAtt v n ++ map_of (rev
         [(''order_number'', aaOrderNo a), (''user_id'', aaUserID a),
          (''program_id'', aaProgramID a), (''show_time_id'', aaShowTimeID a),
          (''ticket_category_id'', aaTicketCategoryID a), (''viewer_ids'', aaViewerIDsCSV a),
          (''ticket_count'', show_int (lua_num (aaTicketCount a))), (''sale_window_end_at'', aaSaleWindowEndAt a),
          (''state'', ''PENDING''), (''reason_code'', ''''), (''accepted_at'', aaNow a),
          (''finished_at'', ''0''), (''show_end_at'', aaShowEndAt a), (''created_at'', aaNow a),
          (''last_transition_at'', aaNow a)])),
      vQuota := (vQuota v)(aaTicketCategoryID a \<mapsto>
         show_int (lua_num (blank (vQuota v (aaTicketCategoryID a))) - lua_num (aaTicketCount a))),
      vUserInflight := (vUserInflight v)(aaUserID a \<mapsto> aaOrderNo a),
      vViewerInflight := setAll (vViewerInflight v) (csv_values (aaViewerIDsCSV a)) (Some (aaOrderNo a))\<rparr>"

definition released :: "bool \<Rightarrow> int \<Rightarrow> string \<Rightarrow> finishArgv \<Rightarrow> rushView \<Rightarrow> rushView" where
  "released act n reason a v =
     (let vs = csv_values (faViewerIDsCSV a); c = faTicketCategoryID a; k = lua_num (faTicketCount a) in
      v\<lparr>vAtt := (vAtt v)(n := vAtt v n ++ map_of (rev [(''state'', ''FAILED''), (''reason_code'', reason),
            (''finished_at'', faNow a), (''last_transition_at'', faNow a)])),
        vQuota := (if k > 0 then (vQuota v)(c \<mapsto> show_int (lua_num (blank (vQuota v c)) + k)) else vQuota v),
        vUserActive := (if act then (vUserActive v)(faUserID a := None) else vUserActive v),
        vUserInflight := (vUserInflight v)(faUserID a := None),
        vViewerActive := (if act then setAll (vViewerActive v) vs None else vViewerActive v),
        vViewerInflight := setAll (vViewerInflight v) vs None\<rparr>)"

definition succeeded :: "int \<Rightarrow> finishArgv \<Rightarrow> rushView \<Rightarrow> rushView" where
  "succeeded n a v =
     (let vs = csv_values (faViewerIDsCSV a) in
      v\<lparr>vAtt := (vAtt v)(n := vAtt v n ++ map_of (rev [(''state'', ''SUCCESS''), (''reason_code'', ''ORDER_COMMITTED''),
            (''finished_at'', faNow a), (''last_transition_at'', faNow a)])),
        vUserActive := (vUserActive v)(faUserID a \<mapsto> faOrderNo a),
        vUserInflight := (vUserInflight v)(faUserID a := None),
        vViewerActive := setAll (vViewerActive v) vs (Some (faOrderNo a)),
        vViewerInflight := setAll (vViewerInflight v) vs None\<rparr>)"

definition processing :: "int \<Rightarrow> string \<Rightarrow> rushView \<Rightarrow> rushView" where
  "processing n now v = v\<lparr>vAtt := (vAtt v)(n := vAtt v n ++ map_of (rev
     [(''state'', ''PROCESSING''), (''processing_started_at'', now), (''last_transition_at'', now)]))\<rparr>"

lemma HINCRBY_eq:
  assumes "\<And>v. HGET r k f = Some v \<Longrightarrow> \<exists>q. v = show_int q \<and> in_int64 q"
    and "in_int64 (lua_num (blank (HGET r k f)) + d)"
  shows "HINCRBY r k f d = Some (HSET r k f (show_int (lua_num (blank (HGET r k f)) + d)))"
proof (cases "HGET r k f")
  case None
  then show ?thesis using assms(2)
    by (simp add: HINCRBY_def blank_def lua_num_def lua_tonumber_def parse_int64_def)
next
  case (Some v)
  then show ?thesis using assms(1) [OF Some] assms(2) by (auto simp: HINCRBY_def blank_def)
qed

section \<open>The scripts update the view\<close>

text \<open>A quota hash holds decimal numbers that are not negative.\<close>

definition quotaOk :: "rushView \<Rightarrow> bool" where
  "quotaOk v \<longleftrightarrow> (\<forall>c x. vQuota v c = Some x \<longrightarrow> (\<exists>q. x = show_int q \<and> 0 \<le> q \<and> in_int64 q))"

definition admissible :: "int \<Rightarrow> admitArgv \<Rightarrow> rushView \<Rightarrow> bool" where
  "admissible n a v \<longleftrightarrow> vAtt v n = Map.empty
     \<and> blank (vUserActive v (aaUserID a)) = [] \<and> blank (vUserInflight v (aaUserID a)) = []
     \<and> (\<forall>w \<in> set (csv_values (aaViewerIDsCSV a)). blank (vViewerActive v w) = [] \<and> blank (vViewerInflight v w) = [])
     \<and> vQuota v (aaTicketCategoryID a) \<noteq> None
     \<and> lua_num (aaTicketCount a) \<le> lua_num (blank (vQuota v (aaTicketCategoryID a)))"

lemma firstHeld_None: "firstHeld r k fs = None \<longleftrightarrow> (\<forall>f \<in> set fs. blank (HGET r k f) = [])"
  by (induction fs) (auto simp: blank_def split: option.splits)

lemma firstHeld_Some: "firstHeld r k fs = Some x \<Longrightarrow> x \<noteq> [] \<and> (\<exists>f \<in> set fs. HGET r k f = Some x)"
  by (induction fs) (auto split: option.splits if_splits)

lemmas view_keys = view_def rushKeysOf_def


lemma quota_string: "quotaOk (view s st r) \<Longrightarrow> HGET r (quotaAvailableKey (as_prefix s) st) c = Some x
    \<Longrightarrow> \<exists>q. x = show_int q \<and> 0 \<le> q \<and> in_int64 q"
  by (auto simp: quotaOk_def view_def)

lemma in_int64_diff: "0 \<le> n \<Longrightarrow> n \<le> q \<Longrightarrow> in_int64 q \<Longrightarrow> in_int64 (q - n)"
  by (auto simp: in_int64_def int64_min_def)

lemma lua_num_Some: "lua_tonumber x = Some q \<Longrightarrow> lua_num x = q"
  by (simp add: lua_num_def)

lemma admit_accept_view:
  fixes a :: admitArgv
  assumes ok: "quotaOk (view s st r)" and n0: "0 \<le> lua_num (aaTicketCount a)"
    and guards: "\<not> EXISTS r (kAttempt (rushKeysOf s st n))"
      "firstHeld r (kUserActive (rushKeysOf s st n)) [aaUserID a] = None"
      "firstHeld r (kViewerActive (rushKeysOf s st n)) (csv_values (aaViewerIDsCSV a)) = None"
      "firstHeld r (kUserInflight (rushKeysOf s st n)) [aaUserID a] = None"
      "firstHeld r (kViewerInflight (rushKeysOf s st n)) (csv_values (aaViewerIDsCSV a)) = None"
      "lua_tonumber (blank (HGET r (kQuota (rushKeysOf s st n)) (aaTicketCategoryID a))) = Some q"
      "lua_num (aaTicketCount a) \<le> q"
  shows "admissible n a (view s st r)"
    and "fst (admitAttemptScript t (rushKeysOf s st n) a r) = Inr [VInt 1, VStr (aaOrderNo a), VInt 0]"
    and "view s st (snd (admitAttemptScript t (rushKeysOf s st n) a r)) = admitted n a (view s st r)"
proof -
  let ?k = "quotaAvailableKey (as_prefix s) st" and ?c = "aaTicketCategoryID a"
  obtain x where x: "HGET r ?k ?c = Some x"
    using guards(6) by (cases "HGET r ?k ?c") (auto simp: blank_def lua_tonumber_def parse_int64_def rushKeysOf_def)
  from quota_string [OF ok x] obtain q' where q': "x = show_int q'" "0 \<le> q'" "in_int64 q'" by blast
  from guards(6) q' x have q: "q = q'" by (auto simp: blank_def lua_tonumber_def rushKeysOf_def)
  show "admissible n a (view s st r)"
    using guards x q q' unfolding admissible_def view_def rushKeysOf_def firstHeld_None
    by (auto simp: redis_simps blank_def)
  have h: "HINCRBY r ?k ?c (- lua_num (aaTicketCount a)) =
      Some (HSET r ?k ?c (show_int (lua_num (blank (HGET r ?k ?c)) + - lua_num (aaTicketCount a))))"
    using x q q' guards(7) n0 in_int64_diff [of "lua_num (aaTicketCount a)" q]
    by (intro HINCRBY_eq) (auto simp: blank_def)
  have g: "(case HGET r (kQuota (rushKeysOf s st n)) (aaTicketCategoryID a) of None \<Rightarrow> [] | Some v \<Rightarrow> v)
     = blank (HGET r (kQuota (rushKeysOf s st n)) (aaTicketCategoryID a))" by (simp add: blank_def)
  show "fst (admitAttemptScript t (rushKeysOf s st n) a r) = Inr [VInt 1, VStr (aaOrderNo a), VInt 0]"
    using guards h unfolding admitAttemptScript_def g by (simp add: Let_def rushKeysOf_def)
  show "view s st (snd (admitAttemptScript t (rushKeysOf s st n) a r)) = admitted n a (view s st r)"
    using guards h unfolding admitAttemptScript_def g
    by (simp add: Let_def rushKeysOf_def)
       (auto simp: view_def admitted_def redis_simps key_simps setAll_def fun_eq_iff map_add_def
         split: option.splits)
qed


text \<open>The script either leaves the keyspace alone or admits the attempt.\<close>

lemma admit_view_cases:
  assumes ok: "quotaOk (view s st r)" and n0: "0 \<le> lua_num (aaTicketCount a)"
  obtains (same) "snd (admitAttemptScript t (rushKeysOf s st n) a r) = r"
      "\<And>vs. fst (admitAttemptScript t (rushKeysOf s st n) a r) = Inr vs \<Longrightarrow> vs ! 0 \<in> {VInt 0, VInt 2}"
  | (accept) "admissible n a (view s st r)"
      "fst (admitAttemptScript t (rushKeysOf s st n) a r) = Inr [VInt 1, VStr (aaOrderNo a), VInt 0]"
      "view s st (snd (admitAttemptScript t (rushKeysOf s st n) a r)) = admitted n a (view s st r)"
proof -
  let ?ks = "rushKeysOf s st n" and ?vs = "csv_values (aaViewerIDsCSV a)"
  let ?q = "lua_tonumber (blank (HGET r (kQuota ?ks) (aaTicketCategoryID a)))"
  have g: "(case HGET r (kQuota ?ks) (aaTicketCategoryID a) of None \<Rightarrow> [] | Some v \<Rightarrow> v)
     = blank (HGET r (kQuota ?ks) (aaTicketCategoryID a))" by (simp add: blank_def)
  show thesis
  proof (cases "\<not> EXISTS r (kAttempt ?ks) \<and> firstHeld r (kUserActive ?ks) [aaUserID a] = None
      \<and> firstHeld r (kViewerActive ?ks) ?vs = None \<and> firstHeld r (kUserInflight ?ks) [aaUserID a] = None
      \<and> firstHeld r (kViewerInflight ?ks) ?vs = None \<and> (\<exists>q. ?q = Some q \<and> lua_num (aaTicketCount a) \<le> q)")
    case True
    then obtain q where "\<not> EXISTS r (kAttempt ?ks)" "firstHeld r (kUserActive ?ks) [aaUserID a] = None"
      "firstHeld r (kViewerActive ?ks) ?vs = None" "firstHeld r (kUserInflight ?ks) [aaUserID a] = None"
      "firstHeld r (kViewerInflight ?ks) ?vs = None" "?q = Some q" "lua_num (aaTicketCount a) \<le> q" by blast
    note f = admit_accept_view [OF ok n0 this]
    show thesis by (rule accept [OF f])
  next
    case False
    then have "snd (admitAttemptScript t ?ks a r) = r"
      and "fst (admitAttemptScript t ?ks a r) = Inr vs \<Longrightarrow> vs ! 0 \<in> {VInt 0, VInt 2}" for vs
      unfolding admitAttemptScript_def g Let_def
      by (auto simp del: firstHeld.simps split: option.splits if_splits)
    then show thesis by (rule same)
  qed
qed

lemma returnQuota_view:
  assumes "quotaOk (view s st r)"
    and "in_int64 (lua_num (blank (HGET r (quotaAvailableKey (as_prefix s) st) c)) + lua_num k)"
  shows "returnQuota r (quotaAvailableKey (as_prefix s) st) c k =
    Some (if lua_num k > 0 then HSET r (quotaAvailableKey (as_prefix s) st) c
      (show_int (lua_num (blank (HGET r (quotaAvailableKey (as_prefix s) st) c)) + lua_num k)) else r)"
proof -
  have "HINCRBY r (quotaAvailableKey (as_prefix s) st) c (lua_num k) = Some (HSET r (quotaAvailableKey (as_prefix s) st) c
      (show_int (lua_num (blank (HGET r (quotaAvailableKey (as_prefix s) st) c)) + lua_num k)))"
    using quota_string [OF assms(1), of c] assms(2) by (intro HINCRBY_eq) auto
  then show ?thesis by (simp add: returnQuota_def Let_def)
qed

text \<open>What the finishing scripts need of the quota so that returning the tickets cannot fail.\<close>

definition roomFor :: "rushView \<Rightarrow> finishArgv \<Rightarrow> bool" where
  "roomFor v a \<longleftrightarrow> quotaOk v \<and> in_int64 (lua_num (blank (vQuota v (faTicketCategoryID a))) + lua_num (faTicketCount a))"

lemma view_HMSET_attempt:
  "view s st (HMSET r (attemptRecordKey (as_prefix s) st n) fvs) =
     (view s st r)\<lparr>vAtt := (vAtt (view s st r))(n := vAtt (view s st r) n ++ map_of (rev fvs))\<rparr>"
  by (auto simp: view_def redis_simps key_simps fun_eq_iff map_add_def split: option.splits)

lemma view_EXPIRE_pos [simp]: "view s st (EXPIRE_pos t r k x) = view s st r"
  by (simp add: view_def redis_simps fun_eq_iff)

lemma view_simps:
  "view s st (HSET r (quotaAvailableKey (as_prefix s) st) c x) =
     (view s st r)\<lparr>vQuota := (vQuota (view s st r))(c \<mapsto> x)\<rparr>"
  "view s st (HSET r (userActiveKey (as_prefix s) st) c x) =
     (view s st r)\<lparr>vUserActive := (vUserActive (view s st r))(c \<mapsto> x)\<rparr>"
  "view s st (HDEL r (userActiveKey (as_prefix s) st) c) =
     (view s st r)\<lparr>vUserActive := (vUserActive (view s st r))(c := None)\<rparr>"
  "view s st (HDEL r (userInflightKey (as_prefix s) st) c) =
     (view s st r)\<lparr>vUserInflight := (vUserInflight (view s st r))(c := None)\<rparr>"
  "view s st (HSETs r (viewerActiveKey (as_prefix s) st) cs x) =
     (view s st r)\<lparr>vViewerActive := setAll (vViewerActive (view s st r)) cs (Some x)\<rparr>"
  "view s st (HDELs r (viewerActiveKey (as_prefix s) st) cs) =
     (view s st r)\<lparr>vViewerActive := setAll (vViewerActive (view s st r)) cs None\<rparr>"
  "view s st (HDELs r (viewerInflightKey (as_prefix s) st) cs) =
     (view s st r)\<lparr>vViewerInflight := setAll (vViewerInflight (view s st r)) cs None\<rparr>"
  by (simp_all add: view_def redis_simps key_simps fun_eq_iff setAll_def)

lemma roomFor_HMSET:
  assumes "roomFor (view s st r) a"
  shows "returnQuota (HMSET r (attemptRecordKey (as_prefix s) st n) fvs) (quotaAvailableKey (as_prefix s) st)
      (faTicketCategoryID a) (faTicketCount a) =
    Some (if lua_num (faTicketCount a) > 0 then HSET (HMSET r (attemptRecordKey (as_prefix s) st n) fvs)
       (quotaAvailableKey (as_prefix s) st) (faTicketCategoryID a)
      (show_int (lua_num (blank (vQuota (view s st r) (faTicketCategoryID a))) + lua_num (faTicketCount a)))
      else HMSET r (attemptRecordKey (as_prefix s) st n) fvs)"
proof -
  let ?r = "HMSET r (attemptRecordKey (as_prefix s) st n) fvs"
  have q: "HGET ?r (quotaAvailableKey (as_prefix s) st) c = vQuota (view s st r) c" for c
    by (simp add: redis_simps key_simps view_def)
  have "quotaOk (view s st ?r)" using assms by (simp add: roomFor_def quotaOk_def view_HMSET_attempt)
  from returnQuota_view [OF this] assms show ?thesis unfolding q roomFor_def by simp
qed

lemma releaseAttempt_view:
  assumes "roomFor (view s st r) a"
  shows "fst (releaseAttempt t (rushKeysOf s st n) a reason r) = Inr (VStr ''transitioned'')"
    and "view s st (snd (releaseAttempt t (rushKeysOf s st n) a reason r)) = released True n reason a (view s st r)"
  using roomFor_HMSET [OF assms]
  by (simp_all add: releaseAttempt_def rushKeysOf_def Let_def view_simps view_HMSET_attempt released_def)

definition live :: "rushView \<Rightarrow> int \<Rightarrow> bool" where
  "live v n \<longleftrightarrow> vAtt v n ''state'' \<in> {Some ''PENDING'', Some ''PROCESSING'', Some ''SUCCESS''}"

text \<open>Each finishing script changes nothing unless the attempt is in the state it expects.\<close>

lemma failBeforeProcessing_view:
  assumes "live (view s st r) n \<Longrightarrow> roomFor (view s st r) a"
  shows "view s st (snd (failBeforeProcessingScript t (rushKeysOf s st n) a r)) =
    (if vAtt (view s st r) n ''state'' = Some ''PENDING'' then released False n (faReason a) a (view s st r)
     else view s st r)"
proof -
  have st: "HGET r (kAttempt (rushKeysOf s st n)) ''state'' = vAtt (view s st r) n ''state''"
    by (simp add: view_def rushKeysOf_def)
  have ex: "vAtt (view s st r) n ''state'' = Some x \<Longrightarrow> EXISTS r (attemptRecordKey (as_prefix s) st n)" for x
    by (auto simp: view_def EXISTS_def HGET_def HGETALL_def split: option.splits)
  show ?thesis
  proof (cases "vAtt (view s st r) n ''state'' = Some ''PENDING''")
    case True
    then have "roomFor (view s st r) a" by (intro assms) (simp add: live_def)
    with True ex st roomFor_HMSET show ?thesis
      by (simp add: failBeforeProcessingScript_def rushKeysOf_def Let_def view_simps view_HMSET_attempt released_def)
  next
    case False
    with st show ?thesis by (simp add: failBeforeProcessingScript_def Let_def)
  qed
qed

lemma finalizeSuccess_view:
  "view s st (snd (finalizeSuccessScript t (rushKeysOf s st n) a r)) =
    (if vAtt (view s st r) n ''state'' = Some ''PROCESSING'' then succeeded n a (view s st r) else view s st r)"
proof -
  have st: "HGET r (kAttempt (rushKeysOf s st n)) ''state'' = vAtt (view s st r) n ''state''"
    by (simp add: view_def rushKeysOf_def)
  have ex: "vAtt (view s st r) n ''state'' = Some x \<Longrightarrow> EXISTS r (attemptRecordKey (as_prefix s) st n)" for x
    by (auto simp: view_def EXISTS_def HGET_def HGETALL_def split: option.splits)
  from st ex show ?thesis
    by (auto simp add: finalizeSuccessScript_def rushKeysOf_def Let_def view_simps view_HMSET_attempt succeeded_def)
qed

lemma finalizeFailure_view:
  assumes "live (view s st r) n \<Longrightarrow> roomFor (view s st r) a"
  shows "view s st (snd (finalizeFailureScript t (rushKeysOf s st n) a r)) =
    (if vAtt (view s st r) n ''state'' = Some ''PROCESSING'' then released True n (faReason a) a (view s st r)
     else view s st r)"
proof -
  have st: "HGET r (kAttempt (rushKeysOf s st n)) ''state'' = vAtt (view s st r) n ''state''"
    by (simp add: view_def rushKeysOf_def)
  have ex: "HGET r k ''state'' = Some x \<Longrightarrow> EXISTS r k" for k x
    by (auto simp: EXISTS_def HGET_def HGETALL_def split: option.splits)
  show ?thesis
  proof (cases "vAtt (view s st r) n ''state'' = Some ''PROCESSING''")
    case True
    then have "roomFor (view s st r) a" by (intro assms) (simp add: live_def)
    from releaseAttempt_view(2) [OF this] True ex [of "kAttempt (rushKeysOf s st n)"] st show ?thesis
      by (simp add: finalizeFailureScript_def Let_def)
  next
    case False
    with st show ?thesis by (simp add: finalizeFailureScript_def Let_def)
  qed
qed

lemma finalizeClosedOrder_view:
  assumes "live (view s st r) n \<Longrightarrow> roomFor (view s st r) a"
  shows "view s st (snd (finalizeClosedOrderScript t (rushKeysOf s st n) a r)) =
    (if vAtt (view s st r) n ''state'' = Some ''SUCCESS'' then released True n ''CLOSED_ORDER_RELEASED'' a (view s st r)
     else view s st r)"
proof -
  have st: "HGET r (kAttempt (rushKeysOf s st n)) ''state'' = vAtt (view s st r) n ''state''"
    by (simp add: view_def rushKeysOf_def)
  have ex: "HGET r k ''state'' = Some x \<Longrightarrow> EXISTS r k" for k x
    by (auto simp: EXISTS_def HGET_def HGETALL_def split: option.splits)
  show ?thesis
  proof (cases "vAtt (view s st r) n ''state'' = Some ''SUCCESS''")
    case True
    then have "roomFor (view s st r) a" by (intro assms) (simp add: live_def)
    from releaseAttempt_view(2) [OF this] True ex [of "kAttempt (rushKeysOf s st n)"] st show ?thesis
      by (simp add: finalizeClosedOrderScript_def Let_def)
  next
    case False
    with st show ?thesis by (simp add: finalizeClosedOrderScript_def Let_def)
  qed
qed

lemma prepare_view:
  "view s st (snd (prepareAttemptForConsumeScript t (attemptRecordKey (as_prefix s) st n) now ttl r)) =
    (if TTL t r (attemptRecordKey (as_prefix s) st n) > 0 \<and> vAtt (view s st r) n ''state'' = Some ''PENDING''
     then processing n now (view s st r) else view s st r)"
proof -
  have "hget_blank r (attemptRecordKey (as_prefix s) st n) ''state'' = blank (vAtt (view s st r) n ''state'')"
    by (simp add: hget_blank_def blank_def view_def)
  then show ?thesis
    by (auto simp add: prepareAttemptForConsumeScript_def Let_def view_HMSET_attempt processing_def blank_def
        split: option.splits)
qed

lemma refresh_view: "view s st (snd (refreshProcessingLeaseScript t k ttl r)) = view s st r"
  by (simp add: refreshProcessingLeaseScript_def Let_def)

section \<open>The invariant of a show\<close>

definition userOf :: "rushView \<Rightarrow> int \<Rightarrow> string" where
  "userOf v n = blank (vAtt v n ''user_id'')"

definition viewersOf :: "rushView \<Rightarrow> int \<Rightarrow> string set" where
  "viewersOf v n = set (csv_values (blank (vAtt v n ''viewer_ids'')))"

definition heldBy :: "rushView \<Rightarrow> string \<Rightarrow> int \<Rightarrow> int" where
  "heldBy v c n = (if live v n \<and> vAtt v n ''ticket_category_id'' = Some c
     then lua_num (blank (vAtt v n ''ticket_count'')) else 0)"

definition heldSum :: "int set \<Rightarrow> string \<Rightarrow> rushView \<Rightarrow> int" where
  "heldSum ns c v = (\<Sum>n \<in> ns. heldBy v c n)"

definition quotaNum :: "string \<Rightarrow> rushView \<Rightarrow> int" where
  "quotaNum c v = lua_num (blank (vQuota v c))"

text \<open>A live attempt is found under its user and under each of its viewers.\<close>

definition marked :: "rushView \<Rightarrow> int \<Rightarrow> bool" where
  "marked v n \<longleftrightarrow>
     (if vAtt v n ''state'' = Some ''SUCCESS''
      then vUserActive v (userOf v n) = Some (show_int n)
        \<and> (\<forall>w \<in> viewersOf v n. vViewerActive v w = Some (show_int n))
      else vUserInflight v (userOf v n) = Some (show_int n)
        \<and> (\<forall>w \<in> viewersOf v n. vViewerInflight v w = Some (show_int n)))"

definition liveOk :: "int set \<Rightarrow> rushView \<Rightarrow> bool" where
  "liveOk ns v \<longleftrightarrow> (\<forall>n. live v n \<longrightarrow> n \<in> ns \<and> marked v n
     \<and> (\<exists>k. vAtt v n ''ticket_count'' = Some (show_int k) \<and> 0 < k \<and> in_int64 k))"

definition exclusive :: "rushView \<Rightarrow> bool" where
  "exclusive v \<longleftrightarrow> (\<forall>n m. live v n \<longrightarrow> live v m \<longrightarrow> n \<noteq> m \<longrightarrow>
     userOf v n \<noteq> userOf v m \<and> viewersOf v n \<inter> viewersOf v m = {})"

definition viewInv :: "int set \<Rightarrow> rushView \<Rightarrow> bool" where
  "viewInv ns v \<longleftrightarrow> finite ns \<and> quotaOk v \<and> liveOk ns v \<and> exclusive v
     \<and> (\<forall>c. quotaNum c v + heldSum ns c v \<le> int64_max)"

lemma heldBy_nonneg: "liveOk ns v \<Longrightarrow> 0 \<le> heldBy v c n"
  by (auto simp: heldBy_def liveOk_def blank_def)

lemma heldSum_nonneg: "liveOk ns v \<Longrightarrow> 0 \<le> heldSum ns c v"
  by (auto simp: heldSum_def intro!: sum_nonneg heldBy_nonneg)

lemma quotaNum_nonneg: "quotaOk v \<Longrightarrow> 0 \<le> quotaNum c v"
proof (cases "vQuota v c")
  case None
  then show ?thesis by (simp add: quotaNum_def blank_def lua_num_def lua_tonumber_def parse_int64_def)
next
  case (Some x)
  moreover assume "quotaOk v"
  ultimately obtain q where "x = show_int q" "0 \<le> q" "in_int64 q" by (auto simp: quotaOk_def)
  with Some show ?thesis by (simp add: quotaNum_def blank_def)
qed

lemma heldBy_local: "vAtt v' m = vAtt v m \<Longrightarrow> heldBy v' c m = heldBy v c m"
  by (simp add: heldBy_def live_def)

text \<open>Only the summand of the attempt that changed changes.\<close>

lemma heldSum_update:
  assumes "finite ns" "n \<in> ns" "\<And>m. m \<noteq> n \<Longrightarrow> vAtt v' m = vAtt v m"
  shows "heldSum ns c v' = heldSum ns c v - heldBy v c n + heldBy v' c n"
proof -
  have "(\<Sum>m \<in> ns - {n}. heldBy v' c m) = (\<Sum>m \<in> ns - {n}. heldBy v c m)"
    using assms(3) by (intro sum.cong) (auto intro: heldBy_local)
  then show ?thesis
    using assms(1,2) by (simp add: heldSum_def sum.remove [of ns n])
qed

lemma live_local: "vAtt v' m = vAtt v m \<Longrightarrow> live v' m = live v m \<and> userOf v' m = userOf v m \<and> viewersOf v' m = viewersOf v m"
  by (simp add: live_def userOf_def viewersOf_def)

lemma heldBy_le: "viewInv ns v \<Longrightarrow> quotaNum c v + heldBy v c n \<le> int64_max"
proof -
  assume inv: "viewInv ns v"
  have "heldBy v c n \<le> heldSum ns c v"
  proof (cases "n \<in> ns")
    case True
    with inv show ?thesis unfolding heldSum_def viewInv_def
      by (intro member_le_sum) (auto intro: heldBy_nonneg)
  next
    case False
    with inv have "heldBy v c n = 0" by (auto simp: viewInv_def liveOk_def heldBy_def)
    with inv show ?thesis by (simp add: viewInv_def heldSum_nonneg)
  qed
  with inv show ?thesis unfolding viewInv_def by (meson add_left_mono order_trans)
qed

text \<open>The arguments of a finishing script that describe the stored attempt.\<close>

definition argsMatch :: "int \<Rightarrow> finishArgv \<Rightarrow> rushView \<Rightarrow> bool" where
  "argsMatch n a v \<longleftrightarrow> faOrderNo a = show_int n \<and> userOf v n = faUserID a
     \<and> viewersOf v n = set (csv_values (faViewerIDsCSV a))
     \<and> vAtt v n ''ticket_category_id'' = Some (faTicketCategoryID a)
     \<and> vAtt v n ''ticket_count'' = Some (faTicketCount a)"

lemma argsMatch_count:
  assumes "viewInv ns v" "live v n" "argsMatch n a v"
  shows "0 < lua_num (faTicketCount a)"
    and "heldBy v c n = (if c = faTicketCategoryID a then lua_num (faTicketCount a) else 0)"
proof -
  from assms obtain k where "faTicketCount a = show_int k" "0 < k" "in_int64 k"
    unfolding viewInv_def liveOk_def argsMatch_def by (metis option.inject)
  then show "0 < lua_num (faTicketCount a)" by simp
qed (use assms in \<open>auto simp: argsMatch_def heldBy_def blank_def\<close>)

lemma argsMatch_roomFor:
  assumes "viewInv ns v" "live v n" "argsMatch n a v"
  shows "roomFor v a"
proof -
  have "quotaNum (faTicketCategoryID a) v + lua_num (faTicketCount a) \<le> int64_max"
    using heldBy_le [OF assms(1), of "faTicketCategoryID a" n] argsMatch_count [OF assms] by simp
  moreover have "0 \<le> quotaNum (faTicketCategoryID a) v" using assms(1) by (simp add: viewInv_def quotaNum_nonneg)
  ultimately show ?thesis using assms(1) argsMatch_count(1) [OF assms]
    by (simp add: roomFor_def viewInv_def quotaNum_def in_int64_def int64_min_def)
qed


section \<open>The updates keep the invariant and the total\<close>

text \<open>What the three updates of an attempt share: the attempts they do not touch.\<close>

lemma liveOk_others:
  assumes "viewInv ns v" "\<And>m. m \<noteq> n \<Longrightarrow> vAtt v' m = vAtt v m"
    and "live v' n \<Longrightarrow> n \<in> ns \<and> marked v' n
           \<and> (\<exists>k. vAtt v' n ''ticket_count'' = Some (show_int k) \<and> 0 < k \<and> in_int64 k)"
    and "\<And>m. m \<noteq> n \<Longrightarrow> live v m \<Longrightarrow> marked v m \<Longrightarrow> marked v' m"
  shows "liveOk ns v'"
  unfolding liveOk_def
proof (intro allI impI)
  fix m assume m: "live v' m"
  show "m \<in> ns \<and> marked v' m \<and> (\<exists>k. vAtt v' m ''ticket_count'' = Some (show_int k) \<and> 0 < k \<and> in_int64 k)"
  proof (cases "m = n")
    case False
    with m assms(2) have "live v m" using live_local by metis
    with assms(1) False assms(2) [OF False] assms(4) [OF False] show ?thesis
      by (auto simp: viewInv_def liveOk_def)
  qed (use m assms(3) in blast)
qed

lemma exclusive_same:
  assumes "exclusive v" "\<And>m. m \<noteq> n \<Longrightarrow> vAtt v' m = vAtt v m"
    and "live v' n \<Longrightarrow> live v n" "userOf v' n = userOf v n" "viewersOf v' n = viewersOf v n"
  shows "exclusive v'"
proof -
  have l: "live v' m \<Longrightarrow> live v m" for m using assms(2,3) live_local by metis
  have u: "userOf v' m = userOf v m" "viewersOf v' m = viewersOf v m" for m
    using assms(2,4,5) live_local by metis+
  show ?thesis using assms(1) l unfolding exclusive_def u by blast
qed

lemma viewInv_exclusive: "viewInv ns v \<Longrightarrow> exclusive v"
  by (simp add: viewInv_def)

lemma other_attempt:
  assumes "viewInv ns v" "live v n" "live v m" "m \<noteq> n" "argsMatch n a v"
  shows "userOf v m \<noteq> faUserID a" "w \<in> viewersOf v m \<Longrightarrow> w \<notin> set (csv_values (faViewerIDsCSV a))"
proof -
  from assms have "userOf v n \<noteq> userOf v m \<and> viewersOf v n \<inter> viewersOf v m = {}"
    unfolding viewInv_def exclusive_def by blast
  with assms(5) show "userOf v m \<noteq> faUserID a"
    "w \<in> viewersOf v m \<Longrightarrow> w \<notin> set (csv_values (faViewerIDsCSV a))"
    unfolding argsMatch_def by auto
qed

lemma marked_transfer:
  assumes "marked v m" "vAtt v' m = vAtt v m"
    and "vUserActive v' (userOf v m) = vUserActive v (userOf v m)"
    and "vUserInflight v' (userOf v m) = vUserInflight v (userOf v m)"
    and "\<And>w. w \<in> viewersOf v m \<Longrightarrow> vViewerActive v' w = vViewerActive v w"
    and "\<And>w. w \<in> viewersOf v m \<Longrightarrow> vViewerInflight v' w = vViewerInflight v w"
  shows "marked v' m"
proof -
  have "userOf v' m = userOf v m" "viewersOf v' m = viewersOf v m"
    using assms(2) by (simp_all add: userOf_def viewersOf_def)
  with assms show ?thesis by (auto simp: marked_def)
qed

lemma released_parts:
  "m \<noteq> n \<Longrightarrow> vAtt (released act n reason a v) m = vAtt v m"
  "\<not> live (released act n reason a v) n"
  "userOf (released act n reason a v) n = userOf v n"
  "viewersOf (released act n reason a v) n = viewersOf v n"
  by (simp_all add: released_def Let_def live_def userOf_def viewersOf_def map_add_def)

lemma released_total:
  assumes "viewInv ns v" "live v n" "argsMatch n a v"
  shows "quotaNum c (released act n reason a v) + heldSum ns c (released act n reason a v)
    = quotaNum c v + heldSum ns c v"
proof -
  let ?v = "released act n reason a v" and ?k = "lua_num (faTicketCount a)"
  have k: "0 < ?k" by (rule argsMatch_count(1) [OF assms])
  have q: "in_int64 (quotaNum (faTicketCategoryID a) v + ?k)"
    using argsMatch_roomFor [OF assms] by (simp add: roomFor_def quotaNum_def)
  have "quotaNum c ?v = (if c = faTicketCategoryID a then quotaNum c v + ?k else quotaNum c v)"
    using k q by (simp add: released_def Let_def quotaNum_def blank_def)
  moreover have "heldSum ns c ?v = heldSum ns c v - heldBy v c n + heldBy ?v c n"
    using assms by (intro heldSum_update) (auto simp: viewInv_def liveOk_def released_parts)
  moreover have "heldBy ?v c n = 0" by (simp add: heldBy_def released_parts)
  ultimately show ?thesis using argsMatch_count(2) [OF assms, of c] by simp
qed

lemma released_quotaOk:
  assumes "roomFor v a" "0 < lua_num (faTicketCount a)" shows "quotaOk (released act n reason a v)"
proof -
  have "0 \<le> lua_num (blank (vQuota v (faTicketCategoryID a)))"
    using assms(1) quotaNum_nonneg [of v "faTicketCategoryID a"] by (simp add: roomFor_def quotaNum_def)
  with assms show ?thesis
    by (auto simp: quotaOk_def released_def Let_def roomFor_def
        intro!: exI [of _ "lua_num (blank (vQuota v (faTicketCategoryID a))) + lua_num (faTicketCount a)"])
qed

lemma released_inv:
  assumes inv: "viewInv ns v" and lv: "live v n" and am: "argsMatch n a v"
    and act: "vAtt v n ''state'' = Some ''SUCCESS'' \<Longrightarrow> act"
  shows "viewInv ns (released act n reason a v)"
proof -
  let ?v = "released act n reason a v"
  note parts = released_parts [where act = act and n = n and reason = reason and a = a and v = v]
  have "marked ?v m" if m: "m \<noteq> n" "live v m" "marked v m" for m
    by (rule marked_transfer [OF m(3) parts(1) [OF m(1)]], insert other_attempt [OF inv lv m(2,1) am])
       (auto simp: released_def Let_def setAll_def)
  then have "liveOk ns ?v" using parts by (intro liveOk_others [OF inv, of n]) auto
  moreover have "exclusive ?v"
    by (rule exclusive_same [OF viewInv_exclusive [OF inv], of n]) (simp_all add: parts)
  moreover have "quotaOk ?v"
    using argsMatch_roomFor [OF inv lv am] argsMatch_count(1) [OF inv lv am] by (rule released_quotaOk)
  ultimately show ?thesis
    using inv released_total [OF inv lv am] by (simp add: viewInv_def)
qed

text \<open>Completing an order moves its marks from in flight to active.\<close>

lemma succeeded_inv:
  assumes inv: "viewInv ns v" and pr: "vAtt v n ''state'' = Some ''PROCESSING''" and am: "argsMatch n a v"
  shows "viewInv ns (succeeded n a v)"
    and "quotaNum c (succeeded n a v) + heldSum ns c (succeeded n a v) = quotaNum c v + heldSum ns c v"
proof -
  let ?v = "succeeded n a v"
  have lv: "live v n" using pr by (simp add: live_def)
  have parts: "vAtt ?v m = vAtt v m" if "m \<noteq> n" for m using that by (simp add: succeeded_def Let_def)
  have self: "vAtt ?v n ''state'' = Some ''SUCCESS''" "userOf ?v n = userOf v n" "viewersOf ?v n = viewersOf v n"
    "vAtt ?v n ''ticket_count'' = vAtt v n ''ticket_count''"
    "vAtt ?v n ''ticket_category_id'' = vAtt v n ''ticket_category_id''"
    by (simp_all add: succeeded_def Let_def userOf_def viewersOf_def map_add_def)
  have "marked ?v n" using am self
    by (simp add: marked_def argsMatch_def) (simp add: succeeded_def Let_def setAll_def)
  moreover have "marked ?v m" if m: "m \<noteq> n" "live v m" "marked v m" for m
    by (rule marked_transfer [OF m(3) parts [OF m(1)]], insert other_attempt [OF inv lv m(2,1) am])
       (auto simp: succeeded_def Let_def setAll_def)
  ultimately have "liveOk ns ?v" using parts self inv lv
    by (intro liveOk_others [OF inv, of n]) (auto simp: viewInv_def liveOk_def)
  moreover have "exclusive ?v"
    by (rule exclusive_same [OF viewInv_exclusive [OF inv], of n]) (simp_all add: parts self lv)
  moreover have tot: "quotaNum c ?v + heldSum ns c ?v = quotaNum c v + heldSum ns c v" for c
  proof -
    have "heldSum ns c ?v = heldSum ns c v - heldBy v c n + heldBy ?v c n"
      using inv lv parts by (intro heldSum_update) (auto simp: viewInv_def liveOk_def)
    moreover have "heldBy ?v c n = heldBy v c n" using self lv by (simp add: heldBy_def live_def)
    moreover have "quotaNum c ?v = quotaNum c v" by (simp add: quotaNum_def succeeded_def Let_def)
    ultimately show ?thesis by simp
  qed
  moreover have "quotaOk ?v" using inv by (simp add: viewInv_def quotaOk_def succeeded_def Let_def)
  ultimately show "viewInv ns ?v" using inv by (simp add: viewInv_def)
  show "quotaNum c ?v + heldSum ns c ?v = quotaNum c v + heldSum ns c v" by (rule tot)
qed

lemma processing_inv:
  assumes inv: "viewInv ns v" and pe: "vAtt v n ''state'' = Some ''PENDING''"
  shows "viewInv ns (processing n now v)"
    and "quotaNum c (processing n now v) + heldSum ns c (processing n now v) = quotaNum c v + heldSum ns c v"
proof -
  let ?v = "processing n now v"
  have lv: "live v n" using pe by (simp add: live_def)
  have parts: "vAtt ?v m = vAtt v m" if "m \<noteq> n" for m using that by (simp add: processing_def)
  have self: "vAtt ?v n ''state'' = Some ''PROCESSING''" "userOf ?v n = userOf v n" "viewersOf ?v n = viewersOf v n"
    "vAtt ?v n ''ticket_count'' = vAtt v n ''ticket_count''"
    "vAtt ?v n ''ticket_category_id'' = vAtt v n ''ticket_category_id''"
    by (simp_all add: processing_def userOf_def viewersOf_def map_add_def)
  have hashes: "vUserActive ?v = vUserActive v" "vUserInflight ?v = vUserInflight v"
    "vViewerActive ?v = vViewerActive v" "vViewerInflight ?v = vViewerInflight v" "vQuota ?v = vQuota v"
    by (simp_all add: processing_def)
  have "marked ?v n" using inv lv pe self hashes by (auto simp: viewInv_def liveOk_def marked_def)
  moreover have "marked ?v m" if "m \<noteq> n" "marked v m" for m
    using marked_transfer [OF that(2) parts [OF that(1)]] by (simp add: hashes)
  ultimately have "liveOk ns ?v" using parts self inv lv
    by (intro liveOk_others [OF inv, of n]) (auto simp: viewInv_def liveOk_def)
  moreover have "exclusive ?v"
    by (rule exclusive_same [OF viewInv_exclusive [OF inv], of n]) (simp_all add: parts self lv)
  moreover have tot: "quotaNum c ?v + heldSum ns c ?v = quotaNum c v + heldSum ns c v" for c
  proof -
    have "heldSum ns c ?v = heldSum ns c v - heldBy v c n + heldBy ?v c n"
      using inv lv parts by (intro heldSum_update) (auto simp: viewInv_def liveOk_def)
    moreover have "heldBy ?v c n = heldBy v c n" using self lv by (simp add: heldBy_def live_def)
    ultimately show ?thesis by (simp add: quotaNum_def hashes)
  qed
  moreover have "quotaOk ?v" using inv by (simp add: viewInv_def quotaOk_def hashes)
  ultimately show "viewInv ns ?v" using inv by (simp add: viewInv_def)
  show "quotaNum c ?v + heldSum ns c ?v = quotaNum c v + heldSum ns c v" by (rule tot)
qed


lemma lua_num_range: "in_int64 (lua_num x)"
  by (auto simp: lua_num_def lua_tonumber_def parse_int64_def Let_def in_int64_def int64_min_def int64_max_def
      split: option.splits list.splits if_splits)

text \<open>An admitted attempt shares no user and no viewer with a live one.\<close>

lemma admissible_fresh:
  assumes inv: "viewInv ns v" and ad: "admissible n a v" and lv: "live v m"
  shows "userOf v m \<noteq> aaUserID a" and "viewersOf v m \<inter> set (csv_values (aaViewerIDsCSV a)) = {}"
proof -
  have mk: "marked v m" using inv lv by (simp add: viewInv_def liveOk_def)
  show "userOf v m \<noteq> aaUserID a"
    using mk ad by (auto simp: marked_def admissible_def blank_def split: if_splits)
  have False if "w \<in> viewersOf v m" "w \<in> set (csv_values (aaViewerIDsCSV a))" for w
  proof -
    from mk that(1) have "vViewerActive v w = Some (show_int m) \<or> vViewerInflight v w = Some (show_int m)"
      by (auto simp: marked_def split: if_splits)
    moreover from ad that(2) have "blank (vViewerActive v w) = []" "blank (vViewerInflight v w) = []"
      by (auto simp: admissible_def)
    ultimately show False by (auto simp: blank_def)
  qed
  then show "viewersOf v m \<inter> set (csv_values (aaViewerIDsCSV a)) = {}" by blast
qed

lemma admitted_parts:
  fixes n a v
  defines "v' \<equiv> admitted n a v"
  shows "m \<noteq> n \<Longrightarrow> vAtt v' m = vAtt v m" "live v' n" "userOf v' n = aaUserID a"
    "viewersOf v' n = set (csv_values (aaViewerIDsCSV a))" "vAtt v' n ''state'' = Some ''PENDING''"
    "vAtt v' n ''ticket_category_id'' = Some (aaTicketCategoryID a)"
    "vAtt v' n ''ticket_count'' = Some (show_int (lua_num (aaTicketCount a)))"
  unfolding v'_def by (simp_all add: admitted_def live_def userOf_def viewersOf_def map_add_def blank_def)

lemma admitted_total:
  assumes inv: "viewInv ns v" and ad: "admissible n a v" and n: "n \<in> ns" and k: "0 < lua_num (aaTicketCount a)"
  shows "quotaNum c (admitted n a v) + heldSum ns c (admitted n a v) = quotaNum c v + heldSum ns c v"
    and "quotaOk (admitted n a v)"
proof -
  let ?v = "admitted n a v" and ?k = "lua_num (aaTicketCount a)" and ?c = "aaTicketCategoryID a"
  have le: "?k \<le> quotaNum ?c v" using ad by (simp add: admissible_def quotaNum_def)
  have rng: "in_int64 (quotaNum ?c v - ?k)"
    using le k lua_num_range [of "blank (vQuota v ?c)"] by (intro in_int64_diff) (auto simp: quotaNum_def)
  have "quotaNum c ?v = (if c = ?c then quotaNum c v - ?k else quotaNum c v)"
    using rng by (simp add: admitted_def quotaNum_def blank_def)
  moreover have "heldSum ns c ?v = heldSum ns c v - heldBy v c n + heldBy ?v c n"
    using inv n by (intro heldSum_update) (auto simp: viewInv_def admitted_parts)
  moreover have "heldBy v c n = 0" using ad by (simp add: heldBy_def live_def admissible_def)
  moreover have "heldBy ?v c n = (if c = ?c then ?k else 0)"
    using lua_num_range by (simp add: heldBy_def admitted_parts blank_def)
  ultimately show "quotaNum c ?v + heldSum ns c ?v = quotaNum c v + heldSum ns c v" by simp
  show "quotaOk ?v" using inv rng le
    by (auto simp: quotaOk_def viewInv_def admitted_def quotaNum_def intro!: exI [of _ "quotaNum ?c v - ?k"])
qed

lemma admitted_inv:
  assumes inv: "viewInv ns v" and ad: "admissible n a v" and n: "n \<in> ns"
    and o: "aaOrderNo a = show_int n" and k: "0 < lua_num (aaTicketCount a)"
  shows "viewInv ns (admitted n a v)"
proof -
  let ?v = "admitted n a v"
  note parts = admitted_parts [where n = n and a = a and v = v]
  note fresh = admissible_fresh [OF inv ad]
  have "marked ?v n" using o parts
    by (simp add: marked_def) (simp add: admitted_def setAll_def)
  moreover have "marked ?v m" if m: "m \<noteq> n" "live v m" "marked v m" for m
    by (rule marked_transfer [OF m(3) parts(1) [OF m(1)]], insert fresh [OF m(2)])
       (auto simp: admitted_def setAll_def)
  ultimately have "liveOk ns ?v"
    using parts n k lua_num_range by (intro liveOk_others [OF inv, of n]) blast+
  moreover have "exclusive ?v"
  proof -
    have *: "live ?v m \<Longrightarrow> m \<noteq> n \<Longrightarrow> live v m \<and> userOf ?v m = userOf v m \<and> viewersOf ?v m = viewersOf v m" for m
      using parts(1) [of m] live_local by metis
    have ex: "userOf v p \<noteq> userOf v q \<and> viewersOf v p \<inter> viewersOf v q = {}"
      if "live v p" "live v q" "p \<noteq> q" for p q using viewInv_exclusive [OF inv] that by (simp add: exclusive_def)
    show ?thesis unfolding exclusive_def
    proof (intro allI impI)
      fix p q assume pq: "live ?v p" "live ?v q" "p \<noteq> q"
      show "userOf ?v p \<noteq> userOf ?v q \<and> viewersOf ?v p \<inter> viewersOf ?v q = {}"
      proof (cases "p = n \<or> q = n")
        case True
        then show ?thesis
        proof
          assume "p = n"
          with pq * [of q] fresh [of q] parts(3,4) show ?thesis by (metis Int_commute)
        next
          assume "q = n"
          with pq * [of p] fresh [of p] parts(3,4) show ?thesis by metis
        qed
      next
        case False
        with pq * ex show ?thesis by metis
      qed
    qed
  qed
  ultimately show ?thesis
    using inv admitted_total [OF inv ad n k] by (simp add: viewInv_def)
qed


section \<open>Runs of the store\<close>

text \<open>
  Expiry may remove attempts that have failed; the quota, the marks and the live attempts of the
  show are still there.
\<close>

definition expiry :: "rushView \<Rightarrow> rushView \<Rightarrow> bool" where
  "expiry v v' \<longleftrightarrow> vQuota v' = vQuota v \<and> vUserActive v' = vUserActive v \<and> vUserInflight v' = vUserInflight v
     \<and> vViewerActive v' = vViewerActive v \<and> vViewerInflight v' = vViewerInflight v
     \<and> (\<forall>n. vAtt v' n = vAtt v n \<or> (\<not> live v n \<and> vAtt v' n = Map.empty))"

definition noLoss :: "AttemptStoreT \<Rightarrow> int \<Rightarrow> int \<Rightarrow> redis \<Rightarrow> bool" where
  "noLoss s st t r \<longleftrightarrow> expiry (view s st r) (view s st (purge t r))"

text \<open>The record a caller passes describes the attempt that is stored.\<close>

definition recordMatches :: "rushView \<Rightarrow> AttemptRecord \<Rightarrow> bool" where
  "recordMatches v a \<longleftrightarrow> (let f = vAtt v (ar_OrderNumber a) in
     f ''user_id'' = Some (show_int (ar_UserID a))
     \<and> f ''viewer_ids'' = Some (formatInt64CSV (normalizedInt64s (ar_ViewerIDs a)))
     \<and> f ''ticket_category_id'' = Some (show_int (ar_TicketCategoryID a))
     \<and> f ''ticket_count'' = Some (show_int (ar_TicketCount a)))"

text \<open>
  One call of the store for show \<open>st\<close> by any client, at any time, with any network fault, for an
  order number of \<open>ns\<close>.
\<close>

inductive rushStep :: "AttemptStoreT \<Rightarrow> int \<Rightarrow> int set \<Rightarrow> redis \<Rightarrow> redis \<Rightarrow> bool"
  for s :: AttemptStoreT and st :: int and ns :: "int set" where
  step_admit: "noLoss s st t r \<Longrightarrow> rq_OrderNumber req \<in> ns \<Longrightarrow> rq_ShowTimeID req = st \<Longrightarrow> 0 < st
    \<Longrightarrow> in_int64 (int (length (rq_ViewerIDs req))) \<Longrightarrow> rushStep s st ns r (snd (Admit s t wall flt req r))"
| step_prepare: "noLoss s st t r
    \<Longrightarrow> rushStep s st ns r (snd (PrepareAttemptForConsume s t wall flt st n now r))"
| step_refresh: "noLoss s st t r \<Longrightarrow> rushStep s st ns r (snd (RefreshProcessingLease s t flt st n r))"
| step_fail: "noLoss s st t r \<Longrightarrow> ar_ShowTimeID a = st \<Longrightarrow> (live (view s st r) (ar_OrderNumber a) \<Longrightarrow> recordMatches (view s st r) a)
    \<Longrightarrow> rushStep s st ns r (snd (FailBeforeProcessing s t wall flt a reason now r))"
| step_success: "noLoss s st t r \<Longrightarrow> ar_ShowTimeID a = st \<Longrightarrow> (live (view s st r) (ar_OrderNumber a) \<Longrightarrow> recordMatches (view s st r) a)
    \<Longrightarrow> rushStep s st ns r (snd (FinalizeSuccess s t wall flt a now r))"
| step_failure: "noLoss s st t r \<Longrightarrow> ar_ShowTimeID a = st \<Longrightarrow> (live (view s st r) (ar_OrderNumber a) \<Longrightarrow> recordMatches (view s st r) a)
    \<Longrightarrow> rushStep s st ns r (snd (FinalizeFailure s t wall flt a reason now r))"
| step_closed: "noLoss s st t r \<Longrightarrow> ar_ShowTimeID a = st \<Longrightarrow> (live (view s st r) (ar_OrderNumber a) \<Longrightarrow> recordMatches (view s st r) a)
    \<Longrightarrow> rushStep s st ns r (snd (FinalizeClosedOrder s t wall flt a now r))"

definition rushInv :: "AttemptStoreT \<Rightarrow> int \<Rightarrow> int set \<Rightarrow> redis \<Rightarrow> bool" where
  "rushInv s st ns r \<longleftrightarrow> viewInv ns (view s st r)"

definition rushQuota :: "AttemptStoreT \<Rightarrow> int \<Rightarrow> string \<Rightarrow> redis \<Rightarrow> int" where
  "rushQuota s st c r = quotaNum c (view s st r)"

definition rushHeld :: "AttemptStoreT \<Rightarrow> int \<Rightarrow> int set \<Rightarrow> string \<Rightarrow> redis \<Rightarrow> int" where
  "rushHeld s st ns c r = heldSum ns c (view s st r)"

text \<open>A view that keeps the invariant and the totals of another.\<close>

definition sound :: "int set \<Rightarrow> rushView \<Rightarrow> rushView \<Rightarrow> bool" where
  "sound ns v v' \<longleftrightarrow> (viewInv ns v \<longrightarrow> viewInv ns v' \<and>
     (\<forall>c. quotaNum c v' + heldSum ns c v' = quotaNum c v + heldSum ns c v))"

lemma sound_refl [simp]: "sound ns v v"
  by (simp add: sound_def)

lemma sound_trans: "sound ns u v \<Longrightarrow> sound ns v w \<Longrightarrow> sound ns u w"
  by (simp add: sound_def)

lemma expiry_sound:
  assumes "expiry v v'"
  shows "sound ns v v'"
  unfolding sound_def
proof (intro impI)
  assume inv: "viewInv ns v"
  let ?v = v and ?v' = v'
  have att: "vAtt ?v' n = vAtt ?v n \<or> (\<not> live ?v n \<and> \<not> live ?v' n)" for n
    using assms by (auto simp: expiry_def live_def)
  have eqs: "vQuota ?v' = vQuota ?v" "vUserActive ?v' = vUserActive ?v" "vUserInflight ?v' = vUserInflight ?v"
    "vViewerActive ?v' = vViewerActive ?v" "vViewerInflight ?v' = vViewerInflight ?v"
    using assms by (simp_all add: expiry_def)
  have lv: "live ?v' n \<Longrightarrow> live ?v n \<and> vAtt ?v' n = vAtt ?v n" for n
    using att [of n] by (auto simp: live_def)
  have held: "heldSum ns c ?v' = heldSum ns c ?v" for c
    unfolding heldSum_def by (intro sum.cong refl) (metis att heldBy_def heldBy_local)
  have mk: "marked ?v n \<Longrightarrow> vAtt ?v' n = vAtt ?v n \<Longrightarrow> marked ?v' n" for n
    by (rule marked_transfer) (simp_all add: eqs)
  have "liveOk ns ?v'" using inv lv mk unfolding viewInv_def liveOk_def by metis
  moreover have "exclusive ?v'"
  proof -
    have "userOf ?v' n = userOf ?v n \<and> viewersOf ?v' n = viewersOf ?v n" if "live ?v' n" for n
      using lv [OF that] live_local by blast
    then show ?thesis using viewInv_exclusive [OF inv] lv by (simp add: exclusive_def)
  qed
  ultimately show "viewInv ns ?v' \<and> (\<forall>c. quotaNum c ?v' + heldSum ns c ?v' = quotaNum c ?v + heldSum ns c ?v)"
    using inv by (simp add: viewInv_def quotaOk_def quotaNum_def eqs held)
qed


text \<open>
  The specification of a show: admit, start, fail before the start, complete, or release an attempt
  that is processing or successful.
\<close>

inductive specStep :: "int set \<Rightarrow> rushView \<Rightarrow> rushView \<Rightarrow> bool" for ns :: "int set" where
  spec_same: "specStep ns v v"
| spec_admit: "admissible n a v \<Longrightarrow> n \<in> ns \<Longrightarrow> aaOrderNo a = show_int n \<Longrightarrow> 0 < lua_num (aaTicketCount a)
    \<Longrightarrow> specStep ns v (admitted n a v)"
| spec_prepare: "vAtt v n ''state'' = Some ''PENDING'' \<Longrightarrow> specStep ns v (processing n now v)"
| spec_fail: "vAtt v n ''state'' = Some ''PENDING'' \<Longrightarrow> argsMatch n a v \<Longrightarrow> specStep ns v (released False n reason a v)"
| spec_succeed: "vAtt v n ''state'' = Some ''PROCESSING'' \<Longrightarrow> argsMatch n a v \<Longrightarrow> specStep ns v (succeeded n a v)"
| spec_release: "vAtt v n ''state'' \<in> {Some ''PROCESSING'', Some ''SUCCESS''} \<Longrightarrow> argsMatch n a v
    \<Longrightarrow> specStep ns v (released True n reason a v)"

lemma specStep_sound: "specStep ns v v' \<Longrightarrow> sound ns v v'"
proof (induction rule: specStep.induct)
  case (spec_admit n a v)
  then show ?case using admitted_inv admitted_total(1) by (simp add: sound_def)
next
  case (spec_prepare v n now)
  then show ?case using processing_inv by (simp add: sound_def)
next
  case (spec_fail v n a reason)
  then have "live v n" by (simp add: live_def)
  with spec_fail released_inv [of ns v n a False reason] released_total [of ns v n a] show ?case by (simp add: sound_def)
next
  case (spec_succeed v n a)
  then show ?case using succeeded_inv by (simp add: sound_def)
next
  case (spec_release v n a reason)
  then have "live v n" by (auto simp: live_def)
  with spec_release released_inv [of ns v n a True reason] released_total [of ns v n a] show ?case by (simp add: sound_def)
qed simp

text \<open>Each script implements a step of the specification.\<close>

lemma admit_refines:
  assumes "viewInv ns (view s st r)" "0 < lua_num (aaTicketCount a)" "n \<in> ns" "aaOrderNo a = show_int n"
  shows "specStep ns (view s st r) (view s st (snd (admitAttemptScript t (rushKeysOf s st n) a r)))"
proof -
  have "quotaOk (view s st r)" "0 \<le> lua_num (aaTicketCount a)" using assms by (simp_all add: viewInv_def)
  then show ?thesis
  proof (cases rule: admit_view_cases [where t = t and n = n])
    case same
    then show ?thesis by (simp add: spec_same)
  next
    case accept
    with assms show ?thesis by (simp add: spec_admit)
  qed
qed

lemma finish_refines:
  assumes inv: "viewInv ns (view s st r)" and m: "live (view s st r) n \<Longrightarrow> argsMatch n a (view s st r)"
  shows "specStep ns (view s st r) (view s st (snd (failBeforeProcessingScript t (rushKeysOf s st n) a r)))"
    and "specStep ns (view s st r) (view s st (snd (finalizeSuccessScript t (rushKeysOf s st n) a r)))"
    and "specStep ns (view s st r) (view s st (snd (finalizeFailureScript t (rushKeysOf s st n) a r)))"
    and "specStep ns (view s st r) (view s st (snd (finalizeClosedOrderScript t (rushKeysOf s st n) a r)))"
proof -
  let ?v = "view s st r"
  have room: "live ?v n \<Longrightarrow> roomFor ?v a" using m argsMatch_roomFor inv by blast
  have lv: "vAtt ?v n ''state'' = Some x \<Longrightarrow> x \<in> {''PENDING'', ''PROCESSING'', ''SUCCESS''} \<Longrightarrow> argsMatch n a ?v" for x
    by (intro m) (auto simp: live_def)
  show "specStep ns ?v (view s st (snd (failBeforeProcessingScript t (rushKeysOf s st n) a r)))"
    using lv failBeforeProcessing_view [of s st r n a t, OF room] by (simp add: spec_same spec_fail)
  show "specStep ns ?v (view s st (snd (finalizeSuccessScript t (rushKeysOf s st n) a r)))"
    using lv by (simp add: finalizeSuccess_view spec_same spec_succeed)
  show "specStep ns ?v (view s st (snd (finalizeFailureScript t (rushKeysOf s st n) a r)))"
    using lv finalizeFailure_view [of s st r n a t, OF room] by (simp add: spec_same spec_release)
  show "specStep ns ?v (view s st (snd (finalizeClosedOrderScript t (rushKeysOf s st n) a r)))"
    using lv finalizeClosedOrder_view [of s st r n a t, OF room] by (simp add: spec_same spec_release)
qed

lemma prepare_refines:
  "specStep ns (view s st r) (view s st (snd (prepareAttemptForConsumeScript t (attemptRecordKey (as_prefix s) st n) now ttl r)))"
  by (simp add: prepare_view spec_same spec_prepare)

section \<open>The store refines the specification\<close>

text \<open>What a call leaves behind: nothing, the expiry alone, or the expiry and the script.\<close>

definition refines :: "int set \<Rightarrow> rushView \<Rightarrow> rushView \<Rightarrow> bool" where
  "refines ns v v' \<longleftrightarrow> (\<exists>v0. expiry v v0 \<and> specStep ns v0 v')"

lemma refines_refl: "refines ns v v"
  unfolding refines_def by (rule exI [of _ v]) (simp add: expiry_def spec_same)

lemma eval_ctx_snd: "snd (eval_ctx flt f r) = r \<or> snd (eval_ctx flt f r) = snd (f r)"
  by (cases flt) (simp_all add: eval_ctx_def)

lemma runFinish_snd: "snd (runFinish flt f r) = snd (eval_ctx flt f r)"
  by (auto simp: runFinish_def split: prod.splits sum.splits)

lemma call_refines:
  assumes "noLoss s st t r" "specStep ns (view s st (purge t r)) (view s st (snd (f (purge t r))))"
  shows "refines ns (view s st r) (view s st (snd (eval_ctx flt f (purge t r))))"
  unfolding refines_def
  by (rule exI [of _ "view s st (purge t r)"])
     (use eval_ctx_snd [of flt f "purge t r"] assms in \<open>auto simp: noLoss_def spec_same\<close>)

lemma noLoss_inv: "noLoss s st t r \<Longrightarrow> rushInv s st ns r \<Longrightarrow> viewInv ns (view s st (purge t r))"
  using expiry_sound [of "view s st r" "view s st (purge t r)" ns] by (simp add: noLoss_def rushInv_def sound_def)

lemma length_dedup: "length (dedup X xs) \<le> length xs"
  by (induction X xs rule: dedup.induct) auto

lemma length_normalized: "length (normalizedInt64s xs) \<le> length xs"
  unfolding normalizedInt64s_def length_sort
  by (rule order_trans [OF length_dedup length_filter_le])

lemma Admit_refines:
  assumes nl: "noLoss s st t r" and "rq_OrderNumber req \<in> ns" "rq_ShowTimeID req = st" "0 < st"
    and len: "in_int64 (int (length (rq_ViewerIDs req)))" and inv: "rushInv s st ns r"
  shows "refines ns (view s st r) (view s st (snd (Admit s t wall flt req r)))"
proof -
  let ?vs = "normalizedInt64s (rq_ViewerIDs req)"
  let ?tc = "if rq_TicketCount req \<le> 0 then int (length ?vs) else rq_TicketCount req"
  let ?now = "case rq_Now req of None \<Rightarrow> wall | Some n \<Rightarrow> n"
  let ?a = "admitArgs s ?now req ?vs ?tc st"
  let ?call = "eval_ctx flt (admitAttemptScript t (rushKeysOf s st (rq_OrderNumber req)) ?a) (purge t r)"
  show ?thesis
  proof (cases "snd (Admit s t wall flt req r) = r")
    case False
    then have ok: "?vs \<noteq> []" "0 < ?tc" "?tc = int (length ?vs)"
      and eq: "snd (Admit s t wall flt req r) = snd ?call"
      using assms(3,4)
      by (auto simp: Admit_def Let_def split: if_splits prod.splits sum.splits)
    have "in_int64 ?tc" using len ok(3) length_normalized [of "rq_ViewerIDs req"]
      by (auto simp: in_int64_def int64_min_def)
    then have "lua_num (aaTicketCount ?a) = ?tc" by (simp add: admitArgs_def Let_def)
    moreover have "aaOrderNo ?a = show_int (rq_OrderNumber req)" by (simp add: admitArgs_def Let_def)
    ultimately show ?thesis
      unfolding eq using ok assms(2) noLoss_inv [OF nl inv] by (intro call_refines [OF nl] admit_refines) simp_all
  qed (simp add: refines_refl)
qed

lemma recordMatches_args:
  assumes "recordMatches v a"
  shows "argsMatch (ar_OrderNumber a) (finishArgs s now reason a) v"
  using assms by (simp add: recordMatches_def argsMatch_def finishArgs_def Let_def userOf_def viewersOf_def blank_def)

lemma noLoss_matches:
  assumes "noLoss s st t r" "live (view s st r) (ar_OrderNumber a) \<Longrightarrow> recordMatches (view s st r) a"
    and "live (view s st (purge t r)) (ar_OrderNumber a)"
  shows "argsMatch (ar_OrderNumber a) (finishArgs s now reason a) (view s st (purge t r))"
proof -
  have "vAtt (view s st (purge t r)) (ar_OrderNumber a) = vAtt (view s st r) (ar_OrderNumber a)"
    using assms(1,3) by (auto simp: noLoss_def expiry_def live_def)
  with assms(2,3) have "recordMatches (view s st (purge t r)) a"
    by (simp add: recordMatches_def live_def)
  then show ?thesis by (rule recordMatches_args)
qed

lemma FinalizeSuccess_snd:
  "snd (FinalizeSuccess s t wall flt a now r) = r \<or> snd (FinalizeSuccess s t wall flt a now r) =
     snd (eval_ctx flt (finalizeSuccessScript t (rushKeysOf s (ar_ShowTimeID a) (ar_OrderNumber a))
               (finishArgs s (orNow now wall) [] a)) (purge t r))"
  by (auto simp: FinalizeSuccess_def runFinish_snd [symmetric] split: prod.splits sum.splits)

lemma rushStep_refines: "rushStep s st ns r r' \<Longrightarrow> rushInv s st ns r \<Longrightarrow> refines ns (view s st r) (view s st r')"
proof (induction rule: rushStep.induct)
  case (step_admit t r req wall flt)
  then show ?case by (intro Admit_refines)
next
  case (step_prepare t r wall flt n now)
  have "refines ns (view s st r) (view s st (snd (eval_ctx flt (prepareAttemptForConsumeScript t
      (attemptRecordKey (as_prefix s) st n) (show_int (unix_milli (orNow now wall))) (show_int (inFlightTTLSeconds s))) (purge t r))))"
    using step_prepare(1) by (rule call_refines) (rule prepare_refines)
  then show ?case by (auto simp: PrepareAttemptForConsume_def refines_refl split: prod.splits sum.splits)
next
  case (step_refresh t r flt n)
  have "refines ns (view s st r) (view s st (snd (eval_ctx flt (refreshProcessingLeaseScript t
      (attemptRecordKey (as_prefix s) st n) (show_int (inFlightTTLSeconds s))) (purge t r))))"
    using step_refresh(1) by (rule call_refines) (simp add: refresh_view spec_same)
  then show ?case by (auto simp: RefreshProcessingLease_def refines_refl split: prod.splits sum.splits)
next
  case (step_fail t r a wall flt reason now)
  then show ?case
    by (auto simp: FailBeforeProcessing_def runFinish_snd refines_refl
        intro!: call_refines finish_refines(1) noLoss_matches noLoss_inv)
next
  case (step_success t r a wall flt now)
  then show ?case using FinalizeSuccess_snd [of s t wall flt a now r]
    by (auto simp: refines_refl intro!: call_refines finish_refines(2) noLoss_matches noLoss_inv)
next
  case (step_failure t r a wall flt reason now)
  then show ?case
    by (auto simp: FinalizeFailure_def runFinish_snd refines_refl
        intro!: call_refines finish_refines(3) noLoss_matches noLoss_inv)
next
  case (step_closed t r a wall flt now)
  then show ?case
    by (auto simp: FinalizeClosedOrder_def runFinish_snd refines_refl
        intro!: call_refines finish_refines(4) noLoss_matches noLoss_inv)
qed

lemma refines_sound: "refines ns v v' \<Longrightarrow> sound ns v v'"
  unfolding refines_def using expiry_sound specStep_sound sound_trans by blast

interpretation rush_pool: ticket_pool "rushStep s st ns" "rushInv s st ns" "rushQuota s st c" "rushHeld s st ns c"
  for s st ns c
proof unfold_locales
  fix r r' assume "rushInv s st ns r" "rushStep s st ns r r'"
  with refines_sound [OF rushStep_refines, of s st ns r r'] show "rushInv s st ns r'"
    and "rushQuota s st c r' + rushHeld s st ns c r' = rushQuota s st c r + rushHeld s st ns c r"
    by (simp_all add: rushInv_def sound_def rushQuota_def rushHeld_def)
next
  fix r assume "rushInv s st ns r"
  then show "0 \<le> rushQuota s st c r" by (simp add: rushInv_def rushQuota_def viewInv_def quotaNum_nonneg)
qed


section \<open>Tickets and attempts of a show\<close>

text \<open>A store that only has its quota satisfies the invariant.\<close>

lemma primed_inv:
  assumes "finite ns" "SetQuotaAvailable s t st c q Map.empty = (Inr (), r)" "in_int64 q"
  shows "rushInv s st ns r" and "rushQuota s st (show_int c) r = q" and "rushHeld s st ns d r = 0"
    and "purge t' r = r"
proof -
  let ?k = "quotaAvailableKey (as_prefix s) st"
  have q: "0 \<le> q" using assms(2) by (auto simp: SetQuotaAvailable_def split: if_splits)
  have r: "r = [?k \<mapsto> \<lparr>hfields = [(show_int c, show_int q)], expireAt = None\<rparr>]"
    using assms(2) by (auto simp: SetQuotaAvailable_def HSET_def purge_def split: if_splits)
  have g: "HGET r k f = (if k = ?k \<and> f = show_int c then Some (show_int q) else None)" for k f
    by (simp add: r HGET_def HGETALL_def)
  have nl: "\<not> live (view s st r) n" for n
    by (simp add: live_def view_def g key_simps)
  have held: "heldSum ns d (view s st r) = 0" for d by (simp add: heldSum_def heldBy_def nl)
  have quota: "quotaNum d (view s st r) = (if d = show_int c then q else 0)" for d
    using assms(3) by (simp add: quotaNum_def view_def g blank_def lua_num_def lua_tonumber_def)
      (simp add: parse_int64_def)
  have "quotaOk (view s st r)" using q assms(3) by (auto simp: quotaOk_def view_def g split: if_splits)
  then show "rushInv s st ns r"
    using assms(1,3) by (simp add: rushInv_def viewInv_def liveOk_def exclusive_def nl quota held)
      (simp add: in_int64_def int64_max_def)
  show "rushQuota s st (show_int c) r = q" "rushHeld s st ns d r = 0"
    by (simp_all add: rushQuota_def rushHeld_def quota held)
  show "purge t' r = r" by (simp add: purge_def r fun_eq_iff)
qed

lemma noLoss_refl: "purge t r = r \<Longrightarrow> noLoss s st t r"
  by (simp add: noLoss_def expiry_def)


definition demoStore :: AttemptStoreT where "demoStore = NewAttemptStore [] 0 0"

definition demoRequest :: AdmitAttemptRequest where
  "demoRequest = \<lparr>rq_OrderNumber = 91, rq_UserID = 3, rq_ProgramID = 5, rq_ShowTimeID = 5,
     rq_TicketCategoryID = 7, rq_ViewerIDs = [12, 11, 12], rq_TicketCount = 2,
     rq_SaleWindowEndAt = Some 3600000000000, rq_ShowEndAt = Some 7200000000000, rq_Now = Some 1000000000\<rparr>"

definition demoPrimed :: redis where
  "demoPrimed = snd (SetQuotaAvailable demoStore 0 5 7 4 Map.empty)"

lemma demoPrimed_facts:
  "SetQuotaAvailable demoStore 0 5 7 4 Map.empty = (Inr (), demoPrimed)"
  "rushInv demoStore 5 {91, 92} demoPrimed" "rushQuota demoStore 5 ''7'' demoPrimed = 4"
  "rushHeld demoStore 5 {91, 92} ''7'' demoPrimed = 0" "noLoss demoStore 5 t demoPrimed"
proof -
  show e: "SetQuotaAvailable demoStore 0 5 7 4 Map.empty = (Inr (), demoPrimed)"
    by (simp add: demoPrimed_def SetQuotaAvailable_def)
  have "show_int 7 = ''7''" by code_simp
  moreover note primed_inv [OF _ e, of "{91, 92}"]
  moreover have "in_int64 4" by (simp add: in_int64_def int64_min_def int64_max_def)
  ultimately show "rushInv demoStore 5 {91, 92} demoPrimed" "rushQuota demoStore 5 ''7'' demoPrimed = 4"
  "rushHeld demoStore 5 {91, 92} ''7'' demoPrimed = 0" "noLoss demoStore 5 t demoPrimed"
    by (auto intro: noLoss_refl)
qed

lemma demo_step:
  "rushStep demoStore 5 {91, 92} demoPrimed (snd (Admit demoStore 1000 0 NoFault demoRequest demoPrimed))"
  by (rule rushStep.step_admit)
     (simp_all add: demoPrimed_facts demoRequest_def in_int64_def int64_min_def int64_max_def)




definition demoRequest2 :: AdmitAttemptRequest where
  "demoRequest2 = demoRequest\<lparr>rq_OrderNumber := 92, rq_UserID := 4, rq_ViewerIDs := [13, 14]\<rparr>"

definition demoOne :: redis where
  "demoOne = snd (Admit demoStore 1000 0 NoFault demoRequest demoPrimed)"

definition demoTwo :: redis where
  "demoTwo = snd (Admit demoStore 1000 0 NoFault demoRequest2 demoOne)"


section \<open>Admission\<close>

definition validRequest :: "AdmitAttemptRequest \<Rightarrow> bool" where
  "validRequest req \<longleftrightarrow> 0 < rq_OrderNumber req \<and> in_int64 (rq_OrderNumber req) \<and> 0 < rq_UserID req
     \<and> 0 < rq_ProgramID req \<and> 0 < rq_ShowTimeID req \<and> 0 < rq_TicketCategoryID req
     \<and> normalizedInt64s (rq_ViewerIDs req) \<noteq> []
     \<and> rq_TicketCount req = int (length (normalizedInt64s (rq_ViewerIDs req))) \<and> in_int64 (rq_TicketCount req)"

text \<open>The arguments \<open>Admit\<close> passes for such a request.\<close>

definition requestArgs :: "AttemptStoreT \<Rightarrow> int \<Rightarrow> AdmitAttemptRequest \<Rightarrow> admitArgv" where
  "requestArgs s wall req = admitArgs s (orNow (rq_Now req) wall) req
     (normalizedInt64s (rq_ViewerIDs req)) (rq_TicketCount req) (rq_ShowTimeID req)"

lemma Admit_valid:
  assumes "validRequest req"
  shows "Admit s t wall flt req r =
    (case eval_ctx flt (admitAttemptScript t (rushKeysOf s (rq_ShowTimeID req) (rq_OrderNumber req))
            (requestArgs s wall req)) (purge t r) of
       (Inl e, r') \<Rightarrow> (Inl e, r') | (Inr vs, r') \<Rightarrow> (admitReply vs, r'))"
  using assms unfolding validRequest_def
  by (simp add: Admit_def requestArgs_def orNow_def Let_def)

lemma requestArgs_simps:
  "aaOrderNo (requestArgs s wall req) = show_int (rq_OrderNumber req)"
  "aaUserID (requestArgs s wall req) = show_int (rq_UserID req)"
  "aaTicketCategoryID (requestArgs s wall req) = show_int (rq_TicketCategoryID req)"
  "aaViewerIDsCSV (requestArgs s wall req) = formatInt64CSV (normalizedInt64s (rq_ViewerIDs req))"
  "aaTicketCount (requestArgs s wall req) = show_int (rq_TicketCount req)"
  "aaProgramID (requestArgs s wall req) = show_int (rq_ProgramID req)"
  "aaShowTimeID (requestArgs s wall req) = show_int (rq_ShowTimeID req)"
  by (simp_all add: requestArgs_def admitArgs_def Let_def)

lemma not_EXISTS_if_blank:
  assumes "no_empty_hash r" "HGET r k = Map.empty" shows "\<not> EXISTS r k"
proof
  assume "EXISTS r k"
  then obtain e where e: "r k = Some e" by (auto simp: EXISTS_def)
  with assms(1) obtain f v fs where "hfields e = (f, v) # fs"
    unfolding no_empty_hash_def by (metis neq_Nil_conv surj_pair)
  with e have "HGET r k f = Some v" by (simp add: HGET_def HGETALL_def)
  with assms(2) show False by simp
qed

lemma admitReply_accept: "in_int64 n \<Longrightarrow> admitReply [VInt 1, VStr (show_int n), VInt 0] =
    Inr \<lparr>rs_OrderNumber = n, rs_Decision = AdmitDecisionAccepted, rs_RejectCode = AdmitRejectNone\<rparr>"
  by (simp add: admitReply_def parseEvalInt64_def parseEvalInt64AllowBlank_def admit_code_defs)

lemma admissible_accepts:
  assumes "quotaOk (view s st r)" "no_empty_hash r" "0 \<le> lua_num (aaTicketCount a)" "admissible n a (view s st r)"
  shows "fst (admitAttemptScript t (rushKeysOf s st n) a r) = Inr [VInt 1, VStr (aaOrderNo a), VInt 0]"
    and "view s st (snd (admitAttemptScript t (rushKeysOf s st n) a r)) = admitted n a (view s st r)"
proof -
  let ?ks = "rushKeysOf s st n" and ?vs = "csv_values (aaViewerIDsCSV a)"
  obtain x where x: "vQuota (view s st r) (aaTicketCategoryID a) = Some x"
    using assms(4) by (auto simp: admissible_def)
  with assms(1) obtain q where q: "x = show_int q" "in_int64 q" by (auto simp: quotaOk_def)
  have "\<not> EXISTS r (kAttempt ?ks)"
    using assms(2,4) by (intro not_EXISTS_if_blank) (auto simp: admissible_def view_def rushKeysOf_def)
  moreover have "firstHeld r (kUserActive ?ks) [aaUserID a] = None" "firstHeld r (kViewerActive ?ks) ?vs = None"
    "firstHeld r (kUserInflight ?ks) [aaUserID a] = None" "firstHeld r (kViewerInflight ?ks) ?vs = None"
    using assms(4) unfolding firstHeld_None by (auto simp: admissible_def view_def rushKeysOf_def)
  moreover have "lua_tonumber (blank (HGET r (kQuota ?ks) (aaTicketCategoryID a))) = Some q"
    "lua_num (aaTicketCount a) \<le> q"
    using x q assms(4) by (auto simp: view_def rushKeysOf_def blank_def lua_tonumber_def admissible_def)
  ultimately show "fst (admitAttemptScript t ?ks a r) = Inr [VInt 1, VStr (aaOrderNo a), VInt 0]"
    and "view s st (snd (admitAttemptScript t ?ks a r)) = admitted n a (view s st r)"
    by (rule admit_accept_view [OF assms(1,3)])+
qed

lemma validRequest_count: "validRequest req \<Longrightarrow> 0 \<le> lua_num (aaTicketCount (requestArgs s wall req))"
proof -
  assume "validRequest req"
  then have "0 \<le> rq_TicketCount req" "in_int64 (rq_TicketCount req)" by (auto simp: validRequest_def)
  then show ?thesis by (simp add: requestArgs_simps)
qed

lemma Admit_admissible:
  assumes "validRequest req" "st = rq_ShowTimeID req" "n = rq_OrderNumber req"
    and "no_empty_hash (purge t r)" "quotaOk (view s st (purge t r))"
    and "admissible n (requestArgs s wall req) (view s st (purge t r))"
  shows "fst (Admit s t wall NoFault req r) =
           Inr \<lparr>rs_OrderNumber = n, rs_Decision = AdmitDecisionAccepted, rs_RejectCode = AdmitRejectNone\<rparr>"
    and "view s st (snd (Admit s t wall NoFault req r)) = admitted n (requestArgs s wall req) (view s st (purge t r))"
proof -
  note acc = admissible_accepts [OF assms(5,4) validRequest_count [OF assms(1)] assms(6), of t]
  from acc(1) obtain r' where "admitAttemptScript t (rushKeysOf s st n) (requestArgs s wall req) (purge t r)
     = (Inr [VInt 1, VStr (aaOrderNo (requestArgs s wall req)), VInt 0], r')" by (metis prod.collapse)
  moreover have "in_int64 n" using assms(1,3) by (simp add: validRequest_def)
  ultimately show "fst (Admit s t wall NoFault req r) =
           Inr \<lparr>rs_OrderNumber = n, rs_Decision = AdmitDecisionAccepted, rs_RejectCode = AdmitRejectNone\<rparr>"
    and "view s st (snd (Admit s t wall NoFault req r)) = admitted n (requestArgs s wall req) (view s st (purge t r))"
    using acc(2) assms(2,3) by (simp_all add: Admit_valid [OF assms(1)] eval_ctx_def requestArgs_simps admitReply_accept)
qed

text \<open>
  A valid request is accepted exactly when its order number has no attempt, its user and its
  viewers have no order in flight or active for the show, and the quota of its category covers its
  tickets. An accepted request takes its tickets from the quota, stores a pending attempt and marks
  user and viewers; any other answer leaves the store as it was.
\<close>

theorem admit_decides:
  assumes "validRequest req" "st = rq_ShowTimeID req" "n = rq_OrderNumber req"
    and "no_empty_hash (purge t r)" "quotaOk (view s st (purge t r))"
  shows "if admissible n (requestArgs s wall req) (view s st (purge t r))
    then fst (Admit s t wall NoFault req r) =
           Inr \<lparr>rs_OrderNumber = n, rs_Decision = AdmitDecisionAccepted, rs_RejectCode = AdmitRejectNone\<rparr>
         \<and> view s st (snd (Admit s t wall NoFault req r)) = admitted n (requestArgs s wall req) (view s st (purge t r))
    else snd (Admit s t wall NoFault req r) = purge t r
         \<and> (\<forall>x. fst (Admit s t wall NoFault req r) = Inr x \<longrightarrow> rs_Decision x \<in> {AdmitDecisionRejected, AdmitDecisionReused})"
proof -
  let ?a = "requestArgs s wall req" and ?r = "purge t r"
  let ?s = "admitAttemptScript t (rushKeysOf s st n) ?a ?r"
  have k: "0 \<le> lua_num (aaTicketCount ?a)" by (rule validRequest_count [OF assms(1)])
  have A: "Admit s t wall NoFault req r = (case ?s of (Inl e, r') \<Rightarrow> (Inl e, r') | (Inr vs, r') \<Rightarrow> (admitReply vs, r'))"
    using Admit_valid [OF assms(1)] assms(2,3) by (simp add: eval_ctx_def)
  show ?thesis
  proof (cases "admissible n ?a (view s st ?r)")
    case True
    with Admit_admissible [OF assms] show ?thesis by simp
  next
    case False
    from assms(5) k show ?thesis
    proof (cases rule: admit_view_cases [where t = t and n = n])
      case same
      obtain p r' where p: "?s = (p, r')" by fastforce
      from same p have r': "r' = ?r" and p0: "\<And>vs. p = Inr vs \<Longrightarrow> vs ! 0 \<in> {VInt 0, VInt 2}" by auto
      have "rs_Decision x \<in> {AdmitDecisionRejected, AdmitDecisionReused}" if "p = Inr vs" "admitReply vs = Inr x" for vs x
        using p0 [OF that(1)] that(2)
        by (auto simp: admitReply_def bind_res_def parseEvalInt64_def admit_code_defs split: if_splits sum.splits)
      with False A p r' show ?thesis by (auto split: sum.splits)
    qed (use False in simp)
  qed
qed

lemma admit_tidy: "tidy t r \<Longrightarrow> tidy t (snd (admitAttemptScript t ks a r))"
  by (auto simp: admitAttemptScript_def Let_def split: option.splits intro!: tidy_intros dest: tidy_HINCRBY)

lemma Admit_tidy:
  assumes "validRequest req" "no_empty_hash r"
  shows "tidy t (snd (Admit s t wall NoFault req r))"
  using admit_tidy [OF tidy_purge [OF assms(2)], of t "rushKeysOf s (rq_ShowTimeID req) (rq_OrderNumber req)" "requestArgs s wall req"]
  by (auto simp: Admit_valid [OF assms(1)] eval_ctx_def split: prod.splits sum.splits)

lemma demo_valid: "validRequest demoRequest" "validRequest demoRequest2"
  by code_simp+

lemma demoPrimed_view:
  "view demoStore 5 demoPrimed = \<lparr>vAtt = (\<lambda>n. Map.empty), vQuota = [''7'' \<mapsto> ''4''], vUserActive = Map.empty,
     vUserInflight = Map.empty, vViewerActive = Map.empty, vViewerInflight = Map.empty\<rparr>"
  "tidy t demoPrimed"
proof -
  have n: "show_int 7 = ''7''" "show_int 4 = ''4''" by code_simp+
  have d: "demoPrimed = [quotaAvailableKey (as_prefix demoStore) 5 \<mapsto> \<lparr>hfields = [(''7'', ''4'')], expireAt = None\<rparr>]"
    by (simp add: demoPrimed_def SetQuotaAvailable_def HSET_def purge_def n)
  show "view demoStore 5 demoPrimed = \<lparr>vAtt = (\<lambda>n. Map.empty), vQuota = [''7'' \<mapsto> ''4''], vUserActive = Map.empty,
     vUserInflight = Map.empty, vViewerActive = Map.empty, vViewerInflight = Map.empty\<rparr>"
    by (simp add: view_def d HGET_def HGETALL_def fun_eq_iff key_simps)
  show "tidy t demoPrimed" by (simp add: d tidy_def unexpired_def no_empty_hash_def)
qed

lemma demo_texts:
  "show_int 7 = ''7''" "show_int 2 = ''2''" "show_int 3 = ''3''" "show_int 4 = ''4''" "lua_num ''4'' = 4" "lua_num ''2'' = 2"
  "csv_values (formatInt64CSV (normalizedInt64s [12, 11, 12])) = [''11'', ''12'']"
  "csv_values (formatInt64CSV (normalizedInt64s [13, 14])) = [''13'', ''14'']"
  by code_simp+

lemma demo_admissible: "admissible 91 (requestArgs demoStore 0 demoRequest) (view demoStore 5 demoPrimed)"
  by (simp add: admissible_def requestArgs_simps demoPrimed_view demoRequest_def demo_texts blank_def)

theorem admit_decides_witness:
  "fst (Admit demoStore 1000 0 NoFault demoRequest demoPrimed) =
     Inr \<lparr>rs_OrderNumber = 91, rs_Decision = AdmitDecisionAccepted, rs_RejectCode = AdmitRejectNone\<rparr>"
proof -
  have p: "purge 1000 demoPrimed = demoPrimed" "no_empty_hash demoPrimed"
    using demoPrimed_view(2) [of 1000] by (simp_all add: purge_unexpired tidy_def)
  have "quotaOk (view demoStore 5 demoPrimed)" using demoPrimed_facts(2) by (simp add: rushInv_def viewInv_def)
  moreover have "5 = rq_ShowTimeID demoRequest" "91 = rq_OrderNumber demoRequest" by (simp_all add: demoRequest_def)
  ultimately show ?thesis
    using admit_decides [OF demo_valid(1), of 5 91 1000 demoPrimed demoStore 0] p demo_admissible by simp
qed


lemma demoOne_facts:
  "view demoStore 5 demoOne = admitted 91 (requestArgs demoStore 0 demoRequest) (view demoStore 5 demoPrimed)"
  "tidy 1000 demoOne" "rushInv demoStore 5 {91, 92} demoOne"
proof -
  have p: "purge 1000 demoPrimed = demoPrimed" "no_empty_hash demoPrimed"
    using demoPrimed_view(2) [of 1000] by (simp_all add: purge_unexpired tidy_def)
  have "5 = rq_ShowTimeID demoRequest" "91 = rq_OrderNumber demoRequest" by (simp_all add: demoRequest_def)
  with Admit_admissible(2) [OF demo_valid(1), of 5 91 1000 demoPrimed demoStore 0] p demo_admissible demoPrimed_facts(2)
  show "view demoStore 5 demoOne = admitted 91 (requestArgs demoStore 0 demoRequest) (view demoStore 5 demoPrimed)"
    by (simp add: demoOne_def rushInv_def viewInv_def)
  show "tidy 1000 demoOne" unfolding demoOne_def by (rule Admit_tidy [OF demo_valid(1) p(2)])
  show "rushInv demoStore 5 {91, 92} demoOne"
    unfolding demoOne_def by (rule rush_pool.inv_step [OF demoPrimed_facts(2) demo_step])
qed

lemma demo_step2: "rushStep demoStore 5 {91, 92} demoOne demoTwo"
  unfolding demoTwo_def
  by (rule rushStep.step_admit)
     (use demoOne_facts(2) in \<open>simp_all add: noLoss_refl purge_unexpired tidy_def demoRequest2_def
       demoRequest_def in_int64_def int64_min_def int64_max_def\<close>)

lemma demoTwo_view:
  "view demoStore 5 demoTwo = admitted 92 (requestArgs demoStore 0 demoRequest2) (view demoStore 5 demoOne)"
proof -
  have p: "purge 1000 demoOne = demoOne" "no_empty_hash demoOne"
    using demoOne_facts(2) by (simp_all add: purge_unexpired tidy_def)
  have "admissible 92 (requestArgs demoStore 0 demoRequest2) (view demoStore 5 demoOne)"
    by (simp add: demoOne_facts(1) demoPrimed_view admissible_def admitted_def requestArgs_simps demoRequest_def
        demoRequest2_def demo_texts blank_def setAll_def)
  moreover have "5 = rq_ShowTimeID demoRequest2" "92 = rq_OrderNumber demoRequest2"
    by (simp_all add: demoRequest_def demoRequest2_def)
  ultimately show ?thesis
    using Admit_admissible(2) [OF demo_valid(2), of 5 92 1000 demoOne demoStore 0] p demoOne_facts(3)
    by (simp add: demoTwo_def rushInv_def viewInv_def)
qed



section \<open>The life of an attempt\<close>

definition attemptEdge :: "string option \<Rightarrow> string option \<Rightarrow> bool" where
  "attemptEdge x y \<longleftrightarrow> y = x \<or> (x, y) \<in>
     {(None, Some AttemptStatePending), (Some AttemptStatePending, Some AttemptStateProcessing),
      (Some AttemptStatePending, Some AttemptStateFailed), (Some AttemptStateProcessing, Some AttemptStateSuccess),
      (Some AttemptStateProcessing, Some AttemptStateFailed), (Some AttemptStateSuccess, Some AttemptStateFailed)}"

lemma specStep_edge: "specStep ns v v' \<Longrightarrow> attemptEdge (vAtt v n ''state'') (vAtt v' n ''state'')"
  by (induction rule: specStep.induct)
     (auto simp: attemptEdge_def state_defs admissible_def admitted_def processing_def released_def succeeded_def
       Let_def map_add_def)

text \<open>
  The state of an attempt only moves along pending, processing, success and failed: a call of
  the store takes at most one edge, nothing leaves failed except the expiry of the record, success is
  left only for failed, and no attempt starts in a state other than pending.
\<close>

theorem attempt_state_machine:
  assumes "rushInv s st ns r" and "rushStep s st ns r r'"
  shows "\<exists>x. (x = vAtt (view s st r) n ''state'' \<or> x = None \<and> \<not> live (view s st r) n)
    \<and> attemptEdge x (vAtt (view s st r') n ''state'')"
proof -
  from rushStep_refines [OF assms(2,1)] obtain v0 where
    "expiry (view s st r) v0" "specStep ns v0 (view s st r')" by (auto simp: refines_def)
  moreover from this(1) have "vAtt v0 n = vAtt (view s st r) n \<or> (\<not> live (view s st r) n \<and> vAtt v0 n = Map.empty)"
    by (simp add: expiry_def)
  ultimately show ?thesis using specStep_edge by (intro exI [of _ "vAtt v0 n ''state''"]) auto
qed

theorem attempt_state_machine_witness:
  "attemptEdge None (vAtt (view demoStore 5 (snd (Admit demoStore 1000 0 NoFault demoRequest demoPrimed))) 91 ''state'')"
  using attempt_state_machine [OF demoPrimed_facts(2) demo_step, of 91] by (auto simp: demoPrimed_view)

text \<open>
  C20. Each call of the store behaves as a step of the specification: seen through the view of the
  show, it lets failed records expire and then does nothing, admits, starts, fails, completes or
  releases one attempt, with exactly the updates of quota and marks that this step has.
\<close>

theorem store_refines_spec:
  assumes "rushInv s st ns r" and "rushStep s st ns r r'"
  shows "\<exists>v0. expiry (view s st r) v0 \<and> specStep ns v0 (view s st r')"
  using rushStep_refines [OF assms(2,1)] by (simp add: refines_def)

theorem store_refines_spec_witness:
  "\<exists>v0. expiry (view demoStore 5 demoOne) v0 \<and> specStep {91, 92} v0 (view demoStore 5 demoTwo)"
  using store_refines_spec [OF demoOne_facts(3) demo_step2] .

text \<open>Starting an attempt twice.\<close>

definition notPending :: "AttemptStoreT \<Rightarrow> int \<Rightarrow> int \<Rightarrow> redis \<Rightarrow> bool" where
  "notPending s st n r \<longleftrightarrow> HGET r (attemptRecordKey (as_prefix s) st n) ''state'' \<noteq> Some ''PENDING''"

lemma prepare_true:
  assumes "PrepareAttemptForConsume s t wall flt st n now r = (Inr (a, True), r')"
  shows "\<not> notPending s st n (purge t r)" "notPending s st n r'"
proof -
  let ?k = "attemptRecordKey (as_prefix s) st n"
  let ?f = "prepareAttemptForConsumeScript t ?k (show_int (unix_milli (orNow now wall))) (show_int (inFlightTTLSeconds s))"
  from assms obtain vs where vs: "eval_ctx flt ?f (purge t r) = (Inr vs, r')"
    and ok: "parseEvalInt64 (vs ! 0) = Inr 1" "17 \<le> length vs"
    by (auto simp: PrepareAttemptForConsume_def bind_res_def Let_def split: if_splits prod.splits sum.splits)
  have "?f (purge t r) = (Inr vs, r')" using vs by (cases flt) (auto simp: eval_ctx_def)
  with ok show "\<not> notPending s st n (purge t r)" "notPending s st n r'"
    by (auto simp: prepareAttemptForConsumeScript_def Let_def parseEvalInt64_def redis_simps notPending_def hget_blank_def
        split: if_splits option.splits)
qed

lemma notPending_purge: "notPending s st n r \<Longrightarrow> notPending s st n (purge t r)"
  by (auto simp: notPending_def HGET_def HGETALL_def purge_def split: option.splits if_splits)

lemma prepare_notPending:
  assumes "notPending s st n r"
  shows "fst (PrepareAttemptForConsume s t wall flt st n now r) \<noteq> Inr (a, True)"
  using prepare_true(1) [of s t wall flt st n now r a] notPending_purge [OF assms] by (metis prod.collapse)

text \<open>
  An attempt is handed out for processing once: after a call that told its consumer to process
  the attempt, a second call at any later time answers with an error or tells its consumer not to.
\<close>

theorem prepare_once:
  assumes "PrepareAttemptForConsume s t wall flt st n now r = (Inr (a, True), r')"
  shows "fst (PrepareAttemptForConsume s t' wall' flt' st n now' r') \<noteq> Inr (a', True)"
  by (rule prepare_notPending [OF prepare_true(2) [OF assms]])

text \<open>A started attempt never becomes pending again when a consumer finishes one.\<close>

lemma finish_notPending:
  assumes "notPending s st n r"
  shows "notPending s st n (snd (FinalizeSuccess s t wall flt a now r))"
    "notPending s st n (snd (FinalizeFailure s t wall flt a reason now r))"
proof -
  let ?ks = "rushKeysOf s (ar_ShowTimeID a) (ar_OrderNumber a)"
  have p: "notPending s st n (purge t r)" by (rule notPending_purge [OF assms])
  then have 1: "notPending s st n (snd (finalizeSuccessScript t ?ks x (purge t r)))" for x
    by (auto simp: finalizeSuccessScript_def Let_def notPending_def redis_simps rushKeysOf_def key_simps)
  have 2: "notPending s st n (snd (finalizeFailureScript t ?ks x (purge t r)))" for x
    using p by (auto simp: finalizeFailureScript_def releaseAttempt_def returnQuota_def Let_def notPending_def redis_simps rushKeysOf_def key_simps
        split: option.splits elim!: HINCRBY_Some)
  show "notPending s st n (snd (FinalizeSuccess s t wall flt a now r))"
    "notPending s st n (snd (FinalizeFailure s t wall flt a reason now r))"
    using 1 2 p assms FinalizeSuccess_snd [of s t wall flt a now r] by (auto simp: FinalizeFailure_def runFinish_snd eval_ctx_def split: fault.split)
qed

text \<open>A store with one pending attempt, and the call that starts it.\<close>

definition demoPending :: redis where
  "demoPending = [attemptRecordKey (as_prefix demoStore) 5 91 \<mapsto>
     \<lparr>hfields = [(''state'', ''PENDING''), (''user_id'', ''3''), (''ticket_count'', ''2'')], expireAt = Some 9000000\<rparr>]"

lemma demoPending_starts:
  "\<exists>a r'. PrepareAttemptForConsume demoStore 1000 wall NoFault 5 91 (Some 1000000000) demoPending = (Inr (a, True), r')
     \<and> ar_ShowTimeID a = 5 \<and> ar_OrderNumber a = 91"
proof -
  let ?k = "attemptRecordKey (as_prefix demoStore) 5 91"
  have p: "purge 1000 demoPending = demoPending" by (simp add: demoPending_def purge_def fun_eq_iff)
  have g: "HGET demoPending ?k f = map_of [(''state'', ''PENDING''), (''user_id'', ''3''), (''ticket_count'', ''2'')] f" for f
    by (simp add: demoPending_def HGET_def HGETALL_def)
  have t: "TTL 1000 demoPending ?k = 8999" by (simp add: TTL_def demoPending_def)
  have n: "show_int (unix_milli 1000000000) = ''1000''" "parse_int64 ''1000'' = Some 1000" "parse_int64 ''3'' = Some 3"
    "parse_int64 ''2'' = Some 2" by code_simp+
  show ?thesis
    by (simp add: PrepareAttemptForConsume_def eval_ctx_def p orNow_def n prepareAttemptForConsumeScript_def t Let_def
        hget_blank_def g prepareFields_def redis_simps mapPreparedAttemptRecord_def parseEvalInt64_def
        parseEvalString_def parseEvalInt64AllowBlank_def parsePreparedTime_def parseInt64CSV_def)
qed

theorem prepare_once_witness:
  "\<exists>a r'. PrepareAttemptForConsume demoStore 1000 0 NoFault 5 91 (Some 1000000000) demoPending = (Inr (a, True), r')
     \<and> fst (PrepareAttemptForConsume demoStore 1001 0 NoFault 5 91 (Some 1001000000) r') \<noteq> Inr (a, True)"
  using demoPending_starts prepare_once by blast

text \<open>
  A lost reply does no harm: if the reply to an accepted request never arrives and the client
  sends a request with the same order number again while the attempt is stored, it gets that order
  number back as reused, and no ticket is taken a second time.
\<close>

theorem admit_retry_reuses:
  assumes "validRequest req" "st = rq_ShowTimeID req" "n = rq_OrderNumber req"
    and "no_empty_hash (purge t r)" "quotaOk (view s st (purge t r))"
    and "admissible n (requestArgs s wall req) (view s st (purge t r))"
    and "validRequest req'" "rq_ShowTimeID req' = st" "rq_OrderNumber req' = n"
    and "Admit s t wall (LostReply e) req r = (x, r1)"
    and "EXISTS (purge t' r1) (attemptRecordKey (as_prefix s) st n)"
  shows "x = Inl e \<and> Admit s t' wall' NoFault req' r1 =
    (Inr \<lparr>rs_OrderNumber = n, rs_Decision = AdmitDecisionReused, rs_RejectCode = AdmitRejectNone\<rparr>, purge t' r1)"
proof -
  let ?k = "attemptRecordKey (as_prefix s) st n"
  have x: "x = Inl e" and "r1 = snd (Admit s t wall NoFault req r)"
    using assms(10) by (auto simp: Admit_valid [OF assms(1)] eval_ctx_def split: prod.splits sum.splits)
  then have "view s st r1 = admitted n (requestArgs s wall req) (view s st (purge t r))"
    using Admit_admissible(2) [OF assms(1-6)] by simp
  then have "vAtt (view s st r1) n ''order_number'' = Some (show_int n)"
    by (simp add: admitted_def requestArgs_simps assms(3) map_add_def)
  then have "HGET (purge t' r1) ?k ''order_number'' = Some (show_int n)"
    using assms(11) by (auto simp: view_def EXISTS_def HGET_def HGETALL_def purge_def split: option.splits if_splits)
  moreover have "in_int64 n" using assms(1,3) by (simp add: validRequest_def)
  ultimately show ?thesis using x assms(8,9,11)
    by (simp add: Admit_valid [OF assms(7)] eval_ctx_def admitAttemptScript_def rushKeysOf_def admitReply_def
        parseEvalInt64_def parseEvalInt64AllowBlank_def admit_code_defs)
qed

theorem admit_retry_reuses_witness:
  "fst (Admit demoStore 1000 0 NoFault demoRequest (snd (Admit demoStore 1000 0 (LostReply Timeout) demoRequest demoPrimed)))
     = Inr \<lparr>rs_OrderNumber = 91, rs_Decision = AdmitDecisionReused, rs_RejectCode = AdmitRejectNone\<rparr>"
proof -
  have p: "purge 1000 demoPrimed = demoPrimed" "no_empty_hash demoPrimed"
    using demoPrimed_view(2) [of 1000] by (simp_all add: purge_unexpired tidy_def)
  have q: "quotaOk (view demoStore 5 demoPrimed)" using demoPrimed_facts(2) by (simp add: rushInv_def viewInv_def)
  have i: "rq_ShowTimeID demoRequest = 5" "rq_OrderNumber demoRequest = 91" by (simp_all add: demoRequest_def)
  have o: "snd (Admit demoStore 1000 0 (LostReply Timeout) demoRequest demoPrimed) = demoOne"
    by (auto simp: demoOne_def Admit_valid [OF demo_valid(1)] eval_ctx_def split: prod.splits sum.splits)
  have "vAtt (view demoStore 5 demoOne) 91 ''state'' \<noteq> None"
    by (simp add: demoOne_facts(1) admitted_parts)
  then have "EXISTS (purge 1000 demoOne) (attemptRecordKey (as_prefix demoStore) 5 91)"
    using demoOne_facts(2) HGET_not_EXISTS [of demoOne "attemptRecordKey (as_prefix demoStore) 5 91" "''state''"]
    by (cases "EXISTS demoOne (attemptRecordKey (as_prefix demoStore) 5 91)") (auto simp: view_def tidy_def purge_unexpired)
  with admit_retry_reuses [OF demo_valid(1), of 5 91 1000 demoPrimed demoStore 0 demoRequest Timeout _ demoOne 1000 0]
    p q i o demo_admissible demo_valid(1) show ?thesis by (metis fst_conv prod.collapse)
qed

section \<open>Reading an attempt back\<close>

lemma set_dedup: "set (dedup X xs) = set xs - X"
  by (induction X xs rule: dedup.induct) auto

lemma distinct_dedup: "distinct (dedup X xs)"
  by (induction X xs rule: dedup.induct) (auto simp: set_dedup)

lemma dedup_distinct: "distinct xs \<Longrightarrow> set xs \<inter> X = {} \<Longrightarrow> dedup X xs = xs"
  by (induction X xs rule: dedup.induct) auto

lemma normalized_distinct: "distinct (normalizedInt64s xs)"
  by (simp add: normalizedInt64s_def distinct_dedup)

lemma normalized_set: "set (normalizedInt64s xs) = {v \<in> set xs. 0 < v}"
  by (auto simp add: normalizedInt64s_def set_dedup)

lemma parseCSVParts_show: "\<forall>v \<in> set vs. in_int64 v \<Longrightarrow> parseCSVParts (map show_int vs) = Inr vs"
  by (induction vs) (simp_all add: Let_def)

lemma parse_format_distinct:
  assumes "distinct vs" "\<forall>v \<in> set vs. in_int64 v"
  shows "parseInt64CSV (formatInt64CSV vs) = Inr vs"
proof (cases vs)
  case Nil
  then show ?thesis by (simp add: parseInt64CSV_def formatInt64CSV_def)
next
  case (Cons v vs')
  have d: "dedup {} vs = vs" using assms(1) by (simp add: dedup_distinct)
  have "split_on (CHR '','') (join_with '','' (map show_int vs)) = map show_int vs"
    using Cons by (intro split_join) auto
  moreover have "join_with '','' (map show_int vs) \<noteq> []"
    using Cons by (cases vs') auto
  ultimately show ?thesis using assms(2) by (simp add: parseInt64CSV_def formatInt64CSV_def d parseCSVParts_show)
qed

text \<open>
  The viewer list survives the trip through the attempt record: normalising sorts the positive
  ids and drops duplicates, and parsing the comma-separated text gives exactly that list back.
\<close>

theorem viewer_csv_roundtrip:
  assumes "\<forall>v \<in> set vs. in_int64 v"
  shows "parseInt64CSV (formatInt64CSV (normalizedInt64s vs)) = Inr (normalizedInt64s vs)
    \<and> sorted (normalizedInt64s vs) \<and> distinct (normalizedInt64s vs) \<and> set (normalizedInt64s vs) = {v \<in> set vs. 0 < v}"
  using assms parse_format_distinct [OF normalized_distinct, of vs]
  by (simp add: normalized_distinct normalized_set) (simp add: normalizedInt64s_def)

theorem viewer_csv_roundtrip_witness:
  "parseInt64CSV (formatInt64CSV (normalizedInt64s [12, -1, 11, 12])) = Inr [11, 12]"
proof -
  have "\<forall>v \<in> set [12, -1, 11, 12 :: int]. in_int64 v" by (simp add: in_int64_def int64_min_def int64_max_def)
  moreover have "normalizedInt64s [12, -1, 11, 12] = [11, 12]" by code_simp
  ultimately show ?thesis using viewer_csv_roundtrip [of "[12, -1, 11, 12]"] by simp
qed

definition int64Request :: "AdmitAttemptRequest \<Rightarrow> bool" where
  "int64Request req \<longleftrightarrow> in_int64 (rq_UserID req) \<and> in_int64 (rq_ProgramID req) \<and> in_int64 (rq_ShowTimeID req)
     \<and> in_int64 (rq_TicketCategoryID req) \<and> (\<forall>v \<in> set (rq_ViewerIDs req). in_int64 v)
     \<and> (case (rq_Now req, rq_SaleWindowEndAt req, rq_ShowEndAt req) of
          (Some now, Some sale, Some fin) \<Rightarrow>
             in_int64 (unix_milli now) \<and> in_int64 (unix_milli sale) \<and> in_int64 (unix_milli fin)
        | _ \<Rightarrow> False)"

lemma parseField_simps:
  "map_of fs k = Some (show_int i) \<Longrightarrow> in_int64 i \<Longrightarrow> parseFieldInt64 fs k = Inr i"
  "map_of fs k = Some (show_int i) \<Longrightarrow> in_int64 i \<Longrightarrow> parseFieldTime fs k = Inr (milli_time i)"
  "map_of fs k = None \<Longrightarrow> parseFieldTime fs k = Inr None"
  by (simp_all add: parseFieldInt64_def parseFieldTime_def)

text \<open>
  An accepted attempt can be read back at once with the ids of the request, its normalised
  viewers, its ticket count, state pending and the times of the request to the millisecond.
\<close>

theorem admit_then_get:
  assumes "validRequest req" "int64Request req" "st = rq_ShowTimeID req" "n = rq_OrderNumber req"
    and "no_empty_hash (purge t r)" "quotaOk (view s st (purge t r))"
    and "admissible n (requestArgs s wall req) (view s st (purge t r))"
    and "Admit s t wall NoFault req r = (x, r1)" "purge t r1 = r1"
  shows "GetByShowTimeAndOrderNumber s t st n r1 = Inr
    \<lparr>ar_OrderNumber = n, ar_UserID = rq_UserID req, ar_ProgramID = rq_ProgramID req, ar_ShowTimeID = st,
     ar_TicketCategoryID = rq_TicketCategoryID req, ar_ViewerIDs = normalizedInt64s (rq_ViewerIDs req),
     ar_TicketCount = rq_TicketCount req,
     ar_SaleWindowEndAt = milli_time (unix_milli (the (rq_SaleWindowEndAt req))),
     ar_ShowEndAt = milli_time (unix_milli (the (rq_ShowEndAt req))), ar_State = AttemptStatePending, ar_ReasonCode = [],
     ar_AcceptedAt = milli_time (unix_milli (the (rq_Now req))), ar_FinishedAt = None, ar_ProcessingStartedAt = None,
     ar_CreatedAt = milli_time (unix_milli (the (rq_Now req))),
     ar_LastTransitionAt = milli_time (unix_milli (the (rq_Now req)))\<rparr>"
proof -
  let ?fs = "HGETALL r1 (attemptRecordKey (as_prefix s) st n)"
  obtain now sale fin where tm: "rq_Now req = Some now" "rq_SaleWindowEndAt req = Some sale" "rq_ShowEndAt req = Some fin"
    "in_int64 (unix_milli now)" "in_int64 (unix_milli sale)" "in_int64 (unix_milli fin)"
    using assms(2) by (auto simp: int64Request_def split: option.splits)
  have "view s st r1 = admitted n (requestArgs s wall req) (view s st (purge t r))"
    using Admit_admissible(2) [OF assms(1,3-7)] assms(8) by simp
  moreover have "vAtt (view s st (purge t r)) n = Map.empty" using assms(7) by (simp add: admissible_def)
  moreover have "map_of ?fs = vAtt (view s st r1) n" by (simp add: view_def HGET_def fun_eq_iff)
  moreover have "in_int64 (rq_TicketCount req)" using assms(1) by (auto simp: validRequest_def)
  ultimately have m: "map_of ?fs = map_of (rev
         [(''order_number'', show_int n), (''user_id'', show_int (rq_UserID req)),
          (''program_id'', show_int (rq_ProgramID req)), (''show_time_id'', show_int st),
          (''ticket_category_id'', show_int (rq_TicketCategoryID req)),
          (''viewer_ids'', formatInt64CSV (normalizedInt64s (rq_ViewerIDs req))),
          (''ticket_count'', show_int (rq_TicketCount req)), (''sale_window_end_at'', show_int (unix_milli sale)),
          (''state'', ''PENDING''), (''reason_code'', ''''), (''accepted_at'', show_int (unix_milli now)),
          (''finished_at'', ''0''), (''show_end_at'', show_int (unix_milli fin)), (''created_at'', show_int (unix_milli now)),
          (''last_transition_at'', show_int (unix_milli now))])"
    using assms(3,4) by (simp add: admitted_def requestArgs_def admitArgs_def orNow_def tm Let_def)
  have ids: "0 < n" "in_int64 n" "0 < st" "in_int64 (rq_UserID req)" "in_int64 (rq_ProgramID req)" "in_int64 st"
    "in_int64 (rq_TicketCategoryID req)" "in_int64 (rq_TicketCount req)"
    using assms(1-4) by (auto simp: validRequest_def int64Request_def)
  have csv: "parseInt64CSV (formatInt64CSV (normalizedInt64s (rq_ViewerIDs req))) = Inr (normalizedInt64s (rq_ViewerIDs req))"
    using assms(2) by (intro parse_format_distinct normalized_distinct) (auto simp: normalized_set int64Request_def)
  have z: "parseFieldTime ?fs ''finished_at'' = Inr None"
    by (simp add: parseFieldTime_def m) (code_simp)
  have ne: "?fs \<noteq> []" using fun_cong [OF m, of "''state''"] by auto
  have "mapAttemptRecord ?fs = Inr \<lparr>ar_OrderNumber = n, ar_UserID = rq_UserID req, ar_ProgramID = rq_ProgramID req, ar_ShowTimeID = st,
     ar_TicketCategoryID = rq_TicketCategoryID req, ar_ViewerIDs = normalizedInt64s (rq_ViewerIDs req),
     ar_TicketCount = rq_TicketCount req, ar_SaleWindowEndAt = milli_time (unix_milli sale),
     ar_ShowEndAt = milli_time (unix_milli fin), ar_State = AttemptStatePending, ar_ReasonCode = [],
     ar_AcceptedAt = milli_time (unix_milli now), ar_FinishedAt = None, ar_ProcessingStartedAt = None,
     ar_CreatedAt = milli_time (unix_milli now), ar_LastTransitionAt = milli_time (unix_milli now)\<rparr>"
    using ids tm(4-6) csv z
    by (simp add: mapAttemptRecord_def parseField_simps m field_str_def AttemptStatePending_def)
  with ids ne tm show ?thesis by (simp add: GetByShowTimeAndOrderNumber_def assms(9) Let_def)
qed

theorem admit_then_get_witness:
  "map_option ar_ViewerIDs (case GetByShowTimeAndOrderNumber demoStore 1000 5 91 demoOne of Inl _ \<Rightarrow> None | Inr a \<Rightarrow> Some a)
     = Some [11, 12]"
proof -
  have p: "purge 1000 demoPrimed = demoPrimed" "no_empty_hash demoPrimed" "purge 1000 demoOne = demoOne"
    using demoPrimed_view(2) [of 1000] demoOne_facts(2) by (simp_all add: purge_unexpired tidy_def)
  have q: "quotaOk (view demoStore 5 demoPrimed)" using demoPrimed_facts(2) by (simp add: rushInv_def viewInv_def)
  have i: "rq_ShowTimeID demoRequest = 5" "rq_OrderNumber demoRequest = 91" by (simp_all add: demoRequest_def)
  have o: "Admit demoStore 1000 0 NoFault demoRequest demoPrimed = (fst (Admit demoStore 1000 0 NoFault demoRequest demoPrimed), demoOne)"
    by (simp add: demoOne_def)
  have "int64Request demoRequest" by code_simp
  moreover have "normalizedInt64s (rq_ViewerIDs demoRequest) = [11, 12]" by code_simp
  ultimately show ?thesis
    using admit_then_get [OF demo_valid(1) _ i [symmetric] _ _ _ o p(3)] p(1,2) q demo_admissible by simp
qed

end
