(* ===== verification/SeatAssign.thy ===== *)
theory SeatAssign
  imports Prelude "HOL-Library.Sublist"
begin

text \<open>
  Choosing seats: \<open>assignSeats\<close> and \<open>firstConsecutiveSeats\<close> of
  \<open>logic/seat_assignment.go\<close>, and the same search as \<open>freeze_auto_assigned_seats.lua\<close> does it
  over the members of the ledger. A run is collected in order, so \<open>i - runStart\<close> is its length.
\<close>

section \<open>The Go version\<close>

record seatCandidate =
  ID :: int
  sc_TicketCategoryID :: int
  sc_RowCode :: int
  sc_ColCode :: int
  sc_Price :: int

text \<open>The loop over a row with the run found so far; a run ends where \<open>adj\<close> fails.\<close>

fun runLoop :: "('a \<Rightarrow> 'a \<Rightarrow> bool) \<Rightarrow> nat \<Rightarrow> 'a list \<Rightarrow> 'a list \<Rightarrow> 'a list option" where
  "runLoop adj need run [] = (if need \<le> length run then Some (take need run) else None)"
| "runLoop adj need run (x # xs) =
     (if adj (last run) x then runLoop adj need (run @ [x]) xs
      else if need \<le> length run then Some (take need run)
      else runLoop adj need [x] xs)"

definition firstRun :: "('a \<Rightarrow> 'a \<Rightarrow> bool) \<Rightarrow> nat \<Rightarrow> 'a list \<Rightarrow> 'a list option" where
  "firstRun adj need rowSeats =
     (if length rowSeats < need then None
      else case rowSeats of [] \<Rightarrow> None | x # xs \<Rightarrow> runLoop adj need [x] xs)"

definition firstConsecutiveSeats :: "seatCandidate list \<Rightarrow> nat \<Rightarrow> seatCandidate list option" where
  "firstConsecutiveSeats rowSeats cnt = firstRun (\<lambda>p x. sc_ColCode x = sc_ColCode p + 1) cnt rowSeats"

text \<open>The loop over the rows, each the maximal block of seats with the row code of its first.\<close>

function rowLoop :: "('a \<Rightarrow> int) \<Rightarrow> ('a list \<Rightarrow> 'a list option) \<Rightarrow> 'a list \<Rightarrow> 'a list option" where
  "rowLoop row pick [] = None"
| "rowLoop row pick (x # xs) =
     (case pick (x # takeWhile (\<lambda>y. row y = row x) xs) of
        Some s \<Rightarrow> Some s
      | None \<Rightarrow> rowLoop row pick (dropWhile (\<lambda>y. row y = row x) xs))"
  by pat_completeness auto
termination by (relation "measure (\<lambda>(_, _, xs). length xs)") (auto simp: le_imp_less_Suc length_dropWhile_le)

definition seatBefore :: "seatCandidate \<Rightarrow> int \<times> int \<times> int" where
  "seatBefore s = (sc_RowCode s, sc_ColCode s, ID s)"

definition assignSeats :: "seatCandidate list \<Rightarrow> int \<Rightarrow> seatCandidate list res" where
  "assignSeats candidates cnt =
     (if cnt \<le> 0 then Inl (Sentinel ErrInvalidParam)
      else if int (length candidates) < cnt then Inl (Sentinel ErrSeatInventoryInsufficient)
      else
        let sorted = sort_key seatBefore candidates in
        case rowLoop sc_RowCode (\<lambda>r. firstConsecutiveSeats r (nat cnt)) sorted of
          Some seats \<Rightarrow> Inr seats
        | None \<Rightarrow> Inr (take (nat cnt) sorted))"

section \<open>The search finds a run when there is one\<close>

lemma runLoop_sound:
  assumes "runLoop adj need run xs = Some s" "run \<noteq> []" "successively adj run"
  shows "sublist s (run @ xs) \<and> length s = need \<and> successively adj s"
  using assms
proof (induction adj need run xs rule: runLoop.induct)
  case (1 adj need run)
  then have "s = take need run" "need \<le> length run" by (auto split: if_splits)
  with 1 show ?case by (metis append_Nil2 append_take_drop_id length_take min.absorb2 sublist_append_rightI successively_append_iff)
next
  case (2 adj need run x xs)
  consider "adj (last run) x" | "\<not> adj (last run) x" "need \<le> length run" | "\<not> adj (last run) x" "\<not> need \<le> length run" by blast
  then show ?case
  proof cases
    case 1
    with 2(3-5) 2(1) show ?thesis by (simp add: successively_append_iff)
  next
    case 2
    then have "s = take need run" using "2.prems"(1) by simp
    moreover have "sublist (take need run) (run @ x # xs)"
      by (metis append.assoc append_take_drop_id sublist_append_rightI)
    moreover have "successively adj (take need run)"
      using "2.prems"(3) by (metis append_take_drop_id successively_append_iff)
    ultimately show ?thesis using 2(2) by simp
  next
    case 3
    with 2(2,3) show ?thesis by (auto simp: sublist_append)
  qed
qed

text \<open>If nothing is found, no stretch of \<open>need\<close> neighbours exists, in the run or after it.\<close>

lemma runLoop_complete:
  assumes "runLoop adj need run xs = None" "run \<noteq> []" "0 < need"
    and "sublist s (run @ xs)" "length s = need"
  shows "\<not> successively adj s"
  using assms
proof (induction adj need run xs arbitrary: s rule: runLoop.induct)
  case (1 adj need run)
  then show ?case using sublist_length_le by (fastforce split: if_splits)
next
  case (2 adj need run x xs)
  show ?case
  proof (cases "adj (last run) x")
    case True
    with 2 show ?thesis by simp
  next
    case False
    with 2 have short: "length run < need" and rec: "runLoop adj need [x] xs = None" by (auto split: if_splits)
    from "2.prems"(4) have "sublist s run \<or> sublist s (x # xs) \<or>
        (\<exists>s1 s2. s = s1 @ s2 \<and> suffix s1 run \<and> prefix s2 (x # xs))" by (simp add: sublist_append)
    then consider "sublist s run" | "sublist s (x # xs)" | s1 s2 where "s = s1 @ s2" "suffix s1 run" "prefix s2 (x # xs)" "s1 \<noteq> []" "s2 \<noteq> []"
      by (metis append_Nil append_Nil2 prefix_imp_sublist suffix_imp_sublist)
    then show ?thesis
    proof cases
      case 1
      then show ?thesis using short "2.prems"(5) sublist_length_le by fastforce
    next
      case 2
      then show ?thesis using "2.IH"(2) [OF False _ rec] short "2.prems"(3,5) by simp
    next
      case 3
      then have "last s1 = last run" "hd s2 = x"
        by (metis last_appendR suffix_def, metis hd_append2 list.sel(1) prefix_def)
      with False 3 show ?thesis by (auto simp: successively_append_iff)
    qed
  qed
qed

lemma firstRun_Some:
  "firstRun adj need xs = Some s \<Longrightarrow> sublist s xs \<and> length s = need \<and> successively adj s"
  using runLoop_sound by (fastforce simp: firstRun_def split: if_splits list.splits)

lemma firstRun_None:
  assumes "firstRun adj need xs = None" "0 < need" "sublist s xs" "length s = need"
  shows "\<not> successively adj s"
  using assms runLoop_complete [of adj need "[hd xs]" "tl xs" s] sublist_length_le [OF assms(3)]
  by (auto simp: firstRun_def split: if_splits list.splits)

lemma runLoop_short: "length (run @ xs) < need \<Longrightarrow> runLoop adj need run xs = None"
  by (induction adj need run xs rule: runLoop.induct) auto

lemma firstRun_Cons: "firstRun adj need (x # xs) = runLoop adj need [x] xs"
  using runLoop_short [of "[x]" xs need adj] by (auto simp: firstRun_def)

text \<open>
  Searching row by row is searching the whole list for neighbours in one row.
\<close>

lemma runLoop_row:
  assumes "\<forall>y \<in> set ys. row y = row (last run)" "run \<noteq> []" "zs = [] \<or> row (hd zs) \<noteq> row (last run)"
  shows "runLoop (\<lambda>p x. row x = row p \<and> adj p x) need run (ys @ zs) =
    (case runLoop adj need run ys of
       Some s \<Rightarrow> Some s
     | None \<Rightarrow> (case zs of [] \<Rightarrow> None | z # zs' \<Rightarrow> runLoop (\<lambda>p x. row x = row p \<and> adj p x) need [z] zs'))"
  using assms
proof (induction ys arbitrary: run)
  case Nil
  then show ?case by (cases zs) auto
next
  case (Cons y ys)
  then show ?case by (cases "adj (last run) y") (auto split: option.splits)
qed

lemma rowLoop_firstRun:
  "rowLoop row (firstRun adj need) xs = firstRun (\<lambda>p x. row x = row p \<and> adj p x) need xs"
proof (induction row "firstRun adj need" xs rule: rowLoop.induct)
  case (1 row)
  then show ?case by (simp add: firstRun_def)
next
  case (2 row x xs)
  let ?P = "\<lambda>y. row y = row x" and ?adj = "\<lambda>p x. row x = row p \<and> adj p x"
  have "runLoop ?adj need [x] (takeWhile ?P xs @ dropWhile ?P xs) =
    (case runLoop adj need [x] (takeWhile ?P xs) of
       Some s \<Rightarrow> Some s
     | None \<Rightarrow> (case dropWhile ?P xs of [] \<Rightarrow> None | z # zs' \<Rightarrow> runLoop ?adj need [z] zs'))"
    by (rule runLoop_row) (use hd_dropWhile [of ?P xs] in \<open>auto dest: set_takeWhileD\<close>)
  moreover have "(case dropWhile ?P xs of [] \<Rightarrow> None | z # zs' \<Rightarrow> runLoop ?adj need [z] zs') = firstRun ?adj need (dropWhile ?P xs)"
    by (cases "dropWhile ?P xs") (simp only: list.case firstRun_Cons, simp add: firstRun_def, simp only: list.case firstRun_Cons)
  ultimately have *: "firstRun ?adj need (x # xs) = (case firstRun adj need (x # takeWhile ?P xs) of
       Some s \<Rightarrow> Some s | None \<Rightarrow> firstRun ?adj need (dropWhile ?P xs))"
    unfolding firstRun_Cons takeWhile_dropWhile_id by (simp only:)
  show ?case unfolding * using "2.hyps" by (simp split: option.split)
qed

section \<open>Seats side by side\<close>

definition neighbours :: "seatCandidate \<Rightarrow> seatCandidate \<Rightarrow> bool" where
  "neighbours p x \<longleftrightarrow> sc_RowCode x = sc_RowCode p \<and> sc_ColCode x = sc_ColCode p + 1"

definition place :: "seatCandidate \<Rightarrow> int \<times> int" where
  "place s = (sc_RowCode s, sc_ColCode s)"

text \<open>There are \<open>n\<close> free seats side by side: in one row, with consecutive columns.\<close>

definition sideBySide :: "seatCandidate list \<Rightarrow> nat \<Rightarrow> bool" where
  "sideBySide candidates n \<longleftrightarrow>
     (\<exists>s \<in> set candidates. \<forall>i < n. (sc_RowCode s, sc_ColCode s + int i) \<in> place ` set candidates)"

lemma filter_prefix_sorted:
  fixes f :: "'a \<Rightarrow> 'b::linorder"
  shows "sorted (map f xs) \<Longrightarrow> \<forall>y \<in> set xs. lo \<le> f y \<Longrightarrow> prefix (filter (\<lambda>x. lo \<le> f x \<and> f x \<le> hi) xs) xs"
proof (induction xs)
  case (Cons x xs)
  show ?case
  proof (cases "f x \<le> hi")
    case False
    with Cons.prems have "filter (\<lambda>x. lo \<le> f x \<and> f x \<le> hi) (x # xs) = []" by (auto simp: filter_empty_conv)
    then show ?thesis by simp
  qed (use Cons in auto)
qed simp

lemma filter_sublist_sorted:
  fixes f :: "'a \<Rightarrow> 'b::linorder"
  shows "sorted (map f xs) \<Longrightarrow> sublist (filter (\<lambda>x. lo \<le> f x \<and> f x \<le> hi) xs) xs"
proof (induction xs)
  case (Cons x xs)
  show ?case
  proof (cases "lo \<le> f x")
    case True
    with Cons.prems have "\<forall>y \<in> set (x # xs). lo \<le> f y" by auto
    with Cons.prems show ?thesis by (intro prefix_imp_sublist filter_prefix_sorted)
  next
    case False
    with Cons show ?thesis by (auto intro: sublist_Cons_right [THEN iffD2])
  qed
qed simp

lemma sorted_places: "sorted (map place (sort_key seatBefore xs))"
proof -
  have "sorted (map seatBefore (sort_key seatBefore xs))" by simp
  then show ?thesis unfolding sorted_map
    by (rule sorted_wrt_mono_rel [rotated]) (auto simp: seatBefore_def place_def less_eq_prod_def)
qed

lemma successively_run:
  "map place F = map (\<lambda>i. (r, c + int i)) [0..<n] \<Longrightarrow> successively neighbours F"
proof -
  assume m: "map place F = map (\<lambda>i. (r, c + int i)) [0..<n]"
  have p: "place (F ! i) = (r, c + int i)" if "i < length F" for i
  proof -
    have "length F = n" using arg_cong [OF m, of length] by simp
    with that have "map place F ! i = (r, c + int i)" unfolding m by simp
    with that show ?thesis by simp
  qed
  show ?thesis unfolding successively_conv_nth using p by (auto simp: neighbours_def place_def)
qed

lemma sideBySide_run:
  assumes "distinct (map place xs)" "sideBySide xs n"
  shows "\<exists>s. sublist s (sort_key seatBefore xs) \<and> length s = n \<and> successively neighbours s"
proof -
  from assms(2) obtain s :: seatCandidate where s: "\<forall>i < n. (sc_RowCode s, sc_ColCode s + int i) \<in> place ` set xs" unfolding sideBySide_def by blast
  let ?r = "sc_RowCode s" and ?c = "sc_ColCode s"
  let ?P = "\<lambda>x. (?r, ?c) \<le> place x \<and> place x \<le> (?r, ?c + int n - 1)"
  let ?F = "filter ?P (sort_key seatBefore xs)"
  have "sublist ?F (sort_key seatBefore xs)" by (rule filter_sublist_sorted [OF sorted_places])
  moreover have m: "map place ?F = map (\<lambda>i. (?r, ?c + int i)) [0..<n]"
  proof (rule sorted_distinct_set_unique)
    show "sorted (map place ?F)" using sorted_places [of xs] by (simp add: sorted_filter)
    have "mset (map place (sort_key seatBefore xs)) = mset (map place xs)" by simp
    then have "distinct (map place (sort_key seatBefore xs))" using assms(1) mset_eq_imp_distinct_iff by blast
    then show "distinct (map place ?F)" by (rule distinct_map_filter)
    show "sorted (map (\<lambda>i. (?r, ?c + int i)) [0..<n])"
      unfolding sorted_map by (rule sorted_wrt_mono_rel [OF _ sorted_wrt_upt]) auto
    show "distinct (map (\<lambda>i. (?r, ?c + int i)) [0..<n])" by (auto simp: distinct_map inj_on_def)
    show "set (map place ?F) = set (map (\<lambda>i. (?r, ?c + int i)) [0..<n])"
    proof (intro set_eqI iffI)
      fix p assume "p \<in> set (map place ?F)"
      then obtain x where x: "p = place x" "?P x" by auto
      then have "fst p = ?r" "?c \<le> snd p" "snd p \<le> ?c + int n - 1" by (auto simp: less_eq_prod_def place_def)
      then have "p = (?r, ?c + int (nat (snd p - ?c)))" "nat (snd p - ?c) < n" by (auto simp: prod_eq_iff)
      then show "p \<in> set (map (\<lambda>i. (?r, ?c + int i)) [0..<n])" by (auto simp: image_iff intro!: bexI [of _ "nat (snd p - ?c)"])
    next
      fix p assume "p \<in> set (map (\<lambda>i. (?r, ?c + int i)) [0..<n])"
      then obtain i where i: "i < n" "p = (?r, ?c + int i)" by auto
      with s obtain x where "x \<in> set xs" "place x = p" by (metis imageE)
      with i show "p \<in> set (map place ?F)" by (auto simp: less_eq_prod_def image_iff intro!: bexI [of _ x])
    qed
  qed
  moreover have "length ?F = n" using arg_cong [OF m, of length] by simp
  ultimately show ?thesis using successively_run [OF m] by blast
qed

text \<open>
  Automatic seat assignment returns exactly the requested number of different free seats when
  there are enough, in one row and side by side whenever such a group is free, and otherwise the
  first seats by row, column and id; it refuses a count that is not positive or exceeds the supply.
\<close>

theorem assignSeats_best:
  assumes "distinct (map place candidates)"
  shows "case assignSeats candidates cnt of
     Inl e \<Rightarrow> (cnt \<le> 0 \<and> e = Sentinel ErrInvalidParam)
         \<or> (int (length candidates) < cnt \<and> e = Sentinel ErrSeatInventoryInsufficient)
   | Inr seats \<Rightarrow> int (length seats) = cnt \<and> set seats \<subseteq> set candidates \<and> distinct seats
         \<and> (if sideBySide candidates (nat cnt) then successively neighbours seats
            else seats = take (nat cnt) (sort_key seatBefore candidates))"
proof (cases "cnt \<le> 0 \<or> int (length candidates) < cnt")
  case True
  then show ?thesis by (auto simp: assignSeats_def)
next
  case False
  let ?xs = "sort_key seatBefore candidates" and ?n = "nat cnt"
  have n: "0 < ?n" "?n \<le> length candidates" using False by auto
  have dis: "distinct ?xs" using assms by (simp add: distinct_map)
  have adj: "(\<lambda>p x. sc_RowCode x = sc_RowCode p \<and> sc_ColCode x = sc_ColCode p + 1) = neighbours"
    by (simp add: neighbours_def fun_eq_iff)
  have pick: "rowLoop sc_RowCode (\<lambda>r. firstConsecutiveSeats r ?n) ?xs = firstRun neighbours ?n ?xs"
    unfolding firstConsecutiveSeats_def
    using rowLoop_firstRun [of sc_RowCode "\<lambda>p x. sc_ColCode x = sc_ColCode p + 1" ?n ?xs] by (simp add: adj)
  show ?thesis
  proof (cases "firstRun neighbours ?n ?xs")
    case None
    have "\<not> sideBySide candidates ?n"
      using sideBySide_run [OF assms] firstRun_None [OF None n(1)] by blast
    then show ?thesis using False None n dis
      by (auto simp: assignSeats_def pick Let_def dest: in_set_takeD)
  next
    case (Some s)
    from firstRun_Some [OF this] have s: "sublist s ?xs" "length s = ?n" "successively neighbours s" by auto
    then obtain ps ss where "?xs = ps @ s @ ss" by (auto simp: sublist_def)
    with dis have "distinct s" "set s \<subseteq> set ?xs" by auto
    moreover have "sideBySide candidates ?n"
    proof -
      obtain h t where ht: "s = h # t" using s(2) n by (cases s) auto
      have "place (s ! i) = (sc_RowCode h, sc_ColCode h + int i)" if "i < length s" for i
        using that
      proof (induction i)
        case (Suc i)
        then have "neighbours (s ! i) (s ! Suc i)" using s(3) by (simp add: successively_conv_nth)
        with Suc show ?case by (simp add: neighbours_def place_def)
      qed (simp add: ht place_def)
      moreover have "s ! i \<in> set candidates" if "i < length s" for i
        using that \<open>set s \<subseteq> set ?xs\<close> nth_mem by fastforce
      ultimately show ?thesis unfolding sideBySide_def
        using s(2) ht by (intro bexI [of _ h]) (metis imageI, metis length_greater_0_conv list.discI nth_Cons_0)
    qed
    ultimately show ?thesis using False Some n s
      by (auto simp: assignSeats_def pick Let_def)
  qed
qed

definition demoSeats :: "seatCandidate list" where
  "demoSeats = map (\<lambda>(i, r, c). \<lparr>ID = i, sc_TicketCategoryID = 7, sc_RowCode = r, sc_ColCode = c, sc_Price = 100\<rparr>)
     [(4, 2, 6), (1, 1, 1), (2, 1, 3), (3, 2, 5)]"

theorem assignSeats_best_witness:
  "case assignSeats demoSeats 2 of Inl _ \<Rightarrow> False | Inr seats \<Rightarrow> length seats = 2 \<and> successively neighbours seats"
proof -
  have d: "distinct (map place demoSeats)" by (simp add: demoSeats_def place_def)
  have "sideBySide demoSeats 2"
    unfolding sideBySide_def by (auto simp: demoSeats_def place_def less_2_cases_iff image_iff)
  with assignSeats_best [OF d, of 2] show ?thesis by (auto simp: demoSeats_def split: sum.splits)
qed

end
