(* ===== verification/SeatTable.thy ===== *)
theory SeatTable
  imports SeatAssign
begin

text \<open>
  The seat table of \<open>services/program-rpc/internal/model/d_seat_model.go\<close>: a list of rows, the
  queries as filters in the order of their \<open>order by\<close>, the updates as changes of the rows their
  \<open>where\<close> clause selects. Prices are \<open>decimal(10,0)\<close> in the schema, so whole numbers. An update
  takes the time the source reads for \<open>edit_time\<close>.
\<close>

record DSeat =
  ds_Id :: int
  ds_ProgramId :: int
  ds_ShowTimeId :: int
  ds_TicketCategoryId :: int
  ds_RowCode :: int
  ds_ColCode :: int
  ds_SeatType :: int
  ds_Price :: int
  ds_SeatStatus :: int
  ds_FreezeToken :: "string option"
  ds_FreezeExpireTime :: "int option"
  ds_CreateTime :: int
  ds_EditTime :: int
  ds_Status :: int

type_synonym seatTable = "DSeat list"

definition seatStatusAvailable :: int where "seatStatusAvailable = 1"
definition seatStatusFrozen :: int where "seatStatusFrozen = 2"
definition seatStatusSold :: int where "seatStatusSold = 3"

lemmas seat_status_defs = seatStatusAvailable_def seatStatusFrozen_def seatStatusSold_def

definition byPlace :: "DSeat \<Rightarrow> int \<times> int \<times> int" where
  "byPlace s = (ds_RowCode s, ds_ColCode s, ds_Id s)"

definition byPrice :: "DSeat \<Rightarrow> int \<times> int \<times> int \<times> int" where
  "byPrice s = (ds_Price s, ds_RowCode s, ds_ColCode s, ds_Id s)"

section \<open>Queries\<close>

definition FindByProgramID :: "seatTable \<Rightarrow> int \<Rightarrow> DSeat list" where
  "FindByProgramID tb programID = sort_key byPrice (filter (\<lambda>s. ds_Status s = 1 \<and> ds_ProgramId s = programID) tb)"

definition FindByShowTimeId :: "seatTable \<Rightarrow> int \<Rightarrow> DSeat list" where
  "FindByShowTimeId tb showTimeID = sort_key byPrice (filter (\<lambda>s. ds_Status s = 1 \<and> ds_ShowTimeId s = showTimeID) tb)"

definition FindAvailableByProgramAndTicketCategoryForUpdate :: "seatTable \<Rightarrow> int \<Rightarrow> int \<Rightarrow> DSeat list" where
  "FindAvailableByProgramAndTicketCategoryForUpdate tb programId ticketCategoryId =
     sort_key byPlace (filter (\<lambda>s. ds_Status s = 1 \<and> ds_ProgramId s = programId
       \<and> ds_TicketCategoryId s = ticketCategoryId \<and> ds_SeatStatus s = 1) tb)"

definition FindByProgramAndTicketCategoryAndSeatStatus :: "seatTable \<Rightarrow> int \<Rightarrow> int \<Rightarrow> int \<Rightarrow> DSeat list" where
  "FindByProgramAndTicketCategoryAndSeatStatus tb programId ticketCategoryId seatStatus =
     sort_key byPlace (filter (\<lambda>s. ds_Status s = 1 \<and> ds_ProgramId s = programId
       \<and> ds_TicketCategoryId s = ticketCategoryId \<and> ds_SeatStatus s = seatStatus) tb)"

definition FindByShowTimeAndTicketCategoryAndSeatStatus :: "seatTable \<Rightarrow> int \<Rightarrow> int \<Rightarrow> int \<Rightarrow> DSeat list" where
  "FindByShowTimeAndTicketCategoryAndSeatStatus tb showTimeId ticketCategoryId seatStatus =
     sort_key byPlace (filter (\<lambda>s. ds_Status s = 1 \<and> ds_ShowTimeId s = showTimeId
       \<and> ds_TicketCategoryId s = ticketCategoryId \<and> ds_SeatStatus s = seatStatus) tb)"

text \<open>The grouped counts of available seats, by ascending category.\<close>

definition remainBy :: "DSeat list \<Rightarrow> (int \<times> int) list" where
  "remainBy seats = map (\<lambda>c. (c, int (length (filter (\<lambda>s. ds_TicketCategoryId s = c) seats))))
     (sorted_list_of_set (set (map ds_TicketCategoryId seats)))"

definition FindAvailableCountByProgramId :: "seatTable \<Rightarrow> int \<Rightarrow> (int \<times> int) list" where
  "FindAvailableCountByProgramId tb programId =
     remainBy (filter (\<lambda>s. ds_Status s = 1 \<and> ds_ProgramId s = programId \<and> ds_SeatStatus s = 1) tb)"

definition FindAvailableCountByShowTimeId :: "seatTable \<Rightarrow> int \<Rightarrow> (int \<times> int) list" where
  "FindAvailableCountByShowTimeId tb showTimeId =
     remainBy (filter (\<lambda>s. ds_Status s = 1 \<and> ds_ShowTimeId s = showTimeId \<and> ds_SeatStatus s = 1) tb)"

definition FindByFreezeToken :: "seatTable \<Rightarrow> string \<Rightarrow> DSeat list" where
  "FindByFreezeToken tb tok = sort_key byPlace (filter (\<lambda>s. ds_Status s = 1 \<and> ds_FreezeToken s = Some tok) tb)"

definition FindByProgramAndIDsForUpdate :: "seatTable \<Rightarrow> int \<Rightarrow> int list \<Rightarrow> DSeat list" where
  "FindByProgramAndIDsForUpdate tb programId seatIDs =
     (if seatIDs = [] then []
      else sort_key ds_Id (filter (\<lambda>s. ds_Status s = 1 \<and> ds_ProgramId s = programId \<and> ds_Id s \<in> set seatIDs) tb))"

definition FindByShowTimeAndIDsForUpdate :: "seatTable \<Rightarrow> int \<Rightarrow> int list \<Rightarrow> DSeat list" where
  "FindByShowTimeAndIDsForUpdate tb showTimeId seatIDs =
     (if seatIDs = [] then []
      else sort_key ds_Id (filter (\<lambda>s. ds_Status s = 1 \<and> ds_ShowTimeId s = showTimeId \<and> ds_Id s \<in> set seatIDs) tb))"

section \<open>Updates\<close>

definition updateWhere :: "('a \<Rightarrow> bool) \<Rightarrow> ('a \<Rightarrow> 'a) \<Rightarrow> 'a list \<Rightarrow> 'a list" where
  "updateWhere P f tb = map (\<lambda>s. if P s then f s else s) tb"

definition setFrozen :: "string \<Rightarrow> int \<Rightarrow> int \<Rightarrow> DSeat \<Rightarrow> DSeat" where
  "setFrozen tok expireTime now s = s\<lparr>ds_SeatStatus := 2, ds_FreezeToken := Some tok,
     ds_FreezeExpireTime := Some expireTime, ds_EditTime := now\<rparr>"

definition setSold :: "string \<Rightarrow> int \<Rightarrow> int \<Rightarrow> DSeat \<Rightarrow> DSeat" where
  "setSold tok expireTime now s = s\<lparr>ds_SeatStatus := 3, ds_FreezeToken := Some tok,
     ds_FreezeExpireTime := Some expireTime, ds_EditTime := now\<rparr>"

definition setAvailable :: "int \<Rightarrow> DSeat \<Rightarrow> DSeat" where
  "setAvailable now s = s\<lparr>ds_SeatStatus := 1, ds_FreezeToken := None, ds_FreezeExpireTime := None, ds_EditTime := now\<rparr>"

definition BatchFreezeByIDs :: "seatTable \<Rightarrow> int list \<Rightarrow> string \<Rightarrow> int \<Rightarrow> int \<Rightarrow> seatTable" where
  "BatchFreezeByIDs tb seatIDs tok expireTime now =
     updateWhere (\<lambda>s. ds_Status s = 1 \<and> ds_SeatStatus s = 1 \<and> ds_Id s \<in> set seatIDs) (setFrozen tok expireTime now) tb"

definition BatchFreezeByShowTimeAndIDs :: "seatTable \<Rightarrow> int \<Rightarrow> int list \<Rightarrow> string \<Rightarrow> int \<Rightarrow> int \<Rightarrow> seatTable" where
  "BatchFreezeByShowTimeAndIDs tb showTimeId seatIDs tok expireTime now =
     updateWhere (\<lambda>s. ds_Status s = 1 \<and> ds_ShowTimeId s = showTimeId \<and> ds_SeatStatus s = 1 \<and> ds_Id s \<in> set seatIDs)
       (setFrozen tok expireTime now) tb"

definition BatchConfirmByIDs :: "seatTable \<Rightarrow> int \<Rightarrow> int list \<Rightarrow> string \<Rightarrow> int \<Rightarrow> int \<Rightarrow> seatTable" where
  "BatchConfirmByIDs tb programId seatIDs tok expireTime now =
     updateWhere (\<lambda>s. ds_Status s = 1 \<and> ds_ProgramId s = programId \<and> ds_SeatStatus s = 2
       \<and> ds_FreezeToken s = Some tok \<and> ds_Id s \<in> set seatIDs) (setSold tok expireTime now) tb"

definition BatchConfirmByShowTimeAndIDs :: "seatTable \<Rightarrow> int \<Rightarrow> int list \<Rightarrow> string \<Rightarrow> int \<Rightarrow> int \<Rightarrow> seatTable" where
  "BatchConfirmByShowTimeAndIDs tb showTimeId seatIDs tok expireTime now =
     updateWhere (\<lambda>s. ds_Status s = 1 \<and> ds_ShowTimeId s = showTimeId \<and> ds_SeatStatus s = 2
       \<and> ds_FreezeToken s = Some tok \<and> ds_Id s \<in> set seatIDs) (setSold tok expireTime now) tb"

definition ReleaseByFreezeToken :: "seatTable \<Rightarrow> string \<Rightarrow> int \<Rightarrow> seatTable" where
  "ReleaseByFreezeToken tb tok now =
     updateWhere (\<lambda>s. ds_Status s = 1 \<and> ds_SeatStatus s = 2 \<and> ds_FreezeToken s = Some tok) (setAvailable now) tb"

definition ReleaseFrozenByShowTimeAndIDs :: "seatTable \<Rightarrow> int \<Rightarrow> int list \<Rightarrow> string \<Rightarrow> int \<Rightarrow> seatTable" where
  "ReleaseFrozenByShowTimeAndIDs tb showTimeId seatIDs tok now =
     updateWhere (\<lambda>s. ds_Status s = 1 \<and> ds_ShowTimeId s = showTimeId \<and> ds_SeatStatus s = 2
       \<and> ds_FreezeToken s = Some tok \<and> ds_Id s \<in> set seatIDs) (setAvailable now) tb"

definition ReleaseSoldByIDs :: "seatTable \<Rightarrow> int \<Rightarrow> int list \<Rightarrow> int \<Rightarrow> seatTable" where
  "ReleaseSoldByIDs tb programId seatIDs now =
     updateWhere (\<lambda>s. ds_Status s = 1 \<and> ds_ProgramId s = programId \<and> ds_SeatStatus s = 3 \<and> ds_Id s \<in> set seatIDs)
       (setAvailable now) tb"

definition ReleaseSoldByShowTimeAndIDs :: "seatTable \<Rightarrow> int \<Rightarrow> int list \<Rightarrow> int \<Rightarrow> seatTable" where
  "ReleaseSoldByShowTimeAndIDs tb showTimeId seatIDs now =
     updateWhere (\<lambda>s. ds_Status s = 1 \<and> ds_ShowTimeId s = showTimeId \<and> ds_SeatStatus s = 3 \<and> ds_Id s \<in> set seatIDs)
       (setAvailable now) tb"

definition ConfirmByFreezeToken :: "seatTable \<Rightarrow> string \<Rightarrow> int \<Rightarrow> seatTable" where
  "ConfirmByFreezeToken tb tok now =
     updateWhere (\<lambda>s. ds_Status s = 1 \<and> ds_SeatStatus s = 2 \<and> ds_FreezeToken s = Some tok)
       (\<lambda>s. s\<lparr>ds_SeatStatus := 3, ds_EditTime := now\<rparr>) tb"

end
