(* ===== verification/SeatLedger.thy ===== *)
theory SeatLedger
  imports SeatTable AttemptStore "HOL-Library.List_Lexorder" "HOL-Library.Char_ord"
begin

text \<open>
  The seat ledger of \<open>services/program-rpc/internal/seatcache\<close>: for one show time and ticket
  category a stock counter, the sorted sets of available and sold seats, and one sorted set of
  frozen seats per freeze token, with their expiry. The three scripts and the store methods that
  call them, the loader that fills the ledger from the seat table, and the member codec.
\<close>

section \<open>Seats and their encoding\<close>

record Seat =
  SeatID :: int
  st_TicketCategoryID :: int
  st_RowCode :: int
  st_ColCode :: int
  st_Price :: int

definition encodeSeatMember :: "Seat \<Rightarrow> string" where
  "encodeSeatMember seat = join_with ''|''
     [show_int (SeatID seat), show_int (st_TicketCategoryID seat), show_int (st_RowCode seat),
      show_int (st_ColCode seat), show_int (st_Price seat)]"

definition parseIntPart :: "string \<Rightarrow> int res" where
  "parseIntPart p = (case parse_int64 p of None \<Rightarrow> Inl (Other ''strconv.ParseInt'') | Some i \<Rightarrow> Inr i)"

definition decodeSeatMember :: "string \<Rightarrow> Seat res" where
  "decodeSeatMember member =
     (case split_on (CHR ''|'') member of
        [p0, p1, p2, p3, p4] \<Rightarrow>
          bind_res (parseIntPart p0) (\<lambda>seatID.
          bind_res (parseIntPart p1) (\<lambda>ticketCategoryID.
          bind_res (parseIntPart p2) (\<lambda>rowCode.
          bind_res (parseIntPart p3) (\<lambda>colCode.
          bind_res (parseIntPart p4) (\<lambda>price.
          Inr \<lparr>SeatID = seatID, st_TicketCategoryID = ticketCategoryID, st_RowCode = rowCode,
               st_ColCode = colCode, st_Price = price\<rparr>)))))
      | _ \<Rightarrow> Inl (Other ''invalid seat member''))"

definition seatSortScore :: "int \<Rightarrow> int \<Rightarrow> int" where
  "seatSortScore rowCode colCode = rowCode * 1000000 + colCode"

text \<open>
  The scripts' \<open>parseSeat\<close>, of which they use row and column. Every member of the ledger was
  written by \<open>encodeSeatMember\<close>; on other text the pattern fails, which is 0 here.
\<close>

definition memberRow :: "string \<Rightarrow> int" where
  "memberRow member = (case split_on (CHR ''|'') member of [_, _, r, _, _] \<Rightarrow> lua_num r | _ \<Rightarrow> 0)"

definition memberCol :: "string \<Rightarrow> int" where
  "memberCol member = (case split_on (CHR ''|'') member of [_, _, _, c, _] \<Rightarrow> lua_num c | _ \<Rightarrow> 0)"

definition memberScore :: "string \<Rightarrow> int" where
  "memberScore member = memberRow member * 1000000 + memberCol member"

section \<open>The ledger\<close>

text \<open>A sorted set: pairs of score and member, in the order of \<open>ZRANGE\<close>, each member once.\<close>

type_synonym zset = "(int \<times> string) list"

record zkey =
  zmembers :: zset
  zexpireAt :: "int option"

definition zlist :: "zkey option \<Rightarrow> zset" where
  "zlist k = (case k of None \<Rightarrow> [] | Some z \<Rightarrow> zmembers z)"

definition ZRANGE :: "zkey option \<Rightarrow> string list" where
  "ZRANGE k = map snd (zlist k)"

definition ZADD :: "int \<Rightarrow> string \<Rightarrow> zkey option \<Rightarrow> zkey option" where
  "ZADD score member k = Some \<lparr>zmembers = insort (score, member) (filter (\<lambda>p. snd p \<noteq> member) (zlist k)),
     zexpireAt = (case k of None \<Rightarrow> None | Some z \<Rightarrow> zexpireAt z)\<rparr>"

definition ZREM :: "string \<Rightarrow> zkey option \<Rightarrow> zkey option" where
  "ZREM member k = (case k of None \<Rightarrow> None
     | Some z \<Rightarrow> (let ms = filter (\<lambda>p. snd p \<noteq> member) (zmembers z) in if ms = [] then None else Some (z\<lparr>zmembers := ms\<rparr>)))"

definition ZEXPIRE :: "int \<Rightarrow> int \<Rightarrow> zkey option \<Rightarrow> zkey option" where
  "ZEXPIRE t seconds k = (if seconds > 0 then map_option (\<lambda>z. z\<lparr>zexpireAt := Some (t + 1000 * seconds)\<rparr>) k else k)"

text \<open>The keys of one show time and ticket category: the counter with its expiry, the sets, the loading mark.\<close>

record seatLedger =
  lstock :: "(int \<times> int option) option"
  lavailable :: "zkey option"
  lsold :: "zkey option"
  lfrozen :: "string \<Rightarrow> zkey option"
  lloading :: "int option"

definition notExpired :: "int \<Rightarrow> int option \<Rightarrow> bool" where
  "notExpired t d \<longleftrightarrow> (case d of None \<Rightarrow> True | Some x \<Rightarrow> t < x)"

definition zpurge :: "int \<Rightarrow> zkey option \<Rightarrow> zkey option" where
  "zpurge t k = (case k of None \<Rightarrow> None | Some z \<Rightarrow> if notExpired t (zexpireAt z) then Some z else None)"

definition lpurge :: "int \<Rightarrow> seatLedger \<Rightarrow> seatLedger" where
  "lpurge t l = \<lparr>lstock = (case lstock l of None \<Rightarrow> None | Some (n, d) \<Rightarrow> if notExpired t d then Some (n, d) else None),
     lavailable = zpurge t (lavailable l), lsold = zpurge t (lsold l), lfrozen = (\<lambda>tok. zpurge t (lfrozen l tok)),
     lloading = (if notExpired t (lloading l) then lloading l else None)\<rparr>"

definition SEXPIRE :: "int \<Rightarrow> int \<Rightarrow> (int \<times> int option) option \<Rightarrow> (int \<times> int option) option" where
  "SEXPIRE t seconds k = (if seconds > 0 then map_option (\<lambda>(n, _). (n, Some (t + 1000 * seconds))) k else k)"

definition SINCRBY :: "int \<Rightarrow> (int \<times> int option) option \<Rightarrow> (int \<times> int option) option" where
  "SINCRBY d k = (case k of None \<Rightarrow> Some (d, None) | Some (n, e) \<Rightarrow> Some (n + d, e))"

section \<open>The scripts\<close>

text \<open>The seats the freezing script selects from the available members, in their order.\<close>

definition luaAdjacent :: "string \<Rightarrow> string \<Rightarrow> bool" where
  "luaAdjacent p x \<longleftrightarrow> memberRow x = memberRow p \<and> memberCol x = memberCol p + 1"

definition selectSeats :: "int \<Rightarrow> string list \<Rightarrow> string list" where
  "selectSeats cnt availableSeats =
     (case rowLoop memberRow (firstRun luaAdjacent (nat cnt)) availableSeats of
        Some seats \<Rightarrow> seats
      | None \<Rightarrow> take (nat cnt) availableSeats)"

definition freezeAutoAssignedSeatsScript :: "int \<Rightarrow> string \<Rightarrow> int \<Rightarrow> int \<Rightarrow> int \<Rightarrow> seatLedger \<Rightarrow> evalv list \<times> seatLedger" where
  "freezeAutoAssignedSeatsScript t tok cnt stockTTL seatTTL l =
     (case lstock l of
        None \<Rightarrow> ([VInt (- 1)], l)
      | Some (availableCount, _) \<Rightarrow>
        (if availableCount < cnt then ([VInt 0], l)
         else
           let existingFrozen = ZRANGE (lfrozen l tok) in
           if existingFrozen \<noteq> [] then
             (VInt 1 # map VStr existingFrozen,
              l\<lparr>lstock := SEXPIRE t stockTTL (lstock l),
                lfrozen := (lfrozen l)(tok := ZEXPIRE t seatTTL (lfrozen l tok)),
                lavailable := ZEXPIRE t seatTTL (lavailable l)\<rparr>)
           else
             let availableSeats = ZRANGE (lavailable l) in
             if int (length availableSeats) < cnt then ([VInt 0], l)
             else
               let selectedSeats = selectSeats cnt availableSeats;
                   available' = fold ZREM selectedSeats (lavailable l);
                   frozen' = fold (\<lambda>member. ZADD (memberScore member) member) selectedSeats (lfrozen l tok)
               in (VInt 1 # map VStr selectedSeats,
                   l\<lparr>lstock := SEXPIRE t stockTTL (SINCRBY (- cnt) (lstock l)),
                     lfrozen := (lfrozen l)(tok := ZEXPIRE t seatTTL frozen'),
                     lavailable := ZEXPIRE t seatTTL available'\<rparr>)))"

definition releaseFrozenSeatsScript :: "int \<Rightarrow> string \<Rightarrow> int \<Rightarrow> int \<Rightarrow> seatLedger \<Rightarrow> evalv \<times> seatLedger" where
  "releaseFrozenSeatsScript t tok stockTTL seatTTL l =
     (if lstock l = None then (VInt (- 1), l)
      else
        let frozenSeats = ZRANGE (lfrozen l tok) in
        if frozenSeats = [] then
          (VInt 1, l\<lparr>lstock := SEXPIRE t stockTTL (lstock l), lavailable := ZEXPIRE t seatTTL (lavailable l)\<rparr>)
        else
          (VInt 1, l\<lparr>lavailable := ZEXPIRE t seatTTL
                        (fold (\<lambda>member. ZADD (memberScore member) member) frozenSeats (lavailable l)),
                     lfrozen := (lfrozen l)(tok := None),
                     lstock := SEXPIRE t stockTTL (SINCRBY (int (length frozenSeats)) (lstock l))\<rparr>))"

definition confirmFrozenSeatsScript :: "int \<Rightarrow> string \<Rightarrow> int \<Rightarrow> int \<Rightarrow> seatLedger \<Rightarrow> evalv \<times> seatLedger" where
  "confirmFrozenSeatsScript t tok stockTTL seatTTL l =
     (if lstock l = None then (VInt (- 1), l)
      else
        let frozenSeats = ZRANGE (lfrozen l tok) in
        if frozenSeats = [] then
          (VInt 1, l\<lparr>lstock := SEXPIRE t stockTTL (lstock l), lsold := ZEXPIRE t seatTTL (lsold l)\<rparr>)
        else
          (VInt 1, l\<lparr>lsold := ZEXPIRE t seatTTL
                        (fold (\<lambda>member. ZADD (memberScore member) member) frozenSeats (lsold l)),
                     lfrozen := (lfrozen l)(tok := None),
                     lstock := SEXPIRE t stockTTL (lstock l)\<rparr>))"

section \<open>The store\<close>

record SeatStockStore =
  ss_stockTTLSeconds :: int
  ss_seatTTLSeconds :: int
  ss_loadingCooldownSeconds :: int

definition durationSeconds :: "int \<Rightarrow> int \<Rightarrow> int" where
  "durationSeconds value defaultValue =
     (let v = (if value \<le> 0 then defaultValue else value);
          seconds = tdiv v 1000000000;
          seconds' = (if v mod 1000000000 \<noteq> 0 then seconds + 1 else seconds)
      in if seconds' \<le> 0 then 1 else seconds')"

definition NewSeatStockStore :: "int \<Rightarrow> int \<Rightarrow> int \<Rightarrow> SeatStockStore" where
  "NewSeatStockStore cfgStockTTL cfgSeatTTL cfgLoadingCooldown =
     \<lparr>ss_stockTTLSeconds = durationSeconds cfgStockTTL (4 * 3600 * 1000000000),
      ss_seatTTLSeconds = durationSeconds cfgSeatTTL (4 * 3600 * 1000000000),
      ss_loadingCooldownSeconds = durationSeconds cfgLoadingCooldown (3 * 1000000000)\<rparr>"

fun decodeAll :: "string list \<Rightarrow> Seat list res" where
  "decodeAll [] = Inr []"
| "decodeAll (v # vs) =
     bind_res (decodeSeatMember v) (\<lambda>seat. bind_res (decodeAll vs) (\<lambda>seats. Inr (seat # seats)))"

definition listSeats :: "zkey option \<Rightarrow> Seat list res" where
  "listSeats k = decodeAll (ZRANGE k)"

definition FrozenSeats :: "int \<Rightarrow> string \<Rightarrow> seatLedger \<Rightarrow> Seat list res" where
  "FrozenSeats t tok l = listSeats (lfrozen (lpurge t l) tok)"

text \<open>
  \<open>Schedule\<close> sets the loading mark unless it is set; the goroutine it starts is the separate step
  \<open>load\<close> below.
\<close>

definition Schedule :: "SeatStockStore \<Rightarrow> int \<Rightarrow> seatLedger \<Rightarrow> bool \<times> seatLedger" where
  "Schedule s t l =
     (if lloading l \<noteq> None then (False, l)
      else (True, l\<lparr>lloading := Some (t + 1000 * ss_loadingCooldownSeconds s)\<rparr>))"

definition parseEvalStrings :: "evalv list \<Rightarrow> string list" where
  "parseEvalStrings vs = map (\<lambda>v. case v of VStr x \<Rightarrow> x | VInt i \<Rightarrow> show_int i) vs"

definition FreezeAutoAssignedSeats :: "SeatStockStore \<Rightarrow> int \<Rightarrow> fault \<Rightarrow> string \<Rightarrow> int \<Rightarrow> seatLedger \<Rightarrow> Seat list res \<times> seatLedger" where
  "FreezeAutoAssignedSeats s t flt tok cnt l =
     (case eval_ctx flt (\<lambda>r. case freezeAutoAssignedSeatsScript t tok cnt (ss_stockTTLSeconds s) (ss_seatTTLSeconds s) r of
             (vs, r') \<Rightarrow> (Inr vs, r')) (lpurge t l) of
        (Inl e, l') \<Rightarrow> (Inl e, l')
      | (Inr vs, l') \<Rightarrow>
        (case parseEvalStrings vs of
           [] \<Rightarrow> (Inl (Other ''unexpected empty freeze seat result''), l')
         | v # rest \<Rightarrow>
           (case parse_int64 v of
              None \<Rightarrow> (Inl (Other ''strconv.ParseInt''), l')
            | Some code \<Rightarrow>
              (if code = 1 then (decodeAll rest, l')
               else if code = 0 then (Inl (Sentinel ErrSeatInventoryInsufficient), l')
               else if code = - 1 then (Inl (Sentinel ErrProgramSeatLedgerNotReady), snd (Schedule s t l'))
               else (Inl (Other ''unexpected freeze seat result''), l')))))"

text \<open>The reply of the other two scripts.\<close>

definition finishSeats :: "SeatStockStore \<Rightarrow> int \<Rightarrow> fault \<Rightarrow> (seatLedger \<Rightarrow> evalv \<times> seatLedger) \<Rightarrow> seatLedger \<Rightarrow> unit res \<times> seatLedger" where
  "finishSeats s t flt script l =
     (case eval_ctx flt (\<lambda>r. case script r of (v, r') \<Rightarrow> (Inr v, r')) (lpurge t l) of
        (Inl e, l') \<Rightarrow> (Inl e, l')
      | (Inr v, l') \<Rightarrow>
        (case parseEvalInt64 v of
           Inl e \<Rightarrow> (Inl e, l')
         | Inr code \<Rightarrow>
           (if code = - 1 then (Inl (Sentinel ErrProgramSeatLedgerNotReady), snd (Schedule s t l'))
            else if code \<noteq> 1 then (Inl (Other ''unexpected frozen seat result''), l')
            else (Inr (), l'))))"

definition ReleaseFrozenSeats :: "SeatStockStore \<Rightarrow> int \<Rightarrow> fault \<Rightarrow> string \<Rightarrow> seatLedger \<Rightarrow> unit res \<times> seatLedger" where
  "ReleaseFrozenSeats s t flt tok l =
     finishSeats s t flt (releaseFrozenSeatsScript t tok (ss_stockTTLSeconds s) (ss_seatTTLSeconds s)) l"

definition ConfirmFrozenSeats :: "SeatStockStore \<Rightarrow> int \<Rightarrow> fault \<Rightarrow> string \<Rightarrow> seatLedger \<Rightarrow> unit res \<times> seatLedger" where
  "ConfirmFrozenSeats s t flt tok l =
     finishSeats s t flt (confirmFrozenSeatsScript t tok (ss_stockTTLSeconds s) (ss_seatTTLSeconds s)) l"

definition Clear :: "seatLedger \<Rightarrow> seatLedger" where
  "Clear l = l\<lparr>lstock := None, lavailable := None, lsold := None, lfrozen := (\<lambda>_. None), lloading := None\<rparr>"

section \<open>Loading from the seat table\<close>

definition newSeatFromModel :: "DSeat \<Rightarrow> Seat" where
  "newSeatFromModel seat = \<lparr>SeatID = ds_Id seat, st_TicketCategoryID = ds_TicketCategoryId seat,
     st_RowCode = ds_RowCode seat, st_ColCode = ds_ColCode seat, st_Price = ds_Price seat\<rparr>"

definition addSeat :: "SeatStockStore \<Rightarrow> int \<Rightarrow> Seat \<Rightarrow> zkey option \<Rightarrow> zkey option" where
  "addSeat s t seat k =
     ZEXPIRE t (ss_seatTTLSeconds s) (ZADD (seatSortScore (st_RowCode seat) (st_ColCode seat)) (encodeSeatMember seat) k)"

definition addSeats :: "SeatStockStore \<Rightarrow> int \<Rightarrow> DSeat list \<Rightarrow> zkey option" where
  "addSeats s t seats = fold (\<lambda>seat. addSeat s t (newSeatFromModel seat)) seats None"

definition loadWithContext :: "SeatStockStore \<Rightarrow> int \<Rightarrow> seatTable \<Rightarrow> int \<Rightarrow> int \<Rightarrow> seatLedger \<Rightarrow> seatLedger" where
  "loadWithContext s t tb showTimeID ticketCategoryID l =
     (let availableSeats = FindByShowTimeAndTicketCategoryAndSeatStatus tb showTimeID ticketCategoryID seatStatusAvailable;
          frozenSeats = FindByShowTimeAndTicketCategoryAndSeatStatus tb showTimeID ticketCategoryID seatStatusFrozen;
          soldSeats = FindByShowTimeAndTicketCategoryAndSeatStatus tb showTimeID ticketCategoryID seatStatusSold;
          l0 = Clear l
      in l0\<lparr>lstock := SEXPIRE t (ss_stockTTLSeconds s) (Some (int (length availableSeats), None)),
            lavailable := addSeats s t availableSeats,
            lsold := addSeats s t soldSeats,
            lfrozen := (\<lambda>tok. if tok = [] then None
                        else addSeats s t (filter (\<lambda>seat. ds_FreezeToken seat = Some tok) frozenSeats))\<rparr>)"

definition load :: "SeatStockStore \<Rightarrow> int \<Rightarrow> seatTable \<Rightarrow> int \<Rightarrow> int \<Rightarrow> seatLedger \<Rightarrow> seatLedger" where
  "load s t tb showTimeID ticketCategoryID l =
     (loadWithContext s t tb showTimeID ticketCategoryID l)\<lparr>lloading := None\<rparr>"

definition PrimeFromDB :: "SeatStockStore \<Rightarrow> int \<Rightarrow> seatTable \<Rightarrow> int \<Rightarrow> int \<Rightarrow> seatLedger \<Rightarrow> unit res \<times> seatLedger" where
  "PrimeFromDB s t tb showTimeID ticketCategoryID l = (Inr (), loadWithContext s t tb showTimeID ticketCategoryID l)"

section \<open>Sorted sets as multisets of members\<close>

lemma mset_insort: "mset (insort x xs) = add_mset x (mset xs)"
  by (induction xs) (auto simp: add_mset_commute)

lemma ZRANGE_None [simp]: "ZRANGE None = []"
  by (simp add: ZRANGE_def zlist_def)

lemma ZRANGE_ZEXPIRE [simp]: "ZRANGE (ZEXPIRE t s k) = ZRANGE k"
  by (cases k) (simp_all add: ZEXPIRE_def ZRANGE_def zlist_def)

lemma mset_ZADD: "m \<notin> set (ZRANGE k) \<Longrightarrow> mset (ZRANGE (ZADD sc m k)) = add_mset m (mset (ZRANGE k))"
proof -
  assume "m \<notin> set (ZRANGE k)"
  then have "filter (\<lambda>p. snd p \<noteq> m) (zlist k) = zlist k" by (auto simp: ZRANGE_def filter_id_conv)
  then show ?thesis by (simp add: ZRANGE_def ZADD_def zlist_def flip: mset_map) (simp add: mset_insort)
qed

lemma ZRANGE_ZREM: "ZRANGE (ZREM m k) = filter (\<lambda>x. x \<noteq> m) (ZRANGE k)"
  by (cases k) (auto simp: ZREM_def ZRANGE_def zlist_def Let_def filter_map comp_def filter_empty_conv)

lemma ZRANGE_fold_ZREM: "ZRANGE (fold ZREM ms k) = filter (\<lambda>x. x \<notin> set ms) (ZRANGE k)"
proof (induction ms arbitrary: k)
  case (Cons m ms)
  then show ?case by (auto simp: ZRANGE_ZREM intro: filter_cong)
qed simp

lemma mset_fold_ZADD:
  "distinct ms \<Longrightarrow> set ms \<inter> set (ZRANGE k) = {} \<Longrightarrow>
     mset (ZRANGE (fold (\<lambda>m. ZADD (f m) m) ms k)) = mset (ZRANGE k) + mset ms"
proof (induction ms arbitrary: k)
  case (Cons m ms)
  then have m: "mset (ZRANGE (ZADD (f m) m k)) = add_mset m (mset (ZRANGE k))" by (intro mset_ZADD) auto
  then have "set (ZRANGE (ZADD (f m) m k)) = insert m (set (ZRANGE k))" by (metis set_mset_add_mset_insert set_mset_mset)
  with Cons m show ?case by auto
qed simp

lemma mset_split_filter:
  assumes "distinct xs" "distinct ys" "set ys \<subseteq> set xs"
  shows "mset xs = mset (filter (\<lambda>x. x \<notin> set ys) xs) + mset ys"
proof -
  have "mset (filter (\<lambda>x. x \<in> set ys) xs) = mset ys"
    using assms by (intro set_eq_iff_mset_eq_distinct [THEN iffD1]) auto
  then show ?thesis by (metis mset_filter multiset_partition union_commute)
qed

lemma selectSeats_props:
  assumes "0 < cnt" "cnt \<le> int (length xs)" "distinct xs"
  shows "int (length (selectSeats cnt xs)) = cnt \<and> distinct (selectSeats cnt xs) \<and> set (selectSeats cnt xs) \<subseteq> set xs"
proof (cases "rowLoop memberRow (firstRun luaAdjacent (nat cnt)) xs")
  case None
  then show ?thesis using assms by (auto simp: selectSeats_def dest: in_set_takeD)
next
  case (Some s)
  then have "sublist s xs \<and> length s = nat cnt" unfolding rowLoop_firstRun using firstRun_Some by blast
  then show ?thesis using Some assms by (auto simp: selectSeats_def sublist_def)
qed

section \<open>Where the seats are\<close>

definition frozenMembers :: "string set \<Rightarrow> seatLedger \<Rightarrow> string multiset" where
  "frozenMembers toks l = (\<Sum>tok \<in> toks. mset (ZRANGE (lfrozen l tok)))"

definition heldMembers :: "string set \<Rightarrow> seatLedger \<Rightarrow> string multiset" where
  "heldMembers toks l = mset (ZRANGE (lsold l)) + frozenMembers toks l"

definition allMembers :: "string set \<Rightarrow> seatLedger \<Rightarrow> string multiset" where
  "allMembers toks l = mset (ZRANGE (lavailable l)) + heldMembers toks l"

text \<open>
  A ready ledger: the counter is the number of available seats, seats are frozen only under the
  tokens in \<open>toks\<close>, and no seat is in two places.
\<close>

definition ledgerInv :: "string set \<Rightarrow> seatLedger \<Rightarrow> bool" where
  "ledgerInv toks l \<longleftrightarrow> finite toks \<and> (\<forall>tok. tok \<notin> toks \<longrightarrow> lfrozen l tok = None)
     \<and> map_option fst (lstock l) = Some (int (length (ZRANGE (lavailable l))))
     \<and> (\<forall>m. count (allMembers toks l) m \<le> 1)"

definition stockOf :: "seatLedger \<Rightarrow> int" where
  "stockOf l = (case lstock l of None \<Rightarrow> 0 | Some (n, _) \<Rightarrow> n)"

definition heldCount :: "string set \<Rightarrow> seatLedger \<Rightarrow> int" where
  "heldCount toks l = int (size (heldMembers toks l))"

inductive ledgerStep :: "SeatStockStore \<Rightarrow> string set \<Rightarrow> seatLedger \<Rightarrow> seatLedger \<Rightarrow> bool"
  for s :: SeatStockStore and toks :: "string set" where
  step_freeze: "lpurge t l = l \<Longrightarrow> tok \<in> toks \<Longrightarrow> 0 < cnt
    \<Longrightarrow> ledgerStep s toks l (snd (FreezeAutoAssignedSeats s t flt tok cnt l))"
| step_release: "lpurge t l = l \<Longrightarrow> ledgerStep s toks l (snd (ReleaseFrozenSeats s t flt tok l))"
| step_confirm: "lpurge t l = l \<Longrightarrow> ledgerStep s toks l (snd (ConfirmFrozenSeats s t flt tok l))"

lemma count_le_1_distinct: "(\<forall>m. count (mset xs) m \<le> 1) \<longleftrightarrow> distinct xs"
proof
  assume le: "\<forall>m. count (mset xs) m \<le> 1"
  have "count (mset xs) a = (if a \<in> set xs then 1 else 0)" for a
    using spec [OF le, of a] count_mset_0_iff [of xs a] by (auto simp: le_Suc_eq)
  then show "distinct xs" by (simp add: distinct_count_atmost_1)
qed (simp add: distinct_count_atmost_1)

lemma frozenMembers_remove:
  assumes "finite toks" "tok \<in> toks"
  shows "frozenMembers toks l = mset (ZRANGE (lfrozen l tok)) + frozenMembers (toks - {tok}) l"
  using assms by (simp add: frozenMembers_def sum.remove)

lemma frozenMembers_other:
  "tok \<notin> toks \<Longrightarrow> frozenMembers toks (l\<lparr>lfrozen := (lfrozen l)(tok := k)\<rparr>) = frozenMembers toks l"
  by (auto simp: frozenMembers_def intro!: sum.cong)

lemma frozenMembers_cong: "lfrozen l' = lfrozen l \<Longrightarrow> frozenMembers toks l' = frozenMembers toks l"
  by (simp add: frozenMembers_def)

lemma frozenMembers_update:
  assumes "finite toks" "tok \<in> toks" "lfrozen l' = (lfrozen l)(tok := k)"
  shows "frozenMembers toks l' + mset (ZRANGE (lfrozen l tok)) = frozenMembers toks l + mset (ZRANGE k)"
proof -
  have "frozenMembers (toks - {tok}) l' = frozenMembers (toks - {tok}) l"
    unfolding frozenMembers_def assms(3) by (intro sum.cong) auto
  then show ?thesis
    using frozenMembers_remove [OF assms(1,2), of l] frozenMembers_remove [OF assms(1,2), of l'] assms(3) by simp
qed

text \<open>What distinctness of all members says of two places.\<close>

lemma places_disjoint:
  assumes "\<forall>m. count (A + B :: 'a multiset) m \<le> 1"
  shows "set_mset A \<inter> set_mset B = {}"
proof (rule ccontr)
  assume "set_mset A \<inter> set_mset B \<noteq> {}"
  then obtain m where "m \<in># A" "m \<in># B" by auto
  then have "1 \<le> count A m" "1 \<le> count B m" by (simp_all add: Suc_le_eq)
  with spec [OF assms, of m] show False by simp
qed

lemma places_each:
  assumes "\<forall>m. count (A + B :: 'a multiset) m \<le> 1"
  shows "\<forall>m. count A m \<le> 1" "\<forall>m. count B m \<le> 1"
  using assms by (metis add_leE count_union)+

lemma ledgerInv_keep:
  assumes "ledgerInv toks l" "\<forall>tok. tok \<notin> toks \<longrightarrow> lfrozen l' tok = None"
    and "map_option fst (lstock l') = Some (int (length (ZRANGE (lavailable l'))))"
    and "allMembers toks l' = allMembers toks l"
  shows "ledgerInv toks l'"
  using assms by (simp add: ledgerInv_def)

section \<open>The scripts keep every seat\<close>

lemma stock_keep [simp]: "map_option fst (SEXPIRE t s k) = map_option fst k"
  by (cases k) (auto simp: SEXPIRE_def)

lemma stock_incr [simp]: "map_option fst (SINCRBY d k) = Some (d + (case k of None \<Rightarrow> 0 | Some (n, _) \<Rightarrow> n))"
  by (cases k) (auto simp: SINCRBY_def)

lemma ledgerInv_stock: "ledgerInv toks l \<Longrightarrow> \<exists>d. lstock l = Some (int (length (ZRANGE (lavailable l))), d)"
  by (auto simp: ledgerInv_def)

lemma freeze_keeps:
  assumes inv: "ledgerInv toks l" and tok: "tok \<in> toks" and cnt: "0 < cnt"
  shows "ledgerInv toks (snd (freezeAutoAssignedSeatsScript t tok cnt sttl zttl l))
    \<and> allMembers toks (snd (freezeAutoAssignedSeatsScript t tok cnt sttl zttl l)) = allMembers toks l"
proof -
  let ?av = "ZRANGE (lavailable l)" and ?l' = "snd (freezeAutoAssignedSeatsScript t tok cnt sttl zttl l)"
  obtain d where st: "lstock l = Some (int (length ?av), d)" using ledgerInv_stock [OF inv] by blast
  have fin: "finite toks" and fr: "\<forall>tok. tok \<notin> toks \<longrightarrow> lfrozen l tok = None"
    and one: "\<forall>m. count (allMembers toks l) m \<le> 1" using inv by (auto simp: ledgerInv_def)
  have dav: "distinct ?av" using places_each(1) [OF one [unfolded allMembers_def]] count_le_1_distinct by blast
  consider (short) "int (length ?av) < cnt" | (again) "cnt \<le> int (length ?av)" "ZRANGE (lfrozen l tok) \<noteq> []"
    | (take) "cnt \<le> int (length ?av)" "ZRANGE (lfrozen l tok) = []" by linarith
  then show ?thesis
  proof cases
    case short
    then have "?l' = l" using st by (simp add: freezeAutoAssignedSeatsScript_def)
    with inv show ?thesis by simp
  next
    case again
    let ?n = "l\<lparr>lstock := SEXPIRE t sttl (lstock l), lfrozen := (lfrozen l)(tok := ZEXPIRE t zttl (lfrozen l tok)),
      lavailable := ZEXPIRE t zttl (lavailable l)\<rparr>"
    have eq: "?l' = ?n" using again st by (simp add: freezeAutoAssignedSeatsScript_def Let_def)
    have "frozenMembers toks ?n + mset (ZRANGE (lfrozen l tok)) = frozenMembers toks l + mset (ZRANGE (ZEXPIRE t zttl (lfrozen l tok)))"
      by (rule frozenMembers_update [OF fin tok]) simp
    then have m: "allMembers toks ?n = allMembers toks l" by (simp add: allMembers_def heldMembers_def)
    have "ledgerInv toks ?n" by (rule ledgerInv_keep [OF inv _ _ m]) (use fr st tok in auto)
    with m eq show ?thesis by simp
  next
    case take
    let ?sel = "selectSeats cnt ?av"
    let ?fz = "fold (\<lambda>m. ZADD (memberScore m) m) ?sel (lfrozen l tok)"
    let ?n = "l\<lparr>lstock := SEXPIRE t sttl (SINCRBY (- cnt) (lstock l)), lfrozen := (lfrozen l)(tok := ZEXPIRE t zttl ?fz),
      lavailable := ZEXPIRE t zttl (fold ZREM ?sel (lavailable l))\<rparr>"
    have eq: "?l' = ?n" using take st by (simp add: freezeAutoAssignedSeatsScript_def Let_def)
    have sel: "int (length ?sel) = cnt" "distinct ?sel" "set ?sel \<subseteq> set ?av"
      using selectSeats_props [OF cnt take(1) dav] by auto
    have av: "mset ?av = mset (ZRANGE (lavailable ?n)) + mset ?sel"
      using mset_split_filter [OF dav sel(2,3)] by (simp add: ZRANGE_fold_ZREM)
    have "mset (ZRANGE ?fz) = mset ?sel" using mset_fold_ZADD [of ?sel "lfrozen l tok" memberScore] sel(2) take(2) by simp
    then have "frozenMembers toks ?n = frozenMembers toks l + mset ?sel"
      using frozenMembers_update [OF fin tok, of ?n l "ZEXPIRE t zttl ?fz"] take(2) by simp
    with av have m: "allMembers toks ?n = allMembers toks l" by (simp add: allMembers_def heldMembers_def)
    have "size (mset ?av) = size (mset (ZRANGE (lavailable ?n))) + length ?sel"
      using arg_cong [OF av, of size] by (simp only: size_union size_mset)
    then have "int (length ?av) - cnt = int (length (ZRANGE (lavailable ?n)))" using sel(1) by simp
    then have "ledgerInv toks ?n" by (intro ledgerInv_keep [OF inv _ _ m]) (use fr st tok in auto)
    with m eq show ?thesis by simp
  qed
qed

text \<open>The seats of a token are different and in no other set, so adding them to another set adds each.\<close>

lemma frozen_apart:
  assumes inv: "ledgerInv toks l" and tok: "tok \<in> toks"
  shows "distinct (ZRANGE (lfrozen l tok))" "set (ZRANGE (lfrozen l tok)) \<inter> set (ZRANGE (lavailable l)) = {}"
    "set (ZRANGE (lfrozen l tok)) \<inter> set (ZRANGE (lsold l)) = {}"
proof -
  let ?F = "mset (ZRANGE (lfrozen l tok))" and ?A = "mset (ZRANGE (lavailable l))" and ?S = "mset (ZRANGE (lsold l))"
  let ?R = "frozenMembers (toks - {tok}) l"
  have fin: "finite toks" and one: "\<forall>m. count (allMembers toks l) m \<le> 1" using inv by (auto simp: ledgerInv_def)
  have eq: "allMembers toks l = ?F + (?A + (?S + ?R))" "allMembers toks l = (?F + ?A) + (?S + ?R)"
    "allMembers toks l = (?F + ?S) + (?A + ?R)"
    using frozenMembers_remove [OF fin tok, of l] by (simp_all add: allMembers_def heldMembers_def ac_simps)
  show "distinct (ZRANGE (lfrozen l tok))" using places_each(1) [OF one [unfolded eq(1)]] count_le_1_distinct by blast
  show "set (ZRANGE (lfrozen l tok)) \<inter> set (ZRANGE (lavailable l)) = {}"
    using places_disjoint [OF places_each(1) [OF one [unfolded eq(2)]]] by simp
  show "set (ZRANGE (lfrozen l tok)) \<inter> set (ZRANGE (lsold l)) = {}"
    using places_disjoint [OF places_each(1) [OF one [unfolded eq(3)]]] by simp
qed

lemma not_frozen: "ledgerInv toks l \<Longrightarrow> tok \<notin> toks \<Longrightarrow> ZRANGE (lfrozen l tok) = []"
  by (simp add: ledgerInv_def)

lemma touch_keeps:
  assumes "ledgerInv toks l" "lfrozen l' = lfrozen l" "ZRANGE (lavailable l') = ZRANGE (lavailable l)"
    "ZRANGE (lsold l') = ZRANGE (lsold l)" "map_option fst (lstock l') = map_option fst (lstock l)"
  shows "ledgerInv toks l' \<and> allMembers toks l' = allMembers toks l"
proof -
  have m: "allMembers toks l' = allMembers toks l"
    using assms(2-4) by (simp add: allMembers_def heldMembers_def frozenMembers_def)
  moreover have "ledgerInv toks l'"
    by (rule ledgerInv_keep [OF assms(1) _ _ m]) (use assms in \<open>auto simp: ledgerInv_def\<close>)
  ultimately show ?thesis by simp
qed

lemma release_keeps:
  assumes inv: "ledgerInv toks l"
  shows "ledgerInv toks (snd (releaseFrozenSeatsScript t tok sttl zttl l))
    \<and> allMembers toks (snd (releaseFrozenSeatsScript t tok sttl zttl l)) = allMembers toks l"
proof (cases "ZRANGE (lfrozen l tok) = []")
  case True
  then show ?thesis using ledgerInv_stock [OF inv]
    by (intro touch_keeps [OF inv]) (auto simp: releaseFrozenSeatsScript_def Let_def)
next
  case False
  let ?f = "ZRANGE (lfrozen l tok)" and ?l' = "snd (releaseFrozenSeatsScript t tok sttl zttl l)"
  have tok: "tok \<in> toks" using False not_frozen [OF inv] by blast
  obtain d where st: "lstock l = Some (int (length (ZRANGE (lavailable l))), d)" using ledgerInv_stock [OF inv] by blast
  have fin: "finite toks" and fr: "\<forall>tok. tok \<notin> toks \<longrightarrow> lfrozen l tok = None" using inv by (auto simp: ledgerInv_def)
  let ?n = "l\<lparr>lavailable := ZEXPIRE t zttl (fold (\<lambda>m. ZADD (memberScore m) m) ?f (lavailable l)),
     lfrozen := (lfrozen l)(tok := None), lstock := SEXPIRE t sttl (SINCRBY (int (length ?f)) (lstock l))\<rparr>"
  have eq: "?l' = ?n" using False st by (simp add: releaseFrozenSeatsScript_def Let_def)
  have av: "mset (ZRANGE (lavailable ?n)) = mset (ZRANGE (lavailable l)) + mset ?f"
    using mset_fold_ZADD [OF frozen_apart(1,2) [OF inv tok]] by simp
  moreover have "frozenMembers toks ?n + mset ?f = frozenMembers toks l"
    using frozenMembers_update [OF fin tok, of ?n l None] by simp
  ultimately have m: "allMembers toks ?n = allMembers toks l" by (simp add: allMembers_def heldMembers_def add.commute)
  have "length (ZRANGE (lavailable ?n)) = length (ZRANGE (lavailable l)) + length ?f"
    using arg_cong [OF av, of size] by simp
  then have "ledgerInv toks ?n" by (intro ledgerInv_keep [OF inv _ _ m]) (use fr st in auto)
  with m eq show ?thesis by simp
qed

lemma confirm_keeps:
  assumes inv: "ledgerInv toks l"
  shows "ledgerInv toks (snd (confirmFrozenSeatsScript t tok sttl zttl l))
    \<and> allMembers toks (snd (confirmFrozenSeatsScript t tok sttl zttl l)) = allMembers toks l"
proof (cases "ZRANGE (lfrozen l tok) = []")
  case True
  then show ?thesis using ledgerInv_stock [OF inv]
    by (intro touch_keeps [OF inv]) (auto simp: confirmFrozenSeatsScript_def Let_def)
next
  case False
  let ?f = "ZRANGE (lfrozen l tok)" and ?l' = "snd (confirmFrozenSeatsScript t tok sttl zttl l)"
  have tok: "tok \<in> toks" using False not_frozen [OF inv] by blast
  obtain d where st: "lstock l = Some (int (length (ZRANGE (lavailable l))), d)" using ledgerInv_stock [OF inv] by blast
  have fin: "finite toks" and fr: "\<forall>tok. tok \<notin> toks \<longrightarrow> lfrozen l tok = None" using inv by (auto simp: ledgerInv_def)
  let ?n = "l\<lparr>lsold := ZEXPIRE t zttl (fold (\<lambda>m. ZADD (memberScore m) m) ?f (lsold l)),
     lfrozen := (lfrozen l)(tok := None), lstock := SEXPIRE t sttl (lstock l)\<rparr>"
  have eq: "?l' = ?n" using False st by (simp add: confirmFrozenSeatsScript_def Let_def)
  have "mset (ZRANGE (lsold ?n)) = mset (ZRANGE (lsold l)) + mset ?f"
    using mset_fold_ZADD [OF frozen_apart(1,3) [OF inv tok]] by simp
  moreover have "frozenMembers toks ?n + mset ?f = frozenMembers toks l"
    using frozenMembers_update [OF fin tok, of ?n l None] by simp
  ultimately have m: "allMembers toks ?n = allMembers toks l" by (simp add: allMembers_def heldMembers_def add.commute)
  have "ledgerInv toks ?n" by (intro ledgerInv_keep [OF inv _ _ m]) (use fr st in auto)
  with m eq show ?thesis by simp
qed

text \<open>A call of the store leaves the ledger as it was, marks it as loading, or runs the script.\<close>

lemma Schedule_keeps: "ledgerInv toks l \<Longrightarrow> ledgerInv toks (snd (Schedule s t l)) \<and> allMembers toks (snd (Schedule s t l)) = allMembers toks l"
  by (intro touch_keeps) (auto simp: Schedule_def)

lemma freeze_call_keeps:
  assumes "ledgerInv toks l" "lpurge t l = l" "tok \<in> toks" "0 < cnt"
  shows "ledgerInv toks (snd (FreezeAutoAssignedSeats s t flt tok cnt l))
    \<and> allMembers toks (snd (FreezeAutoAssignedSeats s t flt tok cnt l)) = allMembers toks l"
proof -
  let ?r = "freezeAutoAssignedSeatsScript t tok cnt (ss_stockTTLSeconds s) (ss_seatTTLSeconds s) l"
  let ?l' = "snd (FreezeAutoAssignedSeats s t flt tok cnt l)"
  have sc: "ledgerInv toks (snd ?r) \<and> allMembers toks (snd ?r) = allMembers toks l"
    by (rule freeze_keeps [OF assms(1,3,4)])
  have "?l' = l \<or> ?l' = snd ?r \<or> ?l' = snd (Schedule s t (snd ?r))"
    using assms(2) by (cases flt) (auto simp: FreezeAutoAssignedSeats_def eval_ctx_def split: prod.splits list.splits option.splits)
  with sc assms(1) Schedule_keeps [of toks "snd ?r" s t] show ?thesis by metis
qed

lemma finish_call_keeps:
  assumes "ledgerInv toks l" "lpurge t l = l"
    and sc: "ledgerInv toks (snd (script l)) \<and> allMembers toks (snd (script l)) = allMembers toks l"
  shows "ledgerInv toks (snd (finishSeats s t flt script l)) \<and> allMembers toks (snd (finishSeats s t flt script l)) = allMembers toks l"
proof -
  let ?l' = "snd (finishSeats s t flt script l)"
  have "?l' = l \<or> ?l' = snd (script l) \<or> ?l' = snd (Schedule s t (snd (script l)))"
    using assms(2) by (cases flt) (auto simp: finishSeats_def eval_ctx_def split: prod.splits sum.splits)
  with sc assms(1) Schedule_keeps [of toks "snd (script l)" s t] show ?thesis by metis
qed

lemma ledgerStep_keeps:
  "ledgerStep s toks l l' \<Longrightarrow> ledgerInv toks l \<Longrightarrow> ledgerInv toks l' \<and> allMembers toks l' = allMembers toks l"
proof (induction rule: ledgerStep.induct)
  case (step_freeze t l tok cnt flt)
  then show ?case by (intro freeze_call_keeps)
next
  case (step_release t l flt tok)
  then show ?case unfolding ReleaseFrozenSeats_def by (intro finish_call_keeps release_keeps)
next
  case (step_confirm t l flt tok)
  then show ?case unfolding ConfirmFrozenSeats_def by (intro finish_call_keeps confirm_keeps)
qed

lemma stock_held: "ledgerInv toks l \<Longrightarrow> stockOf l + heldCount toks l = int (size (allMembers toks l)) \<and> 0 \<le> stockOf l"
  using ledgerInv_stock [of toks l] by (auto simp: stockOf_def heldCount_def allMembers_def)

interpretation seat_pool: ticket_pool "ledgerStep s toks" "ledgerInv toks" stockOf "heldCount toks" for s toks
proof unfold_locales
  fix l l' assume a: "ledgerInv toks l" "ledgerStep s toks l l'"
  note k = ledgerStep_keeps [OF a(2,1)]
  show "ledgerInv toks l'" using k by simp
  show "stockOf l' + heldCount toks l' = stockOf l + heldCount toks l"
    using k stock_held [OF a(1)] stock_held [of toks l'] by simp
next
  fix l assume "ledgerInv toks l"
  then show "0 \<le> stockOf l" using stock_held by blast
qed

lemma run_members: "(ledgerStep s toks)\<^sup>*\<^sup>* l l' \<Longrightarrow> ledgerInv toks l \<Longrightarrow> allMembers toks l' = allMembers toks l"
proof (induction rule: rtranclp_induct)
  case (step y z)
  then show ?case using ledgerStep_keeps [of s toks y z] seat_pool.run_inv [of s toks l y] by simp
qed simp

text \<open>
  C2. Freezing, releasing and confirming, in any order and with any network fault, neither lose nor
  duplicate a seat: every seat of the ledger stays in exactly one of the available, frozen and sold
  sets, the stock counter is the number of available seats, and no more seats are frozen or sold
  than the ledger had.
\<close>

theorem seats_conserved:
  assumes "ledgerInv toks l" and "(ledgerStep s toks)\<^sup>*\<^sup>* l l'"
  shows "allMembers toks l' = allMembers toks l \<and> (\<forall>m. count (allMembers toks l') m \<le> 1)
    \<and> stockOf l' = int (length (ZRANGE (lavailable l'))) \<and> heldCount toks l' \<le> stockOf l + heldCount toks l"
proof -
  have inv: "ledgerInv toks l'" by (rule seat_pool.run_inv [OF assms(2,1)])
  then have "stockOf l' = int (length (ZRANGE (lavailable l')))" using ledgerInv_stock by (fastforce simp: stockOf_def)
  with inv run_members [OF assms(2,1)] seat_pool.never_oversold [OF assms(2,1)] show ?thesis
    by (simp add: ledgerInv_def)
qed

section \<open>The member codec\<close>

definition seatInts :: "Seat \<Rightarrow> int list" where
  "seatInts s = [SeatID s, st_TicketCategoryID s, st_RowCode s, st_ColCode s, st_Price s]"

lemma split_encode: "split_on (CHR ''|'') (encodeSeatMember s) = map show_int (seatInts s)"
proof -
  have "split_on (CHR ''|'') (join_with [CHR ''|''] (map show_int (seatInts s))) = map show_int (seatInts s)"
    by (rule split_join) (auto simp: seatInts_def)
  then show ?thesis by (simp add: encodeSeatMember_def seatInts_def)
qed

lemma encode_inject: "encodeSeatMember s = encodeSeatMember s' \<longleftrightarrow> s = s'"
proof
  assume "encodeSeatMember s = encodeSeatMember s'"
  then have "map show_int (seatInts s) = map show_int (seatInts s')" by (metis split_encode)
  then have "seatInts s = seatInts s'" by (simp add: inj_map_eq_map inj_def)
  then show "s = s'" by (simp add: seatInts_def)
qed simp

lemma member_parts:
  assumes "in_int64 (st_RowCode s)" "in_int64 (st_ColCode s)"
  shows "memberRow (encodeSeatMember s) = st_RowCode s" "memberCol (encodeSeatMember s) = st_ColCode s"
    "memberScore (encodeSeatMember s) = seatSortScore (st_RowCode s) (st_ColCode s)"
  using assms by (simp_all add: memberScore_def memberRow_def memberCol_def split_encode seatSortScore_def)
    (simp_all add: seatInts_def)

lemma decode_encode:
  assumes "\<forall>i \<in> set (seatInts s). in_int64 i"
  shows "decodeSeatMember (encodeSeatMember s) = Inr s"
  using assms by (simp add: decodeSeatMember_def split_encode) (simp add: seatInts_def parseIntPart_def)

text \<open>
  A seat written to the ledger is read back unchanged, different seats have different texts, and
  the scripts read the row, the column and the sort score of the seat from the text.
\<close>

theorem seat_member_roundtrip:
  assumes "\<forall>i \<in> set [SeatID s, st_TicketCategoryID s, st_RowCode s, st_ColCode s, st_Price s]. in_int64 i"
  shows "decodeSeatMember (encodeSeatMember s) = Inr s \<and> (encodeSeatMember s = encodeSeatMember s' \<longrightarrow> s = s')
    \<and> memberScore (encodeSeatMember s) = seatSortScore (st_RowCode s) (st_ColCode s)"
  using assms decode_encode [of s] member_parts [of s] encode_inject [of s s'] by (simp add: seatInts_def)

theorem seat_member_roundtrip_witness:
  "decodeSeatMember (encodeSeatMember \<lparr>SeatID = 501, st_TicketCategoryID = 7, st_RowCode = 3, st_ColCode = 12, st_Price = 680\<rparr>)
     = Inr \<lparr>SeatID = 501, st_TicketCategoryID = 7, st_RowCode = 3, st_ColCode = 12, st_Price = 680\<rparr>"
  using seat_member_roundtrip [of "\<lparr>SeatID = 501, st_TicketCategoryID = 7, st_RowCode = 3, st_ColCode = 12, st_Price = 680\<rparr>"]
  by (simp add: in_int64_def int64_min_def int64_max_def)

section \<open>A loaded ledger\<close>

definition memberOf :: "DSeat \<Rightarrow> string" where
  "memberOf seat = encodeSeatMember (newSeatFromModel seat)"

lemma fold_addSeat:
  "distinct (map memberOf seats) \<Longrightarrow> set (map memberOf seats) \<inter> set (ZRANGE k) = {} \<Longrightarrow>
    mset (ZRANGE (fold (\<lambda>seat. addSeat s t (newSeatFromModel seat)) seats k)) = mset (ZRANGE k) + mset (map memberOf seats)"
proof (induction seats arbitrary: k)
  case (Cons x seats)
  let ?k = "addSeat s t (newSeatFromModel x) k"
  have m: "mset (ZRANGE ?k) = add_mset (memberOf x) (mset (ZRANGE k))"
    using Cons.prems by (simp add: addSeat_def memberOf_def) (rule mset_ZADD, auto simp: memberOf_def)
  then have "set (ZRANGE ?k) = insert (memberOf x) (set (ZRANGE k))" by (metis set_mset_add_mset_insert set_mset_mset)
  with Cons m show ?case by auto
qed simp

lemma mset_addSeats: "distinct (map memberOf seats) \<Longrightarrow> mset (ZRANGE (addSeats s t seats)) = mset (map memberOf seats)"
  using fold_addSeat [of seats None s t] by (simp add: addSeats_def)

lemma memberOf_inj: "memberOf x = memberOf y \<Longrightarrow> ds_Id x = ds_Id y"
  by (simp add: memberOf_def encode_inject newSeatFromModel_def)

lemma distinct_memberOf: "distinct (map ds_Id xs) \<Longrightarrow> distinct (map memberOf xs)"
  by (auto simp: distinct_map inj_on_def dest: memberOf_inj)

lemma filter_tokens:
  assumes "finite toks"
  shows "(\<Sum>tok \<in> toks. image_mset g (filter_mset (\<lambda>x. f x = Some tok) M)) = image_mset g (filter_mset (\<lambda>x. f x \<in> Some ` toks) M)"
  using assms
proof (induction toks rule: finite_induct)
  case (insert tok toks)
  then have "filter_mset (\<lambda>x. f x \<in> Some ` insert tok toks) M
     = filter_mset (\<lambda>x. f x = Some tok) M + filter_mset (\<lambda>x. f x \<in> Some ` toks) M"
    by (intro multiset_eqI) auto
  with insert show ?case by simp
qed simp

text \<open>The tokens under which seats of a show time and category are frozen in the table.\<close>

definition tokensOf :: "DSeat list \<Rightarrow> string set" where
  "tokensOf seats = {tok. tok \<noteq> [] \<and> Some tok \<in> ds_FreezeToken ` set seats}"

lemma tokensOf_finite: "finite (tokensOf seats)"
proof -
  have "finite (Some -` (ds_FreezeToken ` set seats))" by (rule finite_vimageI) (auto simp: inj_def)
  moreover have "tokensOf seats \<subseteq> Some -` (ds_FreezeToken ` set seats)" by (auto simp: tokensOf_def)
  ultimately show ?thesis using finite_subset by blast
qed

text \<open>
  Priming from the seat table gives a ready ledger: the counter counts the available seats, and
  every active seat of the show and category, if its id is unique, appears exactly once, as
  available, sold, or frozen under its token.
\<close>

theorem load_establishes:
  assumes "distinct (map ds_Id tb)"
    and "F = FindByShowTimeAndTicketCategoryAndSeatStatus tb showTimeID ticketCategoryID seatStatusFrozen"
    and "\<forall>x \<in> set F. ds_FreezeToken x \<noteq> None \<and> ds_FreezeToken x \<noteq> Some []"
  shows "ledgerInv (tokensOf F) (loadWithContext s t tb showTimeID ticketCategoryID l)
    \<and> allMembers (tokensOf F) (loadWithContext s t tb showTimeID ticketCategoryID l) =
      mset (map memberOf (filter (\<lambda>x. ds_Status x = 1 \<and> ds_ShowTimeId x = showTimeID
        \<and> ds_TicketCategoryId x = ticketCategoryID \<and> ds_SeatStatus x \<in> {1, 2, 3}) tb))"
proof -
  let ?P = "\<lambda>x. ds_Status x = 1 \<and> ds_ShowTimeId x = showTimeID \<and> ds_TicketCategoryId x = ticketCategoryID"
  let ?Q = "\<lambda>n. filter (\<lambda>x. ?P x \<and> ds_SeatStatus x = n) tb"
  let ?find = "FindByShowTimeAndTicketCategoryAndSeatStatus tb showTimeID ticketCategoryID"
  let ?l = "loadWithContext s t tb showTimeID ticketCategoryID l" and ?T = "tokensOf F"
  let ?all = "filter (\<lambda>x. ?P x \<and> ds_SeatStatus x \<in> {1, 2, 3}) tb"
  have find: "mset (?find n) = mset (?Q n)" for n by (simp add: FindByShowTimeAndTicketCategoryAndSeatStatus_def conj_assoc)
  have dQ: "distinct (map ds_Id (filter R tb))" for R using assms(1) by (rule distinct_map_filter)
  have dis: "distinct (map memberOf (?find n))" for n
  proof (rule distinct_memberOf)
    have "mset (map ds_Id (?find n)) = mset (map ds_Id (?Q n))" by (simp only: mset_map find)
    with dQ show "distinct (map ds_Id (?find n))" using mset_eq_imp_distinct_iff by blast
  qed
  have F: "mset F = mset (?Q 2)" and dF: "distinct (map memberOf F)"
    using find [of 2] dis [of 2] by (simp_all add: assms(2) seatStatusFrozen_def)
  have av: "mset (ZRANGE (lavailable ?l)) = mset (map memberOf (?Q 1))"
    using mset_addSeats [OF dis [of 1], of s t] find [of 1] by (simp add: loadWithContext_def Let_def seat_status_defs mset_map)
  have sold: "mset (ZRANGE (lsold ?l)) = mset (map memberOf (?Q 3))"
    using mset_addSeats [OF dis [of 3], of s t] find [of 3] by (simp add: loadWithContext_def Let_def seat_status_defs mset_map)
  have fr: "mset (ZRANGE (lfrozen ?l tok)) = image_mset memberOf (filter_mset (\<lambda>x. ds_FreezeToken x = Some tok) (mset F))"
    if "tok \<in> ?T" for tok
  proof -
    have "distinct (map memberOf (filter (\<lambda>x. ds_FreezeToken x = Some tok) F))" using dF by (rule distinct_map_filter)
    from mset_addSeats [OF this, of s t] that show ?thesis
      by (simp add: loadWithContext_def Let_def assms(2) [symmetric] tokensOf_def mset_map)
  qed
  have "frozenMembers ?T ?l = image_mset memberOf (filter_mset (\<lambda>x. ds_FreezeToken x \<in> Some ` ?T) (mset F))"
    using fr by (simp add: frozenMembers_def filter_tokens [OF tokensOf_finite])
  moreover have "filter_mset (\<lambda>x. ds_FreezeToken x \<in> Some ` ?T) (mset F) = mset F"
    unfolding filter_mset_eq_conv
  proof (auto)
    fix x assume x: "x \<in> set F"
    with assms(3) obtain tok where "ds_FreezeToken x = Some tok" "tok \<noteq> []" by blast
    with x show "ds_FreezeToken x \<in> Some ` ?T" by (force simp: tokensOf_def)
  qed
  ultimately have frm: "frozenMembers ?T ?l = mset (map memberOf (?Q 2))" using F by (simp add: mset_map)
  have parts: "mset (?Q 1) + (mset (?Q 3) + mset (?Q 2)) = mset ?all"
    by (intro multiset_eqI) auto
  have members: "allMembers ?T ?l = mset (map memberOf ?all)"
    using arg_cong [OF parts, of "image_mset memberOf"]
    by (simp only: allMembers_def heldMembers_def av sold frm mset_map image_mset_union)
  have "distinct (map memberOf ?all)" by (intro distinct_memberOf dQ)
  then have "\<forall>m. count (allMembers ?T ?l) m \<le> 1" unfolding members by (rule count_le_1_distinct [THEN iffD2])
  moreover have "lfrozen ?l tok = None" if "tok \<notin> ?T" for tok
  proof (cases "tok = []")
    case False
    with that have "filter (\<lambda>x. ds_FreezeToken x = Some tok) F = []"
      unfolding filter_empty_conv tokensOf_def by force
    then show ?thesis by (simp add: loadWithContext_def Let_def assms(2) [symmetric] addSeats_def)
  qed (simp add: loadWithContext_def Let_def)
  moreover have "map_option fst (lstock ?l) = Some (int (length (ZRANGE (lavailable ?l))))"
  proof -
    have "length (ZRANGE (lavailable ?l)) = length (?find 1)"
      using arg_cong [OF av, of size] arg_cong [OF find [of 1], of size] by simp
    then show ?thesis by (simp add: loadWithContext_def Let_def seat_status_defs)
  qed
  ultimately have "ledgerInv ?T ?l" by (simp add: ledgerInv_def tokensOf_finite)
  with members show ?thesis by simp
qed

definition demoRow :: "int \<Rightarrow> int \<Rightarrow> int \<Rightarrow> int \<Rightarrow> string option \<Rightarrow> DSeat" where
  "demoRow i r c status tok = \<lparr>ds_Id = i, ds_ProgramId = 1, ds_ShowTimeId = 5, ds_TicketCategoryId = 7, ds_RowCode = r,
     ds_ColCode = c, ds_SeatType = 1, ds_Price = 680, ds_SeatStatus = status, ds_FreezeToken = tok,
     ds_FreezeExpireTime = None, ds_CreateTime = 0, ds_EditTime = 0, ds_Status = 1\<rparr>"

definition demoTable :: seatTable where
  "demoTable = [demoRow 501 1 1 1 None, demoRow 502 1 2 1 None, demoRow 503 1 3 2 (Some ''tok''), demoRow 504 1 4 3 (Some ''old'')]"

definition demoSeatStore :: SeatStockStore where
  "demoSeatStore = NewSeatStockStore 0 0 0"

definition emptyLedger :: seatLedger where
  "emptyLedger = \<lparr>lstock = None, lavailable = None, lsold = None, lfrozen = (\<lambda>_. None), lloading = None\<rparr>"

definition demoLedger :: seatLedger where
  "demoLedger = loadWithContext demoSeatStore 1000 demoTable 5 7 emptyLedger"

lemma demoTable_frozen:
  "FindByShowTimeAndTicketCategoryAndSeatStatus demoTable 5 7 seatStatusFrozen = [demoRow 503 1 3 2 (Some ''tok'')]"
  by (simp add: FindByShowTimeAndTicketCategoryAndSeatStatus_def demoTable_def demoRow_def seat_status_defs)

theorem load_establishes_witness: "ledgerInv {''tok''} demoLedger"
proof -
  have "tokensOf [demoRow 503 1 3 2 (Some ''tok'')] = {''tok''}" by (auto simp: tokensOf_def demoRow_def)
  moreover have "distinct (map ds_Id demoTable)" by (simp add: demoTable_def demoRow_def)
  ultimately show ?thesis
    using load_establishes [of demoTable _ 5 7 demoSeatStore 1000 emptyLedger, OF _ demoTable_frozen [symmetric]]
    by (simp add: demoLedger_def demoRow_def)
qed

definition demoStock :: seatLedger where
  "demoStock = \<lparr>lstock = Some (2, None), lavailable = Some \<lparr>zmembers = [(1000001, ''501|7|1|1|680''), (1000002, ''502|7|1|2|680'')],
     zexpireAt = None\<rparr>, lsold = None, lfrozen = (\<lambda>_. None), lloading = None\<rparr>"

lemma demoStock_inv: "ledgerInv {''tok''} demoStock" "lpurge t demoStock = demoStock"
  by (simp_all add: ledgerInv_def demoStock_def ZRANGE_def zlist_def allMembers_def heldMembers_def frozenMembers_def
      lpurge_def zpurge_def notExpired_def)

theorem seats_conserved_witness:
  "allMembers {''tok''} (snd (FreezeAutoAssignedSeats demoSeatStore 1000 NoFault ''tok'' 1 demoStock))
     = allMembers {''tok''} demoStock"
proof -
  have "ledgerStep demoSeatStore {''tok''} demoStock (snd (FreezeAutoAssignedSeats demoSeatStore 1000 NoFault ''tok'' 1 demoStock))"
    by (rule step_freeze) (simp_all add: demoStock_inv)
  from seats_conserved [OF demoStock_inv(1) r_into_rtranclp [of "ledgerStep demoSeatStore {''tok''}", OF this]]
  show ?thesis by simp
qed

section \<open>The script and the Go routine choose the same seats\<close>

definition candidateOf :: "Seat \<Rightarrow> seatCandidate" where
  "candidateOf s = \<lparr>ID = SeatID s, sc_TicketCategoryID = st_TicketCategoryID s, sc_RowCode = st_RowCode s,
     sc_ColCode = st_ColCode s, sc_Price = st_Price s\<rparr>"

lemma runLoop_map:
  "run \<noteq> [] \<Longrightarrow> runLoop adj need (map f run) (map f xs) = map_option (map f) (runLoop (\<lambda>p x. adj (f p) (f x)) need run xs)"
proof (induction "\<lambda>p x. adj (f p) (f x)" need run xs rule: runLoop.induct)
  case (2 need run x xs)
  have l: "last (map f run) = f (last run)" using "2.prems" by (simp add: last_map)
  show ?case
  proof (cases "adj (f (last run)) (f x)")
    case True
    with 2(1) l show ?thesis by simp
  next
    case False
    with 2(2) l show ?thesis by (simp add: take_map)
  qed
qed (simp add: take_map)

lemma firstRun_map: "firstRun adj need (map f xs) = map_option (map f) (firstRun (\<lambda>p x. adj (f p) (f x)) need xs)"
proof (cases xs)
  case (Cons x xs')
  then show ?thesis using runLoop_map [of "[x]" adj need f xs'] by (simp add: firstRun_Cons)
qed (simp add: firstRun_def)

lemma runLoop_cong:
  "\<lbrakk>\<And>p x. p \<in> set (run @ xs) \<Longrightarrow> x \<in> set (run @ xs) \<Longrightarrow> adj p x = adj' p x; run \<noteq> []\<rbrakk>
     \<Longrightarrow> runLoop adj need run xs = runLoop adj' need run xs"
proof (induction adj need run xs rule: runLoop.induct)
  case (2 adj need run x xs)
  have e: "adj (last run) x = adj' (last run) x" using "2.prems" by simp
  consider "adj (last run) x" | "\<not> adj (last run) x" "need \<le> length run" | "\<not> adj (last run) x" "\<not> need \<le> length run" by blast
  then show ?case
  proof cases
    case 3
    then have "runLoop adj need [x] xs = runLoop adj' need [x] xs" by (rule "2.IH"(2)) (use "2.prems"(1) in auto)
    with 3 e show ?thesis by simp
  qed (use e 2 in simp_all)
qed simp

lemma firstRun_cong:
  assumes "\<And>p x. p \<in> set xs \<Longrightarrow> x \<in> set xs \<Longrightarrow> adj p x = adj' p x"
  shows "firstRun adj need xs = firstRun adj' need xs"
proof (cases xs)
  case (Cons x xs')
  then show ?thesis using assms by (simp add: firstRun_Cons) (rule runLoop_cong, auto)
qed (simp add: firstRun_def)

text \<open>Columns are below a million, so the order of the scores is the order of the places.\<close>

lemma score_order:
  assumes "0 \<le> c" "c < 1000000" "0 \<le> c'" "c' < 1000000" "seatSortScore r c \<le> seatSortScore r' c'"
  shows "(r, c) \<le> (r', c')"
  using assms by (auto simp: seatSortScore_def less_eq_prod_def)

lemma sorted_by_score:
  assumes "sorted (map (\<lambda>s. seatSortScore (st_RowCode s) (st_ColCode s)) seats)"
    and "\<forall>s \<in> set seats. 0 \<le> st_ColCode s \<and> st_ColCode s < 1000000"
    and "distinct (map (\<lambda>s. (st_RowCode s, st_ColCode s)) seats)"
  shows "sort_key seatBefore (map candidateOf seats) = map candidateOf seats"
proof (rule sort_key_id_if_sorted)
  have "sorted_wrt (\<lambda>x y. seatBefore (candidateOf x) \<le> seatBefore (candidateOf y)) seats"
    unfolding sorted_wrt_iff_nth_less
  proof (intro allI impI)
    fix i j assume ij: "i < j" "j < length seats"
    let ?x = "seats ! i" and ?y = "seats ! j"
    have "(st_RowCode ?x, st_ColCode ?x) \<le> (st_RowCode ?y, st_ColCode ?y)"
      using assms(1,2) ij by (intro score_order) (auto simp: sorted_map sorted_wrt_iff_nth_less)
    moreover have "(st_RowCode ?x, st_ColCode ?x) \<noteq> (st_RowCode ?y, st_ColCode ?y)"
      using assms(3) ij by (auto simp: distinct_conv_nth)
    ultimately show "seatBefore (candidateOf ?x) \<le> seatBefore (candidateOf ?y)"
      by (auto simp: seatBefore_def candidateOf_def less_eq_prod_def)
  qed
  then show "sorted (map seatBefore (map candidateOf seats))" by (simp add: sorted_map)
qed

text \<open>
  C28. The freezing script chooses the seats that \<open>assignSeats\<close> chooses: on available seats kept in
  the order of their scores, with different places and columns below a million, the members selected
  by the script are the encodings of the seats the Go routine assigns.
\<close>

theorem lua_selects_assigned:
  assumes "sorted (map (\<lambda>s. seatSortScore (st_RowCode s) (st_ColCode s)) seats)"
    and "\<forall>s \<in> set seats. 0 \<le> st_ColCode s \<and> st_ColCode s < 1000000 \<and> in_int64 (st_RowCode s)"
    and "distinct (map (\<lambda>s. (st_RowCode s, st_ColCode s)) seats)"
    and "0 < cnt" "cnt \<le> int (length seats)"
  shows "\<exists>chosen. selectSeats cnt (map encodeSeatMember seats) = map encodeSeatMember chosen
    \<and> assignSeats (map candidateOf seats) cnt = Inr (map candidateOf chosen)"
proof -
  let ?adj = "\<lambda>p x. st_RowCode x = st_RowCode p \<and> st_ColCode x = st_ColCode p + 1"
  let ?f = "firstRun ?adj (nat cnt) seats"
  have mem: "memberRow (encodeSeatMember s) = st_RowCode s" "memberCol (encodeSeatMember s) = st_ColCode s" if "s \<in> set seats" for s
    using assms(2) that by (auto intro!: member_parts simp: in_int64_def int64_min_def int64_max_def)
  have "rowLoop memberRow (firstRun luaAdjacent (nat cnt)) (map encodeSeatMember seats) =
      firstRun (\<lambda>p x. memberRow x = memberRow p \<and> luaAdjacent p x) (nat cnt) (map encodeSeatMember seats)"
    by (rule rowLoop_firstRun)
  also have "\<dots> = map_option (map encodeSeatMember) ?f"
    unfolding firstRun_map by (rule arg_cong [where f = "map_option (map encodeSeatMember)"], rule firstRun_cong)
      (auto simp: luaAdjacent_def mem)
  finally have lua: "rowLoop memberRow (firstRun luaAdjacent (nat cnt)) (map encodeSeatMember seats) = map_option (map encodeSeatMember) ?f" .
  have srt: "sort_key seatBefore (map candidateOf seats) = map candidateOf seats"
    using assms(1-3) by (intro sorted_by_score) auto
  have "rowLoop sc_RowCode (\<lambda>r. firstConsecutiveSeats r (nat cnt)) (map candidateOf seats) =
      firstRun (\<lambda>p x. sc_RowCode x = sc_RowCode p \<and> sc_ColCode x = sc_ColCode p + 1) (nat cnt) (map candidateOf seats)"
    unfolding firstConsecutiveSeats_def by (rule rowLoop_firstRun)
  also have "\<dots> = map_option (map candidateOf) ?f"
    unfolding firstRun_map by (simp add: candidateOf_def)
  finally have go: "rowLoop sc_RowCode (\<lambda>r. firstConsecutiveSeats r (nat cnt)) (map candidateOf seats) = map_option (map candidateOf) ?f" .
  show ?thesis
    by (rule exI [of _ "case ?f of Some s \<Rightarrow> s | None \<Rightarrow> take (nat cnt) seats"])
       (use assms(4,5) in \<open>auto simp: selectSeats_def assignSeats_def Let_def lua srt go take_map split: option.splits\<close>)
qed

theorem lua_selects_assigned_witness:
  "\<exists>chosen. selectSeats 2 (map encodeSeatMember
       [\<lparr>SeatID = 1, st_TicketCategoryID = 7, st_RowCode = 1, st_ColCode = 1, st_Price = 5\<rparr>,
        \<lparr>SeatID = 2, st_TicketCategoryID = 7, st_RowCode = 2, st_ColCode = 3, st_Price = 5\<rparr>,
        \<lparr>SeatID = 3, st_TicketCategoryID = 7, st_RowCode = 2, st_ColCode = 4, st_Price = 5\<rparr>]) = map encodeSeatMember chosen"
  using lua_selects_assigned [of
      "[\<lparr>SeatID = 1, st_TicketCategoryID = 7, st_RowCode = 1, st_ColCode = 1, st_Price = 5\<rparr>,
        \<lparr>SeatID = 2, st_TicketCategoryID = 7, st_RowCode = 2, st_ColCode = 3, st_Price = 5\<rparr>,
        \<lparr>SeatID = 3, st_TicketCategoryID = 7, st_RowCode = 2, st_ColCode = 4, st_Price = 5\<rparr>]" 2]
  by (auto simp: seatSortScore_def in_int64_def int64_min_def int64_max_def)

end
