(* ===== verification/SeatFreeze.thy ===== *)
theory SeatFreeze
  imports SeatLedger
begin

text \<open>
  Freezing seats for an order in the program service: the freeze token of \<open>pkg/seatfreeze\<close> and
  the handlers \<open>AutoAssignAndFreezeSeats\<close>, \<open>ConfirmSeatFreeze\<close>, \<open>ReleaseSeatFreeze\<close>,
  \<open>ReleaseSoldSeats\<close> and \<open>PrimeSeatLedger\<close> of \<open>logic/\<close>, which keep the seat table and
  the ledger in step. What the network and the database do to each call is an argument.
\<close>

section \<open>The freeze token\<close>

record Token =
  tk_ShowTimeID :: int
  tk_TicketCategoryID :: int
  tk_OrderNumber :: int

definition FormatToken :: "int \<Rightarrow> int \<Rightarrow> int \<Rightarrow> string" where
  "FormatToken showTimeID ticketCategoryID orderNumber =
     ''freeze-st'' @ show_int showTimeID @ ''-tc'' @ show_int ticketCategoryID @ ''-o'' @ show_int orderNumber"

text \<open>\<open>fmt.Sscanf\<close> on the layout of the token: literal text, and decimal integers.\<close>

fun scanLit :: "string \<Rightarrow> string \<Rightarrow> string option" where
  "scanLit [] s = Some s"
| "scanLit (c # cs) [] = None"
| "scanLit (c # cs) (x # xs) = (if x = c then scanLit cs xs else None)"

definition scanInt :: "string \<Rightarrow> (int \<times> string) option" where
  "scanInt s =
     (let sign = (case s of c # _ \<Rightarrow> if c = CHR ''-'' \<or> c = CHR ''+'' then [c] else [] | [] \<Rightarrow> []);
          digits = takeWhile is_digit (drop (length sign) s)
      in case parse_int64 (sign @ digits) of
           None \<Rightarrow> None
         | Some i \<Rightarrow> Some (i, drop (length sign + length digits) s))"

definition ParseToken :: "string \<Rightarrow> Token res" where
  "ParseToken value =
     (let bad = Inl (Other ''invalid freeze token'') in
      case scanLit ''freeze-st'' value of None \<Rightarrow> bad | Some s1 \<Rightarrow>
     (case scanInt s1 of None \<Rightarrow> bad | Some (showTimeID, s2) \<Rightarrow>
     (case scanLit ''-tc'' s2 of None \<Rightarrow> bad | Some s3 \<Rightarrow>
     (case scanInt s3 of None \<Rightarrow> bad | Some (ticketCategoryID, s4) \<Rightarrow>
     (case scanLit ''-o'' s4 of None \<Rightarrow> bad | Some s5 \<Rightarrow>
     (case scanInt s5 of None \<Rightarrow> bad | Some (orderNumber, _) \<Rightarrow>
        (if showTimeID \<le> 0 \<or> ticketCategoryID \<le> 0 \<or> orderNumber \<le> 0
            \<or> FormatToken showTimeID ticketCategoryID orderNumber \<noteq> value then bad
         else Inr \<lparr>tk_ShowTimeID = showTimeID, tk_TicketCategoryID = ticketCategoryID, tk_OrderNumber = orderNumber\<rparr>)))))))"

lemma scanLit_append [simp]: "scanLit xs (xs @ ys) = Some ys"
  by (induction xs) auto

lemma scanInt_show:
  assumes "0 < i" "in_int64 i" "rest = [] \<or> \<not> is_digit (hd rest)"
  shows "scanInt (show_int i @ rest) = Some (i, rest)"
proof -
  have s: "show_int i = show_nat (nat i)" using assms(1) by (simp add: show_int_def)
  obtain c cs where c: "show_nat (nat i) = c # cs" using show_nat_nonempty by (metis neq_Nil_conv)
  have dig: "\<forall>x \<in> set (show_nat (nat i)). is_digit x" using show_nat_digits by blast
  then have "c \<noteq> CHR ''-''" "c \<noteq> CHR ''+''" using c by auto
  then have sign: "(case show_int i @ rest of c # _ \<Rightarrow> if c = CHR ''-'' \<or> c = CHR ''+'' then [c] else [] | [] \<Rightarrow> []) = []"
    by (simp add: s c)
  have "takeWhile is_digit (show_int i @ rest) = show_int i"
    using dig assms(3) unfolding s by (cases rest) (auto simp: takeWhile_append)
  then show ?thesis using assms(2) unfolding scanInt_def sign Let_def by simp
qed

text \<open>
  Freeze tokens determine their order: a token formatted from positive ids is parsed back to
  them, and whatever text parses is the token of the ids it yields, so two orders never share one.
\<close>

theorem token_roundtrip:
  assumes "0 < a" "0 < b" "0 < c" "in_int64 a" "in_int64 b" "in_int64 c"
  shows "ParseToken (FormatToken a b c) = Inr \<lparr>tk_ShowTimeID = a, tk_TicketCategoryID = b, tk_OrderNumber = c\<rparr>
    \<and> (\<forall>v tok. ParseToken v = Inr tok \<longrightarrow> v = FormatToken (tk_ShowTimeID tok) (tk_TicketCategoryID tok) (tk_OrderNumber tok))"
proof -
  have 1: "scanInt (show_int a @ ''-tc'' @ show_int b @ ''-o'' @ show_int c) = Some (a, ''-tc'' @ show_int b @ ''-o'' @ show_int c)"
    and 2: "scanInt (show_int b @ ''-o'' @ show_int c) = Some (b, ''-o'' @ show_int c)"
    using assms by (intro scanInt_show; simp)+
  have 3: "scanInt (show_int c) = Some (c, [])" using scanInt_show [of c "[]"] assms by simp
  have fwd: "ParseToken (FormatToken a b c) = Inr \<lparr>tk_ShowTimeID = a, tk_TicketCategoryID = b, tk_OrderNumber = c\<rparr>"
    unfolding ParseToken_def
    by (simp only: FormatToken_def scanLit_append option.case 1 2 3 prod.case Let_def) (use assms in simp)
  have "v = FormatToken (tk_ShowTimeID tok) (tk_TicketCategoryID tok) (tk_OrderNumber tok)" if "ParseToken v = Inr tok" for v tok
    using that by (auto simp: ParseToken_def Let_def split: option.splits if_splits)
  with fwd show ?thesis by blast
qed

theorem token_roundtrip_witness:
  "ParseToken (FormatToken 5 7 91) = Inr \<lparr>tk_ShowTimeID = 5, tk_TicketCategoryID = 7, tk_OrderNumber = 91\<rparr>"
  using token_roundtrip [of 5 7 91] by (simp add: in_int64_def int64_min_def int64_max_def)

section \<open>Errors of the handlers\<close>

definition mapAutoAssignSeatError :: "goerr \<Rightarrow> goerr" where
  "mapAutoAssignSeatError err =
     (if isStatus err then err
      else if err = Sentinel ErrProgramShowTimeNotFound then Status CNotFound ErrProgramShowTimeNotFound
      else if err = Sentinel ErrProgramTicketCategoryNotFound then Status CNotFound ErrProgramTicketCategoryNotFound
      else if err = Sentinel ErrSeatInventoryInsufficient then Status CFailedPrecondition ErrSeatInventoryInsufficient
      else if err = Sentinel ErrSeatFreezeRequestConflict then Status CFailedPrecondition ErrSeatFreezeRequestConflict
      else if err = Sentinel ErrProgramSeatLedgerNotReady then Status CFailedPrecondition ErrProgramSeatLedgerNotReady
      else if err = Sentinel ErrSeatFreezeStatusInvalid then Status CFailedPrecondition ErrSeatFreezeStatusInvalid
      else err)"

definition mapConfirmSeatFreezeError :: "goerr \<Rightarrow> goerr" where
  "mapConfirmSeatFreezeError err =
     (if isStatus err then err
      else if err = Sentinel ErrSeatFreezeNotFound then Status CNotFound ErrSeatFreezeNotFound
      else if err = Sentinel ErrSeatFreezeStatusInvalid then Status CFailedPrecondition ErrSeatFreezeStatusInvalid
      else if err = Sentinel ErrProgramSeatLedgerNotReady then Status CFailedPrecondition ErrProgramSeatLedgerNotReady
      else err)"

definition mapReleaseSeatFreezeError :: "goerr \<Rightarrow> goerr" where
  "mapReleaseSeatFreezeError err =
     (if isStatus err then err
      else if err = Sentinel ErrSeatFreezeNotFound then Status CNotFound ErrSeatFreezeNotFound
      else if err = Sentinel ErrSeatFreezeStatusInvalid then Status CFailedPrecondition ErrSeatFreezeStatusInvalid
      else if err = Sentinel ErrProgramSeatLedgerNotReady then Status CFailedPrecondition ErrProgramSeatLedgerNotReady
      else err)"

section \<open>State and environment\<close>

text \<open>The seat table, and the ledger of each show time and ticket category.\<close>

record seatWorld =
  wtable :: seatTable
  wledger :: "int \<Rightarrow> int \<Rightarrow> seatLedger"

definition setLedger :: "int \<Rightarrow> int \<Rightarrow> seatLedger \<Rightarrow> seatWorld \<Rightarrow> seatWorld" where
  "setLedger st c l w = w\<lparr>wledger := (wledger w)(st := (wledger w st)(c := l))\<rparr>"

text \<open>
  What happens around one request: the server time, the wall clock, the show times and categories
  the catalogue has, the faults of its calls in order, and the reading and printing of local times.
\<close>

record freezeEnv =
  eNow :: int
  eWall :: int
  eShowTimes :: "int list"
  eCategories :: "int \<Rightarrow> int list"
  eFrozenFault :: "goerr option"
  eDbReadFault :: "goerr option"
  eScriptFault :: fault
  eReleaseFault :: fault
  eTxFault :: txfault
  eParseLocal :: "string \<Rightarrow> int option"
  eFormatLocal :: "int \<Rightarrow> string"

record AutoAssignReq =
  aq_ShowTimeId :: int
  aq_TicketCategoryId :: int
  aq_Count :: int
  aq_FreezeToken :: string
  aq_FreezeExpireTime :: string

record AutoAssignResp =
  ap_FreezeToken :: string
  ap_ExpireTime :: string
  ap_Seats :: "seatCandidate list"

section \<open>AutoAssignAndFreezeSeats\<close>

definition validateAutoAssignAndFreezeSeatsReq :: "AutoAssignReq \<Rightarrow> unit res" where
  "validateAutoAssignAndFreezeSeatsReq inp =
     (let bad = Inl (Status CInvalidArgument ErrInvalidParam) in
      if aq_ShowTimeId inp \<le> 0 \<or> aq_TicketCategoryId inp \<le> 0 \<or> aq_Count inp \<le> 0 \<or> aq_FreezeToken inp = [] then bad
      else case ParseToken (aq_FreezeToken inp) of
             Inl _ \<Rightarrow> bad
           | Inr token \<Rightarrow>
               (if tk_ShowTimeID token \<noteq> aq_ShowTimeId inp \<or> tk_TicketCategoryID token \<noteq> aq_TicketCategoryId inp
                then bad else Inr ()))"

text \<open>The loop over the rows with the seat ids still expected and the expiry seen so far.\<close>

fun checkPersisted :: "int \<Rightarrow> int \<Rightarrow> int set \<Rightarrow> int option \<Rightarrow> DSeat list \<Rightarrow> (int set \<times> int option) res" where
  "checkPersisted st c expected expire [] = Inr (expected, expire)"
| "checkPersisted st c expected expire (seat # seats) =
     (if ds_ShowTimeId seat \<noteq> st \<or> ds_TicketCategoryId seat \<noteq> c \<or> ds_SeatStatus seat \<noteq> 2
      then Inl (Sentinel ErrSeatFreezeRequestConflict)
      else if ds_Id seat \<notin> expected then Inl (Sentinel ErrSeatFreezeRequestConflict)
      else case ds_FreezeExpireTime seat of
             None \<Rightarrow> Inl (Sentinel ErrSeatFreezeStatusInvalid)
           | Some e \<Rightarrow>
               (case expire of
                  None \<Rightarrow> checkPersisted st c (expected - {ds_Id seat}) (Some e) seats
                | Some e0 \<Rightarrow>
                    (if e0 \<noteq> e then Inl (Sentinel ErrSeatFreezeStatusInvalid)
                     else checkPersisted st c (expected - {ds_Id seat}) expire seats)))"

definition validateFrozenSeatsPersistedInDB :: "freezeEnv \<Rightarrow> seatTable \<Rightarrow> int \<Rightarrow> int \<Rightarrow> string \<Rightarrow> Seat list \<Rightarrow> gotime res" where
  "validateFrozenSeatsPersistedInDB env tb st c tok seats =
     bind_res (orFault (eDbReadFault env) (Inr (FindByFreezeToken tb tok))) (\<lambda>dbSeats.
     if length dbSeats \<noteq> length seats then Inl (Sentinel ErrSeatFreezeRequestConflict)
     else
       bind_res (checkPersisted st c (set (map SeatID seats)) None dbSeats) (\<lambda>(expected, expire).
       if expected \<noteq> {} then Inl (Sentinel ErrSeatFreezeRequestConflict) else Inr expire))"

definition toSeatCandidatesFromLedger :: "Seat list \<Rightarrow> seatCandidate list" where
  "toSeatCandidatesFromLedger seats = map candidateOf seats"

definition buildExistingSeatFreezeResp :: "freezeEnv \<Rightarrow> seatTable \<Rightarrow> AutoAssignReq \<Rightarrow> Seat list \<Rightarrow> AutoAssignResp res" where
  "buildExistingSeatFreezeResp env tb inp seats =
     (if int (length seats) \<noteq> aq_Count inp then Inl (Sentinel ErrSeatFreezeRequestConflict)
      else
        bind_res (validateFrozenSeatsPersistedInDB env tb (aq_ShowTimeId inp) (aq_TicketCategoryId inp) (aq_FreezeToken inp) seats)
          (\<lambda>expire. Inr \<lparr>ap_FreezeToken = aq_FreezeToken inp,
             ap_ExpireTime = eFormatLocal env (case expire of None \<Rightarrow> 0 | Some e \<Rightarrow> e),
             ap_Seats = toSeatCandidatesFromLedger seats\<rparr>))"

definition parseFreezeExpireTime :: "freezeEnv \<Rightarrow> string \<Rightarrow> int res" where
  "parseFreezeExpireTime env value =
     (if value = [] then Inl (Sentinel ErrInvalidParam)
      else case eParseLocal env value of None \<Rightarrow> Inl (Sentinel ErrInvalidParam) | Some e \<Rightarrow> Inr e)"

definition persistFrozenSeatsToDB :: "freezeEnv \<Rightarrow> int \<Rightarrow> int list \<Rightarrow> string \<Rightarrow> int \<Rightarrow> seatTable \<Rightarrow> unit res \<times> seatTable" where
  "persistFrozenSeatsToDB env st seatIDs tok expireTime tb =
     (if seatIDs = [] then (Inl (Sentinel ErrSeatInventoryInsufficient), tb)
      else runTx (eTxFault env) (\<lambda>tb.
        let seats = FindByShowTimeAndIDsForUpdate tb st seatIDs in
        if length seats \<noteq> length seatIDs then (Inl (Sentinel ErrSeatFreezeStatusInvalid), tb)
        else if \<exists>seat \<in> set seats. ds_SeatStatus seat \<noteq> 1 then (Inl (Sentinel ErrSeatFreezeStatusInvalid), tb)
        else (Inr (), BatchFreezeByShowTimeAndIDs tb st seatIDs tok expireTime (eWall env))) tb)"

text \<open>The release of the reserved seats when a later step fails; its own error is ignored.\<close>

definition compensateFreeze :: "SeatStockStore \<Rightarrow> freezeEnv \<Rightarrow> AutoAssignReq \<Rightarrow> seatWorld \<Rightarrow> seatWorld" where
  "compensateFreeze s env inp w =
     setLedger (aq_ShowTimeId inp) (aq_TicketCategoryId inp)
       (snd (ReleaseFrozenSeats s (eNow env) (eReleaseFault env) (aq_FreezeToken inp)
          (wledger w (aq_ShowTimeId inp) (aq_TicketCategoryId inp)))) w"

text \<open>The second half of the handler: reserve in the ledger, then persist in the table.\<close>

definition reserveAndPersist :: "SeatStockStore \<Rightarrow> freezeEnv \<Rightarrow> AutoAssignReq \<Rightarrow> seatWorld \<Rightarrow> AutoAssignResp res \<times> seatWorld" where
  "reserveAndPersist s env inp w =
     (let st = aq_ShowTimeId inp; c = aq_TicketCategoryId inp; tok = aq_FreezeToken inp in
      case FreezeAutoAssignedSeats s (eNow env) (eScriptFault env) tok (aq_Count inp) (wledger w st c) of
        (Inl e, l1) \<Rightarrow> (Inl (mapAutoAssignSeatError e), setLedger st c l1 w)
      | (Inr reservedSeats, l1) \<Rightarrow>
        (let w1 = setLedger st c l1 w; selectedSeats = toSeatCandidatesFromLedger reservedSeats in
         case parseFreezeExpireTime env (aq_FreezeExpireTime inp) of
           Inl _ \<Rightarrow> (Inl (mapAutoAssignSeatError (Sentinel ErrInvalidParam)), compensateFreeze s env inp w1)
         | Inr expireTime \<Rightarrow>
           (case persistFrozenSeatsToDB env st (map ID selectedSeats) tok expireTime (wtable w1) of
              (Inl e, tb) \<Rightarrow> (Inl (mapAutoAssignSeatError e), compensateFreeze s env inp (w1\<lparr>wtable := tb\<rparr>))
            | (Inr _, tb) \<Rightarrow>
              (Inr \<lparr>ap_FreezeToken = tok, ap_ExpireTime = eFormatLocal env expireTime, ap_Seats = selectedSeats\<rparr>,
               w1\<lparr>wtable := tb\<rparr>))))"

definition AutoAssignAndFreezeSeats :: "SeatStockStore \<Rightarrow> freezeEnv \<Rightarrow> AutoAssignReq \<Rightarrow> seatWorld \<Rightarrow> AutoAssignResp res \<times> seatWorld" where
  "AutoAssignAndFreezeSeats s env inp w =
     (let st = aq_ShowTimeId inp; c = aq_TicketCategoryId inp; tok = aq_FreezeToken inp;
          fail = (\<lambda>e w. (Inl (mapAutoAssignSeatError e), w)) in
      case validateAutoAssignAndFreezeSeatsReq inp of Inl e \<Rightarrow> (Inl e, w) | Inr _ \<Rightarrow>
      (if st \<notin> set (eShowTimes env) then fail (Sentinel ErrProgramShowTimeNotFound) w
       else if c \<notin> set (eCategories env st) then fail (Sentinel ErrProgramTicketCategoryNotFound) w
       else case orFault (eFrozenFault env) (FrozenSeats (eNow env) tok (wledger w st c)) of
         Inl e \<Rightarrow> fail e w
       | Inr existingSeats \<Rightarrow>
         (if existingSeats \<noteq> [] then
            (case buildExistingSeatFreezeResp env (wtable w) inp existingSeats of
               Inl e \<Rightarrow> fail e w | Inr resp \<Rightarrow> (Inr resp, w))
          else case orFault (eDbReadFault env) (Inr (FindByFreezeToken (wtable w) tok)) of
            Inl e \<Rightarrow> fail e w
          | Inr dbSeats \<Rightarrow>
            (if dbSeats \<noteq> [] then fail (Sentinel ErrSeatFreezeStatusInvalid) w
             else reserveAndPersist s env inp w))))"

section \<open>ConfirmSeatFreeze and ReleaseSeatFreeze\<close>

record seatFreezeDBState =
  fs_token :: Token
  fs_dbSeats :: "DSeat list"
  fs_allFrozen :: bool
  fs_allSold :: bool

definition loadSeatFreezeDBState :: "freezeEnv \<Rightarrow> seatTable \<Rightarrow> string \<Rightarrow> seatFreezeDBState res" where
  "loadSeatFreezeDBState env tb tok =
     (case ParseToken tok of
        Inl _ \<Rightarrow> Inl (Sentinel ErrInvalidParam)
      | Inr token \<Rightarrow>
          bind_res (orFault (eDbReadFault env) (Inr (FindByFreezeToken tb tok))) (\<lambda>dbSeats.
          if \<exists>seat \<in> set dbSeats. ds_ShowTimeId seat \<noteq> tk_ShowTimeID token \<or> ds_TicketCategoryId seat \<noteq> tk_TicketCategoryID token
          then Inl (Sentinel ErrSeatFreezeStatusInvalid)
          else Inr \<lparr>fs_token = token, fs_dbSeats = dbSeats,
                 fs_allFrozen = (dbSeats \<noteq> [] \<and> (\<forall>seat \<in> set dbSeats. ds_SeatStatus seat = 2)),
                 fs_allSold = (dbSeats \<noteq> [] \<and> (\<forall>seat \<in> set dbSeats. ds_SeatStatus seat = 3))\<rparr>))"

text \<open>The checks both handlers make in their transaction before they change the rows.\<close>

definition lockedFrozenSeats :: "seatTable \<Rightarrow> int \<Rightarrow> int list \<Rightarrow> string \<Rightarrow> bool" where
  "lockedFrozenSeats tb st seatIDs tok \<longleftrightarrow>
     (let seats = FindByShowTimeAndIDsForUpdate tb st seatIDs in
      length seats = length seatIDs \<and> (\<forall>seat \<in> set seats. ds_SeatStatus seat = 2 \<and> ds_FreezeToken seat = Some tok))"

definition ConfirmSeatFreeze :: "SeatStockStore \<Rightarrow> freezeEnv \<Rightarrow> string \<Rightarrow> seatWorld \<Rightarrow> bool res \<times> seatWorld" where
  "ConfirmSeatFreeze s env tok w =
     (let t = eNow env; fail = (\<lambda>e w. (Inl (mapConfirmSeatFreezeError e), w)) in
      if tok = [] then (Inl (Status CInvalidArgument ErrInvalidParam), w)
      else case loadSeatFreezeDBState env (wtable w) tok of
        Inl e \<Rightarrow> fail e w
      | Inr fs \<Rightarrow>
        (let st = tk_ShowTimeID (fs_token fs); c = tk_TicketCategoryID (fs_token fs) in
         if fs_dbSeats fs = [] then fail (Sentinel ErrSeatFreezeNotFound) w
         else if fs_allSold fs then (Inr True, w)
         else if \<not> fs_allFrozen fs then fail (Sentinel ErrSeatFreezeStatusInvalid) w
         else case orFault (eFrozenFault env) (FrozenSeats t tok (wledger w st c)) of
           Inl e \<Rightarrow> fail e w
         | Inr frozenSeats \<Rightarrow>
           (if frozenSeats = [] \<or> length frozenSeats \<noteq> length (fs_dbSeats fs) then fail (Sentinel ErrSeatFreezeStatusInvalid) w
            else
              let seatIDs = map SeatID frozenSeats in
              case runTx (eTxFault env) (\<lambda>tb.
                     if \<not> lockedFrozenSeats tb st seatIDs tok then (Inl (Sentinel ErrSeatFreezeStatusInvalid), tb)
                     else (Inr (), BatchConfirmByShowTimeAndIDs tb st seatIDs tok (eWall env) (eWall env))) (wtable w) of
                (Inl e, tb) \<Rightarrow> fail e (w\<lparr>wtable := tb\<rparr>)
              | (Inr _, tb) \<Rightarrow>
                (case ConfirmFrozenSeats s t (eScriptFault env) tok (wledger w st c) of
                   (Inl e, l') \<Rightarrow> fail e (setLedger st c l' (w\<lparr>wtable := tb\<rparr>))
                 | (Inr _, l') \<Rightarrow> (Inr True, setLedger st c l' (w\<lparr>wtable := tb\<rparr>))))))"

definition ReleaseSeatFreeze :: "SeatStockStore \<Rightarrow> freezeEnv \<Rightarrow> string \<Rightarrow> seatWorld \<Rightarrow> bool res \<times> seatWorld" where
  "ReleaseSeatFreeze s env tok w =
     (let t = eNow env; fail = (\<lambda>e w. (Inl (mapReleaseSeatFreezeError e), w)) in
      if tok = [] then (Inl (Status CInvalidArgument ErrInvalidParam), w)
      else case loadSeatFreezeDBState env (wtable w) tok of
        Inl e \<Rightarrow> fail e w
      | Inr fs \<Rightarrow>
        (let st = tk_ShowTimeID (fs_token fs); c = tk_TicketCategoryID (fs_token fs) in
         if fs_dbSeats fs = [] then
           (case ReleaseFrozenSeats s t (eScriptFault env) tok (wledger w st c) of
              (Inl e, l') \<Rightarrow> (if e = Sentinel ErrProgramSeatLedgerNotReady then (Inr True, setLedger st c l' w)
                              else fail e (setLedger st c l' w))
            | (Inr _, l') \<Rightarrow> (Inr True, setLedger st c l' w))
         else if fs_allSold fs then fail (Sentinel ErrSeatFreezeStatusInvalid) w
         else if \<not> fs_allFrozen fs then fail (Sentinel ErrSeatFreezeStatusInvalid) w
         else case orFault (eFrozenFault env) (FrozenSeats t tok (wledger w st c)) of
           Inl e \<Rightarrow> fail e w
         | Inr frozenSeats \<Rightarrow>
           (if frozenSeats = [] \<or> length frozenSeats \<noteq> length (fs_dbSeats fs) then fail (Sentinel ErrSeatFreezeStatusInvalid) w
            else
              let seatIDs = map SeatID frozenSeats in
              case runTx (eTxFault env) (\<lambda>tb.
                     if \<not> lockedFrozenSeats tb st seatIDs tok then (Inl (Sentinel ErrSeatFreezeStatusInvalid), tb)
                     else (Inr (), ReleaseFrozenByShowTimeAndIDs tb st seatIDs tok (eWall env))) (wtable w) of
                (Inl e, tb) \<Rightarrow> fail e (w\<lparr>wtable := tb\<rparr>)
              | (Inr _, tb) \<Rightarrow>
                (case ReleaseFrozenSeats s t (eScriptFault env) tok (wledger w st c) of
                   (Inl e, l') \<Rightarrow> fail e (setLedger st c l' (w\<lparr>wtable := tb\<rparr>))
                 | (Inr _, l') \<Rightarrow> (Inr True, setLedger st c l' (w\<lparr>wtable := tb\<rparr>))))))"

section \<open>ReleaseSoldSeats and PrimeSeatLedger\<close>

text \<open>The message is Chinese in the source; its English text stands for it.\<close>

definition rushSaleRefundBlockedReason :: string where
  "rushSaleRefundBlockedReason = ''rush sale in progress, refund not supported''"

text \<open>The rush sale window of a program: open and end time, each possibly unset.\<close>

definition isRefundBlockedDuringRushSale :: "int option \<Rightarrow> int option \<Rightarrow> int \<Rightarrow> bool" where
  "isRefundBlockedDuringRushSale openTime endTime now =
     (case (openTime, endTime) of
        (Some openAt, Some endAt) \<Rightarrow> \<not> endAt < openAt \<and> openAt \<le> now \<and> now \<le> endAt
      | _ \<Rightarrow> False)"

fun keepPositive :: "int set \<Rightarrow> int list \<Rightarrow> int list" where
  "keepPositive seen [] = []"
| "keepPositive seen (v # vs) =
     (if v \<le> 0 \<or> v \<in> seen then keepPositive seen vs else v # keepPositive (insert v seen) vs)"

definition uniqueSeatIDs :: "int list \<Rightarrow> int list" where
  "uniqueSeatIDs seatIDs = keepPositive {} seatIDs"

text \<open>\<open>programOf\<close> finds the rush sale window of the program of a show time: not found, or its two ends.\<close>

definition ReleaseSoldSeats :: "freezeEnv \<Rightarrow> (int \<Rightarrow> (int option \<times> int option) option) \<Rightarrow> int \<Rightarrow> int list \<Rightarrow> string \<Rightarrow> seatWorld
    \<Rightarrow> bool res \<times> seatWorld" where
  "ReleaseSoldSeats env programOf showTimeId seatIds requestNo w =
     (if showTimeId \<le> 0 \<or> seatIds = [] \<or> requestNo = [] then (Inl (Status CInvalidArgument ErrInvalidParam), w)
      else if showTimeId \<notin> set (eShowTimes env) then (Inl (StatusMsg CNotFound ''show time not found''), w)
      else case programOf showTimeId of
        None \<Rightarrow> (Inl (StatusMsg CNotFound ''program not found''), w)
      | Some (openAt, endAt) \<Rightarrow>
        (if isRefundBlockedDuringRushSale openAt endAt (eWall env)
         then (Inl (StatusMsg CFailedPrecondition rushSaleRefundBlockedReason), w)
         else
           let seatIDs = uniqueSeatIDs seatIds in
           case runTx (eTxFault env) (\<lambda>tb.
                  let seats = FindByShowTimeAndIDsForUpdate tb showTimeId seatIDs in
                  if length seats \<noteq> length seatIDs then (Inl (StatusMsg CNotFound ''seat not found''), tb)
                  else if \<exists>seat \<in> set seats. ds_SeatStatus seat \<noteq> 1 \<and> ds_SeatStatus seat \<noteq> 3
                       then (Inl (StatusMsg CFailedPrecondition ''seat status invalid''), tb)
                  else (Inr (), ReleaseSoldByShowTimeAndIDs tb showTimeId seatIDs (eWall env))) (wtable w) of
             (Inl e, tb) \<Rightarrow> (Inl e, w\<lparr>wtable := tb\<rparr>)
           | (Inr _, tb) \<Rightarrow> (Inr True, w\<lparr>wtable := tb\<rparr>)))"

definition primeSeatLedger :: "SeatStockStore \<Rightarrow> freezeEnv \<Rightarrow> int \<Rightarrow> seatWorld \<Rightarrow> unit res \<times> seatWorld" where
  "primeSeatLedger s env showTimeID w =
     (if showTimeID \<le> 0 then (Inl (Sentinel ErrInvalidParam), w)
      else if showTimeID \<notin> set (eShowTimes env) then (Inl (Sentinel ErrProgramShowTimeNotFound), w)
      else (Inr (), fold (\<lambda>c w. if c \<le> 0 then w
              else setLedger showTimeID c (loadWithContext s (eNow env) (wtable w) showTimeID c (wledger w showTimeID c)) w)
            (eCategories env showTimeID) w))"

definition mapPrimeSeatLedgerError :: "goerr \<Rightarrow> goerr" where
  "mapPrimeSeatLedgerError err =
     (if isStatus err then err
      else if err = Sentinel ErrInvalidParam then Status CInvalidArgument ErrInvalidParam
      else if err = Sentinel ErrProgramShowTimeNotFound then Status CNotFound ErrProgramShowTimeNotFound
      else if err = Sentinel ErrProgramTicketCategoryNotFound then Status CNotFound ErrProgramTicketCategoryNotFound
      else if err = Sentinel ErrProgramSeatLedgerNotReady then Status CFailedPrecondition ErrProgramSeatLedgerNotReady
      else if err = Sentinel ErrInternal then Status CInternal ErrInternal
      else err)"

definition PrimeSeatLedger :: "SeatStockStore \<Rightarrow> freezeEnv \<Rightarrow> int \<Rightarrow> seatWorld \<Rightarrow> bool res \<times> seatWorld" where
  "PrimeSeatLedger s env showTimeID w =
     (if showTimeID \<le> 0 then (Inl (Status CInvalidArgument ErrInvalidParam), w)
      else case primeSeatLedger s env showTimeID w of
        (Inl e, w') \<Rightarrow> (Inl (mapPrimeSeatLedgerError e), w')
      | (Inr _, w') \<Rightarrow> (Inr True, w'))"

section \<open>A successful freeze is in the table and in the ledger\<close>

lemma set_FindByFreezeToken: "set (FindByFreezeToken tb tok) = {x \<in> set tb. ds_Status x = 1 \<and> ds_FreezeToken x = Some tok}"
  by (auto simp: FindByFreezeToken_def)

lemma locked_covers:
  assumes "distinct (map ds_Id tb)" "length (FindByShowTimeAndIDsForUpdate tb st ids) = length ids"
  shows "ds_Id ` set (FindByShowTimeAndIDsForUpdate tb st ids) = set ids"
proof (cases "ids = []")
  case False
  let ?f = "FindByShowTimeAndIDsForUpdate tb st ids"
  have m: "mset (map ds_Id ?f) = mset (map ds_Id (filter (\<lambda>s. ds_Status s = 1 \<and> ds_ShowTimeId s = st \<and> ds_Id s \<in> set ids) tb))"
    using False by (simp add: FindByShowTimeAndIDsForUpdate_def mset_map)
  have "distinct (map ds_Id ?f)" using m distinct_map_filter [OF assms(1)] mset_eq_imp_distinct_iff by blast
  then have "card (ds_Id ` set ?f) = length ids" using assms(2) distinct_card [of "map ds_Id ?f"] by simp
  moreover have "ds_Id ` set ?f \<subseteq> set ids" using False by (auto simp: FindByShowTimeAndIDsForUpdate_def)
  ultimately show ?thesis using card_length [of ids] by (intro card_subset_eq) (auto dest: card_mono [rotated])
qed (simp add: FindByShowTimeAndIDsForUpdate_def)

lemma persist_ok:
  assumes "persistFrozenSeatsToDB env st ids tok e tb = (Inr u, tb')" "distinct (map ds_Id tb)"
    and "FindByFreezeToken tb tok = []"
  shows "ds_Id ` set (FindByFreezeToken tb' tok) = set ids"
    and "\<forall>x \<in> set (FindByFreezeToken tb' tok). ds_SeatStatus x = 2 \<and> ds_FreezeExpireTime x = Some e \<and> ds_ShowTimeId x = st"
proof -
  let ?P = "\<lambda>s. ds_Status s = 1 \<and> ds_ShowTimeId s = st \<and> ds_SeatStatus s = 1 \<and> ds_Id s \<in> set ids"
  let ?f = "FindByShowTimeAndIDsForUpdate tb st ids"
  have ne: "ids \<noteq> []" using assms(1) by (auto simp: persistFrozenSeatsToDB_def)
  have tb': "tb' = BatchFreezeByShowTimeAndIDs tb st ids tok e (eWall env)"
    and len: "length ?f = length ids" and one: "\<forall>s \<in> set ?f. ds_SeatStatus s = 1"
    using assms(1) by (auto simp: persistFrozenSeatsToDB_def runTx_def Let_def split: if_splits txfault.splits)
  have none: "\<not> (x \<in> set tb \<and> ds_Status x = 1 \<and> ds_FreezeToken x = Some tok)" for x
    using assms(3) set_FindByFreezeToken [of tb tok] by auto
  have rows: "set (FindByFreezeToken tb' tok) = setFrozen tok e (eWall env) ` {x \<in> set tb. ?P x}"
    using none unfolding set_FindByFreezeToken tb' BatchFreezeByShowTimeAndIDs_def updateWhere_def
    by (auto simp: setFrozen_def image_iff)
  have "ds_Id ` {x \<in> set tb. ?P x} = set ids"
  proof -
    have "set ids = ds_Id ` set ?f" using locked_covers [OF assms(2) len] by simp
    also have "\<dots> = ds_Id ` {x \<in> set tb. ?P x}"
      using one ne by (auto simp: FindByShowTimeAndIDsForUpdate_def)
    finally show ?thesis by simp
  qed
  then show "ds_Id ` set (FindByFreezeToken tb' tok) = set ids" unfolding rows by (simp add: image_image setFrozen_def)
  show "\<forall>x \<in> set (FindByFreezeToken tb' tok). ds_SeatStatus x = 2 \<and> ds_FreezeExpireTime x = Some e \<and> ds_ShowTimeId x = st"
    unfolding rows by (auto simp: setFrozen_def)
qed

lemma decodeAll_Inr: "decodeAll xs = Inr ss \<longleftrightarrow> map decodeSeatMember xs = map Inr ss"
proof (induction xs arbitrary: ss)
  case (Cons x xs)
  then show ?case by (cases ss; cases "decodeSeatMember x"; cases "decodeAll xs") auto
qed auto

lemma decodeAll_mset:
  assumes "decodeAll xs = Inr ss" "mset ys = mset xs"
  shows "\<exists>ts. decodeAll ys = Inr ts \<and> mset ts = mset ss"
proof -
  let ?ts = "map (\<lambda>y. projr (decodeSeatMember y)) ys"
  have x: "map decodeSeatMember xs = map Inr ss" using assms(1) by (simp add: decodeAll_Inr)
  have "decodeSeatMember y \<in> range Inr" if "y \<in> set xs" for y
  proof -
    have "decodeSeatMember y \<in> set (map decodeSeatMember xs)" using that by simp
    then show ?thesis unfolding x by auto
  qed
  moreover have "set ys = set xs" using assms(2) by (metis set_mset_mset)
  ultimately have "decodeSeatMember y = Inr (projr (decodeSeatMember y))" if "y \<in> set ys" for y
    using that by (metis imageE sum.sel(2))
  then have "decodeAll ys = Inr ?ts" unfolding decodeAll_Inr map_map by simp
  moreover have "ss = map (\<lambda>y. projr (decodeSeatMember y)) xs" using arg_cong [OF x, of "map projr"] by (simp add: comp_def)
  ultimately show ?thesis using assms(2) by (simp add: mset_map)
qed

lemma freeze_fresh:
  assumes fz: "FreezeAutoAssignedSeats s t flt tok cnt l = (Inr seats, l')" and inv: "ledgerInv toks l" "lpurge t l = l"
    and none: "ZRANGE (lfrozen l tok) = []" and cnt: "0 < cnt"
  shows "int (length seats) = cnt" and "\<exists>ts. decodeAll (ZRANGE (lfrozen l' tok)) = Inr ts \<and> mset ts = mset seats"
proof -
  let ?av = "ZRANGE (lavailable l)" and ?sel = "selectSeats cnt (ZRANGE (lavailable l))"
  obtain d where st: "lstock l = Some (int (length ?av), d)" using ledgerInv_stock [OF inv(1)] by blast
  have dav: "distinct ?av"
  proof -
    have "\<forall>m. count (allMembers toks l) m \<le> 1" using inv(1) by (simp add: ledgerInv_def)
    from places_each(1) [OF this [unfolded allMembers_def]] show ?thesis using count_le_1_distinct by blast
  qed
  have one: "parse_int64 (show_int 1) = Some 1" "parse_int64 (show_int 0) = Some 0"
    by (simp_all add: in_int64_def int64_min_def int64_max_def)
  have enough: "cnt \<le> int (length ?av)" and flt: "flt = NoFault"
    using fz inv(2) st one none by (cases flt; auto simp: FreezeAutoAssignedSeats_def eval_ctx_def freezeAutoAssignedSeatsScript_def
        parseEvalStrings_def split: if_splits)+
  have sc: "freezeAutoAssignedSeatsScript t tok cnt a b l = (VInt 1 # map VStr ?sel,
      l\<lparr>lstock := SEXPIRE t a (SINCRBY (- cnt) (lstock l)),
        lfrozen := (lfrozen l)(tok := ZEXPIRE t b (fold (\<lambda>member. ZADD (memberScore member) member) ?sel (lfrozen l tok))),
        lavailable := ZEXPIRE t b (fold ZREM ?sel (lavailable l))\<rparr>)" for a b
    using st none enough by (simp add: freezeAutoAssignedSeatsScript_def Let_def)
  have dec: "decodeAll ?sel = Inr seats" and l': "lfrozen l' tok = ZEXPIRE t (ss_seatTTLSeconds s)
      (fold (\<lambda>member. ZADD (memberScore member) member) ?sel (lfrozen l tok))"
    using fz inv(2) one by (auto simp: flt FreezeAutoAssignedSeats_def eval_ctx_def sc parseEvalStrings_def comp_def)
  note sel = selectSeats_props [OF cnt enough dav]
  have "length seats = length ?sel" using dec by (metis decodeAll_Inr length_map)
  with sel show "int (length seats) = cnt" by simp
  have "mset (ZRANGE (lfrozen l' tok)) = mset ?sel"
    using mset_fold_ZADD [of ?sel "lfrozen l tok" memberScore] sel none by (simp add: l')
  from decodeAll_mset [OF dec this] show "\<exists>ts. decodeAll (ZRANGE (lfrozen l' tok)) = Inr ts \<and> mset ts = mset seats" .
qed

text \<open>
  C24. When \<open>AutoAssignAndFreezeSeats\<close> answers a new token with seats, it has frozen exactly the
  requested number: the rows of the table that carry the token are those seats, frozen until the
  requested time, and the ledger holds the same seats frozen under the token.
\<close>

theorem freeze_success_consistent:
  assumes "AutoAssignAndFreezeSeats s env inp w = (Inr resp, w')"
    and "st = aq_ShowTimeId inp" "c = aq_TicketCategoryId inp" "tok = aq_FreezeToken inp"
    and "distinct (map ds_Id (wtable w))" "FindByFreezeToken (wtable w) tok = []"
    and "ledgerInv toks (wledger w st c)" "lpurge (eNow env) (wledger w st c) = wledger w st c"
  shows "int (length (ap_Seats resp)) = aq_Count inp
    \<and> ds_Id ` set (FindByFreezeToken (wtable w') tok) = ID ` set (ap_Seats resp)
    \<and> (\<forall>x \<in> set (FindByFreezeToken (wtable w') tok). ds_SeatStatus x = 2
         \<and> ds_FreezeExpireTime x = eParseLocal env (aq_FreezeExpireTime inp))
    \<and> (\<exists>ts. decodeAll (ZRANGE (lfrozen (wledger w' st c) tok)) = Inr ts \<and> mset (map candidateOf ts) = mset (ap_Seats resp))"
proof -
  let ?l = "wledger w st c"
  have cnt: "0 < aq_Count inp"
    using assms(1) by (auto simp: AutoAssignAndFreezeSeats_def validateAutoAssignAndFreezeSeatsReq_def Let_def split: if_splits sum.splits)
  have build: "buildExistingSeatFreezeResp env (wtable w) inp ex \<noteq> Inr resp" if "ex \<noteq> []" for ex
    using that assms(4,6) by (auto simp: buildExistingSeatFreezeResp_def validateFrozenSeatsPersistedInDB_def orFault_def bind_res_def
        split: option.splits sum.splits if_splits)
  obtain fz: "FrozenSeats (eNow env) tok ?l = Inr []" and rp: "reserveAndPersist s env inp w = (Inr resp, w')"
    using assms(1) build unfolding AutoAssignAndFreezeSeats_def Let_def assms(2-4) [symmetric]
    by (auto simp: orFault_def split: sum.splits if_splits option.splits)
  from rp obtain reserved l1 expire tb where parts:
      "FreezeAutoAssignedSeats s (eNow env) (eScriptFault env) tok (aq_Count inp) ?l = (Inr reserved, l1)"
      "parseFreezeExpireTime env (aq_FreezeExpireTime inp) = Inr expire"
      "persistFrozenSeatsToDB env st (map ID (toSeatCandidatesFromLedger reserved)) tok expire (wtable w) = (Inr (), tb)"
      "ap_Seats resp = toSeatCandidatesFromLedger reserved" "w' = (setLedger st c l1 w)\<lparr>wtable := tb\<rparr>"
    unfolding reserveAndPersist_def Let_def assms(2-4) [symmetric]
    by (auto simp: setLedger_def split: sum.splits prod.splits)
  have none: "ZRANGE (lfrozen ?l tok) = []"
    using fz assms(8) by (simp add: FrozenSeats_def listSeats_def decodeAll_Inr)
  note fr = freeze_fresh [OF parts(1) assms(7,8) none cnt]
  note db = persist_ok [OF parts(3) assms(5,6)]
  have ids: "set (map ID (toSeatCandidatesFromLedger reserved)) = ID ` set (ap_Seats resp)" by (simp add: parts(4))
  have ex: "eParseLocal env (aq_FreezeExpireTime inp) = Some expire"
    using parts(2) by (auto simp: parseFreezeExpireTime_def split: if_splits option.splits)
  have "wtable w' = tb" "wledger w' st c = l1" by (simp_all add: parts(5) setLedger_def)
  with fr db ids ex show ?thesis by (auto simp: parts(4) toSeatCandidatesFromLedger_def mset_map)
qed

section \<open>A failed freeze gives its seats back\<close>

lemma same_table: "w\<lparr>wledger := L, wtable := wtable w\<rparr> = w\<lparr>wledger := L\<rparr>"
  by (cases w) simp

lemma zpurge_ZEXPIRE: "0 < b \<Longrightarrow> zpurge t (ZEXPIRE t b k) = ZEXPIRE t b k"
  by (cases k) (simp_all add: zpurge_def ZEXPIRE_def notExpired_def)

lemma freeze_fresh_outcome:
  assumes inv: "ledgerInv toks l" and pu: "lpurge t l = l" and none: "ZRANGE (lfrozen l tok) = []" and cnt: "0 < cnt"
    and ttl: "0 < ss_stockTTLSeconds s" "0 < ss_seatTTLSeconds s"
    and dec: "\<forall>m \<in> set (ZRANGE (lavailable l)). \<exists>x. decodeSeatMember m = Inr x"
    and fz: "FreezeAutoAssignedSeats s t NoFault tok cnt l = (res, l1)"
  shows "(\<exists>e. res = Inl e) \<and> l1 = l \<or>
    (\<exists>seats. res = Inr seats) \<and> lpurge t l1 = l1 \<and> mset (ZRANGE (lavailable l)) = mset (ZRANGE (lavailable l1)) + mset (ZRANGE (lfrozen l1 tok))
      \<and> ZRANGE (lfrozen l1 tok) \<noteq> []"
proof -
  let ?av = "ZRANGE (lavailable l)" and ?sel = "selectSeats cnt (ZRANGE (lavailable l))"
  obtain d where st: "lstock l = Some (int (length ?av), d)" using ledgerInv_stock [OF inv] by blast
  have dav: "distinct ?av"
  proof -
    have "\<forall>m. count (allMembers toks l) m \<le> 1" using inv by (simp add: ledgerInv_def)
    from places_each(1) [OF this [unfolded allMembers_def]] show ?thesis using count_le_1_distinct by blast
  qed
  have one: "parse_int64 (show_int 1) = Some 1" "parse_int64 (show_int 0) = Some 0"
    by (simp_all add: in_int64_def int64_min_def int64_max_def)
  show ?thesis
  proof (cases "cnt \<le> int (length ?av)")
    case False
    then have "res = Inl (Sentinel ErrSeatInventoryInsufficient)" "l1 = l"
      using fz pu st one by (auto simp: FreezeAutoAssignedSeats_def eval_ctx_def freezeAutoAssignedSeatsScript_def parseEvalStrings_def)
    then show ?thesis by simp
  next
    case True
    note sel = selectSeats_props [OF cnt True dav]
    let ?l = "l\<lparr>lstock := SEXPIRE t (ss_stockTTLSeconds s) (SINCRBY (- cnt) (lstock l)),
        lfrozen := (lfrozen l)(tok := ZEXPIRE t (ss_seatTTLSeconds s) (fold (\<lambda>member. ZADD (memberScore member) member) ?sel (lfrozen l tok))),
        lavailable := ZEXPIRE t (ss_seatTTLSeconds s) (fold ZREM ?sel (lavailable l))\<rparr>"
    have sc: "freezeAutoAssignedSeatsScript t tok cnt (ss_stockTTLSeconds s) (ss_seatTTLSeconds s) l = (VInt 1 # map VStr ?sel, ?l)"
      using st none True by (simp add: freezeAutoAssignedSeatsScript_def Let_def)
    have r: "res = decodeAll ?sel" "l1 = ?l"
      using fz pu one by (auto simp: FreezeAutoAssignedSeats_def eval_ctx_def sc parseEvalStrings_def comp_def)
    have "decodeSeatMember m = Inr (projr (decodeSeatMember m))" if "m \<in> set ?sel" for m
      using that sel dec by (metis sum.sel(2) subsetD)
    then have "decodeAll ?sel = Inr (map (\<lambda>m. projr (decodeSeatMember m)) ?sel)" by (simp add: decodeAll_Inr)
    moreover have "lpurge t l1 = l1"
    proof -
      have e: "lsold (lpurge t l) = lsold l" "lfrozen (lpurge t l) = lfrozen l" "lloading (lpurge t l) = lloading l" using pu by simp_all
      have "zpurge t (lfrozen l k) = lfrozen l k" for k using fun_cong [OF e(2), of k] by (simp add: lpurge_def)
      moreover have "SEXPIRE t (ss_stockTTLSeconds s) (SINCRBY (- cnt) (lstock l)) \<noteq> None" using ttl(1) st by (simp add: SEXPIRE_def SINCRBY_def)
      ultimately show ?thesis using e(1,3) ttl unfolding r(2) lpurge_def
        by (auto simp: zpurge_ZEXPIRE fun_eq_iff st SEXPIRE_def SINCRBY_def notExpired_def)
    qed
    moreover have f1: "mset (ZRANGE (lfrozen l1 tok)) = mset ?sel"
      using mset_fold_ZADD [of ?sel "lfrozen l tok" memberScore] sel none by (simp add: r(2))
    moreover have "mset ?av = mset (ZRANGE (lavailable l1)) + mset ?sel"
      using mset_split_filter [OF dav, of ?sel] sel by (simp add: r(2) ZRANGE_fold_ZREM)
    moreover have "ZRANGE (lfrozen l1 tok) \<noteq> []"
    proof -
      have "?sel \<noteq> []" using sel cnt by auto
      then show ?thesis using arg_cong [OF f1, of size] by auto
    qed
    ultimately show ?thesis using r(1) by simp
  qed
qed

lemma release_restores:
  assumes inv: "ledgerInv toks l1" and pu: "lpurge t l1 = l1" and ne: "ZRANGE (lfrozen l1 tok) \<noteq> []"
  shows "mset (ZRANGE (lavailable (snd (ReleaseFrozenSeats s t NoFault tok l1)))) = mset (ZRANGE (lavailable l1)) + mset (ZRANGE (lfrozen l1 tok))"
    and "lfrozen (snd (ReleaseFrozenSeats s t NoFault tok l1)) tok = None"
proof -
  have tok: "tok \<in> toks" using ne not_frozen [OF inv] by blast
  obtain d where st: "lstock l1 = Some (int (length (ZRANGE (lavailable l1))), d)" using ledgerInv_stock [OF inv] by blast
  have "snd (ReleaseFrozenSeats s t NoFault tok l1) = snd (releaseFrozenSeatsScript t tok (ss_stockTTLSeconds s) (ss_seatTTLSeconds s) l1)"
    using pu st ne by (simp add: ReleaseFrozenSeats_def finishSeats_def eval_ctx_def releaseFrozenSeatsScript_def parseEvalInt64_def Let_def)
  then show "mset (ZRANGE (lavailable (snd (ReleaseFrozenSeats s t NoFault tok l1)))) = mset (ZRANGE (lavailable l1)) + mset (ZRANGE (lfrozen l1 tok))"
    and "lfrozen (snd (ReleaseFrozenSeats s t NoFault tok l1)) tok = None"
    using ne st mset_fold_ZADD [OF frozen_apart(1,2) [OF inv tok], of memberScore] by (simp_all add: releaseFrozenSeatsScript_def Let_def)
qed


section \<open>A concrete show\<close>

definition demoEnv :: freezeEnv where
  "demoEnv = \<lparr>eNow = 1000, eWall = 2000, eShowTimes = [5], eCategories = (\<lambda>st. [7]), eFrozenFault = None,
     eDbReadFault = None, eScriptFault = NoFault, eReleaseFault = NoFault, eTxFault = TxOk,
     eParseLocal = (\<lambda>x. Some 99), eFormatLocal = (\<lambda>e. ''soon'')\<rparr>"

definition demoToken :: string where "demoToken = ''freeze-st5-tc7-o91''"

definition demoFreezeReq :: AutoAssignReq where
  "demoFreezeReq = \<lparr>aq_ShowTimeId = 5, aq_TicketCategoryId = 7, aq_Count = 2, aq_FreezeToken = demoToken, aq_FreezeExpireTime = ''later''\<rparr>"

definition demoWorld :: seatWorld where
  "demoWorld = \<lparr>wtable = [demoRow 501 1 1 1 None, demoRow 502 1 2 1 None], wledger = (\<lambda>_ _. demoStock)\<rparr>"

lemma demo_freeze_runs:
  "\<exists>resp w'. AutoAssignAndFreezeSeats demoSeatStore demoEnv demoFreezeReq demoWorld = (Inr resp, w')"
proof -
  have "(case fst (AutoAssignAndFreezeSeats demoSeatStore demoEnv demoFreezeReq demoWorld) of Inl _ \<Rightarrow> False | Inr _ \<Rightarrow> True)"
    by code_simp
  then show ?thesis by (metis prod.collapse sum.case_eq_if sum.collapse(2))
qed

lemma demoStock_token: "ledgerInv {demoToken} demoStock"
  by (simp add: ledgerInv_def demoStock_def ZRANGE_def zlist_def allMembers_def heldMembers_def frozenMembers_def)

lemma demo_rows: "distinct (map ds_Id (wtable demoWorld))" "FindByFreezeToken (wtable demoWorld) demoToken = []"
  by (simp_all add: demoWorld_def demoRow_def FindByFreezeToken_def)

theorem freeze_success_consistent_witness:
  "\<exists>resp w'. AutoAssignAndFreezeSeats demoSeatStore demoEnv demoFreezeReq demoWorld = (Inr resp, w') \<and> length (ap_Seats resp) = 2
     \<and> ds_Id ` set (FindByFreezeToken (wtable w') demoToken) = ID ` set (ap_Seats resp)"
proof -
  obtain resp w' where run: "AutoAssignAndFreezeSeats demoSeatStore demoEnv demoFreezeReq demoWorld = (Inr resp, w')"
    using demo_freeze_runs by blast
  have r: "aq_ShowTimeId demoFreezeReq = 5" "aq_TicketCategoryId demoFreezeReq = 7" "aq_FreezeToken demoFreezeReq = demoToken"
    "aq_Count demoFreezeReq = 2" by (simp_all add: demoFreezeReq_def)
  have l: "wledger demoWorld 5 7 = demoStock" by (simp add: demoWorld_def)
  from freeze_success_consistent [OF run r(1-3) [symmetric], of "{demoToken}"] l r run
  show ?thesis by (intro exI [of _ resp] exI [of _ w']) (simp add: demo_rows demoStock_token demoStock_inv)
qed

definition demoFailEnv :: freezeEnv where "demoFailEnv = demoEnv\<lparr>eTxFault := TxFail Timeout\<rparr>"

lemma demo_freeze_fails: "\<exists>e w'. AutoAssignAndFreezeSeats demoSeatStore demoFailEnv demoFreezeReq demoWorld = (Inl e, w')"
proof -
  have "(case fst (AutoAssignAndFreezeSeats demoSeatStore demoFailEnv demoFreezeReq demoWorld) of Inl _ \<Rightarrow> True | Inr _ \<Rightarrow> False)"
    by code_simp
  then show ?thesis by (metis prod.collapse sum.case_eq_if sum.collapse(1))
qed

lemma demo_store_ttl: "0 < ss_stockTTLSeconds demoSeatStore" "0 < ss_seatTTLSeconds demoSeatStore"
  by code_simp+


text \<open>A world in which the two seats are frozen for the order, in table and ledger.\<close>

definition demoFrozenWorld :: seatWorld where
  "demoFrozenWorld = snd (AutoAssignAndFreezeSeats demoSeatStore demoEnv demoFreezeReq demoWorld)"

definition demoLostEnv :: freezeEnv where "demoLostEnv = demoEnv\<lparr>eScriptFault := LostRequest Timeout\<rparr>"

definition demoHalfConfirmed :: seatWorld where
  "demoHalfConfirmed = snd (ConfirmSeatFreeze demoSeatStore demoLostEnv demoToken demoFrozenWorld)"

text \<open>
  Confirming is not repaired by a retry when the ledger was not reached: if the transaction
  commits and the ledger call is lost, the caller gets an error; calling again answers success, since
  the rows are sold, and the ledger still has the seats frozen and none sold.
\<close>

theorem confirm_retry_leaves_frozen:
  "fst (ConfirmSeatFreeze demoSeatStore demoLostEnv demoToken demoFrozenWorld) = Inl Timeout
   \<and> fst (ConfirmSeatFreeze demoSeatStore demoEnv demoToken demoHalfConfirmed) = Inr True
   \<and> (let l = wledger (snd (ConfirmSeatFreeze demoSeatStore demoEnv demoToken demoHalfConfirmed)) 5 7 in
        length (ZRANGE (lfrozen l demoToken)) = 2 \<and> ZRANGE (lsold l) = [])"
  by code_simp

lemma set_FindByIDs: "ids \<noteq> [] \<Longrightarrow> set (FindByShowTimeAndIDsForUpdate tb st ids) =
    {x \<in> set tb. ds_Status x = 1 \<and> ds_ShowTimeId x = st \<and> ds_Id x \<in> set ids}"
  by (auto simp: FindByShowTimeAndIDsForUpdate_def)

text \<open>
  Releasing sold seats frees them in the table only: after a success every requested seat of the
  show is available there, while every ledger is untouched, so the seats stay sold for the ledger
  that hands out seats.
\<close>

theorem release_sold_table_only:
  assumes "ReleaseSoldSeats env programOf st ids no w = (Inr ok, w')" "distinct (map ds_Id (wtable w))"
  shows "wledger w' = wledger w
    \<and> (\<forall>i \<in> set (uniqueSeatIDs ids). \<exists>x \<in> set (wtable w'). ds_Id x = i \<and> ds_ShowTimeId x = st \<and> ds_SeatStatus x = 1)"
proof -
  let ?ids = "uniqueSeatIDs ids" and ?tb = "wtable w"
  let ?f = "FindByShowTimeAndIDsForUpdate ?tb st ?ids"
  from assms(1) have w': "w' = w\<lparr>wtable := ReleaseSoldByShowTimeAndIDs ?tb st ?ids (eWall env)\<rparr>"
    and len: "length ?f = length ?ids" and ss: "\<forall>x \<in> set ?f. ds_SeatStatus x = 1 \<or> ds_SeatStatus x = 3"
    by (auto simp: ReleaseSoldSeats_def runTx_def Let_def split: if_splits option.splits prod.splits sum.splits txfault.splits)
  have "\<exists>x \<in> set (wtable w'). ds_Id x = i \<and> ds_ShowTimeId x = st \<and> ds_SeatStatus x = 1" if i: "i \<in> set ?ids" for i
  proof -
    from i locked_covers [OF assms(2) len] obtain x where x: "x \<in> set ?f" "ds_Id x = i" by (metis imageE)
    moreover from i have "?ids \<noteq> []" by auto
    ultimately have row: "x \<in> set ?tb" "ds_Status x = 1" "ds_ShowTimeId x = st" "ds_Id x \<in> set ?ids" by (simp_all add: set_FindByIDs)
    let ?y = "if ds_SeatStatus x = 3 then setAvailable (eWall env) x else x"
    have "?y \<in> set (wtable w')" using row unfolding w' ReleaseSoldByShowTimeAndIDs_def updateWhere_def
      by (auto intro!: image_eqI [of _ _ x])
    moreover have "ds_Id ?y = i" "ds_ShowTimeId ?y = st" "ds_SeatStatus ?y = 1"
      using x row ss by (auto simp: setAvailable_def)
    ultimately show ?thesis by blast
  qed
  with w' show ?thesis by simp
qed

theorem release_sold_table_only_witness:
  "\<exists>w'. ReleaseSoldSeats demoEnv (\<lambda>_. Some (None, None)) 5 [504, 504] ''r1'' \<lparr>wtable = demoTable, wledger = (\<lambda>_ _. demoStock)\<rparr> = (Inr True, w')
     \<and> wledger w' 5 7 = demoStock"
proof -
  let ?w = "\<lparr>wtable = demoTable, wledger = (\<lambda>_ _. demoStock)\<rparr>"
  have "fst (ReleaseSoldSeats demoEnv (\<lambda>_. Some (None, None)) 5 [504, 504] ''r1'' ?w) = Inr True" by code_simp
  then obtain w' where run: "ReleaseSoldSeats demoEnv (\<lambda>_. Some (None, None)) 5 [504, 504] ''r1'' ?w = (Inr True, w')" by (metis prod.collapse)
  have "distinct (map ds_Id (wtable ?w))" by (simp add: demoTable_def demoRow_def)
  from release_sold_table_only [OF run this] run show ?thesis by auto
qed

end
