(* ===== verification/RefundRule.thy ===== *)
theory RefundRule
  imports SeatFreeze
begin

text \<open>
  The refund rule of a program, \<open>refund_rule.go\<close> and \<open>evaluate_refund_rule_logic.go\<close> of
  \<open>services/program-rpc/internal/logic\<close>. The JSON decoder is an argument. \<open>sort.Slice\<close> is the
  stable insertion it performs on up to twelve elements; which of several stages with one threshold
  comes first beyond that is not fixed by the library.
\<close>

section \<open>Rules\<close>

record refundStage =
  st_BeforeMinutes :: int
  st_RefundPercent :: int

record refundRule =
  ru_Version :: int
  ru_Stages :: "refundStage list"

record refundRuleResult =
  rs_AllowRefund :: bool
  rs_RefundPercent :: int
  rs_RefundAmount :: int
  rs_RejectReason :: string
  rs_NoMatch :: bool

text \<open>\<open>a.Sub(b)\<close> saturates at the bounds of a \<open>Duration\<close>.\<close>

definition subDuration :: "int \<Rightarrow> int \<Rightarrow> int" where
  "subDuration a b = max int64_min (min int64_max (a - b))"

definition remainingMinutes :: "int \<Rightarrow> int \<Rightarrow> int" where
  "remainingMinutes showTime now = tdiv (subDuration showTime now) 60000000000"

definition stageInvalid :: "refundStage \<Rightarrow> bool" where
  "stageInvalid stage \<longleftrightarrow> st_BeforeMinutes stage < 0 \<or> st_RefundPercent stage < 0 \<or> 100 < st_RefundPercent stage"

text \<open>The loop over the sorted stages; \<open>None\<close> is the error of an invalid rule.\<close>

fun stageLoop :: "int \<Rightarrow> int \<Rightarrow> refundStage list \<Rightarrow> refundRuleResult option" where
  "stageLoop orderAmount remaining [] =
     Some \<lparr>rs_AllowRefund = False, rs_RefundPercent = 0, rs_RefundAmount = 0,
       rs_RejectReason = ''refund stage not matched'', rs_NoMatch = True\<rparr>"
| "stageLoop orderAmount remaining (stage # stages) =
     (if stageInvalid stage then None
      else if st_BeforeMinutes stage \<le> remaining then
        Some \<lparr>rs_AllowRefund = True, rs_RefundPercent = st_RefundPercent stage,
          rs_RefundAmount = tdiv (wrap64 (orderAmount * st_RefundPercent stage)) 100, rs_RejectReason = [], rs_NoMatch = False\<rparr>
      else stageLoop orderAmount remaining stages)"

definition evaluateRefundRule ::
    "(string \<Rightarrow> refundRule option) \<Rightarrow> string \<Rightarrow> gotime \<Rightarrow> gotime \<Rightarrow> int \<Rightarrow> refundRuleResult option" where
  "evaluateRefundRule unmarshal ruleJSON showTime now orderAmount =
     (if ruleJSON = [] \<or> is_zero showTime \<or> is_zero now \<or> orderAmount \<le> 0 then None
      else case unmarshal ruleJSON of
        None \<Rightarrow> None
      | Some rule \<Rightarrow>
        (if ru_Version rule \<noteq> 1 \<or> ru_Stages rule = [] then None
         else stageLoop orderAmount (remainingMinutes (the showTime) (the now))
                (sort_key (\<lambda>stage. - st_BeforeMinutes stage) (ru_Stages rule))))"

section \<open>EvaluateRefundRule\<close>

record programRefundInfo =
  pg_PermitRefund :: int
  pg_RefundTicketRule :: "string option"
  pg_RefundExplain :: "string option"
  pg_RefundRuleJson :: "string option"
  pg_RushSaleOpenTime :: gotime
  pg_RushSaleEndTime :: gotime

record EvaluateRefundRuleResp =
  er_AllowRefund :: bool
  er_RefundPercent :: int
  er_RefundAmount :: int
  er_RejectReason :: string

definition nullStringValue :: "string option \<Rightarrow> string" where
  "nullStringValue value = (case value of None \<Rightarrow> [] | Some v \<Rightarrow> v)"

definition programRefundDisabledReason :: "programRefundInfo \<Rightarrow> string" where
  "programRefundDisabledReason program =
     (let reason = nullStringValue (pg_RefundExplain program) in
      if reason \<noteq> [] then reason else ''program does not permit refund'')"

text \<open>The separator is the full-width semicolon, three bytes.\<close>

definition fullwidthSemicolon :: string where
  "fullwidthSemicolon = map char_of [239, 188, 155 :: nat]"

definition programRefundNoMatchReason :: "programRefundInfo \<Rightarrow> string \<Rightarrow> string" where
  "programRefundNoMatchReason program fallback =
     (let parts = filter (\<lambda>p. p \<noteq> []) [nullStringValue (pg_RefundTicketRule program), nullStringValue (pg_RefundExplain program)] in
      if parts \<noteq> [] then join_with fullwidthSemicolon parts else fallback)"

text \<open>
  \<open>findShow\<close> and \<open>findProgram\<close> are the two lookups, with \<open>ModelNotFound\<close> among their errors. The
  handler reads the clock twice.
\<close>

definition EvaluateRefundRule ::
    "(string \<Rightarrow> refundRule option) \<Rightarrow> (int \<Rightarrow> (int \<times> gotime) res) \<Rightarrow> (int \<Rightarrow> programRefundInfo res) \<Rightarrow> int \<Rightarrow> int
     \<Rightarrow> int \<Rightarrow> int \<Rightarrow> EvaluateRefundRuleResp res" where
  "EvaluateRefundRule unmarshal findShow findProgram now1 now2 showTimeId orderAmount =
     (if showTimeId \<le> 0 \<or> orderAmount \<le> 0 then Inl (Status CInvalidArgument ErrInvalidParam)
      else case findShow showTimeId of
        Inl e \<Rightarrow> Inl (if e = ModelNotFound then StatusMsg CNotFound ''program not found'' else e)
      | Inr (programId, showTime) \<Rightarrow>
      (case findProgram programId of
        Inl e \<Rightarrow> Inl (if e = ModelNotFound then StatusMsg CNotFound ''program not found'' else e)
      | Inr program \<Rightarrow>
        (if isRefundBlockedDuringRushSale (pg_RushSaleOpenTime program) (pg_RushSaleEndTime program) now1
         then Inr \<lparr>er_AllowRefund = False, er_RefundPercent = 0, er_RefundAmount = 0, er_RejectReason = rushSaleRefundBlockedReason\<rparr>
         else if pg_PermitRefund program = 2
         then Inr \<lparr>er_AllowRefund = True, er_RefundPercent = 100, er_RefundAmount = orderAmount, er_RejectReason = []\<rparr>
         else if pg_PermitRefund program = 1
         then (case evaluateRefundRule unmarshal (nullStringValue (pg_RefundRuleJson program)) showTime (Some now2) orderAmount of
                 None \<Rightarrow> Inl (StatusMsg CInternal ''invalid refund rule'')
               | Some result \<Rightarrow>
                   Inr \<lparr>er_AllowRefund = rs_AllowRefund result, er_RefundPercent = rs_RefundPercent result,
                     er_RefundAmount = rs_RefundAmount result,
                     er_RejectReason = (if rs_NoMatch result then programRefundNoMatchReason program (rs_RejectReason result)
                                        else rs_RejectReason result)\<rparr>)
         else Inr \<lparr>er_AllowRefund = False, er_RefundPercent = 0, er_RefundAmount = 0,
                er_RejectReason = programRefundDisabledReason program\<rparr>)))"

section \<open>The stage that decides\<close>

definition stageAmount :: "int \<Rightarrow> refundStage \<Rightarrow> int" where
  "stageAmount orderAmount stage = orderAmount * st_RefundPercent stage div 100"

lemma stage_amount_exact:
  assumes "0 < orderAmount" "orderAmount * 100 \<le> int64_max" "\<not> stageInvalid stage"
  shows "tdiv (wrap64 (orderAmount * st_RefundPercent stage)) 100 = stageAmount orderAmount stage"
    "0 \<le> stageAmount orderAmount stage" "stageAmount orderAmount stage \<le> orderAmount"
proof -
  have p: "0 \<le> st_RefundPercent stage" "st_RefundPercent stage \<le> 100" using assms(3) by (auto simp: stageInvalid_def)
  then have le: "orderAmount * st_RefundPercent stage \<le> orderAmount * 100" "0 \<le> orderAmount * st_RefundPercent stage"
    using assms(1) by (auto intro: mult_left_mono)
  then have "in_int64 (orderAmount * st_RefundPercent stage)"
    using assms(2) by (simp add: in_int64_def int64_min_def)
  then show "tdiv (wrap64 (orderAmount * st_RefundPercent stage)) 100 = stageAmount orderAmount stage"
    using le by (simp add: wrap64_id tdiv_nonneg stageAmount_def)
  show "0 \<le> stageAmount orderAmount stage" using le by (simp add: stageAmount_def)
  show "stageAmount orderAmount stage \<le> orderAmount" using le(1) by (simp add: stageAmount_def)
qed

lemma stageLoop_find:
  assumes "\<forall>stage \<in> set stages. \<not> stageInvalid stage" "0 < orderAmount" "orderAmount * 100 \<le> int64_max"
  shows "stageLoop orderAmount remaining stages =
    (case find (\<lambda>stage. st_BeforeMinutes stage \<le> remaining) stages of
       None \<Rightarrow> Some \<lparr>rs_AllowRefund = False, rs_RefundPercent = 0, rs_RefundAmount = 0,
         rs_RejectReason = ''refund stage not matched'', rs_NoMatch = True\<rparr>
     | Some stage \<Rightarrow> Some \<lparr>rs_AllowRefund = True, rs_RefundPercent = st_RefundPercent stage,
         rs_RefundAmount = stageAmount orderAmount stage, rs_RejectReason = [], rs_NoMatch = False\<rparr>)"
  using assms(1) by (induction stages) (simp_all add: stage_amount_exact [OF assms(2,3)])

lemma find_sorted_first:
  assumes "sorted (map k xs)" "find P xs = Some x" "y \<in> set xs" "P y"
  shows "k x \<le> k y"
  using assms by (induction xs) (auto split: if_splits)

lemma find_first_best:
  fixes f :: "'a \<Rightarrow> int"
  assumes "find P (sort_key (\<lambda>x. - f x) xs) = Some x"
  shows "x \<in> set xs \<and> P x \<and> (\<forall>y \<in> set xs. P y \<longrightarrow> f y \<le> f x)"
proof -
  have "x \<in> set xs" "P x" using find_someD [OF assms] by simp_all
  moreover have "f y \<le> f x" if "y \<in> set xs" "P y" for y
    using find_sorted_first [OF sorted_sort_key assms, of y] that by simp
  ultimately show ?thesis by blast
qed

lemma remaining_antimono: "now \<le> later \<Longrightarrow> remainingMinutes showTime later \<le> remainingMinutes showTime now"
  unfolding remainingMinutes_def subDuration_def by (rule tdiv_mono) linarith+

text \<open>What makes a rule evaluable: version 1 and at least one stage, all of them in range.\<close>

definition ruleOk :: "refundRule \<Rightarrow> bool" where
  "ruleOk rule \<longleftrightarrow> ru_Version rule = 1 \<and> ru_Stages rule \<noteq> [] \<and> (\<forall>stage \<in> set (ru_Stages rule). \<not> stageInvalid stage)"

lemma evaluate_ok:
  assumes "unmarshal json = Some rule" "ruleOk rule" "json \<noteq> []" "0 < orderAmount" "orderAmount * 100 \<le> int64_max"
  shows "evaluateRefundRule unmarshal json (Some showTime) (Some now) orderAmount =
    (case find (\<lambda>stage. st_BeforeMinutes stage \<le> remainingMinutes showTime now)
            (sort_key (\<lambda>stage. - st_BeforeMinutes stage) (ru_Stages rule)) of
       None \<Rightarrow> Some \<lparr>rs_AllowRefund = False, rs_RefundPercent = 0, rs_RefundAmount = 0,
         rs_RejectReason = ''refund stage not matched'', rs_NoMatch = True\<rparr>
     | Some stage \<Rightarrow> Some \<lparr>rs_AllowRefund = True, rs_RefundPercent = st_RefundPercent stage,
         rs_RefundAmount = stageAmount orderAmount stage, rs_RejectReason = [], rs_NoMatch = False\<rparr>)"
  using assms by (simp add: evaluateRefundRule_def is_zero_def ruleOk_def stageLoop_find)

text \<open>
  With a rule whose stages are in range the outcome is decided by the time left before the show,
  in whole minutes: if no stage is reached the refund is refused; otherwise a reached stage with
  the largest threshold gives the percentage, and the amount is that share of the order, rounded
  down, between nothing and the whole order.
\<close>

theorem refund_rule_stage:
  assumes "unmarshal json = Some rule" "ruleOk rule" "json \<noteq> []" "0 < orderAmount" "orderAmount * 100 \<le> int64_max"
  shows "\<exists>res. evaluateRefundRule unmarshal json (Some showTime) (Some now) orderAmount = Some res \<and>
    (if rs_AllowRefund res
     then \<exists>stage \<in> set (ru_Stages rule). st_BeforeMinutes stage \<le> remainingMinutes showTime now
            \<and> (\<forall>other \<in> set (ru_Stages rule). st_BeforeMinutes other \<le> remainingMinutes showTime now
                  \<longrightarrow> st_BeforeMinutes other \<le> st_BeforeMinutes stage)
            \<and> rs_RefundPercent res = st_RefundPercent stage
            \<and> rs_RefundAmount res = orderAmount * st_RefundPercent stage div 100
            \<and> 0 \<le> rs_RefundAmount res \<and> rs_RefundAmount res \<le> orderAmount
     else rs_NoMatch res \<and> rs_RefundAmount res = 0
            \<and> (\<forall>stage \<in> set (ru_Stages rule). remainingMinutes showTime now < st_BeforeMinutes stage))"
proof (cases "find (\<lambda>stage. st_BeforeMinutes stage \<le> remainingMinutes showTime now)
            (sort_key (\<lambda>stage. - st_BeforeMinutes stage) (ru_Stages rule))")
  case None
  then have "\<forall>stage \<in> set (ru_Stages rule). remainingMinutes showTime now < st_BeforeMinutes stage"
    by (simp add: find_None_iff not_le)
  then show ?thesis using evaluate_ok [of unmarshal json rule orderAmount showTime now, OF assms] by (simp add: None)
next
  case (Some stage)
  note best = find_first_best [OF Some]
  then have "\<not> stageInvalid stage" using assms(2) by (auto simp: ruleOk_def)
  then show ?thesis
    using best evaluate_ok [of unmarshal json rule orderAmount showTime now, OF assms] stage_amount_exact(2,3) [OF assms(4,5)]
    by (auto simp: Some stageAmount_def intro!: bexI [of _ stage])
qed

definition demoRule :: refundRule where
  "demoRule = \<lparr>ru_Version = 1, ru_Stages =
     [\<lparr>st_BeforeMinutes = 60, st_RefundPercent = 0\<rparr>, \<lparr>st_BeforeMinutes = 1440, st_RefundPercent = 50\<rparr>,
      \<lparr>st_BeforeMinutes = 10080, st_RefundPercent = 80\<rparr>]\<rparr>"

lemma demoRule_ok: "ruleOk demoRule"
  by (simp add: ruleOk_def demoRule_def stageInvalid_def)

definition demoNow :: "int \<Rightarrow> int" where
  "demoNow minutes = 1000000000000000000 - minutes * 60000000000"

lemma demo_remaining: "remainingMinutes 1000000000000000000 (demoNow 2000) = 2000"
  by (simp add: remainingMinutes_def subDuration_def demoNow_def int64_min_def int64_max_def tdiv_def)

theorem refund_rule_stage_witness:
  "\<exists>res. evaluateRefundRule (\<lambda>_. Some demoRule) ''x'' (Some 1000000000000000000) (Some (demoNow 2000)) 999 = Some res
     \<and> rs_AllowRefund res \<and> rs_RefundAmount res = 499"
proof -
  have "demoRule = demoRule" "''x'' \<noteq> []" "0 < (999::int)" "(999::int) * 100 \<le> int64_max" by (simp_all add: int64_max_def)
  from refund_rule_stage [of "\<lambda>_. Some demoRule" "''x''" demoRule 999 "1000000000000000000" "demoNow 2000", OF refl demoRule_ok this(2-4)]
  show ?thesis unfolding demo_remaining by (auto simp: demoRule_def split: if_splits)
qed

text \<open>
  When a rule gives no larger share closer to the show, waiting never pays: a refund that is
  still allowed later was allowed earlier, for at least the same amount.
\<close>

theorem refund_never_grows:
  assumes "unmarshal json = Some rule" "ruleOk rule" "json \<noteq> []" "0 < orderAmount" "orderAmount * 100 \<le> int64_max"
    and mono: "\<forall>s \<in> set (ru_Stages rule). \<forall>s' \<in> set (ru_Stages rule).
          st_BeforeMinutes s \<le> st_BeforeMinutes s' \<longrightarrow> st_RefundPercent s \<le> st_RefundPercent s'"
    and "now \<le> later"
    and late: "evaluateRefundRule unmarshal json (Some showTime) (Some later) orderAmount = Some r2" "rs_AllowRefund r2"
  shows "\<exists>r1. evaluateRefundRule unmarshal json (Some showTime) (Some now) orderAmount = Some r1
     \<and> rs_AllowRefund r1 \<and> rs_RefundAmount r2 \<le> rs_RefundAmount r1"
proof -
  let ?find = "\<lambda>t. find (\<lambda>stage. st_BeforeMinutes stage \<le> remainingMinutes showTime t)
            (sort_key (\<lambda>stage. - st_BeforeMinutes stage) (ru_Stages rule))"
  note ok = evaluate_ok [of unmarshal json rule orderAmount showTime, OF assms(1-5)]
  obtain s2 where f2: "?find later = Some s2" and r2: "rs_RefundAmount r2 = stageAmount orderAmount s2"
    using ok [of later] late by (auto split: option.splits)
  note b2 = find_first_best [OF f2]
  then have reach: "st_BeforeMinutes s2 \<le> remainingMinutes showTime now"
    using remaining_antimono [OF assms(7), of showTime] by simp
  then obtain s1 where f1: "?find now = Some s1"
    using b2 by (cases "?find now") (auto simp: find_None_iff)
  note b1 = find_first_best [OF f1]
  have "st_RefundPercent s2 \<le> st_RefundPercent s1" using mono b1 b2 reach by blast
  then have "stageAmount orderAmount s2 \<le> stageAmount orderAmount s1"
    using assms(4) unfolding stageAmount_def by (intro zdiv_mono1 mult_left_mono) simp_all
  then show ?thesis using ok [of now] f1 r2 by simp
qed

theorem refund_never_grows_witness:
  "\<exists>r1. evaluateRefundRule (\<lambda>_. Some demoRule) ''x'' (Some 1000000000000000000) (Some (demoNow 12000)) 999 = Some r1
     \<and> rs_AllowRefund r1 \<and> 499 \<le> rs_RefundAmount r1"
proof -
  let ?r2 = "\<lparr>rs_AllowRefund = True, rs_RefundPercent = 50, rs_RefundAmount = 499, rs_RejectReason = [], rs_NoMatch = False\<rparr>"
  have side: "''x'' \<noteq> []" "0 < (999::int)" "(999::int) * 100 \<le> int64_max" by (simp_all add: int64_max_def)
  have mono: "\<forall>s \<in> set (ru_Stages demoRule). \<forall>s' \<in> set (ru_Stages demoRule).
      st_BeforeMinutes s \<le> st_BeforeMinutes s' \<longrightarrow> st_RefundPercent s \<le> st_RefundPercent s'"
    by (simp add: demoRule_def)
  have "evaluateRefundRule (\<lambda>_. Some demoRule) ''x'' (Some 1000000000000000000) (Some (demoNow 2000)) 999 = Some ?r2"
    using evaluate_ok [of "\<lambda>_. Some demoRule" "''x''" demoRule 999 "1000000000000000000" "demoNow 2000", OF refl demoRule_ok side]
    by (simp add: demo_remaining demoRule_def stageAmount_def)
  from refund_never_grows [of "\<lambda>_. Some demoRule" "''x''" demoRule 999 "demoNow 12000" "demoNow 2000" "1000000000000000000" ?r2,
      OF refl demoRule_ok side mono _ this]
  show ?thesis by (simp add: demoNow_def)
qed

section \<open>The offer of the handler\<close>

lemma stageLoop_allows:
  assumes "stageLoop orderAmount remaining stages = Some res" "rs_AllowRefund res" "0 < orderAmount" "orderAmount * 100 \<le> int64_max"
  shows "\<exists>stage. \<not> stageInvalid stage \<and> rs_RefundPercent res = st_RefundPercent stage \<and> rs_RefundAmount res = stageAmount orderAmount stage"
  using assms(1,2)
  by (induction stages) (auto simp: stage_amount_exact [OF assms(3,4)] split: if_splits)

lemma evaluate_allows:
  assumes "evaluateRefundRule unmarshal json showTime now orderAmount = Some res" "rs_AllowRefund res" "orderAmount * 100 \<le> int64_max"
  shows "0 \<le> rs_RefundPercent res \<and> rs_RefundPercent res \<le> 100 \<and> rs_RefundAmount res = orderAmount * rs_RefundPercent res div 100"
  using assms stageLoop_allows [of orderAmount _ _ res]
  by (fastforce simp: evaluateRefundRule_def stageAmount_def stageInvalid_def split: if_splits option.splits)

text \<open>
  Whatever the stored rule is, an offered refund is a share of the order between zero and a
  hundred percent, never more than the order; and it is only offered for a program that permits
  refunds and outside the rush sale window.
\<close>

theorem refund_offer_bounded:
  assumes "EvaluateRefundRule unmarshal findShow findProgram now1 now2 showTimeId orderAmount = Inr resp"
    and "er_AllowRefund resp" "orderAmount * 100 \<le> int64_max"
  shows "0 \<le> er_RefundPercent resp \<and> er_RefundPercent resp \<le> 100
    \<and> er_RefundAmount resp = orderAmount * er_RefundPercent resp div 100
    \<and> 0 \<le> er_RefundAmount resp \<and> er_RefundAmount resp \<le> orderAmount
    \<and> (\<exists>programId showTime program. findShow showTimeId = Inr (programId, showTime) \<and> findProgram programId = Inr program
         \<and> pg_PermitRefund program \<in> {1, 2}
         \<and> \<not> isRefundBlockedDuringRushSale (pg_RushSaleOpenTime program) (pg_RushSaleEndTime program) now1)"
proof -
  have pos: "0 < orderAmount" using assms(1) by (auto simp: EvaluateRefundRule_def split: if_splits)
  have share: "0 \<le> orderAmount * q div 100 \<and> orderAmount * q div 100 \<le> orderAmount" if "0 \<le> q" "q \<le> 100" for q
  proof -
    have "orderAmount * q \<le> orderAmount * 100" "0 \<le> orderAmount * q" using that pos by (auto intro: mult_left_mono)
    then show ?thesis using zdiv_mono1 [of "orderAmount * q" "orderAmount * 100" 100] pos_imp_zdiv_nonneg_iff [of 100 "orderAmount * q"]
      by linarith
  qed
  have "0 \<le> er_RefundPercent resp \<and> er_RefundPercent resp \<le> 100 \<and> er_RefundAmount resp = orderAmount * er_RefundPercent resp div 100
    \<and> (\<exists>programId showTime program. findShow showTimeId = Inr (programId, showTime) \<and> findProgram programId = Inr program
         \<and> pg_PermitRefund program \<in> {1, 2}
         \<and> \<not> isRefundBlockedDuringRushSale (pg_RushSaleOpenTime program) (pg_RushSaleEndTime program) now1)"
    using assms(1,2) evaluate_allows [OF _ _ assms(3)]
    by (auto simp: EvaluateRefundRule_def split: if_splits sum.splits option.splits)
  then show ?thesis using share by simp
qed

definition demoProgram :: programRefundInfo where
  "demoProgram = \<lparr>pg_PermitRefund = 1, pg_RefundTicketRule = None, pg_RefundExplain = None, pg_RefundRuleJson = Some ''x'',
     pg_RushSaleOpenTime = None, pg_RushSaleEndTime = None\<rparr>"

theorem refund_offer_bounded_witness:
  "\<exists>resp. EvaluateRefundRule (\<lambda>_. Some demoRule) (\<lambda>_. Inr (5, Some 1000000000000000000)) (\<lambda>_. Inr demoProgram)
      (demoNow 2000) (demoNow 2000) 9 999 = Inr resp \<and> er_AllowRefund resp \<and> er_RefundAmount resp \<le> 999"
proof -
  let ?resp = "\<lparr>er_AllowRefund = True, er_RefundPercent = 50, er_RefundAmount = 499, er_RejectReason = []\<rparr>"
  have side: "''x'' \<noteq> []" "0 < (999::int)" "(999::int) * 100 \<le> int64_max" by (simp_all add: int64_max_def)
  have "EvaluateRefundRule (\<lambda>_. Some demoRule) (\<lambda>_. Inr (5, Some 1000000000000000000)) (\<lambda>_. Inr demoProgram)
      (demoNow 2000) (demoNow 2000) 9 999 = Inr ?resp"
    using evaluate_ok [of "\<lambda>_. Some demoRule" "''x''" demoRule 999 "1000000000000000000" "demoNow 2000", OF refl demoRule_ok side]
    by (simp add: EvaluateRefundRule_def demoProgram_def isRefundBlockedDuringRushSale_def nullStringValue_def
        demo_remaining demoRule_def stageAmount_def)
  from refund_offer_bounded [OF this] this show ?thesis by (simp add: int64_max_def)
qed

end
