(* ===== verification/ProgramModel.thy ===== *)
theory ProgramModel
  imports RefundRule
begin

text \<open>
  The program of the catalogue: its row \<open>DProgram\<close>, the values a create or update request writes
  (\<open>logic/program_write_helper.go\<close>) and the view of it that \<open>programcache/detail_loader.go\<close> builds.
  Nullable columns are options; a local time is a number, read and printed by the two arguments
  \<open>parse\<close> and \<open>fmt\<close> that stand for \<open>time.ParseInLocation\<close> and \<open>Time.Format\<close> with the layout of the source.
  A time read from a text or a row is not Go's zero time.
\<close>

section \<open>Rows and requests\<close>

record DProgram =
  dp_Id :: int
  dp_ProgramGroupId :: int
  dp_Prime :: int
  dp_AreaId :: int
  dp_ProgramCategoryId :: int
  dp_ParentProgramCategoryId :: int
  dp_Title :: string
  dp_Actor :: "string option"
  dp_Place :: "string option"
  dp_ItemPicture :: "string option"
  dp_PreSell :: int
  dp_PreSellInstruction :: "string option"
  dp_ImportantNotice :: "string option"
  dp_Detail :: string
  dp_PerOrderLimitPurchaseCount :: int
  dp_PerAccountLimitPurchaseCount :: int
  dp_RefundTicketRule :: "string option"
  dp_DeliveryInstruction :: "string option"
  dp_EntryRule :: "string option"
  dp_ChildPurchase :: "string option"
  dp_InvoiceSpecification :: "string option"
  dp_RealTicketPurchaseRule :: "string option"
  dp_AbnormalOrderDescription :: "string option"
  dp_KindReminder :: "string option"
  dp_PerformanceDuration :: "string option"
  dp_EntryTime :: "string option"
  dp_MinPerformanceCount :: "int option"
  dp_MainActor :: "string option"
  dp_MinPerformanceDuration :: "string option"
  dp_ProhibitedItem :: "string option"
  dp_DepositSpecification :: "string option"
  dp_TotalCount :: "int option"
  dp_PermitRefund :: int
  dp_RefundExplain :: "string option"
  dp_RefundRuleJson :: "string option"
  dp_RelNameTicketEntrance :: int
  dp_RelNameTicketEntranceExplain :: "string option"
  dp_PermitChooseSeat :: int
  dp_ChooseSeatExplain :: "string option"
  dp_ElectronicDeliveryTicket :: int
  dp_ElectronicDeliveryTicketExplain :: "string option"
  dp_ElectronicInvoice :: int
  dp_ElectronicInvoiceExplain :: "string option"
  dp_HighHeat :: int
  dp_ProgramStatus :: int
  dp_IssueTime :: "int option"
  dp_RushSaleOpenTime :: "int option"
  dp_RushSaleEndTime :: "int option"
  dp_InventoryPreheatStatus :: int
  dp_CreateTime :: int
  dp_EditTime :: int
  dp_Status :: int

record DProgramGroup =
  dg_Id :: int
  dg_ProgramJson :: string
  dg_RecentShowTime :: gotime
  dg_CreateTime :: int
  dg_EditTime :: int
  dg_Status :: int

record DProgramShowTime =
  sh_Id :: int
  sh_ProgramId :: int
  sh_ShowTime :: int
  sh_ShowDayTime :: "int option"
  sh_ShowWeekTime :: string
  sh_ShowEndTime :: "int option"
  sh_CreateTime :: "int option"
  sh_EditTime :: "int option"
  sh_Status :: int

record DProgramCategory =
  gc_Id :: int
  gc_ParentId :: int
  gc_Name :: string
  gc_Type :: int
  gc_CreateTime :: int
  gc_EditTime :: int
  gc_Status :: int

record DTicketCategory =
  tc_Id :: int
  tc_ProgramId :: int
  tc_ShowTimeId :: int
  tc_Introduce :: string
  tc_Price :: int
  tc_TotalNumber :: int
  tc_RemainNumber :: int
  tc_CreateTime :: int
  tc_EditTime :: int
  tc_Status :: int

record CreateProgramReq =
  cq_ProgramGroupId :: int
  cq_Prime :: int
  cq_AreaId :: int
  cq_ProgramCategoryId :: int
  cq_ParentProgramCategoryId :: int
  cq_Title :: string
  cq_Actor :: string
  cq_Place :: string
  cq_ItemPicture :: string
  cq_PreSell :: int
  cq_PreSellInstruction :: string
  cq_ImportantNotice :: string
  cq_Detail :: string
  cq_PerOrderLimitPurchaseCount :: int
  cq_PerAccountLimitPurchaseCount :: int
  cq_RefundTicketRule :: string
  cq_DeliveryInstruction :: string
  cq_EntryRule :: string
  cq_ChildPurchase :: string
  cq_InvoiceSpecification :: string
  cq_RealTicketPurchaseRule :: string
  cq_AbnormalOrderDescription :: string
  cq_KindReminder :: string
  cq_PerformanceDuration :: string
  cq_EntryTime :: string
  cq_MinPerformanceCount :: int
  cq_MainActor :: string
  cq_MinPerformanceDuration :: string
  cq_ProhibitedItem :: string
  cq_DepositSpecification :: string
  cq_TotalCount :: int
  cq_PermitRefund :: int
  cq_RefundExplain :: string
  cq_RefundRuleJson :: string
  cq_RelNameTicketEntrance :: int
  cq_RelNameTicketEntranceExplain :: string
  cq_PermitChooseSeat :: int
  cq_ChooseSeatExplain :: string
  cq_ElectronicDeliveryTicket :: int
  cq_ElectronicDeliveryTicketExplain :: string
  cq_ElectronicInvoice :: int
  cq_ElectronicInvoiceExplain :: string
  cq_HighHeat :: int
  cq_ProgramStatus :: int
  cq_IssueTime :: string
  cq_RushSaleOpenTime :: string
  cq_RushSaleEndTime :: string
  cq_Status :: int

record UpdateProgramReq =
  uq_Id :: int
  uq_ProgramGroupId :: int
  uq_Prime :: int
  uq_AreaId :: int
  uq_ProgramCategoryId :: int
  uq_ParentProgramCategoryId :: int
  uq_Title :: string
  uq_Actor :: string
  uq_Place :: string
  uq_ItemPicture :: string
  uq_PreSell :: int
  uq_PreSellInstruction :: string
  uq_ImportantNotice :: string
  uq_Detail :: string
  uq_PerOrderLimitPurchaseCount :: int
  uq_PerAccountLimitPurchaseCount :: int
  uq_RefundTicketRule :: string
  uq_DeliveryInstruction :: string
  uq_EntryRule :: string
  uq_ChildPurchase :: string
  uq_InvoiceSpecification :: string
  uq_RealTicketPurchaseRule :: string
  uq_AbnormalOrderDescription :: string
  uq_KindReminder :: string
  uq_PerformanceDuration :: string
  uq_EntryTime :: string
  uq_MinPerformanceCount :: int
  uq_MainActor :: string
  uq_MinPerformanceDuration :: string
  uq_ProhibitedItem :: string
  uq_DepositSpecification :: string
  uq_TotalCount :: int
  uq_PermitRefund :: int
  uq_RefundExplain :: string
  uq_RefundRuleJson :: string
  uq_RelNameTicketEntrance :: int
  uq_RelNameTicketEntranceExplain :: string
  uq_PermitChooseSeat :: int
  uq_ChooseSeatExplain :: string
  uq_ElectronicDeliveryTicket :: int
  uq_ElectronicDeliveryTicketExplain :: string
  uq_ElectronicInvoice :: int
  uq_ElectronicInvoiceExplain :: string
  uq_HighHeat :: int
  uq_ProgramStatus :: int
  uq_IssueTime :: string
  uq_RushSaleOpenTime :: string
  uq_RushSaleEndTime :: string
  uq_Status :: int

record programWriteValues =
  pv_id :: int
  pv_programGroupId :: int
  pv_prime :: int
  pv_areaId :: int
  pv_programCategoryId :: int
  pv_parentProgramCategoryId :: int
  pv_title :: string
  pv_actor :: string
  pv_place :: string
  pv_itemPicture :: string
  pv_preSell :: int
  pv_preSellInstruction :: string
  pv_importantNotice :: string
  pv_detail :: string
  pv_perOrderLimitPurchaseCount :: int
  pv_perAccountLimitPurchaseCount :: int
  pv_refundTicketRule :: string
  pv_deliveryInstruction :: string
  pv_entryRule :: string
  pv_childPurchase :: string
  pv_invoiceSpecification :: string
  pv_realTicketPurchaseRule :: string
  pv_abnormalOrderDescription :: string
  pv_kindReminder :: string
  pv_performanceDuration :: string
  pv_entryTime :: string
  pv_minPerformanceCount :: int
  pv_mainActor :: string
  pv_minPerformanceDuration :: string
  pv_prohibitedItem :: string
  pv_depositSpecification :: string
  pv_totalCount :: int
  pv_permitRefund :: int
  pv_refundExplain :: string
  pv_refundRuleJson :: string
  pv_relNameTicketEntrance :: int
  pv_relNameTicketEntranceExplain :: string
  pv_permitChooseSeat :: int
  pv_chooseSeatExplain :: string
  pv_electronicDeliveryTicket :: int
  pv_electronicDeliveryTicketExplain :: string
  pv_electronicInvoice :: int
  pv_electronicInvoiceExplain :: string
  pv_highHeat :: int
  pv_programStatus :: int
  pv_issueTime :: string
  pv_rushSaleOpenTime :: string
  pv_rushSaleEndTime :: string
  pv_inventoryPreheatStatus :: int
  pv_status :: int

section \<open>Writing a program\<close>

definition newCreateProgramValues :: "CreateProgramReq \<Rightarrow> programWriteValues" where
  "newCreateProgramValues req = \<lparr>pv_id = 0, pv_programGroupId = cq_ProgramGroupId req, pv_prime = cq_Prime req,
     pv_areaId = cq_AreaId req, pv_programCategoryId = cq_ProgramCategoryId req,
     pv_parentProgramCategoryId = cq_ParentProgramCategoryId req, pv_title = cq_Title req, pv_actor = cq_Actor req,
     pv_place = cq_Place req, pv_itemPicture = cq_ItemPicture req, pv_preSell = cq_PreSell req,
     pv_preSellInstruction = cq_PreSellInstruction req, pv_importantNotice = cq_ImportantNotice req,
     pv_detail = cq_Detail req, pv_perOrderLimitPurchaseCount = cq_PerOrderLimitPurchaseCount req,
     pv_perAccountLimitPurchaseCount = cq_PerAccountLimitPurchaseCount req, pv_refundTicketRule = cq_RefundTicketRule req,
     pv_deliveryInstruction = cq_DeliveryInstruction req, pv_entryRule = cq_EntryRule req,
     pv_childPurchase = cq_ChildPurchase req, pv_invoiceSpecification = cq_InvoiceSpecification req,
     pv_realTicketPurchaseRule = cq_RealTicketPurchaseRule req,
     pv_abnormalOrderDescription = cq_AbnormalOrderDescription req, pv_kindReminder = cq_KindReminder req,
     pv_performanceDuration = cq_PerformanceDuration req, pv_entryTime = cq_EntryTime req,
     pv_minPerformanceCount = cq_MinPerformanceCount req, pv_mainActor = cq_MainActor req,
     pv_minPerformanceDuration = cq_MinPerformanceDuration req, pv_prohibitedItem = cq_ProhibitedItem req,
     pv_depositSpecification = cq_DepositSpecification req, pv_totalCount = cq_TotalCount req,
     pv_permitRefund = cq_PermitRefund req, pv_refundExplain = cq_RefundExplain req,
     pv_refundRuleJson = cq_RefundRuleJson req, pv_relNameTicketEntrance = cq_RelNameTicketEntrance req,
     pv_relNameTicketEntranceExplain = cq_RelNameTicketEntranceExplain req, pv_permitChooseSeat = cq_PermitChooseSeat req,
     pv_chooseSeatExplain = cq_ChooseSeatExplain req, pv_electronicDeliveryTicket = cq_ElectronicDeliveryTicket req,
     pv_electronicDeliveryTicketExplain = cq_ElectronicDeliveryTicketExplain req,
     pv_electronicInvoice = cq_ElectronicInvoice req, pv_electronicInvoiceExplain = cq_ElectronicInvoiceExplain req,
     pv_highHeat = cq_HighHeat req, pv_programStatus = cq_ProgramStatus req, pv_issueTime = cq_IssueTime req,
     pv_rushSaleOpenTime = cq_RushSaleOpenTime req, pv_rushSaleEndTime = cq_RushSaleEndTime req,
     pv_inventoryPreheatStatus = 0, pv_status = cq_Status req\<rparr>"

definition newUpdateProgramValues :: "UpdateProgramReq \<Rightarrow> programWriteValues" where
  "newUpdateProgramValues req =
     (newCreateProgramValues \<lparr>cq_ProgramGroupId = uq_ProgramGroupId req, cq_Prime = uq_Prime req,
     cq_AreaId = uq_AreaId req, cq_ProgramCategoryId = uq_ProgramCategoryId req,
     cq_ParentProgramCategoryId = uq_ParentProgramCategoryId req, cq_Title = uq_Title req, cq_Actor = uq_Actor req,
     cq_Place = uq_Place req, cq_ItemPicture = uq_ItemPicture req, cq_PreSell = uq_PreSell req,
     cq_PreSellInstruction = uq_PreSellInstruction req, cq_ImportantNotice = uq_ImportantNotice req,
     cq_Detail = uq_Detail req, cq_PerOrderLimitPurchaseCount = uq_PerOrderLimitPurchaseCount req,
     cq_PerAccountLimitPurchaseCount = uq_PerAccountLimitPurchaseCount req, cq_RefundTicketRule = uq_RefundTicketRule req,
     cq_DeliveryInstruction = uq_DeliveryInstruction req, cq_EntryRule = uq_EntryRule req,
     cq_ChildPurchase = uq_ChildPurchase req, cq_InvoiceSpecification = uq_InvoiceSpecification req,
     cq_RealTicketPurchaseRule = uq_RealTicketPurchaseRule req,
     cq_AbnormalOrderDescription = uq_AbnormalOrderDescription req, cq_KindReminder = uq_KindReminder req,
     cq_PerformanceDuration = uq_PerformanceDuration req, cq_EntryTime = uq_EntryTime req,
     cq_MinPerformanceCount = uq_MinPerformanceCount req, cq_MainActor = uq_MainActor req,
     cq_MinPerformanceDuration = uq_MinPerformanceDuration req, cq_ProhibitedItem = uq_ProhibitedItem req,
     cq_DepositSpecification = uq_DepositSpecification req, cq_TotalCount = uq_TotalCount req,
     cq_PermitRefund = uq_PermitRefund req, cq_RefundExplain = uq_RefundExplain req,
     cq_RefundRuleJson = uq_RefundRuleJson req, cq_RelNameTicketEntrance = uq_RelNameTicketEntrance req,
     cq_RelNameTicketEntranceExplain = uq_RelNameTicketEntranceExplain req, cq_PermitChooseSeat = uq_PermitChooseSeat req,
     cq_ChooseSeatExplain = uq_ChooseSeatExplain req, cq_ElectronicDeliveryTicket = uq_ElectronicDeliveryTicket req,
     cq_ElectronicDeliveryTicketExplain = uq_ElectronicDeliveryTicketExplain req,
     cq_ElectronicInvoice = uq_ElectronicInvoice req, cq_ElectronicInvoiceExplain = uq_ElectronicInvoiceExplain req,
     cq_HighHeat = uq_HighHeat req, cq_ProgramStatus = uq_ProgramStatus req, cq_IssueTime = uq_IssueTime req,
     cq_RushSaleOpenTime = uq_RushSaleOpenTime req, cq_RushSaleEndTime = uq_RushSaleEndTime req, cq_Status = uq_Status req\<rparr>)\<lparr>pv_id := uq_Id req\<rparr>"

definition errInvalid :: goerr where
  "errInvalid = Status CInvalidArgument ErrInvalidParam"

text \<open>A text that is empty or parses.\<close>

definition timeOk :: "(string \<Rightarrow> int option) \<Rightarrow> string \<Rightarrow> bool" where
  "timeOk parse s \<longleftrightarrow> s = [] \<or> parse s \<noteq> None"

definition validateProgramWriteValues :: "(string \<Rightarrow> int option) \<Rightarrow> programWriteValues \<Rightarrow> bool \<Rightarrow> unit res" where
  "validateProgramWriteValues parse values requireID =
     (if requireID \<and> pv_id values \<le> 0 then Inl errInvalid
      else if pv_programGroupId values \<le> 0 \<or> pv_areaId values \<le> 0 \<or> pv_programCategoryId values \<le> 0
        \<or> pv_parentProgramCategoryId values \<le> 0 \<or> trim_space (pv_title values) = [] \<or> trim_space (pv_detail values) = [] then Inl errInvalid
      else if \<not> timeOk parse (pv_issueTime values) then Inl errInvalid
      else if \<not> timeOk parse (pv_rushSaleOpenTime values) then Inl errInvalid
      else if \<not> timeOk parse (pv_rushSaleEndTime values) then Inl errInvalid
      else if requireID \<and> (trim_space (pv_rushSaleOpenTime values) = [] \<or> trim_space (pv_rushSaleEndTime values) = []) then Inl errInvalid
      else if pv_rushSaleOpenTime values \<noteq> [] \<and> pv_rushSaleEndTime values \<noteq> []
        \<and> the (parse (pv_rushSaleEndTime values)) < the (parse (pv_rushSaleOpenTime values)) then Inl errInvalid
      else Inr ())"

definition applyCreateProgramDefaults :: "programWriteValues \<Rightarrow> programWriteValues" where
  "applyCreateProgramDefaults values =
     (let d = (\<lambda>x y :: int. if x = 0 then y else x) in
      values\<lparr>pv_prime := d (pv_prime values) 1,
        pv_perOrderLimitPurchaseCount := d (pv_perOrderLimitPurchaseCount values) 6,
        pv_perAccountLimitPurchaseCount := d (pv_perAccountLimitPurchaseCount values) 6,
        pv_electronicDeliveryTicket := d (pv_electronicDeliveryTicket values) 1,
        pv_electronicInvoice := d (pv_electronicInvoice values) 1,
        pv_programStatus := d (pv_programStatus values) 1, pv_status := d (pv_status values) 1\<rparr>)"

definition parseNullTime :: "(string \<Rightarrow> int option) \<Rightarrow> string \<Rightarrow> int option res" where
  "parseNullTime parse value =
     (if trim_space value = [] then Inr None
      else case parse value of None \<Rightarrow> Inl (Other ''parsing time'') | Some t \<Rightarrow> Inr (Some t))"

definition nullString :: "string \<Rightarrow> string option" where
  "nullString value = (if trim_space value = [] then None else Some value)"

definition nullInt64 :: "int \<Rightarrow> int option" where
  "nullInt64 value = (if value \<le> 0 then None else Some value)"

definition buildProgramModel :: "(string \<Rightarrow> int option) \<Rightarrow> programWriteValues \<Rightarrow> int \<Rightarrow> DProgram res" where
  "buildProgramModel parse values now =
     (case parseNullTime parse (pv_issueTime values) of Inl _ \<Rightarrow> Inl errInvalid | Inr issueTime \<Rightarrow>
     (case parseNullTime parse (pv_rushSaleOpenTime values) of Inl _ \<Rightarrow> Inl errInvalid | Inr rushSaleOpenTime \<Rightarrow>
     (case parseNullTime parse (pv_rushSaleEndTime values) of Inl _ \<Rightarrow> Inl errInvalid | Inr rushSaleEndTime \<Rightarrow>
      Inr
     \<lparr>dp_Id = pv_id values, dp_ProgramGroupId = pv_programGroupId values, dp_Prime = pv_prime values,
     dp_AreaId = pv_areaId values, dp_ProgramCategoryId = pv_programCategoryId values,
     dp_ParentProgramCategoryId = pv_parentProgramCategoryId values, dp_Title = pv_title values,
     dp_Actor = nullString (pv_actor values), dp_Place = nullString (pv_place values),
     dp_ItemPicture = nullString (pv_itemPicture values), dp_PreSell = pv_preSell values,
     dp_PreSellInstruction = nullString (pv_preSellInstruction values),
     dp_ImportantNotice = nullString (pv_importantNotice values), dp_Detail = pv_detail values,
     dp_PerOrderLimitPurchaseCount = pv_perOrderLimitPurchaseCount values,
     dp_PerAccountLimitPurchaseCount = pv_perAccountLimitPurchaseCount values,
     dp_RefundTicketRule = nullString (pv_refundTicketRule values),
     dp_DeliveryInstruction = nullString (pv_deliveryInstruction values), dp_EntryRule = nullString (pv_entryRule values),
     dp_ChildPurchase = nullString (pv_childPurchase values),
     dp_InvoiceSpecification = nullString (pv_invoiceSpecification values),
     dp_RealTicketPurchaseRule = nullString (pv_realTicketPurchaseRule values),
     dp_AbnormalOrderDescription = nullString (pv_abnormalOrderDescription values),
     dp_KindReminder = nullString (pv_kindReminder values),
     dp_PerformanceDuration = nullString (pv_performanceDuration values), dp_EntryTime = nullString (pv_entryTime values),
     dp_MinPerformanceCount = nullInt64 (pv_minPerformanceCount values), dp_MainActor = nullString (pv_mainActor values),
     dp_MinPerformanceDuration = nullString (pv_minPerformanceDuration values),
     dp_ProhibitedItem = nullString (pv_prohibitedItem values),
     dp_DepositSpecification = nullString (pv_depositSpecification values),
     dp_TotalCount = nullInt64 (pv_totalCount values), dp_PermitRefund = pv_permitRefund values,
     dp_RefundExplain = nullString (pv_refundExplain values), dp_RefundRuleJson = nullString (pv_refundRuleJson values),
     dp_RelNameTicketEntrance = pv_relNameTicketEntrance values,
     dp_RelNameTicketEntranceExplain = nullString (pv_relNameTicketEntranceExplain values),
     dp_PermitChooseSeat = pv_permitChooseSeat values, dp_ChooseSeatExplain = nullString (pv_chooseSeatExplain values),
     dp_ElectronicDeliveryTicket = pv_electronicDeliveryTicket values,
     dp_ElectronicDeliveryTicketExplain = nullString (pv_electronicDeliveryTicketExplain values),
     dp_ElectronicInvoice = pv_electronicInvoice values,
     dp_ElectronicInvoiceExplain = nullString (pv_electronicInvoiceExplain values), dp_HighHeat = pv_highHeat values,
     dp_ProgramStatus = pv_programStatus values, dp_IssueTime = issueTime, dp_RushSaleOpenTime = rushSaleOpenTime,
     dp_RushSaleEndTime = rushSaleEndTime, dp_InventoryPreheatStatus = pv_inventoryPreheatStatus values,
     dp_CreateTime = now, dp_EditTime = now, dp_Status = pv_status values\<rparr>)))"

section \<open>The view of a program\<close>

record ProgramSimpleInfo =
  si_ProgramId :: int
  si_AreaId :: int
  si_AreaIdName :: string

record ProgramGroupInfo =
  gi_Id :: int
  gi_ProgramSimpleInfoVoList :: "ProgramSimpleInfo list"
  gi_RecentShowTime :: string

record TicketCategoryInfo =
  ti_Id :: int
  ti_Introduce :: string
  ti_Price :: int

record ProgramDetailViewInfo =
  dv_Id :: int
  dv_ProgramGroupId :: int
  dv_Prime :: int
  dv_ProgramGroupVo :: "ProgramGroupInfo option"
  dv_Title :: string
  dv_Actor :: string
  dv_Place :: string
  dv_ItemPicture :: string
  dv_PreSell :: int
  dv_PreSellInstruction :: string
  dv_ImportantNotice :: string
  dv_AreaId :: int
  dv_AreaName :: string
  dv_ProgramCategoryId :: int
  dv_ProgramCategoryName :: string
  dv_ParentProgramCategoryId :: int
  dv_ParentProgramCategoryName :: string
  dv_Detail :: string
  dv_PerOrderLimitPurchaseCount :: int
  dv_PerAccountLimitPurchaseCount :: int
  dv_RefundTicketRule :: string
  dv_DeliveryInstruction :: string
  dv_EntryRule :: string
  dv_ChildPurchase :: string
  dv_InvoiceSpecification :: string
  dv_RealTicketPurchaseRule :: string
  dv_AbnormalOrderDescription :: string
  dv_KindReminder :: string
  dv_PerformanceDuration :: string
  dv_EntryTime :: string
  dv_MinPerformanceCount :: int
  dv_MainActor :: string
  dv_MinPerformanceDuration :: string
  dv_ProhibitedItem :: string
  dv_DepositSpecification :: string
  dv_TotalCount :: int
  dv_PermitRefund :: int
  dv_RefundExplain :: string
  dv_RelNameTicketEntrance :: int
  dv_RelNameTicketEntranceExplain :: string
  dv_PermitChooseSeat :: int
  dv_ChooseSeatExplain :: string
  dv_ElectronicDeliveryTicket :: int
  dv_ElectronicDeliveryTicketExplain :: string
  dv_ElectronicInvoice :: int
  dv_ElectronicInvoiceExplain :: string
  dv_HighHeat :: int
  dv_ProgramStatus :: int
  dv_IssueTime :: string
  dv_RushSaleOpenTime :: string
  dv_RushSaleEndTime :: string
  dv_InventoryPreheatStatus :: int
  dv_ShowTime :: string
  dv_ShowDayTime :: string
  dv_ShowWeekTime :: string
  dv_TicketCategoryVoList :: "TicketCategoryInfo list"

definition nullInt64Value :: "int option \<Rightarrow> int" where
  "nullInt64Value value = (case value of None \<Rightarrow> 0 | Some i \<Rightarrow> i)"

definition formatTime :: "(int \<Rightarrow> string) \<Rightarrow> gotime \<Rightarrow> string" where
  "formatTime fmt value = (case value of None \<Rightarrow> [] | Some t \<Rightarrow> fmt t)"

definition formatNullTime :: "(int \<Rightarrow> string) \<Rightarrow> int option \<Rightarrow> string" where
  "formatNullTime fmt value = (case value of None \<Rightarrow> [] | Some t \<Rightarrow> fmt t)"

definition formatProgramShowTime :: "(int \<Rightarrow> string) \<Rightarrow> DProgramShowTime option \<Rightarrow> string" where
  "formatProgramShowTime fmt showTime = (case showTime of None \<Rightarrow> [] | Some s \<Rightarrow> formatTime fmt (Some (sh_ShowTime s)))"

definition formatProgramShowDayTime :: "(int \<Rightarrow> string) \<Rightarrow> DProgramShowTime option \<Rightarrow> string" where
  "formatProgramShowDayTime fmt showTime = (case showTime of None \<Rightarrow> [] | Some s \<Rightarrow> formatNullTime fmt (sh_ShowDayTime s))"

definition programShowWeekTime :: "DProgramShowTime option \<Rightarrow> string" where
  "programShowWeekTime showTime = (case showTime of None \<Rightarrow> [] | Some s \<Rightarrow> sh_ShowWeekTime s)"

definition categoryName :: "DProgramCategory option \<Rightarrow> string" where
  "categoryName category = (case category of None \<Rightarrow> [] | Some c \<Rightarrow> gc_Name c)"

text \<open>A later category replaces an earlier one with the same id.\<close>

definition buildCategoryMap :: "DProgramCategory list \<Rightarrow> int \<rightharpoonup> DProgramCategory" where
  "buildCategoryMap categories = fold (\<lambda>c m. m(gc_Id c \<mapsto> c)) categories Map.empty"

definition toTicketCategoryInfoList :: "DTicketCategory list \<Rightarrow> TicketCategoryInfo list" where
  "toTicketCategoryInfoList ticketCategories =
     map (\<lambda>c. \<lparr>ti_Id = tc_Id c, ti_Introduce = tc_Introduce c, ti_Price = tc_Price c\<rparr>) ticketCategories"

text \<open>\<open>json\<close> decodes the list of programs of a group; the fields keep their names.\<close>

definition parseProgramGroupJSON :: "(int \<Rightarrow> string) \<Rightarrow> (string \<Rightarrow> ProgramSimpleInfo list option) \<Rightarrow> DProgramGroup option \<Rightarrow> ProgramGroupInfo option res" where
  "parseProgramGroupJSON fmt json grp =
     (case grp of None \<Rightarrow> Inr None
      | Some g \<Rightarrow>
        (case (if dg_ProgramJson g = [] then Some [] else json (dg_ProgramJson g)) of
           None \<Rightarrow> Inl (Other ''json'')
         | Some items \<Rightarrow> Inr (Some \<lparr>gi_Id = dg_Id g, gi_ProgramSimpleInfoVoList = items,
             gi_RecentShowTime = formatTime fmt (dg_RecentShowTime g)\<rparr>)))"

definition toProgramDetailViewInfo :: "(int \<Rightarrow> string) \<Rightarrow> DProgram \<Rightarrow> DProgramShowTime option \<Rightarrow> ProgramGroupInfo option
    \<Rightarrow> (int \<rightharpoonup> DProgramCategory) \<Rightarrow> DTicketCategory list \<Rightarrow> ProgramDetailViewInfo" where
  "toProgramDetailViewInfo fmt program firstShowTime groupInfo categories ticketCategories =
     \<lparr>dv_Id = dp_Id program, dv_ProgramGroupId = dp_ProgramGroupId program, dv_Prime = dp_Prime program,
     dv_ProgramGroupVo = groupInfo, dv_Title = dp_Title program, dv_Actor = nullStringValue (dp_Actor program),
     dv_Place = nullStringValue (dp_Place program), dv_ItemPicture = nullStringValue (dp_ItemPicture program),
     dv_PreSell = dp_PreSell program, dv_PreSellInstruction = nullStringValue (dp_PreSellInstruction program),
     dv_ImportantNotice = nullStringValue (dp_ImportantNotice program), dv_AreaId = dp_AreaId program, dv_AreaName = [],
     dv_ProgramCategoryId = dp_ProgramCategoryId program,
     dv_ProgramCategoryName = categoryName (categories (dp_ProgramCategoryId program)),
     dv_ParentProgramCategoryId = dp_ParentProgramCategoryId program,
     dv_ParentProgramCategoryName = categoryName (categories (dp_ParentProgramCategoryId program)),
     dv_Detail = dp_Detail program, dv_PerOrderLimitPurchaseCount = dp_PerOrderLimitPurchaseCount program,
     dv_PerAccountLimitPurchaseCount = dp_PerAccountLimitPurchaseCount program,
     dv_RefundTicketRule = nullStringValue (dp_RefundTicketRule program),
     dv_DeliveryInstruction = nullStringValue (dp_DeliveryInstruction program),
     dv_EntryRule = nullStringValue (dp_EntryRule program), dv_ChildPurchase = nullStringValue (dp_ChildPurchase program),
     dv_InvoiceSpecification = nullStringValue (dp_InvoiceSpecification program),
     dv_RealTicketPurchaseRule = nullStringValue (dp_RealTicketPurchaseRule program),
     dv_AbnormalOrderDescription = nullStringValue (dp_AbnormalOrderDescription program),
     dv_KindReminder = nullStringValue (dp_KindReminder program),
     dv_PerformanceDuration = nullStringValue (dp_PerformanceDuration program),
     dv_EntryTime = nullStringValue (dp_EntryTime program),
     dv_MinPerformanceCount = nullInt64Value (dp_MinPerformanceCount program),
     dv_MainActor = nullStringValue (dp_MainActor program),
     dv_MinPerformanceDuration = nullStringValue (dp_MinPerformanceDuration program),
     dv_ProhibitedItem = nullStringValue (dp_ProhibitedItem program),
     dv_DepositSpecification = nullStringValue (dp_DepositSpecification program),
     dv_TotalCount = nullInt64Value (dp_TotalCount program), dv_PermitRefund = dp_PermitRefund program,
     dv_RefundExplain = nullStringValue (dp_RefundExplain program),
     dv_RelNameTicketEntrance = dp_RelNameTicketEntrance program,
     dv_RelNameTicketEntranceExplain = nullStringValue (dp_RelNameTicketEntranceExplain program),
     dv_PermitChooseSeat = dp_PermitChooseSeat program,
     dv_ChooseSeatExplain = nullStringValue (dp_ChooseSeatExplain program),
     dv_ElectronicDeliveryTicket = dp_ElectronicDeliveryTicket program,
     dv_ElectronicDeliveryTicketExplain = nullStringValue (dp_ElectronicDeliveryTicketExplain program),
     dv_ElectronicInvoice = dp_ElectronicInvoice program,
     dv_ElectronicInvoiceExplain = nullStringValue (dp_ElectronicInvoiceExplain program), dv_HighHeat = dp_HighHeat program,
     dv_ProgramStatus = dp_ProgramStatus program, dv_IssueTime = formatNullTime fmt (dp_IssueTime program),
     dv_RushSaleOpenTime = formatNullTime fmt (dp_RushSaleOpenTime program),
     dv_RushSaleEndTime = formatNullTime fmt (dp_RushSaleEndTime program),
     dv_InventoryPreheatStatus = dp_InventoryPreheatStatus program, dv_ShowTime = formatProgramShowTime fmt firstShowTime,
     dv_ShowDayTime = formatProgramShowDayTime fmt firstShowTime, dv_ShowWeekTime = programShowWeekTime firstShowTime,
     dv_TicketCategoryVoList = toTicketCategoryInfoList ticketCategories\<rparr>"

section \<open>What is written is what is shown\<close>

definition blankText :: "string \<Rightarrow> string" where
  "blankText s = (if trim_space s = [] then [] else s)"

text \<open>A time text in the form in which times are printed.\<close>

definition canonicalTime :: "(string \<Rightarrow> int option) \<Rightarrow> (int \<Rightarrow> string) \<Rightarrow> string \<Rightarrow> bool" where
  "canonicalTime parse fmt s \<longleftrightarrow> (case parse s of None \<Rightarrow> trim_space s = [] | Some t \<Rightarrow> fmt t = s)"

lemma nullString_value [simp]: "nullStringValue (nullString s) = blankText s"
  by (simp add: nullStringValue_def nullString_def blankText_def)

lemma nullInt64_value [simp]: "nullInt64Value (nullInt64 i) = max 0 i"
  by (simp add: nullInt64Value_def nullInt64_def)

lemma nullTime_value: "parseNullTime parse s = Inr t \<Longrightarrow> canonicalTime parse fmt s \<Longrightarrow> formatNullTime fmt t = blankText s"
  by (auto simp: parseNullTime_def canonicalTime_def formatNullTime_def blankText_def split: if_splits option.splits)

lemma buildProgramModel_times:
  assumes "buildProgramModel parse values now = Inr data"
  shows "parseNullTime parse (pv_issueTime values) = Inr (dp_IssueTime data)"
    and "parseNullTime parse (pv_rushSaleOpenTime values) = Inr (dp_RushSaleOpenTime data)"
    and "parseNullTime parse (pv_rushSaleEndTime values) = Inr (dp_RushSaleEndTime data)"
  using assms by (auto simp: buildProgramModel_def split: sum.splits)

text \<open>
  A program survives the trip through its row: the view of a program that was written from a request
  shows every value of the request under its own name, blank texts as empty, negative counts as zero
  and the times as they were given.
\<close>

theorem program_view_roundtrip:
  assumes "buildProgramModel parse values now = Inr data"
    and "canonicalTime parse fmt (pv_issueTime values)" "canonicalTime parse fmt (pv_rushSaleOpenTime values)"
    and "canonicalTime parse fmt (pv_rushSaleEndTime values)"
  shows "toProgramDetailViewInfo fmt data firstShowTime groupInfo categories ticketCategories =
    \<lparr>dv_Id = pv_id values, dv_ProgramGroupId = pv_programGroupId values, dv_Prime = pv_prime values,
      dv_ProgramGroupVo = groupInfo, dv_Title = pv_title values, dv_Actor = blankText (pv_actor values),
      dv_Place = blankText (pv_place values), dv_ItemPicture = blankText (pv_itemPicture values),
      dv_PreSell = pv_preSell values, dv_PreSellInstruction = blankText (pv_preSellInstruction values),
      dv_ImportantNotice = blankText (pv_importantNotice values), dv_AreaId = pv_areaId values, dv_AreaName = [],
      dv_ProgramCategoryId = pv_programCategoryId values,
      dv_ProgramCategoryName = categoryName (categories (pv_programCategoryId values)),
      dv_ParentProgramCategoryId = pv_parentProgramCategoryId values,
      dv_ParentProgramCategoryName = categoryName (categories (pv_parentProgramCategoryId values)),
      dv_Detail = pv_detail values, dv_PerOrderLimitPurchaseCount = pv_perOrderLimitPurchaseCount values,
      dv_PerAccountLimitPurchaseCount = pv_perAccountLimitPurchaseCount values,
      dv_RefundTicketRule = blankText (pv_refundTicketRule values),
      dv_DeliveryInstruction = blankText (pv_deliveryInstruction values), dv_EntryRule = blankText (pv_entryRule values),
      dv_ChildPurchase = blankText (pv_childPurchase values),
      dv_InvoiceSpecification = blankText (pv_invoiceSpecification values),
      dv_RealTicketPurchaseRule = blankText (pv_realTicketPurchaseRule values),
      dv_AbnormalOrderDescription = blankText (pv_abnormalOrderDescription values),
      dv_KindReminder = blankText (pv_kindReminder values),
      dv_PerformanceDuration = blankText (pv_performanceDuration values), dv_EntryTime = blankText (pv_entryTime values),
      dv_MinPerformanceCount = max 0 (pv_minPerformanceCount values), dv_MainActor = blankText (pv_mainActor values),
      dv_MinPerformanceDuration = blankText (pv_minPerformanceDuration values),
      dv_ProhibitedItem = blankText (pv_prohibitedItem values),
      dv_DepositSpecification = blankText (pv_depositSpecification values), dv_TotalCount = max 0 (pv_totalCount values),
      dv_PermitRefund = pv_permitRefund values, dv_RefundExplain = blankText (pv_refundExplain values),
      dv_RelNameTicketEntrance = pv_relNameTicketEntrance values,
      dv_RelNameTicketEntranceExplain = blankText (pv_relNameTicketEntranceExplain values),
      dv_PermitChooseSeat = pv_permitChooseSeat values, dv_ChooseSeatExplain = blankText (pv_chooseSeatExplain values),
      dv_ElectronicDeliveryTicket = pv_electronicDeliveryTicket values,
      dv_ElectronicDeliveryTicketExplain = blankText (pv_electronicDeliveryTicketExplain values),
      dv_ElectronicInvoice = pv_electronicInvoice values,
      dv_ElectronicInvoiceExplain = blankText (pv_electronicInvoiceExplain values), dv_HighHeat = pv_highHeat values,
      dv_ProgramStatus = pv_programStatus values, dv_IssueTime = blankText (pv_issueTime values),
      dv_RushSaleOpenTime = blankText (pv_rushSaleOpenTime values),
      dv_RushSaleEndTime = blankText (pv_rushSaleEndTime values),
      dv_InventoryPreheatStatus = pv_inventoryPreheatStatus values, dv_ShowTime = formatProgramShowTime fmt firstShowTime,
      dv_ShowDayTime = formatProgramShowDayTime fmt firstShowTime, dv_ShowWeekTime = programShowWeekTime firstShowTime,
      dv_TicketCategoryVoList = toTicketCategoryInfoList ticketCategories\<rparr>"
proof -
  note t = nullTime_value [OF buildProgramModel_times(1) [OF assms(1)] assms(2)]
    nullTime_value [OF buildProgramModel_times(2) [OF assms(1)] assms(3)]
    nullTime_value [OF buildProgramModel_times(3) [OF assms(1)] assms(4)]
  obtain i s e where d: "data = \<lparr>dp_Id = pv_id values, dp_ProgramGroupId = pv_programGroupId values, dp_Prime = pv_prime values,
     dp_AreaId = pv_areaId values, dp_ProgramCategoryId = pv_programCategoryId values,
     dp_ParentProgramCategoryId = pv_parentProgramCategoryId values, dp_Title = pv_title values,
     dp_Actor = nullString (pv_actor values), dp_Place = nullString (pv_place values),
     dp_ItemPicture = nullString (pv_itemPicture values), dp_PreSell = pv_preSell values,
     dp_PreSellInstruction = nullString (pv_preSellInstruction values),
     dp_ImportantNotice = nullString (pv_importantNotice values), dp_Detail = pv_detail values,
     dp_PerOrderLimitPurchaseCount = pv_perOrderLimitPurchaseCount values,
     dp_PerAccountLimitPurchaseCount = pv_perAccountLimitPurchaseCount values,
     dp_RefundTicketRule = nullString (pv_refundTicketRule values),
     dp_DeliveryInstruction = nullString (pv_deliveryInstruction values), dp_EntryRule = nullString (pv_entryRule values),
     dp_ChildPurchase = nullString (pv_childPurchase values),
     dp_InvoiceSpecification = nullString (pv_invoiceSpecification values),
     dp_RealTicketPurchaseRule = nullString (pv_realTicketPurchaseRule values),
     dp_AbnormalOrderDescription = nullString (pv_abnormalOrderDescription values),
     dp_KindReminder = nullString (pv_kindReminder values),
     dp_PerformanceDuration = nullString (pv_performanceDuration values), dp_EntryTime = nullString (pv_entryTime values),
     dp_MinPerformanceCount = nullInt64 (pv_minPerformanceCount values), dp_MainActor = nullString (pv_mainActor values),
     dp_MinPerformanceDuration = nullString (pv_minPerformanceDuration values),
     dp_ProhibitedItem = nullString (pv_prohibitedItem values),
     dp_DepositSpecification = nullString (pv_depositSpecification values),
     dp_TotalCount = nullInt64 (pv_totalCount values), dp_PermitRefund = pv_permitRefund values,
     dp_RefundExplain = nullString (pv_refundExplain values), dp_RefundRuleJson = nullString (pv_refundRuleJson values),
     dp_RelNameTicketEntrance = pv_relNameTicketEntrance values,
     dp_RelNameTicketEntranceExplain = nullString (pv_relNameTicketEntranceExplain values),
     dp_PermitChooseSeat = pv_permitChooseSeat values, dp_ChooseSeatExplain = nullString (pv_chooseSeatExplain values),
     dp_ElectronicDeliveryTicket = pv_electronicDeliveryTicket values,
     dp_ElectronicDeliveryTicketExplain = nullString (pv_electronicDeliveryTicketExplain values),
     dp_ElectronicInvoice = pv_electronicInvoice values,
     dp_ElectronicInvoiceExplain = nullString (pv_electronicInvoiceExplain values), dp_HighHeat = pv_highHeat values,
     dp_ProgramStatus = pv_programStatus values, dp_IssueTime = i, dp_RushSaleOpenTime = s,
     dp_RushSaleEndTime = e, dp_InventoryPreheatStatus = pv_inventoryPreheatStatus values,
     dp_CreateTime = now, dp_EditTime = now, dp_Status = pv_status values\<rparr>"
    using assms(1) by (auto simp: buildProgramModel_def split: sum.splits)
  show ?thesis unfolding toProgramDetailViewInfo_def t by (simp add: d)
qed

section \<open>A request\<close>

definition demoTime :: "string \<Rightarrow> int option" where
  "demoTime = map_of [(''o'', 100), (''e'', 500), (''s'', 200)]"

definition demoPrint :: "int \<Rightarrow> string" where
  "demoPrint t = (if t = 100 then ''o'' else if t = 500 then ''e'' else ''s'')"

definition demoProgramReq :: CreateProgramReq where
  "demoProgramReq = \<lparr>cq_ProgramGroupId = 3, cq_Prime = 0, cq_AreaId = 1, cq_ProgramCategoryId = 11,
     cq_ParentProgramCategoryId = 10, cq_Title = ''t'', cq_Actor = '' '', cq_Place = ''p'', cq_ItemPicture = [], cq_PreSell = 0,
     cq_PreSellInstruction = [], cq_ImportantNotice = [], cq_Detail = ''d'', cq_PerOrderLimitPurchaseCount = 0,
     cq_PerAccountLimitPurchaseCount = 0, cq_RefundTicketRule = [], cq_DeliveryInstruction = [], cq_EntryRule = [],
     cq_ChildPurchase = [], cq_InvoiceSpecification = [], cq_RealTicketPurchaseRule = [], cq_AbnormalOrderDescription = [],
     cq_KindReminder = [], cq_PerformanceDuration = [], cq_EntryTime = [], cq_MinPerformanceCount = 0, cq_MainActor = [],
     cq_MinPerformanceDuration = [], cq_ProhibitedItem = [], cq_DepositSpecification = [], cq_TotalCount = - 4,
     cq_PermitRefund = 0, cq_RefundExplain = [], cq_RefundRuleJson = [], cq_RelNameTicketEntrance = 0,
     cq_RelNameTicketEntranceExplain = [], cq_PermitChooseSeat = 0, cq_ChooseSeatExplain = [], cq_ElectronicDeliveryTicket = 0,
     cq_ElectronicDeliveryTicketExplain = [], cq_ElectronicInvoice = 0, cq_ElectronicInvoiceExplain = [], cq_HighHeat = 0,
     cq_ProgramStatus = 0, cq_IssueTime = [], cq_RushSaleOpenTime = ''o'', cq_RushSaleEndTime = ''e'', cq_Status = 0\<rparr>"

definition demoValues :: programWriteValues where
  "demoValues = applyCreateProgramDefaults (newCreateProgramValues demoProgramReq)"

lemma demoValues_times: "pv_issueTime demoValues = []" "pv_rushSaleOpenTime demoValues = ''o''" "pv_rushSaleEndTime demoValues = ''e''"
  by (simp_all add: demoValues_def applyCreateProgramDefaults_def newCreateProgramValues_def demoProgramReq_def Let_def)

lemma demo_trim [simp]: "trim_space [] = []" "trim_space ''o'' = ''o''" "trim_space ''e'' = ''e''"
  by code_simp+

theorem program_view_roundtrip_witness:
  "\<exists>data. buildProgramModel demoTime demoValues 7 = Inr data
     \<and> dv_RushSaleOpenTime (toProgramDetailViewInfo demoPrint data None None Map.empty []) = ''o''
     \<and> dv_Actor (toProgramDetailViewInfo demoPrint data None None Map.empty []) = []
     \<and> dv_TotalCount (toProgramDetailViewInfo demoPrint data None None Map.empty []) = 0
     \<and> dv_PerOrderLimitPurchaseCount (toProgramDetailViewInfo demoPrint data None None Map.empty []) = 6"
proof -
  obtain data where d: "buildProgramModel demoTime demoValues 7 = Inr data"
    by (simp add: buildProgramModel_def parseNullTime_def demoValues_times demoTime_def)
  have t: "canonicalTime demoTime demoPrint (pv_issueTime demoValues)" "canonicalTime demoTime demoPrint (pv_rushSaleOpenTime demoValues)"
    "canonicalTime demoTime demoPrint (pv_rushSaleEndTime demoValues)"
    by (simp_all add: canonicalTime_def demoValues_times demoTime_def demoPrint_def)
  have v: "blankText (pv_rushSaleOpenTime demoValues) = ''o''" "blankText (pv_actor demoValues) = []" "max 0 (pv_totalCount demoValues) = 0"
    "pv_perOrderLimitPurchaseCount demoValues = 6"
    by code_simp+
  show ?thesis using d v by (intro exI [of _ data]) (simp add: program_view_roundtrip [OF d t])
qed

end
