(* ===== verification/DelayTask.thy ===== *)
theory DelayTask
  imports Redis
begin

text \<open>
  Delayed tasks: the outbox table of \<open>services/order-rpc/internal/model/d_delay_task_outbox_model.go\<close>,
  the life cycle of \<open>pkg/delaytask\<close>, the store and the dispatcher of \<open>jobs/order-close\<close> (the
  ones of \<open>jobs/rush-inventory-preheat\<close> are the same code). The queue that accepts a published
  task is an argument of the dispatcher.
\<close>

section \<open>Life cycle\<close>

definition OutboxTaskStatusPending :: int where "OutboxTaskStatusPending = 0"
definition OutboxTaskStatusPublished :: int where "OutboxTaskStatusPublished = 1"
definition OutboxTaskStatusProcessed :: int where "OutboxTaskStatusProcessed = 3"
definition OutboxTaskStatusFailed :: int where "OutboxTaskStatusFailed = 4"

lemmas outbox_status_defs = OutboxTaskStatusPending_def OutboxTaskStatusPublished_def
  OutboxTaskStatusProcessed_def OutboxTaskStatusFailed_def

definition allowedOutboxTransitions :: "(int \<times> int list) list" where
  "allowedOutboxTransitions =
     [(OutboxTaskStatusPending, [OutboxTaskStatusPublished, OutboxTaskStatusFailed]),
      (OutboxTaskStatusPublished, [OutboxTaskStatusPublished, OutboxTaskStatusProcessed, OutboxTaskStatusFailed]),
      (OutboxTaskStatusFailed, [OutboxTaskStatusPublished, OutboxTaskStatusProcessed])]"

definition CanTransition :: "int \<Rightarrow> int \<Rightarrow> bool" where
  "CanTransition from to = (case map_of allowedOutboxTransitions from of None \<Rightarrow> False | Some allowed \<Rightarrow> to \<in> set allowed)"

definition IsTerminal :: "int \<Rightarrow> bool" where
  "IsTerminal status = (status = OutboxTaskStatusProcessed)"

definition ShouldRepublish :: "int \<Rightarrow> bool" where
  "ShouldRepublish status = (status = OutboxTaskStatusPublished \<or> status = OutboxTaskStatusFailed)"

section \<open>The outbox table\<close>

record DDelayTaskOutbox =
  dt_Id :: int
  dt_TaskType :: string
  dt_TaskKey :: string
  dt_Payload :: string
  dt_ExecuteAt :: int
  dt_TaskStatus :: int
  dt_PublishAttempts :: int
  dt_ConsumeAttempts :: int
  dt_LastPublishError :: string
  dt_LastConsumeError :: string
  dt_PublishedTime :: gotime
  dt_ProcessedTime :: gotime
  dt_CreateTime :: int
  dt_EditTime :: int
  dt_Status :: int

text \<open>
  \<open>insert ... on duplicate key update\<close>: the row with the same primary key, or else the one with
  the same type and key, is reset to the new payload and time.
\<close>

definition resetTask :: "DDelayTaskOutbox \<Rightarrow> DDelayTaskOutbox \<Rightarrow> DDelayTaskOutbox" where
  "resetTask new old = old\<lparr>dt_Payload := dt_Payload new, dt_ExecuteAt := dt_ExecuteAt new, dt_TaskStatus := 0,
     dt_PublishAttempts := 0, dt_ConsumeAttempts := 0, dt_LastPublishError := [], dt_LastConsumeError := [],
     dt_PublishedTime := None, dt_ProcessedTime := None, dt_EditTime := dt_EditTime new, dt_Status := 1\<rparr>"

definition sameTask :: "string \<Rightarrow> string \<Rightarrow> DDelayTaskOutbox \<Rightarrow> bool" where
  "sameTask taskType taskKey row \<longleftrightarrow> dt_TaskType row = taskType \<and> dt_TaskKey row = taskKey"

definition upsertTask :: "DDelayTaskOutbox \<Rightarrow> DDelayTaskOutbox list \<Rightarrow> DDelayTaskOutbox list" where
  "upsertTask new tbl =
     (if dt_Id new \<in> dt_Id ` set tbl
      then map (\<lambda>row. if dt_Id row = dt_Id new then resetTask new row else row) tbl
      else if \<exists>row \<in> set tbl. sameTask (dt_TaskType new) (dt_TaskKey new) row
      then map (\<lambda>row. if sameTask (dt_TaskType new) (dt_TaskKey new) row then resetTask new row else row) tbl
      else tbl @ [new])"

fun InsertTasks :: "DDelayTaskOutbox list \<Rightarrow> DDelayTaskOutbox list \<Rightarrow> DDelayTaskOutbox list" where
  "InsertTasks [] tbl = tbl"
| "InsertTasks (row # rows) tbl = InsertTasks rows (upsertTask row tbl)"

text \<open>\<open>MarkProcessed\<close> returns the old status and the new number of attempts.\<close>

definition markTaskProcessed :: "int \<Rightarrow> DDelayTaskOutbox \<Rightarrow> DDelayTaskOutbox" where
  "markTaskProcessed processedAt row = row\<lparr>dt_TaskStatus := 3, dt_ConsumeAttempts := dt_ConsumeAttempts row + 1,
     dt_LastConsumeError := [], dt_ProcessedTime := Some processedAt, dt_EditTime := processedAt\<rparr>"

definition MarkProcessed :: "string \<Rightarrow> string \<Rightarrow> int \<Rightarrow> DDelayTaskOutbox list \<Rightarrow> (int \<times> int) \<times> DDelayTaskOutbox list" where
  "MarkProcessed taskType taskKey processedAt tbl =
     (case find (\<lambda>row. sameTask taskType taskKey row \<and> dt_Status row = 1) tbl of
        None \<Rightarrow> ((0, 0), tbl)
      | Some row \<Rightarrow> ((dt_TaskStatus row, dt_ConsumeAttempts row + 1),
          map (\<lambda>r. if sameTask taskType taskKey r \<and> dt_Status r = 1 then markTaskProcessed processedAt r else r) tbl))"

section \<open>Close-timeout tasks\<close>

definition TaskTypeCloseTimeout :: string where "TaskTypeCloseTimeout = ''order.close_timeout''"

definition TaskKey :: "int \<Rightarrow> string" where
  "TaskKey orderNumber = TaskTypeCloseTimeout @ '':'' @ show_int orderNumber"

text \<open>The JSON object with the one field \<open>orderNumber\<close>; character 34 is the double quote.\<close>

definition Marshal :: "int \<Rightarrow> string" where
  "Marshal orderNumber = ''{'' @ [char_of (34::nat)] @ ''orderNumber'' @ [char_of (34::nat)] @ '':'' @ show_int orderNumber @ ''}''"

definition newCloseTimeoutDelayTaskRow :: "int \<Rightarrow> int \<Rightarrow> int \<Rightarrow> int \<Rightarrow> DDelayTaskOutbox" where
  "newCloseTimeoutDelayTaskRow i now orderNumber executeAt =
     \<lparr>dt_Id = i, dt_TaskType = TaskTypeCloseTimeout, dt_TaskKey = TaskKey orderNumber, dt_Payload = Marshal orderNumber,
      dt_ExecuteAt = executeAt, dt_TaskStatus = OutboxTaskStatusPending, dt_PublishAttempts = 0, dt_ConsumeAttempts = 0,
      dt_LastPublishError = [], dt_LastConsumeError = [], dt_PublishedTime = None, dt_ProcessedTime = None,
      dt_CreateTime = now, dt_EditTime = now, dt_Status = 1\<rparr>"

section \<open>Store of the dispatcher\<close>

text \<open>The connections of the store, in ascending order of their keys, each with its outbox table.\<close>

type_synonym outboxes = "(string \<times> DDelayTaskOutbox list) list"

record Task =
  ta_DBKey :: string
  ta_ID :: int
  ta_TaskType :: string
  ta_TaskKey :: string
  ta_Payload :: string
  ta_ExecuteAt :: int
  ta_TaskStatus :: int
  ta_PublishAttempts :: int

definition DispatchableStatuses :: "int list" where
  "DispatchableStatuses = [OutboxTaskStatusPending, OutboxTaskStatusPublished, OutboxTaskStatusFailed]"

definition dispatchable :: "DDelayTaskOutbox \<Rightarrow> bool" where
  "dispatchable row \<longleftrightarrow> dt_TaskStatus row \<in> {0, 1, 4} \<and> dt_Status row = 1"

definition taskOf :: "string \<Rightarrow> DDelayTaskOutbox \<Rightarrow> Task" where
  "taskOf dbKey row = \<lparr>ta_DBKey = dbKey, ta_ID = dt_Id row, ta_TaskType = dt_TaskType row, ta_TaskKey = dt_TaskKey row,
     ta_Payload = dt_Payload row, ta_ExecuteAt = dt_ExecuteAt row, ta_TaskStatus = dt_TaskStatus row,
     ta_PublishAttempts = dt_PublishAttempts row\<rparr>"

definition ListDispatchableByTaskType :: "string \<Rightarrow> outboxes \<Rightarrow> Task list" where
  "ListDispatchableByTaskType taskType dbs =
     sort_key ta_ID (concat (map (\<lambda>(dbKey, tbl).
       map (taskOf dbKey) (sort_key dt_Id (filter (\<lambda>row. dispatchable row \<and> dt_TaskType row = taskType) tbl))) dbs))"

definition updateRow :: "string \<Rightarrow> (DDelayTaskOutbox \<Rightarrow> bool) \<Rightarrow> (DDelayTaskOutbox \<Rightarrow> DDelayTaskOutbox) \<Rightarrow> outboxes \<Rightarrow> outboxes" where
  "updateRow dbKey P f dbs = map (\<lambda>(k, tbl). (k, if k = dbKey then map (\<lambda>row. if P row then f row else row) tbl else tbl)) dbs"

definition MarkPublished :: "string \<Rightarrow> int \<Rightarrow> int \<Rightarrow> outboxes \<Rightarrow> unit res \<times> outboxes" where
  "MarkPublished dbKey i publishedAt dbs =
     (if dbKey \<notin> fst ` set dbs then (Inl (Other (''delay task shard not configured: '' @ dbKey)), dbs)
      else (Inr (), updateRow dbKey (\<lambda>row. dt_Id row = i \<and> dispatchable row)
        (\<lambda>row. row\<lparr>dt_TaskStatus := 1, dt_PublishAttempts := dt_PublishAttempts row + 1,
           dt_PublishedTime := Some publishedAt, dt_LastPublishError := [], dt_EditTime := publishedAt\<rparr>) dbs))"

definition MarkPublishFailed :: "string \<Rightarrow> int \<Rightarrow> int \<Rightarrow> string \<Rightarrow> outboxes \<Rightarrow> unit res \<times> outboxes" where
  "MarkPublishFailed dbKey i failedAt publishErr dbs =
     (if dbKey \<notin> fst ` set dbs then (Inl (Other (''delay task shard not configured: '' @ dbKey)), dbs)
      else (Inr (), updateRow dbKey (\<lambda>row. dt_Id row = i \<and> dispatchable row)
        (\<lambda>row. row\<lparr>dt_TaskStatus := 4, dt_PublishAttempts := dt_PublishAttempts row + 1,
           dt_LastPublishError := publishErr, dt_EditTime := failedAt\<rparr>) dbs))"

section \<open>Dispatcher\<close>

text \<open>
  The answer of the queue to a task: accepted, refused as a duplicate, or an error. The publisher
  counts a duplicate as published.
\<close>

datatype enqueueResult = Enqueued | DuplicateTask | EnqueueError string

definition IsDuplicateEnqueueError :: "enqueueResult \<Rightarrow> bool" where
  "IsDuplicateEnqueueError r = (r = DuplicateTask)"

definition Publish :: "(Task \<Rightarrow> enqueueResult) \<Rightarrow> Task \<Rightarrow> enqueueResult" where
  "Publish enqueue task = (let r = enqueue task in if IsDuplicateEnqueueError r then Enqueued else r)"

text \<open>
  One run: a failing database call ends it with the tasks behind still undispatched. Clock and faults
  are indexed by the position of the task.
\<close>

record dispatchEnv =
  de_Enqueue :: "Task \<Rightarrow> enqueueResult"
  de_Now :: "nat \<Rightarrow> int"
  de_Fault :: "nat \<Rightarrow> fault"

fun dispatchLoop :: "dispatchEnv \<Rightarrow> nat \<Rightarrow> Task list \<Rightarrow> outboxes \<Rightarrow> unit res \<times> outboxes" where
  "dispatchLoop env n [] dbs = (Inr (), dbs)"
| "dispatchLoop env n (task # tasks) dbs =
     (case eval_ctx (de_Fault env n)
        (case Publish (de_Enqueue env) task of
           EnqueueError e \<Rightarrow> MarkPublishFailed (ta_DBKey task) (ta_ID task) (de_Now env n) e
         | _ \<Rightarrow> MarkPublished (ta_DBKey task) (ta_ID task) (de_Now env n)) dbs of
        (Inl e, dbs') \<Rightarrow> (Inl e, dbs')
      | (Inr _, dbs') \<Rightarrow> dispatchLoop env (Suc n) tasks dbs')"

definition Run :: "dispatchEnv \<Rightarrow> goerr option \<Rightarrow> string \<Rightarrow> outboxes \<Rightarrow> unit res \<times> outboxes" where
  "Run env listFault taskType dbs =
     (case listFault of
        Some e \<Rightarrow> (Inl e, dbs)
      | None \<Rightarrow> dispatchLoop env 0 (ListDispatchableByTaskType taskType dbs) dbs)"

section \<open>No task is lost\<close>

definition pendingTask :: "string \<Rightarrow> string \<Rightarrow> string \<Rightarrow> outboxes \<Rightarrow> bool" where
  "pendingTask k ty key dbs \<longleftrightarrow> (\<exists>tbl. (k, tbl) \<in> set dbs \<and> (\<exists>row \<in> set tbl. sameTask ty key row \<and> dispatchable row))"

definition onTable :: "string \<Rightarrow> (DDelayTaskOutbox list \<Rightarrow> DDelayTaskOutbox list) \<Rightarrow> outboxes \<Rightarrow> outboxes" where
  "onTable k f dbs = map (\<lambda>(k', tbl). (k', if k' = k then f tbl else tbl)) dbs"

text \<open>Everything that can happen to the outboxes except that one given task is processed.\<close>

inductive otherStep :: "string \<Rightarrow> string \<Rightarrow> string \<Rightarrow> outboxes \<Rightarrow> outboxes \<Rightarrow> bool" for k ty key where
  dispatch: "otherStep k ty key dbs (snd (Run env listFault taskType dbs))"
| insert: "otherStep k ty key dbs (onTable k' (InsertTasks rows) dbs)"
| processed: "(k', ty', key') \<noteq> (k, ty, key) \<Longrightarrow> otherStep k ty key dbs (onTable k' (\<lambda>tbl. snd (MarkProcessed ty' key' now tbl)) dbs)"

text \<open>Updates that keep what identifies a task and leave dispatchable rows dispatchable.\<close>

definition benign :: "(DDelayTaskOutbox \<Rightarrow> DDelayTaskOutbox) \<Rightarrow> bool" where
  "benign f \<longleftrightarrow> (\<forall>row. sameTask (dt_TaskType row) (dt_TaskKey row) (f row) \<and> (dispatchable row \<longrightarrow> dispatchable (f row)))"

lemma pending_onTable:
  assumes "pendingTask k ty key dbs"
    and "\<And>tbl row. row \<in> set tbl \<Longrightarrow> sameTask ty key row \<Longrightarrow> dispatchable row \<Longrightarrow> k' = k \<Longrightarrow>
      \<exists>row' \<in> set (f tbl). sameTask ty key row' \<and> dispatchable row'"
  shows "pendingTask k ty key (onTable k' f dbs)"
proof -
  obtain tbl row where t: "(k, tbl) \<in> set dbs" "row \<in> set tbl" "sameTask ty key row" "dispatchable row"
    using assms(1) by (auto simp: pendingTask_def)
  have "(k, if k = k' then f tbl else tbl) \<in> set (onTable k' f dbs)"
    using t(1) by (force simp: onTable_def)
  moreover have "\<exists>row' \<in> set (if k = k' then f tbl else tbl). sameTask ty key row' \<and> dispatchable row'"
    using assms(2) [OF t(2-4)] t(2-4) by auto
  ultimately show ?thesis unfolding pendingTask_def by blast
qed

lemma pending_map:
  assumes "row \<in> set tbl" "sameTask ty key row" "dispatchable row" "benign f"
  shows "\<exists>row' \<in> set (map f tbl). sameTask ty key row' \<and> dispatchable row'"
  using assms by (auto simp: benign_def sameTask_def)

lemma updateRow_onTable: "updateRow k P f = onTable k (map (\<lambda>row. if P row then f row else row))"
  by (simp add: updateRow_def onTable_def fun_eq_iff)

lemma pending_mark:
  assumes "pendingTask k ty key dbs"
  shows "pendingTask k ty key (snd (MarkPublished k' i now dbs))" "pendingTask k ty key (snd (MarkPublishFailed k' i now e dbs))"
  unfolding MarkPublished_def MarkPublishFailed_def updateRow_onTable
  using assms by (auto intro!: pending_onTable [OF assms] pending_map simp: benign_def dispatchable_def sameTask_def)

lemma pending_dispatchLoop: "pendingTask k ty key dbs \<Longrightarrow> pendingTask k ty key (snd (dispatchLoop env n tasks dbs))"
proof (induction tasks arbitrary: n dbs)
  case (Cons task tasks)
  let ?mark = "case Publish (de_Enqueue env) task of EnqueueError e \<Rightarrow> MarkPublishFailed (ta_DBKey task) (ta_ID task) (de_Now env n) e
         | _ \<Rightarrow> MarkPublished (ta_DBKey task) (ta_ID task) (de_Now env n)"
  have "pendingTask k ty key (snd (?mark dbs))"
    using Cons.prems by (auto simp: pending_mark split: enqueueResult.splits)
  then have "pendingTask k ty key (snd (eval_ctx (de_Fault env n) ?mark dbs))"
    using Cons.prems by (simp add: eval_ctx_def split: fault.splits)
  with Cons.IH show ?case by (auto split: prod.splits sum.splits)
qed simp

lemma pending_upsert:
  assumes "\<exists>row \<in> set tbl. sameTask ty key row \<and> dispatchable row"
  shows "\<exists>row \<in> set (upsertTask new tbl). sameTask ty key row \<and> dispatchable row"
proof -
  have b: "benign (\<lambda>row. if P row then resetTask new row else row)" for P
    by (auto simp: benign_def sameTask_def dispatchable_def resetTask_def)
  show ?thesis using assms pending_map [OF _ _ _ b] unfolding upsertTask_def
    by (auto simp del: set_map)
qed

lemma pending_InsertTasks:
  "\<exists>row \<in> set tbl. sameTask ty key row \<and> dispatchable row
   \<Longrightarrow> \<exists>row \<in> set (InsertTasks rows tbl). sameTask ty key row \<and> dispatchable row"
proof (induction rows arbitrary: tbl)
  case (Cons new rows)
  then show ?case using Cons.IH [OF pending_upsert [OF Cons.prems]] by simp
qed simp

lemma pending_MarkProcessed:
  assumes "row \<in> set tbl" "sameTask ty key row" "dispatchable row" "(ty', key') \<noteq> (ty, key)"
  shows "\<exists>row' \<in> set (snd (MarkProcessed ty' key' now tbl)). sameTask ty key row' \<and> dispatchable row'"
  using assms by (force simp: MarkProcessed_def sameTask_def split: option.splits)

lemma otherStep_pending:
  assumes "pendingTask k ty key dbs" "otherStep k ty key dbs dbs'" shows "pendingTask k ty key dbs'"
  using assms(2)
proof cases
  case (dispatch env listFault taskType)
  then show ?thesis using assms(1) by (simp add: Run_def pending_dispatchLoop split: option.splits)
next
  case (insert k' rows)
  show ?thesis unfolding insert by (rule pending_onTable [OF assms(1)], rule pending_InsertTasks) blast
next
  case (processed k' ty' key' now)
  show ?thesis unfolding processed
    by (rule pending_onTable [OF assms(1)], rule pending_MarkProcessed) (use processed(2) in auto)
qed

interpretation outbox_sys: step_invariant "otherStep k ty key" "pendingTask k ty key" for k ty key
  by unfold_locales (rule otherStep_pending)

lemma pending_listed:
  assumes "pendingTask k ty key dbs"
  shows "\<exists>task \<in> set (ListDispatchableByTaskType ty dbs). ta_DBKey task = k \<and> ta_TaskKey task = key"
proof -
  obtain tbl row where t: "(k, tbl) \<in> set dbs" "row \<in> set tbl" "sameTask ty key row" "dispatchable row"
    using assms by (auto simp: pendingTask_def)
  then have "taskOf k row \<in> set (ListDispatchableByTaskType ty dbs)"
    unfolding ListDispatchableByTaskType_def
    by (simp add: sameTask_def) (rule bexI [of _ "(k, tbl)"]; simp)
  then show ?thesis using t(3) by (auto simp: taskOf_def sameTask_def intro!: bexI [of _ "taskOf k row"])
qed

text \<open>
  C29. A delayed task is never lost: once it is in an outbox, then whatever dispatcher runs with
  whatever queue answers and database failures, insertions and processing of other tasks follow,
  the next dispatcher run still picks it up, until the task itself is processed.
\<close>

theorem task_never_lost:
  assumes "pendingTask k ty key dbs" "(otherStep k ty key)\<^sup>*\<^sup>* dbs dbs'"
  shows "\<exists>task \<in> set (ListDispatchableByTaskType ty dbs'). ta_DBKey task = k \<and> ta_TaskKey task = key"
  by (rule pending_listed) (rule outbox_sys.run_inv [OF assms(2,1)])

definition demoOutbox :: outboxes where
  "demoOutbox = [(''order-db-0'', [newCloseTimeoutDelayTaskRow 1 0 7 100])]"

definition demoQueue :: "enqueueResult \<Rightarrow> dispatchEnv" where
  "demoQueue r = \<lparr>de_Enqueue = (\<lambda>_. r), de_Now = (\<lambda>_. 50), de_Fault = (\<lambda>_. NoFault)\<rparr>"

theorem task_never_lost_witness:
  "\<exists>task \<in> set (ListDispatchableByTaskType TaskTypeCloseTimeout
       (snd (Run (demoQueue (EnqueueError ''queue down'')) None TaskTypeCloseTimeout demoOutbox))).
     ta_DBKey task = ''order-db-0'' \<and> ta_TaskKey task = TaskKey 7"
proof (rule task_never_lost)
  show "pendingTask ''order-db-0'' TaskTypeCloseTimeout (TaskKey 7) demoOutbox"
    by (simp add: pendingTask_def demoOutbox_def newCloseTimeoutDelayTaskRow_def sameTask_def dispatchable_def OutboxTaskStatusPending_def)
  show "(otherStep ''order-db-0'' TaskTypeCloseTimeout (TaskKey 7))\<^sup>*\<^sup>* demoOutbox
      (snd (Run (demoQueue (EnqueueError ''queue down'')) None TaskTypeCloseTimeout demoOutbox))"
    by (rule r_into_rtranclp) (rule otherStep.dispatch)
qed

section \<open>What a run does\<close>

definition applyTask :: "dispatchEnv \<Rightarrow> int \<Rightarrow> Task \<Rightarrow> DDelayTaskOutbox \<Rightarrow> DDelayTaskOutbox" where
  "applyTask env now task row =
     (case de_Enqueue env task of
        EnqueueError e \<Rightarrow> row\<lparr>dt_TaskStatus := OutboxTaskStatusFailed, dt_PublishAttempts := dt_PublishAttempts row + 1,
           dt_LastPublishError := e, dt_EditTime := now\<rparr>
      | _ \<Rightarrow> row\<lparr>dt_TaskStatus := OutboxTaskStatusPublished, dt_PublishAttempts := dt_PublishAttempts row + 1,
           dt_PublishedTime := Some now, dt_LastPublishError := [], dt_EditTime := now\<rparr>)"

definition taskFor :: "Task list \<Rightarrow> string \<Rightarrow> DDelayTaskOutbox \<Rightarrow> Task option" where
  "taskFor tasks k row = find (\<lambda>task. (ta_DBKey task, ta_ID task) = (k, dt_Id row)) tasks"

definition dispatched :: "dispatchEnv \<Rightarrow> int \<Rightarrow> Task list \<Rightarrow> outboxes \<Rightarrow> outboxes" where
  "dispatched env now tasks dbs = map (\<lambda>(k, tbl). (k, map (\<lambda>row.
     case taskFor tasks k row of None \<Rightarrow> row | Some task \<Rightarrow> if dispatchable row then applyTask env now task row else row) tbl)) dbs"

lemma applyTask_keeps [simp]:
  "dt_Id (applyTask env now task row) = dt_Id row" "dispatchable (applyTask env now task row) = (dt_Status row = 1)"
  by (simp_all add: applyTask_def dispatchable_def outbox_status_defs split: enqueueResult.splits)

lemma mark_dispatched:
  assumes "ta_DBKey task \<in> fst ` set dbs"
  shows "(case Publish (de_Enqueue env) task of
           EnqueueError e \<Rightarrow> MarkPublishFailed (ta_DBKey task) (ta_ID task) now e
         | _ \<Rightarrow> MarkPublished (ta_DBKey task) (ta_ID task) now) dbs = (Inr (), dispatched env now [task] dbs)"
  using assms
  by (auto simp: Publish_def IsDuplicateEnqueueError_def Let_def MarkPublished_def MarkPublishFailed_def updateRow_def dispatched_def taskFor_def
      applyTask_def outbox_status_defs split: enqueueResult.splits)

lemma dispatched_Cons:
  assumes "(ta_DBKey task, ta_ID task) \<notin> (\<lambda>t. (ta_DBKey t, ta_ID t)) ` set tasks"
  shows "dispatched env now tasks (dispatched env now [task] dbs) = dispatched env now (task # tasks) dbs"
proof -
  have "taskFor tasks k row = None" if "taskFor [task] k row = Some task" for k row
  proof -
    have "(k, dt_Id row) = (ta_DBKey task, ta_ID task)" using that by (auto simp: taskFor_def split: if_splits)
    then have "(k, dt_Id row) \<notin> (\<lambda>t. (ta_DBKey t, ta_ID t)) ` set tasks" using assms by simp
    then show ?thesis unfolding taskFor_def find_None_iff by (metis (no_types, lifting) image_eqI)
  qed
  then show ?thesis
    by (auto simp: dispatched_def taskFor_def split: option.splits)
qed

lemma dispatched_keys [simp]: "fst ` set (dispatched env now tasks dbs) = fst ` set dbs"
  by (force simp: dispatched_def)

lemma dispatchLoop_ok:
  assumes "distinct (map (\<lambda>t. (ta_DBKey t, ta_ID t)) tasks)" "ta_DBKey ` set tasks \<subseteq> fst ` set dbs"
    and env: "\<And>n. de_Fault env n = NoFault" "\<And>n. de_Now env n = now"
  shows "dispatchLoop env n tasks dbs = (Inr (), dispatched env now tasks dbs)"
  using assms(1,2)
proof (induction tasks arbitrary: n dbs)
  case Nil
  then show ?case by (simp add: dispatched_def taskFor_def case_prod_unfold)
next
  case (Cons task tasks)
  have mark: "eval_ctx (de_Fault env n) (case Publish (de_Enqueue env) task of
           EnqueueError e \<Rightarrow> MarkPublishFailed (ta_DBKey task) (ta_ID task) (de_Now env n) e
         | _ \<Rightarrow> MarkPublished (ta_DBKey task) (ta_ID task) (de_Now env n)) dbs = (Inr (), dispatched env now [task] dbs)"
    using Cons.prems(2) mark_dispatched [of task dbs, where env = env and now = now] unfolding env by (simp add: eval_ctx_def)
  have "dispatchLoop env (Suc n) tasks (dispatched env now [task] dbs) = (Inr (), dispatched env now (task # tasks) dbs)"
    using Cons.IH [of "dispatched env now [task] dbs" "Suc n"] Cons.prems dispatched_Cons [of task tasks] by simp
  then show ?case by (simp add: mark)
qed

lemma taskOf_ref [simp]: "ta_DBKey (taskOf k row) = k" "ta_ID (taskOf k row) = dt_Id row"
  by (simp_all add: taskOf_def)

lemma listed_iff:
  "task \<in> set (ListDispatchableByTaskType ty dbs) \<longleftrightarrow>
     (\<exists>k tbl row. (k, tbl) \<in> set dbs \<and> row \<in> set tbl \<and> dispatchable row \<and> dt_TaskType row = ty \<and> task = taskOf k row)"
  unfolding ListDispatchableByTaskType_def by (auto simp: image_iff split: prod.splits)

definition outboxesOk :: "outboxes \<Rightarrow> bool" where
  "outboxesOk dbs \<longleftrightarrow> distinct (map fst dbs) \<and> (\<forall>(k, tbl) \<in> set dbs. distinct (map dt_Id tbl))"

lemma refs_distinct_concat:
  assumes "outboxesOk dbs"
  shows "distinct (map (\<lambda>t. (ta_DBKey t, ta_ID t)) (concat (map (\<lambda>(k, tbl). map (taskOf k) (sort_key dt_Id (filter P tbl))) dbs)))"
  using assms
proof (induction dbs)
  case (Cons db dbs)
  obtain k tbl where db: "db = (k, tbl)" by (cases db)
  have "distinct (map dt_Id (filter P tbl))" using Cons.prems by (simp add: outboxesOk_def db distinct_map_filter)
  then have "distinct (map dt_Id (sort_key dt_Id (filter P tbl)))"
    using mset_eq_imp_distinct_iff [of "map dt_Id (sort_key dt_Id (filter P tbl))" "map dt_Id (filter P tbl)"] by simp
  then have "distinct (map (\<lambda>row. (k, dt_Id row)) (sort_key dt_Id (filter P tbl)))"
    by (simp add: distinct_map inj_on_def)
  moreover have "k \<notin> fst ` set dbs" using Cons.prems by (simp add: outboxesOk_def db)
  moreover have "ta_DBKey t \<in> fst ` set dbs"
    if "t \<in> set (concat (map (\<lambda>(k, tbl). map (taskOf k) (sort_key dt_Id (filter P tbl))) dbs))" for t
    using that by force
  moreover have "outboxesOk dbs" using Cons.prems by (simp add: outboxesOk_def)
  ultimately show ?case using Cons.IH by (auto simp: db comp_def simp del: set_concat)
qed simp

lemma refs_distinct:
  assumes "outboxesOk dbs"
  shows "distinct (map (\<lambda>t. (ta_DBKey t, ta_ID t)) (ListDispatchableByTaskType ty dbs))"
proof -
  let ?f = "\<lambda>t. (ta_DBKey t, ta_ID t)"
  let ?all = "concat (map (\<lambda>(k, tbl). map (taskOf k) (sort_key dt_Id (filter (\<lambda>row. dispatchable row \<and> dt_TaskType row = ty) tbl))) dbs)"
  have "mset (map ?f (sort_key ta_ID ?all)) = mset (map ?f ?all)" by (simp only: mset_map mset_sort)
  then show ?thesis using refs_distinct_concat [OF assms] mset_eq_imp_distinct_iff
    unfolding ListDispatchableByTaskType_def by blast
qed

lemma row_determined:
  assumes "outboxesOk dbs" "(k, tbl) \<in> set dbs" "(k, tbl') \<in> set dbs" "row \<in> set tbl" "row' \<in> set tbl'" "dt_Id row = dt_Id row'"
  shows "row = row'"
proof -
  have "tbl = tbl'" using assms(1-3) by (auto simp: outboxesOk_def dest: eq_key_imp_eq_value)
  moreover have "distinct (map dt_Id tbl)" using assms(1,2) by (auto simp: outboxesOk_def)
  ultimately show ?thesis using assms(4-6) by (auto simp: distinct_map inj_on_def)
qed

lemma taskFor_listed:
  assumes ok: "outboxesOk dbs" and row: "(k, tbl) \<in> set dbs" "row \<in> set tbl"
  shows "taskFor (ListDispatchableByTaskType ty dbs) k row =
    (if dispatchable row \<and> dt_TaskType row = ty then Some (taskOf k row) else None)"
proof (cases "taskFor (ListDispatchableByTaskType ty dbs) k row")
  case None
  have "\<not> (dispatchable row \<and> dt_TaskType row = ty)"
  proof
    assume "dispatchable row \<and> dt_TaskType row = ty"
    then have "taskOf k row \<in> set (ListDispatchableByTaskType ty dbs)" using row by (auto simp: listed_iff)
    then show False using None unfolding taskFor_def find_None_iff by force
  qed
  then show ?thesis using None by simp
next
  case (Some task)
  then have "task \<in> set (ListDispatchableByTaskType ty dbs)" "(ta_DBKey task, ta_ID task) = (k, dt_Id row)"
    unfolding taskFor_def by (auto dest: find_someD)
  then obtain tbl' row' where r: "(k, tbl') \<in> set dbs" "row' \<in> set tbl'" "dispatchable row'" "dt_TaskType row' = ty"
    "task = taskOf k row'" "dt_Id row' = dt_Id row"
    by (auto simp: listed_iff taskOf_def)
  then have "row' = row" using row_determined [OF ok r(1) row(1)] row(2) by simp
  then show ?thesis using Some r by simp
qed

text \<open>
  C30. A run of the dispatcher with working databases handles every unprocessed task of its type in
  every shard exactly once: a task the queue takes, or already has, becomes published and any other
  one failed with the error of the queue, its number of attempts grows by one, and no other row
  changes.
\<close>

theorem run_dispatches_all:
  assumes "outboxesOk dbs" "\<And>n. de_Fault env n = NoFault" "\<And>n. de_Now env n = now"
  shows "Run env None ty dbs = (Inr (), map (\<lambda>(k, tbl). (k, map (\<lambda>row.
      if dispatchable row \<and> dt_TaskType row = ty then applyTask env now (taskOf k row) row else row) tbl)) dbs)"
proof -
  have keys: "ta_DBKey ` set (ListDispatchableByTaskType ty dbs) \<subseteq> fst ` set dbs"
    by (force simp: listed_iff taskOf_def)
  have "dispatched env now (ListDispatchableByTaskType ty dbs) dbs = map (\<lambda>(k, tbl). (k, map (\<lambda>row.
      if dispatchable row \<and> dt_TaskType row = ty then applyTask env now (taskOf k row) row else row) tbl)) dbs"
    using taskFor_listed [OF assms(1)] by (auto simp: dispatched_def)
  then show ?thesis
    using dispatchLoop_ok [OF refs_distinct [OF assms(1)] keys, where env = env and now = now and n = 0] assms(2,3)
    by (simp add: Run_def)
qed

theorem run_dispatches_all_witness:
  "map (\<lambda>(k, tbl). map dt_TaskStatus tbl) (snd (Run (demoQueue DuplicateTask) None TaskTypeCloseTimeout demoOutbox)) = [[1]]"
proof -
  have "outboxesOk demoOutbox" by (simp add: outboxesOk_def demoOutbox_def)
  from run_dispatches_all [OF this, of "demoQueue DuplicateTask" 50 TaskTypeCloseTimeout] show ?thesis
    by (simp add: demoQueue_def demoOutbox_def newCloseTimeoutDelayTaskRow_def dispatchable_def applyTask_def outbox_status_defs)
qed

text \<open>
  The life cycle table forbids a failed task to fail again, a pending task to be processed at once
  and a processed task to be processed again; the statements of the stores do all three.
\<close>

theorem lifecycle_not_enforced:
  "\<not> CanTransition 4 4 \<and> \<not> CanTransition 0 3 \<and> \<not> CanTransition 3 3
   \<and> (let row = newCloseTimeoutDelayTaskRow 1 0 7 100; failed = row\<lparr>dt_TaskStatus := 4\<rparr>; ended = row\<lparr>dt_TaskStatus := 3\<rparr> in
      map dt_TaskStatus (snd (hd (snd (MarkPublishFailed ''order-db-0'' 1 5 ''down'' [(''order-db-0'', [failed])])))) = [4]
      \<and> map dt_TaskStatus (snd (MarkProcessed TaskTypeCloseTimeout (TaskKey 7) 5 [row])) = [3]
      \<and> map dt_ConsumeAttempts (snd (MarkProcessed TaskTypeCloseTimeout (TaskKey 7) 5 [ended])) = [1])"
  by (simp add: CanTransition_def allowedOutboxTransitions_def outbox_status_defs newCloseTimeoutDelayTaskRow_def
      MarkPublishFailed_def updateRow_def dispatchable_def MarkProcessed_def sameTask_def markTaskProcessed_def Let_def)

end
