(* ===== verification/Catalogue.thy ===== *)
theory Catalogue
  imports ProgramModel DelayTask
begin

text \<open>
  The catalogue of programs, show times, ticket categories and seats, and the handlers of
  \<open>services/program-rpc/internal/logic\<close> that write it. The state holds the tables, the outbox of the
  preheating job, the seat ledgers and the caches: the rows that go-zero keeps in Redis (\<open>rc_\<close>) and
  the views each process keeps in memory (\<open>lc_\<close>). A cached read answers from the cache when the row is
  there and from the table otherwise; filling an entry and losing one are steps of their own. What the
  database answers to a statement outside a transaction, and how a transaction ends, is an argument.
\<close>

section \<open>State\<close>

record programCaches =
  rc_Program :: "int \<rightharpoonup> DProgram option"
  rc_Show :: "int \<rightharpoonup> DProgramShowTime option"
  rc_FirstShow :: "int \<rightharpoonup> DProgramShowTime option"
  rc_Group :: "int \<rightharpoonup> DProgramGroup option"
  lc_View :: "int \<rightharpoonup> ProgramDetailViewInfo"
  lc_NotFound :: "int \<Rightarrow> bool"
  lc_Kinds :: "DProgramCategory list option"

record catalogue =
  ct_Groups :: "DProgramGroup list"
  ct_Programs :: "DProgram list"
  ct_Shows :: "DProgramShowTime list"
  ct_Categories :: "DTicketCategory list"
  ct_Kinds :: "DProgramCategory list"
  ct_Outbox :: "DDelayTaskOutbox list"
  ct_Seats :: seatWorld
  ct_Caches :: programCaches

text \<open>
  \<open>ge_Lead\<close> is the lead time of the preheating client, if it is enabled; \<open>ge_KeyTime\<close> prints a time in the
  layout of task keys and \<open>ge_Payload\<close> is the JSON of a task.
\<close>

record catalogueEnv =
  ge_Parse :: "string \<Rightarrow> int option"
  ge_Format :: "int \<Rightarrow> string"
  ge_KeyTime :: "int \<Rightarrow> string"
  ge_Payload :: "int \<Rightarrow> string \<Rightarrow> int \<Rightarrow> string"
  ge_Json :: "string \<Rightarrow> ProgramSimpleInfo list option"
  ge_Now :: "nat \<Rightarrow> int"
  ge_Ids :: "nat \<Rightarrow> int"
  ge_Lead :: "int option"
  ge_Tx :: txfault
  ge_Fault :: "nat \<Rightarrow> goerr option"
  ge_Clear :: "int \<Rightarrow> goerr option"
  ge_Invalidate :: "goerr option"

definition programNotFoundError :: goerr where
  "programNotFoundError = StatusMsg CNotFound ''program not found''"

definition programGroupNotFoundError :: goerr where
  "programGroupNotFoundError = StatusMsg CNotFound ''program group not found''"

section \<open>Tables\<close>

definition programRow :: "DProgram list \<Rightarrow> int \<Rightarrow> DProgram option" where
  "programRow tb i = find (\<lambda>p. dp_Id p = i) tb"

definition FindOneForUpdate :: "DProgram list \<Rightarrow> int \<Rightarrow> DProgram res" where
  "FindOneForUpdate tb i = orNotFound (find (\<lambda>p. dp_Status p = 1 \<and> dp_Id p = i) tb)"

definition InsertProgram :: "DProgram \<Rightarrow> DProgram list \<Rightarrow> DProgram list res" where
  "InsertProgram data tb = (if dp_Id data \<in> dp_Id ` set tb then Inl (Duplicate ''PRIMARY'') else Inr (tb @ [data]))"

text \<open>The update writes every column but the id and the time of creation.\<close>

definition UpdateProgramRow :: "DProgram \<Rightarrow> DProgram list \<Rightarrow> DProgram list" where
  "UpdateProgramRow data tb = map (\<lambda>p. if dp_Id p = dp_Id data then data\<lparr>dp_CreateTime := dp_CreateTime p\<rparr> else p) tb"

definition groupRow :: "DProgramGroup list \<Rightarrow> int \<Rightarrow> DProgramGroup option" where
  "groupRow tb i = find (\<lambda>g. dg_Id g = i \<and> dg_Status g = 1) tb"

definition UpdateGroupRow :: "DProgramGroup \<Rightarrow> DProgramGroup list \<Rightarrow> DProgramGroup list" where
  "UpdateGroupRow data tb = map (\<lambda>g. if dg_Id g = dg_Id data then data\<lparr>dg_CreateTime := dg_CreateTime g\<rparr> else g) tb"

definition showRow :: "DProgramShowTime list \<Rightarrow> int \<Rightarrow> DProgramShowTime option" where
  "showRow tb i = find (\<lambda>s. sh_Id s = i) tb"

definition FindByProgramIds :: "DProgramShowTime list \<Rightarrow> int list \<Rightarrow> DProgramShowTime list" where
  "FindByProgramIds tb ids =
     sort_key (\<lambda>s. (sh_ProgramId s, sh_ShowTime s)) (filter (\<lambda>s. sh_Status s = 1 \<and> sh_ProgramId s \<in> set ids) tb)"

definition firstShowRow :: "DProgramShowTime list \<Rightarrow> int \<Rightarrow> DProgramShowTime option" where
  "firstShowRow tb i =
     (case sort_key sh_ShowTime (filter (\<lambda>s. sh_Status s = 1 \<and> sh_ProgramId s = i) tb) of [] \<Rightarrow> None | s # _ \<Rightarrow> Some s)"

definition InsertShow :: "DProgramShowTime \<Rightarrow> DProgramShowTime list \<Rightarrow> DProgramShowTime list res" where
  "InsertShow data tb =
     (if sh_Id data \<in> sh_Id ` set tb then Inl (Duplicate ''PRIMARY'') else Inr (tb @ [data\<lparr>sh_CreateTime := None\<rparr>]))"

definition UpdateShowRow :: "DProgramShowTime \<Rightarrow> DProgramShowTime list \<Rightarrow> DProgramShowTime list" where
  "UpdateShowRow data tb = map (\<lambda>s. if sh_Id s = sh_Id data then data\<lparr>sh_CreateTime := sh_CreateTime s\<rparr> else s) tb"

definition categoryRow :: "DTicketCategory list \<Rightarrow> int \<Rightarrow> DTicketCategory option" where
  "categoryRow tb i = find (\<lambda>c. tc_Id c = i) tb"

definition FindCategoriesByProgramId :: "DTicketCategory list \<Rightarrow> int \<Rightarrow> DTicketCategory list" where
  "FindCategoriesByProgramId tb i = sort_key (\<lambda>c. (tc_Price c, tc_Id c)) (filter (\<lambda>c. tc_Status c = 1 \<and> tc_ProgramId c = i) tb)"

definition FindCategoriesByShowTimeId :: "DTicketCategory list \<Rightarrow> int \<Rightarrow> DTicketCategory list" where
  "FindCategoriesByShowTimeId tb i = sort_key (\<lambda>c. (tc_Price c, tc_Id c)) (filter (\<lambda>c. tc_Status c = 1 \<and> tc_ShowTimeId c = i) tb)"

definition InsertWithCreateTime :: "DTicketCategory \<Rightarrow> DTicketCategory list \<Rightarrow> DTicketCategory list res" where
  "InsertWithCreateTime data tb = (if tc_Id data \<in> tc_Id ` set tb then Inl (Duplicate ''PRIMARY'') else Inr (tb @ [data]))"

definition seatPlace :: "DSeat \<Rightarrow> int \<times> int \<times> int" where
  "seatPlace s = (ds_ShowTimeId s, ds_RowCode s, ds_ColCode s)"

definition InsertSeat :: "DSeat \<Rightarrow> seatTable \<Rightarrow> seatTable res" where
  "InsertSeat data tb =
     (if ds_Id data \<in> ds_Id ` set tb then Inl (Duplicate ''PRIMARY'')
      else if seatPlace data \<in> seatPlace ` set tb then Inl (Duplicate ''uk_show_time_row_col'')
      else Inr (tb @ [data]))"

definition FindOneByProgramIdRowCodeColCode :: "seatTable \<Rightarrow> int \<Rightarrow> int \<Rightarrow> int \<Rightarrow> DSeat res" where
  "FindOneByProgramIdRowCodeColCode tb programId rowCode colCode =
     orNotFound (find (\<lambda>s. ds_ProgramId s = programId \<and> ds_RowCode s = rowCode \<and> ds_ColCode s = colCode) tb)"

section \<open>Caches\<close>

definition readThrough :: "(int \<rightharpoonup> 'a option) \<Rightarrow> (int \<Rightarrow> 'a option) \<Rightarrow> int \<Rightarrow> 'a res" where
  "readThrough cache row i = (case cache i of Some r \<Rightarrow> orNotFound r | None \<Rightarrow> orNotFound (row i))"

definition cachedProgram :: "catalogue \<Rightarrow> int \<Rightarrow> DProgram res" where
  "cachedProgram c = readThrough (rc_Program (ct_Caches c)) (programRow (ct_Programs c))"

definition cachedShow :: "catalogue \<Rightarrow> int \<Rightarrow> DProgramShowTime res" where
  "cachedShow c = readThrough (rc_Show (ct_Caches c)) (showRow (ct_Shows c))"

definition cachedFirstShow :: "catalogue \<Rightarrow> int \<Rightarrow> DProgramShowTime res" where
  "cachedFirstShow c = readThrough (rc_FirstShow (ct_Caches c)) (firstShowRow (ct_Shows c))"

definition cachedGroup :: "catalogue \<Rightarrow> int \<Rightarrow> DProgramGroup res" where
  "cachedGroup c = readThrough (rc_Group (ct_Caches c)) (groupRow (ct_Groups c))"

definition InvalidateView :: "int \<Rightarrow> programCaches \<Rightarrow> programCaches" where
  "InvalidateView programID k = k\<lparr>lc_View := (lc_View k)(programID := None), lc_NotFound := (lc_NotFound k)(programID := False)\<rparr>"

text \<open>
  \<open>InvalidateProgram\<close>: the keys in Redis, then the views in memory; an error of Redis, which the
  handlers only log, leaves both.
\<close>

definition InvalidateProgram :: "catalogueEnv \<Rightarrow> int \<Rightarrow> int list \<Rightarrow> catalogue \<Rightarrow> catalogue" where
  "InvalidateProgram env programID groupIDs c =
     (if programID \<le> 0 \<or> ge_Invalidate env \<noteq> None then c
      else c\<lparr>ct_Caches := InvalidateView programID ((ct_Caches c)
        \<lparr>rc_Program := (rc_Program (ct_Caches c))(programID := None),
         rc_FirstShow := (rc_FirstShow (ct_Caches c))(programID := None),
         rc_Group := (\<lambda>g. if 0 < g \<and> g \<in> set groupIDs then None else rc_Group (ct_Caches c) g)\<rparr>)\<rparr>)"

definition InvalidateCategorySnapshot :: "catalogue \<Rightarrow> catalogue" where
  "InvalidateCategorySnapshot c = c\<lparr>ct_Caches := (ct_Caches c)\<lparr>lc_Kinds := None\<rparr>\<rparr>"

section \<open>Scheduling the preheating\<close>

definition TaskTypeRushInventoryPreheat :: string where
  "TaskTypeRushInventoryPreheat = ''program.rush_inventory_preheat''"

definition preheatTaskKey :: "catalogueEnv \<Rightarrow> int \<Rightarrow> int \<Rightarrow> string" where
  "preheatTaskKey env programID expectedOpenTime =
     TaskTypeRushInventoryPreheat @ '':'' @ show_int programID @ '':'' @ ge_KeyTime env expectedOpenTime"

definition preheatTask :: "catalogueEnv \<Rightarrow> int \<Rightarrow> int \<Rightarrow> int \<Rightarrow> DDelayTaskOutbox" where
  "preheatTask env lead programID expectedOpenTime =
     \<lparr>dt_Id = ge_Ids env 1, dt_TaskType = TaskTypeRushInventoryPreheat, dt_TaskKey = preheatTaskKey env programID expectedOpenTime,
      dt_Payload = ge_Payload env programID (ge_Format env expectedOpenTime) lead, dt_ExecuteAt = expectedOpenTime - lead,
      dt_TaskStatus = OutboxTaskStatusPending, dt_PublishAttempts = 0, dt_ConsumeAttempts = 0, dt_LastPublishError = [],
      dt_LastConsumeError = [], dt_PublishedTime = None, dt_ProcessedTime = None, dt_CreateTime = ge_Now env 2,
      dt_EditTime = ge_Now env 2, dt_Status = 1\<rparr>"

definition EnqueueWithConn :: "catalogueEnv \<Rightarrow> int \<Rightarrow> int \<Rightarrow> int \<Rightarrow> catalogue \<Rightarrow> catalogue" where
  "EnqueueWithConn env lead programID expectedOpenTime c =
     c\<lparr>ct_Outbox := upsertTask (preheatTask env lead programID expectedOpenTime) (ct_Outbox c)\<rparr>"

definition scheduleRushInventoryPreheat :: "catalogueEnv \<Rightarrow> DProgram \<Rightarrow> catalogue \<Rightarrow> unit res \<times> catalogue" where
  "scheduleRushInventoryPreheat env program c =
     (case (dp_RushSaleOpenTime program, ge_Lead env) of
        (Some openAt, Some lead) \<Rightarrow>
          (if FindByProgramIds (ct_Shows c) [dp_Id program] = [] then (Inr (), c)
           else (Inr (), EnqueueWithConn env lead (dp_Id program) openAt
             (if dp_InventoryPreheatStatus program \<noteq> 1
              then c\<lparr>ct_Programs := UpdateProgramRow (program\<lparr>dp_InventoryPreheatStatus := 1, dp_EditTime := ge_Now env 1\<rparr>) (ct_Programs c)\<rparr>
              else c)))
      | _ \<Rightarrow> (Inr (), c))"

section \<open>Sale windows\<close>

definition validateShowTimeAgainstProgramRushSaleOpenTime :: "DProgram \<Rightarrow> int \<Rightarrow> unit res" where
  "validateShowTimeAgainstProgramRushSaleOpenTime program showTime =
     (case dp_RushSaleOpenTime program of
        None \<Rightarrow> Inr ()
      | Some openAt \<Rightarrow> if showTime < openAt then Inl errInvalid else Inr ())"

definition validateProgramRushSaleWindowAgainstExistingShowTimes :: "catalogueEnv \<Rightarrow> DProgramShowTime list \<Rightarrow> int \<Rightarrow> string \<Rightarrow> unit res" where
  "validateProgramRushSaleWindowAgainstExistingShowTimes env tb programID rushSaleOpenTime =
     (if programID \<le> 0 \<or> trim_space rushSaleOpenTime = [] then Inr ()
      else case firstShowRow tb programID of
        None \<Rightarrow> Inr ()
      | Some first \<Rightarrow>
        (case ge_Parse env rushSaleOpenTime of
           None \<Rightarrow> Inl errInvalid
         | Some openAt \<Rightarrow> if sh_ShowTime first < openAt then Inl errInvalid else Inr ()))"

section \<open>Programs and show times\<close>

definition createProgramTx :: "catalogueEnv \<Rightarrow> DProgram \<Rightarrow> catalogue \<Rightarrow> unit res \<times> catalogue" where
  "createProgramTx env data c =
     (if groupRow (ct_Groups c) (dp_ProgramGroupId data) = None then (Inl programGroupNotFoundError, c)
      else case InsertProgram data (ct_Programs c) of
        Inl e \<Rightarrow> (Inl e, c)
      | Inr tb \<Rightarrow> scheduleRushInventoryPreheat env data (c\<lparr>ct_Programs := tb\<rparr>))"

definition CreateProgram :: "catalogueEnv \<Rightarrow> CreateProgramReq \<Rightarrow> catalogue \<Rightarrow> int res \<times> catalogue" where
  "CreateProgram env req c =
     (let values = applyCreateProgramDefaults (newCreateProgramValues req) in
      case validateProgramWriteValues (ge_Parse env) values False of Inl e \<Rightarrow> (Inl e, c) | Inr _ \<Rightarrow>
      (case buildProgramModel (ge_Parse env) (values\<lparr>pv_id := ge_Ids env 0\<rparr>) (ge_Now env 0) of Inl e \<Rightarrow> (Inl e, c) | Inr data \<Rightarrow>
      (case runTx (ge_Tx env) (createProgramTx env data) c of
         (Inl e, c1) \<Rightarrow> (Inl e, c1)
       | (Inr _, c1) \<Rightarrow> (Inr (ge_Ids env 0), InvalidateProgram env (ge_Ids env 0) [pv_programGroupId values] c1))))"

definition updateProgramTx :: "catalogueEnv \<Rightarrow> programWriteValues \<Rightarrow> DProgram \<Rightarrow> catalogue \<Rightarrow> int list res \<times> catalogue" where
  "updateProgramTx env values data c =
     (if groupRow (ct_Groups c) (pv_programGroupId values) = None then (Inl programGroupNotFoundError, c)
      else case ifMissing programNotFoundError (FindOneForUpdate (ct_Programs c) (pv_id values)) of Inl e \<Rightarrow> (Inl e, c) | Inr current \<Rightarrow>
      (let data = data\<lparr>dp_CreateTime := dp_CreateTime current, dp_InventoryPreheatStatus := dp_InventoryPreheatStatus current\<rparr>;
           groupIDs = pv_programGroupId values # (if dp_ProgramGroupId current \<noteq> pv_programGroupId values then [dp_ProgramGroupId current] else []) in
       case validateProgramRushSaleWindowAgainstExistingShowTimes env (ct_Shows c) (pv_id values) (pv_rushSaleOpenTime values) of
         Inl e \<Rightarrow> (Inl e, c)
       | Inr _ \<Rightarrow>
         (let c1 = c\<lparr>ct_Programs := UpdateProgramRow data (ct_Programs c)\<rparr> in
          if dp_RushSaleOpenTime current = dp_RushSaleOpenTime data \<and> dp_RushSaleEndTime current = dp_RushSaleEndTime data
          then (Inr groupIDs, c1)
          else case scheduleRushInventoryPreheat env data c1 of
            (Inl e, c2) \<Rightarrow> (Inl e, c2) | (Inr _, c2) \<Rightarrow> (Inr groupIDs, c2))))"

definition UpdateProgram :: "catalogueEnv \<Rightarrow> UpdateProgramReq \<Rightarrow> catalogue \<Rightarrow> bool res \<times> catalogue" where
  "UpdateProgram env req c =
     (let values = newUpdateProgramValues req in
      case validateProgramWriteValues (ge_Parse env) values True of Inl e \<Rightarrow> (Inl e, c) | Inr _ \<Rightarrow>
      (case buildProgramModel (ge_Parse env) values (ge_Now env 0) of Inl e \<Rightarrow> (Inl e, c) | Inr data \<Rightarrow>
      (case runTx (ge_Tx env) (updateProgramTx env values data) c of
         (Inl e, c1) \<Rightarrow> (Inl e, c1)
       | (Inr groupIDs, c1) \<Rightarrow> (Inr True, InvalidateProgram env (pv_id values) groupIDs c1))))"

record ProgramShowTimeAddReq =
  sr_ProgramId :: int
  sr_ShowTime :: string
  sr_ShowDayTime :: string
  sr_ShowWeekTime :: string
  sr_ShowEndTime :: string

definition createShowTx :: "catalogueEnv \<Rightarrow> DProgramShowTime \<Rightarrow> catalogue \<Rightarrow> int res \<times> catalogue" where
  "createShowTx env created c =
     (case ifMissing programNotFoundError (orNotFound (programRow (ct_Programs c) (sh_ProgramId created))) of Inl e \<Rightarrow> (Inl e, c) | Inr program \<Rightarrow>
     (case validateShowTimeAgainstProgramRushSaleOpenTime program (sh_ShowTime created) of Inl e \<Rightarrow> (Inl e, c) | Inr _ \<Rightarrow>
     (case InsertShow created (ct_Shows c) of Inl e \<Rightarrow> (Inl e, c) | Inr tb \<Rightarrow>
     (case groupRow (ct_Groups c) (dp_ProgramGroupId program) of None \<Rightarrow> (Inl programGroupNotFoundError, c) | Some grp \<Rightarrow>
      (let earlier = (case dg_RecentShowTime grp of None \<Rightarrow> True | Some t \<Rightarrow> sh_ShowTime created < t);
           groups = (if earlier
             then UpdateGroupRow (grp\<lparr>dg_RecentShowTime := Some (sh_ShowTime created), dg_EditTime := ge_Now env 0\<rparr>) (ct_Groups c)
             else ct_Groups c) in
       case scheduleRushInventoryPreheat env program (c\<lparr>ct_Shows := tb, ct_Groups := groups\<rparr>) of
         (Inl e, c1) \<Rightarrow> (Inl e, c1) | (Inr _, c1) \<Rightarrow> (Inr (dp_ProgramGroupId program), c1))))))"

definition CreateProgramShowTime :: "catalogueEnv \<Rightarrow> ProgramShowTimeAddReq \<Rightarrow> catalogue \<Rightarrow> int res \<times> catalogue" where
  "CreateProgramShowTime env req c =
     (if sr_ProgramId req \<le> 0 \<or> sr_ShowTime req = [] \<or> sr_ShowWeekTime req = [] then (Inl errInvalid, c)
      else case ge_Parse env (sr_ShowTime req) of None \<Rightarrow> (Inl errInvalid, c) | Some showTime \<Rightarrow>
      (case parseNullTime (ge_Parse env) (sr_ShowDayTime req) of Inl _ \<Rightarrow> (Inl errInvalid, c) | Inr showDayTime \<Rightarrow>
      (case parseNullTime (ge_Parse env) (sr_ShowEndTime req) of Inl _ \<Rightarrow> (Inl errInvalid, c) | Inr showEndTime \<Rightarrow>
      (case runTx (ge_Tx env) (createShowTx env \<lparr>sh_Id = ge_Ids env 0, sh_ProgramId = sr_ProgramId req, sh_ShowTime = showTime,
              sh_ShowDayTime = showDayTime, sh_ShowWeekTime = sr_ShowWeekTime req, sh_ShowEndTime = showEndTime,
              sh_CreateTime = None, sh_EditTime = Some (ge_Now env 0), sh_Status = 1\<rparr>) c of
         (Inl e, c1) \<Rightarrow> (Inl e, c1)
       | (Inr groupID, c1) \<Rightarrow> (Inr (ge_Ids env 0), InvalidateProgram env (sr_ProgramId req) [groupID] c1)))))"

record UpdateProgramShowTimeReq =
  su_Id :: int
  su_ShowWeekTime :: string
  su_ShowEndTime :: string

definition updateShowTx :: "catalogueEnv \<Rightarrow> UpdateProgramShowTimeReq \<Rightarrow> int option \<Rightarrow> catalogue \<Rightarrow> (int \<times> int) res \<times> catalogue" where
  "updateShowTx env req showEndTime c =
     (case ifMissing (Status CNotFound ErrProgramShowTimeNotFound) (orNotFound (showRow (ct_Shows c) (su_Id req))) of Inl e \<Rightarrow> (Inl e, c) | Inr current \<Rightarrow>
     (case ifMissing programNotFoundError (orNotFound (programRow (ct_Programs c) (sh_ProgramId current))) of Inl e \<Rightarrow> (Inl e, c) | Inr program \<Rightarrow>
     (case validateShowTimeAgainstProgramRushSaleOpenTime program (sh_ShowTime current) of Inl e \<Rightarrow> (Inl e, c) | Inr _ \<Rightarrow>
      (Inr (sh_ProgramId current, dp_ProgramGroupId program),
       c\<lparr>ct_Shows := UpdateShowRow (current\<lparr>sh_ShowWeekTime := su_ShowWeekTime req, sh_ShowEndTime := showEndTime,
           sh_EditTime := Some (ge_Now env 0)\<rparr>) (ct_Shows c)\<rparr>))))"

definition UpdateProgramShowTime :: "catalogueEnv \<Rightarrow> UpdateProgramShowTimeReq \<Rightarrow> catalogue \<Rightarrow> bool res \<times> catalogue" where
  "UpdateProgramShowTime env req c =
     (if su_Id req \<le> 0 \<or> trim_space (su_ShowWeekTime req) = [] then (Inl errInvalid, c)
      else case parseNullTime (ge_Parse env) (su_ShowEndTime req) of Inl _ \<Rightarrow> (Inl errInvalid, c) | Inr showEndTime \<Rightarrow>
      (case runTx (ge_Tx env) (updateShowTx env req showEndTime) c of
         (Inl e, c1) \<Rightarrow> (Inl e, c1)
       | (Inr (programID, groupID), c1) \<Rightarrow> (Inr True, InvalidateProgram env programID [groupID] c1)))"

section \<open>Inventory\<close>

definition ensureProgramInventoryMutableRecord :: "DProgram \<Rightarrow> unit res" where
  "ensureProgramInventoryMutableRecord program =
     (if dp_InventoryPreheatStatus program = 2 then Inl (Sentinel ErrProgramInventoryPreheated) else Inr ())"

definition ensureProgramInventoryMutable :: "catalogueEnv \<Rightarrow> nat \<Rightarrow> int \<Rightarrow> catalogue \<Rightarrow> unit res" where
  "ensureProgramInventoryMutable env k programID c =
     (if programID \<le> 0 then Inl (Sentinel ErrInvalidParam)
      else case ifMissing (Sentinel ErrProgramShowTimeNotFound) (orFault (ge_Fault env k) (cachedProgram c programID)) of
        Inl e \<Rightarrow> Inl e | Inr program \<Rightarrow> ensureProgramInventoryMutableRecord program)"

definition ensureShowTimeInventoryMutable :: "catalogueEnv \<Rightarrow> nat \<Rightarrow> int \<Rightarrow> catalogue \<Rightarrow> unit res" where
  "ensureShowTimeInventoryMutable env k showTimeID c =
     (if showTimeID \<le> 0 then Inl (Sentinel ErrInvalidParam)
      else case ifMissing (Sentinel ErrProgramShowTimeNotFound) (orFault (ge_Fault env k) (cachedShow c showTimeID)) of
        Inl e \<Rightarrow> Inl e | Inr showTime \<Rightarrow> ensureProgramInventoryMutable env (Suc k) (sh_ProgramId showTime) c)"

definition mapInventoryMutationError :: "goerr \<Rightarrow> goerr" where
  "mapInventoryMutationError err =
     (if isStatus err then err
      else if err = Sentinel ErrInvalidParam then Status CInvalidArgument ErrInvalidParam
      else if err = Sentinel ErrProgramShowTimeNotFound then Status CNotFound ErrProgramShowTimeNotFound
      else if err = Sentinel ErrProgramTicketCategoryNotFound then Status CNotFound ErrProgramTicketCategoryNotFound
      else if err = Sentinel ErrProgramInventoryPreheated then Status CFailedPrecondition ErrProgramInventoryPreheated
      else if err = Sentinel ErrInternal then Status CInternal ErrInternal
      else err)"

definition uniqueInt64Values :: "int list \<Rightarrow> int list" where
  "uniqueInt64Values values = sort (remdups (filter (\<lambda>v. 0 < v) values))"

fun clearLedgers :: "catalogueEnv \<Rightarrow> (int \<rightharpoonup> int) \<Rightarrow> int list \<Rightarrow> catalogue \<Rightarrow> unit res \<times> catalogue" where
  "clearLedgers env showOf [] c = (Inr (), c)"
| "clearLedgers env showOf (i # is) c =
     (case showOf i of
        None \<Rightarrow> clearLedgers env showOf is c
      | Some st \<Rightarrow>
        (case ge_Clear env i of
           Some e \<Rightarrow> if e = Sentinel ErrProgramSeatLedgerNotReady then clearLedgers env showOf is c else (Inl e, c)
         | None \<Rightarrow> clearLedgers env showOf is
             (c\<lparr>ct_Seats := setLedger st i (Clear (wledger (ct_Seats c) st i)) (ct_Seats c)\<rparr>)))"

definition clearProgramSeatLedgers :: "catalogueEnv \<Rightarrow> nat \<Rightarrow> int \<Rightarrow> int list \<Rightarrow> catalogue \<Rightarrow> unit res \<times> catalogue" where
  "clearProgramSeatLedgers env k programID ticketCategoryIDs c =
     (case ge_Fault env k of
        Some e \<Rightarrow> (Inl e, c)
      | None \<Rightarrow> clearLedgers env
          (map_of (rev (map (\<lambda>t. (tc_Id t, tc_ShowTimeId t))
            (filter (\<lambda>t. 0 < tc_Id t \<and> 0 < tc_ShowTimeId t) (FindCategoriesByProgramId (ct_Categories c) programID)))))
          (uniqueInt64Values ticketCategoryIDs) c)"

definition clearProgramSeatLedgersByProgram :: "catalogueEnv \<Rightarrow> nat \<Rightarrow> int \<Rightarrow> catalogue \<Rightarrow> unit res \<times> catalogue" where
  "clearProgramSeatLedgersByProgram env k programID c =
     (case ge_Fault env k of
        Some e \<Rightarrow> (Inl e, c)
      | None \<Rightarrow> clearProgramSeatLedgers env (Suc k) programID (map tc_Id (FindCategoriesByProgramId (ct_Categories c) programID)) c)"

record TicketCategoryAddReq =
  ta_ProgramId :: int
  ta_Introduce :: string
  ta_Price :: int
  ta_TotalNumber :: int
  ta_RemainNumber :: int

definition CreateTicketCategory :: "catalogueEnv \<Rightarrow> TicketCategoryAddReq \<Rightarrow> catalogue \<Rightarrow> int res \<times> catalogue" where
  "CreateTicketCategory env req c =
     (if ta_ProgramId req \<le> 0 \<or> trim_space (ta_Introduce req) = [] \<or> ta_Price req \<le> 0 \<or> ta_TotalNumber req \<le> 0
      then (Inl errInvalid, c)
      else case ifMissing programNotFoundError (orFault (ge_Fault env 0) (cachedProgram c (ta_ProgramId req))) of Inl e \<Rightarrow> (Inl e, c) | Inr program \<Rightarrow>
      (case ensureProgramInventoryMutable env 1 (ta_ProgramId req) c of Inl e \<Rightarrow> (Inl (mapInventoryMutationError e), c) | Inr _ \<Rightarrow>
      (case orFault (ge_Fault env 2) (InsertWithCreateTime \<lparr>tc_Id = ge_Ids env 0, tc_ProgramId = ta_ProgramId req, tc_ShowTimeId = 0,
            tc_Introduce = trim_space (ta_Introduce req), tc_Price = ta_Price req, tc_TotalNumber = ta_TotalNumber req,
            tc_RemainNumber = (if ta_RemainNumber req \<le> 0 then ta_TotalNumber req else ta_RemainNumber req),
            tc_CreateTime = ge_Now env 0, tc_EditTime = ge_Now env 0, tc_Status = 1\<rparr> (ct_Categories c)) of
         Inl e \<Rightarrow> (Inl e, c)
       | Inr tb \<Rightarrow> (Inr (ge_Ids env 0), InvalidateProgram env (ta_ProgramId req) [dp_ProgramGroupId program] (c\<lparr>ct_Categories := tb\<rparr>)))))"

definition newSeat :: "catalogueEnv \<Rightarrow> int \<Rightarrow> int \<Rightarrow> int \<Rightarrow> int \<Rightarrow> int \<Rightarrow> int \<Rightarrow> int \<Rightarrow> int \<Rightarrow> DSeat" where
  "newSeat env seatID programID ticketCategoryID rowCode colCode seatType price seatStatus =
     \<lparr>ds_Id = seatID, ds_ProgramId = programID, ds_ShowTimeId = 0, ds_TicketCategoryId = ticketCategoryID, ds_RowCode = rowCode,
      ds_ColCode = colCode, ds_SeatType = seatType, ds_Price = price, ds_SeatStatus = seatStatus, ds_FreezeToken = None,
      ds_FreezeExpireTime = None, ds_CreateTime = ge_Now env 0, ds_EditTime = ge_Now env 0, ds_Status = 1\<rparr>"

text \<open>The checks on a ticket category that both seat handlers make before they insert.\<close>

definition checkSeatCategory :: "catalogueEnv \<Rightarrow> nat \<Rightarrow> int \<Rightarrow> DTicketCategory res \<Rightarrow> catalogue \<Rightarrow> unit res" where
  "checkSeatCategory env k programID category c =
     (case ifMissing (Status CNotFound ErrProgramTicketCategoryNotFound) category of Inl e \<Rightarrow> Inl e | Inr t \<Rightarrow>
      (if tc_ProgramId t \<noteq> programID then Inl errInvalid
       else case ensureShowTimeInventoryMutable env k (tc_ShowTimeId t) c of
         Inl e \<Rightarrow> Inl (mapInventoryMutationError e) | Inr _ \<Rightarrow> Inr ()))"

record SeatAddReq =
  sa_ProgramId :: int
  sa_TicketCategoryId :: int
  sa_RowCode :: int
  sa_ColCode :: int
  sa_SeatType :: int
  sa_Price :: int
  sa_SeatStatus :: int

definition CreateSeat :: "catalogueEnv \<Rightarrow> SeatAddReq \<Rightarrow> catalogue \<Rightarrow> int res \<times> catalogue" where
  "CreateSeat env req c =
     (if sa_ProgramId req \<le> 0 \<or> sa_TicketCategoryId req \<le> 0 \<or> sa_RowCode req \<le> 0 \<or> sa_ColCode req \<le> 0
        \<or> sa_SeatType req \<le> 0 \<or> sa_Price req \<le> 0 then (Inl errInvalid, c)
      else case ifMissing programNotFoundError (orFault (ge_Fault env 0) (cachedProgram c (sa_ProgramId req))) of Inl e \<Rightarrow> (Inl e, c) | Inr _ \<Rightarrow>
      (case checkSeatCategory env 2 (sa_ProgramId req)
             (orFault (ge_Fault env 1) (orNotFound (categoryRow (ct_Categories c) (sa_TicketCategoryId req)))) c of Inl e \<Rightarrow> (Inl e, c) | Inr _ \<Rightarrow>
      (case orFault (ge_Fault env 4) (FindOneByProgramIdRowCodeColCode (wtable (ct_Seats c)) (sa_ProgramId req) (sa_RowCode req) (sa_ColCode req)) of
         Inr _ \<Rightarrow> (Inl (StatusMsg CAlreadyExists ''seat already exists''), c)
       | Inl e \<Rightarrow>
         (if e \<noteq> ModelNotFound then (Inl e, c)
          else case orFault (ge_Fault env 5) (InsertSeat (newSeat env (ge_Ids env 0) (sa_ProgramId req) (sa_TicketCategoryId req)
              (sa_RowCode req) (sa_ColCode req) (sa_SeatType req) (sa_Price req) (if sa_SeatStatus req = 0 then 1 else sa_SeatStatus req))
              (wtable (ct_Seats c))) of
            Inl e \<Rightarrow> (Inl e, c)
          | Inr tb \<Rightarrow>
            (case clearProgramSeatLedgers env 6 (sa_ProgramId req) [sa_TicketCategoryId req] (c\<lparr>ct_Seats := (ct_Seats c)\<lparr>wtable := tb\<rparr>\<rparr>) of
               (Inl e, c1) \<Rightarrow> (Inl e, c1) | (Inr _, c1) \<Rightarrow> (Inr (ge_Ids env 0), c1))))))"

record SeatBatchItem =
  bi_TicketCategoryId :: int
  bi_Price :: int
  bi_Count :: int

fun insertCols :: "catalogueEnv \<Rightarrow> int \<Rightarrow> SeatBatchItem \<Rightarrow> int \<Rightarrow> int list \<Rightarrow> nat \<Rightarrow> seatTable \<Rightarrow> (nat \<times> seatTable) res" where
  "insertCols env programID item rowIndex [] k tb = Inr (k, tb)"
| "insertCols env programID item rowIndex (col # cols) k tb =
     (case InsertSeat (newSeat env (ge_Ids env k) programID (bi_TicketCategoryId item) rowIndex col 1 (bi_Price item) 1) tb of
        Inl e \<Rightarrow> Inl e | Inr tb' \<Rightarrow> insertCols env programID item rowIndex cols (Suc k) tb')"

text \<open>The rows of ten for one item; the last one takes what remains.\<close>

function (sequential) fillRows :: "catalogueEnv \<Rightarrow> int \<Rightarrow> SeatBatchItem \<Rightarrow> int \<Rightarrow> int \<Rightarrow> nat \<Rightarrow> seatTable \<Rightarrow> (int \<times> nat \<times> seatTable) res" where
  "fillRows env programID item remaining rowIndex k tb =
     (if remaining \<le> 0 then Inr (rowIndex, k, tb)
      else let seatsInRow = (if remaining < 10 then remaining else 10) in
        case insertCols env programID item (rowIndex + 1) [1..seatsInRow] k tb of
          Inl e \<Rightarrow> Inl e
        | Inr (k', tb') \<Rightarrow> fillRows env programID item (remaining - seatsInRow) (rowIndex + 1) k' tb')"
  by pat_completeness auto
termination by (relation "measure (\<lambda>(env, programID, item, remaining, rowIndex, k, tb). nat remaining)") auto

declare fillRows.simps [simp del]

fun batchItems :: "catalogueEnv \<Rightarrow> int \<Rightarrow> SeatBatchItem list \<Rightarrow> nat \<Rightarrow> catalogue \<Rightarrow> int \<Rightarrow> nat \<Rightarrow> seatTable \<Rightarrow> seatTable res" where
  "batchItems env programID [] i c rowIndex k tb = Inr tb"
| "batchItems env programID (item # items) i c rowIndex k tb =
     (case checkSeatCategory env i programID (orNotFound (categoryRow (ct_Categories c) (bi_TicketCategoryId item))) c of
        Inl e \<Rightarrow> Inl e
      | Inr _ \<Rightarrow>
        (case fillRows env programID item (bi_Count item) rowIndex k tb of
           Inl e \<Rightarrow> Inl e
         | Inr (rowIndex', k', tb') \<Rightarrow> batchItems env programID items (Suc (Suc i)) c rowIndex' k' tb'))"

text \<open>The highest row of the program's seats, or zero.\<close>

definition highestRow :: "seatTable \<Rightarrow> int \<Rightarrow> int" where
  "highestRow tb programID = foldl (\<lambda>rowIndex s. if rowIndex < ds_RowCode s then ds_RowCode s else rowIndex) 0 (FindByProgramID tb programID)"

definition batchTx :: "catalogueEnv \<Rightarrow> int \<Rightarrow> SeatBatchItem list \<Rightarrow> catalogue \<Rightarrow> unit res \<times> catalogue" where
  "batchTx env programID items c =
     (case batchItems env programID items 1 c (highestRow (wtable (ct_Seats c)) programID) 0 (wtable (ct_Seats c)) of
        Inl e \<Rightarrow> (Inl e, c)
      | Inr tb \<Rightarrow> (Inr (), c\<lparr>ct_Seats := (ct_Seats c)\<lparr>wtable := tb\<rparr>\<rparr>))"

definition BatchCreateSeats :: "catalogueEnv \<Rightarrow> int \<Rightarrow> SeatBatchItem list \<Rightarrow> catalogue \<Rightarrow> bool res \<times> catalogue" where
  "BatchCreateSeats env programID items c =
     (if programID \<le> 0 \<or> items = [] then (Inl errInvalid, c)
      else case ifMissing programNotFoundError (orFault (ge_Fault env 0) (cachedProgram c programID)) of Inl e \<Rightarrow> (Inl e, c) | Inr _ \<Rightarrow>
      (if \<exists>item \<in> set items. bi_TicketCategoryId item \<le> 0 \<or> bi_Price item \<le> 0 \<or> bi_Count item \<le> 0 then (Inl errInvalid, c)
       else case runTx (ge_Tx env) (batchTx env programID items) c of
         (Inl e, c1) \<Rightarrow> (Inl e, c1)
       | (Inr _, c1) \<Rightarrow>
         (case clearProgramSeatLedgers env (1 + 2 * length items) programID (map bi_TicketCategoryId items) c1 of
            (Inl e, c2) \<Rightarrow> (Inl e, c2) | (Inr _, c2) \<Rightarrow> (Inr True, c2))))"

section \<open>Resetting and withdrawing a program\<close>

definition resetTx :: "catalogueEnv \<Rightarrow> int \<Rightarrow> catalogue \<Rightarrow> int res \<times> catalogue" where
  "resetTx env programID c =
     (case ifMissing programNotFoundError (orNotFound (programRow (ct_Programs c) programID)) of Inl e \<Rightarrow> (Inl e, c) | Inr program \<Rightarrow>
      (Inr (dp_ProgramGroupId program),
       c\<lparr>ct_Seats := (ct_Seats c)\<lparr>wtable := map (\<lambda>s. if ds_Status s = 1 \<and> ds_ProgramId s = programID \<and> ds_SeatStatus s \<in> {2, 3}
             then s\<lparr>ds_SeatStatus := 1, ds_FreezeToken := None, ds_FreezeExpireTime := None, ds_EditTime := ge_Now env 0\<rparr> else s)
             (wtable (ct_Seats c))\<rparr>,
         ct_Categories := map (\<lambda>t. if tc_Status t = 1 \<and> tc_ProgramId t = programID
             then t\<lparr>tc_RemainNumber := tc_TotalNumber t, tc_EditTime := ge_Now env 0\<rparr> else t) (ct_Categories c)\<rparr>))"

definition ResetProgram :: "catalogueEnv \<Rightarrow> int \<Rightarrow> catalogue \<Rightarrow> bool res \<times> catalogue" where
  "ResetProgram env programID c =
     (if programID \<le> 0 then (Inl errInvalid, c)
      else case runTx (ge_Tx env) (resetTx env programID) c of
        (Inl e, c1) \<Rightarrow> (Inl e, c1)
      | (Inr groupID, c1) \<Rightarrow>
        (case clearProgramSeatLedgersByProgram env 0 programID (InvalidateProgram env programID [groupID] c1) of
           (Inl e, c2) \<Rightarrow> (Inl e, c2) | (Inr _, c2) \<Rightarrow> (Inr True, c2)))"

text \<open>The update goes through the cached model, which drops the cached row.\<close>

definition InvalidProgram :: "catalogueEnv \<Rightarrow> int \<Rightarrow> catalogue \<Rightarrow> bool res \<times> catalogue" where
  "InvalidProgram env programID c =
     (if programID \<le> 0 then (Inl errInvalid, c)
      else case ifMissing programNotFoundError (orFault (ge_Fault env 0) (cachedProgram c programID)) of Inl e \<Rightarrow> (Inl e, c) | Inr program \<Rightarrow>
      (case ge_Fault env 1 of Some e \<Rightarrow> (Inl e, c) | None \<Rightarrow>
       (let c1 = c\<lparr>ct_Programs := UpdateProgramRow (program\<lparr>dp_ProgramStatus := 0, dp_EditTime := ge_Now env 0\<rparr>) (ct_Programs c),
              ct_Caches := (ct_Caches c)\<lparr>rc_Program := (rc_Program (ct_Caches c))(dp_Id program := None)\<rparr>\<rparr> in
        case clearProgramSeatLedgersByProgram env 2 (dp_Id program) (InvalidateProgram env (dp_Id program) [dp_ProgramGroupId program] c1) of
          (Inl e, c2) \<Rightarrow> (Inl e, c2) | (Inr _, c2) \<Rightarrow> (Inr True, c2))))"

section \<open>Program categories\<close>

record ProgramCategoryBatchItem =
  ci_ParentId :: int
  ci_Name :: string
  ci_Type :: int

definition kindKey :: "ProgramCategoryBatchItem \<Rightarrow> string" where
  "kindKey item = show_int (ci_ParentId item) @ ''|'' @ trim_space (ci_Name item) @ ''|'' @ show_int (ci_Type item)"

fun checkKinds :: "string set \<Rightarrow> ProgramCategoryBatchItem list \<Rightarrow> ProgramCategoryBatchItem list res" where
  "checkKinds seen [] = Inr []"
| "checkKinds seen (item # items) =
     (if ci_Type item \<le> 0 \<or> trim_space (ci_Name item) = [] then Inl errInvalid
      else if kindKey item \<in> seen then Inl errInvalid
      else case checkKinds (insert (kindKey item) seen) items of
        Inl e \<Rightarrow> Inl e | Inr rest \<Rightarrow> Inr (item\<lparr>ci_Name := trim_space (ci_Name item)\<rparr> # rest))"

definition kindTriple :: "DProgramCategory \<Rightarrow> int \<times> string \<times> int" where
  "kindTriple g = (gc_ParentId g, gc_Name g, gc_Type g)"

definition itemTriple :: "ProgramCategoryBatchItem \<Rightarrow> int \<times> string \<times> int" where
  "itemTriple item = (ci_ParentId item, ci_Name item, ci_Type item)"

text \<open>The id of the table is assigned by the database; the \<open>k\<close>-th insert gets \<open>ge_Ids env k\<close>.\<close>

fun insertKinds :: "catalogueEnv \<Rightarrow> nat \<Rightarrow> ProgramCategoryBatchItem list \<Rightarrow> DProgramCategory list \<Rightarrow> DProgramCategory list res" where
  "insertKinds env k [] tb = Inr tb"
| "insertKinds env k (item # items) tb =
     (if itemTriple item \<in> kindTriple ` set tb then Inl (Duplicate ''uk_parent_name_type'')
      else insertKinds env (Suc k) items (tb @ [\<lparr>gc_Id = ge_Ids env k, gc_ParentId = ci_ParentId item, gc_Name = ci_Name item, gc_Type = ci_Type item,
        gc_CreateTime = ge_Now env 0, gc_EditTime = ge_Now env 0, gc_Status = 1\<rparr>]))"

definition kindsTx :: "catalogueEnv \<Rightarrow> ProgramCategoryBatchItem list \<Rightarrow> catalogue \<Rightarrow> unit res \<times> catalogue" where
  "kindsTx env items c =
     (if \<exists>item \<in> set items. itemTriple item \<in> kindTriple ` set (ct_Kinds c) then (Inl errInvalid, c)
      else case insertKinds env 0 items (ct_Kinds c) of Inl e \<Rightarrow> (Inl e, c) | Inr tb \<Rightarrow> (Inr (), c\<lparr>ct_Kinds := tb\<rparr>))"

definition BatchCreateProgramCategories :: "catalogueEnv \<Rightarrow> ProgramCategoryBatchItem list \<Rightarrow> catalogue \<Rightarrow> bool res \<times> catalogue" where
  "BatchCreateProgramCategories env req c =
     (if req = [] then (Inl errInvalid, c)
      else case checkKinds {} req of Inl e \<Rightarrow> (Inl e, c) | Inr items \<Rightarrow>
      (case runTx (ge_Tx env) (kindsTx env items) c of
         (Inl e, c1) \<Rightarrow> (Inl e, c1) | (Inr _, c1) \<Rightarrow> (Inr True, InvalidateCategorySnapshot c1)))"

end
