(* ===== verification/OrderRepo.thy ===== *)
theory OrderRepo
  imports Sharding DelayTask
begin

text \<open>
  The sharded order store of \<open>services/order-rpc\<close>: the tables of \<open>internal/model\<close> with their unique
  keys, \<open>repository/order_transaction.go\<close> and \<open>repository/order_repository_sharded.go\<close>, and the
  transactions that the order logic runs on them (\<open>order_domain_helper.go\<close>,
  \<open>close_expired_order_logic.go\<close> and the consumer). A shard has one order and one ticket table per
  suffix; the guard tables and the outbox are shared by the suffixes of a database. Prices are
  \<open>decimal(10,0)\<close>, so whole numbers.
\<close>

section \<open>Tables\<close>

record DOrder =
  od_Id :: int
  od_OrderNumber :: int
  od_ProgramId :: int
  od_ShowTimeId :: int
  od_ProgramTitle :: string
  od_ProgramItemPicture :: string
  od_ProgramPlace :: string
  od_ProgramShowTime :: int
  od_ProgramPermitChooseSeat :: int
  od_UserId :: int
  od_DistributionMode :: string
  od_TakeTicketMode :: string
  od_TicketCount :: int
  od_OrderPrice :: int
  od_OrderStatus :: int
  od_FreezeToken :: string
  od_OrderExpireTime :: int
  od_CreateOrderTime :: int
  od_CancelOrderTime :: gotime
  od_PayOrderTime :: gotime
  od_CreateTime :: int
  od_EditTime :: int
  od_Status :: int

record DOrderTicketUser =
  ot_Id :: int
  ot_OrderNumber :: int
  ot_ShowTimeId :: int
  ot_UserId :: int
  ot_TicketUserId :: int
  ot_TicketUserName :: string
  ot_TicketUserIdNumber :: string
  ot_TicketCategoryId :: int
  ot_TicketCategoryName :: string
  ot_TicketPrice :: int
  ot_SeatId :: int
  ot_SeatRow :: int
  ot_SeatCol :: int
  ot_SeatPrice :: int
  ot_OrderStatus :: int
  ot_CreateOrderTime :: int
  ot_CreateTime :: int
  ot_EditTime :: int
  ot_Status :: int

text \<open>
  The three guard tables have the same columns but for the one the unique key combines with the show
  time: the user, the viewer or the seat.
\<close>

record orderGuard =
  gd_Id :: int
  gd_OrderNumber :: int
  gd_ProgramId :: int
  gd_ShowTimeId :: int
  gd_Subject :: int
  gd_CreateTime :: int
  gd_EditTime :: int
  gd_Status :: int

definition orderStatusUnpaid :: int where "orderStatusUnpaid = 1"
definition orderStatusCancelled :: int where "orderStatusCancelled = 2"
definition orderStatusPaid :: int where "orderStatusPaid = 3"
definition orderStatusRefunded :: int where "orderStatusRefunded = 4"

lemmas order_status_defs = orderStatusUnpaid_def orderStatusCancelled_def orderStatusPaid_def orderStatusRefunded_def

text \<open>The tables a transaction sees: those of one route.\<close>

record orderTx =
  tx_orders :: "DOrder list"
  tx_tickets :: "DOrderTicketUser list"
  tx_userGuards :: "orderGuard list"
  tx_viewerGuards :: "orderGuard list"
  tx_seatGuards :: "orderGuard list"
  tx_outbox :: "DDelayTaskOutbox list"

section \<open>Statements\<close>

definition InsertOrder :: "DOrder \<Rightarrow> orderTx \<Rightarrow> unit res \<times> orderTx" where
  "InsertOrder order tx =
     (if od_Id order \<in> od_Id ` set (tx_orders tx) then (Inl (Duplicate ''PRIMARY''), tx)
      else if od_OrderNumber order \<in> od_OrderNumber ` set (tx_orders tx) then (Inl (Duplicate ''uk_order_number''), tx)
      else (Inr (), tx\<lparr>tx_orders := tx_orders tx @ [order]\<rparr>))"

fun InsertOrderTickets :: "DOrderTicketUser list \<Rightarrow> orderTx \<Rightarrow> unit res \<times> orderTx" where
  "InsertOrderTickets [] tx = (Inr (), tx)"
| "InsertOrderTickets (row # rows) tx =
     (if ot_Id row \<in> ot_Id ` set (tx_tickets tx) then (Inl (Duplicate ''PRIMARY''), tx)
      else InsertOrderTickets rows (tx\<lparr>tx_tickets := tx_tickets tx @ [row]\<rparr>))"

definition guardKey :: "orderGuard \<Rightarrow> int \<times> int" where
  "guardKey g = (gd_ShowTimeId g, gd_Subject g)"

text \<open>Inserting into a guard table whose unique key is called \<open>uk\<close>.\<close>

fun insertGuards :: "string \<Rightarrow> orderGuard list \<Rightarrow> orderGuard list \<Rightarrow> orderGuard list res" where
  "insertGuards uk [] tbl = Inr tbl"
| "insertGuards uk (row # rows) tbl =
     (if gd_Id row \<in> gd_Id ` set tbl then Inl (Duplicate ''PRIMARY'')
      else if guardKey row \<in> guardKey ` set tbl then Inl (Duplicate uk)
      else insertGuards uk rows (tbl @ [row]))"

definition InsertUserGuard :: "orderGuard \<Rightarrow> orderTx \<Rightarrow> unit res \<times> orderTx" where
  "InsertUserGuard guard tx =
     (case insertGuards ''uk_show_time_user'' [guard] (tx_userGuards tx) of
        Inl e \<Rightarrow> (Inl e, tx) | Inr tbl \<Rightarrow> (Inr (), tx\<lparr>tx_userGuards := tbl\<rparr>))"

definition InsertViewerGuards :: "orderGuard list \<Rightarrow> orderTx \<Rightarrow> unit res \<times> orderTx" where
  "InsertViewerGuards guards tx =
     (case insertGuards ''uk_show_time_viewer'' guards (tx_viewerGuards tx) of
        Inl e \<Rightarrow> (Inl e, tx) | Inr tbl \<Rightarrow> (Inr (), tx\<lparr>tx_viewerGuards := tbl\<rparr>))"

definition InsertSeatGuards :: "orderGuard list \<Rightarrow> orderTx \<Rightarrow> unit res \<times> orderTx" where
  "InsertSeatGuards guards tx =
     (case insertGuards ''uk_show_time_seat'' guards (tx_seatGuards tx) of
        Inl e \<Rightarrow> (Inl e, tx) | Inr tbl \<Rightarrow> (Inr (), tx\<lparr>tx_seatGuards := tbl\<rparr>))"

definition InsertDelayTasks :: "DDelayTaskOutbox list \<Rightarrow> orderTx \<Rightarrow> orderTx" where
  "InsertDelayTasks rows tx = tx\<lparr>tx_outbox := InsertTasks rows (tx_outbox tx)\<rparr>"

definition MarkDelayTaskProcessed :: "string \<Rightarrow> string \<Rightarrow> int \<Rightarrow> orderTx \<Rightarrow> (int \<times> int) \<times> orderTx" where
  "MarkDelayTaskProcessed taskType taskKey processedAt tx =
     (case MarkProcessed taskType taskKey processedAt (tx_outbox tx) of (r, tbl) \<Rightarrow> (r, tx\<lparr>tx_outbox := tbl\<rparr>))"

definition deleteGuards :: "int \<Rightarrow> orderGuard list \<Rightarrow> orderGuard list" where
  "deleteGuards orderNumber tbl = filter (\<lambda>g. gd_OrderNumber g \<noteq> orderNumber) tbl"

definition DeleteGuardsByOrderNumber :: "int \<Rightarrow> orderTx \<Rightarrow> orderTx" where
  "DeleteGuardsByOrderNumber orderNumber tx =
     tx\<lparr>tx_userGuards := deleteGuards orderNumber (tx_userGuards tx),
        tx_viewerGuards := deleteGuards orderNumber (tx_viewerGuards tx),
        tx_seatGuards := deleteGuards orderNumber (tx_seatGuards tx)\<rparr>"

definition findOrder :: "DOrder list \<Rightarrow> int \<Rightarrow> DOrder option" where
  "findOrder tbl orderNumber = find (\<lambda>ord. od_Status ord = 1 \<and> od_OrderNumber ord = orderNumber) tbl"

definition FindOrderByNumberForUpdate :: "int \<Rightarrow> orderTx \<Rightarrow> DOrder option" where
  "FindOrderByNumberForUpdate orderNumber tx = findOrder (tx_orders tx) orderNumber"

text \<open>
  The three status updates: the rows of the order whose status is among \<open>from\<close> move to \<open>to\<close>, in the
  order table and in the ticket table.
\<close>

definition moveOrder :: "int list \<Rightarrow> int \<Rightarrow> (DOrder \<Rightarrow> DOrder) \<Rightarrow> int \<Rightarrow> DOrder \<Rightarrow> DOrder" where
  "moveOrder from to stamp orderNumber ord =
     (if od_Status ord = 1 \<and> od_OrderNumber ord = orderNumber \<and> od_OrderStatus ord \<in> set from
      then stamp (ord\<lparr>od_OrderStatus := to\<rparr>) else ord)"

definition moveTicket :: "int list \<Rightarrow> int \<Rightarrow> int \<Rightarrow> int \<Rightarrow> DOrderTicketUser \<Rightarrow> DOrderTicketUser" where
  "moveTicket from to now orderNumber t =
     (if ot_Status t = 1 \<and> ot_OrderNumber t = orderNumber \<and> ot_OrderStatus t \<in> set from
      then t\<lparr>ot_OrderStatus := to, ot_EditTime := now\<rparr> else t)"

definition moveStatus :: "int list \<Rightarrow> int \<Rightarrow> (DOrder \<Rightarrow> DOrder) \<Rightarrow> int \<Rightarrow> int \<Rightarrow> orderTx \<Rightarrow> orderTx" where
  "moveStatus from to stamp now orderNumber tx =
     tx\<lparr>tx_orders := map (moveOrder from to stamp orderNumber) (tx_orders tx),
        tx_tickets := map (moveTicket from to now orderNumber) (tx_tickets tx)\<rparr>"

definition UpdateCancelStatus :: "int \<Rightarrow> int \<Rightarrow> orderTx \<Rightarrow> orderTx" where
  "UpdateCancelStatus orderNumber cancelTime tx =
     moveStatus [1] 2 (\<lambda>ord. ord\<lparr>od_CancelOrderTime := Some cancelTime, od_EditTime := cancelTime\<rparr>) cancelTime orderNumber tx"

definition UpdatePayStatus :: "int \<Rightarrow> int \<Rightarrow> orderTx \<Rightarrow> orderTx" where
  "UpdatePayStatus orderNumber payTime tx =
     moveStatus [1] 3 (\<lambda>ord. ord\<lparr>od_PayOrderTime := Some payTime, od_EditTime := payTime\<rparr>) payTime orderNumber tx"

definition UpdateOrderRefundStatus :: "int \<Rightarrow> int \<Rightarrow> orderTx \<Rightarrow> orderTx" where
  "UpdateOrderRefundStatus orderNumber refundTime tx =
     moveStatus [2, 3] 4 (\<lambda>ord. ord\<lparr>od_EditTime := refundTime\<rparr>) refundTime orderNumber tx"

section \<open>Transactions of the order logic\<close>

definition loadTx :: "int \<Rightarrow> orderTx \<Rightarrow> DOrder res \<times> orderTx" where
  "loadTx orderNumber tx =
     (case FindOrderByNumberForUpdate orderNumber tx of
        None \<Rightarrow> (Inl (Sentinel ErrOrderNotFound), tx)
      | Some order \<Rightarrow> (Inr order, tx))"

text \<open>\<open>finalizeOrderCancel\<close>; the result says whether the order changed.\<close>

definition cancelTx :: "int \<Rightarrow> int \<Rightarrow> orderTx \<Rightarrow> bool res \<times> orderTx" where
  "cancelTx cancelTime orderNumber tx =
     (case FindOrderByNumberForUpdate orderNumber tx of
        None \<Rightarrow> (Inl (Sentinel ErrOrderNotFound), tx)
      | Some order \<Rightarrow>
        (if od_OrderStatus order = orderStatusCancelled then (Inr False, tx)
         else if od_OrderStatus order \<noteq> orderStatusUnpaid then (Inl (Sentinel ErrOrderStatusInvalid), tx)
         else (Inr True, DeleteGuardsByOrderNumber (od_OrderNumber order) (UpdateCancelStatus (od_OrderNumber order) cancelTime tx))))"

text \<open>\<open>finalizeOrderPay\<close>.\<close>

definition payTx :: "int \<Rightarrow> int \<Rightarrow> orderTx \<Rightarrow> unit res \<times> orderTx" where
  "payTx payTime orderNumber tx =
     (case FindOrderByNumberForUpdate orderNumber tx of
        None \<Rightarrow> (Inl (Sentinel ErrOrderNotFound), tx)
      | Some order \<Rightarrow>
        (if od_OrderStatus order = orderStatusPaid then (Inr (), tx)
         else if od_OrderStatus order \<noteq> orderStatusUnpaid then (Inl (Sentinel ErrOrderStatusInvalid), tx)
         else (Inr (), UpdatePayStatus (od_OrderNumber order) payTime tx)))"

text \<open>\<open>convergeOrderRefunded\<close>.\<close>

definition refundTx :: "int \<Rightarrow> int \<Rightarrow> orderTx \<Rightarrow> unit res \<times> orderTx" where
  "refundTx refundTime orderNumber tx =
     (case FindOrderByNumberForUpdate orderNumber tx of
        None \<Rightarrow> (Inl (Sentinel ErrOrderNotFound), tx)
      | Some order \<Rightarrow>
        (if od_OrderStatus order = orderStatusRefunded then (Inr (), tx)
         else if od_OrderStatus order \<noteq> orderStatusPaid \<and> od_OrderStatus order \<noteq> orderStatusCancelled
              then (Inl (Sentinel ErrOrderStatusInvalid), tx)
         else (Inr (), DeleteGuardsByOrderNumber (od_OrderNumber order) (UpdateOrderRefundStatus orderNumber refundTime tx))))"

text \<open>
  \<open>finalizeCloseTimeoutTask\<close>: the snapshot, whether the order was closed, and the old status and the
  attempts of the task.
\<close>

definition closeTx :: "int \<Rightarrow> int \<Rightarrow> orderTx \<Rightarrow> (DOrder option \<times> bool \<times> int \<times> int) res \<times> orderTx" where
  "closeTx now orderNumber tx =
     (let mark = MarkDelayTaskProcessed TaskTypeCloseTimeout (TaskKey orderNumber) now in
      case FindOrderByNumberForUpdate orderNumber tx of
        None \<Rightarrow> (case mark tx of ((fs, ca), tx1) \<Rightarrow> (Inr (None, False, fs, ca), tx1))
      | Some order \<Rightarrow>
        (if od_OrderStatus order \<noteq> orderStatusUnpaid
         then (case mark tx of ((fs, ca), tx1) \<Rightarrow> (Inr (Some order, False, fs, ca), tx1))
         else if now < od_OrderExpireTime order then (Inr (Some order, False, 0, 0), tx)
         else
           (case mark (DeleteGuardsByOrderNumber (od_OrderNumber order) (UpdateCancelStatus (od_OrderNumber order) now tx)) of
              ((fs, ca), tx1) \<Rightarrow>
                (Inr (Some (order\<lparr>od_OrderStatus := orderStatusCancelled, od_CancelOrderTime := Some now\<rparr>), True, fs, ca), tx1))))"

text \<open>The rows of a new order, and the transaction of the consumer that writes them.\<close>

record orderWriteModels =
  wm_order :: DOrder
  wm_orderTickets :: "DOrderTicketUser list"
  wm_userGuard :: orderGuard
  wm_viewerGuards :: "orderGuard list"
  wm_seatGuards :: "orderGuard list"
  wm_delayTaskRows :: "DDelayTaskOutbox list"

definition isDuplicateOrderNumberErr :: "goerr \<Rightarrow> bool" where
  "isDuplicateOrderNumberErr err = (case err of Duplicate _ \<Rightarrow> True | _ \<Rightarrow> False)"

definition isGuardConflictErr :: "goerr \<Rightarrow> bool" where
  "isGuardConflictErr err =
     (case err of Duplicate idx \<Rightarrow> idx \<in> {''uk_show_time_user'', ''uk_show_time_viewer'', ''uk_show_time_seat''} | _ \<Rightarrow> False)"

definition persistTx :: "orderWriteModels \<Rightarrow> orderTx \<Rightarrow> unit res \<times> orderTx" where
  "persistTx wm tx =
     (case InsertOrder (wm_order wm) tx of
        (Inl e, tx1) \<Rightarrow> (if isDuplicateOrderNumberErr e then (Inr (), tx1) else (Inl e, tx1))
      | (Inr _, tx1) \<Rightarrow>
     (case InsertOrderTickets (wm_orderTickets wm) tx1 of (Inl e, tx2) \<Rightarrow> (Inl e, tx2) | (Inr _, tx2) \<Rightarrow>
     (case InsertUserGuard (wm_userGuard wm) tx2 of (Inl e, tx3) \<Rightarrow> (Inl e, tx3) | (Inr _, tx3) \<Rightarrow>
     (case InsertViewerGuards (wm_viewerGuards wm) tx3 of (Inl e, tx4) \<Rightarrow> (Inl e, tx4) | (Inr _, tx4) \<Rightarrow>
     (case InsertSeatGuards (wm_seatGuards wm) tx4 of (Inl e, tx5) \<Rightarrow> (Inl e, tx5) | (Inr _, tx5) \<Rightarrow>
       (Inr (), InsertDelayTasks (wm_delayTaskRows wm) tx5))))))"

section \<open>Repository\<close>

record shardDb =
  sd_orders :: "string \<Rightarrow> DOrder list"
  sd_tickets :: "string \<Rightarrow> DOrderTicketUser list"
  sd_userGuards :: "orderGuard list"
  sd_viewerGuards :: "orderGuard list"
  sd_seatGuards :: "orderGuard list"
  sd_outbox :: "DDelayTaskOutbox list"

text \<open>The configured shard connections.\<close>

type_synonym repo = "string \<rightharpoonup> shardDb"

definition shardError :: "string \<Rightarrow> goerr" where
  "shardError dbKey = Other (''shard db key not configured: '' @ dbKey)"

definition openTx :: "string \<Rightarrow> shardDb \<Rightarrow> orderTx" where
  "openTx suffix db = \<lparr>tx_orders = sd_orders db suffix, tx_tickets = sd_tickets db suffix, tx_userGuards = sd_userGuards db,
     tx_viewerGuards = sd_viewerGuards db, tx_seatGuards = sd_seatGuards db, tx_outbox = sd_outbox db\<rparr>"

definition commitTx :: "string \<Rightarrow> orderTx \<Rightarrow> shardDb \<Rightarrow> shardDb" where
  "commitTx suffix tx db = \<lparr>sd_orders = (sd_orders db)(suffix := tx_orders tx), sd_tickets = (sd_tickets db)(suffix := tx_tickets tx),
     sd_userGuards = tx_userGuards tx, sd_viewerGuards = tx_viewerGuards tx, sd_seatGuards = tx_seatGuards tx, sd_outbox = tx_outbox tx\<rparr>"

definition transactByRoute :: "txfault \<Rightarrow> Route \<Rightarrow> (orderTx \<Rightarrow> 'a res \<times> orderTx) \<Rightarrow> repo \<Rightarrow> 'a res \<times> repo" where
  "transactByRoute flt route fn repo =
     (case repo (DBKey route) of
        None \<Rightarrow> (Inl (shardError (DBKey route)), repo)
      | Some db \<Rightarrow>
        (case runTx flt fn (openTx (TableSuffix route) db) of
           (r, tx) \<Rightarrow> (r, repo(DBKey route \<mapsto> commitTx (TableSuffix route) tx db))))"

definition TransactByOrderNumber ::
    "RouteMap \<Rightarrow> int \<Rightarrow> txfault \<Rightarrow> int \<Rightarrow> (orderTx \<Rightarrow> 'a res \<times> orderTx) \<Rightarrow> repo \<Rightarrow> 'a res \<times> repo" where
  "TransactByOrderNumber m nowSec flt orderNumber fn repo =
     (case RouteByOrderNumber m nowSec orderNumber of
        Inl e \<Rightarrow> (Inl e, repo)
      | Inr route \<Rightarrow> transactByRoute flt route fn repo)"

text \<open>A query on the shard of an order or a user; \<open>flt\<close> is the error of the connection, if any.\<close>

definition queryRoute :: "goerr option \<Rightarrow> Route res \<Rightarrow> (string \<Rightarrow> shardDb \<Rightarrow> 'a res) \<Rightarrow> repo \<Rightarrow> 'a res" where
  "queryRoute flt route q repo =
     (case route of Inl e \<Rightarrow> Inl e | Inr rt \<Rightarrow>
     (case repo (DBKey rt) of None \<Rightarrow> Inl (shardError (DBKey rt)) | Some db \<Rightarrow>
     (case flt of Some e \<Rightarrow> Inl e | None \<Rightarrow> q (TableSuffix rt) db)))"

definition FindOrderByNumber :: "RouteMap \<Rightarrow> int \<Rightarrow> goerr option \<Rightarrow> int \<Rightarrow> repo \<Rightarrow> DOrder res" where
  "FindOrderByNumber m nowSec flt orderNumber repo =
     queryRoute flt (RouteByOrderNumber m nowSec orderNumber)
       (\<lambda>suffix db. case findOrder (sd_orders db suffix) orderNumber of None \<Rightarrow> Inl ModelNotFound | Some order \<Rightarrow> Inr order) repo"

definition FindOrderTicketsByNumber :: "RouteMap \<Rightarrow> int \<Rightarrow> goerr option \<Rightarrow> int \<Rightarrow> repo \<Rightarrow> DOrderTicketUser list res" where
  "FindOrderTicketsByNumber m nowSec flt orderNumber repo =
     queryRoute flt (RouteByOrderNumber m nowSec orderNumber)
       (\<lambda>suffix db. Inr (sort_key ot_Id (filter (\<lambda>t. ot_Status t = 1 \<and> ot_OrderNumber t = orderNumber) (sd_tickets db suffix)))) repo"

definition FindPageByUserAndStatus :: "int \<Rightarrow> int \<Rightarrow> int \<Rightarrow> int \<Rightarrow> DOrder list \<Rightarrow> DOrder list \<times> int" where
  "FindPageByUserAndStatus userId orderStatus pageNumber pageSize tbl =
     (let rows = filter (\<lambda>ord. od_Status ord = 1 \<and> od_UserId ord = userId \<and> (0 < orderStatus \<longrightarrow> od_OrderStatus ord = orderStatus)) tbl;
          total = int (length rows) in
      if total = 0 then ([], 0)
      else (take (nat pageSize) (drop (nat ((pageNumber - 1) * pageSize))
              (sort_key (\<lambda>ord. (- od_CreateOrderTime ord, - od_Id ord)) rows)), total))"

definition FindOrderPageByUser :: "RouteMap \<Rightarrow> goerr option \<Rightarrow> int \<Rightarrow> int \<Rightarrow> int \<Rightarrow> int \<Rightarrow> repo \<Rightarrow> (DOrder list \<times> int) res" where
  "FindOrderPageByUser m flt userID orderStatus pageNumber pageSize repo =
     queryRoute flt (RouteByUserID m userID)
       (\<lambda>suffix db. Inr (FindPageByUserAndStatus userID orderStatus pageNumber pageSize (sd_orders db suffix))) repo"

definition CountActiveTicketsByUserShowTime :: "RouteMap \<Rightarrow> goerr option \<Rightarrow> int \<Rightarrow> int \<Rightarrow> repo \<Rightarrow> int res" where
  "CountActiveTicketsByUserShowTime m flt userID showTimeID repo =
     queryRoute flt (RouteByUserID m userID)
       (\<lambda>suffix db. Inr (sum_list (map od_TicketCount (filter (\<lambda>ord. od_Status ord = 1 \<and> od_UserId ord = userID
          \<and> od_ShowTimeId ord = showTimeID \<and> od_OrderStatus ord \<in> {1, 3}) (sd_orders db suffix))))) repo"

definition ListUnpaidReservationsByUserShowTime :: "RouteMap \<Rightarrow> goerr option \<Rightarrow> int \<Rightarrow> int \<Rightarrow> repo \<Rightarrow> (int \<times> int) list res" where
  "ListUnpaidReservationsByUserShowTime m flt userID showTimeID repo =
     queryRoute flt (RouteByUserID m userID)
       (\<lambda>suffix db. Inr (map (\<lambda>ord. (od_OrderNumber ord, od_TicketCount ord)) (filter (\<lambda>ord. od_Status ord = 1 \<and> od_UserId ord = userID
          \<and> od_ShowTimeId ord = showTimeID \<and> od_OrderStatus ord = 1) (sd_orders db suffix)))) repo"

section \<open>Scan for expired orders\<close>

definition expireKey :: "DOrder \<Rightarrow> int \<times> int" where
  "expireKey ord = (od_OrderExpireTime ord, od_Id ord)"

definition expiredUnpaid :: "int \<Rightarrow> DOrder \<Rightarrow> bool" where
  "expiredUnpaid before ord \<longleftrightarrow> od_Status ord = 1 \<and> od_OrderStatus ord = 1 \<and> od_OrderExpireTime ord \<le> before"

definition afterCursor :: "(int \<times> int) option \<Rightarrow> DOrder \<Rightarrow> bool" where
  "afterCursor cursor ord = (case cursor of None \<Rightarrow> True
     | Some (e, i) \<Rightarrow> e < od_OrderExpireTime ord \<or> (od_OrderExpireTime ord = e \<and> i < od_Id ord))"

definition expiredRows :: "int \<Rightarrow> (int \<times> int) option \<Rightarrow> DOrder list \<Rightarrow> DOrder list" where
  "expiredRows before cursor tbl = sort_key expireKey (filter (\<lambda>ord. expiredUnpaid before ord \<and> afterCursor cursor ord) tbl)"

definition orderMatchesLogicSlot :: "int \<Rightarrow> int \<Rightarrow> DOrder \<Rightarrow> bool" where
  "orderMatchesLogicSlot nowSec logicSlot ord =
     (case LogicSlotByOrderNumber nowSec (od_OrderNumber ord) of Inl _ \<Rightarrow> False | Inr slot \<Rightarrow> slot = logicSlot)"

lemma afterCursor_less: "afterCursor (Some c) ord \<longleftrightarrow> c < expireKey ord"
  by (cases c) (auto simp: afterCursor_def expireKey_def less_prod_def)

lemma cursor_shrinks:
  assumes "ord \<in> set (expiredRows before cursor tbl)"
  shows "length (expiredRows before (Some (expireKey ord)) tbl) < length (expiredRows before cursor tbl)"
proof -
  let ?P = "\<lambda>r. expiredUnpaid before r \<and> afterCursor cursor r"
  let ?Q = "\<lambda>r. expiredUnpaid before r \<and> afterCursor (Some (expireKey ord)) r"
  have o: "ord \<in> set tbl" "?P ord" "\<not> ?Q ord" using assms by (auto simp: expiredRows_def afterCursor_less)
  have "?P r" if "?Q r" for r
    using that o(2) by (cases cursor) (auto simp: afterCursor_less, auto simp: afterCursor_def dest: less_trans)
  then have eq: "filter ?Q (filter ?P tbl) = filter ?Q tbl" by (simp add: filter_filter cong: conj_cong) metis
  have "length (filter ?Q (filter ?P tbl)) < length (filter ?P tbl)"
    using o by (intro length_filter_less [of ord]) auto
  then show ?thesis unfolding eq by (simp add: expiredRows_def)
qed

text \<open>
  The loop of \<open>FindExpiredUnpaidBySlot\<close>: pages of \<open>q\<close> rows behind a cursor, until enough orders of the
  slot are found or a page is not full.
\<close>

function (sequential) expiredLoop ::
    "int \<Rightarrow> int \<Rightarrow> nat \<Rightarrow> nat \<Rightarrow> int \<Rightarrow> DOrder list \<Rightarrow> (int \<times> int) option \<Rightarrow> DOrder list \<Rightarrow> DOrder list" where
  "expiredLoop nowSec slot limit q before tbl cursor found =
     (if limit \<le> length found then found
      else let batch = take q (expiredRows before cursor tbl) in
        if batch = [] then found
        else let found' = found @ take (limit - length found) (filter (orderMatchesLogicSlot nowSec slot) batch) in
          if limit \<le> length found' then found'
          else if length batch < q then found'
          else expiredLoop nowSec slot limit q before tbl (Some (expireKey (last batch))) found')"
  by pat_completeness auto
termination
proof (relation "measure (\<lambda>(nowSec, slot, limit, q, before, tbl, cursor, found). length (expiredRows before cursor tbl))", goal_cases)
  case (2 nowSec slot limit q before tbl cursor found batch found')
  then have "last batch \<in> set (expiredRows before cursor tbl)" by (metis in_set_takeD last_in_set)
  then show ?case by (simp add: cursor_shrinks)
qed simp

declare expiredLoop.simps [simp del]

definition FindExpiredUnpaidBySlot ::
    "RouteMap \<Rightarrow> int \<Rightarrow> goerr option \<Rightarrow> int \<Rightarrow> int \<Rightarrow> int \<Rightarrow> repo \<Rightarrow> DOrder list res" where
  "FindExpiredUnpaidBySlot m nowSec flt logicSlot before limit repo =
     (case RouteByLogicSlot m logicSlot of Inl e \<Rightarrow> Inl e | Inr route \<Rightarrow>
     (case repo (DBKey route) of None \<Rightarrow> Inl (shardError (DBKey route)) | Some db \<Rightarrow>
       (if limit \<le> 0 then Inr []
        else case flt of Some e \<Rightarrow> Inl e
        | None \<Rightarrow> Inr (expiredLoop nowSec logicSlot (nat limit) (nat (if limit < 32 then 32 else limit)) before
            (sd_orders db (TableSuffix route)) None []))))"

lemma expiredRows_sorted:
  assumes "distinct (map od_Id tbl)"
  shows "sorted_wrt (\<lambda>a b. expireKey a < expireKey b) (expiredRows before cursor tbl)"
proof -
  let ?xs = "filter (\<lambda>ord. expiredUnpaid before ord \<and> afterCursor cursor ord) tbl"
  have "distinct (map od_Id ?xs)" using assms by (rule distinct_map_filter)
  then have "distinct (map expireKey ?xs)" by (auto simp: distinct_map inj_on_def expireKey_def)
  then have "distinct (map expireKey (sort_key expireKey ?xs))"
    using mset_eq_imp_distinct_iff [of "map expireKey (sort_key expireKey ?xs)" "map expireKey ?xs"] by simp
  then have "sorted_wrt (<) (map expireKey (sort_key expireKey ?xs))" by (simp add: strict_sorted_iff)
  then show ?thesis by (simp add: expiredRows_def sorted_wrt_map)
qed

lemma filter_behind_cut:
  assumes "sorted_wrt (\<lambda>a b. k a < (k b :: 'k :: linorder)) xs" "0 < q" "q \<le> length xs"
  shows "filter (\<lambda>x. k (last (take q xs)) < k x) xs = drop q xs"
proof -
  have ne: "take q xs \<noteq> []" using assms(2,3) by auto
  have eq: "xs = take q xs @ drop q xs" by simp
  have s: "sorted_wrt (\<lambda>a b. k a < k b) (take q xs)" "\<forall>a \<in> set (take q xs). \<forall>b \<in> set (drop q xs). k a < k b"
    using assms(1) by (metis eq sorted_wrt_append)+
  have "k a \<le> k (last (take q xs))" if "a \<in> set (take q xs)" for a
  proof -
    have "take q xs = butlast (take q xs) @ [last (take q xs)]" using ne by simp
    then have "\<forall>a \<in> set (butlast (take q xs)). k a < k (last (take q xs))"
      using s(1) by (metis list.set_intros(1) sorted_wrt_append)
    then show ?thesis using that ne by (metis append_butlast_last_id in_set_conv_decomp less_imp_le order_refl Un_iff set_append set_ConsD empty_iff empty_set)
  qed
  then have "filter (\<lambda>x. k (last (take q xs)) < k x) (take q xs) = []" by (auto simp: filter_empty_conv not_less)
  moreover have "filter (\<lambda>x. k (last (take q xs)) < k x) (drop q xs) = drop q xs"
    using s(2) ne by (auto intro!: filter_True)
  ultimately show ?thesis by (metis append_Nil eq filter_append)
qed

lemma expiredRows_next:
  assumes "distinct (map od_Id tbl)" "0 < q" "q \<le> length (expiredRows before cursor tbl)"
  shows "expiredRows before (Some (expireKey (last (take q (expiredRows before cursor tbl))))) tbl = drop q (expiredRows before cursor tbl)"
proof -
  let ?xs = "expiredRows before cursor tbl"
  let ?z = "last (take q ?xs)"
  have "take q ?xs \<noteq> []" using assms(2,3) by auto
  then have "?z \<in> set ?xs" by (metis in_set_takeD last_in_set)
  then have z: "afterCursor cursor ?z" by (auto simp: expiredRows_def)
  have "(expiredUnpaid before r \<and> afterCursor (Some (expireKey ?z)) r)
      = (expireKey ?z < expireKey r \<and> expiredUnpaid before r \<and> afterCursor cursor r)" for r
    using z by (cases cursor) (auto simp: afterCursor_less, auto simp: afterCursor_def dest: less_trans)
  then have "expiredRows before (Some (expireKey ?z)) tbl = filter (\<lambda>r. expireKey ?z < expireKey r) ?xs"
    by (simp add: expiredRows_def filter_sort filter_filter conj_ac)
  also have "\<dots> = drop q ?xs" by (rule filter_behind_cut [OF expiredRows_sorted [OF assms(1)] assms(2,3)])
  finally show ?thesis .
qed

lemma expiredLoop_scan:
  assumes "distinct (map od_Id tbl)" "0 < q" "length found \<le> limit"
  shows "expiredLoop nowSec slot limit q before tbl cursor found =
    take limit (found @ filter (orderMatchesLogicSlot nowSec slot) (expiredRows before cursor tbl))"
  using assms
proof (induction nowSec slot limit q before tbl cursor found rule: expiredLoop.induct)
  case (1 nowSec slot limit q before tbl cursor found)
  let ?xs = "expiredRows before cursor tbl"
  let ?m = "filter (orderMatchesLogicSlot nowSec slot)"
  let ?found = "found @ take (limit - length found) (?m (take q ?xs))"
  have split: "?m ?xs = ?m (take q ?xs) @ ?m (drop q ?xs)" by (metis append_take_drop_id filter_append)
  consider "limit \<le> length found" | "\<not> limit \<le> length found" "take q ?xs = []"
    | "\<not> limit \<le> length found" "take q ?xs \<noteq> []" "limit \<le> length ?found"
    | "\<not> limit \<le> length found" "take q ?xs \<noteq> []" "\<not> limit \<le> length ?found" "length (take q ?xs) < q"
    | "\<not> limit \<le> length found" "take q ?xs \<noteq> []" "\<not> limit \<le> length ?found" "\<not> length (take q ?xs) < q" by blast
  then show ?case
  proof cases
    case 1
    then show ?thesis using "1.prems"(3) by (subst expiredLoop.simps) simp
  next
    case 2
    then have "?xs = []" using "1.prems"(2) by simp
    then show ?thesis using 2 by (subst expiredLoop.simps) simp
  next
    case 3
    then have "expiredLoop nowSec slot limit q before tbl cursor found = ?found" by (subst expiredLoop.simps) (simp add: Let_def)
    then show ?thesis using 3 unfolding split by simp
  next
    case 4
    from 4(4) have "length ?xs < q" by simp
    then have "expiredLoop nowSec slot limit q before tbl cursor found = ?found" using 4(1-3) by (subst expiredLoop.simps) (simp add: Let_def)
    then show ?thesis using 4 by simp
  next
    case 5
    have full: "q \<le> length ?xs" using 5(4) by simp
    have all: "?found = found @ ?m (take q ?xs)" using 5(3) by simp
    have "expiredLoop nowSec slot limit q before tbl cursor found =
        expiredLoop nowSec slot limit q before tbl (Some (expireKey (last (take q ?xs)))) ?found"
      by (subst expiredLoop.simps) (simp only: Let_def 5 if_False)
    also have "\<dots> = take limit (?found @ ?m (expiredRows before (Some (expireKey (last (take q ?xs)))) tbl))"
      by (rule "1.IH" [OF 5(1) refl 5(2) refl 5(3) 5(4) "1.prems"(1,2)]) (use 5(3) in simp)
    finally show ?thesis
      unfolding expiredRows_next [OF "1.prems"(1,2) full] all split by simp
  qed
qed

text \<open>
  C31. Paging through the expired orders of a shard behind a cursor finds exactly what one pass
  would: the first \<open>limit\<close> unpaid orders of the slot, in the order of their expiry, each once.
\<close>

theorem expired_scan_complete:
  assumes "RouteByLogicSlot m slot = Inr route" "repo (DBKey route) = Some db" "0 < limit"
    and "distinct (map od_Id (sd_orders db (TableSuffix route)))"
  shows "FindExpiredUnpaidBySlot m nowSec None slot before limit repo =
    Inr (take (nat limit) (filter (orderMatchesLogicSlot nowSec slot)
      (sort_key expireKey (filter (expiredUnpaid before) (sd_orders db (TableSuffix route))))))"
  using assms expiredLoop_scan [OF assms(4), of "nat (if limit < 32 then 32 else limit)" "[]"]
  by (simp add: FindExpiredUnpaidBySlot_def expiredRows_def afterCursor_def)

end
