(* ===== verification/OrderInvariant.thy ===== *)
theory OrderInvariant
  imports OrderRepo
begin

text \<open>
  The invariant of the sharded order store: every order lies in the table its number is routed to,
  tickets have the status of their order, and every unpaid or paid order holds its user, viewer and
  seat guards, so that no two of them in one database share a user, a viewer or a seat. All
  transactions of the order logic keep it and move orders only along the life cycle.
\<close>

section \<open>Placement\<close>

definition placed :: "RouteMap \<Rightarrow> string \<Rightarrow> string \<Rightarrow> int \<Rightarrow> bool" where
  "placed m k sfx n \<longleftrightarrow> (\<exists>nowSec route. RouteByOrderNumber m nowSec n = Inr route \<and> DBKey route = k \<and> TableSuffix route = sfx)"

lemma RouteByOrderNumber_time:
  "RouteByOrderNumber m s n = Inr route \<Longrightarrow> RouteByOrderNumber m s' n = Inr route' \<Longrightarrow> route = route'"
  by (auto simp: RouteByOrderNumber_def LogicSlotByOrderNumber_def ParseOrderNumber_def Let_def split: if_splits sum.splits)

lemma placed_unique: "placed m k sfx n \<Longrightarrow> placed m k' sfx' n \<Longrightarrow> k = k' \<and> sfx = sfx'"
  unfolding placed_def using RouteByOrderNumber_time by blast

section \<open>Invariant of a table and of the guards\<close>

definition hasGuard :: "orderGuard list \<Rightarrow> int \<Rightarrow> int \<Rightarrow> int \<Rightarrow> bool" where
  "hasGuard tbl n st subj \<longleftrightarrow> (\<exists>g \<in> set tbl. gd_OrderNumber g = n \<and> guardKey g = (st, subj))"

definition active :: "DOrder \<Rightarrow> bool" where
  "active ord \<longleftrightarrow> od_OrderStatus ord = orderStatusUnpaid \<or> od_OrderStatus ord = orderStatusPaid"

definition ticketOf :: "DOrder \<Rightarrow> DOrderTicketUser \<Rightarrow> bool" where
  "ticketOf ord t \<longleftrightarrow> ot_OrderNumber t = od_OrderNumber ord"

definition orderOk :: "(int \<Rightarrow> bool) \<Rightarrow> orderTx \<Rightarrow> DOrder \<Rightarrow> bool" where
  "orderOk P tx ord \<longleftrightarrow> od_Status ord = 1 \<and> P (od_OrderNumber ord) \<and> od_OrderStatus ord \<in> {1, 2, 3, 4}
     \<and> (active ord \<longrightarrow> hasGuard (tx_userGuards tx) (od_OrderNumber ord) (od_ShowTimeId ord) (od_UserId ord)
         \<and> (\<forall>t \<in> set (tx_tickets tx). ticketOf ord t \<longrightarrow>
              hasGuard (tx_viewerGuards tx) (od_OrderNumber ord) (od_ShowTimeId ord) (ot_TicketUserId t)
              \<and> hasGuard (tx_seatGuards tx) (od_OrderNumber ord) (od_ShowTimeId ord) (ot_SeatId t)))"

definition ticketOk :: "orderTx \<Rightarrow> DOrderTicketUser \<Rightarrow> bool" where
  "ticketOk tx t \<longleftrightarrow> ot_Status t = 1 \<and>
     (\<exists>ord \<in> set (tx_orders tx). ticketOf ord t \<and> ot_OrderStatus t = od_OrderStatus ord)"

definition tableInv :: "(int \<Rightarrow> bool) \<Rightarrow> orderTx \<Rightarrow> bool" where
  "tableInv P tx \<longleftrightarrow> distinct (map od_OrderNumber (tx_orders tx)) \<and> (\<forall>ord \<in> set (tx_orders tx). orderOk P tx ord)
     \<and> (\<forall>t \<in> set (tx_tickets tx). ticketOk tx t)"

definition uniqueKeys :: "orderGuard list \<Rightarrow> bool" where
  "uniqueKeys tbl \<longleftrightarrow> distinct (map guardKey tbl)"

definition guardsInv :: "orderTx \<Rightarrow> bool" where
  "guardsInv tx \<longleftrightarrow> uniqueKeys (tx_userGuards tx) \<and> uniqueKeys (tx_viewerGuards tx) \<and> uniqueKeys (tx_seatGuards tx)"

text \<open>What a transaction on order \<open>n\<close> leaves alone: guards of other orders.\<close>

definition guardsKept :: "int \<Rightarrow> orderTx \<Rightarrow> orderTx \<Rightarrow> bool" where
  "guardsKept n tx tx' \<longleftrightarrow> (\<forall>g. gd_OrderNumber g \<noteq> n \<longrightarrow>
     (g \<in> set (tx_userGuards tx) \<longrightarrow> g \<in> set (tx_userGuards tx'))
     \<and> (g \<in> set (tx_viewerGuards tx) \<longrightarrow> g \<in> set (tx_viewerGuards tx'))
     \<and> (g \<in> set (tx_seatGuards tx) \<longrightarrow> g \<in> set (tx_seatGuards tx')))"

lemma guardsKept_refl [simp]: "guardsKept n tx tx"
  by (simp add: guardsKept_def)

lemma hasGuard_kept:
  assumes "guardsKept n tx tx'" "n' \<noteq> n"
  shows "hasGuard (tx_userGuards tx) n' st s \<Longrightarrow> hasGuard (tx_userGuards tx') n' st s"
    "hasGuard (tx_viewerGuards tx) n' st s \<Longrightarrow> hasGuard (tx_viewerGuards tx') n' st s"
    "hasGuard (tx_seatGuards tx) n' st s \<Longrightarrow> hasGuard (tx_seatGuards tx') n' st s"
  using assms by (auto simp: hasGuard_def guardsKept_def)

text \<open>Moves of an order's status in the life cycle: cancel, pay, refund after either.\<close>

definition lifeStep :: "int \<Rightarrow> int \<Rightarrow> bool" where
  "lifeStep s s' \<longleftrightarrow> (s, s') \<in> {(1, 2), (1, 3), (2, 4), (3, 4)}"

text \<open>The columns of an order that no operation changes after its creation.\<close>

definition sameOrder :: "DOrder \<Rightarrow> DOrder \<Rightarrow> bool" where
  "sameOrder a b \<longleftrightarrow> (\<exists>st c p e. b = a\<lparr>od_OrderStatus := st, od_CancelOrderTime := c, od_PayOrderTime := p, od_EditTime := e\<rparr>)"

definition evolves :: "DOrder \<Rightarrow> DOrder \<Rightarrow> bool" where
  "evolves a b \<longleftrightarrow> a = b \<or> (sameOrder a b \<and> lifeStep (od_OrderStatus a) (od_OrderStatus b))"

definition ordersEvolve :: "orderTx \<Rightarrow> orderTx \<Rightarrow> bool" where
  "ordersEvolve tx tx' \<longleftrightarrow> (\<forall>ord \<in> set (tx_orders tx). \<exists>ord' \<in> set (tx_orders tx'). evolves ord ord')"

text \<open>What every transaction on order \<open>n\<close> guarantees.\<close>

definition txStep :: "(int \<Rightarrow> bool) \<Rightarrow> int \<Rightarrow> orderTx \<Rightarrow> orderTx \<Rightarrow> bool" where
  "txStep P n tx tx' \<longleftrightarrow> tableInv P tx' \<and> guardsInv tx' \<and> guardsKept n tx tx' \<and> ordersEvolve tx tx'"

lemma txStep_refl: "tableInv P tx \<Longrightarrow> guardsInv tx \<Longrightarrow> txStep P n tx tx"
  by (auto simp: txStep_def ordersEvolve_def evolves_def)

lemma outbox_irrelevant [simp]:
  "tableInv P (tx\<lparr>tx_outbox := b\<rparr>) = tableInv P tx" "guardsInv (tx\<lparr>tx_outbox := b\<rparr>) = guardsInv tx"
  "guardsKept n t0 (tx\<lparr>tx_outbox := b\<rparr>) = guardsKept n t0 tx" "ordersEvolve t0 (tx\<lparr>tx_outbox := b\<rparr>) = ordersEvolve t0 tx"
  by (simp_all add: tableInv_def orderOk_def ticketOk_def guardsInv_def guardsKept_def ordersEvolve_def)

lemma txStep_outbox [simp]: "txStep P n t0 (tx\<lparr>tx_outbox := b\<rparr>) = txStep P n t0 tx"
  by (simp add: txStep_def)

section \<open>Status updates\<close>

lemma findOrder_iff:
  assumes "tableInv P tx"
  shows "findOrder (tx_orders tx) n = Some ord \<longleftrightarrow> ord \<in> set (tx_orders tx) \<and> od_OrderNumber ord = n"
  using assms unfolding findOrder_def tableInv_def orderOk_def
  by (auto dest: find_someD intro: find_unique_key [of od_OrderNumber])

lemma order_unique:
  assumes "tableInv P tx" "a \<in> set (tx_orders tx)" "b \<in> set (tx_orders tx)" "od_OrderNumber a = od_OrderNumber b"
  shows "a = b"
  using assms by (auto simp: tableInv_def distinct_map inj_on_def)

definition stampOk :: "(DOrder \<Rightarrow> DOrder) \<Rightarrow> bool" where
  "stampOk stamp \<longleftrightarrow> (\<forall>ord. \<exists>c p e. stamp ord = ord\<lparr>od_CancelOrderTime := c, od_PayOrderTime := p, od_EditTime := e\<rparr>)"

lemma moveOrder_fields:
  assumes "stampOk stamp"
  shows "od_OrderNumber (moveOrder from to stamp n ord) = od_OrderNumber ord"
    "od_Status (moveOrder from to stamp n ord) = od_Status ord"
    "od_ShowTimeId (moveOrder from to stamp n ord) = od_ShowTimeId ord"
    "od_UserId (moveOrder from to stamp n ord) = od_UserId ord"
    "od_OrderStatus (moveOrder from to stamp n ord) =
      (if od_Status ord = 1 \<and> od_OrderNumber ord = n \<and> od_OrderStatus ord \<in> set from then to else od_OrderStatus ord)"
proof -
  obtain c p e where "stamp (ord\<lparr>od_OrderStatus := to\<rparr>)
      = (ord\<lparr>od_OrderStatus := to\<rparr>)\<lparr>od_CancelOrderTime := c, od_PayOrderTime := p, od_EditTime := e\<rparr>"
    using assms unfolding stampOk_def by blast
  then show "od_OrderNumber (moveOrder from to stamp n ord) = od_OrderNumber ord"
    "od_Status (moveOrder from to stamp n ord) = od_Status ord"
    "od_ShowTimeId (moveOrder from to stamp n ord) = od_ShowTimeId ord"
    "od_UserId (moveOrder from to stamp n ord) = od_UserId ord"
    "od_OrderStatus (moveOrder from to stamp n ord) =
      (if od_Status ord = 1 \<and> od_OrderNumber ord = n \<and> od_OrderStatus ord \<in> set from then to else od_OrderStatus ord)"
    by (simp_all add: moveOrder_def)
qed

lemma moveTicket_fields [simp]:
  "ot_OrderNumber (moveTicket from to now n t) = ot_OrderNumber t" "ot_Status (moveTicket from to now n t) = ot_Status t"
  "ot_TicketUserId (moveTicket from to now n t) = ot_TicketUserId t" "ot_SeatId (moveTicket from to now n t) = ot_SeatId t"
  "ot_OrderStatus (moveTicket from to now n t) =
    (if ot_Status t = 1 \<and> ot_OrderNumber t = n \<and> ot_OrderStatus t \<in> set from then to else ot_OrderStatus t)"
  by (simp_all add: moveTicket_def)

lemma move_tableInv:
  assumes inv: "tableInv P tx" and stamp: "stampOk stamp"
    and ord: "ord \<in> set (tx_orders tx)" "od_OrderNumber ord = n" "od_OrderStatus ord \<in> set from"
    and to: "to \<in> {1, 2, 3, 4}" and kept: "guardsKept n tx tx'"
    and act: "to = 1 \<or> to = 3 \<Longrightarrow> active ord \<and> tx_userGuards tx' = tx_userGuards tx
        \<and> tx_viewerGuards tx' = tx_viewerGuards tx \<and> tx_seatGuards tx' = tx_seatGuards tx"
    and eq: "tx_orders tx' = map (moveOrder from to stamp n) (tx_orders tx)"
      "tx_tickets tx' = map (moveTicket from to now n) (tx_tickets tx)"
  shows "tableInv P tx'"
proof -
  note mf = moveOrder_fields [OF stamp]
  have "map od_OrderNumber (tx_orders tx') = map od_OrderNumber (tx_orders tx)" by (simp add: eq mf)
  then have "distinct (map od_OrderNumber (tx_orders tx'))" using inv by (metis tableInv_def)
  moreover have "orderOk P tx' (moveOrder from to stamp n a)" if a: "a \<in> set (tx_orders tx)" for a
  proof (cases "od_OrderNumber a = n")
    case True
    then have "a = ord" using order_unique [OF inv a ord(1)] ord(2) by simp
    then show ?thesis using inv ord to act
      by (auto simp: tableInv_def orderOk_def mf active_def ticketOf_def eq order_status_defs)
  next
    case False
    then show ?thesis using inv a hasGuard_kept [OF kept]
      by (auto simp: tableInv_def orderOk_def mf active_def ticketOf_def eq)
  qed
  moreover have "ticketOk tx' (moveTicket from to now n t)" if t: "t \<in> set (tx_tickets tx)" for t
  proof -
    obtain a where a: "a \<in> set (tx_orders tx)" "ticketOf a t" "ot_OrderStatus t = od_OrderStatus a" "ot_Status t = 1" "od_Status a = 1"
      using inv t by (auto simp: tableInv_def ticketOk_def orderOk_def)
    then show ?thesis unfolding ticketOk_def eq set_map
      by (auto simp: ticketOf_def mf intro!: bexI [of _ a])
  qed
  ultimately show ?thesis unfolding tableInv_def by (auto simp: eq(1,2) simp del: map_map)
qed

lemma move_evolves:
  assumes inv: "tableInv P tx" and stamp: "stampOk stamp"
    and ord: "ord \<in> set (tx_orders tx)" "od_OrderNumber ord = n" "lifeStep (od_OrderStatus ord) to"
    and eq: "tx_orders tx' = map (moveOrder from to stamp n) (tx_orders tx)"
  shows "ordersEvolve tx tx'"
  unfolding ordersEvolve_def
proof
  fix a assume a: "a \<in> set (tx_orders tx)"
  have "evolves a (moveOrder from to stamp n a)"
  proof (cases "od_OrderNumber a = n")
    case True
    then have "a = ord" using order_unique [OF inv a ord(1)] ord(2) by simp
    moreover obtain c p e where "stamp (ord\<lparr>od_OrderStatus := to\<rparr>)
      = (ord\<lparr>od_OrderStatus := to\<rparr>)\<lparr>od_CancelOrderTime := c, od_PayOrderTime := p, od_EditTime := e\<rparr>"
      using stamp unfolding stampOk_def by blast
    then have "sameOrder ord (stamp (ord\<lparr>od_OrderStatus := to\<rparr>)) \<and> od_OrderStatus (stamp (ord\<lparr>od_OrderStatus := to\<rparr>)) = to"
      unfolding sameOrder_def by auto
    ultimately show ?thesis using ord(3) by (auto simp: evolves_def moveOrder_def)
  qed (simp add: evolves_def moveOrder_def)
  then show "\<exists>b \<in> set (tx_orders tx'). evolves a b" using a by (auto simp: eq)
qed

lemma deleteGuards_kept:
  "guardsKept n tx (DeleteGuardsByOrderNumber n (moveStatus from to stamp now n tx))"
  "guardsInv tx \<Longrightarrow> guardsInv (DeleteGuardsByOrderNumber n (moveStatus from to stamp now n tx))"
  by (auto simp: guardsKept_def guardsInv_def DeleteGuardsByOrderNumber_def moveStatus_def deleteGuards_def distinct_map_filter uniqueKeys_def)

lemma move_delete_step:
  assumes "tableInv P tx" "guardsInv tx" "stampOk stamp" "ord \<in> set (tx_orders tx)" "od_OrderNumber ord = n"
    "od_OrderStatus ord \<in> set from" "lifeStep (od_OrderStatus ord) to" "to = 2 \<or> to = 4"
  shows "txStep P n tx (DeleteGuardsByOrderNumber n (moveStatus from to stamp now n tx))"
proof -
  let ?tx = "DeleteGuardsByOrderNumber n (moveStatus from to stamp now n tx)"
  have eq: "tx_orders ?tx = map (moveOrder from to stamp n) (tx_orders tx)" "tx_tickets ?tx = map (moveTicket from to now n) (tx_tickets tx)"
    by (simp_all add: DeleteGuardsByOrderNumber_def moveStatus_def)
  have "tableInv P ?tx"
    by (rule move_tableInv [OF assms(1,3,4,5,6) _ deleteGuards_kept(1) _ eq]) (use assms(8) in auto)
  then show ?thesis using deleteGuards_kept assms(2) move_evolves [OF assms(1,3,4,5,7) eq(1)] by (simp add: txStep_def)
qed

lemma move_step:
  assumes "tableInv P tx" "guardsInv tx" "stampOk stamp" "ord \<in> set (tx_orders tx)" "od_OrderNumber ord = n"
    "od_OrderStatus ord = 1" "1 \<in> set from" "to = 3"
  shows "txStep P n tx (moveStatus from to stamp now n tx)"
proof -
  let ?tx = "moveStatus from to stamp now n tx"
  have eq: "tx_orders ?tx = map (moveOrder from to stamp n) (tx_orders tx)" "tx_tickets ?tx = map (moveTicket from to now n) (tx_tickets tx)"
    "tx_userGuards ?tx = tx_userGuards tx" "tx_viewerGuards ?tx = tx_viewerGuards tx" "tx_seatGuards ?tx = tx_seatGuards tx"
    by (simp_all add: moveStatus_def)
  have kept: "guardsKept n tx ?tx" by (simp add: guardsKept_def eq)
  have "tableInv P ?tx"
    by (rule move_tableInv [OF assms(1,3,4,5) _ _ kept _ eq(1,2)]) (use assms(6,7,8) eq in \<open>auto simp: active_def order_status_defs\<close>)
  moreover have "ordersEvolve tx ?tx"
    by (rule move_evolves [OF assms(1,3,4,5) _ eq(1)]) (use assms(6,8) in \<open>simp add: lifeStep_def\<close>)
  ultimately show ?thesis using assms(2) kept by (simp add: txStep_def guardsInv_def eq)
qed

section \<open>Transactions\<close>

lemma stamps_ok [simp]:
  "stampOk (\<lambda>ord. ord\<lparr>od_CancelOrderTime := c, od_EditTime := t\<rparr>)"
  "stampOk (\<lambda>ord. ord\<lparr>od_PayOrderTime := c, od_EditTime := t\<rparr>)"
  "stampOk (\<lambda>ord. ord\<lparr>od_EditTime := t\<rparr>)"
proof -
  have upd: "ord\<lparr>od_CancelOrderTime := c, od_EditTime := t\<rparr>
      = ord\<lparr>od_CancelOrderTime := c, od_PayOrderTime := od_PayOrderTime ord, od_EditTime := t\<rparr>"
    "ord\<lparr>od_PayOrderTime := c, od_EditTime := t\<rparr>
      = ord\<lparr>od_CancelOrderTime := od_CancelOrderTime ord, od_PayOrderTime := c, od_EditTime := t\<rparr>"
    "ord\<lparr>od_EditTime := t\<rparr>
      = ord\<lparr>od_CancelOrderTime := od_CancelOrderTime ord, od_PayOrderTime := od_PayOrderTime ord, od_EditTime := t\<rparr>" for ord
    by simp_all
  show "stampOk (\<lambda>ord. ord\<lparr>od_CancelOrderTime := c, od_EditTime := t\<rparr>)" unfolding stampOk_def using upd(1) by blast
  show "stampOk (\<lambda>ord. ord\<lparr>od_PayOrderTime := c, od_EditTime := t\<rparr>)" unfolding stampOk_def using upd(2) by blast
  show "stampOk (\<lambda>ord. ord\<lparr>od_EditTime := t\<rparr>)" unfolding stampOk_def using upd(3) by blast
qed

definition txOk :: "(int \<Rightarrow> bool) \<Rightarrow> int \<Rightarrow> (orderTx \<Rightarrow> 'a res \<times> orderTx) \<Rightarrow> bool" where
  "txOk P n f \<longleftrightarrow> (\<forall>tx a tx'. tableInv P tx \<longrightarrow> guardsInv tx \<longrightarrow> f tx = (Inr a, tx') \<longrightarrow> txStep P n tx tx')"

lemma txOkI: "(\<And>tx. tableInv P tx \<Longrightarrow> guardsInv tx \<Longrightarrow> txStep P n tx (snd (f tx))) \<Longrightarrow> txOk P n f"
  unfolding txOk_def by (metis snd_conv)

lemma loadTx_ok: "txOk P n (loadTx n)"
  by (rule txOkI) (simp add: loadTx_def txStep_refl split: option.splits)

lemma cancelTx_ok: "txOk P n (cancelTx t n)"
proof -
  have "txStep P n tx (snd (cancelTx t n tx))" if inv: "tableInv P tx" "guardsInv tx" for tx
    using inv move_delete_step [of P tx _ _ n "[1]" 2, OF inv]
    by (auto simp: cancelTx_def FindOrderByNumberForUpdate_def findOrder_iff [OF inv(1)] txStep_refl UpdateCancelStatus_def
        order_status_defs lifeStep_def split: option.splits)
  then show ?thesis by (rule txOkI)
qed

lemma payTx_ok: "txOk P n (payTx t n)"
proof -
  have "txStep P n tx (snd (payTx t n tx))" if inv: "tableInv P tx" "guardsInv tx" for tx
    using inv move_step [of P tx _ _ n "[1]" 3, OF inv]
    by (auto simp: payTx_def FindOrderByNumberForUpdate_def findOrder_iff [OF inv(1)] txStep_refl UpdatePayStatus_def
        order_status_defs split: option.splits)
  then show ?thesis by (rule txOkI)
qed

lemma refundTx_ok: "txOk P n (refundTx t n)"
proof -
  have "txStep P n tx (snd (refundTx t n tx))" if inv: "tableInv P tx" "guardsInv tx" for tx
    using inv move_delete_step [of P tx _ _ n "[2, 3]" 4, OF inv]
    by (auto simp: refundTx_def FindOrderByNumberForUpdate_def findOrder_iff [OF inv(1)] txStep_refl UpdateOrderRefundStatus_def
        order_status_defs lifeStep_def split: option.splits)
  then show ?thesis by (rule txOkI)
qed

lemma mark_outbox: "\<exists>b. snd (MarkDelayTaskProcessed ty key now tx) = tx\<lparr>tx_outbox := b\<rparr>"
  by (auto simp: MarkDelayTaskProcessed_def split: prod.splits)

lemma closeTx_snd:
  "snd (closeTx now n tx) =
     (let mark = \<lambda>tx. snd (MarkDelayTaskProcessed TaskTypeCloseTimeout (TaskKey n) now tx) in
      case FindOrderByNumberForUpdate n tx of None \<Rightarrow> mark tx
      | Some order \<Rightarrow> if od_OrderStatus order \<noteq> orderStatusUnpaid then mark tx
          else if now < od_OrderExpireTime order then tx
          else mark (DeleteGuardsByOrderNumber (od_OrderNumber order) (UpdateCancelStatus (od_OrderNumber order) now tx)))"
  by (simp add: closeTx_def Let_def case_prod_unfold split: option.splits)

lemma closeTx_ok: "txOk P n (closeTx now n)"
proof -
  have "txStep P n tx (snd (closeTx now n tx))" if inv: "tableInv P tx" "guardsInv tx" for tx
  proof -
    have mark: "txStep P n tx (snd (MarkDelayTaskProcessed ty key now tx')) = txStep P n tx tx'" for ty key tx'
      using mark_outbox [of ty key now tx'] by auto
    show ?thesis
      using move_delete_step [of P tx _ _ n "[1]" 2, OF inv] txStep_refl [OF inv]
      by (auto simp: closeTx_snd mark Let_def FindOrderByNumberForUpdate_def findOrder_iff [OF inv(1)] UpdateCancelStatus_def
          order_status_defs lifeStep_def split: option.splits)
  qed
  then show ?thesis by (rule txOkI)
qed

section \<open>Writing a new order\<close>

text \<open>The rows of a new order belong together.\<close>

definition wmOk :: "orderWriteModels \<Rightarrow> bool" where
  "wmOk wm \<longleftrightarrow> (let ord = wm_order wm; n = od_OrderNumber ord; st = od_ShowTimeId ord in
     od_Status ord = 1 \<and> od_OrderStatus ord = orderStatusUnpaid
     \<and> (\<forall>t \<in> set (wm_orderTickets wm). ot_OrderNumber t = n \<and> ot_Status t = 1 \<and> ot_OrderStatus t = orderStatusUnpaid
          \<and> hasGuard (wm_viewerGuards wm) n st (ot_TicketUserId t) \<and> hasGuard (wm_seatGuards wm) n st (ot_SeatId t))
     \<and> hasGuard [wm_userGuard wm] n st (od_UserId ord)
     \<and> (\<forall>g \<in> set (wm_userGuard wm # wm_viewerGuards wm @ wm_seatGuards wm). gd_OrderNumber g = n))"

lemma insertGuards_ok:
  "insertGuards uk rows tbl = Inr tbl' \<Longrightarrow> tbl' = tbl @ rows \<and> (uniqueKeys tbl \<longrightarrow> uniqueKeys tbl')"
proof (induction uk rows tbl rule: insertGuards.induct)
  case (2 uk row rows tbl)
  then have "guardKey row \<notin> guardKey ` set tbl" "insertGuards uk rows (tbl @ [row]) = Inr tbl'" "gd_Id row \<notin> gd_Id ` set tbl"
    by (auto split: if_splits)
  moreover from this have "uniqueKeys tbl \<longrightarrow> uniqueKeys (tbl @ [row])" by (simp add: uniqueKeys_def)
  ultimately show ?case using "2.IH" by auto
qed simp

lemma InsertOrderTickets_ok:
  "InsertOrderTickets rows tx = (Inr u, tx') \<Longrightarrow> tx' = tx\<lparr>tx_tickets := tx_tickets tx @ rows\<rparr>"
proof (induction rows arbitrary: tx)
  case (Cons row rows)
  then show ?case using Cons.IH [of "tx\<lparr>tx_tickets := tx_tickets tx @ [row]\<rparr>"] by (simp split: if_splits)
qed simp

definition withOrder :: "orderWriteModels \<Rightarrow> orderTx \<Rightarrow> orderTx" where
  "withOrder wm tx = tx\<lparr>tx_orders := tx_orders tx @ [wm_order wm], tx_tickets := tx_tickets tx @ wm_orderTickets wm,
     tx_userGuards := tx_userGuards tx @ [wm_userGuard wm], tx_viewerGuards := tx_viewerGuards tx @ wm_viewerGuards wm,
     tx_seatGuards := tx_seatGuards tx @ wm_seatGuards wm\<rparr>"

lemma persistTx_effect:
  assumes "persistTx wm tx = (Inr u, tx')"
  shows "tx' = tx \<or> (od_OrderNumber (wm_order wm) \<notin> od_OrderNumber ` set (tx_orders tx)
    \<and> tx' = (withOrder wm tx)\<lparr>tx_outbox := InsertTasks (wm_delayTaskRows wm) (tx_outbox tx)\<rparr>
    \<and> (guardsInv tx \<longrightarrow> guardsInv (withOrder wm tx)))"
  using assms
  by (auto simp: persistTx_def InsertOrder_def InsertUserGuard_def InsertViewerGuards_def InsertSeatGuards_def
      InsertDelayTasks_def withOrder_def guardsInv_def isDuplicateOrderNumberErr_def simp del: insertGuards.simps
      split: if_splits sum.splits prod.splits dest!: InsertOrderTickets_ok insertGuards_ok)

lemma hasGuard_append [simp]: "hasGuard (xs @ ys) n st s \<longleftrightarrow> hasGuard xs n st s \<or> hasGuard ys n st s"
  by (auto simp: hasGuard_def)

lemma withOrder_tableInv:
  assumes inv: "tableInv P tx" and new: "od_OrderNumber (wm_order wm) \<notin> od_OrderNumber ` set (tx_orders tx)"
    and wm: "wmOk wm" and P: "P (od_OrderNumber (wm_order wm))"
  shows "tableInv P (withOrder wm tx)"
proof -
  let ?ord = "wm_order wm" and ?tx = "withOrder wm tx"
  have fresh: "ot_OrderNumber t \<noteq> od_OrderNumber ?ord" if "t \<in> set (tx_tickets tx)" for t
  proof -
    have "ticketOk tx t" using inv that by (simp add: tableInv_def)
    then obtain a where "a \<in> set (tx_orders tx)" "ticketOf a t" by (auto simp: ticketOk_def)
    then show ?thesis using new by (metis imageI ticketOf_def)
  qed
  have own: "t \<in> set (wm_orderTickets wm)" if "t \<in> set (tx_tickets ?tx)" "ticketOf ?ord t" for t
    using that fresh by (auto simp: withOrder_def ticketOf_def)
  have w: "od_Status ?ord = 1" "od_OrderStatus ?ord = 1" "hasGuard [wm_userGuard wm] (od_OrderNumber ?ord) (od_ShowTimeId ?ord) (od_UserId ?ord)"
    "\<And>t. t \<in> set (wm_orderTickets wm) \<Longrightarrow> hasGuard (wm_viewerGuards wm) (od_OrderNumber ?ord) (od_ShowTimeId ?ord) (ot_TicketUserId t)
       \<and> hasGuard (wm_seatGuards wm) (od_OrderNumber ?ord) (od_ShowTimeId ?ord) (ot_SeatId t)"
    using wm by (simp_all add: wmOk_def Let_def orderStatusUnpaid_def)
  have g: "tx_userGuards ?tx = tx_userGuards tx @ [wm_userGuard wm]" "tx_viewerGuards ?tx = tx_viewerGuards tx @ wm_viewerGuards wm"
    "tx_seatGuards ?tx = tx_seatGuards tx @ wm_seatGuards wm" by (simp_all add: withOrder_def)
  have "orderOk P ?tx ?ord" unfolding orderOk_def g using w P own by simp
  moreover have "orderOk P ?tx a" if a: "a \<in> set (tx_orders tx)" for a
  proof -
    have "\<not> ticketOf a t" if "t \<in> set (wm_orderTickets wm)" for t
      using wm that a new by (auto simp: wmOk_def Let_def ticketOf_def)
    then show ?thesis using inv a by (auto simp: tableInv_def orderOk_def withOrder_def)
  qed
  moreover have "ticketOk ?tx t" if "t \<in> set (tx_tickets ?tx)" for t
    using that inv wm by (fastforce simp: tableInv_def ticketOk_def withOrder_def wmOk_def Let_def ticketOf_def)
  ultimately show ?thesis using inv new by (auto simp: tableInv_def withOrder_def)
qed

lemma persistTx_ok:
  assumes "wmOk wm" "od_OrderNumber (wm_order wm) = n" "P n"
  shows "txOk P n (persistTx wm)"
  unfolding txOk_def
proof (intro allI impI)
  fix tx u tx' assume inv: "tableInv P tx" "guardsInv tx" and run: "persistTx wm tx = (Inr u, tx')"
  have "txStep P n tx (withOrder wm tx)"
    if "od_OrderNumber (wm_order wm) \<notin> od_OrderNumber ` set (tx_orders tx)" "guardsInv (withOrder wm tx)"
    using that withOrder_tableInv [OF inv(1) that(1) assms(1)] assms(2,3)
    by (auto simp: txStep_def guardsKept_def ordersEvolve_def withOrder_def evolves_def)
  then show "txStep P n tx tx'" using persistTx_effect [OF run] inv txStep_refl [OF inv] by auto
qed

section \<open>The repository\<close>

definition shardInv :: "RouteMap \<Rightarrow> string \<Rightarrow> shardDb \<Rightarrow> bool" where
  "shardInv m k db \<longleftrightarrow> (\<forall>sfx. tableInv (placed m k sfx) (openTx sfx db) \<and> guardsInv (openTx sfx db))"

definition repoInv :: "RouteMap \<Rightarrow> repo \<Rightarrow> bool" where
  "repoInv m repo \<longleftrightarrow> (\<forall>k db. repo k = Some db \<longrightarrow> shardInv m k db)"

definition repoEvolves :: "repo \<Rightarrow> repo \<Rightarrow> bool" where
  "repoEvolves repo repo' \<longleftrightarrow> (\<forall>k db sfx ord. repo k = Some db \<longrightarrow> ord \<in> set (sd_orders db sfx) \<longrightarrow>
     (\<exists>db' ord'. repo' k = Some db' \<and> ord' \<in> set (sd_orders db' sfx) \<and> evolves ord ord'))"

lemma repoEvolves_refl [simp]: "repoEvolves repo repo"
  by (auto simp: repoEvolves_def evolves_def)

lemma open_commit: "openTx sfx (commitTx sfx tx db) = tx"
  by (simp add: openTx_def commitTx_def)

lemma commit_other:
  assumes "sfx' \<noteq> sfx"
  shows "openTx sfx' (commitTx sfx tx db) = tx\<lparr>tx_orders := sd_orders db sfx', tx_tickets := sd_tickets db sfx'\<rparr>"
  using assms by (simp add: openTx_def commitTx_def)

lemma tableInv_guards:
  assumes "tableInv P (openTx sfx' db)" "guardsKept n (openTx sfx db) tx" "\<not> P n"
  shows "tableInv P (tx\<lparr>tx_orders := sd_orders db sfx', tx_tickets := sd_tickets db sfx'\<rparr>)"
proof -
  let ?t = "openTx sfx' db" and ?t' = "tx\<lparr>tx_orders := sd_orders db sfx', tx_tickets := sd_tickets db sfx'\<rparr>"
  have kept: "guardsKept n ?t ?t'" using assms(2) by (simp add: guardsKept_def openTx_def)
  have "orderOk P ?t' a" if a: "a \<in> set (sd_orders db sfx')" for a
  proof -
    have ok: "orderOk P ?t a" using assms(1) a by (simp add: tableInv_def openTx_def)
    then have "od_OrderNumber a \<noteq> n" using assms(3) by (auto simp: orderOk_def)
    then show ?thesis using ok hasGuard_kept [OF kept] by (auto simp: orderOk_def openTx_def)
  qed
  then show ?thesis using assms(1) by (simp add: tableInv_def ticketOk_def openTx_def)
qed

lemma commit_step:
  assumes inv: "shardInv m k db" and n: "placed m k sfx n" and step: "txStep (placed m k sfx) n (openTx sfx db) tx"
  shows "shardInv m k (commitTx sfx tx db)"
    "\<And>sfx' ord. ord \<in> set (sd_orders db sfx') \<Longrightarrow> \<exists>ord' \<in> set (sd_orders (commitTx sfx tx db) sfx'). evolves ord ord'"
proof -
  have "tableInv (placed m k sfx') (openTx sfx' (commitTx sfx tx db)) \<and> guardsInv (openTx sfx' (commitTx sfx tx db))" for sfx'
  proof (cases "sfx' = sfx")
    case True
    then show ?thesis using step by (simp add: open_commit txStep_def)
  next
    case False
    then have "\<not> placed m k sfx' n" using n placed_unique by blast
    then have "tableInv (placed m k sfx') (tx\<lparr>tx_orders := sd_orders db sfx', tx_tickets := sd_tickets db sfx'\<rparr>)"
      using tableInv_guards inv step by (auto simp: shardInv_def txStep_def)
    then show ?thesis using step by (simp add: commit_other [OF False] txStep_def guardsInv_def)
  qed
  then show "shardInv m k (commitTx sfx tx db)" by (simp add: shardInv_def)
  show "\<exists>ord' \<in> set (sd_orders (commitTx sfx tx db) sfx'). evolves ord ord'" if "ord \<in> set (sd_orders db sfx')" for sfx' ord
    using that step by (cases "sfx' = sfx") (auto simp: txStep_def ordersEvolve_def openTx_def commitTx_def evolves_def)
qed

lemma runTx_snd:
  "snd (runTx flt f d) = d \<or> (\<exists>a d'. f d = (Inr a, d') \<and> snd (runTx flt f d) = d')"
  by (auto simp: runTx_def split: prod.splits sum.splits txfault.splits)

lemma commit_open [simp]: "commitTx sfx (openTx sfx db) db = db"
  by (simp add: commitTx_def openTx_def)

lemma transact_step:
  assumes inv: "repoInv m repo" and ok: "\<And>P. P n \<Longrightarrow> txOk P n f"
  shows "repoInv m (snd (TransactByOrderNumber m s flt n f repo))
    \<and> repoEvolves repo (snd (TransactByOrderNumber m s flt n f repo))"
proof (cases "RouteByOrderNumber m s n")
  case (Inl e)
  then show ?thesis using inv by (simp add: TransactByOrderNumber_def)
next
  case (Inr route)
  let ?k = "DBKey route" and ?sfx = "TableSuffix route"
  have pl: "placed m ?k ?sfx n" using Inr by (auto simp: placed_def)
  show ?thesis
  proof (cases "repo ?k")
    case None
    then show ?thesis using inv Inr by (simp add: TransactByOrderNumber_def transactByRoute_def)
  next
    case (Some db)
    let ?tx = "snd (runTx flt f (openTx ?sfx db))"
    have repo': "snd (TransactByOrderNumber m s flt n f repo) = repo(?k \<mapsto> commitTx ?sfx ?tx db)"
      using Inr Some by (simp add: TransactByOrderNumber_def transactByRoute_def case_prod_unfold)
    have db: "shardInv m ?k db" using inv Some by (simp add: repoInv_def)
    then have open_inv: "tableInv (placed m ?k ?sfx) (openTx ?sfx db)" "guardsInv (openTx ?sfx db)" by (simp_all add: shardInv_def)
    have "txStep (placed m ?k ?sfx) n (openTx ?sfx db) ?tx"
      using runTx_snd [of flt f "openTx ?sfx db"] ok [of "placed m ?k ?sfx", OF pl] open_inv txStep_refl [OF open_inv]
      by (auto simp: txOk_def)
    note step = commit_step [OF db pl this]
    show ?thesis unfolding repo' using inv step Some
      by (auto simp: repoInv_def repoEvolves_def evolves_def split: if_splits) blast+
  qed
qed

text \<open>The transactions of the order logic, at any time and with any failure.\<close>

inductive repoStep :: "RouteMap \<Rightarrow> repo \<Rightarrow> repo \<Rightarrow> bool" for m where
  load: "repoStep m repo (snd (TransactByOrderNumber m s flt n (loadTx n) repo))"
| cancel: "repoStep m repo (snd (TransactByOrderNumber m s flt n (cancelTx t n) repo))"
| pay: "repoStep m repo (snd (TransactByOrderNumber m s flt n (payTx t n) repo))"
| refund: "repoStep m repo (snd (TransactByOrderNumber m s flt n (refundTx t n) repo))"
| close: "repoStep m repo (snd (TransactByOrderNumber m s flt n (closeTx t n) repo))"
| persist: "wmOk wm \<Longrightarrow> repoStep m repo (snd (TransactByOrderNumber m s flt (od_OrderNumber (wm_order wm)) (persistTx wm) repo))"

lemma repoStep_step:
  assumes "repoInv m repo" "repoStep m repo repo'" shows "repoInv m repo' \<and> repoEvolves repo repo'"
  using assms(2)
proof cases
  case (persist wm s flt)
  show ?thesis unfolding persist(1) by (rule transact_step [OF assms(1)]) (rule persistTx_ok [OF persist(2) refl])
qed (simp_all add: transact_step [OF assms(1)] loadTx_ok cancelTx_ok payTx_ok refundTx_ok closeTx_ok)

interpretation order_repo: step_invariant "repoStep m" "repoInv m" for m
  by unfold_locales (simp add: repoStep_step)

section \<open>Life cycle and exclusiveness\<close>

lemma sameOrder_refl: "sameOrder a a"
  unfolding sameOrder_def by (intro exI [of _ "od_OrderStatus a"] exI [of _ "od_CancelOrderTime a"]
    exI [of _ "od_PayOrderTime a"] exI [of _ "od_EditTime a"]) simp

lemma sameOrder_trans: "sameOrder a b \<Longrightarrow> sameOrder b c \<Longrightarrow> sameOrder a c"
proof -
  assume "sameOrder a b" "sameOrder b c"
  then obtain st cn p e where "c = a\<lparr>od_OrderStatus := st, od_CancelOrderTime := cn, od_PayOrderTime := p, od_EditTime := e\<rparr>"
    by (auto simp: sameOrder_def)
  then show "sameOrder a c" unfolding sameOrder_def by blast
qed

definition lifeReach :: "int \<Rightarrow> int \<Rightarrow> bool" where
  "lifeReach s s' \<longleftrightarrow> s = s' \<or> (s = orderStatusUnpaid \<and> s' \<in> {orderStatusCancelled, orderStatusPaid, orderStatusRefunded})
     \<or> (s \<in> {orderStatusCancelled, orderStatusPaid} \<and> s' = orderStatusRefunded)"

lemma lifeReach_step: "lifeReach s s' \<Longrightarrow> lifeStep s' s'' \<Longrightarrow> lifeReach s s''"
  by (auto simp: lifeReach_def lifeStep_def order_status_defs)

lemma run_evolves:
  assumes "(repoStep m)\<^sup>*\<^sup>* repo repo'" "repoInv m repo" "repo k = Some db" "ord \<in> set (sd_orders db sfx)"
  shows "\<exists>db' ord'. repo' k = Some db' \<and> ord' \<in> set (sd_orders db' sfx) \<and> sameOrder ord ord'
           \<and> lifeReach (od_OrderStatus ord) (od_OrderStatus ord')"
  using assms(1)
proof (induction rule: rtranclp_induct)
  case base
  then show ?case using assms(3,4) sameOrder_refl by (auto simp: lifeReach_def)
next
  case (step y z)
  obtain db1 ord1 where 1: "y k = Some db1" "ord1 \<in> set (sd_orders db1 sfx)" "sameOrder ord ord1"
    "lifeReach (od_OrderStatus ord) (od_OrderStatus ord1)" using step.IH by blast
  have "repoEvolves y z" using repoStep_step [OF order_repo.run_inv [OF step.hyps(1) assms(2)] step.hyps(2)] by blast
  then obtain db2 ord2 where 2: "z k = Some db2" "ord2 \<in> set (sd_orders db2 sfx)" "evolves ord1 ord2"
    using 1 unfolding repoEvolves_def by blast
  then have "sameOrder ord ord2" "lifeReach (od_OrderStatus ord) (od_OrderStatus ord2)"
    using 1 sameOrder_trans lifeReach_step by (auto simp: evolves_def)
  then show ?case using 2 by blast
qed

definition emptyShard :: shardDb where
  "emptyShard = \<lparr>sd_orders = (\<lambda>_. []), sd_tickets = (\<lambda>_. []), sd_userGuards = [], sd_viewerGuards = [], sd_seatGuards = [], sd_outbox = []\<rparr>"

definition emptyRepo :: "string list \<Rightarrow> repo" where
  "emptyRepo keys k = (if k \<in> set keys then Some emptyShard else None)"

lemma emptyRepo_inv: "repoInv m (emptyRepo keys)"
  by (auto simp: repoInv_def emptyRepo_def shardInv_def tableInv_def guardsInv_def uniqueKeys_def openTx_def emptyShard_def split: if_splits)

text \<open>
  C5. Life cycle of orders: whatever transactions of the order logic run, in whatever order and
  with whatever failures, an order is never lost, stays in its table, keeps what it was created
  with, and moves only from unpaid to cancelled or paid, and from there to refunded.
\<close>

theorem order_life_cycle:
  assumes "(repoStep m)\<^sup>*\<^sup>* (emptyRepo keys) repo" "(repoStep m)\<^sup>*\<^sup>* repo repo'"
    and "repo k = Some db" "ord \<in> set (sd_orders db sfx)"
  shows "\<exists>db' ord'. repo' k = Some db' \<and> ord' \<in> set (sd_orders db' sfx) \<and> sameOrder ord ord'
           \<and> lifeReach (od_OrderStatus ord) (od_OrderStatus ord')"
  using run_evolves [OF assms(2) order_repo.run_inv [OF assms(1) emptyRepo_inv] assms(3,4)] .

lemma guard_exclusive:
  assumes "uniqueKeys tbl" "hasGuard tbl n st s" "hasGuard tbl n' st s" shows "n = n'"
  using assms by (auto simp: hasGuard_def uniqueKeys_def distinct_map inj_on_def)

lemma shard_exclusive:
  assumes inv: "shardInv m k db"
    and a: "a \<in> set (sd_orders db sfx)" "active a" and b: "b \<in> set (sd_orders db sfx')" "active b"
    and st: "od_ShowTimeId a = od_ShowTimeId b"
    and clash: "od_UserId a = od_UserId b \<or> (\<exists>t \<in> set (sd_tickets db sfx). \<exists>u \<in> set (sd_tickets db sfx').
        ticketOf a t \<and> ticketOf b u \<and> (ot_TicketUserId t = ot_TicketUserId u \<or> ot_SeatId t = ot_SeatId u))"
  shows "a = b"
proof -
  have ok: "orderOk (placed m k sfx) (openTx sfx db) a" "orderOk (placed m k sfx') (openTx sfx' db) b"
    using inv a(1) b(1) by (auto simp: shardInv_def tableInv_def openTx_def)
  have uniq: "uniqueKeys (sd_userGuards db)" "uniqueKeys (sd_viewerGuards db)" "uniqueKeys (sd_seatGuards db)"
    using inv by (auto simp: shardInv_def guardsInv_def openTx_def)
  have ga: "hasGuard (sd_userGuards db) (od_OrderNumber a) (od_ShowTimeId b) (od_UserId a)"
    "\<And>t. t \<in> set (sd_tickets db sfx) \<Longrightarrow> ticketOf a t \<Longrightarrow> hasGuard (sd_viewerGuards db) (od_OrderNumber a) (od_ShowTimeId b) (ot_TicketUserId t)
       \<and> hasGuard (sd_seatGuards db) (od_OrderNumber a) (od_ShowTimeId b) (ot_SeatId t)"
    using ok(1) a(2) st by (simp_all add: orderOk_def openTx_def)
  have gb: "hasGuard (sd_userGuards db) (od_OrderNumber b) (od_ShowTimeId b) (od_UserId b)"
    "\<And>t. t \<in> set (sd_tickets db sfx') \<Longrightarrow> ticketOf b t \<Longrightarrow> hasGuard (sd_viewerGuards db) (od_OrderNumber b) (od_ShowTimeId b) (ot_TicketUserId t)
       \<and> hasGuard (sd_seatGuards db) (od_OrderNumber b) (od_ShowTimeId b) (ot_SeatId t)"
    using ok(2) b(2) by (simp_all add: orderOk_def openTx_def)
  have "od_OrderNumber a = od_OrderNumber b"
    using clash ga gb guard_exclusive [OF uniq(1)] guard_exclusive [OF uniq(2)] guard_exclusive [OF uniq(3)] by metis
  moreover from this have "sfx = sfx'" using ok placed_unique by (auto simp: orderOk_def)
  moreover have "tableInv (placed m k sfx) (openTx sfx db)" using inv by (simp add: shardInv_def)
  ultimately show ?thesis using order_unique [of "placed m k sfx" "openTx sfx db" a b] a(1) b(1) by (simp add: openTx_def)
qed

text \<open>
  C3. No double sale in a database: of the unpaid and paid orders of one show time, no two belong to
  one user, name one viewer or hold one seat, whatever transactions ran before.
\<close>

theorem no_double_sale:
  assumes "(repoStep m)\<^sup>*\<^sup>* (emptyRepo keys) repo" "repo k = Some db"
    and "a \<in> set (sd_orders db sfx)" "active a" "b \<in> set (sd_orders db sfx')" "active b" "od_ShowTimeId a = od_ShowTimeId b"
    and "od_UserId a = od_UserId b \<or> (\<exists>t \<in> set (sd_tickets db sfx). \<exists>u \<in> set (sd_tickets db sfx').
        ticketOf a t \<and> ticketOf b u \<and> (ot_TicketUserId t = ot_TicketUserId u \<or> ot_SeatId t = ot_SeatId u))"
  shows "a = b"
proof (rule shard_exclusive [OF _ assms(3-8)])
  show "shardInv m k db" using order_repo.run_inv [OF assms(1) emptyRepo_inv] assms(2) by (simp add: repoInv_def)
qed

section \<open>A sample order\<close>

definition demoMap :: RouteMap where
  "demoMap = \<lparr>currentVersion = ''v1'', entries = [''v1'' \<mapsto> (\<lambda>s. Some (sampleRouteEntry s))]\<rparr>"

definition demoOrder :: DOrder where
  "demoOrder = \<lparr>od_Id = 1, od_OrderNumber = 7, od_ProgramId = 5, od_ShowTimeId = 9, od_ProgramTitle = ''show'',
     od_ProgramItemPicture = [], od_ProgramPlace = [], od_ProgramShowTime = 5000, od_ProgramPermitChooseSeat = 0, od_UserId = 3,
     od_DistributionMode = [], od_TakeTicketMode = [], od_TicketCount = 1, od_OrderPrice = 500, od_OrderStatus = orderStatusUnpaid,
     od_FreezeToken = ''freeze-st9-tc2-o7'', od_OrderExpireTime = 2000, od_CreateOrderTime = 1000, od_CancelOrderTime = None,
     od_PayOrderTime = None, od_CreateTime = 1000, od_EditTime = 1000, od_Status = 1\<rparr>"

definition demoTicket :: DOrderTicketUser where
  "demoTicket = \<lparr>ot_Id = 2, ot_OrderNumber = 7, ot_ShowTimeId = 9, ot_UserId = 3, ot_TicketUserId = 31, ot_TicketUserName = [],
     ot_TicketUserIdNumber = [], ot_TicketCategoryId = 2, ot_TicketCategoryName = [], ot_TicketPrice = 500, ot_SeatId = 77,
     ot_SeatRow = 1, ot_SeatCol = 1, ot_SeatPrice = 500, ot_OrderStatus = orderStatusUnpaid, ot_CreateOrderTime = 1000,
     ot_CreateTime = 1000, ot_EditTime = 1000, ot_Status = 1\<rparr>"

definition demoGuard :: "int \<Rightarrow> int \<Rightarrow> orderGuard" where
  "demoGuard i subj = \<lparr>gd_Id = i, gd_OrderNumber = 7, gd_ProgramId = 5, gd_ShowTimeId = 9, gd_Subject = subj,
     gd_CreateTime = 1000, gd_EditTime = 1000, gd_Status = 1\<rparr>"

definition demoWm :: orderWriteModels where
  "demoWm = \<lparr>wm_order = demoOrder, wm_orderTickets = [demoTicket], wm_userGuard = demoGuard 3 3,
     wm_viewerGuards = [demoGuard 4 31], wm_seatGuards = [demoGuard 5 77],
     wm_delayTaskRows = [newCloseTimeoutDelayTaskRow 6 1000 7 2000]\<rparr>"

definition demoRepo :: repo where
  "demoRepo = snd (TransactByOrderNumber demoMap 1777356000 TxOk 7 (persistTx demoWm) (emptyRepo [''order-db-0'']))"

definition demoPaidRepo :: repo where
  "demoPaidRepo = snd (TransactByOrderNumber demoMap 1777356000 TxOk 7 (payTx 1500 7) demoRepo)"

lemma demo_route: "\<exists>s. RouteByOrderNumber demoMap 1777356000 7 = Inr (sampleRouteEntry s)"
  by (simp add: RouteByOrderNumber_def LogicSlotByOrderNumber_def ParseOrderNumber_def isOldFormatOrderNumber_def
      maxOrderTimePart_def orderNumberEpoch_def RouteByLogicSlot_def RouteByVersionAndSlot_def demoMap_def Let_def) blast

lemma demoWm_ok: "wmOk demoWm"
  by (simp add: wmOk_def Let_def demoWm_def demoOrder_def demoTicket_def demoGuard_def hasGuard_def guardKey_def)

lemma sample_keys [simp]: "DBKey (sampleRouteEntry s) = ''order-db-0''" "TableSuffix (sampleRouteEntry s) = ''00''"
  by (simp_all add: sampleRouteEntry_def)

definition demoDb :: shardDb where
  "demoDb = commitTx ''00'' ((withOrder demoWm (openTx ''00'' emptyShard))\<lparr>tx_outbox := wm_delayTaskRows demoWm\<rparr>) emptyShard"

lemma demoRepo_eq: "demoRepo = [''order-db-0'' \<mapsto> demoDb]"
proof -
  have "persistTx demoWm (openTx ''00'' emptyShard)
      = (Inr (), (withOrder demoWm (openTx ''00'' emptyShard))\<lparr>tx_outbox := wm_delayTaskRows demoWm\<rparr>)"
    by (simp add: persistTx_def InsertOrder_def InsertUserGuard_def InsertViewerGuards_def InsertSeatGuards_def InsertDelayTasks_def
        withOrder_def openTx_def emptyShard_def upsertTask_def demoWm_def)
  then show ?thesis
    using demo_route by (auto simp: demoRepo_def TransactByOrderNumber_def transactByRoute_def runTx_def emptyRepo_def demoDb_def fun_eq_iff)
qed

lemma demo_steps: "repoStep demoMap (emptyRepo [''order-db-0'']) demoRepo" "repoStep demoMap demoRepo demoPaidRepo"
  using repoStep.persist [OF demoWm_ok, of demoMap "emptyRepo [''order-db-0'']" 1777356000 TxOk]
    repoStep.pay [of demoMap demoRepo 1777356000 TxOk 7 1500]
  by (simp_all add: demoRepo_def demoPaidRepo_def demoWm_def demoOrder_def)

lemma demoDb_rows: "sd_orders demoDb ''00'' = [demoOrder]" "sd_tickets demoDb ''00'' = [demoTicket]"
  by (simp_all add: demoDb_def commitTx_def withOrder_def openTx_def emptyShard_def demoWm_def)

theorem order_life_cycle_witness:
  "\<exists>db' ord'. demoPaidRepo ''order-db-0'' = Some db' \<and> ord' \<in> set (sd_orders db' ''00'') \<and> sameOrder demoOrder ord'
     \<and> lifeReach (od_OrderStatus demoOrder) (od_OrderStatus ord')"
  by (rule order_life_cycle [where m = demoMap and keys = "[''order-db-0'']" and repo = demoRepo and db = demoDb]) (use demo_steps in \<open>auto simp: demoDb_rows demoRepo_eq\<close>)

theorem no_double_sale_witness:
  "hd (sd_orders demoDb ''00'') = demoOrder \<and> active demoOrder \<and> od_UserId demoOrder = 3 \<and> od_ShowTimeId demoOrder = 9"
proof -
  have run: "(repoStep demoMap)\<^sup>*\<^sup>* (emptyRepo [''order-db-0'']) demoRepo" using demo_steps(1) by blast
  have act: "active demoOrder" "od_UserId demoOrder = 3" "od_ShowTimeId demoOrder = 9"
    by (simp_all add: active_def demoOrder_def)
  have "hd (sd_orders demoDb ''00'') = demoOrder"
    by (rule no_double_sale [OF run, of "''order-db-0''" demoDb _ "''00''" demoOrder "''00''"])
      (use act in \<open>auto simp: demoRepo_eq demoDb_rows\<close>)
  with act show ?thesis by simp
qed

theorem expired_scan_complete_witness:
  "FindExpiredUnpaidBySlot demoMap 1777356000 None 1 3000 5 demoRepo =
     Inr (take 5 (filter (orderMatchesLogicSlot 1777356000 1) (sort_key expireKey (filter (expiredUnpaid 3000) [demoOrder]))))"
proof -
  have "RouteByLogicSlot demoMap 1 = Inr (sampleRouteEntry 1)"
    by (simp add: RouteByLogicSlot_def RouteByVersionAndSlot_def demoMap_def)
  from expired_scan_complete [OF this, of demoRepo demoDb 5 1777356000 3000] show ?thesis
    by (simp add: demoRepo_eq demoDb_rows)
qed

end
