(* ===== verification/Pay.thy ===== *)
theory Pay
  imports Prelude
begin

text \<open>
  The pay service, \<open>services/pay-rpc\<close>: the two tables with their unique keys, the handlers
  \<open>MockPay\<close>, \<open>Refund\<close> and \<open>GetPayBill\<close>, and the mapping of their errors. New ids, the wall clock,
  the printing of local times and the fate of the transaction are arguments. Amounts are
  \<open>decimal(10,0)\<close> in the schema, so whole numbers.
\<close>

section \<open>Tables\<close>

record DPayBill =
  pb_Id :: int
  pb_PayBillNo :: int
  pb_OrderNumber :: int
  pb_UserId :: int
  pb_Subject :: string
  pb_Channel :: string
  pb_OrderAmount :: int
  pb_PayStatus :: int
  pb_PayTime :: gotime
  pb_CreateTime :: int
  pb_EditTime :: int
  pb_Status :: int

record DRefundBill =
  rb_Id :: int
  rb_RefundBillNo :: int
  rb_OrderNumber :: int
  rb_PayBillId :: int
  rb_UserId :: int
  rb_RefundAmount :: int
  rb_RefundStatus :: int
  rb_RefundReason :: "string option"
  rb_RefundTime :: gotime
  rb_CreateTime :: int
  rb_EditTime :: int
  rb_Status :: int

record payDb =
  payBills :: "DPayBill list"
  refundBills :: "DRefundBill list"

definition payStatusPaid :: int where "payStatusPaid = 2"
definition payStatusRefunded :: int where "payStatusRefunded = 3"
definition refundStatusRefunded :: int where "refundStatusRefunded = 2"

lemmas pay_status_defs = payStatusPaid_def payStatusRefunded_def refundStatusRefunded_def

definition payFindForUpdate :: "payDb \<Rightarrow> int \<Rightarrow> DPayBill option" where
  "payFindForUpdate d orderNumber = find (\<lambda>p. pb_Status p = 1 \<and> pb_OrderNumber p = orderNumber) (payBills d)"

definition payFindOneByOrderNumber :: "payDb \<Rightarrow> int \<Rightarrow> DPayBill option" where
  "payFindOneByOrderNumber d orderNumber = find (\<lambda>p. pb_OrderNumber p = orderNumber) (payBills d)"

definition refundFindForUpdate :: "payDb \<Rightarrow> int \<Rightarrow> DRefundBill option" where
  "refundFindForUpdate d orderNumber = find (\<lambda>r. rb_Status r = 1 \<and> rb_OrderNumber r = orderNumber) (refundBills d)"

definition payInsert :: "DPayBill \<Rightarrow> payDb \<Rightarrow> unit res \<times> payDb" where
  "payInsert p d =
     (if pb_Id p \<in> pb_Id ` set (payBills d) then (Inl (Duplicate ''PRIMARY''), d)
      else if pb_PayBillNo p \<in> pb_PayBillNo ` set (payBills d) then (Inl (Duplicate ''uk_pay_bill_no''), d)
      else if pb_OrderNumber p \<in> pb_OrderNumber ` set (payBills d) then (Inl (Duplicate ''uk_order_number''), d)
      else (Inr (), d\<lparr>payBills := payBills d @ [p]\<rparr>))"

definition refundInsert :: "DRefundBill \<Rightarrow> payDb \<Rightarrow> unit res \<times> payDb" where
  "refundInsert b d =
     (if rb_Id b \<in> rb_Id ` set (refundBills d) then (Inl (Duplicate ''PRIMARY''), d)
      else if rb_RefundBillNo b \<in> rb_RefundBillNo ` set (refundBills d) then (Inl (Duplicate ''uk_refund_bill_no''), d)
      else if rb_OrderNumber b \<in> rb_OrderNumber ` set (refundBills d) then (Inl (Duplicate ''uk_order_number''), d)
      else (Inr (), d\<lparr>refundBills := refundBills d @ [b]\<rparr>))"

definition UpdateRefundStatus :: "payDb \<Rightarrow> int \<Rightarrow> int \<Rightarrow> payDb" where
  "UpdateRefundStatus d orderNumber refundTime =
     d\<lparr>payBills := map (\<lambda>p. if pb_Status p = 1 \<and> pb_OrderNumber p = orderNumber
         then p\<lparr>pb_PayStatus := 3, pb_EditTime := refundTime\<rparr> else p) (payBills d)\<rparr>"

section \<open>Requests and replies\<close>

record MockPayReq =
  mp_OrderNumber :: int
  mp_UserId :: int
  mp_Subject :: string
  mp_Channel :: string
  mp_Amount :: int

record MockPayResp =
  mr_PayBillNo :: int
  mr_PayStatus :: int
  mr_PayTime :: string

record RefundReq =
  rr_OrderNumber :: int
  rr_UserId :: int
  rr_Amount :: int
  rr_Reason :: string

record RefundResp =
  rp_RefundBillNo :: int
  rp_OrderNumber :: int
  rp_RefundAmount :: int
  rp_PayStatus :: int
  rp_RefundTime :: string

record GetPayBillResp =
  gb_PayBillNo :: int
  gb_OrderNumber :: int
  gb_UserId :: int
  gb_Subject :: string
  gb_Channel :: string
  gb_Amount :: int
  gb_PayStatus :: int
  gb_PayTime :: string

definition validateMockPayReq :: "MockPayReq \<Rightarrow> unit res" where
  "validateMockPayReq inp =
     (if mp_OrderNumber inp \<le> 0 \<or> mp_UserId inp \<le> 0 \<or> mp_Subject inp = [] \<or> mp_Amount inp \<le> 0
      then Inl (Status CInvalidArgument ErrInvalidParam) else Inr ())"

definition validateGetPayBillReq :: "int \<Rightarrow> unit res" where
  "validateGetPayBillReq orderNumber = (if orderNumber \<le> 0 then Inl (Status CInvalidArgument ErrInvalidParam) else Inr ())"

definition validateRefundReq :: "RefundReq \<Rightarrow> unit res" where
  "validateRefundReq inp =
     (if rr_OrderNumber inp \<le> 0 \<or> rr_UserId inp \<le> 0 \<or> rr_Amount inp \<le> 0
      then Inl (Status CInvalidArgument ErrInvalidParam) else Inr ())"

definition normalizePayChannel :: "string \<Rightarrow> string" where
  "normalizePayChannel channel = (if channel = [] then ''mock'' else channel)"

definition newNullString :: "string \<Rightarrow> string option" where
  "newNullString value = (if value = [] then None else Some value)"

definition formatPayNullTime :: "(int \<Rightarrow> string) \<Rightarrow> gotime \<Rightarrow> string" where
  "formatPayNullTime fmt value = (case value of None \<Rightarrow> [] | Some v \<Rightarrow> fmt v)"

definition mapMockPayResp :: "(int \<Rightarrow> string) \<Rightarrow> DPayBill \<Rightarrow> MockPayResp" where
  "mapMockPayResp fmt p = \<lparr>mr_PayBillNo = pb_PayBillNo p, mr_PayStatus = pb_PayStatus p,
     mr_PayTime = formatPayNullTime fmt (pb_PayTime p)\<rparr>"

definition mapGetPayBillResp :: "(int \<Rightarrow> string) \<Rightarrow> DPayBill \<Rightarrow> GetPayBillResp" where
  "mapGetPayBillResp fmt p = \<lparr>gb_PayBillNo = pb_PayBillNo p, gb_OrderNumber = pb_OrderNumber p, gb_UserId = pb_UserId p,
     gb_Subject = pb_Subject p, gb_Channel = pb_Channel p, gb_Amount = pb_OrderAmount p, gb_PayStatus = pb_PayStatus p,
     gb_PayTime = formatPayNullTime fmt (pb_PayTime p)\<rparr>"

definition mapRefundPayStatus :: "int \<Rightarrow> int" where
  "mapRefundPayStatus refundStatus = (if refundStatus = refundStatusRefunded then payStatusRefunded else payStatusPaid)"

definition mapRefundResp :: "(int \<Rightarrow> string) \<Rightarrow> DRefundBill \<Rightarrow> RefundResp" where
  "mapRefundResp fmt b = \<lparr>rp_RefundBillNo = rb_RefundBillNo b, rp_OrderNumber = rb_OrderNumber b,
     rp_RefundAmount = rb_RefundAmount b, rp_PayStatus = mapRefundPayStatus (rb_RefundStatus b),
     rp_RefundTime = formatPayNullTime fmt (rb_RefundTime b)\<rparr>"

definition mapPayError :: "goerr \<Rightarrow> goerr" where
  "mapPayError err =
     (if isStatus err then err
      else if err = Sentinel ErrInvalidParam then Status CInvalidArgument ErrInvalidParam
      else if err = Sentinel ErrPayBillNotFound \<or> err = ModelNotFound then Status CNotFound ErrPayBillNotFound
      else if err = Sentinel ErrOrderStatusInvalid then Status CFailedPrecondition ErrOrderStatusInvalid
      else err)"

section \<open>Handlers\<close>

record payEnv =
  pe_Id :: int
  pe_No :: int
  pe_Now :: int
  pe_Tx :: txfault
  pe_Format :: "int \<Rightarrow> string"

definition newPayBill :: "payEnv \<Rightarrow> MockPayReq \<Rightarrow> DPayBill" where
  "newPayBill env inp = \<lparr>pb_Id = pe_Id env, pb_PayBillNo = pe_No env, pb_OrderNumber = mp_OrderNumber inp,
     pb_UserId = mp_UserId inp, pb_Subject = mp_Subject inp, pb_Channel = normalizePayChannel (mp_Channel inp),
     pb_OrderAmount = mp_Amount inp, pb_PayStatus = payStatusPaid, pb_PayTime = Some (pe_Now env),
     pb_CreateTime = pe_Now env, pb_EditTime = pe_Now env, pb_Status = 1\<rparr>"

definition newRefundBill :: "payEnv \<Rightarrow> RefundReq \<Rightarrow> DPayBill \<Rightarrow> DRefundBill" where
  "newRefundBill env inp payBill = \<lparr>rb_Id = pe_Id env, rb_RefundBillNo = pe_No env, rb_OrderNumber = rr_OrderNumber inp,
     rb_PayBillId = pb_Id payBill, rb_UserId = rr_UserId inp, rb_RefundAmount = rr_Amount inp,
     rb_RefundStatus = refundStatusRefunded, rb_RefundReason = newNullString (rr_Reason inp),
     rb_RefundTime = Some (pe_Now env), rb_CreateTime = pe_Now env, rb_EditTime = pe_Now env, rb_Status = 1\<rparr>"

definition MockPay :: "payEnv \<Rightarrow> MockPayReq \<Rightarrow> payDb \<Rightarrow> MockPayResp res \<times> payDb" where
  "MockPay env inp d =
     (case validateMockPayReq inp of Inl e \<Rightarrow> (Inl e, d) | Inr _ \<Rightarrow>
     (case runTx (pe_Tx env) (\<lambda>d.
        case payFindForUpdate d (mp_OrderNumber inp) of
          Some payBill \<Rightarrow> (Inr (mapMockPayResp (pe_Format env) payBill), d)
        | None \<Rightarrow>
          (let payBill = newPayBill env inp in
           case payInsert payBill d of
             (Inl e, d') \<Rightarrow> (Inl e, d')
           | (Inr _, d') \<Rightarrow> (Inr (mapMockPayResp (pe_Format env) payBill), d'))) d of
        (Inl e, d') \<Rightarrow> (Inl (mapPayError e), d')
      | (Inr resp, d') \<Rightarrow> (Inr resp, d')))"

definition GetPayBill :: "payEnv \<Rightarrow> int \<Rightarrow> payDb \<Rightarrow> GetPayBillResp res" where
  "GetPayBill env orderNumber d =
     (case validateGetPayBillReq orderNumber of Inl e \<Rightarrow> Inl e | Inr _ \<Rightarrow>
     (case payFindOneByOrderNumber d orderNumber of
        None \<Rightarrow> Inl (mapPayError (Sentinel ErrPayBillNotFound))
      | Some payBill \<Rightarrow> Inr (mapGetPayBillResp (pe_Format env) payBill)))"

definition Refund :: "payEnv \<Rightarrow> RefundReq \<Rightarrow> payDb \<Rightarrow> RefundResp res \<times> payDb" where
  "Refund env inp d =
     (case validateRefundReq inp of Inl e \<Rightarrow> (Inl e, d) | Inr _ \<Rightarrow>
     (case runTx (pe_Tx env) (\<lambda>d.
        case refundFindForUpdate d (rr_OrderNumber inp) of
          Some refundBill \<Rightarrow> (Inr (mapRefundResp (pe_Format env) refundBill), d)
        | None \<Rightarrow>
        (case payFindForUpdate d (rr_OrderNumber inp) of
          None \<Rightarrow> (Inl (Sentinel ErrPayBillNotFound), d)
        | Some payBill \<Rightarrow>
        (case refundFindForUpdate d (rr_OrderNumber inp) of
          Some refundBill \<Rightarrow> (Inr (mapRefundResp (pe_Format env) refundBill), d)
        | None \<Rightarrow>
          (if pb_PayStatus payBill \<noteq> payStatusPaid then (Inl (Sentinel ErrOrderStatusInvalid), d)
           else if pb_OrderAmount payBill < rr_Amount inp then (Inl (Sentinel ErrInvalidParam), d)
           else
             let d1 = UpdateRefundStatus d (rr_OrderNumber inp) (pe_Now env);
                 refundBill = newRefundBill env inp payBill in
             case refundInsert refundBill d1 of
               (Inl e, d2) \<Rightarrow> (Inl e, d2)
             | (Inr _, d2) \<Rightarrow> (Inr (mapRefundResp (pe_Format env) refundBill), d2))))) d of
        (Inl e, d') \<Rightarrow> (Inl (mapPayError e), d')
      | (Inr resp, d') \<Rightarrow> (Inr resp, d')))"

section \<open>Invariant\<close>

text \<open>
  Both tables hold active rows only, at most one per order; a bill is paid or refunded; a refund
  names the bill of its order, which is marked refunded and covers the amount; a bill marked
  refunded has its refund.
\<close>

definition refundOf :: "DRefundBill \<Rightarrow> DPayBill \<Rightarrow> bool" where
  "refundOf r p \<longleftrightarrow> pb_OrderNumber p = rb_OrderNumber r \<and> pb_Id p = rb_PayBillId r \<and> pb_PayStatus p = payStatusRefunded
     \<and> 0 < rb_RefundAmount r \<and> rb_RefundAmount r \<le> pb_OrderAmount p"

definition payInv :: "payDb \<Rightarrow> bool" where
  "payInv d \<longleftrightarrow> distinct (map pb_OrderNumber (payBills d)) \<and> distinct (map rb_OrderNumber (refundBills d))
     \<and> (\<forall>p \<in> set (payBills d). pb_Status p = 1 \<and> 0 < pb_OrderAmount p \<and> pb_PayStatus p \<in> {payStatusPaid, payStatusRefunded})
     \<and> (\<forall>r \<in> set (refundBills d). rb_Status r = 1 \<and> rb_RefundStatus r = refundStatusRefunded \<and> (\<exists>p \<in> set (payBills d). refundOf r p))
     \<and> (\<forall>p \<in> set (payBills d). pb_PayStatus p = payStatusRefunded \<longrightarrow> (\<exists>r \<in> set (refundBills d). refundOf r p))"

inductive payStep :: "payDb \<Rightarrow> payDb \<Rightarrow> bool" where
  pay: "payStep d (snd (MockPay env inp d))"
| refund: "payStep d (snd (Refund env rq d))"

lemma payFind_iff:
  "payInv d \<Longrightarrow> payFindForUpdate d n = Some p \<longleftrightarrow> p \<in> set (payBills d) \<and> pb_OrderNumber p = n"
  unfolding payFindForUpdate_def payInv_def
  by (auto dest: find_someD intro: find_unique_key [of pb_OrderNumber])

lemma refundFind_iff:
  "payInv d \<Longrightarrow> refundFindForUpdate d n = Some r \<longleftrightarrow> r \<in> set (refundBills d) \<and> rb_OrderNumber r = n"
  unfolding refundFindForUpdate_def payInv_def
  by (auto dest: find_someD intro: find_unique_key [of rb_OrderNumber])

text \<open>What a call that commits does to the tables.\<close>

lemma MockPay_effect:
  "snd (MockPay env inp d) = d
   \<or> (validateMockPayReq inp = Inr () \<and> payFindForUpdate d (mp_OrderNumber inp) = None
      \<and> mp_OrderNumber inp \<notin> pb_OrderNumber ` set (payBills d)
      \<and> snd (MockPay env inp d) = d\<lparr>payBills := payBills d @ [newPayBill env inp]\<rparr>)"
  unfolding MockPay_def Let_def
  by (auto simp: runTx_def payInsert_def newPayBill_def split: sum.splits option.splits txfault.splits prod.splits if_splits)

lemma Refund_effect:
  "snd (Refund env inp d) = d
   \<or> (validateRefundReq inp = Inr () \<and> refundFindForUpdate d (rr_OrderNumber inp) = None
      \<and> rr_OrderNumber inp \<notin> rb_OrderNumber ` set (refundBills d)
      \<and> (\<exists>p. payFindForUpdate d (rr_OrderNumber inp) = Some p \<and> pb_PayStatus p = payStatusPaid \<and> rr_Amount inp \<le> pb_OrderAmount p
        \<and> snd (Refund env inp d) = (UpdateRefundStatus d (rr_OrderNumber inp) (pe_Now env))
            \<lparr>refundBills := refundBills d @ [newRefundBill env inp p]\<rparr>))"
  unfolding Refund_def Let_def
  by (auto simp: runTx_def refundInsert_def newRefundBill_def UpdateRefundStatus_def
      split: sum.splits option.splits txfault.splits prod.splits if_splits)

lemma validReq_amount:
  "validateMockPayReq inp = Inr () \<Longrightarrow> 0 < mp_Amount inp"
  "validateRefundReq rq = Inr () \<Longrightarrow> 0 < rr_Amount rq"
  by (auto simp: validateMockPayReq_def validateRefundReq_def split: if_splits)

lemma payInv_insert:
  assumes "payInv d" "pb_OrderNumber p \<notin> pb_OrderNumber ` set (payBills d)"
    "pb_Status p = 1" "0 < pb_OrderAmount p" "pb_PayStatus p = payStatusPaid"
  shows "payInv (d\<lparr>payBills := payBills d @ [p]\<rparr>)"
  using assms by (auto simp: payInv_def refundOf_def pay_status_defs)

definition markRefunded :: "int \<Rightarrow> int \<Rightarrow> DPayBill \<Rightarrow> DPayBill" where
  "markRefunded n t p = (if pb_Status p = 1 \<and> pb_OrderNumber p = n then p\<lparr>pb_PayStatus := 3, pb_EditTime := t\<rparr> else p)"

lemma markRefunded_simps [simp]:
  "pb_OrderNumber (markRefunded n t p) = pb_OrderNumber p" "pb_Status (markRefunded n t p) = pb_Status p"
  "pb_Id (markRefunded n t p) = pb_Id p" "pb_OrderAmount (markRefunded n t p) = pb_OrderAmount p"
  "pb_PayBillNo (markRefunded n t p) = pb_PayBillNo p" "pb_PayTime (markRefunded n t p) = pb_PayTime p"
  "pb_PayStatus (markRefunded n t p) = (if pb_Status p = 1 \<and> pb_OrderNumber p = n then 3 else pb_PayStatus p)"
  by (simp_all add: markRefunded_def)

lemma UpdateRefundStatus_bills [simp]:
  "payBills (UpdateRefundStatus d n t) = map (markRefunded n t) (payBills d)"
  "refundBills (UpdateRefundStatus d n t) = refundBills d"
  by (simp_all add: UpdateRefundStatus_def markRefunded_def)

lemma payInv_refund:
  assumes inv: "payInv d" and p: "p \<in> set (payBills d)" "pb_OrderNumber p = n"
    and r: "rb_OrderNumber r = n" "rb_PayBillId r = pb_Id p" "rb_Status r = 1" "rb_RefundStatus r = refundStatusRefunded"
      "0 < rb_RefundAmount r" "rb_RefundAmount r \<le> pb_OrderAmount p"
    and new: "n \<notin> rb_OrderNumber ` set (refundBills d)"
  shows "payInv ((UpdateRefundStatus d n t)\<lparr>refundBills := refundBills d @ [r]\<rparr>)"
proof -
  let ?f = "markRefunded n t"
  have keep: "refundOf r' (?f q)" if "refundOf r' q" for r' q
    using that by (auto simp: refundOf_def payStatusRefunded_def)
  have uniq: "q = p" if "q \<in> set (payBills d)" "pb_OrderNumber q = n" for q
    using inv that p by (auto simp: payInv_def distinct_map inj_on_def)
  have st: "pb_Status p = 1" using inv p by (simp add: payInv_def)
  then have new_r: "refundOf r (?f p)" using p r by (simp add: refundOf_def payStatusRefunded_def)
  have "\<exists>r' \<in> set (refundBills d @ [r]). refundOf r' (?f q)"
    if q: "q \<in> set (payBills d)" "pb_PayStatus (?f q) = payStatusRefunded" for q
  proof (cases "pb_OrderNumber q = n")
    case True
    then show ?thesis using uniq [OF q(1)] new_r by simp
  next
    case False
    then have "pb_PayStatus q = payStatusRefunded" using q(2) by simp
    then show ?thesis using inv q(1) keep by (fastforce simp: payInv_def)
  qed
  moreover have "\<exists>q \<in> ?f ` set (payBills d). refundOf r' q" if "r' \<in> set (refundBills d @ [r])" for r'
    using that inv keep new_r p(1) by (fastforce simp: payInv_def)
  moreover have "pb_PayStatus (?f q) \<in> {payStatusPaid, payStatusRefunded}" if "q \<in> set (payBills d)" for q
    using inv that by (auto simp: payInv_def pay_status_defs)
  moreover have "map pb_OrderNumber (map ?f (payBills d)) = map pb_OrderNumber (payBills d)" by simp
  ultimately show ?thesis using inv r new
    unfolding payInv_def by (simp add: comp_def)
qed

lemma payStep_inv:
  assumes "payInv d" "payStep d d'" shows "payInv d'"
  using assms(2)
proof cases
  case (pay env inp)
  show ?thesis using MockPay_effect [of env inp d] assms(1)
    by (auto simp: pay newPayBill_def intro!: payInv_insert validReq_amount)
next
  case (refund env rq)
  have "payInv (snd (Refund env rq d))"
    if "payFindForUpdate d (rr_OrderNumber rq) = Some p" "rr_Amount rq \<le> pb_OrderAmount p" "validateRefundReq rq = Inr ()"
      "rr_OrderNumber rq \<notin> rb_OrderNumber ` set (refundBills d)"
      "snd (Refund env rq d) = (UpdateRefundStatus d (rr_OrderNumber rq) (pe_Now env))
            \<lparr>refundBills := refundBills d @ [newRefundBill env rq p]\<rparr>" for p
    using payInv_refund [of d p "rr_OrderNumber rq" "newRefundBill env rq p"] that assms(1) validReq_amount(2) [of rq]
    by (simp add: newRefundBill_def payFind_iff)
  then show ?thesis using Refund_effect [of env rq d] assms(1) unfolding refund by auto
qed

interpretation pay_sys: step_invariant payStep payInv
  by unfold_locales (rule payStep_inv)

section \<open>Money\<close>

lemma keyed_sum_le:
  fixes a :: "'r \<Rightarrow> int" and b :: "'p \<Rightarrow> int"
  assumes "distinct (map k rs)" "distinct (map l ps)"
    and cover: "\<forall>r \<in> set rs. \<exists>p \<in> set ps. l p = k r \<and> a r \<le> b p" and pos: "\<forall>p \<in> set ps. 0 \<le> b p"
  shows "sum_list (map a rs) \<le> sum_list (map b ps)"
proof -
  obtain f where f: "\<forall>r \<in> set rs. f r \<in> set ps \<and> l (f r) = k r \<and> a r \<le> b (f r)"
    using cover by metis
  have inj: "inj_on f (set rs)" using f assms(1) by (metis distinct_map inj_on_def)
  have "sum a (set rs) \<le> sum (b \<circ> f) (set rs)" using f by (intro sum_mono) simp
  also have "\<dots> = sum b (f ` set rs)" using inj by (simp add: sum.reindex)
  also have "\<dots> \<le> sum b (set ps)" using f pos by (intro sum_mono2) auto
  finally show ?thesis using assms(1,2) by (simp add: sum_list_distinct_conv_sum_set distinct_map)
qed

lemma payInv_refunds_le: "payInv d \<Longrightarrow> sum_list (map rb_RefundAmount (refundBills d)) \<le> sum_list (map pb_OrderAmount (payBills d))"
  unfolding payInv_def refundOf_def
  by (rule keyed_sum_le [of rb_OrderNumber _ pb_OrderNumber]) fastforce+

text \<open>
  C6. Whatever calls of \<open>MockPay\<close> and \<open>Refund\<close> ran, in whatever order and with whatever
  transaction failures, every order has at most one bill and at most one refund, every refund is
  positive, names the bill of its order, is covered by it and has the bill marked refunded, and
  the refunds together never exceed the payments.
\<close>

theorem refunds_covered:
  assumes "payStep\<^sup>*\<^sup>* \<lparr>payBills = [], refundBills = []\<rparr> d"
  shows "distinct (map pb_OrderNumber (payBills d)) \<and> distinct (map rb_OrderNumber (refundBills d))
    \<and> (\<forall>r \<in> set (refundBills d). \<exists>p \<in> set (payBills d). pb_OrderNumber p = rb_OrderNumber r
         \<and> pb_Id p = rb_PayBillId r \<and> pb_PayStatus p = payStatusRefunded
         \<and> 0 < rb_RefundAmount r \<and> rb_RefundAmount r \<le> pb_OrderAmount p)
    \<and> sum_list (map rb_RefundAmount (refundBills d)) \<le> sum_list (map pb_OrderAmount (payBills d))"
proof -
  have "payInv d" using pay_sys.run_inv [OF assms] by (simp add: payInv_def)
  then show ?thesis using payInv_refunds_le [of d] by (simp add: payInv_def refundOf_def)
qed

definition demoPayEnv :: "int \<Rightarrow> txfault \<Rightarrow> payEnv" where
  "demoPayEnv i flt = \<lparr>pe_Id = i, pe_No = i + 1, pe_Now = 1000 * i, pe_Tx = flt, pe_Format = show_int\<rparr>"

definition demoPayReq :: MockPayReq where
  "demoPayReq = \<lparr>mp_OrderNumber = 7, mp_UserId = 3, mp_Subject = ''show'', mp_Channel = [], mp_Amount = 500\<rparr>"

definition demoRefundReq :: "int \<Rightarrow> RefundReq" where
  "demoRefundReq a = \<lparr>rr_OrderNumber = 7, rr_UserId = 3, rr_Amount = a, rr_Reason = []\<rparr>"

definition demoPaid :: payDb where
  "demoPaid = snd (MockPay (demoPayEnv 1 TxOk) demoPayReq \<lparr>payBills = [], refundBills = []\<rparr>)"

definition demoRefunded :: payDb where
  "demoRefunded = snd (Refund (demoPayEnv 9 (TxLostAck Timeout)) (demoRefundReq 400) demoPaid)"

lemmas pay_eval = MockPay_def Refund_def runTx_def validateMockPayReq_def validateRefundReq_def payFindForUpdate_def
  refundFindForUpdate_def payInsert_def refundInsert_def UpdateRefundStatus_def newPayBill_def newRefundBill_def
  demoPayEnv_def demoPayReq_def demoRefundReq_def normalizePayChannel_def newNullString_def pay_status_defs
  mapMockPayResp_def mapRefundResp_def mapRefundPayStatus_def formatPayNullTime_def

lemma demo_tables:
  "map pb_PayStatus (payBills demoPaid) = [2]" "refundBills demoPaid = []"
  "map rb_RefundAmount (refundBills demoRefunded) = [400]" "map pb_PayStatus (payBills demoRefunded) = [3]"
  by (simp_all add: demoRefunded_def demoPaid_def pay_eval)

lemma demo_run:
  "payStep\<^sup>*\<^sup>* \<lparr>payBills = [], refundBills = []\<rparr> demoPaid" "payStep demoPaid demoRefunded"
  "payInv demoPaid" "payInv demoRefunded"
proof -
  show p: "payStep\<^sup>*\<^sup>* \<lparr>payBills = [], refundBills = []\<rparr> demoPaid"
    unfolding demoPaid_def by (rule r_into_rtranclp) (rule payStep.pay)
  show r: "payStep demoPaid demoRefunded" unfolding demoRefunded_def by (rule payStep.refund)
  show q: "payInv demoPaid" by (rule pay_sys.run_inv [OF p]) (simp add: payInv_def)
  show "payInv demoRefunded" by (rule pay_sys.inv_step [OF q r])
qed

theorem refunds_covered_witness:
  "map rb_RefundAmount (refundBills demoRefunded) = [400] \<and> map pb_PayStatus (payBills demoRefunded) = [3]
   \<and> sum_list (map rb_RefundAmount (refundBills demoRefunded)) \<le> sum_list (map pb_OrderAmount (payBills demoRefunded))"
  using refunds_covered [OF rtranclp.rtrancl_into_rtrancl [OF demo_run(1,2)]] by (simp add: demo_tables)

section \<open>Retries\<close>

lemma refund_rows_kept:
  assumes "payStep d d'" "r \<in> set (refundBills d)" shows "r \<in> set (refundBills d')"
  using assms(1)
proof cases
  case (pay env inp)
  then show ?thesis using assms(2) MockPay_effect [of env inp d] by auto
next
  case (refund env rq)
  then show ?thesis using assms(2) Refund_effect [of env rq d] by auto
qed

definition hasBill :: "int \<Rightarrow> int \<Rightarrow> gotime \<Rightarrow> payDb \<Rightarrow> bool" where
  "hasBill n no t d \<longleftrightarrow> (\<exists>p \<in> set (payBills d). pb_OrderNumber p = n \<and> pb_PayBillNo p = no \<and> pb_PayTime p = t)"

lemma bill_kept:
  assumes "payStep d d'" "hasBill n no t d" shows "hasBill n no t d'"
  using assms(1)
proof cases
  case (pay env inp)
  then show ?thesis using assms(2) MockPay_effect [of env inp d] by (auto simp: hasBill_def)
next
  case (refund env rq)
  then show ?thesis using assms(2) Refund_effect [of env rq d] by (auto simp: hasBill_def)
qed

lemma MockPay_bill:
  assumes "payInv d" "MockPay env inp d = (Inr resp, d1)"
  shows "\<exists>p \<in> set (payBills d1). pb_OrderNumber p = mp_OrderNumber inp \<and> resp = mapMockPayResp (pe_Format env) p"
  using assms unfolding MockPay_def Let_def runTx_def
  by (auto simp: payInsert_def newPayBill_def payFind_iff
      split: sum.splits option.splits txfault.splits prod.splits if_splits)

lemma MockPay_again:
  assumes "payInv d" "hasBill (mp_OrderNumber inp) no t d" "validateMockPayReq inp = Inr ()" "pe_Tx env = TxOk"
  shows "\<exists>st. MockPay env inp d = (Inr \<lparr>mr_PayBillNo = no, mr_PayStatus = st, mr_PayTime = formatPayNullTime (pe_Format env) t\<rparr>, d)"
proof -
  obtain p where p: "p \<in> set (payBills d)" "pb_OrderNumber p = mp_OrderNumber inp" "pb_PayBillNo p = no" "pb_PayTime p = t"
    using assms(2) by (auto simp: hasBill_def)
  then have "payFindForUpdate d (mp_OrderNumber inp) = Some p" using payFind_iff [OF assms(1)] by blast
  then show ?thesis using assms(3,4) p by (simp add: MockPay_def runTx_def mapMockPayResp_def)
qed

text \<open>
  Paying is idempotent: once an order has been paid, every later valid request to pay it, for
  whatever amount and after whatever other calls, is answered with the number and the time of the
  first bill and changes nothing.
\<close>

theorem pay_idempotent:
  assumes "payInv d" "MockPay env inp d = (Inr resp, d1)" "payStep\<^sup>*\<^sup>* d1 d2"
    and "validateMockPayReq inp' = Inr ()" "mp_OrderNumber inp' = mp_OrderNumber inp"
    and "pe_Tx env' = TxOk" "pe_Format env' = pe_Format env"
  shows "\<exists>resp'. MockPay env' inp' d2 = (Inr resp', d2) \<and> mr_PayBillNo resp' = mr_PayBillNo resp
           \<and> mr_PayTime resp' = mr_PayTime resp"
proof -
  obtain t where t: "mr_PayTime resp = formatPayNullTime (pe_Format env) t"
    "hasBill (mp_OrderNumber inp) (mr_PayBillNo resp) t d1"
    using MockPay_bill [OF assms(1,2)] by (fastforce simp: mapMockPayResp_def hasBill_def)
  have inv1: "payInv d1" using pay_sys.inv_step [OF assms(1) payStep.pay [of d env inp]] assms(2) by simp
  have "hasBill (mp_OrderNumber inp') (mr_PayBillNo resp) t d2"
    using pay_sys.run_stable [OF assms(3) inv1, of "hasBill (mp_OrderNumber inp) (mr_PayBillNo resp) t"] t(2) bill_kept assms(5)
    by auto
  from MockPay_again [OF pay_sys.run_inv [OF assms(3) inv1] this assms(4,6)] show ?thesis
    using t(1) assms(7) by auto
qed

theorem pay_idempotent_witness:
  "\<exists>resp'. MockPay (demoPayEnv 20 TxOk) (demoPayReq\<lparr>mp_Amount := 900\<rparr>) demoRefunded = (Inr resp', demoRefunded)
     \<and> mr_PayBillNo resp' = 2"
proof -
  let ?resp = "\<lparr>mr_PayBillNo = 2, mr_PayStatus = 2, mr_PayTime = show_int 1000\<rparr>"
  have inv: "payInv \<lparr>payBills = [], refundBills = []\<rparr>" by (simp add: payInv_def)
  have paid: "MockPay (demoPayEnv 1 TxOk) demoPayReq \<lparr>payBills = [], refundBills = []\<rparr> = (Inr ?resp, demoPaid)"
    by (simp add: demoPaid_def pay_eval)
  have "validateMockPayReq (demoPayReq\<lparr>mp_Amount := 900\<rparr>) = Inr ()" by (simp add: pay_eval)
  from pay_idempotent [OF inv paid r_into_rtranclp [of payStep, OF demo_run(2)] this, of "demoPayEnv 20 TxOk"]
  show ?thesis by (auto simp: demoPayEnv_def demoPayReq_def)
qed

lemma Refund_row:
  assumes "payInv d" "Refund env rq d = (Inr resp, d1)"
  shows "\<exists>r \<in> set (refundBills d1). rb_OrderNumber r = rr_OrderNumber rq \<and> resp = mapRefundResp (pe_Format env) r"
  using assms unfolding Refund_def Let_def runTx_def
  by (auto simp: refundInsert_def newRefundBill_def refundFind_iff
      split: sum.splits option.splits txfault.splits prod.splits if_splits)

lemma Refund_again:
  assumes "payInv d" "r \<in> set (refundBills d)" "rb_OrderNumber r = rr_OrderNumber rq"
    "validateRefundReq rq = Inr ()" "pe_Tx env = TxOk"
  shows "Refund env rq d = (Inr (mapRefundResp (pe_Format env) r), d)"
proof -
  have "refundFindForUpdate d (rr_OrderNumber rq) = Some r" using refundFind_iff [OF assms(1)] assms(2,3) by blast
  then show ?thesis using assms(4,5) by (simp add: Refund_def runTx_def)
qed

text \<open>
  Refunding is idempotent: once a refund has been answered, every later valid request for that
  order, for whatever amount and after whatever other calls, gets the same reply and changes nothing.
\<close>

theorem refund_idempotent:
  assumes "payInv d" "Refund env rq d = (Inr resp, d1)" "payStep\<^sup>*\<^sup>* d1 d2"
    and "validateRefundReq rq' = Inr ()" "rr_OrderNumber rq' = rr_OrderNumber rq"
    and "pe_Tx env' = TxOk" "pe_Format env' = pe_Format env"
  shows "Refund env' rq' d2 = (Inr resp, d2)"
proof -
  obtain r where r: "r \<in> set (refundBills d1)" "rb_OrderNumber r = rr_OrderNumber rq" "resp = mapRefundResp (pe_Format env) r"
    using Refund_row [OF assms(1,2)] by blast
  have inv1: "payInv d1" using pay_sys.inv_step [OF assms(1) payStep.refund [of d env rq]] assms(2) by simp
  have "r \<in> set (refundBills d2)"
    using pay_sys.run_stable [OF assms(3) inv1, of "\<lambda>x. r \<in> set (refundBills x)"] r(1) refund_rows_kept by auto
  from Refund_again [OF pay_sys.run_inv [OF assms(3) inv1] this, of rq' env'] show ?thesis
    using r(2,3) assms(4-7) by simp
qed

theorem refund_idempotent_witness:
  "rp_RefundAmount (projr (fst (Refund (demoPayEnv 30 TxOk) (demoRefundReq 100) demoRefunded))) = 400
   \<and> snd (Refund (demoPayEnv 30 TxOk) (demoRefundReq 100) demoRefunded) = demoRefunded"
proof -
  let ?resp = "\<lparr>rp_RefundBillNo = 10, rp_OrderNumber = 7, rp_RefundAmount = 400, rp_PayStatus = 3, rp_RefundTime = show_int 9000\<rparr>"
  have "Refund (demoPayEnv 9 TxOk) (demoRefundReq 400) demoPaid = (Inr ?resp, demoRefunded)"
    by (simp add: demoRefunded_def demoPaid_def pay_eval)
  from refund_idempotent [OF demo_run(3) this rtranclp.rtrancl_refl, of "demoRefundReq 100" "demoPayEnv 30 TxOk"]
  show ?thesis by (simp add: validateRefundReq_def demoRefundReq_def demoPayEnv_def)
qed

lemma Refund_first:
  assumes inv: "payInv d" and "validateRefundReq rq = Inr ()" "pe_Tx env = TxOk"
    and new: "\<forall>r \<in> set (refundBills d). rb_OrderNumber r \<noteq> rr_OrderNumber rq \<and> rb_Id r \<noteq> pe_Id env \<and> rb_RefundBillNo r \<noteq> pe_No env"
  shows "Refund env rq d =
    (case payFindForUpdate d (rr_OrderNumber rq) of
       None \<Rightarrow> (Inl (Status CNotFound ErrPayBillNotFound), d)
     | Some p \<Rightarrow>
         if rr_Amount rq \<le> pb_OrderAmount p
         then (Inr \<lparr>rp_RefundBillNo = pe_No env, rp_OrderNumber = rr_OrderNumber rq, rp_RefundAmount = rr_Amount rq,
                 rp_PayStatus = payStatusRefunded, rp_RefundTime = pe_Format env (pe_Now env)\<rparr>,
               (UpdateRefundStatus d (rr_OrderNumber rq) (pe_Now env))\<lparr>refundBills := refundBills d @ [newRefundBill env rq p]\<rparr>)
         else (Inl (Status CInvalidArgument ErrInvalidParam), d))"
proof -
  have none: "refundFindForUpdate d (rr_OrderNumber rq) = None"
    using new by (auto simp: refundFindForUpdate_def find_None_iff)
  have paid: "pb_PayStatus p = payStatusPaid" if "payFindForUpdate d (rr_OrderNumber rq) = Some p" for p
    using that inv new payFind_iff [OF inv] by (fastforce simp: payInv_def refundOf_def)
  have "refundInsert (newRefundBill env rq p) (UpdateRefundStatus d (rr_OrderNumber rq) t) =
      (Inr (), (UpdateRefundStatus d (rr_OrderNumber rq) t)\<lparr>refundBills := refundBills d @ [newRefundBill env rq p]\<rparr>)" for p t
    using new by (auto simp: refundInsert_def newRefundBill_def)
  then show ?thesis using assms(2,3) none paid
    by (auto simp: Refund_def runTx_def mapPayError_def mapRefundResp_def mapRefundPayStatus_def newRefundBill_def
        formatPayNullTime_def split: option.splits)
qed

text \<open>
  The answer to a first refund request: the order must have a bill and the bill must cover the
  amount, and then the refund is made. In a reachable database no other outcome exists; in
  particular a bill without a refund is never in a status that blocks its refund.
\<close>

theorem refund_decides:
  assumes inv: "payInv d" and "validateRefundReq rq = Inr ()" "pe_Tx env = TxOk"
    and new: "\<forall>r \<in> set (refundBills d). rb_OrderNumber r \<noteq> rr_OrderNumber rq \<and> rb_Id r \<noteq> pe_Id env \<and> rb_RefundBillNo r \<noteq> pe_No env"
  shows "Refund env rq d =
    (case payFindForUpdate d (rr_OrderNumber rq) of
       None \<Rightarrow> (Inl (Status CNotFound ErrPayBillNotFound), d)
     | Some p \<Rightarrow>
         if rr_Amount rq \<le> pb_OrderAmount p
         then (Inr \<lparr>rp_RefundBillNo = pe_No env, rp_OrderNumber = rr_OrderNumber rq, rp_RefundAmount = rr_Amount rq,
                 rp_PayStatus = payStatusRefunded, rp_RefundTime = pe_Format env (pe_Now env)\<rparr>,
               (UpdateRefundStatus d (rr_OrderNumber rq) (pe_Now env))\<lparr>refundBills := refundBills d @ [newRefundBill env rq p]\<rparr>)
         else (Inl (Status CInvalidArgument ErrInvalidParam), d))"
  using Refund_first [OF assms] .

theorem refund_decides_witness:
  "fst (Refund (demoPayEnv 9 TxOk) (demoRefundReq 600) demoPaid) = Inl (Status CInvalidArgument ErrInvalidParam)
   \<and> rp_RefundBillNo (projr (fst (Refund (demoPayEnv 9 TxOk) (demoRefundReq 500) demoPaid))) = 10"
proof -
  have find: "map_option pb_OrderAmount (payFindForUpdate demoPaid 7) = Some 500"
    by (simp add: demoPaid_def pay_eval)
  have "validateRefundReq (demoRefundReq 600) = Inr ()" "validateRefundReq (demoRefundReq 500) = Inr ()"
    by (simp_all add: pay_eval)
  with refund_decides [OF demo_run(3), of "demoRefundReq 600" "demoPayEnv 9 TxOk"]
    refund_decides [OF demo_run(3), of "demoRefundReq 500" "demoPayEnv 9 TxOk"] find
  show ?thesis by (auto simp: demo_tables demoPayEnv_def demoRefundReq_def split: option.splits)
qed

end
