(* ===== verification/OrderLogic.thy ===== *)
theory OrderLogic
  imports OrderInvariant AttemptStore Pay RefundRule
begin

text \<open>
  The handlers of \<open>services/order-rpc/internal/logic\<close> that change an existing order: cancelling,
  closing after expiry, paying, checking a payment, refunding, and the previews that only read. The
  state is the order store, the tables of the pay service, the seats of the program service and the
  Redis of the rush store; a call to another service runs that service's model behind a fault of
  the network. Chinese texts of the source are replaced by English ones. A handler that holds the
  status lock of its order runs alone on that order.
\<close>

section \<open>World and environment\<close>

record orderWorld =
  ow_repo :: repo
  ow_pay :: payDb
  ow_seats :: seatWorld
  ow_rush :: redis

datatype lockResult = LockFree | LockBusy | LockError goerr

text \<open>
  What a handler meets: routing, clock readings, the outcome of the lock, and per call site the
  faults of transactions, queries and remote calls.
\<close>

record orderEnv =
  oe_Map :: RouteMap
  oe_Sec :: int
  oe_Now :: "nat \<Rightarrow> int"
  oe_Lock :: lockResult
  oe_Tx :: "nat \<Rightarrow> txfault"
  oe_Query :: "nat \<Rightarrow> goerr option"
  oe_Format :: "int \<Rightarrow> string"
  oe_Parse :: "string \<Rightarrow> int option"
  oe_PayRpc :: "nat \<Rightarrow> fault"
  oe_PayEnv :: "nat \<Rightarrow> payEnv"
  oe_ProgramRpc :: fault
  oe_FreezeEnv :: freezeEnv
  oe_SeatStore :: SeatStockStore
  oe_Unmarshal :: "string \<Rightarrow> refundRule option"
  oe_FindShow :: "int \<Rightarrow> (int \<times> gotime) res"
  oe_FindProgram :: "int \<Rightarrow> programRefundInfo res"
  oe_EvaluateRpc :: "goerr option"
  oe_Store :: AttemptStoreT
  oe_RushTime :: int
  oe_RushRead :: "goerr option"
  oe_RushFault :: fault

text \<open>
  An error that crosses the network: a gRPC status arrives as it is, a deadline as a deadline, any
  other error as a status of unknown code, which no check of the client recognises.
\<close>

definition overWire :: "goerr \<Rightarrow> goerr" where
  "overWire e = (if isStatus e \<or> e = Timeout then e else Other ''rpc error'')"

definition wireRes :: "'a res \<Rightarrow> 'a res" where
  "wireRes r = (case r of Inl e \<Rightarrow> Inl (overWire e) | Inr a \<Rightarrow> Inr a)"

definition isNotFound :: "goerr \<Rightarrow> bool" where
  "isNotFound e = (case e of Status c _ \<Rightarrow> c = CNotFound | StatusMsg c _ \<Rightarrow> c = CNotFound | _ \<Rightarrow> False)"

definition transact :: "orderEnv \<Rightarrow> nat \<Rightarrow> int \<Rightarrow> (orderTx \<Rightarrow> 'a res \<times> orderTx) \<Rightarrow> orderWorld \<Rightarrow> 'a res \<times> orderWorld" where
  "transact env i n f w =
     (case TransactByOrderNumber (oe_Map env) (oe_Sec env) (oe_Tx env i) n f (ow_repo w) of
        (r, repo) \<Rightarrow> (r, w\<lparr>ow_repo := repo\<rparr>))"

definition payCall :: "orderEnv \<Rightarrow> nat \<Rightarrow> (payDb \<Rightarrow> 'a res \<times> payDb) \<Rightarrow> orderWorld \<Rightarrow> 'a res \<times> orderWorld" where
  "payCall env i f w = (case eval_ctx (oe_PayRpc env i) f (ow_pay w) of (r, d) \<Rightarrow> (wireRes r, w\<lparr>ow_pay := d\<rparr>))"

definition seatCall :: "orderEnv \<Rightarrow> (seatWorld \<Rightarrow> 'a res \<times> seatWorld) \<Rightarrow> orderWorld \<Rightarrow> 'a res \<times> orderWorld" where
  "seatCall env f w = (case eval_ctx (oe_ProgramRpc env) f (ow_seats w) of (r, d) \<Rightarrow> (wireRes r, w\<lparr>ow_seats := d\<rparr>))"

definition payRead :: "orderEnv \<Rightarrow> nat \<Rightarrow> (payDb \<Rightarrow> 'a res) \<Rightarrow> orderWorld \<Rightarrow> 'a res" where
  "payRead env i f w = fst (payCall env i (\<lambda>d. (f d, d)) w)"

section \<open>Helpers\<close>

definition mapOrderError :: "goerr \<Rightarrow> goerr" where
  "mapOrderError err =
     (if isStatus err then err
      else case err of
        Sentinel x \<Rightarrow>
          (if x = ErrInvalidParam then Status CInvalidArgument x
           else if x = ErrInternal then Status CInternal x
           else if x = ErrOrderNotFound \<or> x = ErrPayBillNotFound then Status CNotFound x
           else if x = ErrOrderSubmitTooFrequent \<or> x = ErrOrderOperateTooFrequent then Status CResourceExhausted x
           else if x \<in> {ErrOrderStatusInvalid, ErrOrderTicketUserInvalid, ErrOrderPurchaseLimitExceeded, ErrOrderLimitLedgerNotReady,
                         ErrOrderExpired, ErrOrderAlreadyPaid, ErrOrderRefundNotAllowed, ErrOrderRefundWindowClosed,
                         ErrSeatInventoryInsufficient} then Status CFailedPrecondition x
           else if x = ErrOrderRefundRuleInvalid then Status CInternal x
           else err)
      | _ \<Rightarrow> err)"

definition validateUserOrderReq :: "int \<Rightarrow> int \<Rightarrow> unit res" where
  "validateUserOrderReq userID orderNumber =
     (if userID \<le> 0 \<or> orderNumber \<le> 0 then Inl (Status CInvalidArgument ErrInvalidParam) else Inr ())"

definition validateUserShowTimeReq :: "int \<Rightarrow> int \<Rightarrow> unit res" where
  "validateUserShowTimeReq userID showTimeID =
     (if userID \<le> 0 \<or> showTimeID \<le> 0 then Inl (Status CInvalidArgument ErrInvalidParam) else Inr ())"

definition parseOrderTime :: "orderEnv \<Rightarrow> string \<Rightarrow> int res" where
  "parseOrderTime env value =
     (case oe_Parse env value of None \<Rightarrow> Inl (StatusMsg CInternal ''parsing time'') | Some t \<Rightarrow> Inr t)"

definition lockOrderStatusGuard :: "orderEnv \<Rightarrow> unit res" where
  "lockOrderStatusGuard env =
     (case oe_Lock env of LockFree \<Rightarrow> Inr () | LockBusy \<Rightarrow> Inl (Sentinel ErrOrderOperateTooFrequent) | LockError e \<Rightarrow> Inl e)"

definition loadOrderSnapshot :: "orderEnv \<Rightarrow> nat \<Rightarrow> int \<Rightarrow> orderWorld \<Rightarrow> DOrder res \<times> orderWorld" where
  "loadOrderSnapshot env i orderNumber w = transact env i orderNumber (loadTx orderNumber) w"

definition finalizeOrderCancel :: "orderEnv \<Rightarrow> nat \<Rightarrow> int \<Rightarrow> orderWorld \<Rightarrow> bool res \<times> orderWorld" where
  "finalizeOrderCancel env i orderNumber w = transact env i orderNumber (cancelTx (oe_Now env 0) orderNumber) w"

definition finalizeOrderPay :: "orderEnv \<Rightarrow> nat \<Rightarrow> int \<Rightarrow> int \<Rightarrow> orderWorld \<Rightarrow> unit res \<times> orderWorld" where
  "finalizeOrderPay env i orderNumber payTime w = transact env i orderNumber (payTx payTime orderNumber) w"

definition convergeOrderRefunded :: "orderEnv \<Rightarrow> nat \<Rightarrow> int \<Rightarrow> orderWorld \<Rightarrow> unit res \<times> orderWorld" where
  "convergeOrderRefunded env i orderNumber w = transact env i orderNumber (refundTx (oe_Now env 0) orderNumber) w"

definition finalizeCloseTimeoutTask ::
    "orderEnv \<Rightarrow> nat \<Rightarrow> int \<Rightarrow> int \<Rightarrow> orderWorld \<Rightarrow> (DOrder option \<times> bool \<times> int \<times> int) res \<times> orderWorld" where
  "finalizeCloseTimeoutTask env i orderNumber now w = transact env i orderNumber (closeTx now orderNumber) w"

text \<open>\<open>syncClosedRushAttempt\<close>; callers only log its error.\<close>

definition syncClosedRushAttempt :: "orderEnv \<Rightarrow> int \<Rightarrow> int \<Rightarrow> int \<Rightarrow> orderWorld \<Rightarrow> unit res \<times> orderWorld" where
  "syncClosedRushAttempt env showTimeID orderNumber now w =
     (if showTimeID \<le> 0 then (Inr (), w)
      else case (case oe_RushRead env of Some e \<Rightarrow> Inl e
                 | None \<Rightarrow> GetByShowTimeAndOrderNumber (oe_Store env) (oe_RushTime env) showTimeID orderNumber (ow_rush w)) of
        Inl e \<Rightarrow> (if e = Sentinel ErrOrderNotFound then (Inr (), w) else (Inl e, w))
      | Inr record \<Rightarrow>
        (case FinalizeClosedOrder (oe_Store env) (oe_RushTime env) now (oe_RushFault env) record (Some now) (ow_rush w) of
           (Inl e, r) \<Rightarrow> (Inl e, w\<lparr>ow_rush := r\<rparr>)
         | (Inr outcome, r) \<Rightarrow>
             ((case outcome of AttemptTransitioned \<Rightarrow> Inr () | AttemptAlreadyFailed \<Rightarrow> Inr () | _ \<Rightarrow> Inl (Sentinel ErrInternal)),
              w\<lparr>ow_rush := r\<rparr>)))"

definition mustGetPayBillForOrder :: "orderEnv \<Rightarrow> nat \<Rightarrow> int \<Rightarrow> orderWorld \<Rightarrow> GetPayBillResp res" where
  "mustGetPayBillForOrder env i orderNumber w =
     (case payRead env i (GetPayBill (oe_PayEnv env i) orderNumber) w of
        Inl e \<Rightarrow> (if isNotFound e then Inl (Sentinel ErrPayBillNotFound) else Inl e)
      | Inr resp \<Rightarrow> Inr resp)"

definition findOwnedOrder :: "orderEnv \<Rightarrow> nat \<Rightarrow> int \<Rightarrow> int \<Rightarrow> orderWorld \<Rightarrow> DOrder res" where
  "findOwnedOrder env i userID orderNumber w =
     (case FindOrderByNumber (oe_Map env) (oe_Sec env) (oe_Query env i) orderNumber (ow_repo w) of
        Inl e \<Rightarrow> (if e = ModelNotFound then Inl (Sentinel ErrOrderNotFound) else Inl e)
      | Inr order \<Rightarrow> (if od_UserId order \<noteq> userID then Inl (Sentinel ErrOrderNotFound) else Inr order))"

definition calculateRefundPercent :: "int \<Rightarrow> int \<Rightarrow> int" where
  "calculateRefundPercent orderPrice refundAmount =
     (if orderPrice \<le> 0 \<or> refundAmount \<le> 0 then 0
      else tdiv (wrap64 (wrap64 (refundAmount * 100) + tdiv orderPrice 2)) orderPrice)"

definition orderTicketSeatIDs :: "DOrderTicketUser list \<Rightarrow> int list" where
  "orderTicketSeatIDs orderTickets = map ot_SeatId (filter (\<lambda>t. \<not> ot_SeatId t \<le> 0) orderTickets)"

definition buildRefundRequestNo :: "int \<Rightarrow> string" where
  "buildRefundRequestNo orderNumber = ''refund-'' @ show_int orderNumber"

definition refundRejectReasonToError :: "string \<Rightarrow> goerr" where
  "refundRejectReasonToError reason =
     (if reason = [] then Sentinel ErrOrderRefundNotAllowed
      else if reason = ''refund stage not matched'' then Sentinel ErrOrderRefundWindowClosed
      else if reason = ''program does not permit refund'' then Sentinel ErrOrderRefundNotAllowed
      else StatusMsg CFailedPrecondition reason)"

definition compensationRefundReason :: string where
  "compensationRefundReason = ''order cancelled, late payment refunded''"

definition programOf :: "orderEnv \<Rightarrow> int \<Rightarrow> (int option \<times> int option) option" where
  "programOf env st =
     (case oe_FindShow env st of Inl _ \<Rightarrow> None | Inr (pid, _) \<Rightarrow>
     (case oe_FindProgram env pid of Inl _ \<Rightarrow> None | Inr p \<Rightarrow> Some (pg_RushSaleOpenTime p, pg_RushSaleEndTime p)))"

definition evaluateCall :: "orderEnv \<Rightarrow> int \<Rightarrow> int \<Rightarrow> EvaluateRefundRuleResp res" where
  "evaluateCall env showTimeId orderAmount =
     (case oe_EvaluateRpc env of Some e \<Rightarrow> Inl (overWire e)
      | None \<Rightarrow> wireRes (EvaluateRefundRule (oe_Unmarshal env) (oe_FindShow env) (oe_FindProgram env) (oe_Now env 5) (oe_Now env 6)
                  showTimeId orderAmount))"

section \<open>Cancelling and closing\<close>

definition cancelOrderWithLock :: "orderEnv \<Rightarrow> int \<Rightarrow> int \<Rightarrow> bool \<Rightarrow> orderWorld \<Rightarrow> bool res \<times> orderWorld" where
  "cancelOrderWithLock env orderNumber userID requireOwner w =
     (if orderNumber \<le> 0 then (Inl (Sentinel ErrInvalidParam), w)
      else case lockOrderStatusGuard env of Inl e \<Rightarrow> (Inl e, w) | Inr _ \<Rightarrow>
      (case loadOrderSnapshot env 0 orderNumber w of
         (Inl e, w1) \<Rightarrow> (Inl e, w1)
       | (Inr order, w1) \<Rightarrow>
         (if requireOwner \<and> od_UserId order \<noteq> userID then (Inl (Sentinel ErrOrderNotFound), w1)
          else if od_OrderStatus order = orderStatusCancelled
          then (Inr False, snd (syncClosedRushAttempt env (od_ShowTimeId order) (od_OrderNumber order) (oe_Now env 1) w1))
          else if od_OrderStatus order \<noteq> orderStatusUnpaid then (Inl (Sentinel ErrOrderStatusInvalid), w1)
          else case seatCall env (ReleaseSeatFreeze (oe_SeatStore env) (oe_FreezeEnv env) (od_FreezeToken order)) w1 of
            (Inl e, w2) \<Rightarrow> (Inl e, w2)
          | (Inr _, w2) \<Rightarrow>
            (case finalizeOrderCancel env 1 (od_OrderNumber order) w2 of
               (Inl e, w3) \<Rightarrow> (Inl e, w3)
             | (Inr changed, w3) \<Rightarrow>
               (if changed
                then (Inr True, snd (syncClosedRushAttempt env (od_ShowTimeId order) (od_OrderNumber order) (oe_Now env 1) w3))
                else (Inr False, w3))))))"

definition CancelOrder :: "orderEnv \<Rightarrow> int \<Rightarrow> int \<Rightarrow> orderWorld \<Rightarrow> bool res \<times> orderWorld" where
  "CancelOrder env userId orderNumber w =
     (case validateUserOrderReq userId orderNumber of Inl e \<Rightarrow> (Inl e, w) | Inr _ \<Rightarrow>
     (case cancelOrderWithLock env orderNumber userId True w of
        (Inl e, w1) \<Rightarrow> (Inl (mapOrderError e), w1)
      | (Inr _, w1) \<Rightarrow> (Inr True, w1)))"

text \<open>The failures of the synchronisation and of the release are only logged.\<close>

definition CloseExpiredOrder :: "orderEnv \<Rightarrow> int \<Rightarrow> orderWorld \<Rightarrow> bool res \<times> orderWorld" where
  "CloseExpiredOrder env orderNumber w =
     (if orderNumber \<le> 0 then (Inl (mapOrderError (Sentinel ErrInvalidParam)), w)
      else case lockOrderStatusGuard env of Inl e \<Rightarrow> (Inl (mapOrderError e), w) | Inr _ \<Rightarrow>
      (case finalizeCloseTimeoutTask env 0 orderNumber (oe_Now env 0) w of
         (Inl e, w1) \<Rightarrow> (if e = Sentinel ErrOrderStatusInvalid then (Inr True, w1) else (Inl (mapOrderError e), w1))
       | (Inr (snapshot, changed, _, _), w1) \<Rightarrow>
         (case snapshot of
            None \<Rightarrow> (Inr True, w1)
          | Some order \<Rightarrow>
            (if \<not> changed then (Inr True, w1)
             else
               let w2 = snd (syncClosedRushAttempt env (od_ShowTimeId order) (od_OrderNumber order) (oe_Now env 1) w1) in
               (Inr True, snd (seatCall env (ReleaseSeatFreeze (oe_SeatStore env) (oe_FreezeEnv env) (od_FreezeToken order)) w2))))))"

definition normalizeCloseExpiredOrderSlotWindow :: "int \<Rightarrow> int \<Rightarrow> int \<times> int" where
  "normalizeCloseExpiredOrderSlotWindow start cnt = (if start < 0 then 0 else start, if cnt \<le> 0 then 1 else cnt)"

text \<open>The batch job: \<open>envs\<close> gives every cancellation its own environment.\<close>

fun closeBatch :: "(int \<Rightarrow> orderEnv) \<Rightarrow> DOrder list \<Rightarrow> int \<Rightarrow> orderWorld \<Rightarrow> int res \<times> orderWorld" where
  "closeBatch envs [] closed w = (Inr closed, w)"
| "closeBatch envs (order # orders) closed w =
     (case cancelOrderWithLock (envs (od_OrderNumber order)) (od_OrderNumber order) 0 False w of
        (Inl e, w1) \<Rightarrow> (Inl (mapOrderError e), w1)
      | (Inr changed, w1) \<Rightarrow> closeBatch envs orders (if changed then closed + 1 else closed) w1)"

fun closeSlots :: "orderEnv \<Rightarrow> (int \<Rightarrow> orderEnv) \<Rightarrow> int \<Rightarrow> int list \<Rightarrow> int \<Rightarrow> int \<Rightarrow> orderWorld \<Rightarrow> int res \<times> orderWorld" where
  "closeSlots env envs now [] remaining closed w = (Inr closed, w)"
| "closeSlots env envs now (slot # slots) remaining closed w =
     (if remaining \<le> 0 then (Inr closed, w)
      else case FindExpiredUnpaidBySlot (oe_Map env) (oe_Sec env) (oe_Query env 0) slot now remaining (ow_repo w) of
        Inl e \<Rightarrow> (Inl e, w)
      | Inr orders \<Rightarrow>
        (case closeBatch envs orders closed w of
           (Inl e, w1) \<Rightarrow> (Inl e, w1)
         | (Inr closed1, w1) \<Rightarrow> closeSlots env envs now slots (remaining - int (length orders)) closed1 w1))"

definition CloseExpiredOrders :: "orderEnv \<Rightarrow> (int \<Rightarrow> orderEnv) \<Rightarrow> int \<Rightarrow> int \<Rightarrow> int \<Rightarrow> orderWorld \<Rightarrow> int res \<times> orderWorld" where
  "CloseExpiredOrders env envs limit slotStart slotCount w =
     (case normalizeCloseExpiredOrderSlotWindow slotStart slotCount of (start, cnt) \<Rightarrow>
        closeSlots env envs (oe_Now env 0) [start..start + cnt - 1] (if limit \<le> 0 then 100 else limit) 0 w)"

section \<open>Paying\<close>

record PayOrderResp =
  po_OrderNumber :: int
  po_OrderStatus :: int
  po_PayBillNo :: int
  po_PayStatus :: int
  po_PayTime :: string

definition mapPayOrderResp :: "DOrder \<Rightarrow> GetPayBillResp \<Rightarrow> PayOrderResp" where
  "mapPayOrderResp order payBill = \<lparr>po_OrderNumber = od_OrderNumber order, po_OrderStatus = od_OrderStatus order,
     po_PayBillNo = gb_PayBillNo payBill, po_PayStatus = gb_PayStatus payBill, po_PayTime = gb_PayTime payBill\<rparr>"

definition PayOrder :: "orderEnv \<Rightarrow> int \<Rightarrow> int \<Rightarrow> string \<Rightarrow> string \<Rightarrow> orderWorld \<Rightarrow> PayOrderResp res \<times> orderWorld" where
  "PayOrder env userId orderNumber reqSubject channel w =
     (let fail = (\<lambda>e w. (Inl (mapOrderError e), w)) in
      case validateUserOrderReq userId orderNumber of Inl e \<Rightarrow> (Inl e, w) | Inr _ \<Rightarrow>
      (case lockOrderStatusGuard env of Inl e \<Rightarrow> fail e w | Inr _ \<Rightarrow>
      (case loadOrderSnapshot env 0 orderNumber w of
         (Inl e, w1) \<Rightarrow> fail e w1
       | (Inr order, w1) \<Rightarrow>
         (if od_UserId order \<noteq> userId then fail (Sentinel ErrOrderNotFound) w1
          else if od_OrderStatus order = orderStatusPaid
          then (case mustGetPayBillForOrder env 0 (od_OrderNumber order) w1 of
                  Inl e \<Rightarrow> fail e w1 | Inr payBill \<Rightarrow> (Inr (mapPayOrderResp order payBill), w1))
          else if od_OrderStatus order \<noteq> orderStatusUnpaid then fail (Sentinel ErrOrderStatusInvalid) w1
          else if od_OrderExpireTime order \<le> oe_Now env 0 then fail (Sentinel ErrOrderExpired) w1
          else
            let subject = (if reqSubject = [] then od_ProgramTitle order else reqSubject) in
            case payCall env 1 (MockPay (oe_PayEnv env 1) \<lparr>mp_OrderNumber = od_OrderNumber order, mp_UserId = od_UserId order,
                   mp_Subject = subject, mp_Channel = channel, mp_Amount = od_OrderPrice order\<rparr>) w1 of
              (Inl e, w2) \<Rightarrow> fail e w2
            | (Inr mockResp, w2) \<Rightarrow>
            (case seatCall env (ConfirmSeatFreeze (oe_SeatStore env) (oe_FreezeEnv env) (od_FreezeToken order)) w2 of
              (Inl e, w3) \<Rightarrow> fail e w3
            | (Inr _, w3) \<Rightarrow>
            (case (if mr_PayTime mockResp = [] then Inr (oe_Now env 1) else parseOrderTime env (mr_PayTime mockResp)) of
              Inl e \<Rightarrow> fail e w3
            | Inr payTime \<Rightarrow>
            (case finalizeOrderPay env 1 (od_OrderNumber order) payTime w3 of
              (Inl e, w4) \<Rightarrow> fail e w4
            | (Inr _, w4) \<Rightarrow>
              (Inr \<lparr>po_OrderNumber = od_OrderNumber order, po_OrderStatus = orderStatusPaid, po_PayBillNo = mr_PayBillNo mockResp,
                 po_PayStatus = mr_PayStatus mockResp, po_PayTime = mr_PayTime mockResp\<rparr>, w4))))))))"

definition mapPayCheckResp :: "DOrder \<Rightarrow> GetPayBillResp option \<Rightarrow> PayOrderResp" where
  "mapPayCheckResp order payBill =
     (case payBill of
        None \<Rightarrow> \<lparr>po_OrderNumber = od_OrderNumber order, po_OrderStatus = od_OrderStatus order, po_PayBillNo = 0, po_PayStatus = 0, po_PayTime = []\<rparr>
      | Some b \<Rightarrow> \<lparr>po_OrderNumber = od_OrderNumber order, po_OrderStatus = od_OrderStatus order, po_PayBillNo = gb_PayBillNo b,
                 po_PayStatus = gb_PayStatus b, po_PayTime = gb_PayTime b\<rparr>)"

definition applyRefundPayStatus :: "GetPayBillResp \<Rightarrow> RefundResp \<Rightarrow> GetPayBillResp" where
  "applyRefundPayStatus payBill refundResp =
     (if 0 < rp_PayStatus refundResp then payBill\<lparr>gb_PayStatus := rp_PayStatus refundResp\<rparr> else payBill)"

definition PayCheck :: "orderEnv \<Rightarrow> int \<Rightarrow> int \<Rightarrow> orderWorld \<Rightarrow> PayOrderResp res \<times> orderWorld" where
  "PayCheck env userId orderNumber w =
     (let fail = (\<lambda>e w. (Inl (mapOrderError e), w)) in
      case validateUserOrderReq userId orderNumber of Inl e \<Rightarrow> (Inl e, w) | Inr _ \<Rightarrow>
      (case findOwnedOrder env 0 userId orderNumber w of
         Inl e \<Rightarrow> fail e w
       | Inr order \<Rightarrow>
         (if od_OrderStatus order \<noteq> orderStatusPaid \<and> od_OrderStatus order \<noteq> orderStatusRefunded
             \<and> od_OrderStatus order \<noteq> orderStatusCancelled
          then (Inr (mapPayCheckResp order None), w)
          else if od_OrderStatus order = orderStatusCancelled then
            (case payRead env 0 (GetPayBill (oe_PayEnv env 0) (od_OrderNumber order)) w of
               Inl e \<Rightarrow> (if isNotFound e then (Inr (mapPayCheckResp order None), w) else fail e w)
             | Inr payBill \<Rightarrow>
               (if gb_PayStatus payBill = payStatusPaid then
                  (case payCall env 1 (Refund (oe_PayEnv env 1) \<lparr>rr_OrderNumber = od_OrderNumber order, rr_UserId = userId,
                          rr_Amount = od_OrderPrice order, rr_Reason = compensationRefundReason\<rparr>) w of
                     (Inl e, w1) \<Rightarrow> fail e w1
                   | (Inr refundResp, w1) \<Rightarrow>
                     (case convergeOrderRefunded env 0 (od_OrderNumber order) w1 of
                        (Inl e, w2) \<Rightarrow> fail e w2
                      | (Inr _, w2) \<Rightarrow>
                        (Inr (mapPayCheckResp (order\<lparr>od_OrderStatus := orderStatusRefunded\<rparr>) (Some (applyRefundPayStatus payBill refundResp))), w2)))
                else if gb_PayStatus payBill = payStatusRefunded then
                  (case convergeOrderRefunded env 0 (od_OrderNumber order) w of
                     (Inl e, w2) \<Rightarrow> fail e w2
                   | (Inr _, w2) \<Rightarrow> (Inr (mapPayCheckResp (order\<lparr>od_OrderStatus := orderStatusRefunded\<rparr>) (Some payBill)), w2))
                else (Inr (mapPayCheckResp order (Some payBill)), w)))
          else
            (case mustGetPayBillForOrder env 0 (od_OrderNumber order) w of
               Inl e \<Rightarrow> fail e w
             | Inr payBill \<Rightarrow> (Inr (mapPayCheckResp order (Some payBill)), w)))))"

section \<open>Refunding\<close>

record RefundOrderResp =
  ro_OrderNumber :: int
  ro_OrderStatus :: int
  ro_RefundAmount :: int
  ro_RefundPercent :: int
  ro_RefundBillNo :: int
  ro_RefundTime :: string

definition mapRefundOrderResp :: "DOrder \<Rightarrow> RefundResp \<Rightarrow> int \<Rightarrow> RefundOrderResp" where
  "mapRefundOrderResp order refundBill refundPercent = \<lparr>ro_OrderNumber = od_OrderNumber order, ro_OrderStatus = orderStatusRefunded,
     ro_RefundAmount = rp_RefundAmount refundBill, ro_RefundPercent = refundPercent, ro_RefundBillNo = rp_RefundBillNo refundBill,
     ro_RefundTime = rp_RefundTime refundBill\<rparr>"

definition refundCall :: "orderEnv \<Rightarrow> DOrder \<Rightarrow> int \<Rightarrow> int \<Rightarrow> string \<Rightarrow> orderWorld \<Rightarrow> RefundResp res \<times> orderWorld" where
  "refundCall env order userId amount reason w =
     payCall env 1 (Refund (oe_PayEnv env 1) \<lparr>rr_OrderNumber = od_OrderNumber order, rr_UserId = userId, rr_Amount = amount, rr_Reason = reason\<rparr>) w"

definition refundOrReuse ::
    "orderEnv \<Rightarrow> DOrder \<Rightarrow> GetPayBillResp \<Rightarrow> int \<Rightarrow> string \<Rightarrow> orderWorld \<Rightarrow> (RefundResp \<times> int) res \<times> orderWorld" where
  "refundOrReuse env order payBill userId reason w =
     (if gb_PayStatus payBill = payStatusRefunded then
        (case refundCall env order userId (od_OrderPrice order) reason w of
           (Inl e, w1) \<Rightarrow> (Inl e, w1)
         | (Inr refundResp, w1) \<Rightarrow> (Inr (refundResp, calculateRefundPercent (od_OrderPrice order) (rp_RefundAmount refundResp)), w1))
      else if gb_PayStatus payBill \<noteq> payStatusPaid then (Inl (Sentinel ErrOrderStatusInvalid), w)
      else case evaluateCall env (od_ShowTimeId order) (od_OrderPrice order) of
        Inl e \<Rightarrow> (Inl e, w)
      | Inr evaluateResp \<Rightarrow>
        (if \<not> er_AllowRefund evaluateResp then (Inl (refundRejectReasonToError (er_RejectReason evaluateResp)), w)
         else case refundCall env order userId (er_RefundAmount evaluateResp) reason w of
           (Inl e, w1) \<Rightarrow> (Inl e, w1)
         | (Inr refundResp, w1) \<Rightarrow> (Inr (refundResp, er_RefundPercent evaluateResp), w1)))"

definition RefundOrder :: "orderEnv \<Rightarrow> int \<Rightarrow> int \<Rightarrow> string \<Rightarrow> orderWorld \<Rightarrow> RefundOrderResp res \<times> orderWorld" where
  "RefundOrder env userId orderNumber reason w =
     (let fail = (\<lambda>e w. (Inl (mapOrderError e), w)) in
      case validateUserOrderReq userId orderNumber of Inl e \<Rightarrow> (Inl e, w) | Inr _ \<Rightarrow>
      (case findOwnedOrder env 0 userId orderNumber w of Inl e \<Rightarrow> fail e w | Inr order \<Rightarrow>
      (case FindOrderTicketsByNumber (oe_Map env) (oe_Sec env) (oe_Query env 1) orderNumber (ow_repo w) of Inl e \<Rightarrow> fail e w | Inr orderTickets \<Rightarrow>
        (if od_OrderStatus order = orderStatusRefunded then
           (case refundCall env order userId (od_OrderPrice order) reason w of
              (Inl e, w1) \<Rightarrow> fail e w1
            | (Inr refundResp, w1) \<Rightarrow>
              (Inr (mapRefundOrderResp order refundResp (calculateRefundPercent (od_OrderPrice order) (rp_RefundAmount refundResp))), w1))
         else if od_OrderStatus order \<noteq> orderStatusPaid then fail (Sentinel ErrOrderStatusInvalid) w
         else case mustGetPayBillForOrder env 0 (od_OrderNumber order) w of Inl e \<Rightarrow> fail e w | Inr payBill \<Rightarrow>
         (case refundOrReuse env order payBill userId reason w of
            (Inl e, w1) \<Rightarrow> fail e w1
          | (Inr (refundResp, refundPercent), w1) \<Rightarrow>
            (case (if orderTicketSeatIDs orderTickets \<noteq> []
                   then seatCall env (ReleaseSoldSeats (oe_FreezeEnv env) (programOf env) (od_ShowTimeId order)
                          (orderTicketSeatIDs orderTickets) (buildRefundRequestNo (od_OrderNumber order))) w1
                   else (Inr True, w1)) of
               (Inl e, w2) \<Rightarrow> fail e w2
             | (Inr _, w2) \<Rightarrow>
               (case convergeOrderRefunded env 0 (od_OrderNumber order) w2 of
                  (Inl e, w3) \<Rightarrow> fail e w3
                | (Inr _, w3) \<Rightarrow> (Inr (mapRefundOrderResp order refundResp refundPercent), w3))))))))"

record PreviewRefundOrderResp =
  pv_OrderNumber :: int
  pv_AllowRefund :: bool
  pv_RefundAmount :: int
  pv_RefundPercent :: int
  pv_RejectReason :: string

definition reasonRefunded :: string where "reasonRefunded = ''order already refunded''"
definition reasonNotRefundable :: string where "reasonNotRefundable = ''order cannot be refunded''"

definition previewReject :: "DOrder \<Rightarrow> string \<Rightarrow> PreviewRefundOrderResp" where
  "previewReject order reason = \<lparr>pv_OrderNumber = od_OrderNumber order, pv_AllowRefund = False, pv_RefundAmount = 0,
     pv_RefundPercent = 0, pv_RejectReason = reason\<rparr>"

definition previewRefundOrder :: "orderEnv \<Rightarrow> DOrder \<Rightarrow> orderWorld \<Rightarrow> PreviewRefundOrderResp res" where
  "previewRefundOrder env order w =
     (if od_OrderStatus order = orderStatusRefunded then Inr (previewReject order reasonRefunded)
      else if od_OrderStatus order \<noteq> orderStatusPaid then Inr (previewReject order reasonNotRefundable)
      else case mustGetPayBillForOrder env 0 (od_OrderNumber order) w of Inl e \<Rightarrow> Inl e | Inr payBill \<Rightarrow>
        (if gb_PayStatus payBill = payStatusRefunded then Inr (previewReject order reasonRefunded)
         else if gb_PayStatus payBill \<noteq> payStatusPaid then Inr (previewReject order reasonNotRefundable)
         else case evaluateCall env (od_ShowTimeId order) (od_OrderPrice order) of Inl e \<Rightarrow> Inl e | Inr evaluateResp \<Rightarrow>
           (if \<not> er_AllowRefund evaluateResp
            then Inr (previewReject order (if er_RejectReason evaluateResp = [] then reasonNotRefundable else er_RejectReason evaluateResp))
            else Inr \<lparr>pv_OrderNumber = od_OrderNumber order, pv_AllowRefund = True, pv_RefundAmount = er_RefundAmount evaluateResp,
                   pv_RefundPercent = er_RefundPercent evaluateResp, pv_RejectReason = []\<rparr>)))"

definition PreviewRefundOrder :: "orderEnv \<Rightarrow> int \<Rightarrow> int \<Rightarrow> orderWorld \<Rightarrow> PreviewRefundOrderResp res" where
  "PreviewRefundOrder env userId orderNumber w =
     (case validateUserOrderReq userId orderNumber of Inl e \<Rightarrow> Inl e | Inr _ \<Rightarrow>
     (case findOwnedOrder env 0 userId orderNumber w of Inl e \<Rightarrow> Inl (mapOrderError e) | Inr order \<Rightarrow>
     (case previewRefundOrder env order w of Inl e \<Rightarrow> Inl (mapOrderError e) | Inr resp \<Rightarrow> Inr resp)))"

section \<open>Reading orders\<close>

definition formatOrderTime :: "orderEnv \<Rightarrow> gotime \<Rightarrow> string" where
  "formatOrderTime env value = (case value of None \<Rightarrow> [] | Some t \<Rightarrow> oe_Format env t)"

record OrderListInfo =
  li_OrderNumber :: int
  li_ProgramId :: int
  li_ShowTimeId :: int
  li_ProgramTitle :: string
  li_ProgramItemPicture :: string
  li_ProgramPlace :: string
  li_ProgramShowTime :: string
  li_TicketCount :: int
  li_OrderPrice :: int
  li_OrderStatus :: int
  li_OrderExpireTime :: string
  li_CreateOrderTime :: string
  li_CancelOrderTime :: string

definition mapOrderSummary :: "orderEnv \<Rightarrow> DOrder \<Rightarrow> OrderListInfo" where
  "mapOrderSummary env order = \<lparr>li_OrderNumber = od_OrderNumber order, li_ProgramId = od_ProgramId order,
     li_ShowTimeId = od_ShowTimeId order, li_ProgramTitle = od_ProgramTitle order, li_ProgramItemPicture = od_ProgramItemPicture order,
     li_ProgramPlace = od_ProgramPlace order, li_ProgramShowTime = formatOrderTime env (Some (od_ProgramShowTime order)),
     li_TicketCount = od_TicketCount order, li_OrderPrice = od_OrderPrice order, li_OrderStatus = od_OrderStatus order,
     li_OrderExpireTime = formatOrderTime env (Some (od_OrderExpireTime order)),
     li_CreateOrderTime = formatOrderTime env (Some (od_CreateOrderTime order)),
     li_CancelOrderTime = formatOrderTime env (od_CancelOrderTime order)\<rparr>"

record OrderTicketInfo =
  ti_TicketUserId :: int
  ti_TicketUserName :: string
  ti_TicketUserIdNumber :: string
  ti_TicketCategoryId :: int
  ti_TicketCategoryName :: string
  ti_TicketPrice :: int
  ti_SeatId :: int
  ti_SeatRow :: int
  ti_SeatCol :: int
  ti_SeatPrice :: int

record OrderDetailInfo =
  di_Summary :: OrderListInfo
  di_ProgramPermitChooseSeat :: int
  di_UserId :: int
  di_DistributionMode :: string
  di_TakeTicketMode :: string
  di_FreezeToken :: string
  di_OrderTicketInfoVoList :: "OrderTicketInfo list"

text \<open>The detail has the fields of the summary and the ones listed here.\<close>

definition mapOrderDetail :: "orderEnv \<Rightarrow> DOrder \<Rightarrow> DOrderTicketUser list \<Rightarrow> OrderDetailInfo" where
  "mapOrderDetail env order details = \<lparr>di_Summary = mapOrderSummary env order,
     di_ProgramPermitChooseSeat = od_ProgramPermitChooseSeat order, di_UserId = od_UserId order,
     di_DistributionMode = od_DistributionMode order, di_TakeTicketMode = od_TakeTicketMode order, di_FreezeToken = od_FreezeToken order,
     di_OrderTicketInfoVoList = map (\<lambda>t. \<lparr>ti_TicketUserId = ot_TicketUserId t, ti_TicketUserName = ot_TicketUserName t,
       ti_TicketUserIdNumber = ot_TicketUserIdNumber t, ti_TicketCategoryId = ot_TicketCategoryId t,
       ti_TicketCategoryName = ot_TicketCategoryName t, ti_TicketPrice = ot_TicketPrice t, ti_SeatId = ot_SeatId t,
       ti_SeatRow = ot_SeatRow t, ti_SeatCol = ot_SeatCol t, ti_SeatPrice = ot_SeatPrice t\<rparr>) details\<rparr>"

definition GetOrder :: "orderEnv \<Rightarrow> int \<Rightarrow> int \<Rightarrow> orderWorld \<Rightarrow> OrderDetailInfo res" where
  "GetOrder env userId orderNumber w =
     (case validateUserOrderReq userId orderNumber of Inl e \<Rightarrow> Inl e | Inr _ \<Rightarrow>
     (case FindOrderByNumber (oe_Map env) (oe_Sec env) (oe_Query env 0) orderNumber (ow_repo w) of
        Inl e \<Rightarrow> (if e = ModelNotFound then Inl (mapOrderError (Sentinel ErrOrderNotFound)) else Inl e)
      | Inr order \<Rightarrow>
        (if od_UserId order \<noteq> userId then Inl (mapOrderError (Sentinel ErrOrderNotFound))
         else case FindOrderTicketsByNumber (oe_Map env) (oe_Sec env) (oe_Query env 1) orderNumber (ow_repo w) of
           Inl e \<Rightarrow> Inl e | Inr details \<Rightarrow> Inr (mapOrderDetail env order details))))"

record ListOrdersResp =
  lo_PageNum :: int
  lo_PageSize :: int
  lo_TotalSize :: int
  lo_List :: "OrderListInfo list"

definition ListOrders :: "orderEnv \<Rightarrow> int \<Rightarrow> int \<Rightarrow> int \<Rightarrow> int \<Rightarrow> orderWorld \<Rightarrow> ListOrdersResp res" where
  "ListOrders env userId orderStatus pageNumber0 pageSize0 w =
     (if userId \<le> 0 then Inl (mapOrderError (Sentinel ErrInvalidParam))
      else
        let pageNumber = (if pageNumber0 \<le> 0 then 1 else pageNumber0); pageSize = (if pageSize0 \<le> 0 then 10 else pageSize0) in
        case FindOrderPageByUser (oe_Map env) (oe_Query env 0) userId orderStatus pageNumber pageSize (ow_repo w) of
          Inl e \<Rightarrow> Inl e
        | Inr (orders, cnt) \<Rightarrow> Inr \<lparr>lo_PageNum = pageNumber, lo_PageSize = pageSize, lo_TotalSize = cnt,
            lo_List = map (mapOrderSummary env) orders\<rparr>)"

definition deriveTicketStatus :: "DOrder \<Rightarrow> DOrderTicketUser list \<Rightarrow> int" where
  "deriveTicketStatus order details =
     (case details of [] \<Rightarrow> od_OrderStatus order
      | d # ds \<Rightarrow> (if \<exists>x \<in> set ds. ot_OrderStatus x \<noteq> ot_OrderStatus d then od_OrderStatus order else ot_OrderStatus d))"

definition derivePayStatus :: "orderEnv \<Rightarrow> DOrder \<Rightarrow> orderWorld \<Rightarrow> int res" where
  "derivePayStatus env order w =
     (if od_OrderStatus order \<noteq> orderStatusPaid \<and> od_OrderStatus order \<noteq> orderStatusRefunded then Inr 0
      else case mustGetPayBillForOrder env 1 (od_OrderNumber order) w of
        Inl e \<Rightarrow> (if od_OrderStatus order = orderStatusRefunded \<and> e = Sentinel ErrPayBillNotFound then Inr payStatusRefunded else Inl e)
      | Inr payBill \<Rightarrow> Inr (gb_PayStatus payBill))"

record OrderServiceViewResp =
  sv_OrderNumber :: int
  sv_ProgramId :: int
  sv_ShowTimeId :: int
  sv_OrderStatus :: int
  sv_PayStatus :: int
  sv_TicketStatus :: int
  sv_ProgramTitle :: string
  sv_ProgramShowTime :: string
  sv_TicketCount :: int
  sv_OrderPrice :: int
  sv_CanRefund :: bool
  sv_RefundBlockedReason :: string

definition mapOrderServiceView :: "orderEnv \<Rightarrow> DOrder \<Rightarrow> int \<Rightarrow> int \<Rightarrow> PreviewRefundOrderResp \<Rightarrow> OrderServiceViewResp" where
  "mapOrderServiceView env order payStatus ticketStatus preview = \<lparr>sv_OrderNumber = od_OrderNumber order, sv_ProgramId = od_ProgramId order,
     sv_ShowTimeId = od_ShowTimeId order, sv_OrderStatus = od_OrderStatus order, sv_PayStatus = payStatus, sv_TicketStatus = ticketStatus,
     sv_ProgramTitle = od_ProgramTitle order, sv_ProgramShowTime = formatOrderTime env (Some (od_ProgramShowTime order)),
     sv_TicketCount = od_TicketCount order, sv_OrderPrice = od_OrderPrice order, sv_CanRefund = pv_AllowRefund preview,
     sv_RefundBlockedReason = pv_RejectReason preview\<rparr>"

definition GetOrderServiceView :: "orderEnv \<Rightarrow> int \<Rightarrow> int \<Rightarrow> orderWorld \<Rightarrow> OrderServiceViewResp res" where
  "GetOrderServiceView env userId orderNumber w =
     (case validateUserOrderReq userId orderNumber of Inl e \<Rightarrow> Inl e | Inr _ \<Rightarrow>
     (case findOwnedOrder env 0 userId orderNumber w of Inl e \<Rightarrow> Inl (mapOrderError e) | Inr order \<Rightarrow>
     (case (case FindOrderTicketsByNumber (oe_Map env) (oe_Sec env) (oe_Query env 1) orderNumber (ow_repo w) of
              Inl e \<Rightarrow> (if e = ModelNotFound then Inr [] else Inl e) | Inr details \<Rightarrow> Inr details) of
        Inl e \<Rightarrow> Inl (mapOrderError e)
      | Inr details \<Rightarrow>
     (case derivePayStatus env order w of Inl e \<Rightarrow> Inl (mapOrderError e) | Inr payStatus \<Rightarrow>
     (case previewRefundOrder env order w of Inl e \<Rightarrow> Inl (mapOrderError e) | Inr preview \<Rightarrow>
        Inr (mapOrderServiceView env order payStatus (deriveTicketStatus order details) preview))))))"

end
