(* ===== verification/OrderCreate.thy ===== *)
theory OrderCreate
  imports OrderLogic
begin

text \<open>
  Creating an order: the purchase token of \<open>internal/rush/purchase_token.go\<close> and the handler that
  issues it, \<open>CreateOrder\<close>, which admits the attempt and sends an event, the consumer of the events
  (\<open>create_order_consumer_logic.go\<close>), which freezes seats and writes the order, and the handlers that
  report the progress. JSON, base64 and the message authentication code are arguments, as are the
  replies of the catalogue and of the user service.
\<close>

section \<open>Events\<close>

record ProgramSnapshot =
  ps_Title :: string
  ps_ItemPicture :: string
  ps_Place :: string
  ps_ShowTime :: string
  ps_PermitChooseSeat :: int

record TicketCategorySnapshot =
  cs_ID :: int
  cs_Name :: string
  cs_Price :: int

record TicketUserSnapshot =
  us_TicketUserID :: int
  us_Name :: string
  us_IDNumber :: string

record SeatSnapshot =
  ss_SeatID :: int
  ss_RowCode :: int
  ss_ColCode :: int
  ss_Price :: int

record OrderCreateEvent =
  ev_EventID :: string
  ev_Version :: string
  ev_OrderNumber :: int
  ev_RequestNo :: string
  ev_OccurredAt :: string
  ev_UserID :: int
  ev_ProgramID :: int
  ev_ShowTimeID :: int
  ev_TicketCategoryID :: int
  ev_TicketUserIDs :: "int list"
  ev_TicketCount :: int
  ev_DistributionMode :: string
  ev_TakeTicketMode :: string
  ev_SaleWindowEndAt :: string
  ev_ShowEndAt :: string
  ev_FreezeToken :: string
  ev_FreezeExpireTime :: string
  ev_ProgramSnapshot :: ProgramSnapshot
  ev_TicketCategorySnapshot :: TicketCategorySnapshot
  ev_TicketUserSnapshot :: "TicketUserSnapshot list"
  ev_SeatSnapshot :: "SeatSnapshot list"

definition PartitionKey :: "OrderCreateEvent \<Rightarrow> string" where
  "PartitionKey e = show_int (ev_OrderNumber e)"

text \<open>Replies of the catalogue and of the user service, as far as they are read here.\<close>

record PreorderTicketCategory =
  pt_Id :: int
  pt_Introduce :: string
  pt_Price :: int
  pt_AdmissionQuota :: int

record PreorderInfo =
  pi_ProgramId :: int
  pi_ShowTimeId :: int
  pi_Title :: string
  pi_ItemPicture :: string
  pi_Place :: string
  pi_ShowTime :: string
  pi_RushSaleEndTime :: string
  pi_PermitChooseSeat :: int
  pi_PerOrderLimit :: int
  pi_PerAccountLimit :: int
  pi_TicketCategories :: "PreorderTicketCategory list"

record TicketUserInfo =
  tu_Id :: int
  tu_UserId :: int
  tu_RelName :: string
  tu_IdNumber :: string

section \<open>Purchase token\<close>

record PurchaseTokenClaims =
  pc_OrderNumber :: int
  pc_UserID :: int
  pc_ProgramID :: int
  pc_ShowTimeID :: int
  pc_TicketCategoryID :: int
  pc_TicketUserIDs :: "int list"
  pc_TicketCount :: int
  pc_SaleWindowEndAt :: int
  pc_ShowEndAt :: int
  pc_DistributionMode :: string
  pc_TakeTicketMode :: string
  pc_ExpireAt :: int

text \<open>The codec: its time to live, the keyed signature and the codecs of the standard library.\<close>

record PurchaseTokenCodec =
  cd_TTL :: int
  cd_Sign :: "string \<Rightarrow> string"
  cd_Marshal :: "PurchaseTokenClaims \<Rightarrow> string"
  cd_Unmarshal :: "string \<Rightarrow> PurchaseTokenClaims option"
  cd_Encode :: "string \<Rightarrow> string"
  cd_Decode :: "string \<Rightarrow> string option"

definition ErrInvalidPurchaseToken :: goerr where "ErrInvalidPurchaseToken = Other ''invalid purchase token''"
definition ErrExpiredPurchaseToken :: goerr where "ErrExpiredPurchaseToken = Other ''expired purchase token''"

definition purchaseTokenVersion :: string where "purchaseTokenVersion = ''v1''"

text \<open>Arguments of the constructor: the keyed signature is the one of the configured secret.\<close>

definition NewPurchaseTokenCodec :: "(string \<Rightarrow> string \<Rightarrow> string) \<Rightarrow> PurchaseTokenCodec \<Rightarrow> string \<Rightarrow> int \<Rightarrow> PurchaseTokenCodec res" where
  "NewPurchaseTokenCodec hmac lib secret ttl =
     (if trim_space secret = [] \<or> ttl \<le> 0 then Inl ErrInvalidPurchaseToken
      else Inr (lib\<lparr>cd_TTL := ttl, cd_Sign := hmac secret\<rparr>))"

definition normalizeClaims :: "PurchaseTokenCodec \<Rightarrow> int \<Rightarrow> PurchaseTokenClaims \<Rightarrow> PurchaseTokenClaims res" where
  "normalizeClaims c now claims =
     (if pc_OrderNumber claims \<le> 0 \<or> pc_UserID claims \<le> 0 \<or> pc_ProgramID claims \<le> 0 \<or> pc_TicketCategoryID claims \<le> 0
      then Inl ErrInvalidPurchaseToken
      else
        let c1 = (if pc_ShowTimeID claims \<le> 0 then claims\<lparr>pc_ShowTimeID := pc_ProgramID claims\<rparr> else claims) in
        if pc_TicketUserIDs c1 = [] then Inl ErrInvalidPurchaseToken
        else
          let c2 = (if pc_TicketCount c1 = 0 then c1\<lparr>pc_TicketCount := int (length (pc_TicketUserIDs c1))\<rparr> else c1) in
          if pc_TicketCount c2 \<noteq> int (length (pc_TicketUserIDs c2)) then Inl ErrInvalidPurchaseToken
          else
            let c3 = (if pc_ExpireAt c2 = 0 then c2\<lparr>pc_ExpireAt := unix_sec (now + cd_TTL c)\<rparr> else c2);
                c4 = (if pc_SaleWindowEndAt c3 = 0 then c3\<lparr>pc_SaleWindowEndAt := pc_ExpireAt c3\<rparr> else c3);
                c5 = (if pc_ShowEndAt c4 = 0 then c4\<lparr>pc_ShowEndAt := pc_SaleWindowEndAt c4\<rparr> else c4)
            in Inr c5)"

definition IssueToken :: "PurchaseTokenCodec \<Rightarrow> int \<Rightarrow> PurchaseTokenClaims \<Rightarrow> string res" where
  "IssueToken c now claims =
     (case normalizeClaims c now claims of
        Inl e \<Rightarrow> Inl e
      | Inr normalized \<Rightarrow>
          (let payload = cd_Marshal c normalized in
           Inr (purchaseTokenVersion @ ''.'' @ cd_Encode c payload @ ''.'' @ cd_Encode c (cd_Sign c payload))))"

definition VerifyToken :: "PurchaseTokenCodec \<Rightarrow> int \<Rightarrow> string \<Rightarrow> PurchaseTokenClaims res" where
  "VerifyToken c now token =
     (if token = [] then Inl ErrInvalidPurchaseToken
      else case split_on (CHR ''.'') token of
        [version, p, s] \<Rightarrow>
          (if version \<noteq> purchaseTokenVersion then Inl ErrInvalidPurchaseToken
           else case cd_Decode c p of None \<Rightarrow> Inl ErrInvalidPurchaseToken | Some payload \<Rightarrow>
           (case cd_Decode c s of None \<Rightarrow> Inl ErrInvalidPurchaseToken | Some signature \<Rightarrow>
             (if signature \<noteq> cd_Sign c payload then Inl ErrInvalidPurchaseToken
              else case cd_Unmarshal c payload of None \<Rightarrow> Inl ErrInvalidPurchaseToken | Some claims \<Rightarrow>
              (case normalizeClaims c now claims of Inl _ \<Rightarrow> Inl ErrInvalidPurchaseToken | Inr normalized \<Rightarrow>
                (if pc_ExpireAt normalized \<le> unix_sec now then Inl ErrExpiredPurchaseToken else Inr normalized)))))
      | _ \<Rightarrow> Inl ErrInvalidPurchaseToken)"

section \<open>Issuing a token\<close>

text \<open>\<open>validateRequestedTicketUsers\<close>: the map of the viewers keeps the last one of an id.\<close>

definition ticketUserMap :: "TicketUserInfo list \<Rightarrow> int \<Rightarrow> TicketUserInfo option" where
  "ticketUserMap users i = find (\<lambda>u. tu_Id u = i) (rev users)"

fun checkRequested :: "(int \<Rightarrow> TicketUserInfo option) \<Rightarrow> int \<Rightarrow> int set \<Rightarrow> int list \<Rightarrow> unit res" where
  "checkRequested users userID seen [] = Inr ()"
| "checkRequested users userID seen (i # is) =
     (if i \<in> seen then Inl (Sentinel ErrOrderTicketUserInvalid)
      else case users i of
        None \<Rightarrow> Inl (Sentinel ErrOrderTicketUserInvalid)
      | Some u \<Rightarrow> (if tu_UserId u \<noteq> userID then Inl (Sentinel ErrOrderTicketUserInvalid)
                   else checkRequested users userID (insert i seen) is))"

definition validateRequestedTicketUsers :: "TicketUserInfo list \<Rightarrow> int \<Rightarrow> int list \<Rightarrow> unit res" where
  "validateRequestedTicketUsers users userID requestedIDs = checkRequested (ticketUserMap users) userID {} requestedIDs"

definition findPreorderTicketCategory :: "PreorderTicketCategory list \<Rightarrow> int \<Rightarrow> PreorderTicketCategory option" where
  "findPreorderTicketCategory xs ticketCategoryID = find (\<lambda>item. pt_Id item = ticketCategoryID) xs"

record CreatePurchaseTokenReq =
  tq_UserId :: int
  tq_ShowTimeId :: int
  tq_TicketCategoryId :: int
  tq_TicketUserIds :: "int list"
  tq_DistributionMode :: string
  tq_TakeTicketMode :: string

definition validateCreatePurchaseTokenReq :: "CreatePurchaseTokenReq \<Rightarrow> unit res" where
  "validateCreatePurchaseTokenReq inp =
     (if tq_UserId inp \<le> 0 \<or> tq_ShowTimeId inp \<le> 0 \<or> tq_TicketCategoryId inp \<le> 0 \<or> tq_TicketUserIds inp = []
      then Inl (Status CInvalidArgument ErrInvalidParam)
      else if \<exists>i \<in> set (tq_TicketUserIds inp). i \<le> 0 then Inl (Status CInvalidArgument ErrInvalidParam)
      else Inr ())"

definition parsePurchaseTokenTime :: "orderEnv \<Rightarrow> string \<Rightarrow> string \<Rightarrow> int res" where
  "parsePurchaseTokenTime env primary fallback =
     (if primary \<noteq> [] then parseOrderTime env primary
      else if fallback \<noteq> [] then parseOrderTime env fallback
      else Inl (Sentinel ErrInvalidParam))"

definition tokenClaimsOf :: "CreatePurchaseTokenReq \<Rightarrow> PreorderInfo \<Rightarrow> int \<Rightarrow> int \<Rightarrow> int \<Rightarrow> PurchaseTokenClaims" where
  "tokenClaimsOf inp preorder orderNumber saleWindowEndAt showEndAt =
     \<lparr>pc_OrderNumber = orderNumber, pc_UserID = tq_UserId inp, pc_ProgramID = pi_ProgramId preorder,
      pc_ShowTimeID = (if pi_ShowTimeId preorder \<le> 0 then tq_ShowTimeId inp else pi_ShowTimeId preorder),
      pc_TicketCategoryID = tq_TicketCategoryId inp, pc_TicketUserIDs = tq_TicketUserIds inp,
      pc_TicketCount = int (length (tq_TicketUserIds inp)),
      pc_SaleWindowEndAt = unix_sec saleWindowEndAt, pc_ShowEndAt = unix_sec showEndAt,
      pc_DistributionMode = tq_DistributionMode inp, pc_TakeTicketMode = tq_TakeTicketMode inp, pc_ExpireAt = 0\<rparr>"

text \<open>\<open>orderNumber\<close> is what the order number generator returns to this call.\<close>

definition CreatePurchaseToken ::
    "orderEnv \<Rightarrow> PurchaseTokenCodec \<Rightarrow> (int \<Rightarrow> PreorderInfo res) \<Rightarrow> (int \<Rightarrow> TicketUserInfo list res) \<Rightarrow> int
     \<Rightarrow> CreatePurchaseTokenReq \<Rightarrow> repo \<Rightarrow> string res" where
  "CreatePurchaseToken env codec preorderOf usersOf orderNumber inp repo =
     (case validateCreatePurchaseTokenReq inp of Inl e \<Rightarrow> Inl e | Inr _ \<Rightarrow>
     (case preorderOf (tq_ShowTimeId inp) of Inl e \<Rightarrow> Inl e | Inr preorder \<Rightarrow>
     (case usersOf (tq_UserId inp) of Inl e \<Rightarrow> Inl e | Inr users \<Rightarrow>
     (case validateRequestedTicketUsers users (tq_UserId inp) (tq_TicketUserIds inp) of
        Inl _ \<Rightarrow> Inl (Status CInvalidArgument ErrOrderTicketUserInvalid) | Inr _ \<Rightarrow>
     (if findPreorderTicketCategory (pi_TicketCategories preorder) (tq_TicketCategoryId inp) = None
      then Inl (Status CNotFound ErrProgramTicketCategoryNotFound)
      else
        let ticketCount = int (length (tq_TicketUserIds inp)) in
        if 0 < pi_PerOrderLimit preorder \<and> pi_PerOrderLimit preorder < ticketCount
        then Inl (mapOrderError (Sentinel ErrOrderPurchaseLimitExceeded))
        else case (if 0 < pi_PerAccountLimit preorder
                   then (case CountActiveTicketsByUserShowTime (oe_Map env) (oe_Query env 0) (tq_UserId inp) (tq_ShowTimeId inp) repo of
                           Inl e \<Rightarrow> Inl (mapOrderError e)
                         | Inr activeCount \<Rightarrow>
                             (if pi_PerAccountLimit preorder < activeCount + ticketCount
                              then Inl (mapOrderError (Sentinel ErrOrderPurchaseLimitExceeded)) else Inr ()))
                   else Inr ()) of
          Inl e \<Rightarrow> Inl e
        | Inr _ \<Rightarrow>
        (case parsePurchaseTokenTime env (pi_RushSaleEndTime preorder) (pi_ShowTime preorder) of
           Inl _ \<Rightarrow> Inl (Status CInternal ErrInternal) | Inr saleWindowEndAt \<Rightarrow>
        (case parsePurchaseTokenTime env (pi_ShowTime preorder) (pi_RushSaleEndTime preorder) of
           Inl _ \<Rightarrow> Inl (Status CInternal ErrInternal) | Inr showEndAt \<Rightarrow>
        (case IssueToken codec (oe_Now env 0)
                (tokenClaimsOf inp preorder orderNumber saleWindowEndAt showEndAt) of
           Inl _ \<Rightarrow> Inl (Status CInternal ErrInternal) | Inr token \<Rightarrow> Inr token))))))))"

section \<open>CreateOrder\<close>

definition validateCreateOrderReq :: "int \<Rightarrow> string \<Rightarrow> unit res" where
  "validateCreateOrderReq userId purchaseToken =
     (if userId \<le> 0 \<or> purchaseToken = [] then Inl (Status CInvalidArgument ErrInvalidParam) else Inr ())"

definition mapAdmissionRejectCode :: "int \<Rightarrow> goerr" where
  "mapAdmissionRejectCode code =
     (if code = AdmitRejectUserInflightConflict \<or> code = AdmitRejectViewerInflightConflict then Sentinel ErrOrderOperateTooFrequent
      else if code = AdmitRejectQuotaExhausted then Sentinel ErrSeatInventoryInsufficient
      else Sentinel ErrInternal)"

text \<open>A deadline, a cancelled context or a network timeout: the outcome of the call is unknown.\<close>

definition isUnknownAdmissionResult :: "goerr \<Rightarrow> bool" where
  "isUnknownAdmissionResult err \<longleftrightarrow> err = Timeout"

definition emptyProgramSnapshot :: ProgramSnapshot where
  "emptyProgramSnapshot = \<lparr>ps_Title = [], ps_ItemPicture = [], ps_Place = [], ps_ShowTime = [], ps_PermitChooseSeat = 0\<rparr>"

definition emptyCategorySnapshot :: TicketCategorySnapshot where
  "emptyCategorySnapshot = \<lparr>cs_ID = 0, cs_Name = [], cs_Price = 0\<rparr>"

definition buildAttemptCreateEvent :: "orderEnv \<Rightarrow> int \<Rightarrow> int \<Rightarrow> PurchaseTokenClaims \<Rightarrow> int \<Rightarrow> OrderCreateEvent res" where
  "buildAttemptCreateEvent env eventId orderNumber claims occurredAt =
     (if orderNumber \<le> 0 \<or> pc_OrderNumber claims \<le> 0 \<or> orderNumber \<noteq> pc_OrderNumber claims then Inl (Sentinel ErrInvalidParam)
      else if pc_UserID claims \<le> 0 \<or> pc_ProgramID claims \<le> 0 \<or> pc_ShowTimeID claims \<le> 0 \<or> pc_TicketCategoryID claims \<le> 0
      then Inl (Sentinel ErrInvalidParam)
      else
        let n = int (length (pc_TicketUserIDs claims)); ticketCount = (if pc_TicketCount claims \<le> 0 then n else pc_TicketCount claims) in
        if ticketCount \<le> 0 \<or> n \<noteq> ticketCount then Inl (Sentinel ErrInvalidParam)
        else Inr \<lparr>ev_EventID = show_int eventId, ev_Version = ''v1'', ev_OrderNumber = orderNumber,
          ev_RequestNo = ''order-create-'' @ show_int orderNumber, ev_OccurredAt = formatOrderTime env (Some occurredAt),
          ev_UserID = pc_UserID claims, ev_ProgramID = pc_ProgramID claims, ev_ShowTimeID = pc_ShowTimeID claims,
          ev_TicketCategoryID = pc_TicketCategoryID claims, ev_TicketUserIDs = pc_TicketUserIDs claims, ev_TicketCount = ticketCount,
          ev_DistributionMode = pc_DistributionMode claims, ev_TakeTicketMode = pc_TakeTicketMode claims,
          ev_SaleWindowEndAt = formatOrderTime env (Some (pc_SaleWindowEndAt claims * 1000000000)),
          ev_ShowEndAt = formatOrderTime env (Some (pc_ShowEndAt claims * 1000000000)), ev_FreezeToken = [], ev_FreezeExpireTime = [],
          ev_ProgramSnapshot = emptyProgramSnapshot, ev_TicketCategorySnapshot = emptyCategorySnapshot,
          ev_TicketUserSnapshot = [], ev_SeatSnapshot = []\<rparr>)"

text \<open>What the goroutine of \<open>dispatchOrderCreateEventAsync\<close> is given.\<close>

record asyncOrderCreateEvent =
  ai_orderNumber :: int
  ai_showTimeID :: int
  ai_key :: string
  ai_event :: OrderCreateEvent
  ai_reasonAt :: int

definition admitRequestOf :: "PurchaseTokenClaims \<Rightarrow> int \<Rightarrow> AdmitAttemptRequest" where
  "admitRequestOf claims now = \<lparr>rq_OrderNumber = pc_OrderNumber claims, rq_UserID = pc_UserID claims, rq_ProgramID = pc_ProgramID claims,
     rq_ShowTimeID = pc_ShowTimeID claims, rq_TicketCategoryID = pc_TicketCategoryID claims, rq_ViewerIDs = pc_TicketUserIDs claims,
     rq_TicketCount = pc_TicketCount claims, rq_SaleWindowEndAt = Some (pc_SaleWindowEndAt claims * 1000000000),
     rq_ShowEndAt = Some (pc_ShowEndAt claims * 1000000000), rq_Now = Some now\<rparr>"

text \<open>
  The handler answers the order number and the show time; the item it hands to its goroutine, if
  any, is returned with the answer.
\<close>

definition CreateOrder ::
    "orderEnv \<Rightarrow> PurchaseTokenCodec \<Rightarrow> int \<Rightarrow> int \<Rightarrow> string \<Rightarrow> redis \<Rightarrow> ((int \<times> int) \<times> asyncOrderCreateEvent option) res \<times> redis" where
  "CreateOrder env codec eventId userId purchaseToken r =
     (let internal = Inl (Status CInternal ErrInternal); now = oe_Now env 0 in
      case validateCreateOrderReq userId purchaseToken of Inl e \<Rightarrow> (Inl e, r) | Inr _ \<Rightarrow>
      (case VerifyToken codec now purchaseToken of Inl _ \<Rightarrow> (Inl (mapOrderError (Sentinel ErrInvalidParam)), r) | Inr claims \<Rightarrow>
      (if pc_UserID claims \<noteq> userId then (Inl (mapOrderError (Sentinel ErrInvalidParam)), r)
       else case Admit (oe_Store env) (oe_RushTime env) now (oe_RushFault env) (admitRequestOf claims now) r of
         (Inl e, r1) \<Rightarrow>
           (if isUnknownAdmissionResult e then (Inr ((pc_OrderNumber claims, pc_ShowTimeID claims), None), r1) else (internal, r1))
       | (Inr admission, r1) \<Rightarrow>
         (if rs_Decision admission = AdmitDecisionRejected
          then (Inl (mapOrderError (mapAdmissionRejectCode (rs_RejectCode admission))), r1)
          else if rs_OrderNumber admission \<le> 0 then (internal, r1)
          else if rs_Decision admission = AdmitDecisionReused
          then (Inr ((rs_OrderNumber admission, pc_ShowTimeID claims), None), r1)
          else case buildAttemptCreateEvent env eventId (rs_OrderNumber admission) claims now of
            Inl e \<Rightarrow> (Inl (mapOrderError e), r1)
          | Inr event \<Rightarrow>
            (Inr ((rs_OrderNumber admission, pc_ShowTimeID claims),
               Some \<lparr>ai_orderNumber = rs_OrderNumber admission, ai_showTimeID = pc_ShowTimeID claims, ai_key = PartitionKey event,
                 ai_event = event, ai_reasonAt = now\<rparr>), r1)))))"

definition mapAsyncKafkaSendReason :: "goerr \<Rightarrow> string" where
  "mapAsyncKafkaSendReason err = (if err = Timeout then ''KAFKA_ASYNC_SEND_TIMEOUT'' else ''KAFKA_ASYNC_SEND_ERROR'')"

definition failPendingAttemptAfterAsyncSendError :: "orderEnv \<Rightarrow> asyncOrderCreateEvent \<Rightarrow> goerr \<Rightarrow> redis \<Rightarrow> redis" where
  "failPendingAttemptAfterAsyncSendError env item sendErr r =
     (case (case oe_RushRead env of Some e \<Rightarrow> Inl e
            | None \<Rightarrow> GetByShowTimeAndOrderNumber (oe_Store env) (oe_RushTime env) (ai_showTimeID item) (ai_orderNumber item) r) of
        Inl _ \<Rightarrow> r
      | Inr record \<Rightarrow>
          snd (FailBeforeProcessing (oe_Store env) (oe_RushTime env) (ai_reasonAt item) (oe_RushFault env) record
                 (mapAsyncKafkaSendReason sendErr) (Some (ai_reasonAt item)) r))"

text \<open>
  The goroutine: the event reaches the queue or not, and the producer may report an error in either
  case; the queue is the list of the events it took.
\<close>

definition dispatchOrderCreateEventAsync ::
    "orderEnv \<Rightarrow> fault \<Rightarrow> asyncOrderCreateEvent \<Rightarrow> redis \<times> OrderCreateEvent list \<Rightarrow> redis \<times> OrderCreateEvent list" where
  "dispatchOrderCreateEventAsync env send item s =
     (case eval_ctx send (\<lambda>q. (Inr (), q @ [ai_event item])) (snd s) of
        (Inl e, q) \<Rightarrow> (failPendingAttemptAfterAsyncSendError env item e (fst s), q)
      | (Inr _, q) \<Rightarrow> (fst s, q))"

section \<open>Consumer\<close>

record consumeEnv =
  ce_Base :: orderEnv
  ce_Unmarshal :: "string \<Rightarrow> OrderCreateEvent option"
  ce_Preorder :: "int \<Rightarrow> PreorderInfo res"
  ce_Users :: "int \<Rightarrow> TicketUserInfo list res"
  ce_FreezeRpc :: "nat \<Rightarrow> fault"
  ce_FreezeEnv :: "nat \<Rightarrow> freezeEnv"
  ce_CloseAfter :: int
  ce_Ids :: "nat \<Rightarrow> int"
  ce_Lost :: "nat \<Rightarrow> bool"
  ce_RushTime :: "nat \<Rightarrow> int"
  ce_RushFault :: "nat \<Rightarrow> fault"

definition hasEmbeddedOrderCreateSnapshots :: "OrderCreateEvent \<Rightarrow> bool" where
  "hasEmbeddedOrderCreateSnapshots ev \<longleftrightarrow> ev_FreezeToken ev \<noteq> [] \<and> ev_FreezeExpireTime ev \<noteq> [] \<and> ev_TicketUserSnapshot ev \<noteq> []
     \<and> ev_SeatSnapshot ev \<noteq> [] \<and> length (ev_TicketUserSnapshot ev) = length (ev_SeatSnapshot ev)"

definition validateOrderCreateEvent :: "OrderCreateEvent \<Rightarrow> unit res" where
  "validateOrderCreateEvent ev =
     (let bad = Inl (Sentinel ErrInternal) in
      if ev_OrderNumber ev \<le> 0 \<or> ev_UserID ev \<le> 0 \<or> ev_ProgramID ev \<le> 0 \<or> ev_TicketCategoryID ev \<le> 0 then bad
      else if ev_OccurredAt ev = [] then bad
      else case (if ev_TicketCount ev \<le> 0
                 then (if ev_TicketUserIDs ev \<noteq> [] then Some (int (length (ev_TicketUserIDs ev)))
                       else if hasEmbeddedOrderCreateSnapshots ev then Some (int (length (ev_TicketUserSnapshot ev)))
                       else None)
                 else Some (ev_TicketCount ev)) of
        None \<Rightarrow> bad
      | Some ticketCount \<Rightarrow>
          (if ev_TicketUserIDs ev \<noteq> [] \<and> int (length (ev_TicketUserIDs ev)) \<noteq> ticketCount then bad
           else if hasEmbeddedOrderCreateSnapshots ev \<and> int (length (ev_TicketUserSnapshot ev)) \<noteq> ticketCount then bad
           else Inr ()))"

definition buildSeatFreezeToken :: "int \<Rightarrow> int \<Rightarrow> int \<Rightarrow> string" where
  "buildSeatFreezeToken showTimeID ticketCategoryID orderNumber = FormatToken showTimeID ticketCategoryID orderNumber"

definition closeAfterOf :: "int \<Rightarrow> int" where
  "closeAfterOf closeAfter = (if closeAfter \<le> 0 then 15 * 60 * 1000000000 else closeAfter)"

definition buildFreezeExpireTime :: "orderEnv \<Rightarrow> string \<Rightarrow> int \<Rightarrow> int \<Rightarrow> string" where
  "buildFreezeExpireTime env showTimeRaw now closeAfter =
     (let expireAt = now + closeAfterOf closeAfter in
      formatOrderTime env (Some
        (if showTimeRaw = [] then expireAt
         else case parseOrderTime env showTimeRaw of Inl _ \<Rightarrow> expireAt
              | Inr showTime \<Rightarrow> (if showTime < expireAt then showTime else expireAt))))"

definition isTerminalSeatFreezeError :: "goerr \<Rightarrow> bool" where
  "isTerminalSeatFreezeError err =
     (case err of Status c x \<Rightarrow> (c = CFailedPrecondition \<or> c = CResourceExhausted) \<and> x = ErrSeatInventoryInsufficient | _ \<Rightarrow> False)"

definition isSeatFreezeTimeout :: "goerr \<Rightarrow> bool" where
  "isSeatFreezeTimeout err =
     (case err of Timeout \<Rightarrow> True | Status c _ \<Rightarrow> c = CDeadlineExceeded | StatusMsg c _ \<Rightarrow> c = CDeadlineExceeded | _ \<Rightarrow> False)"

definition isUnknownPersistResult :: "goerr \<Rightarrow> bool" where
  "isUnknownPersistResult err \<longleftrightarrow> err = Timeout"

definition freezeCall :: "consumeEnv \<Rightarrow> nat \<Rightarrow> AutoAssignReq \<Rightarrow> orderWorld \<Rightarrow> AutoAssignResp res \<times> orderWorld" where
  "freezeCall env i req w =
     (case eval_ctx (ce_FreezeRpc env i) (AutoAssignAndFreezeSeats (oe_SeatStore (ce_Base env)) (ce_FreezeEnv env i) req) (ow_seats w) of
        (r, sw) \<Rightarrow> (wireRes r, w\<lparr>ow_seats := sw\<rparr>))"

definition freezeSeatsWithRetry :: "consumeEnv \<Rightarrow> AutoAssignReq \<Rightarrow> orderWorld \<Rightarrow> AutoAssignResp res \<times> orderWorld" where
  "freezeSeatsWithRetry env req w =
     (case freezeCall env 0 req w of
        (Inl e, w1) \<Rightarrow> (if isSeatFreezeTimeout e then freezeCall env 1 req w1 else (Inl e, w1))
      | (Inr resp, w1) \<Rightarrow> (Inr resp, w1))"

fun viewerSnapshots :: "(int \<Rightarrow> TicketUserInfo option) \<Rightarrow> int list \<Rightarrow> TicketUserSnapshot list res" where
  "viewerSnapshots users [] = Inr []"
| "viewerSnapshots users (i # is) =
     (case users i of
        None \<Rightarrow> Inl (Sentinel ErrOrderTicketUserInvalid)
      | Some u \<Rightarrow>
          (case viewerSnapshots users is of
             Inl e \<Rightarrow> Inl e
           | Inr us \<Rightarrow> Inr (\<lparr>us_TicketUserID = tu_Id u, us_Name = tu_RelName u, us_IDNumber = tu_IdNumber u\<rparr> # us)))"

text \<open>The scalar arguments of the source are fields of the event \<open>ev\<close> the consumer passes; \<open>eventId\<close> is a new id.\<close>

definition buildOrderCreateEventFromSnapshots ::
    "orderEnv \<Rightarrow> int \<Rightarrow> OrderCreateEvent \<Rightarrow> PreorderInfo \<Rightarrow> TicketUserInfo list \<Rightarrow> AutoAssignResp \<Rightarrow> int \<Rightarrow> int \<Rightarrow> OrderCreateEvent res" where
  "buildOrderCreateEventFromSnapshots env eventId ev preorder users freezeResp now closeAfter =
     (if ev_OrderNumber ev \<le> 0 \<or> ev_UserID ev \<le> 0 \<or> ev_ProgramID ev \<le> 0 \<or> ev_TicketCategoryID ev \<le> 0 then Inl (Sentinel ErrInvalidParam)
      else case validateRequestedTicketUsers users (ev_UserID ev) (ev_TicketUserIDs ev) of Inl e \<Rightarrow> Inl e | Inr _ \<Rightarrow>
      (if ev_TicketUserIDs ev = [] \<or> length (ap_Seats freezeResp) \<noteq> length (ev_TicketUserIDs ev) then Inl (Sentinel ErrInvalidParam)
       else case findPreorderTicketCategory (pi_TicketCategories preorder) (ev_TicketCategoryID ev) of
         None \<Rightarrow> Inl (Sentinel ErrProgramTicketCategoryNotFound)
       | Some category \<Rightarrow>
       (case viewerSnapshots (ticketUserMap users) (ev_TicketUserIDs ev) of Inl e \<Rightarrow> Inl e | Inr us \<Rightarrow>
         Inr \<lparr>ev_EventID = show_int eventId, ev_Version = ''v1'', ev_OrderNumber = ev_OrderNumber ev,
           ev_RequestNo = ''order-create-'' @ show_int (ev_OrderNumber ev),
           ev_OccurredAt = formatOrderTime env (Some now), ev_UserID = ev_UserID ev, ev_ProgramID = ev_ProgramID ev,
           ev_ShowTimeID = pi_ShowTimeId preorder, ev_TicketCategoryID = ev_TicketCategoryID ev, ev_TicketUserIDs = ev_TicketUserIDs ev,
           ev_TicketCount = int (length (ev_TicketUserIDs ev)), ev_DistributionMode = ev_DistributionMode ev,
           ev_TakeTicketMode = ev_TakeTicketMode ev, ev_SaleWindowEndAt = [], ev_ShowEndAt = [],
           ev_FreezeToken = ap_FreezeToken freezeResp,
           ev_FreezeExpireTime = (if ap_ExpireTime freezeResp = [] then formatOrderTime env (Some (now + closeAfterOf closeAfter))
                                  else ap_ExpireTime freezeResp),
           ev_ProgramSnapshot = \<lparr>ps_Title = pi_Title preorder, ps_ItemPicture = pi_ItemPicture preorder, ps_Place = pi_Place preorder,
             ps_ShowTime = pi_ShowTime preorder, ps_PermitChooseSeat = pi_PermitChooseSeat preorder\<rparr>,
           ev_TicketCategorySnapshot = \<lparr>cs_ID = pt_Id category, cs_Name = pt_Introduce category, cs_Price = pt_Price category\<rparr>,
           ev_TicketUserSnapshot = us,
           ev_SeatSnapshot = map (\<lambda>s. \<lparr>ss_SeatID = ID s, ss_RowCode = sc_RowCode s, ss_ColCode = sc_ColCode s, ss_Price = sc_Price s\<rparr>) (ap_Seats freezeResp)\<rparr>)))"

datatype buildError = SeatFreezeError goerr | BuildError goerr

text \<open>
  The event with its snapshots and, when seats were frozen now, the reply of the freeze. An event
  that cannot be built after the freeze is an error that keeps the seats frozen.
\<close>

definition buildConsumerOrderEvent ::
    "consumeEnv \<Rightarrow> OrderCreateEvent \<Rightarrow> int \<Rightarrow> orderWorld \<Rightarrow> (buildError + OrderCreateEvent \<times> AutoAssignResp option) \<times> orderWorld" where
  "buildConsumerOrderEvent env ev occurredAt w =
     (let b = ce_Base env in
      if hasEmbeddedOrderCreateSnapshots ev then (Inr (ev, None), w)
      else
        let showTimeID = (if ev_ShowTimeID ev \<le> 0 then ev_ProgramID ev else ev_ShowTimeID ev) in
        case ce_Preorder env showTimeID of Inl e \<Rightarrow> (Inl (BuildError e), w) | Inr preorder \<Rightarrow>
        (case ce_Users env (ev_UserID ev) of Inl e \<Rightarrow> (Inl (BuildError e), w) | Inr users \<Rightarrow>
        (case freezeSeatsWithRetry env
                \<lparr>aq_ShowTimeId = showTimeID, aq_TicketCategoryId = ev_TicketCategoryID ev, aq_Count = ev_TicketCount ev,
                 aq_FreezeToken = buildSeatFreezeToken showTimeID (ev_TicketCategoryID ev) (ev_OrderNumber ev),
                 aq_FreezeExpireTime = buildFreezeExpireTime b (pi_ShowTime preorder) occurredAt (ce_CloseAfter env)\<rparr> w of
           (Inl e, w1) \<Rightarrow> (Inl (SeatFreezeError e), w1)
         | (Inr freezeResp, w1) \<Rightarrow>
           (case buildOrderCreateEventFromSnapshots b (ce_Ids env 0) ev preorder users freezeResp occurredAt (ce_CloseAfter env) of
              Inl e \<Rightarrow> (Inl (BuildError e), w1)
            | Inr event \<Rightarrow>
              (Inr (event\<lparr>ev_EventID := ev_EventID ev, ev_Version := ev_Version ev,
                     ev_RequestNo := (if ev_RequestNo ev \<noteq> [] then ev_RequestNo ev else ev_RequestNo event),
                     ev_ShowTimeID := ev_ShowTimeID ev, ev_SaleWindowEndAt := ev_SaleWindowEndAt ev, ev_ShowEndAt := ev_ShowEndAt ev\<rparr>,
                   Some freezeResp), w1)))))"

definition ticketRow :: "OrderCreateEvent \<Rightarrow> int \<Rightarrow> int \<Rightarrow> int \<Rightarrow> TicketUserSnapshot \<Rightarrow> SeatSnapshot \<Rightarrow> DOrderTicketUser" where
  "ticketRow ev i createOrderTime now u s = \<lparr>ot_Id = i, ot_OrderNumber = ev_OrderNumber ev, ot_ShowTimeId = ev_ShowTimeID ev,
     ot_UserId = ev_UserID ev, ot_TicketUserId = us_TicketUserID u, ot_TicketUserName = us_Name u, ot_TicketUserIdNumber = us_IDNumber u,
     ot_TicketCategoryId = cs_ID (ev_TicketCategorySnapshot ev), ot_TicketCategoryName = cs_Name (ev_TicketCategorySnapshot ev),
     ot_TicketPrice = cs_Price (ev_TicketCategorySnapshot ev), ot_SeatId = ss_SeatID s, ot_SeatRow = ss_RowCode s, ot_SeatCol = ss_ColCode s,
     ot_SeatPrice = ss_Price s, ot_OrderStatus = orderStatusUnpaid, ot_CreateOrderTime = createOrderTime, ot_CreateTime = now,
     ot_EditTime = now, ot_Status = 1\<rparr>"

definition guardRow :: "OrderCreateEvent \<Rightarrow> int \<Rightarrow> int \<Rightarrow> int \<Rightarrow> orderGuard" where
  "guardRow ev i now subject = \<lparr>gd_Id = i, gd_OrderNumber = ev_OrderNumber ev, gd_ProgramId = ev_ProgramID ev,
     gd_ShowTimeId = ev_ShowTimeID ev, gd_Subject = subject, gd_CreateTime = now, gd_EditTime = now, gd_Status = 1\<rparr>"

text \<open>The loop over the viewers, each with the seat of its index and three new ids.\<close>

fun writeRows :: "OrderCreateEvent \<Rightarrow> (nat \<Rightarrow> int) \<Rightarrow> nat \<Rightarrow> int \<Rightarrow> int \<Rightarrow> TicketUserSnapshot list \<Rightarrow> SeatSnapshot list
    \<Rightarrow> DOrderTicketUser list \<times> orderGuard list \<times> orderGuard list" where
  "writeRows ev ids k createOrderTime now (u # us) (s # ss) =
     (case writeRows ev ids (k + 3) createOrderTime now us ss of (ts, vs, gs) \<Rightarrow>
        (ticketRow ev (ids k) createOrderTime now u s # ts, guardRow ev (ids (k + 1)) now (us_TicketUserID u) # vs,
         guardRow ev (ids (k + 2)) now (ss_SeatID s) # gs))"
| "writeRows ev ids k createOrderTime now _ _ = ([], [], [])"

definition mapEventToOrderWriteModels :: "orderEnv \<Rightarrow> (nat \<Rightarrow> int) \<Rightarrow> OrderCreateEvent \<Rightarrow> int \<Rightarrow> orderWriteModels res" where
  "mapEventToOrderWriteModels env ids ev now =
     (if ev_TicketUserSnapshot ev = [] \<or> length (ev_TicketUserSnapshot ev) \<noteq> length (ev_SeatSnapshot ev) then Inl (Sentinel ErrInternal)
      else case parseOrderTime env (ps_ShowTime (ev_ProgramSnapshot ev)) of Inl e \<Rightarrow> Inl e | Inr showTime \<Rightarrow>
      (case parseOrderTime env (ev_FreezeExpireTime ev) of Inl e \<Rightarrow> Inl e | Inr orderExpireTime \<Rightarrow>
      (case parseOrderTime env (ev_OccurredAt ev) of Inl e \<Rightarrow> Inl e | Inr createOrderTime \<Rightarrow>
        (let n = int (length (ev_TicketUserSnapshot ev));
             k = 1 + 3 * length (ev_TicketUserSnapshot ev);
             (tickets, viewerGuards, seatGuards) = writeRows ev ids 1 createOrderTime now (ev_TicketUserSnapshot ev) (ev_SeatSnapshot ev) in
         Inr \<lparr>wm_order = \<lparr>od_Id = ids 0, od_OrderNumber = ev_OrderNumber ev, od_ProgramId = ev_ProgramID ev, od_ShowTimeId = ev_ShowTimeID ev,
             od_ProgramTitle = ps_Title (ev_ProgramSnapshot ev), od_ProgramItemPicture = ps_ItemPicture (ev_ProgramSnapshot ev),
             od_ProgramPlace = ps_Place (ev_ProgramSnapshot ev), od_ProgramShowTime = showTime,
             od_ProgramPermitChooseSeat = ps_PermitChooseSeat (ev_ProgramSnapshot ev), od_UserId = ev_UserID ev,
             od_DistributionMode = ev_DistributionMode ev, od_TakeTicketMode = ev_TakeTicketMode ev, od_TicketCount = n,
             od_OrderPrice = wrap64 (cs_Price (ev_TicketCategorySnapshot ev) * n), od_OrderStatus = orderStatusUnpaid,
             od_FreezeToken = ev_FreezeToken ev, od_OrderExpireTime = orderExpireTime, od_CreateOrderTime = createOrderTime,
             od_CancelOrderTime = None, od_PayOrderTime = None, od_CreateTime = now, od_EditTime = now, od_Status = 1\<rparr>,
           wm_orderTickets = tickets, wm_userGuard = guardRow ev (ids (k + 1)) now (ev_UserID ev), wm_viewerGuards = viewerGuards,
           wm_seatGuards = seatGuards, wm_delayTaskRows = [newCloseTimeoutDelayTaskRow (ids k) now (ev_OrderNumber ev) orderExpireTime]\<rparr>))))"

text \<open>The flag of the processing lease, read at several places; the refreshing goroutine of a lease without ids is lost from the start.\<close>

definition leaseLost :: "consumeEnv \<Rightarrow> nat \<Rightarrow> AttemptRecord \<Rightarrow> bool" where
  "leaseLost env i attempt \<longleftrightarrow> ar_ShowTimeID attempt \<le> 0 \<or> ar_OrderNumber attempt \<le> 0 \<or> ce_Lost env i"

definition prepareAttemptForConsume :: "consumeEnv \<Rightarrow> int \<Rightarrow> int \<Rightarrow> int \<Rightarrow> orderWorld \<Rightarrow> (AttemptRecord \<times> bool) res \<times> orderWorld" where
  "prepareAttemptForConsume env showTimeID orderNumber now w =
     (case PrepareAttemptForConsume (oe_Store (ce_Base env)) (ce_RushTime env 0) now (ce_RushFault env 0) showTimeID orderNumber (Some now) (ow_rush w) of
        (r, rush) \<Rightarrow> (r, w\<lparr>ow_rush := rush\<rparr>))"

definition finalizeSuccess :: "consumeEnv \<Rightarrow> nat \<Rightarrow> AttemptRecord \<Rightarrow> int \<Rightarrow> orderWorld \<Rightarrow> orderWorld" where
  "finalizeSuccess env i attempt now w =
     (if leaseLost env i attempt then w
      else w\<lparr>ow_rush := snd (FinalizeSuccess (oe_Store (ce_Base env)) (ce_RushTime env 1) now (ce_RushFault env 1) attempt (Some now) (ow_rush w))\<rparr>)"

definition handleFinalizeFailureOutcome :: "AttemptTransitionOutcome \<Rightarrow> bool res" where
  "handleFinalizeFailureOutcome outcome =
     (case outcome of
        AttemptTransitioned \<Rightarrow> Inr True
      | AttemptAlreadyFailed \<Rightarrow> Inr False
      | AttemptAlreadySucceeded \<Rightarrow> Inr False
      | AttemptLostOwnership \<Rightarrow> Inr False
      | _ \<Rightarrow> Inl (Sentinel ErrInternal))"

text \<open>Its error is only logged.\<close>

definition releaseOrderCreateFreeze :: "consumeEnv \<Rightarrow> string \<Rightarrow> orderWorld \<Rightarrow> orderWorld" where
  "releaseOrderCreateFreeze env freezeToken w =
     (if freezeToken = [] then w
      else snd (seatCall (ce_Base env) (ReleaseSeatFreeze (oe_SeatStore (ce_Base env)) (oe_FreezeEnv (ce_Base env)) freezeToken) w))"

text \<open>After an error of the store the record is read again, but the error is returned whatever the reading gives.\<close>

definition finalizeFailure :: "consumeEnv \<Rightarrow> nat \<Rightarrow> AttemptRecord \<Rightarrow> string \<Rightarrow> string \<Rightarrow> orderWorld \<Rightarrow> unit res \<times> orderWorld" where
  "finalizeFailure env i attempt reason freezeToken w =
     (if leaseLost env i attempt then (Inr (), w)
      else case FinalizeFailure (oe_Store (ce_Base env)) (ce_RushTime env 2) (oe_Now (ce_Base env) 2) (ce_RushFault env 2) attempt reason
                  (Some (oe_Now (ce_Base env) 2)) (ow_rush w) of
        (Inl e, rush) \<Rightarrow> (Inl e, w\<lparr>ow_rush := rush\<rparr>)
      | (Inr outcome, rush) \<Rightarrow>
        (let w1 = w\<lparr>ow_rush := rush\<rparr> in
         case handleFinalizeFailureOutcome outcome of
           Inl e \<Rightarrow> (Inl e, w1)
         | Inr releaseFreeze \<Rightarrow> (Inr (), if releaseFreeze then releaseOrderCreateFreeze env freezeToken w1 else w1)))"

definition resolveOrderPersistFailure ::
    "consumeEnv \<Rightarrow> int \<Rightarrow> AttemptRecord \<Rightarrow> AutoAssignResp option \<Rightarrow> goerr \<Rightarrow> int \<Rightarrow> orderWorld \<Rightarrow> unit res \<times> orderWorld" where
  "resolveOrderPersistFailure env orderNumber attempt freezeResp persistErr now w =
     (let b = ce_Base env in
      if leaseLost env 2 attempt then (Inr (), w)
      else if isUnknownPersistResult persistErr then (Inl persistErr, w)
      else case FindOrderByNumber (oe_Map b) (oe_Sec b) (oe_Query b 1) orderNumber (ow_repo w) of
        Inr _ \<Rightarrow> (Inr (), finalizeSuccess env 3 attempt now w)
      | Inl e \<Rightarrow>
        (if isUnknownPersistResult e then (Inl e, w)
         else if e \<noteq> ModelNotFound then (Inl persistErr, w)
         else finalizeFailure env 3 attempt ''ORDER_PERSIST_FAILED''
                (case freezeResp of None \<Rightarrow> [] | Some resp \<Rightarrow> ap_FreezeToken resp) w))"

text \<open>The part of \<open>Consume\<close> that runs once the attempt is handed out for processing.\<close>

definition consumeAttempt :: "consumeEnv \<Rightarrow> OrderCreateEvent \<Rightarrow> int \<Rightarrow> int \<Rightarrow> AttemptRecord \<Rightarrow> orderWorld \<Rightarrow> unit res \<times> orderWorld" where
  "consumeAttempt env ev occurredAt now attempt w =
     (let b = ce_Base env in
      case FindOrderByNumber (oe_Map b) (oe_Sec b) (oe_Query b 0) (ev_OrderNumber ev) (ow_repo w) of
        Inr _ \<Rightarrow> (Inr (), finalizeSuccess env 1 attempt now w)
      | Inl e \<Rightarrow>
        (if e \<noteq> ModelNotFound then (Inl e, w)
         else case buildConsumerOrderEvent env ev occurredAt w of
           (Inl (SeatFreezeError e), w1) \<Rightarrow>
             (if isTerminalSeatFreezeError e then finalizeFailure env 1 attempt ''SEAT_EXHAUSTED'' [] w1 else (Inl e, w1))
         | (Inl (BuildError e), w1) \<Rightarrow> (Inl e, w1)
         | (Inr (event, freezeResp), w1) \<Rightarrow>
           (if leaseLost env 0 attempt then (Inr (), w1)
            else case mapEventToOrderWriteModels b (\<lambda>k. ce_Ids env (k + 1)) event now of
              Inl e \<Rightarrow> (Inl e, w1)
            | Inr wm \<Rightarrow>
              (case transact b 0 (ev_OrderNumber ev) (persistTx wm) w1 of
                 (Inl e, w2) \<Rightarrow>
                   (if isGuardConflictErr e
                    then finalizeFailure env 1 attempt ''ALREADY_HAS_ACTIVE_ORDER'' (od_FreezeToken (wm_order wm)) w2
                    else resolveOrderPersistFailure env (ev_OrderNumber ev) attempt freezeResp e now w2)
               | (Inr _, w2) \<Rightarrow> (Inr (), finalizeSuccess env 1 attempt now w2)))))"

definition Consume :: "consumeEnv \<Rightarrow> string \<Rightarrow> orderWorld \<Rightarrow> unit res \<times> orderWorld" where
  "Consume env body w =
     (let b = ce_Base env; now = oe_Now b 0 in
      case ce_Unmarshal env body of None \<Rightarrow> (Inl (Other ''json: cannot unmarshal''), w) | Some ev \<Rightarrow>
      (case validateOrderCreateEvent ev of Inl e \<Rightarrow> (Inl e, w) | Inr _ \<Rightarrow>
      (case parseOrderTime b (ev_OccurredAt ev) of Inl e \<Rightarrow> (Inl e, w) | Inr occurredAt \<Rightarrow>
      (case prepareAttemptForConsume env (if ev_ShowTimeID ev \<le> 0 then ev_ProgramID ev else ev_ShowTimeID ev) (ev_OrderNumber ev) now w of
         (Inl e, w1) \<Rightarrow> (if e = Sentinel ErrOrderNotFound then (Inr (), w1) else (Inl e, w1))
       | (Inr (attempt, shouldProcess), w1) \<Rightarrow>
         (if \<not> shouldProcess then (Inr (), w1) else consumeAttempt env ev occurredAt now attempt w1)))))"

section \<open>Progress\<close>

record orderProgressProjection =
  pp_OrderNumber :: int
  pp_UserID :: int
  pp_OrderStatus :: int
  pp_Done :: bool
  pp_ReasonCode :: string

definition projectOrderProgressFromDB :: "orderEnv \<Rightarrow> int \<Rightarrow> orderWorld \<Rightarrow> orderProgressProjection res" where
  "projectOrderProgressFromDB env orderNumber w =
     (case FindOrderByNumber (oe_Map env) (oe_Sec env) (oe_Query env 0) orderNumber (ow_repo w) of
        Inr order \<Rightarrow> Inr \<lparr>pp_OrderNumber = orderNumber, pp_UserID = od_UserId order, pp_OrderStatus = 3, pp_Done = True, pp_ReasonCode = []\<rparr>
      | Inl e \<Rightarrow>
        (if e = ModelNotFound
         then Inr \<lparr>pp_OrderNumber = orderNumber, pp_UserID = 0, pp_OrderStatus = 4, pp_Done = True, pp_ReasonCode = []\<rparr>
         else Inl e))"

definition projectOrderProgress :: "orderEnv \<Rightarrow> int \<Rightarrow> int \<Rightarrow> orderWorld \<Rightarrow> orderProgressProjection res" where
  "projectOrderProgress env showTimeID orderNumber w =
     (if showTimeID \<le> 0 \<or> orderNumber \<le> 0 then Inl (Sentinel ErrInvalidParam)
      else case (case oe_RushRead env of Some e \<Rightarrow> Inl e
                 | None \<Rightarrow> GetByShowTimeAndOrderNumber (oe_Store env) (oe_RushTime env) showTimeID orderNumber (ow_rush w)) of
        Inr record \<Rightarrow>
          (case MapAttemptRecordToPoll (Some record) of
             Inl _ \<Rightarrow> Inl (Sentinel ErrInternal)
           | Inr (status, finished) \<Rightarrow>
               Inr \<lparr>pp_OrderNumber = ar_OrderNumber record, pp_UserID = ar_UserID record, pp_OrderStatus = status, pp_Done = finished,
                  pp_ReasonCode = (if finished \<and> status = 4 then ar_ReasonCode record else [])\<rparr>)
      | Inl e \<Rightarrow> (if e \<noteq> Sentinel ErrOrderNotFound then Inl e else projectOrderProgressFromDB env orderNumber w))"

definition PollOrderProgress :: "orderEnv \<Rightarrow> int \<Rightarrow> int \<Rightarrow> int \<Rightarrow> orderWorld \<Rightarrow> orderProgressProjection res" where
  "PollOrderProgress env userId orderNumber showTimeId w =
     (if userId \<le> 0 \<or> orderNumber \<le> 0 \<or> showTimeId \<le> 0 then Inl (Status CInvalidArgument ErrInvalidParam)
      else case projectOrderProgress env showTimeId orderNumber w of
        Inl e \<Rightarrow> Inl (mapOrderError e)
      | Inr projection \<Rightarrow>
          (if 0 < pp_UserID projection \<and> pp_UserID projection \<noteq> userId then Inl (mapOrderError (Sentinel ErrOrderNotFound))
           else Inr projection))"

definition GetOrderCache :: "orderEnv \<Rightarrow> int \<Rightarrow> int \<Rightarrow> orderWorld \<Rightarrow> string res" where
  "GetOrderCache env orderNumber showTimeId w =
     (if orderNumber \<le> 0 \<or> showTimeId \<le> 0 then Inl (Status CInvalidArgument ErrInvalidParam)
      else case projectOrderProgress env showTimeId orderNumber w of
        Inl e \<Rightarrow> Inr []
      | Inr projection \<Rightarrow> (if pp_OrderStatus projection \<noteq> 1 \<or> pp_Done projection then Inr [] else Inr (show_int orderNumber)))"

definition CountActiveTickets :: "orderEnv \<Rightarrow> int \<Rightarrow> int \<Rightarrow> orderWorld \<Rightarrow> int res" where
  "CountActiveTickets env userId showTimeId w =
     (case validateUserShowTimeReq userId showTimeId of Inl e \<Rightarrow> Inl e | Inr _ \<Rightarrow>
        CountActiveTicketsByUserShowTime (oe_Map env) (oe_Query env 0) userId showTimeId (ow_repo w))"

end
