(* ===== verification/CatalogueRead.thy ===== *)
theory CatalogueRead
  imports Catalogue OrderCreate
begin

text \<open>
  The handlers of the program service that read the catalogue: the view of a program with its two
  levels of caches (\<open>programcache/detail_cache.go\<close>, \<open>detail_loader.go\<close>, \<open>category_snapshot_cache.go\<close>), the
  preorder that the order service works with, the shows of a rush sale, the seats by price, and the
  lists of categories. \<open>ge_Fault\<close> gives the error a statement runs into, if any.
\<close>

section \<open>Category snapshot\<close>

definition FindAllKinds :: "DProgramCategory list \<Rightarrow> DProgramCategory list" where
  "FindAllKinds tb = sort_key (\<lambda>g. (gc_Type g, gc_ParentId g, gc_Id g)) (filter (\<lambda>g. gc_Status g = 1) tb)"

definition GetAll :: "catalogueEnv \<Rightarrow> nat \<Rightarrow> catalogue \<Rightarrow> DProgramCategory list res \<times> catalogue" where
  "GetAll env k c =
     (case lc_Kinds (ct_Caches c) of
        Some kinds \<Rightarrow> (Inr kinds, c)
      | None \<Rightarrow>
        (case ge_Fault env k of
           Some e \<Rightarrow> (Inl e, c)
         | None \<Rightarrow> (let kinds = FindAllKinds (ct_Kinds c) in (Inr kinds, c\<lparr>ct_Caches := (ct_Caches c)\<lparr>lc_Kinds := Some kinds\<rparr>\<rparr>))))"

section \<open>The view of a program\<close>

definition errViewNotFound :: goerr where
  "errViewNotFound = Other ''program detail view not found''"

definition LoadView :: "catalogueEnv \<Rightarrow> int \<Rightarrow> catalogue \<Rightarrow> ProgramDetailViewInfo res \<times> catalogue" where
  "LoadView env programID c =
     (case ifMissing errViewNotFound (orFault (ge_Fault env 0) (cachedProgram c programID)) of Inl e \<Rightarrow> (Inl e, c) | Inr program \<Rightarrow>
     (case ifMissing errViewNotFound (orFault (ge_Fault env 1) (cachedFirstShow c (dp_Id program))) of Inl e \<Rightarrow> (Inl e, c) | Inr firstShow \<Rightarrow>
     (case GetAll env 2 c of (Inl e, c1) \<Rightarrow> (Inl e, c1) | (Inr kinds, c1) \<Rightarrow>
     (case ifMissing errViewNotFound (orFault (ge_Fault env 3) (cachedGroup c1 (dp_ProgramGroupId program))) of Inl e \<Rightarrow> (Inl e, c1) | Inr grp \<Rightarrow>
     (case parseProgramGroupJSON (ge_Format env) (ge_Json env) (Some grp) of Inl e \<Rightarrow> (Inl e, c1) | Inr groupInfo \<Rightarrow>
     (case orFault (ge_Fault env 4) (Inr (FindCategoriesByProgramId (ct_Categories c1) (dp_Id program))) of
        Inl e \<Rightarrow> if e = ModelNotFound
          then (Inr (toProgramDetailViewInfo (ge_Format env) program (Some firstShow) groupInfo (buildCategoryMap kinds) []), c1)
          else (Inl e, c1)
      | Inr ticketCategories \<Rightarrow>
          (Inr (toProgramDetailViewInfo (ge_Format env) program (Some firstShow) groupInfo (buildCategoryMap kinds) ticketCategories), c1)))))))"

text \<open>The payload of the cache is the encoded message; decoding what was encoded gives it back.\<close>

definition GetView :: "catalogueEnv \<Rightarrow> int \<Rightarrow> catalogue \<Rightarrow> ProgramDetailViewInfo res \<times> catalogue" where
  "GetView env programID c =
     (if lc_NotFound (ct_Caches c) programID then (Inl errViewNotFound, c)
      else case lc_View (ct_Caches c) programID of
        Some view \<Rightarrow> (Inr view, c)
      | None \<Rightarrow>
        (case LoadView env programID c of
           (Inl e, c1) \<Rightarrow>
             if e = errViewNotFound
             then (Inl errViewNotFound, c1\<lparr>ct_Caches := (ct_Caches c1)\<lparr>lc_NotFound := (lc_NotFound (ct_Caches c1))(programID := True)\<rparr>\<rparr>)
             else (Inl e, c1)
         | (Inr view, c1) \<Rightarrow>
             (Inr view, c1\<lparr>ct_Caches := (ct_Caches c1)\<lparr>lc_View := (lc_View (ct_Caches c1))(programID \<mapsto> view)\<rparr>\<rparr>)))"

definition GetProgramDetailView :: "catalogueEnv \<Rightarrow> int \<Rightarrow> catalogue \<Rightarrow> ProgramDetailViewInfo res \<times> catalogue" where
  "GetProgramDetailView env programID c =
     (case GetView env programID c of
        (Inl e, c1) \<Rightarrow> (Inl (if e = errViewNotFound then programNotFoundError else e), c1)
      | (Inr view, c1) \<Rightarrow> (Inr view, c1))"

section \<open>Preorder\<close>

record ProgramPreorderTicketCategoryInfo =
  po_Id :: int
  po_Introduce :: string
  po_Price :: int
  po_TotalNumber :: int
  po_RemainNumber :: int
  po_AdmissionQuota :: int

record ProgramPreorderInfo =
  pp_ProgramId :: int
  pp_ShowTimeId :: int
  pp_ProgramGroupId :: int
  pp_Title :: string
  pp_Actor :: string
  pp_Place :: string
  pp_ItemPicture :: string
  pp_ShowTime :: string
  pp_ShowDayTime :: string
  pp_ShowWeekTime :: string
  pp_RushSaleOpenTime :: string
  pp_RushSaleEndTime :: string
  pp_PerOrderLimitPurchaseCount :: int
  pp_PerAccountLimitPurchaseCount :: int
  pp_PermitChooseSeat :: int
  pp_ChooseSeatExplain :: string
  pp_TicketCategoryVoList :: "ProgramPreorderTicketCategoryInfo list"

text \<open>A missing key of the Go map reads as zero.\<close>

definition mapSeatRemainAggregates :: "(int \<times> int) list \<Rightarrow> int \<Rightarrow> int" where
  "mapSeatRemainAggregates aggregates i = (case map_of (rev aggregates) i of None \<Rightarrow> 0 | Some n \<Rightarrow> n)"

definition toProgramPreorderTicketCategoryInfoList :: "DTicketCategory list \<Rightarrow> (int \<Rightarrow> int) \<Rightarrow> ProgramPreorderTicketCategoryInfo list" where
  "toProgramPreorderTicketCategoryInfoList ticketCategories remainMap =
     map (\<lambda>t. \<lparr>po_Id = tc_Id t, po_Introduce = tc_Introduce t, po_Price = tc_Price t, po_TotalNumber = tc_TotalNumber t,
       po_RemainNumber = remainMap (tc_Id t), po_AdmissionQuota = remainMap (tc_Id t)\<rparr>) ticketCategories"

definition toProgramPreorderInfo :: "(int \<Rightarrow> string) \<Rightarrow> DProgram \<Rightarrow> DProgramShowTime \<Rightarrow> DTicketCategory list \<Rightarrow> (int \<Rightarrow> int) \<Rightarrow> ProgramPreorderInfo" where
  "toProgramPreorderInfo fmt program firstShowTime ticketCategories remainMap =
     \<lparr>pp_ProgramId = dp_Id program, pp_ShowTimeId = sh_Id firstShowTime, pp_ProgramGroupId = dp_ProgramGroupId program,
      pp_Title = dp_Title program, pp_Actor = nullStringValue (dp_Actor program), pp_Place = nullStringValue (dp_Place program),
      pp_ItemPicture = nullStringValue (dp_ItemPicture program), pp_ShowTime = formatProgramShowTime fmt (Some firstShowTime),
      pp_ShowDayTime = formatProgramShowDayTime fmt (Some firstShowTime), pp_ShowWeekTime = programShowWeekTime (Some firstShowTime),
      pp_RushSaleOpenTime = formatNullTime fmt (dp_RushSaleOpenTime program), pp_RushSaleEndTime = formatNullTime fmt (dp_RushSaleEndTime program),
      pp_PerOrderLimitPurchaseCount = dp_PerOrderLimitPurchaseCount program,
      pp_PerAccountLimitPurchaseCount = dp_PerAccountLimitPurchaseCount program, pp_PermitChooseSeat = dp_PermitChooseSeat program,
      pp_ChooseSeatExplain = nullStringValue (dp_ChooseSeatExplain program),
      pp_TicketCategoryVoList = toProgramPreorderTicketCategoryInfoList ticketCategories remainMap\<rparr>"

definition GetProgramPreorder :: "catalogueEnv \<Rightarrow> int \<Rightarrow> catalogue \<Rightarrow> ProgramPreorderInfo res" where
  "GetProgramPreorder env showTimeID c =
     (case ifMissing programNotFoundError (orFault (ge_Fault env 0) (cachedShow c showTimeID)) of Inl e \<Rightarrow> Inl e | Inr showTime \<Rightarrow>
     (case ifMissing programNotFoundError (orFault (ge_Fault env 1) (cachedProgram c (sh_ProgramId showTime))) of Inl e \<Rightarrow> Inl e | Inr program \<Rightarrow>
     (case (case orFault (ge_Fault env 2) (Inr (FindCategoriesByShowTimeId (ct_Categories c) (sh_Id showTime))) of
              Inl e \<Rightarrow> if e = ModelNotFound then Inr [] else Inl e | Inr ts \<Rightarrow> Inr ts) of Inl e \<Rightarrow> Inl e | Inr ticketCategories \<Rightarrow>
     (case orFault (ge_Fault env 3) (Inr (FindAvailableCountByShowTimeId (wtable (ct_Seats c)) (sh_Id showTime))) of Inl e \<Rightarrow> Inl e | Inr remainAggregates \<Rightarrow>
       Inr (toProgramPreorderInfo (ge_Format env) program showTime ticketCategories (mapSeatRemainAggregates remainAggregates))))))"

text \<open>What the order service reads of the reply.\<close>

definition preorderOf :: "ProgramPreorderInfo \<Rightarrow> PreorderInfo" where
  "preorderOf p = \<lparr>pi_ProgramId = pp_ProgramId p, pi_ShowTimeId = pp_ShowTimeId p, pi_Title = pp_Title p, pi_ItemPicture = pp_ItemPicture p,
     pi_Place = pp_Place p, pi_ShowTime = pp_ShowTime p, pi_RushSaleEndTime = pp_RushSaleEndTime p, pi_PermitChooseSeat = pp_PermitChooseSeat p,
     pi_PerOrderLimit = pp_PerOrderLimitPurchaseCount p, pi_PerAccountLimit = pp_PerAccountLimitPurchaseCount p,
     pi_TicketCategories = map (\<lambda>t. \<lparr>pt_Id = po_Id t, pt_Introduce = po_Introduce t, pt_Price = po_Price t,
       pt_AdmissionQuota = po_AdmissionQuota t\<rparr>) (pp_TicketCategoryVoList p)\<rparr>"

section \<open>Shows of a rush sale\<close>

record ProgramShowTimeForRushInfo =
  fr_ShowTimeId :: int
  fr_RushSaleOpenTime :: string
  fr_InventoryPreheatStatus :: int

definition ListProgramShowTimesForRush :: "catalogueEnv \<Rightarrow> int \<Rightarrow> catalogue \<Rightarrow> ProgramShowTimeForRushInfo list res" where
  "ListProgramShowTimesForRush env programID c =
     (if programID \<le> 0 then Inl errInvalid
      else case orFault (ge_Fault env 0) (Inr (FindByProgramIds (ct_Shows c) [programID])) of
        Inl e \<Rightarrow> if e = ModelNotFound then Inr [] else Inl e
      | Inr showTimes \<Rightarrow>
        (case orFault (ge_Fault env 1) (cachedProgram c programID) of
           Inl e \<Rightarrow> if e = ModelNotFound then Inr [] else Inl e
         | Inr program \<Rightarrow> Inr (map (\<lambda>s. \<lparr>fr_ShowTimeId = sh_Id s, fr_RushSaleOpenTime = formatNullTime (ge_Format env) (dp_RushSaleOpenTime program),
             fr_InventoryPreheatStatus = dp_InventoryPreheatStatus program\<rparr>) showTimes)))"

section \<open>Seats by price\<close>

record SeatInfoView =
  sv_SeatId :: int
  sv_TicketCategoryId :: int
  sv_RowCode :: int
  sv_ColCode :: int
  sv_Price :: int

record SeatRelateInfo =
  sl_ProgramId :: int
  sl_Place :: string
  sl_ShowTime :: string
  sl_ShowWeekTime :: string
  sl_PriceList :: "string list"
  sl_PriceSeatGroupList :: "(string \<times> SeatInfoView list) list"

definition ticketCategoryPriceString :: "int \<Rightarrow> string" where
  "ticketCategoryPriceString price = show_int price"

text \<open>Go orders strings by their bytes.\<close>

definition bytesOf :: "string \<Rightarrow> nat list" where
  "bytesOf s = map of_char s"

fun lexLess :: "nat list \<Rightarrow> nat list \<Rightarrow> bool" where
  "lexLess xs [] = False"
| "lexLess [] (y # ys) = True"
| "lexLess (x # xs) (y # ys) = (x < y \<or> x = y \<and> lexLess xs ys)"

fun insertString :: "string \<Rightarrow> string list \<Rightarrow> string list" where
  "insertString s [] = [s]"
| "insertString s (t # ts) = (if lexLess (bytesOf t) (bytesOf s) then t # insertString s ts else s # t # ts)"

definition sortStrings :: "string list \<Rightarrow> string list" where
  "sortStrings ss = foldr insertString ss []"

definition seatInfoOf :: "DSeat \<Rightarrow> SeatInfoView" where
  "seatInfoOf s = \<lparr>sv_SeatId = ds_Id s, sv_TicketCategoryId = ds_TicketCategoryId s, sv_RowCode = ds_RowCode s, sv_ColCode = ds_ColCode s, sv_Price = ds_Price s\<rparr>"

definition GetSeatRelateInfo :: "catalogueEnv \<Rightarrow> int \<Rightarrow> catalogue \<Rightarrow> SeatRelateInfo res" where
  "GetSeatRelateInfo env programID c =
     (if programID \<le> 0 then Inl errInvalid
      else case ifMissing programNotFoundError (orFault (ge_Fault env 0) (cachedProgram c programID)) of Inl e \<Rightarrow> Inl e | Inr program \<Rightarrow>
      (case ifMissing (Status CNotFound ErrProgramShowTimeNotFound) (orFault (ge_Fault env 1) (cachedFirstShow c programID)) of Inl e \<Rightarrow> Inl e | Inr showTime \<Rightarrow>
      (case orFault (ge_Fault env 2) (Inr (FindByProgramID (wtable (ct_Seats c)) programID)) of Inl e \<Rightarrow> Inl e | Inr seats \<Rightarrow>
       (let priceList = sortStrings (remdups (map (\<lambda>s. ticketCategoryPriceString (ds_Price s)) seats)) in
        Inr \<lparr>sl_ProgramId = dp_Id program, sl_Place = nullStringValue (dp_Place program), sl_ShowTime = ge_Format env (sh_ShowTime showTime),
          sl_ShowWeekTime = sh_ShowWeekTime showTime, sl_PriceList = priceList,
          sl_PriceSeatGroupList = map (\<lambda>p. (p, map seatInfoOf (filter (\<lambda>s. ticketCategoryPriceString (ds_Price s) = p) seats))) priceList\<rparr>))))"

section \<open>Lists of categories\<close>

record ProgramCategoryInfo =
  pk_Id :: int
  pk_ParentId :: int
  pk_Name :: string
  pk_Type :: int

record TicketCategoryDetailInfo =
  td_ProgramId :: int
  td_Introduce :: string
  td_Price :: int
  td_TotalNumber :: int
  td_RemainNumber :: int

definition buildProgramCategoryListResp :: "DProgramCategory list \<Rightarrow> ProgramCategoryInfo list" where
  "buildProgramCategoryListResp categories =
     map (\<lambda>g. \<lparr>pk_Id = gc_Id g, pk_ParentId = gc_ParentId g, pk_Name = gc_Name g, pk_Type = gc_Type g\<rparr>) categories"

definition ListProgramCategories :: "catalogueEnv \<Rightarrow> catalogue \<Rightarrow> ProgramCategoryInfo list res" where
  "ListProgramCategories env c =
     (case orFault (ge_Fault env 0) (Inr (FindAllKinds (ct_Kinds c))) of
        Inl e \<Rightarrow> if e = ModelNotFound then Inr [] else Inl e | Inr categories \<Rightarrow> Inr (buildProgramCategoryListResp categories))"

definition FindByType :: "DProgramCategory list \<Rightarrow> int \<Rightarrow> DProgramCategory list" where
  "FindByType tb tp = sort_key (\<lambda>g. (gc_ParentId g, gc_Id g)) (filter (\<lambda>g. gc_Status g = 1 \<and> gc_Type g = tp) tb)"

definition FindByParentID :: "DProgramCategory list \<Rightarrow> int \<Rightarrow> DProgramCategory list" where
  "FindByParentID tb parentID = sort_key (\<lambda>g. (gc_Type g, gc_Id g)) (filter (\<lambda>g. gc_Status g = 1 \<and> gc_ParentId g = parentID) tb)"

definition ListProgramCategoriesByType :: "catalogueEnv \<Rightarrow> int \<Rightarrow> catalogue \<Rightarrow> ProgramCategoryInfo list res" where
  "ListProgramCategoriesByType env tp c =
     (if tp \<le> 0 then Inl errInvalid
      else case orFault (ge_Fault env 0) (Inr (FindByType (ct_Kinds c) tp)) of
        Inl e \<Rightarrow> Inl e | Inr categories \<Rightarrow> Inr (buildProgramCategoryListResp categories))"

definition ListProgramCategoriesByParent :: "catalogueEnv \<Rightarrow> int \<Rightarrow> catalogue \<Rightarrow> ProgramCategoryInfo list res" where
  "ListProgramCategoriesByParent env parentID c =
     (if parentID \<le> 0 then Inl errInvalid
      else case orFault (ge_Fault env 0) (Inr (FindByParentID (ct_Kinds c) parentID)) of
        Inl e \<Rightarrow> Inl e | Inr categories \<Rightarrow> Inr (buildProgramCategoryListResp categories))"

definition categoryDetail :: "DTicketCategory \<Rightarrow> TicketCategoryDetailInfo" where
  "categoryDetail t = \<lparr>td_ProgramId = tc_ProgramId t, td_Introduce = tc_Introduce t, td_Price = tc_Price t,
     td_TotalNumber = tc_TotalNumber t, td_RemainNumber = tc_RemainNumber t\<rparr>"

definition GetTicketCategoryDetail :: "catalogueEnv \<Rightarrow> int \<Rightarrow> catalogue \<Rightarrow> TicketCategoryDetailInfo res" where
  "GetTicketCategoryDetail env i c =
     (if i \<le> 0 then Inl errInvalid
      else case ifMissing (Status CNotFound ErrProgramTicketCategoryNotFound) (orFault (ge_Fault env 0) (orNotFound (categoryRow (ct_Categories c) i))) of
        Inl e \<Rightarrow> Inl e | Inr t \<Rightarrow> Inr (categoryDetail t))"

definition toTicketCategoryDetailInfoList :: "DTicketCategory list \<Rightarrow> TicketCategoryDetailInfo list" where
  "toTicketCategoryDetailInfoList ticketCategories = map categoryDetail ticketCategories"

definition ListTicketCategoriesByProgram :: "catalogueEnv \<Rightarrow> int \<Rightarrow> catalogue \<Rightarrow> TicketCategoryDetailInfo list res" where
  "ListTicketCategoriesByProgram env programID c =
     (case orFault (ge_Fault env 0) (Inr (FindCategoriesByProgramId (ct_Categories c) programID)) of
        Inl e \<Rightarrow> if e = ModelNotFound then Inr [] else Inl e | Inr ts \<Rightarrow> Inr (toTicketCategoryDetailInfoList ts))"

end
