(* ===== verification/OrderProps.thy ===== *)
theory OrderProps
  imports OrderCreate
begin

text \<open>
  Properties of the order handlers across the order store, the pay service and the seats: an order is
  marked paid only when it is paid for and refunded only when the money is returned, a late payment of
  a cancelled order is returned, and what handlers leave undone when a remote call fails.
\<close>

section \<open>Orders and money\<close>

definition hasOrder :: "repo \<Rightarrow> DOrder \<Rightarrow> bool" where
  "hasOrder repo ord \<longleftrightarrow> (\<exists>k db sfx. repo k = Some db \<and> ord \<in> set (sd_orders db sfx))"

definition billed :: "payDb \<Rightarrow> int \<Rightarrow> bool" where
  "billed d n \<longleftrightarrow> (\<exists>p \<in> set (payBills d). pb_OrderNumber p = n)"

definition returned :: "payDb \<Rightarrow> int \<Rightarrow> bool" where
  "returned d n \<longleftrightarrow> (\<exists>r \<in> set (refundBills d). rb_OrderNumber r = n)"

definition moneyInv :: "repo \<Rightarrow> payDb \<Rightarrow> bool" where
  "moneyInv repo d \<longleftrightarrow>
     (\<forall>p \<in> set (payBills d). \<exists>ord. hasOrder repo ord \<and> od_OrderNumber ord = pb_OrderNumber p)
     \<and> (\<forall>ord. hasOrder repo ord \<longrightarrow>
          (od_OrderStatus ord = orderStatusPaid \<longrightarrow> billed d (od_OrderNumber ord))
          \<and> (od_OrderStatus ord = orderStatusRefunded \<longrightarrow> returned d (od_OrderNumber ord))
          \<and> (\<forall>p \<in> set (payBills d). pb_OrderNumber p = od_OrderNumber ord \<longrightarrow> pb_OrderAmount p = od_OrderPrice ord))"

definition worldInv :: "RouteMap \<Rightarrow> orderWorld \<Rightarrow> bool" where
  "worldInv m w \<longleftrightarrow> repoInv m (ow_repo w) \<and> payInv (ow_pay w) \<and> moneyInv (ow_repo w) (ow_pay w)"

text \<open>
  The steps the handlers are made of. A payment is asked for an order of the store and for its
  price; an order is marked paid or refunded only when the pay service has the bill or the refund.
  The seats and the rush store may change in any way.
\<close>

inductive coreStep :: "RouteMap \<Rightarrow> orderWorld \<Rightarrow> orderWorld \<Rightarrow> bool" for m where
  other: "ow_repo w' = ow_repo w \<Longrightarrow> ow_pay w' = ow_pay w \<Longrightarrow> coreStep m w w'"
| load: "coreStep m w (w\<lparr>ow_repo := snd (TransactByOrderNumber m s flt n (loadTx n) (ow_repo w))\<rparr>)"
| cancel: "coreStep m w (w\<lparr>ow_repo := snd (TransactByOrderNumber m s flt n (cancelTx t n) (ow_repo w))\<rparr>)"
| close: "coreStep m w (w\<lparr>ow_repo := snd (TransactByOrderNumber m s flt n (closeTx t n) (ow_repo w))\<rparr>)"
| persist: "wmOk wm \<Longrightarrow>
    coreStep m w (w\<lparr>ow_repo := snd (TransactByOrderNumber m s flt (od_OrderNumber (wm_order wm)) (persistTx wm) (ow_repo w))\<rparr>)"
| pay: "hasOrder (ow_repo w) ord \<Longrightarrow> mp_OrderNumber rq = od_OrderNumber ord \<Longrightarrow> mp_Amount rq = od_OrderPrice ord \<Longrightarrow>
    coreStep m w (w\<lparr>ow_pay := snd (MockPay penv rq (ow_pay w))\<rparr>)"
| refund: "coreStep m w (w\<lparr>ow_pay := snd (Refund penv rrq (ow_pay w))\<rparr>)"
| paid: "billed (ow_pay w) n \<Longrightarrow>
    coreStep m w (w\<lparr>ow_repo := snd (TransactByOrderNumber m s flt n (payTx t n) (ow_repo w))\<rparr>)"
| refunded: "returned (ow_pay w) n \<Longrightarrow>
    coreStep m w (w\<lparr>ow_repo := snd (TransactByOrderNumber m s flt n (refundTx t n) (ow_repo w))\<rparr>)"

section \<open>What a transaction does to the orders of the store\<close>

text \<open>Every order after a transaction is an order before it, moved by the transaction, or new.\<close>

definition arises :: "(DOrder \<Rightarrow> bool) \<Rightarrow> int \<Rightarrow> int set \<Rightarrow> DOrder set \<Rightarrow> DOrder \<Rightarrow> bool" where
  "arises old n S New ord' \<longleftrightarrow> ord' \<in> New \<or> (\<exists>ord. old ord \<and> sameOrder ord ord' \<and>
     (od_OrderStatus ord' = od_OrderStatus ord \<or> (od_OrderNumber ord' = n \<and> od_OrderStatus ord' \<in> S)))"

lemma arises_refl: "old ord \<Longrightarrow> arises old n S New ord"
  using sameOrder_refl by (auto simp: arises_def)

lemma arises_mono: "arises old n S New ord \<Longrightarrow> (\<And>x. old x \<Longrightarrow> old' x) \<Longrightarrow> arises old' n S New ord"
  unfolding arises_def by blast

lemma sameOrder_fields:
  assumes "sameOrder a b"
  shows "od_OrderNumber b = od_OrderNumber a" "od_OrderPrice b = od_OrderPrice a" "od_UserId b = od_UserId a"
  using assms by (auto simp: sameOrder_def)

lemma hasOrder_unique:
  assumes inv: "repoInv m repo" and a: "hasOrder repo a" and b: "hasOrder repo b" and n: "od_OrderNumber a = od_OrderNumber b"
  shows "a = b"
proof -
  obtain k db sfx where 1: "repo k = Some db" "a \<in> set (sd_orders db sfx)" using a by (auto simp: hasOrder_def)
  obtain k' db' sfx' where 2: "repo k' = Some db'" "b \<in> set (sd_orders db' sfx')" using b by (auto simp: hasOrder_def)
  have t: "tableInv (placed m k sfx) (openTx sfx db)" "tableInv (placed m k' sfx') (openTx sfx' db')"
    using inv 1(1) 2(1) by (auto simp: repoInv_def shardInv_def)
  then have "placed m k sfx (od_OrderNumber a)" "placed m k' sfx' (od_OrderNumber b)"
    using 1(2) 2(2) by (auto simp: tableInv_def orderOk_def openTx_def)
  then have "k = k' \<and> sfx = sfx'" using n placed_unique by simp
  then show ?thesis using order_unique [OF t(1), of a b] 1 2 n by (simp add: openTx_def)
qed

definition txMoves :: "int \<Rightarrow> int set \<Rightarrow> DOrder set \<Rightarrow> (orderTx \<Rightarrow> 'a res \<times> orderTx) \<Rightarrow> bool" where
  "txMoves n S New f \<longleftrightarrow> (\<forall>tx a tx'. f tx = (Inr a, tx') \<longrightarrow>
     (\<forall>ord' \<in> set (tx_orders tx'). arises (\<lambda>ord. ord \<in> set (tx_orders tx)) n S New ord'))"

lemma transact_moves:
  assumes "txMoves n S New f" "hasOrder (snd (TransactByOrderNumber m s flt n f repo)) ord'"
  shows "arises (hasOrder repo) n S New ord'"
proof (cases "RouteByOrderNumber m s n")
  case (Inl e)
  then show ?thesis using assms(2) by (simp add: TransactByOrderNumber_def arises_refl)
next
  case (Inr route)
  show ?thesis
  proof (cases "repo (DBKey route)")
    case None
    then show ?thesis using Inr assms(2) by (simp add: TransactByOrderNumber_def transactByRoute_def arises_refl)
  next
    case (Some db)
    let ?k = "DBKey route" and ?sfx = "TableSuffix route"
    let ?tx = "openTx ?sfx db"
    let ?tx' = "snd (runTx flt f ?tx)"
    have "snd (TransactByOrderNumber m s flt n f repo) = repo(?k \<mapsto> commitTx ?sfx ?tx' db)"
      using Inr Some by (simp add: TransactByOrderNumber_def transactByRoute_def case_prod_unfold)
    then obtain k db' sfx where h: "(repo(?k \<mapsto> commitTx ?sfx ?tx' db)) k = Some db'" "ord' \<in> set (sd_orders db' sfx)"
      using assms(2) by (auto simp: hasOrder_def)
    have old: "hasOrder repo x" if "x \<in> set (tx_orders ?tx)" for x
      using that Some by (auto simp: hasOrder_def openTx_def)
    show ?thesis
    proof (cases "k = ?k \<and> sfx = ?sfx")
      case True
      then have new: "ord' \<in> set (tx_orders ?tx')" using h by (auto simp: commitTx_def)
      from runTx_snd [of flt f ?tx] show ?thesis
      proof
        assume "?tx' = ?tx"
        then show ?thesis using new old arises_refl by metis
      next
        assume "\<exists>a d'. f ?tx = (Inr a, d') \<and> ?tx' = d'"
        then have "arises (\<lambda>ord. ord \<in> set (tx_orders ?tx)) n S New ord'"
          using assms(1) new unfolding txMoves_def by blast
        then show ?thesis using old by (rule arises_mono)
      qed
    next
      case False
      have "hasOrder repo ord'"
      proof (cases "k = ?k")
        case True
        then have "ord' \<in> set (sd_orders db sfx)" using h \<open>\<not> (k = ?k \<and> sfx = ?sfx)\<close> by (auto simp: commitTx_def)
        then show ?thesis using Some unfolding hasOrder_def by blast
      next
        case False
        then show ?thesis using h unfolding hasOrder_def by auto
      qed
      then show ?thesis by (rule arises_refl)
    qed
  qed
qed

lemma moveStatus_arises:
  assumes "stampOk stamp" "ord' \<in> set (tx_orders (moveStatus from to stamp now n tx))"
  shows "arises (\<lambda>ord. ord \<in> set (tx_orders tx)) n {to} {} ord'"
proof -
  obtain ord where o: "ord \<in> set (tx_orders tx)" "ord' = moveOrder from to stamp n ord"
    using assms(2) by (auto simp: moveStatus_def)
  obtain c p e where "stamp (ord\<lparr>od_OrderStatus := to\<rparr>)
      = (ord\<lparr>od_OrderStatus := to\<rparr>)\<lparr>od_CancelOrderTime := c, od_PayOrderTime := p, od_EditTime := e\<rparr>"
    using assms(1) unfolding stampOk_def by blast
  then have "sameOrder ord (stamp (ord\<lparr>od_OrderStatus := to\<rparr>))" "od_OrderStatus (stamp (ord\<lparr>od_OrderStatus := to\<rparr>)) = to"
    "od_OrderNumber (stamp (ord\<lparr>od_OrderStatus := to\<rparr>)) = od_OrderNumber ord"
    unfolding sameOrder_def by auto
  then show ?thesis using o sameOrder_refl unfolding arises_def moveOrder_def by auto
qed

lemma tx_moves:
  "txMoves n {} {} (loadTx n)" "txMoves n {orderStatusCancelled} {} (cancelTx t n)" "txMoves n {orderStatusPaid} {} (payTx t n)"
  "txMoves n {orderStatusRefunded} {} (refundTx t n)" "txMoves n {orderStatusCancelled} {} (closeTx t n)"
proof -
  let ?old = "\<lambda>tx ord. ord \<in> set (tx_orders tx)"
  have del: "tx_orders (DeleteGuardsByOrderNumber k tx) = tx_orders tx" for k tx by (simp add: DeleteGuardsByOrderNumber_def)
  have mark: "tx_orders (snd (MarkDelayTaskProcessed ty key now tx)) = tx_orders tx" for ty key now tx
    using mark_outbox [of ty key now tx] by auto
  have find: "od_OrderNumber ord = n" if "FindOrderByNumberForUpdate n tx = Some ord" for tx ord
    using that by (auto simp: FindOrderByNumberForUpdate_def findOrder_def dest: find_someD)
  note upd = UpdateCancelStatus_def UpdatePayStatus_def UpdateOrderRefundStatus_def order_status_defs
  have moves: "txMoves n S {} f"
    if "\<And>tx ord'. ord' \<in> set (tx_orders (snd (f tx))) \<Longrightarrow> arises (?old tx) n S {} ord'" for S and f :: "orderTx \<Rightarrow> 'b res \<times> orderTx"
    unfolding txMoves_def using that by (metis snd_conv)
  show "txMoves n {} {} (loadTx n)"
    by (rule moves) (auto simp: loadTx_def intro: arises_refl split: option.splits)
  show "txMoves n {orderStatusCancelled} {} (cancelTx t n)"
    by (rule moves) (auto simp: cancelTx_def del upd dest!: find intro: arises_refl moveStatus_arises [OF stamps_ok(1)] moveStatus_arises [OF stamps_ok(2)] moveStatus_arises [OF stamps_ok(3)] split: option.splits if_splits)
  show "txMoves n {orderStatusPaid} {} (payTx t n)"
    by (rule moves) (auto simp: payTx_def del upd dest!: find intro: arises_refl moveStatus_arises [OF stamps_ok(1)] moveStatus_arises [OF stamps_ok(2)] moveStatus_arises [OF stamps_ok(3)] split: option.splits if_splits)
  show "txMoves n {orderStatusRefunded} {} (refundTx t n)"
    by (rule moves) (auto simp: refundTx_def del upd dest!: find intro: arises_refl moveStatus_arises [OF stamps_ok(1)] moveStatus_arises [OF stamps_ok(2)] moveStatus_arises [OF stamps_ok(3)] split: option.splits if_splits)
  show "txMoves n {orderStatusCancelled} {} (closeTx t n)"
    by (rule moves) (auto simp: closeTx_snd Let_def del mark upd dest!: find intro: arises_refl moveStatus_arises [OF stamps_ok(1)] moveStatus_arises [OF stamps_ok(2)] moveStatus_arises [OF stamps_ok(3)] split: option.splits if_splits)
qed

lemma persist_moves: "txMoves n {} {wm_order wm} (persistTx wm)"
  unfolding txMoves_def by (auto dest!: persistTx_effect simp: withOrder_def arises_refl) (auto simp: arises_def)

section \<open>The invariant of orders and money\<close>

lemma money_transact:
  assumes "moneyInv repo d" "repoEvolves repo repo'"
    and moves: "\<And>ord'. hasOrder repo' ord' \<Longrightarrow> arises (hasOrder repo) n S New ord'"
    and "orderStatusPaid \<in> S \<Longrightarrow> billed d n" "orderStatusRefunded \<in> S \<Longrightarrow> returned d n"
    and New: "\<And>ord. ord \<in> New \<Longrightarrow> od_OrderStatus ord = orderStatusUnpaid \<and> \<not> billed d (od_OrderNumber ord)"
  shows "moneyInv repo' d"
proof -
  have kept: "\<exists>ord'. hasOrder repo' ord' \<and> od_OrderNumber ord' = od_OrderNumber ord" if o: "hasOrder repo ord" for ord
  proof -
    obtain k db sfx where "repo k = Some db" "ord \<in> set (sd_orders db sfx)" using o by (auto simp: hasOrder_def)
    then obtain db' ord' where 1: "repo' k = Some db'" "ord' \<in> set (sd_orders db' sfx)" "evolves ord ord'"
      using assms(2) unfolding repoEvolves_def by blast
    then have "od_OrderNumber ord' = od_OrderNumber ord" using sameOrder_fields(1) by (auto simp: evolves_def)
    then show ?thesis using 1 unfolding hasOrder_def by blast
  qed
  have "(od_OrderStatus ord' = orderStatusPaid \<longrightarrow> billed d (od_OrderNumber ord'))
      \<and> (od_OrderStatus ord' = orderStatusRefunded \<longrightarrow> returned d (od_OrderNumber ord'))
      \<and> (\<forall>p \<in> set (payBills d). pb_OrderNumber p = od_OrderNumber ord' \<longrightarrow> pb_OrderAmount p = od_OrderPrice ord')"
    if h: "hasOrder repo' ord'" for ord'
  proof (cases "ord' \<in> New")
    case True
    then show ?thesis using New by (auto simp: order_status_defs billed_def)
  next
    case False
    then obtain ord where "hasOrder repo ord" "sameOrder ord ord'"
      "od_OrderStatus ord' = od_OrderStatus ord \<or> (od_OrderNumber ord' = n \<and> od_OrderStatus ord' \<in> S)"
      using moves [OF h] by (auto simp: arises_def)
    then show ?thesis using assms(1,4,5) sameOrder_fields [of ord ord'] by (auto simp: moneyInv_def)
  qed
  moreover have "\<exists>ord. hasOrder repo' ord \<and> od_OrderNumber ord = pb_OrderNumber p" if p: "p \<in> set (payBills d)" for p
  proof -
    obtain ord where "hasOrder repo ord" "od_OrderNumber ord = pb_OrderNumber p" using p assms(1) by (auto simp: moneyInv_def)
    then show ?thesis using kept by metis
  qed
  ultimately show ?thesis unfolding moneyInv_def by simp
qed

lemma money_pay:
  assumes "moneyInv repo d" "payStep d d'"
    and new: "\<And>p'. p' \<in> set (payBills d') \<Longrightarrow> (\<exists>p \<in> set (payBills d). pb_OrderNumber p = pb_OrderNumber p' \<and> pb_OrderAmount p = pb_OrderAmount p')
        \<or> (\<exists>ord. hasOrder repo ord \<and> od_OrderNumber ord = pb_OrderNumber p'
            \<and> (\<forall>x. hasOrder repo x \<longrightarrow> od_OrderNumber x = pb_OrderNumber p' \<longrightarrow> pb_OrderAmount p' = od_OrderPrice x))"
  shows "moneyInv repo d'"
proof -
  have keep: "billed d n \<Longrightarrow> billed d' n" "returned d n \<Longrightarrow> returned d' n" for n
    using bill_kept [OF assms(2)] refund_rows_kept [OF assms(2)]
    by (auto simp: billed_def returned_def hasBill_def) blast
  have owner: "\<exists>ord. hasOrder repo ord \<and> od_OrderNumber ord = pb_OrderNumber p" if "p \<in> set (payBills d)" for p
    using that assms(1) by (auto simp: moneyInv_def)
  have price: "pb_OrderAmount p = od_OrderPrice ord" if "p \<in> set (payBills d)" "hasOrder repo ord" "pb_OrderNumber p = od_OrderNumber ord" for p ord
    using that assms(1) by (auto simp: moneyInv_def)
  have "\<exists>ord. hasOrder repo ord \<and> od_OrderNumber ord = pb_OrderNumber p'" if "p' \<in> set (payBills d')" for p'
    using new [OF that] owner by metis
  moreover have "pb_OrderAmount p' = od_OrderPrice ord"
    if "hasOrder repo ord" "p' \<in> set (payBills d')" "pb_OrderNumber p' = od_OrderNumber ord" for p' ord
    using new [OF that(2)] price that by metis
  moreover have "(od_OrderStatus ord = orderStatusPaid \<longrightarrow> billed d' (od_OrderNumber ord))
      \<and> (od_OrderStatus ord = orderStatusRefunded \<longrightarrow> returned d' (od_OrderNumber ord))" if "hasOrder repo ord" for ord
    using that keep assms(1) by (simp add: moneyInv_def)
  ultimately show ?thesis unfolding moneyInv_def by simp
qed

lemma Refund_bills:
  assumes "p' \<in> set (payBills (snd (Refund env rq d)))"
  shows "\<exists>p \<in> set (payBills d). pb_OrderNumber p = pb_OrderNumber p' \<and> pb_OrderAmount p = pb_OrderAmount p'"
  using assms Refund_effect [of env rq d] by (auto simp: UpdateRefundStatus_def) blast+

lemma MockPay_bills:
  assumes "p' \<in> set (payBills (snd (MockPay env rq d)))"
  shows "p' \<in> set (payBills d) \<or> (pb_OrderNumber p' = mp_OrderNumber rq \<and> pb_OrderAmount p' = mp_Amount rq)"
  using assms MockPay_effect [of env rq d] by (auto simp: newPayBill_def)

lemma core_repo:
  assumes "worldInv m w" "repoStep m (ow_repo w) (snd (TransactByOrderNumber m s flt n f (ow_repo w)))" "txMoves n S New f"
    and "orderStatusPaid \<in> S \<Longrightarrow> billed (ow_pay w) n" "orderStatusRefunded \<in> S \<Longrightarrow> returned (ow_pay w) n"
    and "\<And>ord. ord \<in> New \<Longrightarrow> od_OrderStatus ord = orderStatusUnpaid \<and> \<not> billed (ow_pay w) (od_OrderNumber ord)"
  shows "worldInv m (w\<lparr>ow_repo := snd (TransactByOrderNumber m s flt n f (ow_repo w))\<rparr>)"
proof -
  have "repoInv m (ow_repo w)" "payInv (ow_pay w)" "moneyInv (ow_repo w) (ow_pay w)" using assms(1) by (simp_all add: worldInv_def)
  moreover note repoStep_step [OF this(1) assms(2)]
  ultimately show ?thesis
    using money_transact [of "ow_repo w" "ow_pay w" _ n S New, OF _ _ transact_moves [OF assms(3)] assms(4-6)] by (simp add: worldInv_def)
qed

text \<open>A transaction that stores an order that is already there changes nothing.\<close>

lemma persist_again:
  assumes inv: "repoInv m repo" and ord: "hasOrder repo ord" "od_OrderNumber ord = od_OrderNumber (wm_order wm)"
  shows "snd (TransactByOrderNumber m s flt (od_OrderNumber (wm_order wm)) (persistTx wm) repo) = repo"
proof (cases "RouteByOrderNumber m s (od_OrderNumber (wm_order wm))")
  case (Inl e)
  then show ?thesis by (simp add: TransactByOrderNumber_def)
next
  case (Inr route)
  obtain k db sfx where h: "repo k = Some db" "ord \<in> set (sd_orders db sfx)" using ord(1) by (auto simp: hasOrder_def)
  then have "placed m k sfx (od_OrderNumber ord)" using inv by (auto simp: repoInv_def shardInv_def tableInv_def orderOk_def openTx_def)
  moreover have "placed m (DBKey route) (TableSuffix route) (od_OrderNumber ord)" using Inr ord(2) by (auto simp: placed_def)
  ultimately have k: "k = DBKey route" "sfx = TableSuffix route" using placed_unique by blast+
  have "od_OrderNumber (wm_order wm) \<in> od_OrderNumber ` set (tx_orders (openTx sfx db))" using h(2) ord(2) by (auto simp: openTx_def intro!: image_eqI [of _ _ ord])
  then have "persistTx wm (openTx sfx db) = (Inr (), openTx sfx db)"
    by (simp add: persistTx_def InsertOrder_def isDuplicateOrderNumberErr_def)
  then show ?thesis using Inr h(1) k
    by (auto simp: TransactByOrderNumber_def transactByRoute_def runTx_def fun_eq_iff split: txfault.splits)
qed

lemma coreStep_inv:
  assumes inv: "worldInv m w" and step: "coreStep m w w'"
  shows "worldInv m w'"
  using step
proof cases
  case other
  then show ?thesis using inv by (simp add: worldInv_def)
next
  case (persist wm s flt)
  show ?thesis
  proof (cases "billed (ow_pay w) (od_OrderNumber (wm_order wm))")
    case True
    then obtain ord where "hasOrder (ow_repo w) ord" "od_OrderNumber ord = od_OrderNumber (wm_order wm)"
      using inv by (auto simp: billed_def worldInv_def moneyInv_def)
    then show ?thesis using persist_again [of m "ow_repo w" ord wm] inv by (simp add: persist(1) worldInv_def)
  next
    case False
    then show ?thesis unfolding persist(1) using persist(2)
      by (intro core_repo [OF inv _ persist_moves] repoStep.persist) (auto simp: wmOk_def Let_def)
  qed
next
  case (pay ord rq penv)
  have r: "repoInv m (ow_repo w)" and p: "payInv (ow_pay w)" and mo: "moneyInv (ow_repo w) (ow_pay w)"
    using inv by (simp_all add: worldInv_def)
  have uniq: "od_OrderPrice x = od_OrderPrice ord" if "hasOrder (ow_repo w) x" "od_OrderNumber x = od_OrderNumber ord" for x
    using hasOrder_unique [OF r that(1) pay(2) that(2)] by simp
  have "moneyInv (ow_repo w) (snd (MockPay penv rq (ow_pay w)))"
  proof (rule money_pay [OF mo payStep.pay])
    fix p' assume "p' \<in> set (payBills (snd (MockPay penv rq (ow_pay w))))"
    from MockPay_bills [OF this] show "(\<exists>p \<in> set (payBills (ow_pay w)). pb_OrderNumber p = pb_OrderNumber p' \<and> pb_OrderAmount p = pb_OrderAmount p')
        \<or> (\<exists>ord. hasOrder (ow_repo w) ord \<and> od_OrderNumber ord = pb_OrderNumber p'
            \<and> (\<forall>x. hasOrder (ow_repo w) x \<longrightarrow> od_OrderNumber x = pb_OrderNumber p' \<longrightarrow> pb_OrderAmount p' = od_OrderPrice x))"
      using pay(2-4) uniq by metis
  qed
  then show ?thesis using r pay_sys.inv_step [OF p payStep.pay] by (simp add: worldInv_def pay(1))
next
  case (refund penv rrq)
  have r: "repoInv m (ow_repo w)" and p: "payInv (ow_pay w)" and mo: "moneyInv (ow_repo w) (ow_pay w)"
    using inv by (simp_all add: worldInv_def)
  have "moneyInv (ow_repo w) (snd (Refund penv rrq (ow_pay w)))"
    by (rule money_pay [OF mo payStep.refund]) (use Refund_bills in blast)
  then show ?thesis using r pay_sys.inv_step [OF p payStep.refund] by (simp add: worldInv_def refund)
next
  case (load s flt n)
  show ?thesis unfolding load by (rule core_repo [OF inv repoStep.load tx_moves(1)]) simp_all
next
  case (cancel s flt n t)
  show ?thesis unfolding cancel by (rule core_repo [OF inv repoStep.cancel tx_moves(2)]) (simp_all add: order_status_defs)
next
  case (close s flt n t)
  show ?thesis unfolding close by (rule core_repo [OF inv repoStep.close tx_moves(5)]) (simp_all add: order_status_defs)
next
  case (paid n s flt t)
  show ?thesis unfolding paid(1) by (rule core_repo [OF inv repoStep.pay tx_moves(3)]) (use paid(2) in \<open>simp_all add: order_status_defs\<close>)
next
  case (refunded n s flt t)
  show ?thesis unfolding refunded(1) by (rule core_repo [OF inv repoStep.refund tx_moves(4)]) (use refunded(2) in \<open>simp_all add: order_status_defs\<close>)
qed

interpretation order_core: step_invariant "coreStep m" "worldInv m" for m
  by unfold_locales (rule coreStep_inv)

section \<open>Handlers are made of these steps\<close>

abbreviation reach :: "RouteMap \<Rightarrow> orderWorld \<Rightarrow> orderWorld \<Rightarrow> bool" where
  "reach m \<equiv> (coreStep m)\<^sup>*\<^sup>*"

lemmas reach_step = r_into_rtranclp [of "coreStep _"]

lemma reach_case:
  assumes "worldInv m w" "reach m w (snd p)"
    and "\<And>e w1. p = (Inl e, w1) \<Longrightarrow> worldInv m w1 \<Longrightarrow> reach m w1 (snd (A e w1))"
    and "\<And>a w1. p = (Inr a, w1) \<Longrightarrow> worldInv m w1 \<Longrightarrow> reach m w1 (snd (B a w1))"
  shows "reach m w (snd (case p of (Inl e, w1) \<Rightarrow> A e w1 | (Inr a, w1) \<Rightarrow> B a w1))"
proof -
  obtain r w1 where p: "p = (r, w1)" by fastforce
  have inv: "worldInv m w1" using order_core.run_inv [OF assms(2,1)] by (simp add: p)
  show ?thesis using assms(2) assms(3,4) [OF _ inv] by (cases r) (auto simp: p intro: rtranclp_trans)
qed

lemma transact_snd:
  "snd (transact env i n f w) = w\<lparr>ow_repo := snd (TransactByOrderNumber (oe_Map env) (oe_Sec env) (oe_Tx env i) n f (ow_repo w))\<rparr>"
  by (simp add: transact_def case_prod_unfold)

lemma payCall_snd:
  "snd (payCall env i f w) = w \<or> snd (payCall env i f w) = w\<lparr>ow_pay := snd (f (ow_pay w))\<rparr>"
  by (auto simp: payCall_def eval_ctx_def case_prod_unfold split: fault.splits)

lemma reach_refl: "reach m w w" by simp

lemma reach_other: "ow_repo w' = ow_repo w \<Longrightarrow> ow_pay w' = ow_pay w \<Longrightarrow> reach m w w'"
  by (rule r_into_rtranclp) (rule coreStep.other)

lemma load_reach: "reach (oe_Map env) w (snd (loadOrderSnapshot env i n w))"
  unfolding loadOrderSnapshot_def transact_snd by (rule r_into_rtranclp) (rule coreStep.load)

lemma cancel_reach: "reach (oe_Map env) w (snd (finalizeOrderCancel env i n w))"
  unfolding finalizeOrderCancel_def transact_snd by (rule r_into_rtranclp) (rule coreStep.cancel)

lemma close_reach: "reach (oe_Map env) w (snd (finalizeCloseTimeoutTask env i n t w))"
  unfolding finalizeCloseTimeoutTask_def transact_snd by (rule r_into_rtranclp) (rule coreStep.close)

lemma finalizePay_reach: "billed (ow_pay w) n \<Longrightarrow> reach (oe_Map env) w (snd (finalizeOrderPay env i n t w))"
  unfolding finalizeOrderPay_def transact_snd by (rule r_into_rtranclp) (rule coreStep.paid)

lemma converge_reach: "returned (ow_pay w) n \<Longrightarrow> reach (oe_Map env) w (snd (convergeOrderRefunded env i n w))"
  unfolding convergeOrderRefunded_def transact_snd by (rule r_into_rtranclp) (rule coreStep.refunded)

lemma seatCall_frame: "ow_repo (snd (seatCall env f w)) = ow_repo w" "ow_pay (snd (seatCall env f w)) = ow_pay w"
  "ow_rush (snd (seatCall env f w)) = ow_rush w"
  by (simp_all add: seatCall_def case_prod_unfold)

lemma sync_frame: "ow_repo (snd (syncClosedRushAttempt env st n t w)) = ow_repo w"
  "ow_pay (snd (syncClosedRushAttempt env st n t w)) = ow_pay w" "ow_seats (snd (syncClosedRushAttempt env st n t w)) = ow_seats w"
  by (auto simp: syncClosedRushAttempt_def split: sum.splits prod.splits)

lemma seat_reach: "reach m w (snd (seatCall env f w))"
  by (rule reach_other) (simp_all add: seatCall_frame)

lemma sync_reach: "reach m w (snd (syncClosedRushAttempt env st n t w))"
  by (rule reach_other) (simp_all add: sync_frame)

lemma refund_reach: "reach m w (snd (payCall env i (Refund penv rq) w))"
  using payCall_snd [of env i "Refund penv rq" w] r_into_rtranclp [of "coreStep m", OF coreStep.refund] by auto

lemma mock_reach:
  assumes "hasOrder (ow_repo w) ord" "mp_OrderNumber rq = od_OrderNumber ord" "mp_Amount rq = od_OrderPrice ord"
  shows "reach m w (snd (payCall env i (MockPay penv rq) w))"
  using payCall_snd [of env i "MockPay penv rq" w] r_into_rtranclp [of "coreStep m", OF coreStep.pay [OF assms]] by auto

text \<open>What a handler learns from a reply.\<close>

lemma loaded:
  assumes "loadOrderSnapshot env i n w = (Inr ord, w1)"
  shows "od_OrderNumber ord = n \<and> hasOrder (ow_repo w1) ord"
proof -
  obtain route db tx where route: "RouteByOrderNumber (oe_Map env) (oe_Sec env) n = Inr route" "ow_repo w (DBKey route) = Some db"
    and run: "runTx (oe_Tx env i) (loadTx n) (openTx (TableSuffix route) db) = (Inr ord, tx)"
    and w1: "ow_repo w1 = (ow_repo w)(DBKey route \<mapsto> commitTx (TableSuffix route) tx db)"
    using assms by (auto simp: loadOrderSnapshot_def transact_def TransactByOrderNumber_def transactByRoute_def
        split: sum.splits option.splits prod.splits)
  have "findOrder (sd_orders db (TableSuffix route)) n = Some ord" "tx = openTx (TableSuffix route) db"
    using run by (auto simp: runTx_def loadTx_def FindOrderByNumberForUpdate_def openTx_def split: option.splits txfault.splits)
  then have "od_OrderNumber ord = n" "ord \<in> set (sd_orders db (TableSuffix route))" "ow_repo w1 (DBKey route) = Some db"
    using w1 by (auto simp: findOrder_def dest: find_someD)
  then show ?thesis unfolding hasOrder_def by blast
qed

lemma owned:
  assumes "findOwnedOrder env i u n w = Inr ord"
  shows "od_OrderNumber ord = n" "hasOrder (ow_repo w) ord" "od_UserId ord = u"
proof -
  obtain route :: Route and db where "ow_repo w (DBKey route) = Some db" "findOrder (sd_orders db (TableSuffix route)) n = Some ord" "od_UserId ord = u"
    using assms by (auto simp: findOwnedOrder_def FindOrderByNumber_def queryRoute_def split: sum.splits option.splits if_splits)
  then show "od_OrderNumber ord = n" "hasOrder (ow_repo w) ord" "od_UserId ord = u"
    unfolding hasOrder_def findOrder_def by (blast dest: find_someD)+
qed

lemma payCall_reply:
  assumes "payCall env i f w = (Inr a, w1)"
  shows "\<exists>d. f (ow_pay w) = (Inr a, d) \<and> w1 = w\<lparr>ow_pay := d\<rparr>"
  using assms by (auto simp: payCall_def eval_ctx_def wireRes_def split: fault.splits prod.splits sum.splits)

lemma paid_billed:
  assumes "worldInv m w" "payCall env i (MockPay penv rq) w = (Inr resp, w1)"
  shows "billed (ow_pay w1) (mp_OrderNumber rq)"
  using payCall_reply [OF assms(2)] MockPay_bill [of "ow_pay w" penv rq resp] assms(1) by (auto simp: worldInv_def billed_def)

lemma refunded_returned:
  assumes "worldInv m w" "payCall env i (Refund penv rq) w = (Inr resp, w1)"
  shows "returned (ow_pay w1) (rr_OrderNumber rq)"
  using payCall_reply [OF assms(2)] Refund_row [of "ow_pay w" penv rq resp] assms(1) by (auto simp: worldInv_def returned_def)

lemma payRead_reply: "payRead env i f w = Inr a \<Longrightarrow> f (ow_pay w) = Inr a"
  unfolding payRead_def by (cases "payCall env i (\<lambda>d. (f d, d)) w") (auto dest: payCall_reply)

lemma GetPayBill_row:
  "GetPayBill env n d = Inr b \<Longrightarrow> \<exists>p \<in> set (payBills d). pb_OrderNumber p = n \<and> b = mapGetPayBillResp (pe_Format env) p"
  by (auto simp: GetPayBill_def payFindOneByOrderNumber_def split: sum.splits option.splits dest: find_someD)

lemma bill_returned:
  assumes "worldInv m w" "payRead env i (GetPayBill penv n) w = Inr b" "gb_PayStatus b = payStatusRefunded"
  shows "returned (ow_pay w) n"
proof -
  obtain p where p: "p \<in> set (payBills (ow_pay w))" "pb_OrderNumber p = n" "pb_PayStatus p = payStatusRefunded"
    using GetPayBill_row [OF payRead_reply [OF assms(2)]] assms(3) by (auto simp: mapGetPayBillResp_def)
  moreover have "payInv (ow_pay w)" using assms(1) by (simp add: worldInv_def)
  ultimately obtain r where "r \<in> set (refundBills (ow_pay w))" "refundOf r p" by (auto simp: payInv_def)
  then show ?thesis using p(2) by (auto simp: returned_def refundOf_def)
qed

lemma cancelWithLock_reach:
  assumes inv: "worldInv (oe_Map env) w"
  shows "reach (oe_Map env) w (snd (cancelOrderWithLock env n u own w))"
  unfolding cancelOrderWithLock_def
  by (cases "lockOrderStatusGuard env")
    (auto intro!: reach_case [OF _ load_reach] reach_case [OF _ seat_reach] reach_case [OF _ cancel_reach] sync_reach inv)

lemma CancelOrder_reach:
  assumes inv: "worldInv (oe_Map env) w"
  shows "reach (oe_Map env) w (snd (CancelOrder env u n w))"
  unfolding CancelOrder_def
  by (cases "validateUserOrderReq u n") (auto intro!: reach_case [OF _ cancelWithLock_reach] inv)

lemma CloseExpiredOrder_reach:
  assumes inv: "worldInv (oe_Map env) w"
  shows "reach (oe_Map env) w (snd (CloseExpiredOrder env n w))"
proof -
  have "reach (oe_Map env) w1 (snd (seatCall env f (snd (syncClosedRushAttempt env st k t w1))))" for f st k t w1
    using sync_reach seat_reach by (rule rtranclp_trans)
  then show ?thesis unfolding CloseExpiredOrder_def Let_def
    by (cases "lockOrderStatusGuard env") (auto intro!: reach_case [OF _ close_reach] inv split: option.splits)
qed

lemma closeBatch_reach:
  assumes "worldInv m w" "\<And>n. oe_Map (envs n) = m"
  shows "reach m w (snd (closeBatch envs orders closed w))"
  using assms(1)
proof (induction orders arbitrary: closed w)
  case (Cons ord orders)
  then show ?case using cancelWithLock_reach [of "envs _"] assms(2)
    by (auto intro!: reach_case)
qed simp

lemma closeSlots_reach:
  assumes "worldInv m w" "\<And>n. oe_Map (envs n) = m"
  shows "reach m w (snd (closeSlots env envs now slots remaining closed w))"
  using assms(1)
proof (induction slots arbitrary: remaining closed w)
  case (Cons slot slots)
  then show ?case
    by (auto intro!: reach_case closeBatch_reach assms(2) split: sum.split)
qed simp

lemma CloseExpiredOrders_reach:
  assumes "worldInv m w" "\<And>n. oe_Map (envs n) = m"
  shows "reach m w (snd (CloseExpiredOrders env envs limit st cnt w))"
  using closeSlots_reach [OF assms] by (simp add: CloseExpiredOrders_def split: prod.split)

lemma PayOrder_reach:
  assumes inv: "worldInv (oe_Map env) w"
  shows "reach (oe_Map env) w (snd (PayOrder env u n subj ch w))"
proof -
  let ?m = "oe_Map env"
  have fin: "reach ?m w2 (snd (case seatCall env f w2 of (Inl e, w3) \<Rightarrow> (Inl (mapOrderError e), w3) | (Inr _, w3) \<Rightarrow>
      (case t of Inl e \<Rightarrow> (Inl (mapOrderError e), w3) | Inr payTime \<Rightarrow>
      (case finalizeOrderPay env j k payTime w3 of (Inl e, w4) \<Rightarrow> (Inl (mapOrderError e), w4) | (Inr _, w4) \<Rightarrow> (Inr r, w4)))))"
    if "worldInv ?m w2" "billed (ow_pay w2) k" for w2 k t j and r :: PayOrderResp and f :: "seatWorld \<Rightarrow> bool res \<times> seatWorld"
  proof (rule reach_case [OF that(1) seat_reach])
    fix a w3 assume s: "seatCall env f w2 = (Inr a, w3)" and inv3: "worldInv ?m w3"
    have "billed (ow_pay w3) k" using seatCall_frame(2) [of env f w2] that(2) by (simp add: s)
    then show "reach ?m w3 (snd (case t of Inl e \<Rightarrow> (Inl (mapOrderError e), w3) | Inr payTime \<Rightarrow>
        (case finalizeOrderPay env j k payTime w3 of (Inl e, w4) \<Rightarrow> (Inl (mapOrderError e), w4) | (Inr _, w4) \<Rightarrow> (Inr r, w4))))"
      by (cases t) (auto intro!: reach_case [OF inv3 finalizePay_reach])
  qed simp
  have paid: "reach ?m w1 (snd (case payCall env j (MockPay penv rq) w1 of (Inl e, w2) \<Rightarrow> (Inl (mapOrderError e), w2) | (Inr resp, w2) \<Rightarrow> g resp w2))"
    if "worldInv ?m w1" "hasOrder (ow_repo w1) ord" "mp_OrderNumber rq = od_OrderNumber ord" "mp_Amount rq = od_OrderPrice ord"
      "\<And>resp w2. worldInv ?m w2 \<Longrightarrow> billed (ow_pay w2) (od_OrderNumber ord) \<Longrightarrow> reach ?m w2 (snd (g resp w2))"
    for w1 ord rq penv j and g :: "MockPayResp \<Rightarrow> orderWorld \<Rightarrow> PayOrderResp res \<times> orderWorld"
    by (rule reach_case [OF that(1) mock_reach [OF that(2-4)]])
      (auto intro!: that(5) dest: paid_billed [OF that(1)] simp: that(3) [symmetric])
  show ?thesis unfolding PayOrder_def Let_def
    by (cases "validateUserOrderReq u n"; cases "lockOrderStatusGuard env")
      (auto intro!: reach_case [OF inv load_reach] paid fin dest!: loaded split: sum.split)
qed

lemma converge_after_refund:
  assumes "worldInv (oe_Map env) w" and "\<And>resp w1. B resp w1 = (case convergeOrderRefunded env i (rr_OrderNumber rq) w1 of (Inl e, w2) \<Rightarrow> (E e, w2) | (Inr _, w2) \<Rightarrow> (r resp, w2))"
  shows "reach (oe_Map env) w (snd (case payCall env j (Refund penv rq) w of (Inl e, w1) \<Rightarrow> (E' e, w1) | (Inr resp, w1) \<Rightarrow> B resp w1))"
proof (rule reach_case [OF assms(1) refund_reach], goal_cases)
  case (2 resp w1)
  have "returned (ow_pay w1) (rr_OrderNumber rq)" using refunded_returned [OF assms(1) 2(1)] .
  then show ?case unfolding assms(2) by (auto intro!: reach_case [OF 2(2) converge_reach])
qed simp

lemma PayCheck_reach:
  assumes inv: "worldInv (oe_Map env) w"
  shows "reach (oe_Map env) w (snd (PayCheck env u n w))"
  unfolding PayCheck_def Let_def
  by (cases "validateUserOrderReq u n")
    (auto intro!: reach_case [OF inv converge_reach] converge_after_refund [OF inv] dest: bill_returned [OF inv] split: sum.split)

lemma refundOrReuse_reach:
  assumes inv: "worldInv m w"
  shows "reach m w (snd (refundOrReuse env ord b u reason w))"
    "refundOrReuse env ord b u reason w = (Inr x, w1) \<Longrightarrow> returned (ow_pay w1) (od_OrderNumber ord)"
proof -
  show "reach m w (snd (refundOrReuse env ord b u reason w))"
    unfolding refundOrReuse_def refundCall_def by (auto intro!: reach_case [OF inv refund_reach] split: sum.split)
  show "returned (ow_pay w1) (od_OrderNumber ord)" if "refundOrReuse env ord b u reason w = (Inr x, w1)"
    using that unfolding refundOrReuse_def refundCall_def
    by (auto split: if_splits sum.splits prod.splits dest!: refunded_returned [OF inv])
qed

lemma RefundOrder_reach:
  assumes inv: "worldInv (oe_Map env) w"
  shows "reach (oe_Map env) w (snd (RefundOrder env u n reason w))"
proof -
  let ?m = "oe_Map env"
  have fin: "reach ?m w1 (snd (case (if c then seatCall env f w1 else (Inr True, w1)) of (Inl e, w2) \<Rightarrow> (Inl (mapOrderError e), w2)
      | (Inr _, w2) \<Rightarrow> (case convergeOrderRefunded env 0 k w2 of (Inl e, w3) \<Rightarrow> (Inl (mapOrderError e), w3) | (Inr _, w3) \<Rightarrow> (Inr r, w3))))"
    if "worldInv ?m w1" "returned (ow_pay w1) k" for w1 k c f and r :: RefundOrderResp
  proof (rule reach_case [OF that(1)], goal_cases)
    case (3 a w2)
    then have "ow_pay w2 = ow_pay w1" using seatCall_frame(2) [of env f w1] by (auto split: if_splits)
    then show ?case using that(2) by (auto intro!: reach_case [OF 3(2) converge_reach])
  qed (simp_all add: seat_reach)
  show ?thesis unfolding RefundOrder_def Let_def
    by (cases "validateUserOrderReq u n")
      (auto intro!: reach_case [OF inv refundOrReuse_reach(1) [OF inv]] reach_case [OF inv refund_reach] fin
        dest: refundOrReuse_reach(2) [OF inv] simp: refundCall_def split: sum.split)
qed

section \<open>The consumer writes orders that hold together\<close>

lemma writeRows_ok:
  assumes "writeRows ev ids k ct now us ss = (ts, vs, gs)"
  shows "(\<forall>t \<in> set ts. ot_OrderNumber t = ev_OrderNumber ev \<and> ot_Status t = 1 \<and> ot_OrderStatus t = orderStatusUnpaid
      \<and> hasGuard vs (ev_OrderNumber ev) (ev_ShowTimeID ev) (ot_TicketUserId t) \<and> hasGuard gs (ev_OrderNumber ev) (ev_ShowTimeID ev) (ot_SeatId t))
    \<and> (\<forall>g \<in> set (vs @ gs). gd_OrderNumber g = ev_OrderNumber ev)
    \<and> map ot_TicketUserId ts = map us_TicketUserID (take (length ss) us) \<and> map ot_SeatId ts = map ss_SeatID (take (length us) ss)"
  using assms
proof (induction ev ids k ct now us ss arbitrary: ts vs gs rule: writeRows.induct)
  case (1 ev ids k ct now u us s ss)
  obtain ts' vs' gs' where r: "writeRows ev ids (k + 3) ct now us ss = (ts', vs', gs')" using prod_cases3 by blast
  from 1(1) [OF r] 1(2) r show ?case
    by (auto simp: ticketRow_def guardRow_def hasGuard_def guardKey_def)
qed auto

lemma writeModels_ok:
  assumes "mapEventToOrderWriteModels env ids ev now = Inr wm"
  shows "wmOk wm" "od_OrderNumber (wm_order wm) = ev_OrderNumber ev"
    "od_OrderPrice (wm_order wm) = wrap64 (cs_Price (ev_TicketCategorySnapshot ev) * int (length (ev_TicketUserSnapshot ev)))"
    "map ot_TicketUserId (wm_orderTickets wm) = map us_TicketUserID (ev_TicketUserSnapshot ev)"
    "map ot_SeatId (wm_orderTickets wm) = map ss_SeatID (ev_SeatSnapshot ev)"
proof -
  obtain ct where ct: "parseOrderTime env (ev_OccurredAt ev) = Inr ct"
    using assms by (auto simp: mapEventToOrderWriteModels_def split: if_splits sum.splits)
  obtain ts vs gs where r: "writeRows ev ids 1 ct now (ev_TicketUserSnapshot ev) (ev_SeatSnapshot ev) = (ts, vs, gs)" using prod_cases3 by blast
  have len: "length (ev_TicketUserSnapshot ev) = length (ev_SeatSnapshot ev)"
    using assms by (auto simp: mapEventToOrderWriteModels_def split: if_splits)
  note rows = writeRows_ok [OF r]
  have wm: "wm_orderTickets wm = ts" "wm_viewerGuards wm = vs" "wm_seatGuards wm = gs" "od_OrderNumber (wm_order wm) = ev_OrderNumber ev"
    "od_ShowTimeId (wm_order wm) = ev_ShowTimeID ev" "od_UserId (wm_order wm) = ev_UserID ev" "od_Status (wm_order wm) = 1"
    "od_OrderStatus (wm_order wm) = orderStatusUnpaid" "\<exists>i. wm_userGuard wm = guardRow ev i now (ev_UserID ev)"
    "od_OrderPrice (wm_order wm) = wrap64 (cs_Price (ev_TicketCategorySnapshot ev) * int (length (ev_TicketUserSnapshot ev)))"
    using assms ct r by (auto simp: mapEventToOrderWriteModels_def Let_def split: if_splits sum.splits)
  show "wmOk wm" using rows wm by (auto simp: wmOk_def Let_def hasGuard_def guardRow_def guardKey_def)
  show "od_OrderNumber (wm_order wm) = ev_OrderNumber ev" by (rule wm)
  show "od_OrderPrice (wm_order wm) = wrap64 (cs_Price (ev_TicketCategorySnapshot ev) * int (length (ev_TicketUserSnapshot ev)))" by (rule wm)
  show "map ot_TicketUserId (wm_orderTickets wm) = map us_TicketUserID (ev_TicketUserSnapshot ev)"
    "map ot_SeatId (wm_orderTickets wm) = map ss_SeatID (ev_SeatSnapshot ev)"
    using rows wm(1) len by simp_all
qed

lemma built_number:
  assumes "buildConsumerOrderEvent env ev t w = (Inr (event, fr), w1)"
  shows "ev_OrderNumber event = ev_OrderNumber ev"
  using assms by (auto simp: buildConsumerOrderEvent_def buildOrderCreateEventFromSnapshots_def Let_def
      split: if_splits sum.splits prod.splits option.splits)

lemma freeze_frame: "ow_repo (snd (freezeSeatsWithRetry env rq w)) = ow_repo w" "ow_pay (snd (freezeSeatsWithRetry env rq w)) = ow_pay w"
  by (auto simp: freezeSeatsWithRetry_def freezeCall_def split: sum.splits prod.splits)

lemma build_frame: "ow_repo (snd (buildConsumerOrderEvent env ev t w)) = ow_repo w" "ow_pay (snd (buildConsumerOrderEvent env ev t w)) = ow_pay w"
  using freeze_frame [of env _ w]
  by (auto simp: buildConsumerOrderEvent_def Let_def split: sum.split prod.split) (metis snd_conv)+

lemma release_frame: "ow_repo (releaseOrderCreateFreeze env tok w) = ow_repo w" "ow_pay (releaseOrderCreateFreeze env tok w) = ow_pay w"
  by (simp_all add: releaseOrderCreateFreeze_def seatCall_frame)

lemma finalize_frame:
  "ow_repo (finalizeSuccess env i a t w) = ow_repo w" "ow_pay (finalizeSuccess env i a t w) = ow_pay w"
  "ow_repo (snd (finalizeFailure env i a rs tok w)) = ow_repo w" "ow_pay (snd (finalizeFailure env i a rs tok w)) = ow_pay w"
  "ow_repo (snd (resolveOrderPersistFailure env n a fr e t w)) = ow_repo w" "ow_pay (snd (resolveOrderPersistFailure env n a fr e t w)) = ow_pay w"
proof -
  show 1: "ow_repo (finalizeSuccess env i a t w) = ow_repo w" "ow_pay (finalizeSuccess env i a t w) = ow_pay w" for i
    by (simp_all add: finalizeSuccess_def)
  show 2: "ow_repo (snd (finalizeFailure env i a rs tok w)) = ow_repo w" "ow_pay (snd (finalizeFailure env i a rs tok w)) = ow_pay w" for i rs tok
    by (auto simp: finalizeFailure_def Let_def release_frame split: sum.split prod.split)
  show "ow_repo (snd (resolveOrderPersistFailure env n a fr e t w)) = ow_repo w" "ow_pay (snd (resolveOrderPersistFailure env n a fr e t w)) = ow_pay w"
    by (auto simp: resolveOrderPersistFailure_def Let_def 1 2 split: sum.split)
qed

lemma persist_reach:
  assumes "mapEventToOrderWriteModels b ids event now = Inr wm" "ev_OrderNumber event = n"
  shows "reach (oe_Map env) w (snd (transact env i n (persistTx wm) w))"
  using r_into_rtranclp [of "coreStep (oe_Map env)", OF coreStep.persist [OF writeModels_ok(1) [OF assms(1)]]] writeModels_ok(2) [OF assms(1)] assms(2)
  by (simp add: transact_snd)

lemma finish_reach:
  "reach m w (finalizeSuccess env i a t w)" "reach m w (snd (finalizeFailure env i a rs tok w))"
  "reach m w (snd (resolveOrderPersistFailure env n a fr e t w))"
  by (rule reach_other; simp add: finalize_frame)+

lemma consumeAttempt_reach:
  assumes inv: "worldInv (oe_Map (ce_Base env)) w"
  shows "reach (oe_Map (ce_Base env)) w (snd (consumeAttempt env ev t now a w))"
proof -
  let ?m = "oe_Map (ce_Base env)"
  obtain r w1 where b: "buildConsumerOrderEvent env ev t w = (r, w1)" by fastforce
  have r1: "reach ?m w w1" by (rule reach_other) (use build_frame [of env ev t w] b in simp_all)
  then have inv1: "worldInv ?m w1" using inv by (rule order_core.run_inv)
  have rest: "reach ?m w1 (snd (case transact (ce_Base env) 0 (ev_OrderNumber ev) (persistTx wm) w1 of
        (Inl e, w2) \<Rightarrow> (if isGuardConflictErr e then finalizeFailure env 1 a rs (od_FreezeToken (wm_order wm)) w2
                       else resolveOrderPersistFailure env (ev_OrderNumber ev) a fr e now w2)
      | (Inr _, w2) \<Rightarrow> (Inr (), finalizeSuccess env 1 a now w2)))"
    if "mapEventToOrderWriteModels b' ids event now = Inr wm" "r = Inr (event, fr)" for b' ids wm event fr rs
    using persist_reach [OF that(1)] built_number [of env ev t w event fr w1] b that(2)
    by (intro reach_case [OF inv1]) (auto simp: finish_reach)
  have "reach ?m w w2" if "reach ?m w1 w2" for w2 using r1 that by (rule rtranclp_trans)
  then show ?thesis unfolding consumeAttempt_def Let_def b
    using r1 rest finish_reach
    by (cases r) (auto split: sum.split buildError.split)
qed

lemma Consume_reach:
  assumes inv: "worldInv (oe_Map (ce_Base env)) w"
  shows "reach (oe_Map (ce_Base env)) w (snd (Consume env body w))"
proof -
  have prep: "reach (oe_Map (ce_Base env)) w (snd (prepareAttemptForConsume env st n now w))" for st n now
    by (rule reach_other) (simp_all add: prepareAttemptForConsume_def split: prod.split)
  show ?thesis unfolding Consume_def Let_def
    by (auto intro!: reach_case [OF inv prep] consumeAttempt_reach inv split: option.split sum.split)
qed

section \<open>Paid orders are paid for\<close>

lemma filter_key_le_1: "distinct (map k xs) \<Longrightarrow> length (filter (\<lambda>x. k x = c) xs) \<le> 1"
proof (induction xs)
  case (Cons x xs)
  then have "k x = c \<Longrightarrow> filter (\<lambda>x. k x = c) xs = []" by (auto simp: filter_empty_conv image_iff)
  then show ?case using Cons by auto
qed simp

text \<open>
  The service as a whole: any handler and the consumer, with any request, environment and failures,
  and the transaction of the consumer on any rows that belong together.
  Two rules keep the rest of the world free: seats and rush store change as they like, in particular
  through \<open>CreateOrder\<close> and its goroutine, which touch the rush store only.
\<close>

inductive serviceStep :: "RouteMap \<Rightarrow> orderWorld \<Rightarrow> orderWorld \<Rightarrow> bool" for m where
  cancel: "oe_Map env = m \<Longrightarrow> serviceStep m w (snd (CancelOrder env u n w))"
| close: "oe_Map env = m \<Longrightarrow> serviceStep m w (snd (CloseExpiredOrder env n w))"
| closeAll: "(\<And>n. oe_Map (envs n) = m) \<Longrightarrow> serviceStep m w (snd (CloseExpiredOrders env envs limit st cnt w))"
| pay: "oe_Map env = m \<Longrightarrow> serviceStep m w (snd (PayOrder env u n subj ch w))"
| check: "oe_Map env = m \<Longrightarrow> serviceStep m w (snd (PayCheck env u n w))"
| refund: "oe_Map env = m \<Longrightarrow> serviceStep m w (snd (RefundOrder env u n reason w))"
| consume: "oe_Map (ce_Base cenv) = m \<Longrightarrow> serviceStep m w (snd (Consume cenv body w))"
| persist: "wmOk wm \<Longrightarrow>
    serviceStep m w (w\<lparr>ow_repo := snd (TransactByOrderNumber m s flt (od_OrderNumber (wm_order wm)) (persistTx wm) (ow_repo w))\<rparr>)"
| seats: "serviceStep m w (w\<lparr>ow_seats := sw\<rparr>)"
| rush: "serviceStep m w (w\<lparr>ow_rush := r\<rparr>)"

lemma serviceStep_inv:
  assumes inv: "worldInv m w" and step: "serviceStep m w w'"
  shows "worldInv m w'"
proof -
  have "reach m w w'"
    using step
  proof cases
    case (closeAll envs env limit st cnt)
    then show ?thesis using CloseExpiredOrders_reach [OF inv, of envs] by simp
  next
    case (persist wm s flt)
    then show ?thesis unfolding persist(1) by (intro r_into_rtranclp coreStep.persist)
  next
    case (consume cenv body)
    then show ?thesis using Consume_reach [of cenv w body] inv by simp
  qed (use inv CancelOrder_reach CloseExpiredOrder_reach PayOrder_reach PayCheck_reach RefundOrder_reach in \<open>auto intro: reach_other\<close>)
  then show ?thesis using inv by (rule order_core.run_inv)
qed

interpretation order_service: step_invariant "serviceStep m" "worldInv m" for m
  by unfold_locales (rule serviceStep_inv)

definition freshWorld :: "string list \<Rightarrow> seatWorld \<Rightarrow> redis \<Rightarrow> orderWorld" where
  "freshWorld keys sw r = \<lparr>ow_repo = emptyRepo keys, ow_pay = \<lparr>payBills = [], refundBills = []\<rparr>, ow_seats = sw, ow_rush = r\<rparr>"

lemma freshWorld_inv: "worldInv m (freshWorld keys sw r)"
  by (auto simp: worldInv_def freshWorld_def emptyRepo_inv payInv_def moneyInv_def hasOrder_def emptyRepo_def emptyShard_def split: if_splits)

lemma money_facts:
  assumes "worldInv m w" "hasOrder (ow_repo w) ord"
  shows "od_OrderStatus ord = orderStatusPaid \<Longrightarrow>
      \<exists>p \<in> set (payBills (ow_pay w)). pb_OrderNumber p = od_OrderNumber ord \<and> pb_OrderAmount p = od_OrderPrice ord"
    "od_OrderStatus ord = orderStatusRefunded \<Longrightarrow>
      \<exists>r \<in> set (refundBills (ow_pay w)). rb_OrderNumber r = od_OrderNumber ord \<and> 0 < rb_RefundAmount r \<and> rb_RefundAmount r \<le> od_OrderPrice ord"
proof -
  have money: "moneyInv (ow_repo w) (ow_pay w)" and pay: "payInv (ow_pay w)" using assms(1) by (simp_all add: worldInv_def)
  have price: "pb_OrderAmount p = od_OrderPrice ord" if "p \<in> set (payBills (ow_pay w))" "pb_OrderNumber p = od_OrderNumber ord" for p
    using money assms(2) that by (auto simp: moneyInv_def)
  show "\<exists>p \<in> set (payBills (ow_pay w)). pb_OrderNumber p = od_OrderNumber ord \<and> pb_OrderAmount p = od_OrderPrice ord"
    if "od_OrderStatus ord = orderStatusPaid"
  proof -
    have "billed (ow_pay w) (od_OrderNumber ord)" using money assms(2) that by (simp add: moneyInv_def)
    then show ?thesis using price by (auto simp: billed_def)
  qed
  show "\<exists>r \<in> set (refundBills (ow_pay w)). rb_OrderNumber r = od_OrderNumber ord \<and> 0 < rb_RefundAmount r \<and> rb_RefundAmount r \<le> od_OrderPrice ord"
    if r: "od_OrderStatus ord = orderStatusRefunded"
  proof -
    obtain r where r: "r \<in> set (refundBills (ow_pay w))" "rb_OrderNumber r = od_OrderNumber ord"
      using money assms(2) r by (auto simp: moneyInv_def returned_def)
    then obtain p where p: "p \<in> set (payBills (ow_pay w))" "refundOf r p" using pay by (auto simp: payInv_def)
    then show ?thesis using r price [OF p(1)] by (auto simp: refundOf_def)
  qed
qed

text \<open>
  C4. Orders and money agree: whatever handlers of the order service ran, with whatever requests and
  whatever failures of the network and of the databases, an order marked paid has a bill for exactly
  its price, an order marked refunded has a refund of a positive amount that does not exceed its price, and no
  order is paid for twice.
\<close>

theorem paid_orders_have_bills:
  assumes "(serviceStep m)\<^sup>*\<^sup>* (freshWorld keys sw r) w" "hasOrder (ow_repo w) ord"
  shows "(od_OrderStatus ord = orderStatusPaid \<longrightarrow>
      (\<exists>p \<in> set (payBills (ow_pay w)). pb_OrderNumber p = od_OrderNumber ord \<and> pb_OrderAmount p = od_OrderPrice ord))
    \<and> (od_OrderStatus ord = orderStatusRefunded \<longrightarrow>
      (\<exists>b \<in> set (refundBills (ow_pay w)). rb_OrderNumber b = od_OrderNumber ord \<and> 0 < rb_RefundAmount b \<and> rb_RefundAmount b \<le> od_OrderPrice ord))
    \<and> length (filter (\<lambda>p. pb_OrderNumber p = od_OrderNumber ord) (payBills (ow_pay w))) \<le> 1"
proof -
  have inv: "worldInv m w" by (rule order_service.run_inv [OF assms(1) freshWorld_inv])
  then have "distinct (map pb_OrderNumber (payBills (ow_pay w)))" by (simp add: worldInv_def payInv_def)
  then have "length (filter (\<lambda>p. pb_OrderNumber p = od_OrderNumber ord) (payBills (ow_pay w))) \<le> 1"
    by (rule filter_key_le_1)
  then show ?thesis using money_facts [OF inv assms(2)] by blast
qed

section \<open>A sample run\<close>

definition demoSoldRow :: DSeat where
  "demoSoldRow = (demoRow 77 1 1 3 (Some (od_FreezeToken demoOrder)))\<lparr>ds_ShowTimeId := 9, ds_TicketCategoryId := 2\<rparr>"

definition demoSeats :: seatWorld where
  "demoSeats = \<lparr>wtable = [demoSoldRow], wledger = (\<lambda>_ _. emptyLedger)\<rparr>"

definition demoOrderEnv :: orderEnv where
  "demoOrderEnv = \<lparr>oe_Map = demoMap, oe_Sec = 1777356000, oe_Now = (\<lambda>i. 1500 + int i), oe_Lock = LockFree, oe_Tx = (\<lambda>_. TxOk),
     oe_Query = (\<lambda>_. None), oe_Format = show_int, oe_Parse = parse_int64, oe_PayRpc = (\<lambda>_. NoFault),
     oe_PayEnv = (\<lambda>i. demoPayEnv (1600 + 10 * int i) TxOk), oe_ProgramRpc = NoFault,
     oe_FreezeEnv = demoEnv\<lparr>eShowTimes := [9]\<rparr>, oe_SeatStore = demoSeatStore, oe_Unmarshal = (\<lambda>_. Some demoRule),
     oe_FindShow = (\<lambda>_. Inr (5, Some (2000 * 60000000000 + 2000))), oe_FindProgram = (\<lambda>_. Inr (demoProgram\<lparr>pg_PermitRefund := 2\<rparr>)),
     oe_EvaluateRpc = None, oe_Store = NewAttemptStore [] 0 0, oe_RushTime = 0, oe_RushRead = None, oe_RushFault = NoFault\<rparr>"

definition demoOrderWorld :: orderWorld where
  "demoOrderWorld = (freshWorld [''order-db-0''] demoSeats Map.empty)\<lparr>ow_repo := demoRepo\<rparr>"

definition demoPaidWorld :: orderWorld where
  "demoPaidWorld = snd (PayOrder demoOrderEnv 3 7 [] [] demoOrderWorld)"

lemma demoOrderEnv_map: "oe_Map demoOrderEnv = demoMap" by (simp add: demoOrderEnv_def)

lemma demo_service_run:
  "(serviceStep demoMap)\<^sup>*\<^sup>* (freshWorld [''order-db-0''] demoSeats Map.empty) demoOrderWorld"
  "serviceStep demoMap demoOrderWorld demoPaidWorld"
proof -
  have n: "od_OrderNumber (wm_order demoWm) = 7" by (simp add: demoWm_def demoOrder_def)
  from serviceStep.persist [OF demoWm_ok, of demoMap "freshWorld [''order-db-0''] demoSeats Map.empty" 1777356000 TxOk]
  show "(serviceStep demoMap)\<^sup>*\<^sup>* (freshWorld [''order-db-0''] demoSeats Map.empty) demoOrderWorld"
    by (auto simp: demoOrderWorld_def demoRepo_def n freshWorld_def)
  show "serviceStep demoMap demoOrderWorld demoPaidWorld"
    unfolding demoPaidWorld_def by (rule serviceStep.pay) (rule demoOrderEnv_map)
qed

definition ordersOf :: "orderWorld \<Rightarrow> DOrder list" where
  "ordersOf w = (case ow_repo w ''order-db-0'' of None \<Rightarrow> [] | Some db \<Rightarrow> sd_orders db ''00'')"

lemma ordersOf_has: "ord \<in> set (ordersOf w) \<Longrightarrow> hasOrder (ow_repo w) ord"
  unfolding ordersOf_def hasOrder_def by (cases "ow_repo w ''order-db-0''") auto

text \<open>Evaluation on the sample store.\<close>

lemma demo_transact:
  assumes "ow_repo w = [''order-db-0'' \<mapsto> db]"
  shows "transact demoOrderEnv i 7 f w =
     (case runTx TxOk f (openTx ''00'' db) of (r, tx) \<Rightarrow> (r, w\<lparr>ow_repo := [''order-db-0'' \<mapsto> commitTx ''00'' tx db]\<rparr>))"
  using demo_route assms by (auto simp: transact_def demoOrderEnv_def TransactByOrderNumber_def transactByRoute_def split: prod.splits)

definition paidDb :: shardDb where
  "paidDb = commitTx ''00'' (UpdatePayStatus 7 1610000 (openTx ''00'' demoDb)) demoDb"

lemmas tx_eval = runTx_def loadTx_def payTx_def refundTx_def cancelTx_def FindOrderByNumberForUpdate_def findOrder_def order_status_defs

lemma demoOrderWorld_eq: "demoOrderWorld = (freshWorld [''order-db-0''] demoSeats Map.empty)\<lparr>ow_repo := [''order-db-0'' \<mapsto> demoDb]\<rparr>"
  by (simp add: demoOrderWorld_def demoRepo_eq)

lemma demo_open: "tx_orders (openTx ''00'' demoDb) = [demoOrder]"
  by (simp add: openTx_def demoDb_rows)

lemma demo_load:
  assumes "ow_repo w = [''order-db-0'' \<mapsto> demoDb]"
  shows "loadOrderSnapshot demoOrderEnv i 7 w = (Inr demoOrder, w)"
  using assms by (simp add: loadOrderSnapshot_def demo_transact [OF assms] tx_eval demo_open) (simp add: demoOrder_def)

lemma demo_pay:
  assumes "ow_repo w = [''order-db-0'' \<mapsto> demoDb]"
  shows "finalizeOrderPay demoOrderEnv i 7 1610000 w = (Inr (), w\<lparr>ow_repo := [''order-db-0'' \<mapsto> paidDb]\<rparr>)"
  by (simp add: finalizeOrderPay_def demo_transact [OF assms] tx_eval demo_open paidDb_def) (simp add: demoOrder_def order_status_defs)

lemma demo_confirm:
  "\<exists>sw. seatCall demoOrderEnv (ConfirmSeatFreeze demoSeatStore (demoEnv\<lparr>eShowTimes := [9]\<rparr>) ''freeze-st9-tc2-o7'') w = (Inr True, w\<lparr>ow_seats := sw\<rparr>)"
  if "ow_seats w = demoSeats"
proof -
  have "fst (ConfirmSeatFreeze demoSeatStore (demoEnv\<lparr>eShowTimes := [9]\<rparr>) ''freeze-st9-tc2-o7'' demoSeats) = Inr True" by code_simp
  then show ?thesis using that
    by (cases "ConfirmSeatFreeze demoSeatStore (demoEnv\<lparr>eShowTimes := [9]\<rparr>) ''freeze-st9-tc2-o7'' demoSeats")
      (auto simp: seatCall_def demoOrderEnv_def eval_ctx_def wireRes_def)
qed

lemma demo_mockpay:
  "\<exists>d. payCall demoOrderEnv 1 (MockPay (oe_PayEnv demoOrderEnv 1) \<lparr>mp_OrderNumber = 7, mp_UserId = 3, mp_Subject = ''show'', mp_Channel = [],
     mp_Amount = 500\<rparr>) w = (Inr \<lparr>mr_PayBillNo = 1611, mr_PayStatus = 2, mr_PayTime = show_int 1610000\<rparr>, w\<lparr>ow_pay := d\<rparr>)"
  if "ow_pay w = \<lparr>payBills = [], refundBills = []\<rparr>"
  using that by (simp add: payCall_def demoOrderEnv_def eval_ctx_def wireRes_def pay_eval) blast

lemma demo_paytime: "parseOrderTime demoOrderEnv (show_int 1610000) = Inr 1610000"
proof -
  have "parse_int64 (show_int 1610000) = Some 1610000"
    by (rule parse_int64_show_int) (simp add: in_int64_def int64_min_def int64_max_def)
  then show ?thesis by (simp add: parseOrderTime_def demoOrderEnv_def)
qed

lemma demoPaidWorld_eq: "ow_repo demoPaidWorld = [''order-db-0'' \<mapsto> paidDb]"
proof -
  let ?w = "(freshWorld [''order-db-0''] demoSeats Map.empty)\<lparr>ow_repo := [''order-db-0'' \<mapsto> demoDb]\<rparr>"
  obtain d where pay: "payCall demoOrderEnv 1 (MockPay (oe_PayEnv demoOrderEnv 1) \<lparr>mp_OrderNumber = 7, mp_UserId = 3, mp_Subject = ''show'',
      mp_Channel = [], mp_Amount = 500\<rparr>) ?w = (Inr \<lparr>mr_PayBillNo = 1611, mr_PayStatus = 2, mr_PayTime = show_int 1610000\<rparr>, ?w\<lparr>ow_pay := d\<rparr>)"
    using demo_mockpay [of ?w] by (auto simp: freshWorld_def)
  obtain sw where confirm: "seatCall demoOrderEnv (ConfirmSeatFreeze (oe_SeatStore demoOrderEnv) (oe_FreezeEnv demoOrderEnv) ''freeze-st9-tc2-o7'')
      (?w\<lparr>ow_pay := d\<rparr>) = (Inr True, ?w\<lparr>ow_pay := d, ow_seats := sw\<rparr>)"
    using demo_confirm [of "?w\<lparr>ow_pay := d\<rparr>"] by (auto simp: freshWorld_def demoOrderEnv_def)
  have "finalizeOrderPay demoOrderEnv 1 7 1610000 (?w\<lparr>ow_pay := d, ow_seats := sw\<rparr>)
      = (Inr (), ?w\<lparr>ow_pay := d, ow_seats := sw, ow_repo := [''order-db-0'' \<mapsto> paidDb]\<rparr>)"
    by (rule demo_pay) simp
  moreover have "oe_Now demoOrderEnv 0 = 1500" "oe_Lock demoOrderEnv = LockFree" by (simp_all add: demoOrderEnv_def)
  ultimately show ?thesis
    using pay confirm demo_load [of ?w 0]
    by (simp add: demoPaidWorld_def demoOrderWorld_eq PayOrder_def validateUserOrderReq_def lockOrderStatusGuard_def
        demoOrder_def order_status_defs demo_paytime)
qed

lemma demo_paid: "map od_OrderStatus (ordersOf demoPaidWorld) = [3]" "map od_OrderNumber (ordersOf demoPaidWorld) = [7]"
  "map od_OrderPrice (ordersOf demoPaidWorld) = [500]"
  by (simp_all add: ordersOf_def demoPaidWorld_eq paidDb_def UpdatePayStatus_def moveStatus_def moveOrder_def commitTx_def demo_open demoOrder_def order_status_defs)

theorem paid_orders_have_bills_witness:
  "\<exists>ord p. hasOrder (ow_repo demoPaidWorld) ord \<and> od_OrderStatus ord = orderStatusPaid \<and> od_OrderPrice ord = 500
     \<and> p \<in> set (payBills (ow_pay demoPaidWorld)) \<and> pb_OrderNumber p = 7 \<and> pb_OrderAmount p = 500"
proof -
  obtain ord where o: "ord \<in> set (ordersOf demoPaidWorld)" "od_OrderStatus ord = 3" "od_OrderNumber ord = 7" "od_OrderPrice ord = 500"
    using demo_paid by (cases "ordersOf demoPaidWorld") auto
  note run = rtranclp.rtrancl_into_rtrancl [OF demo_service_run]
  from paid_orders_have_bills [OF run ordersOf_has [OF o(1)]] show ?thesis
    using o ordersOf_has [OF o(1)] by (auto simp: order_status_defs)
qed

end
