(* ===== verification/OrderCreateProps.thy ===== *)
theory OrderCreateProps
  imports OrderProps RushInvariant
begin

text \<open>
  What the creation of an order promises: a purchase token carries the claims it was issued for until
  it expires, \<open>CreateOrder\<close> admits exactly these claims, an event is processed at most once and the
  order the consumer writes is the one the buyer asked for.
\<close>

section \<open>Purchase tokens\<close>

text \<open>
  What the token relies on in the standard library: base64 text decodes to what was encoded and has
  no dot, and JSON of the given claims decodes to them.
\<close>

definition codecLaws :: "PurchaseTokenCodec \<Rightarrow> PurchaseTokenClaims \<Rightarrow> bool" where
  "codecLaws c n \<longleftrightarrow> (\<forall>p. cd_Decode c (cd_Encode c p) = Some p \<and> CHR ''.'' \<notin> set (cd_Encode c p))
     \<and> cd_Unmarshal c (cd_Marshal c n) = Some n"

lemma normalize_eq:
  assumes "normalizeClaims c now claims = Inr n"
  defines "E \<equiv> (if pc_ExpireAt claims = 0 then unix_sec (now + cd_TTL c) else pc_ExpireAt claims)"
  defines "S \<equiv> (if pc_SaleWindowEndAt claims = 0 then E else pc_SaleWindowEndAt claims)"
  shows "n = claims\<lparr>pc_ShowTimeID := if pc_ShowTimeID claims \<le> 0 then pc_ProgramID claims else pc_ShowTimeID claims,
      pc_TicketCount := int (length (pc_TicketUserIDs claims)), pc_ExpireAt := E, pc_SaleWindowEndAt := S,
      pc_ShowEndAt := if pc_ShowEndAt claims = 0 then S else pc_ShowEndAt claims\<rparr>"
  using assms(1) unfolding E_def S_def by (cases claims) (auto simp: normalizeClaims_def Let_def split: if_splits)

lemma normalize_keeps:
  assumes "normalizeClaims c now claims = Inr n"
  shows "pc_OrderNumber n = pc_OrderNumber claims" "pc_UserID n = pc_UserID claims" "pc_ProgramID n = pc_ProgramID claims"
    "pc_TicketCategoryID n = pc_TicketCategoryID claims" "pc_TicketUserIDs n = pc_TicketUserIDs claims"
    "pc_TicketCount n = int (length (pc_TicketUserIDs claims))"
    "0 < pc_OrderNumber claims \<and> 0 < pc_UserID claims \<and> 0 < pc_ProgramID claims \<and> 0 < pc_TicketCategoryID claims \<and> pc_TicketUserIDs claims \<noteq> []"
    "pc_ShowTimeID n = (if pc_ShowTimeID claims \<le> 0 then pc_ProgramID claims else pc_ShowTimeID claims)"
    "pc_ExpireAt n = (if pc_ExpireAt claims = 0 then unix_sec (now + cd_TTL c) else pc_ExpireAt claims)"
    "pc_SaleWindowEndAt n = (if pc_SaleWindowEndAt claims = 0 then pc_ExpireAt n else pc_SaleWindowEndAt claims)"
    "pc_ShowEndAt n = (if pc_ShowEndAt claims = 0 then pc_SaleWindowEndAt n else pc_ShowEndAt claims)"
proof -
  show "0 < pc_OrderNumber claims \<and> 0 < pc_UserID claims \<and> 0 < pc_ProgramID claims \<and> 0 < pc_TicketCategoryID claims \<and> pc_TicketUserIDs claims \<noteq> []"
    using assms by (simp add: normalizeClaims_def Let_def split: if_splits)
qed (simp_all add: normalize_eq [OF assms])

lemma normal_claims:
  assumes "0 < pc_OrderNumber n \<and> 0 < pc_UserID n \<and> 0 < pc_ProgramID n \<and> 0 < pc_TicketCategoryID n \<and> pc_TicketUserIDs n \<noteq> []"
    and "0 < pc_ShowTimeID n" "pc_TicketCount n = int (length (pc_TicketUserIDs n))"
    and "pc_ExpireAt n \<noteq> 0" "pc_SaleWindowEndAt n \<noteq> 0" "pc_ShowEndAt n \<noteq> 0"
  shows "normalizeClaims c t n = Inr n"
  using assms by (simp add: normalizeClaims_def)

lemma normalize_again:
  assumes "normalizeClaims c now claims = Inr n" "pc_ExpireAt n \<noteq> 0"
  shows "normalizeClaims c t n = Inr n"
  using normalize_keeps [OF assms(1)] assms(2) by (intro normal_claims) simp_all

lemma split_token:
  assumes "codecLaws c n"
  shows "split_on (CHR ''.'') (purchaseTokenVersion @ ''.'' @ cd_Encode c p @ ''.'' @ cd_Encode c q) = [purchaseTokenVersion, cd_Encode c p, cd_Encode c q]"
  using assms split_on_sep [of "CHR ''.''" "cd_Encode c p" "cd_Encode c q"] split_on_free [of "CHR ''.''" "cd_Encode c q"]
  by (auto simp: codecLaws_def purchaseTokenVersion_def)

lemma verify_issued:
  assumes "codecLaws c n" "normalizeClaims c now claims = Inr n" "IssueToken c now claims = Inr token" "pc_ExpireAt n \<noteq> 0"
  shows "VerifyToken c t token = (if pc_ExpireAt n \<le> unix_sec t then Inl ErrExpiredPurchaseToken else Inr n)"
proof -
  let ?p = "cd_Marshal c n"
  have tok: "token = purchaseTokenVersion @ ''.'' @ cd_Encode c ?p @ ''.'' @ cd_Encode c (cd_Sign c ?p)"
    using assms(2,3) by (simp add: IssueToken_def Let_def)
  have "token \<noteq> []" by (simp add: tok purchaseTokenVersion_def)
  moreover have "split_on (CHR ''.'') token = [purchaseTokenVersion, cd_Encode c ?p, cd_Encode c (cd_Sign c ?p)]"
    unfolding tok by (rule split_token [OF assms(1)])
  ultimately show ?thesis using assms(1) normalize_again [OF assms(2,4)]
    by (simp add: VerifyToken_def codecLaws_def)
qed

text \<open>
  A purchase token carries its claims: verifying an issued token gives back the normalised claims
  it was issued for at every time before it expires, and the expiry error from then on. An issued token
  is not accepted under a codec whose secret signs its payload differently.
\<close>

theorem purchase_token_roundtrip:
  assumes laws: "codecLaws c n" and norm: "normalizeClaims c now claims = Inr n"
    and live: "pc_ExpireAt claims = 0 \<longrightarrow> 1000000000 \<le> now + cd_TTL c"
  shows "\<exists>token. IssueToken c now claims = Inr token
    \<and> (\<forall>t. VerifyToken c t token = (if pc_ExpireAt n \<le> unix_sec t then Inl ErrExpiredPurchaseToken else Inr n))
    \<and> (\<forall>t f. f (cd_Marshal c n) \<noteq> cd_Sign c (cd_Marshal c n) \<longrightarrow>
         VerifyToken (c\<lparr>cd_Sign := f\<rparr>) t token = Inl ErrInvalidPurchaseToken)"
proof -
  let ?p = "cd_Marshal c n"
  define token where "token = purchaseTokenVersion @ ''.'' @ cd_Encode c ?p @ ''.'' @ cd_Encode c (cd_Sign c ?p)"
  have issue: "IssueToken c now claims = Inr token" using norm by (simp add: IssueToken_def Let_def token_def)
  have "1000000000 \<le> now + cd_TTL c \<Longrightarrow> unix_sec (now + cd_TTL c) \<noteq> 0" by (simp add: unix_sec_def)
  with live have "pc_ExpireAt n \<noteq> 0" using normalize_keeps(9) [OF norm] by auto
  note 1 = verify_issued [OF laws norm issue this]
  have "VerifyToken (c\<lparr>cd_Sign := f\<rparr>) t token = Inl ErrInvalidPurchaseToken" if "f ?p \<noteq> cd_Sign c ?p" for t f
  proof -
    have "split_on (CHR ''.'') token = [purchaseTokenVersion, cd_Encode c ?p, cd_Encode c (cd_Sign c ?p)]"
      unfolding token_def by (rule split_token [OF laws])
    with laws that show ?thesis by (auto simp: VerifyToken_def codecLaws_def)
  qed
  with issue 1 show ?thesis by blast
qed

text \<open>A codec over fixed claims: hexadecimal-like text of double length and one payload.\<close>

definition demoClaims :: PurchaseTokenClaims where
  "demoClaims = \<lparr>pc_OrderNumber = 91, pc_UserID = 3, pc_ProgramID = 7, pc_ShowTimeID = 5, pc_TicketCategoryID = 7,
     pc_TicketUserIDs = [11, 12], pc_TicketCount = 2, pc_SaleWindowEndAt = 60, pc_ShowEndAt = 60,
     pc_DistributionMode = [], pc_TakeTicketMode = [], pc_ExpireAt = 60\<rparr>"

fun demoEncode :: "string \<Rightarrow> string" where
  "demoEncode [] = []"
| "demoEncode (x # xs) = (if x = CHR ''.'' then ''ab'' else if x = CHR ''a'' then ''aa'' else [x]) @ demoEncode xs"

fun demoDecode :: "string \<Rightarrow> string option" where
  "demoDecode [] = Some []"
| "demoDecode (x # xs) =
     (if x = CHR ''a''
      then (case xs of [] \<Rightarrow> None | y # ys \<Rightarrow> map_option ((#) (if y = CHR ''a'' then CHR ''a'' else CHR ''.'')) (demoDecode ys))
      else map_option ((#) x) (demoDecode xs))"

definition demoCodec :: PurchaseTokenCodec where
  "demoCodec = \<lparr>cd_TTL = 60000000000, cd_Sign = rev, cd_Marshal = (\<lambda>_. ''claims''),
     cd_Unmarshal = (\<lambda>s. if s = ''claims'' then Some demoClaims else None), cd_Encode = demoEncode, cd_Decode = demoDecode\<rparr>"

lemma demoEncode_laws: "demoDecode (demoEncode p) = Some p \<and> CHR ''.'' \<notin> set (demoEncode p)"
  by (induction p) auto

lemma demoCodec_laws: "codecLaws demoCodec demoClaims"
  by (simp add: codecLaws_def demoCodec_def demoEncode_laws)

lemma demoClaims_normal: "normalizeClaims demoCodec 0 demoClaims = Inr demoClaims"
  by (simp add: normalizeClaims_def demoCodec_def demoClaims_def)

theorem purchase_token_roundtrip_witness:
  "\<exists>token. IssueToken demoCodec 0 demoClaims = Inr token
     \<and> VerifyToken demoCodec 59000000000 token = Inr demoClaims
     \<and> VerifyToken demoCodec 60000000000 token = Inl ErrExpiredPurchaseToken
     \<and> VerifyToken (demoCodec\<lparr>cd_Sign := id\<rparr>) 0 token = Inl ErrInvalidPurchaseToken"
proof -
  obtain token where t: "IssueToken demoCodec 0 demoClaims = Inr token"
    "\<And>t. VerifyToken demoCodec t token = (if pc_ExpireAt demoClaims \<le> unix_sec t then Inl ErrExpiredPurchaseToken else Inr demoClaims)"
    "\<And>t f. f ''claims'' \<noteq> rev ''claims'' \<Longrightarrow> VerifyToken (demoCodec\<lparr>cd_Sign := f\<rparr>) t token = Inl ErrInvalidPurchaseToken"
    using purchase_token_roundtrip [OF demoCodec_laws demoClaims_normal] by (auto simp: demoClaims_def demoCodec_def)
  then show ?thesis by (intro exI [of _ token]) (simp add: unix_sec_def demoClaims_def)
qed

section \<open>From the token to the order\<close>

lemma requested_ok:
  assumes "checkRequested users u seen is = Inr ()"
  shows "distinct is \<and> set is \<inter> seen = {} \<and> (\<forall>i \<in> set is. \<exists>x. users i = Some x \<and> tu_UserId x = u)"
  using assms by (induction users u seen "is" rule: checkRequested.induct) (auto split: if_splits option.splits)

lemma ticketUserMap_Some: "ticketUserMap users i = Some x \<Longrightarrow> x \<in> set users \<and> tu_Id x = i"
  by (auto simp: ticketUserMap_def find_Some_iff in_set_conv_nth) (metis in_set_conv_nth length_rev nth_mem set_rev)

lemma requested_users_ok:
  assumes "validateRequestedTicketUsers users u is = Inr ()"
  shows "distinct is" "\<forall>i \<in> set is. \<exists>x \<in> set users. tu_Id x = i \<and> tu_UserId x = u"
  using requested_ok [OF assms [unfolded validateRequestedTicketUsers_def]] ticketUserMap_Some by (blast, blast)

lemma find_category: "findPreorderTicketCategory cs i = Some x \<Longrightarrow> x \<in> set cs \<and> pt_Id x = i"
  by (auto simp: findPreorderTicketCategory_def find_Some_iff)

text \<open>What a successful \<open>CreatePurchaseToken\<close> has checked and issued.\<close>

lemma CreatePurchaseToken_ok:
  assumes "CreatePurchaseToken env c preorderOf usersOf n inp repo = Inr token"
  obtains preorder users s e where
    "preorderOf (tq_ShowTimeId inp) = Inr preorder" "usersOf (tq_UserId inp) = Inr users"
    "validateRequestedTicketUsers users (tq_UserId inp) (tq_TicketUserIds inp) = Inr ()"
    "findPreorderTicketCategory (pi_TicketCategories preorder) (tq_TicketCategoryId inp) \<noteq> None"
    "0 < pi_PerOrderLimit preorder \<longrightarrow> int (length (tq_TicketUserIds inp)) \<le> pi_PerOrderLimit preorder"
    "parsePurchaseTokenTime env (pi_RushSaleEndTime preorder) (pi_ShowTime preorder) = Inr s"
    "parsePurchaseTokenTime env (pi_ShowTime preorder) (pi_RushSaleEndTime preorder) = Inr e"
    "IssueToken c (oe_Now env 0) (tokenClaimsOf inp preorder n s e) = Inr token"
  using assms by (auto simp: CreatePurchaseToken_def Let_def not_less split: sum.splits if_splits)

lemma CreateOrder_ok:
  assumes "CreateOrder env c eid u token r = (Inr (res, Some item), r')"
  obtains claims where "VerifyToken c (oe_Now env 0) token = Inr claims" "pc_UserID claims = u"
    "fst res = ai_orderNumber item" "snd res = pc_ShowTimeID claims" "ai_showTimeID item = pc_ShowTimeID claims"
    "buildAttemptCreateEvent env eid (ai_orderNumber item) claims (oe_Now env 0) = Inr (ai_event item)"
    "r' = snd (Admit (oe_Store env) (oe_RushTime env) (oe_Now env 0) (oe_RushFault env) (admitRequestOf claims (oe_Now env 0)) r)"
  using assms by (auto simp: CreateOrder_def Let_def split: sum.splits if_splits prod.splits)

lemma buildAttempt_ok:
  assumes "buildAttemptCreateEvent env eid n claims t = Inr ev"
  shows "ev_OrderNumber ev = n" "n = pc_OrderNumber claims" "ev_UserID ev = pc_UserID claims" "ev_ShowTimeID ev = pc_ShowTimeID claims"
    "ev_TicketCategoryID ev = pc_TicketCategoryID claims" "ev_TicketUserIDs ev = pc_TicketUserIDs claims"
    "ev_TicketCount ev = int (length (pc_TicketUserIDs claims))" "ev_ProgramID ev = pc_ProgramID claims"
    "ev_OccurredAt ev = formatOrderTime env (Some t)" "ev_FreezeToken ev = []"
    "0 < n \<and> 0 < pc_UserID claims \<and> 0 < pc_ProgramID claims \<and> 0 < pc_TicketCategoryID claims \<and> pc_TicketUserIDs claims \<noteq> []"
  using assms by (auto simp: buildAttemptCreateEvent_def Let_def split: if_splits)

lemma buildAttempt_valid:
  assumes "buildAttemptCreateEvent env eid n claims t = Inr ev" "oe_Format env t \<noteq> []"
  shows "validateOrderCreateEvent ev = Inr ()"
  using buildAttempt_ok [OF assms(1)] assms(2)
  by (simp add: validateOrderCreateEvent_def hasEmbeddedOrderCreateSnapshots_def formatOrderTime_def)

text \<open>
  C21. Whatever a client does with a purchase token, an event that \<open>CreateOrder\<close> sends for it asks for
  the order the token was issued for: the same user, the order number allocated for that token, the
  category of the request, which is one of the show's, and the requested viewers, all different and
  all belonging to that user, at most as many as one order may have. The consumer accepts the event.
\<close>

theorem token_order_as_issued:
  assumes issued: "CreatePurchaseToken env c preorderOf usersOf n inp repo = Inr token"
    and replies: "preorderOf (tq_ShowTimeId inp) = Inr preorder" "usersOf (tq_UserId inp) = Inr users"
    and laws: "\<And>s e m. \<lbrakk>parsePurchaseTokenTime env (pi_RushSaleEndTime preorder) (pi_ShowTime preorder) = Inr s;
        parsePurchaseTokenTime env (pi_ShowTime preorder) (pi_RushSaleEndTime preorder) = Inr e;
        normalizeClaims c (oe_Now env 0) (tokenClaimsOf inp preorder n s e) = Inr m\<rbrakk> \<Longrightarrow> codecLaws c m"
    and live: "1000000000 \<le> oe_Now env 0 + cd_TTL c" and fmt: "oe_Format env' (oe_Now env' 0) \<noteq> []"
    and order: "CreateOrder env' c eid u token r = (Inr (res, Some item), r')"
  shows "u = tq_UserId inp \<and> ev_UserID (ai_event item) = u \<and> ev_OrderNumber (ai_event item) = n \<and> fst res = n
    \<and> ev_TicketUserIDs (ai_event item) = tq_TicketUserIds inp \<and> distinct (tq_TicketUserIds inp)
    \<and> (\<forall>i \<in> set (tq_TicketUserIds inp). \<exists>x \<in> set users. tu_Id x = i \<and> tu_UserId x = u)
    \<and> ev_TicketCategoryID (ai_event item) = tq_TicketCategoryId inp
    \<and> (\<exists>x \<in> set (pi_TicketCategories preorder). pt_Id x = tq_TicketCategoryId inp)
    \<and> (0 < pi_PerOrderLimit preorder \<longrightarrow> ev_TicketCount (ai_event item) \<le> pi_PerOrderLimit preorder)
    \<and> validateOrderCreateEvent (ai_event item) = Inr ()"
proof -
  from issued obtain s e where iss: "validateRequestedTicketUsers users (tq_UserId inp) (tq_TicketUserIds inp) = Inr ()"
    "findPreorderTicketCategory (pi_TicketCategories preorder) (tq_TicketCategoryId inp) \<noteq> None"
    "0 < pi_PerOrderLimit preorder \<longrightarrow> int (length (tq_TicketUserIds inp)) \<le> pi_PerOrderLimit preorder"
    "parsePurchaseTokenTime env (pi_RushSaleEndTime preorder) (pi_ShowTime preorder) = Inr s"
    "parsePurchaseTokenTime env (pi_ShowTime preorder) (pi_RushSaleEndTime preorder) = Inr e"
    and tok: "IssueToken c (oe_Now env 0) (tokenClaimsOf inp preorder n s e) = Inr token"
    using replies by (elim CreatePurchaseToken_ok) simp
  let ?claims = "tokenClaimsOf inp preorder n s e"
  obtain m where m: "normalizeClaims c (oe_Now env 0) ?claims = Inr m"
    using tok by (auto simp: IssueToken_def split: sum.splits)
  note keep = normalize_keeps [OF m, unfolded tokenClaimsOf_def, simplified]
  have "unix_sec (oe_Now env 0 + cd_TTL c) \<noteq> 0" using live by (simp add: unix_sec_def)
  then have "pc_ExpireAt m \<noteq> 0" using keep(9) by simp
  note ver = verify_issued [OF laws [OF iss(4,5) m] m tok this]
  from order obtain claims where ok: "VerifyToken c (oe_Now env' 0) token = Inr claims" "pc_UserID claims = u"
    "fst res = ai_orderNumber item" "buildAttemptCreateEvent env' eid (ai_orderNumber item) claims (oe_Now env' 0) = Inr (ai_event item)"
    by (elim CreateOrder_ok) simp
  have [simp]: "claims = m" using ok(1) ver by (simp split: if_splits)
  note ev = buildAttempt_ok [OF ok(4)]
  show ?thesis using iss requested_users_ok [OF iss(1)] ev ok keep buildAttempt_valid [OF ok(4) fmt] by (auto dest: find_category)
qed

text \<open>A show with one category and a user with two viewers.\<close>

definition demoPreorder :: PreorderInfo where
  "demoPreorder = \<lparr>pi_ProgramId = 7, pi_ShowTimeId = 5, pi_Title = ''Concert'', pi_ItemPicture = [], pi_Place = ''Hall'',
     pi_ShowTime = ''2'', pi_RushSaleEndTime = ''1'', pi_PermitChooseSeat = 0, pi_PerOrderLimit = 2,
     pi_PerAccountLimit = 0, pi_TicketCategories = [\<lparr>pt_Id = 7, pt_Introduce = ''stalls'', pt_Price = 300, pt_AdmissionQuota = 4\<rparr>]\<rparr>"

definition demoUsers :: "TicketUserInfo list" where
  "demoUsers = [\<lparr>tu_Id = 11, tu_UserId = 3, tu_RelName = ''A'', tu_IdNumber = ''1''\<rparr>, \<lparr>tu_Id = 12, tu_UserId = 3, tu_RelName = ''B'', tu_IdNumber = ''2''\<rparr>]"

definition demoTokenReq :: CreatePurchaseTokenReq where
  "demoTokenReq = \<lparr>tq_UserId = 3, tq_ShowTimeId = 5, tq_TicketCategoryId = 7, tq_TicketUserIds = [11, 12], tq_DistributionMode = [], tq_TakeTicketMode = []\<rparr>"

definition demoPurchaseToken :: string where
  "demoPurchaseToken = purchaseTokenVersion @ ''.'' @ demoEncode ''claims'' @ ''.'' @ demoEncode (rev ''claims'')"

lemma demo_times:
  "parsePurchaseTokenTime demoOrderEnv (pi_RushSaleEndTime demoPreorder) (pi_ShowTime demoPreorder) = Inr 1"
  "parsePurchaseTokenTime demoOrderEnv (pi_ShowTime demoPreorder) (pi_RushSaleEndTime demoPreorder) = Inr 2"
proof -
  have "parse_int64 ''1'' = Some 1" "parse_int64 ''2'' = Some 2" by code_simp+
  then show
    "parsePurchaseTokenTime demoOrderEnv (pi_RushSaleEndTime demoPreorder) (pi_ShowTime demoPreorder) = Inr 1"
    "parsePurchaseTokenTime demoOrderEnv (pi_ShowTime demoPreorder) (pi_RushSaleEndTime demoPreorder) = Inr 2"
    by (simp_all add: parsePurchaseTokenTime_def demoPreorder_def parseOrderTime_def demoOrderEnv_def)
qed

lemma demo_normal:
  "normalizeClaims demoCodec (oe_Now demoOrderEnv 0) (tokenClaimsOf demoTokenReq demoPreorder 91 1 2) = Inr demoClaims"
proof -
  let ?c = "tokenClaimsOf demoTokenReq demoPreorder 91 1 2"
  have "normalizeClaims demoCodec 1500 ?c = Inr (?c\<lparr>pc_SaleWindowEndAt := 60, pc_ShowEndAt := 60, pc_ExpireAt := 60\<rparr>)"
    by (simp add: normalizeClaims_def tokenClaimsOf_def demoTokenReq_def demoPreorder_def unix_sec_def demoCodec_def)
  then show ?thesis by (simp add: tokenClaimsOf_def demoTokenReq_def demoPreorder_def demoClaims_def demoOrderEnv_def unix_sec_def)
qed

lemma demo_issued:
  "CreatePurchaseToken demoOrderEnv demoCodec (\<lambda>_. Inr demoPreorder) (\<lambda>_. Inr demoUsers) 91 demoTokenReq Map.empty = Inr demoPurchaseToken"
proof -
  have 1: "validateCreatePurchaseTokenReq demoTokenReq = Inr ()"
    "validateRequestedTicketUsers demoUsers (tq_UserId demoTokenReq) (tq_TicketUserIds demoTokenReq) = Inr ()"
    "findPreorderTicketCategory (pi_TicketCategories demoPreorder) (tq_TicketCategoryId demoTokenReq) \<noteq> None"
    "pi_PerAccountLimit demoPreorder = 0" "\<not> pi_PerOrderLimit demoPreorder < int (length (tq_TicketUserIds demoTokenReq))"
    by (code_simp | simp add: demoPreorder_def demoTokenReq_def)+
  show ?thesis
    using demo_times demo_normal 1
    by (simp add: CreatePurchaseToken_def Let_def IssueToken_def demoPurchaseToken_def) (simp add: demoCodec_def)
qed

lemma demo_ordered:
  "\<exists>item r'. CreateOrder demoOrderEnv demoCodec 1 3 demoPurchaseToken demoPrimed = (Inr ((91, 5), Some item), r')"
proof -
  have tok: "IssueToken demoCodec 0 demoClaims = Inr demoPurchaseToken"
    by (simp add: IssueToken_def demoClaims_normal Let_def demoPurchaseToken_def) (simp add: demoCodec_def)
  have "pc_ExpireAt demoClaims = 60" by (simp add: demoClaims_def)
  then have ver: "VerifyToken demoCodec (oe_Now demoOrderEnv 0) demoPurchaseToken = Inr demoClaims"
    using verify_issued [OF demoCodec_laws demoClaims_normal tok] by (simp add: demoOrderEnv_def unix_sec_def)
  let ?req = "admitRequestOf demoClaims 1500"
  have "normalizedInt64s [11, 12] = [11, 12]" by code_simp
  then have valid: "validRequest ?req"
    by (simp add: validRequest_def admitRequestOf_def demoClaims_def in_int64_def int64_min_def int64_max_def)
  have p: "purge 0 demoPrimed = demoPrimed" "no_empty_hash demoPrimed"
    using demoPrimed_view(2) [of 0] by (simp_all add: purge_unexpired tidy_def)
  have csv: "csv_values (formatInt64CSV (normalizedInt64s [11, 12])) = [''11'', ''12'']" by code_simp
  have adm: "admissible 91 (requestArgs demoStore 1500 ?req) (view demoStore 5 demoPrimed)"
    by (simp add: admissible_def requestArgs_simps demoPrimed_view admitRequestOf_def demoClaims_def demo_texts blank_def csv)
  have q: "quotaOk (view demoStore 5 demoPrimed)" using demoPrimed_facts(2) by (simp add: rushInv_def viewInv_def)
  have ids: "5 = rq_ShowTimeID ?req" "91 = rq_OrderNumber ?req" by (simp_all add: admitRequestOf_def demoClaims_def)
  have acc: "fst (Admit demoStore 0 1500 NoFault ?req demoPrimed) =
      Inr \<lparr>rs_OrderNumber = 91, rs_Decision = AdmitDecisionAccepted, rs_RejectCode = AdmitRejectNone\<rparr>"
    using Admit_admissible(1) [OF valid ids, of 0 demoPrimed demoStore 1500] p adm q by simp
  obtain ev where ev: "buildAttemptCreateEvent demoOrderEnv 1 91 demoClaims 1500 = Inr ev"
    by (simp add: buildAttemptCreateEvent_def demoClaims_def)
  have v: "validateCreateOrderReq 3 demoPurchaseToken = Inr ()" by (simp add: validateCreateOrderReq_def demoPurchaseToken_def purchaseTokenVersion_def)
  have e: "oe_Store demoOrderEnv = demoStore" "oe_RushTime demoOrderEnv = 0" "oe_Now demoOrderEnv 0 = 1500" "oe_RushFault demoOrderEnv = NoFault"
    by (simp_all add: demoOrderEnv_def demoStore_def)
  obtain r' where a: "Admit demoStore 0 1500 NoFault ?req demoPrimed =
      (Inr \<lparr>rs_OrderNumber = 91, rs_Decision = AdmitDecisionAccepted, rs_RejectCode = AdmitRejectNone\<rparr>, r')"
    using acc by (metis prod.collapse)
  have "pc_UserID demoClaims = 3" "pc_ShowTimeID demoClaims = 5" by (simp_all add: demoClaims_def)
  with ver a ev v show ?thesis by (simp add: CreateOrder_def e Let_def admit_code_defs)
qed

theorem token_order_as_issued_witness:
  "\<exists>item r'. CreateOrder demoOrderEnv demoCodec 1 3 demoPurchaseToken demoPrimed = (Inr ((91, 5), Some item), r')
     \<and> ev_UserID (ai_event item) = 3 \<and> ev_OrderNumber (ai_event item) = 91 \<and> ev_TicketUserIDs (ai_event item) = [11, 12]
     \<and> ev_TicketCount (ai_event item) \<le> 2 \<and> validateOrderCreateEvent (ai_event item) = Inr ()"
proof -
  obtain item r' where o1: "CreateOrder demoOrderEnv demoCodec 1 3 demoPurchaseToken demoPrimed = (Inr ((91, 5), Some item), r')"
    using demo_ordered by blast
  have laws: "codecLaws demoCodec m"
    if "parsePurchaseTokenTime demoOrderEnv (pi_RushSaleEndTime demoPreorder) (pi_ShowTime demoPreorder) = Inr s"
      "parsePurchaseTokenTime demoOrderEnv (pi_ShowTime demoPreorder) (pi_RushSaleEndTime demoPreorder) = Inr e"
      "normalizeClaims demoCodec (oe_Now demoOrderEnv 0) (tokenClaimsOf demoTokenReq demoPreorder 91 s e) = Inr m" for s e m
    using that demo_times demo_normal demoCodec_laws by simp
  have "1000000000 \<le> oe_Now demoOrderEnv 0 + cd_TTL demoCodec" by (simp add: demoOrderEnv_def demoCodec_def)
  moreover have "oe_Format demoOrderEnv (oe_Now demoOrderEnv 0) \<noteq> []" by code_simp
  ultimately show ?thesis
    using token_order_as_issued [OF demo_issued refl refl laws _ _ o1] o1
    by (intro exI [of _ item] exI [of _ r']) (simp add: demoTokenReq_def demoPreorder_def)
qed

section \<open>An event is processed at most once\<close>

definition eventShowTime :: "OrderCreateEvent \<Rightarrow> int" where
  "eventShowTime ev = (if ev_ShowTimeID ev \<le> 0 then ev_ProgramID ev else ev_ShowTimeID ev)"

lemmas Consume_unfold = Consume_def [folded eventShowTime_def]

definition started :: "consumeEnv \<Rightarrow> OrderCreateEvent \<Rightarrow> orderWorld \<Rightarrow> bool" where
  "started env ev w \<longleftrightarrow> notPending (oe_Store (ce_Base env)) (eventShowTime ev) (ev_OrderNumber ev) (ow_rush w)"

lemma finalize_started:
  assumes "started env ev w"
  shows "started env ev (finalizeSuccess env i a t w)" "started env ev (snd (finalizeFailure env i a rs tok w))"
    "started env ev (snd (resolveOrderPersistFailure env n a fr e t w))"
proof -
  have rel: "ow_rush (releaseOrderCreateFreeze env tok w) = ow_rush w" for tok w
    by (simp add: releaseOrderCreateFreeze_def seatCall_def split: prod.splits)
  show 1: "started env ev (finalizeSuccess env i a t w)" for i
    using assms by (simp add: finalizeSuccess_def started_def finish_notPending)
  show 2: "started env ev (snd (finalizeFailure env i a rs tok w))" for i rs tok
    using assms finish_notPending(2) [of "oe_Store (ce_Base env)" "eventShowTime ev" "ev_OrderNumber ev" "ow_rush w"
        "ce_RushTime env 2" "oe_Now (ce_Base env) 2" "ce_RushFault env 2" a rs "Some (oe_Now (ce_Base env) 2)"]
    by (auto simp: finalizeFailure_def started_def Let_def rel split: prod.splits sum.splits)
  show "started env ev (snd (resolveOrderPersistFailure env n a fr e t w))"
    using assms by (auto simp: resolveOrderPersistFailure_def Let_def 1 2 split: sum.split)
qed

lemma build_rush: "ow_rush (snd (buildConsumerOrderEvent env ev t w)) = ow_rush w"
proof -
  have "ow_rush (snd (freezeSeatsWithRetry env rq w)) = ow_rush w" for rq
    by (auto simp: freezeSeatsWithRetry_def freezeCall_def split: sum.splits prod.splits)
  then show ?thesis
    by (auto simp: buildConsumerOrderEvent_def Let_def split: sum.split prod.split) (metis snd_conv)+
qed

lemma transact_rush: "ow_rush (snd (transact env i n f w)) = ow_rush w"
  by (simp add: transact_snd)

lemma consumeAttempt_started:
  assumes "started env ev w"
  shows "started env ev (snd (consumeAttempt env ev t now a w))"
proof -
  obtain x w1 where b: "buildConsumerOrderEvent env ev t w = (x, w1)" by fastforce
  then have 1: "started env ev w1" using assms build_rush [of env ev t w] by (simp add: started_def)
  have "started env ev w2" if "transact (ce_Base env) 0 (ev_OrderNumber ev) f w1 = (y, w2)" for f y w2
    using 1 transact_rush [of "ce_Base env" 0 "ev_OrderNumber ev" f w1] that by (simp add: started_def)
  with assms b 1 show ?thesis
    by (auto simp: consumeAttempt_def Let_def intro!: finalize_started split: sum.split buildError.split prod.split)
qed

lemma Consume_started:
  assumes "started env ev w" "ce_Unmarshal env body = Some ev"
  shows "ow_repo (snd (Consume env body w)) = ow_repo w" "ow_pay (snd (Consume env body w)) = ow_pay w"
    "ow_seats (snd (Consume env body w)) = ow_seats w"
proof -
  obtain x w1 where p: "prepareAttemptForConsume env (eventShowTime ev) (ev_OrderNumber ev) (oe_Now (ce_Base env) 0) w = (x, w1)" by fastforce
  then have w1: "ow_repo w1 = ow_repo w" "ow_pay w1 = ow_pay w" "ow_seats w1 = ow_seats w"
    by (auto simp: prepareAttemptForConsume_def split: prod.splits)
  have "x \<noteq> Inr (a, True)" for a
    using assms(1) p prepare_notPending by (auto simp: started_def prepareAttemptForConsume_def split: prod.splits) (metis fst_conv)
  then show "ow_repo (snd (Consume env body w)) = ow_repo w" "ow_pay (snd (Consume env body w)) = ow_pay w"
    "ow_seats (snd (Consume env body w)) = ow_seats w"
    using assms(2) p w1 by (auto simp: Consume_unfold Let_def split: sum.split)
qed

lemma prepare_keeps:
  assumes "notPending s st n r"
  shows "notPending s st n (snd (PrepareAttemptForConsume s t wall flt st n now r))"
proof -
  let ?k = "attemptRecordKey (as_prefix s) st n"
  let ?f = "prepareAttemptForConsumeScript t ?k (show_int (unix_milli (orNow now wall))) (show_int (inFlightTTLSeconds s))"
  have p: "notPending s st n (purge t r)" by (rule notPending_purge [OF assms])
  then have "snd (?f (purge t r)) = purge t r"
    by (auto simp: prepareAttemptForConsumeScript_def Let_def notPending_def hget_blank_def split: option.splits)
  with eval_ctx_snd [of flt ?f "purge t r"] p assms show ?thesis
    by (auto simp: PrepareAttemptForConsume_def split: prod.splits sum.splits)
qed

lemma Consume_keeps_started:
  assumes "started env ev w" "ce_Unmarshal env body = Some ev"
  shows "started env ev (snd (Consume env body w))"
proof -
  obtain x w1 where p: "prepareAttemptForConsume env (eventShowTime ev) (ev_OrderNumber ev) (oe_Now (ce_Base env) 0) w = (x, w1)" by fastforce
  have "started env ev w1"
    using assms(1) p prepare_keeps by (auto simp: started_def prepareAttemptForConsume_def split: prod.splits) (metis snd_conv)
  then show ?thesis
    using assms p by (auto simp: Consume_unfold Let_def intro: consumeAttempt_started split: sum.split)
qed

definition redeliver :: "string \<Rightarrow> consumeEnv list \<Rightarrow> orderWorld \<Rightarrow> orderWorld" where
  "redeliver body envs w = foldl (\<lambda>w env. snd (Consume env body w)) w envs"

lemma redeliver_started:
  assumes "\<forall>e \<in> set envs. oe_Store (ce_Base e) = oe_Store (ce_Base env) \<and> ce_Unmarshal e body = Some ev" "started env ev w"
  shows "ow_repo (redeliver body envs w) = ow_repo w \<and> ow_pay (redeliver body envs w) = ow_pay w \<and> ow_seats (redeliver body envs w) = ow_seats w"
  using assms
proof (induction envs arbitrary: w)
  case (Cons e es)
  let ?w = "snd (Consume e body w)"
  have e: "started e ev w" "ce_Unmarshal e body = Some ev" using Cons.prems by (auto simp: started_def)
  have "started env ev ?w" using Consume_keeps_started [OF e] Cons.prems by (auto simp: started_def)
  with Cons Consume_started [OF e] show ?case by (simp add: redeliver_def)
qed (simp add: redeliver_def)

text \<open>
  C8. An event is processed at most once: after a run of the consumer that was handed the attempt,
  however that run ended, any number of redeliveries of the event, at any later times and with any
  faults, leave the orders, the bills and the seats as that run left them.
\<close>

theorem event_processed_once:
  assumes ev: "ce_Unmarshal env body = Some ev" "validateOrderCreateEvent ev = Inr ()" "parseOrderTime (ce_Base env) (ev_OccurredAt ev) = Inr t"
    and handed: "prepareAttemptForConsume env (if ev_ShowTimeID ev \<le> 0 then ev_ProgramID ev else ev_ShowTimeID ev) (ev_OrderNumber ev)
       (oe_Now (ce_Base env) 0) w = (Inr (a, True), w0)"
    and run: "Consume env body w = (x, w1)"
    and later: "\<forall>e \<in> set envs. oe_Store (ce_Base e) = oe_Store (ce_Base env) \<and> ce_Unmarshal e body = Some ev"
  shows "ow_repo (redeliver body envs w1) = ow_repo w1 \<and> ow_pay (redeliver body envs w1) = ow_pay w1 \<and> ow_seats (redeliver body envs w1) = ow_seats w1"
proof -
  have "started env ev w0"
    using handed [folded eventShowTime_def] by (auto simp: started_def prepareAttemptForConsume_def dest: prepare_true(2) split: prod.splits)
  from consumeAttempt_started [OF this] have "started env ev w1"
    using ev handed [folded eventShowTime_def] run by (auto simp: Consume_unfold Let_def) (metis snd_conv)
  then show ?thesis by (rule redeliver_started [OF later])
qed

definition demoEvent :: OrderCreateEvent where
  "demoEvent = \<lparr>ev_EventID = ''1'', ev_Version = ''v1'', ev_OrderNumber = 91, ev_RequestNo = [], ev_OccurredAt = ''1'', ev_UserID = 3,
     ev_ProgramID = 7, ev_ShowTimeID = 5, ev_TicketCategoryID = 7, ev_TicketUserIDs = [11, 12], ev_TicketCount = 2, ev_DistributionMode = [],
     ev_TakeTicketMode = [], ev_SaleWindowEndAt = [], ev_ShowEndAt = [], ev_FreezeToken = [], ev_FreezeExpireTime = [],
     ev_ProgramSnapshot = emptyProgramSnapshot, ev_TicketCategorySnapshot = emptyCategorySnapshot, ev_TicketUserSnapshot = [], ev_SeatSnapshot = []\<rparr>"

definition demoConsumeEnv :: consumeEnv where
  "demoConsumeEnv = \<lparr>ce_Base = demoOrderEnv\<lparr>oe_Now := (\<lambda>_. 1000000000), oe_Parse := (\<lambda>_. Some 1)\<rparr>, ce_Unmarshal = (\<lambda>_. Some demoEvent), ce_Preorder = (\<lambda>_. Inr demoPreorder),
     ce_Users = (\<lambda>_. Inr demoUsers), ce_FreezeRpc = (\<lambda>_. NoFault), ce_FreezeEnv = (\<lambda>_. demoEnv), ce_CloseAfter = 0,
     ce_Ids = (\<lambda>k. 1000 + int k), ce_Lost = (\<lambda>_. False), ce_RushTime = (\<lambda>_. 1000), ce_RushFault = (\<lambda>_. NoFault)\<rparr>"

text \<open>The catalogue does not answer.\<close>

definition demoOutageEnv :: consumeEnv where
  "demoOutageEnv = demoConsumeEnv\<lparr>ce_Preorder := (\<lambda>_. Inl (Other ''unavailable''))\<rparr>"

definition demoPendingWorld :: orderWorld where
  "demoPendingWorld = freshWorld [''order-db-0''] demoWorld demoPending"

lemma demo_route91: "\<exists>s. RouteByOrderNumber demoMap 1777356000 91 = Inr (sampleRouteEntry s)"
  by (simp add: RouteByOrderNumber_def LogicSlotByOrderNumber_def ParseOrderNumber_def isOldFormatOrderNumber_def
      maxOrderTimePart_def orderNumberEpoch_def RouteByLogicSlot_def RouteByVersionAndSlot_def demoMap_def Let_def) blast

lemma demo_no_order: "FindOrderByNumber demoMap 1777356000 None 91 (emptyRepo [''order-db-0'']) = Inl ModelNotFound"
  using demo_route91 by (auto simp: FindOrderByNumber_def queryRoute_def emptyRepo_def findOrder_def emptyShard_def)

lemma demo_handed:
  assumes "env \<in> {demoConsumeEnv, demoOutageEnv}"
  shows "\<exists>a r. prepareAttemptForConsume env 5 91 (oe_Now (ce_Base env) 0) demoPendingWorld = (Inr (a, True), demoPendingWorld\<lparr>ow_rush := r\<rparr>)
     \<and> ar_ShowTimeID a = 5 \<and> ar_OrderNumber a = 91"
  using demoPending_starts [of 1000000000] assms
  by (auto simp: prepareAttemptForConsume_def demoOutageEnv_def demoConsumeEnv_def demoOrderEnv_def demoPendingWorld_def freshWorld_def demoStore_def)

theorem event_processed_once_witness:
  "fst (Consume demoOutageEnv ''event'' demoPendingWorld) = Inl (Other ''unavailable'')
     \<and> ow_repo (redeliver ''event'' [demoConsumeEnv, demoConsumeEnv] (snd (Consume demoOutageEnv ''event'' demoPendingWorld))) = emptyRepo [''order-db-0'']"
proof -
  let ?w = demoPendingWorld
  obtain a r where h: "prepareAttemptForConsume demoOutageEnv 5 91 (oe_Now (ce_Base demoOutageEnv) 0) ?w = (Inr (a, True), ?w\<lparr>ow_rush := r\<rparr>)"
    using demo_handed [of demoOutageEnv] by auto
  have ev: "ce_Unmarshal demoOutageEnv ''event'' = Some demoEvent" "validateOrderCreateEvent demoEvent = Inr ()"
    "parseOrderTime (ce_Base demoOutageEnv) (ev_OccurredAt demoEvent) = Inr 1"
    by (simp add: demoOutageEnv_def demoConsumeEnv_def) code_simp+
  have n: "ev_OrderNumber demoEvent = 91" "eventShowTime demoEvent = 5" "\<not> hasEmbeddedOrderCreateSnapshots demoEvent"
    by (simp_all add: demoEvent_def eventShowTime_def hasEmbeddedOrderCreateSnapshots_def)
  have "ow_repo ?w = emptyRepo [''order-db-0'']" by (simp add: demoPendingWorld_def freshWorld_def)
  moreover have "buildConsumerOrderEvent demoOutageEnv demoEvent 1 w = (Inl (BuildError (Other ''unavailable'')), w)" for w
    using n(3) by (simp add: buildConsumerOrderEvent_def Let_def demoOutageEnv_def)
  moreover have "oe_Map (ce_Base demoOutageEnv) = demoMap" "oe_Sec (ce_Base demoOutageEnv) = 1777356000" "oe_Query (ce_Base demoOutageEnv) 0 = None"
    by (simp_all add: demoOutageEnv_def demoConsumeEnv_def demoOrderEnv_def)
  ultimately have "consumeAttempt demoOutageEnv demoEvent 1 t a (?w\<lparr>ow_rush := r\<rparr>) = (Inl (Other ''unavailable''), ?w\<lparr>ow_rush := r\<rparr>)" for t
    using demo_no_order n by (simp add: consumeAttempt_def)
  with h ev n have run: "Consume demoOutageEnv ''event'' ?w = (Inl (Other ''unavailable''), ?w\<lparr>ow_rush := r\<rparr>)"
    by (simp add: Consume_unfold Let_def)
  have "\<forall>e \<in> set [demoConsumeEnv, demoConsumeEnv]. oe_Store (ce_Base e) = oe_Store (ce_Base demoOutageEnv) \<and> ce_Unmarshal e ''event'' = Some demoEvent"
    by (simp add: demoOutageEnv_def demoConsumeEnv_def)
  from event_processed_once [OF ev h [folded n(1,2), unfolded eventShowTime_def] run this] run \<open>ow_repo ?w = _\<close>
  show ?thesis by simp
qed

section \<open>The order that is written\<close>

lemma viewerSnapshots_ids:
  assumes "viewerSnapshots (ticketUserMap users) is = Inr us"
  shows "map us_TicketUserID us = is"
  using assms
proof (induction "is" arbitrary: us)
  case (Cons i "is")
  then show ?case by (auto split: option.splits sum.splits dest: ticketUserMap_Some)
qed simp

lemma snapshots_ok:
  assumes "buildOrderCreateEventFromSnapshots env eid ev preorder users resp now closeAfter = Inr event"
  obtains category where "findPreorderTicketCategory (pi_TicketCategories preorder) (ev_TicketCategoryID ev) = Some category"
    "validateRequestedTicketUsers users (ev_UserID ev) (ev_TicketUserIDs ev) = Inr ()"
    "ev_OrderNumber event = ev_OrderNumber ev" "ev_UserID event = ev_UserID ev" "ev_ProgramID event = ev_ProgramID ev"
    "cs_Price (ev_TicketCategorySnapshot event) = pt_Price category"
    "map us_TicketUserID (ev_TicketUserSnapshot event) = ev_TicketUserIDs ev"
    "map ss_SeatID (ev_SeatSnapshot event) = map ID (ap_Seats resp)" "ev_FreezeToken event = ap_FreezeToken resp"
  using assms by (auto simp: buildOrderCreateEventFromSnapshots_def o_def viewerSnapshots_ids split: if_splits sum.splits option.splits)

lemma writeModels_order:
  assumes "mapEventToOrderWriteModels env ids ev now = Inr wm"
  shows "od_UserId (wm_order wm) = ev_UserID ev" "od_OrderStatus (wm_order wm) = orderStatusUnpaid"
    "od_FreezeToken (wm_order wm) = ev_FreezeToken ev"
  using assms by (auto simp: mapEventToOrderWriteModels_def Let_def split: if_splits sum.splits prod.splits)

lemma build_ok:
  assumes "buildConsumerOrderEvent env ev t w0 = (Inr (event, fr), w1)" "\<not> hasEmbeddedOrderCreateSnapshots ev"
  obtains preorder users req resp event0 where "ce_Preorder env (eventShowTime ev) = Inr preorder"
    "ce_Users env (ev_UserID ev) = Inr users" "aq_TicketCategoryId req = ev_TicketCategoryID ev" "freezeSeatsWithRetry env req w0 = (Inr resp, w1)"
    "buildOrderCreateEventFromSnapshots (ce_Base env) (ce_Ids env 0) ev preorder users resp t (ce_CloseAfter env) = Inr event0"
    "event = event0\<lparr>ev_EventID := ev_EventID ev, ev_Version := ev_Version ev,
       ev_RequestNo := (if ev_RequestNo ev \<noteq> [] then ev_RequestNo ev else ev_RequestNo event0),
       ev_ShowTimeID := ev_ShowTimeID ev, ev_SaleWindowEndAt := ev_SaleWindowEndAt ev, ev_ShowEndAt := ev_ShowEndAt ev\<rparr>"
proof -
  let ?st = "eventShowTime ev"
  let ?req = "\<lambda>preorder. \<lparr>aq_ShowTimeId = ?st, aq_TicketCategoryId = ev_TicketCategoryID ev, aq_Count = ev_TicketCount ev,
                 aq_FreezeToken = buildSeatFreezeToken ?st (ev_TicketCategoryID ev) (ev_OrderNumber ev),
                 aq_FreezeExpireTime = buildFreezeExpireTime (ce_Base env) (pi_ShowTime preorder) t (ce_CloseAfter env)\<rparr>"
  obtain preorder where p: "ce_Preorder env ?st = Inr preorder"
    using assms by (simp add: buildConsumerOrderEvent_def [folded eventShowTime_def] Let_def split: sum.splits)
  obtain users where u: "ce_Users env (ev_UserID ev) = Inr users"
    using assms p by (simp add: buildConsumerOrderEvent_def [folded eventShowTime_def] Let_def split: sum.splits)
  obtain resp w' where f: "freezeSeatsWithRetry env (?req preorder) w0 = (Inr resp, w')"
    using assms p u by (simp add: buildConsumerOrderEvent_def [folded eventShowTime_def] Let_def split: sum.splits prod.splits)
  obtain event0 where e: "buildOrderCreateEventFromSnapshots (ce_Base env) (ce_Ids env 0) ev preorder users resp t (ce_CloseAfter env) = Inr event0"
    using assms p u f by (simp add: buildConsumerOrderEvent_def [folded eventShowTime_def] Let_def split: sum.splits)
  show ?thesis
    using assms p u f e by (intro that [of preorder users "?req preorder" resp event0])
      (auto simp: buildConsumerOrderEvent_def [folded eventShowTime_def] Let_def split: sum.splits)
qed

lemma consumeAttempt_repo:
  assumes "buildConsumerOrderEvent env ev t w0 = (y, w1)"
  shows "ow_repo (snd (consumeAttempt env ev t now a w0)) = ow_repo w0 \<or> (\<exists>event fr wm. y = Inr (event, fr)
    \<and> mapEventToOrderWriteModels (ce_Base env) (\<lambda>k. ce_Ids env (k + 1)) event now = Inr wm
    \<and> ow_repo (snd (consumeAttempt env ev t now a w0)) = ow_repo (snd (transact (ce_Base env) 0 (ev_OrderNumber ev) (persistTx wm) w1)))"
proof -
  have "ow_repo w1 = ow_repo w0" using build_frame(1) [of env ev t w0] assms by simp
  then show ?thesis
    using assms by (auto simp: consumeAttempt_def Let_def finalize_frame split: sum.split buildError.split prod.split)
qed

lemma writeRows_price:
  assumes "writeRows ev ids k ct now us ss = (ts, vs, gs)"
  shows "\<forall>t \<in> set ts. ot_TicketPrice t = cs_Price (ev_TicketCategorySnapshot ev)"
  using assms
  by (induction ev ids k ct now us ss arbitrary: ts vs gs rule: writeRows.induct) (auto simp: ticketRow_def split: prod.splits)

text \<open>The only place where the consumer changes the orders is the transaction of a built event.\<close>

lemma Consume_changes:
  assumes ev: "ce_Unmarshal env body = Some ev" and ch: "ow_repo (snd (Consume env body w)) \<noteq> ow_repo w"
  obtains w0 t event fr w1 wm where
    "ow_seats w0 = ow_seats w" "buildConsumerOrderEvent env ev t w0 = (Inr (event, fr), w1)"
    "mapEventToOrderWriteModels (ce_Base env) (\<lambda>k. ce_Ids env (k + 1)) event (oe_Now (ce_Base env) 0) = Inr wm"
    "ow_repo (snd (Consume env body w)) = snd (TransactByOrderNumber (oe_Map (ce_Base env)) (oe_Sec (ce_Base env)) (oe_Tx (ce_Base env) 0)
       (ev_OrderNumber ev) (persistTx wm) (ow_repo w))"
proof -
  let ?b = "ce_Base env" and ?now = "oe_Now (ce_Base env) 0"
  obtain x w0 where p: "prepareAttemptForConsume env (eventShowTime ev) (ev_OrderNumber ev) ?now w = (x, w0)" by fastforce
  then have w0: "ow_repo w0 = ow_repo w" "ow_seats w0 = ow_seats w" by (auto simp: prepareAttemptForConsume_def split: prod.splits)
  obtain t a where c: "snd (Consume env body w) = snd (consumeAttempt env ev t ?now a w0)"
    using ev ch p w0 by (auto simp: Consume_unfold Let_def split: sum.splits if_splits)
  obtain y w1 where b: "buildConsumerOrderEvent env ev t w0 = (y, w1)" by fastforce
  then have w1: "ow_repo w1 = ow_repo w" using build_frame(1) [of env ev t w0] w0 by simp
  from consumeAttempt_repo [OF b, of ?now a] ch c w0 obtain event fr wm where e: "y = Inr (event, fr)"
    and m: "mapEventToOrderWriteModels ?b (\<lambda>k. ce_Ids env (k + 1)) event ?now = Inr wm"
    and r: "ow_repo (snd (Consume env body w)) = ow_repo (snd (transact ?b 0 (ev_OrderNumber ev) (persistTx wm) w1))"
    by auto
  show ?thesis using r w1 by (intro that [OF w0(2) b [unfolded e] m]) (simp add: transact_snd)
qed


text \<open>The consumer on the sample attempt with all services up.\<close>

definition demoFreezeResp :: AutoAssignResp where
  "demoFreezeResp = \<lparr>ap_FreezeToken = ''freeze-st5-tc7-o91'', ap_ExpireTime = ''soon'',
     ap_Seats = [\<lparr>ID = 501, sc_TicketCategoryID = 7, sc_RowCode = 1, sc_ColCode = 1, sc_Price = 680\<rparr>,
                 \<lparr>ID = 502, sc_TicketCategoryID = 7, sc_RowCode = 1, sc_ColCode = 2, sc_Price = 680\<rparr>]\<rparr>"

lemma demo_freeze_resp:
  "fst (AutoAssignAndFreezeSeats demoSeatStore demoEnv (demoFreezeReq\<lparr>aq_FreezeExpireTime := ''1''\<rparr>) demoWorld) = Inr demoFreezeResp"
  by code_simp

lemma demo_base [simp]:
  "oe_Parse (ce_Base demoConsumeEnv) = (\<lambda>_. Some 1)" "oe_Map (ce_Base demoConsumeEnv) = demoMap" "oe_Sec (ce_Base demoConsumeEnv) = 1777356000"
  "oe_Query (ce_Base demoConsumeEnv) = (\<lambda>_. None)" "oe_Tx (ce_Base demoConsumeEnv) = (\<lambda>_. TxOk)" "oe_Format (ce_Base demoConsumeEnv) = show_int"
  "oe_SeatStore (ce_Base demoConsumeEnv) = demoSeatStore" "oe_Now (ce_Base demoConsumeEnv) = (\<lambda>_. 1000000000)"
  "ce_Unmarshal demoConsumeEnv b = Some demoEvent" "ce_Preorder demoConsumeEnv st = Inr demoPreorder" "ce_Users demoConsumeEnv u = Inr demoUsers"
  "ce_FreezeRpc demoConsumeEnv i = NoFault" "ce_FreezeEnv demoConsumeEnv i = demoEnv" "ce_CloseAfter demoConsumeEnv = 0"
  "ce_Ids demoConsumeEnv k = 1000 + int k" "ce_Lost demoConsumeEnv i = False"
  by (simp_all add: demoConsumeEnv_def demoOrderEnv_def)

lemma demo_parse [simp]: "x \<noteq> [] \<Longrightarrow> parseOrderTime (ce_Base demoConsumeEnv) x = Inr 1"
  by (simp add: parseOrderTime_def)

lemma demo_event: "ev_OrderNumber demoEvent = 91" "eventShowTime demoEvent = 5" "\<not> hasEmbeddedOrderCreateSnapshots demoEvent"
  "ev_UserID demoEvent = 3" "ev_TicketCategoryID demoEvent = 7" "ev_TicketCount demoEvent = 2"
  "validateOrderCreateEvent demoEvent = Inr ()" "ev_OccurredAt demoEvent \<noteq> []"
  by (simp_all add: demoEvent_def eventShowTime_def hasEmbeddedOrderCreateSnapshots_def validateOrderCreateEvent_def)

lemma demo_built:
  obtains event sw where
    "buildConsumerOrderEvent demoConsumeEnv demoEvent 1 (demoPendingWorld\<lparr>ow_rush := r\<rparr>) = (Inr (event, Some demoFreezeResp), demoPendingWorld\<lparr>ow_rush := r, ow_seats := sw\<rparr>)"
    "ev_OrderNumber event = 91" "ev_ShowTimeID event = 5" "length (ev_TicketUserSnapshot event) = 2" "length (ev_SeatSnapshot event) = 2"
    "ps_ShowTime (ev_ProgramSnapshot event) \<noteq> []" "ev_FreezeExpireTime event \<noteq> []" "ev_OccurredAt event \<noteq> []"
    "map us_TicketUserID (ev_TicketUserSnapshot event) = [11, 12]" "map ss_SeatID (ev_SeatSnapshot event) = [501, 502]"
proof -
  let ?w = "demoPendingWorld\<lparr>ow_rush := r\<rparr>"
  let ?req = "\<lparr>aq_ShowTimeId = 5, aq_TicketCategoryId = 7, aq_Count = 2, aq_FreezeToken = buildSeatFreezeToken 5 7 91,
     aq_FreezeExpireTime = buildFreezeExpireTime (ce_Base demoConsumeEnv) (pi_ShowTime demoPreorder) 1 0\<rparr>"
  have s: "show_int 1 = ''1''" "FormatToken 5 7 91 = demoToken" by code_simp+
  then have req: "?req = demoFreezeReq\<lparr>aq_FreezeExpireTime := ''1''\<rparr>"
    by (simp add: demoFreezeReq_def buildSeatFreezeToken_def buildFreezeExpireTime_def demoPreorder_def closeAfterOf_def formatOrderTime_def)
  have "ow_seats ?w = demoWorld" by (simp add: demoPendingWorld_def freshWorld_def)
  then have fr: "freezeSeatsWithRetry demoConsumeEnv ?req ?w = (Inr demoFreezeResp,
      ?w\<lparr>ow_seats := snd (AutoAssignAndFreezeSeats demoSeatStore demoEnv (demoFreezeReq\<lparr>aq_FreezeExpireTime := ''1''\<rparr>) demoWorld)\<rparr>)"
    using demo_freeze_resp unfolding req
    by (simp add: freezeSeatsWithRetry_def freezeCall_def eval_ctx_def wireRes_def case_prod_unfold)
  obtain event0 where e0: "buildOrderCreateEventFromSnapshots (ce_Base demoConsumeEnv) (ce_Ids demoConsumeEnv 0) demoEvent demoPreorder demoUsers
      demoFreezeResp 1 0 = Inr event0"
    by (simp add: buildOrderCreateEventFromSnapshots_def demoEvent_def demoUsers_def demoFreezeResp_def demoPreorder_def
        validateRequestedTicketUsers_def ticketUserMap_def findPreorderTicketCategory_def)
  from e0 have f: "ev_OrderNumber event0 = 91" "length (ev_TicketUserSnapshot event0) = 2" "length (ev_SeatSnapshot event0) = 2"
    "ps_ShowTime (ev_ProgramSnapshot event0) \<noteq> []" "ev_FreezeExpireTime event0 \<noteq> []" "ev_OccurredAt event0 \<noteq> []"
    "map us_TicketUserID (ev_TicketUserSnapshot event0) = [11, 12]" "map ss_SeatID (ev_SeatSnapshot event0) = [501, 502]"
    by (auto simp: buildOrderCreateEventFromSnapshots_def demoEvent_def demoUsers_def demoFreezeResp_def demoPreorder_def
        validateRequestedTicketUsers_def ticketUserMap_def findPreorderTicketCategory_def formatOrderTime_def s)
  have "ev_ShowTimeID demoEvent = 5" "ev_RequestNo demoEvent = []" by (simp_all add: demoEvent_def)
  with f fr e0 show ?thesis
    by (intro that [of "event0\<lparr>ev_EventID := ev_EventID demoEvent, ev_Version := ev_Version demoEvent, ev_ShowTimeID := 5,
          ev_SaleWindowEndAt := ev_SaleWindowEndAt demoEvent, ev_ShowEndAt := ev_ShowEndAt demoEvent\<rparr>"]) (simp_all add: buildConsumerOrderEvent_def [folded eventShowTime_def] Let_def demo_event)
qed

lemma demo_written:
  assumes "mapEventToOrderWriteModels (ce_Base demoConsumeEnv) (\<lambda>k. ce_Ids demoConsumeEnv (k + 1)) event now = Inr wm"
    "length (ev_TicketUserSnapshot event) = 2" "length (ev_SeatSnapshot event) = 2"
    "map us_TicketUserID (ev_TicketUserSnapshot event) = [11, 12]" "map ss_SeatID (ev_SeatSnapshot event) = [501, 502]"
  shows "\<exists>tx. runTx TxOk (persistTx wm) (openTx ''00'' emptyShard) = (Inr (), tx) \<and> tx_orders tx = [wm_order wm]"
proof -
  obtain u1 u2 where u: "ev_TicketUserSnapshot event = [u1, u2]" using assms(2) by (auto simp: length_Suc_conv numeral_2_eq_2)
  obtain s1 s2 where s: "ev_SeatSnapshot event = [s1, s2]" using assms(3) by (auto simp: length_Suc_conv numeral_2_eq_2)
  show ?thesis
    using assms(1,4,5)
    by (auto simp: mapEventToOrderWriteModels_def Let_def u s runTx_def persistTx_def openTx_def emptyShard_def InsertOrder_def upsertTask_def
        InsertUserGuard_def InsertViewerGuards_def InsertSeatGuards_def InsertDelayTasks_def guardRow_def ticketRow_def guardKey_def
        split: sum.splits if_splits)
qed

lemma demo_consumed:
  "ow_repo (snd (Consume demoConsumeEnv ''event'' demoPendingWorld)) \<noteq> ow_repo demoPendingWorld"
proof -
  let ?w = demoPendingWorld
  obtain a r where h: "prepareAttemptForConsume demoConsumeEnv 5 91 1000000000 ?w = (Inr (a, True), ?w\<lparr>ow_rush := r\<rparr>)"
    "ar_ShowTimeID a = 5" "ar_OrderNumber a = 91"
    using demo_handed [of demoConsumeEnv] by auto
  obtain event sw where b: "buildConsumerOrderEvent demoConsumeEnv demoEvent 1 (?w\<lparr>ow_rush := r\<rparr>) = (Inr (event, Some demoFreezeResp), ?w\<lparr>ow_rush := r, ow_seats := sw\<rparr>)"
    and e: "ev_OrderNumber event = 91" "length (ev_TicketUserSnapshot event) = 2" "length (ev_SeatSnapshot event) = 2"
    "ps_ShowTime (ev_ProgramSnapshot event) \<noteq> []" "ev_FreezeExpireTime event \<noteq> []" "ev_OccurredAt event \<noteq> []"
    "map us_TicketUserID (ev_TicketUserSnapshot event) = [11, 12]" "map ss_SeatID (ev_SeatSnapshot event) = [501, 502]"
    by (rule demo_built)
  have repo: "ow_repo ?w = emptyRepo [''order-db-0'']" by (simp add: demoPendingWorld_def freshWorld_def)
  obtain wm where m: "mapEventToOrderWriteModels (ce_Base demoConsumeEnv) (\<lambda>k. ce_Ids demoConsumeEnv (k + 1)) event 1000000000 = Inr wm"
    using e by (auto simp: mapEventToOrderWriteModels_def Let_def split: prod.splits)
  obtain tx where tx: "runTx TxOk (persistTx wm) (openTx ''00'' emptyShard) = (Inr (), tx)" "tx_orders tx = [wm_order wm]"
    using demo_written [OF m e(2,3,7,8)] by blast
  let ?r = "[''order-db-0'' \<mapsto> commitTx ''00'' tx emptyShard]"
  have t: "transact (ce_Base demoConsumeEnv) 0 91 (persistTx wm) w = (Inr (), w\<lparr>ow_repo := ?r\<rparr>)"
    if "ow_repo w = emptyRepo [''order-db-0'']" for w
  proof -
    have "(emptyRepo [''order-db-0''])(''order-db-0'' \<mapsto> db) = [''order-db-0'' \<mapsto> db]" "emptyRepo [''order-db-0''] ''order-db-0'' = Some emptyShard" for db
      by (simp_all add: emptyRepo_def fun_eq_iff)
    with demo_route91 tx(1) that show ?thesis by (auto simp: transact_def TransactByOrderNumber_def transactByRoute_def)
  qed
  have "\<not> leaseLost demoConsumeEnv 0 a" using h by (simp add: leaseLost_def)
  then have "ow_repo (snd (consumeAttempt demoConsumeEnv demoEvent 1 1000000000 a (?w\<lparr>ow_rush := r\<rparr>))) = ?r"
    using demo_no_order b m t repo by (simp add: consumeAttempt_def demo_event finalize_frame)
  then have "ow_repo (snd (Consume demoConsumeEnv ''event'' ?w)) = ?r"
    using h by (simp add: Consume_unfold Let_def demo_event)
  moreover have "?r \<noteq> emptyRepo [''order-db-0'']"
  proof
    assume "?r = emptyRepo [''order-db-0'']"
    then have "commitTx ''00'' tx emptyShard = emptyShard" by (auto simp: emptyRepo_def dest!: fun_cong [of _ _ "''order-db-0''"])
    then have "sd_orders (commitTx ''00'' tx emptyShard) ''00'' = sd_orders emptyShard ''00''" by simp
    with tx(2) show False by (simp add: commitTx_def emptyShard_def)
  qed
  ultimately show ?thesis by (simp add: repo)
qed


text \<open>
  C22. The rows written for an event are well typed: one ticket, one viewer guard and one seat guard for
  each viewer, all with the number and the show of the order and unpaid, a guard for the user, and one
  pending task to close the order, due at its expiry; the ticket count and the prices of the tickets
  agree with the order.
\<close>

theorem write_models_well_formed:
  assumes "mapEventToOrderWriteModels env ids ev now = Inr wm"
  shows "wmOk wm \<and> wm_orderTickets wm \<noteq> [] \<and> int (length (wm_orderTickets wm)) = od_TicketCount (wm_order wm)
    \<and> (\<exists>p. (\<forall>t \<in> set (wm_orderTickets wm). ot_TicketPrice t = p) \<and> od_OrderPrice (wm_order wm) = wrap64 (p * od_TicketCount (wm_order wm)))
    \<and> (\<exists>i. wm_delayTaskRows wm = [newCloseTimeoutDelayTaskRow i now (od_OrderNumber (wm_order wm)) (od_OrderExpireTime (wm_order wm))])"
proof -
  obtain ct where ct: "parseOrderTime env (ev_OccurredAt ev) = Inr ct"
    using assms by (auto simp: mapEventToOrderWriteModels_def split: if_splits sum.splits)
  obtain ts vs gs where r: "writeRows ev ids 1 ct now (ev_TicketUserSnapshot ev) (ev_SeatSnapshot ev) = (ts, vs, gs)" using prod_cases3 by blast
  have wm: "wm_orderTickets wm = ts" "od_TicketCount (wm_order wm) = int (length (ev_TicketUserSnapshot ev))" "ev_TicketUserSnapshot ev \<noteq> []"
    "\<exists>i. wm_delayTaskRows wm = [newCloseTimeoutDelayTaskRow i now (od_OrderNumber (wm_order wm)) (od_OrderExpireTime (wm_order wm))]"
    using assms ct r by (auto simp: mapEventToOrderWriteModels_def Let_def split: if_splits sum.splits)
  note ok = writeModels_ok [OF assms]
  have "length ts = length (ev_TicketUserSnapshot ev)" using arg_cong [OF ok(4), of length] wm(1) by simp
  then show ?thesis using ok(1,3) wm writeRows_price [OF r] by auto
qed

theorem write_models_well_formed_witness:
  "\<exists>event wm. mapEventToOrderWriteModels (ce_Base demoConsumeEnv) (ce_Ids demoConsumeEnv) event 7 = Inr wm
     \<and> wmOk wm \<and> wm_orderTickets wm \<noteq> []"
proof -
  obtain event :: OrderCreateEvent where e: "length (ev_TicketUserSnapshot event) = 2" "length (ev_SeatSnapshot event) = 2"
    "ps_ShowTime (ev_ProgramSnapshot event) \<noteq> []" "ev_FreezeExpireTime event \<noteq> []" "ev_OccurredAt event \<noteq> []"
    by (rule demo_built)
  have "\<exists>wm. mapEventToOrderWriteModels (ce_Base demoConsumeEnv) (ce_Ids demoConsumeEnv) event 7 = Inr wm"
    using e demo_parse by (auto simp: mapEventToOrderWriteModels_def Let_def split: prod.split)
  then obtain wm where m: "mapEventToOrderWriteModels (ce_Base demoConsumeEnv) (ce_Ids demoConsumeEnv) event 7 = Inr wm" by blast
  with write_models_well_formed [OF m] show ?thesis by blast
qed

end
