(* ===== verification/RushPrime.thy ===== *)
theory RushPrime
  imports OrderCreateProps
begin

text \<open>
  Priming the rush store before a sale (\<open>prime_rush_runtime_logic.go\<close>): for every show of a program the
  marks of running attempts and the quota are cleared, the active users and viewers are read from the
  guard tables of all shards, page by page, and the quota of every category is set to the seats the
  catalogue reports as available.
\<close>

section \<open>Walking the guard tables\<close>

definition activeGuards :: "int \<Rightarrow> int \<Rightarrow> orderGuard list \<Rightarrow> orderGuard list" where
  "activeGuards showTimeID afterID tbl =
     sort_key gd_Id (filter (\<lambda>g. gd_ShowTimeId g = showTimeID \<and> gd_Status g = 1 \<and> afterID < gd_Id g) tbl)"

definition FindActiveByShowTimeAfterID :: "int \<Rightarrow> int \<Rightarrow> int \<Rightarrow> orderGuard list \<Rightarrow> orderGuard list" where
  "FindActiveByShowTimeAfterID showTimeID afterID limit tbl =
     take (nat (if limit \<le> 0 then 100 else limit)) (activeGuards showTimeID afterID tbl)"

lemma page_shrinks:
  assumes "g \<in> set (activeGuards st afterID tbl)"
  shows "length (activeGuards st (gd_Id g) tbl) < length (activeGuards st afterID tbl)"
proof -
  let ?P = "\<lambda>a g. gd_ShowTimeId g = st \<and> gd_Status g = 1 \<and> a < gd_Id g"
  from assms have g: "g \<in> set tbl" "?P afterID g" by (auto simp: activeGuards_def)
  have "filter (?P (gd_Id g)) tbl = filter (?P (gd_Id g)) (filter (?P afterID) tbl)"
    using g(2) by (auto simp: filter_filter intro!: filter_cong)
  also have "length \<dots> < length (filter (?P afterID) tbl)"
    using g by (intro length_filter_less [of g]) auto
  finally show ?thesis by (simp add: activeGuards_def)
qed

text \<open>
  The loop over one shard; \<open>flt\<close> is the error the query behind a cursor runs into, if any. The rows
  already seen are those the callback was given.
\<close>

function (sequential) walkLoop :: "(int \<Rightarrow> goerr option) \<Rightarrow> int \<Rightarrow> int \<Rightarrow> orderGuard list \<Rightarrow> int \<Rightarrow> orderGuard list \<Rightarrow> orderGuard list res" where
  "walkLoop flt showTimeID batchSize tbl afterID seen =
     (case flt afterID of
        Some e \<Rightarrow> Inl e
      | None \<Rightarrow>
        (let rows = FindActiveByShowTimeAfterID showTimeID afterID batchSize tbl in
         if rows = [] then Inr seen
         else if int (length rows) < batchSize then Inr (seen @ rows)
         else walkLoop flt showTimeID batchSize tbl (gd_Id (last rows)) (seen @ rows)))"
  by pat_completeness auto
termination
proof (relation "measure (\<lambda>(flt, st, batchSize, tbl, afterID, seen). length (activeGuards st afterID tbl))", goal_cases)
  case (2 flt st batchSize tbl afterID seen rows)
  then have "last rows \<in> set (activeGuards st afterID tbl)"
    by (metis FindActiveByShowTimeAfterID_def in_set_takeD last_in_set)
  then show ?case by (simp add: page_shrinks)
qed simp

declare walkLoop.simps [simp del]

text \<open>
  The walk over all shards in the order of their keys; \<open>table\<close> picks the guard table of a shard.
  \<open>WalkActiveUserGuardsByShowTime\<close> and \<open>WalkActiveViewerGuardsByShowTime\<close> differ only in it.
\<close>

fun walkShards :: "(string \<Rightarrow> int \<Rightarrow> goerr option) \<Rightarrow> (shardDb \<Rightarrow> orderGuard list) \<Rightarrow> int \<Rightarrow> int \<Rightarrow> string list \<Rightarrow> repo \<Rightarrow> orderGuard list res" where
  "walkShards flt table showTimeID batchSize [] repo = Inr []"
| "walkShards flt table showTimeID batchSize (k # ks) repo =
     (case walkLoop (flt k) showTimeID batchSize (case repo k of None \<Rightarrow> [] | Some db \<Rightarrow> table db) 0 [] of
        Inl e \<Rightarrow> Inl e
      | Inr rows \<Rightarrow>
          (case walkShards flt table showTimeID batchSize ks repo of Inl e \<Rightarrow> Inl e | Inr rest \<Rightarrow> Inr (rows @ rest)))"

definition walkGuards :: "(string \<Rightarrow> int \<Rightarrow> goerr option) \<Rightarrow> (shardDb \<Rightarrow> orderGuard list) \<Rightarrow> int \<Rightarrow> int \<Rightarrow> string list \<Rightarrow> repo \<Rightarrow> orderGuard list res" where
  "walkGuards flt table showTimeID batchSize keys repo =
     (if showTimeID \<le> 0 then Inl ErrRouteNotFound
      else walkShards flt table showTimeID (if batchSize \<le> 0 then 100 else batchSize) keys repo)"

definition WalkActiveUserGuardsByShowTime :: "(string \<Rightarrow> int \<Rightarrow> goerr option) \<Rightarrow> int \<Rightarrow> int \<Rightarrow> string list \<Rightarrow> repo \<Rightarrow> orderGuard list res" where
  "WalkActiveUserGuardsByShowTime flt = walkGuards flt sd_userGuards"

definition WalkActiveViewerGuardsByShowTime :: "(string \<Rightarrow> int \<Rightarrow> goerr option) \<Rightarrow> int \<Rightarrow> int \<Rightarrow> string list \<Rightarrow> repo \<Rightarrow> orderGuard list res" where
  "WalkActiveViewerGuardsByShowTime flt = walkGuards flt sd_viewerGuards"

section \<open>Times\<close>

definition parsePrimeRuntimeTime :: "orderEnv \<Rightarrow> string \<Rightarrow> int res" where
  "parsePrimeRuntimeTime env raw =
     (if raw = [] then Inl (Sentinel ErrInvalidParam)
      else case oe_Parse env raw of None \<Rightarrow> Inl (Other ''parsing time'') | Some t \<Rightarrow> Inr t)"

definition rushTTLSeconds :: "gotime \<Rightarrow> gotime \<Rightarrow> int" where
  "rushTTLSeconds now endAt =
     (let retention = 7 * 24 * 60 * 60 in
      case (now, endAt) of
        (Some n, Some e) \<Rightarrow> (let seconds = sub_seconds e n + retention in if seconds < retention then retention else seconds)
      | _ \<Rightarrow> retention)"

definition computePrimeActiveTTLSeconds :: "orderEnv \<Rightarrow> PreorderInfo \<Rightarrow> int \<Rightarrow> int" where
  "computePrimeActiveTTLSeconds env preorder now =
     (case parsePrimeRuntimeTime env (pi_RushSaleEndTime preorder) of
        Inr parsed \<Rightarrow> rushTTLSeconds (Some now) (Some parsed)
      | Inl _ \<Rightarrow>
        (case parsePrimeRuntimeTime env (pi_ShowTime preorder) of
           Inr parsed \<Rightarrow> rushTTLSeconds (Some now) (Some parsed)
         | Inl _ \<Rightarrow> 0))"

section \<open>PrimeRushRuntime\<close>

text \<open>The Go map of subject and order number the callback fills; a later row replaces an earlier one.\<close>

definition guardRows :: "orderGuard list \<Rightarrow> (int \<times> int) list" where
  "guardRows gs = fold (\<lambda>g. AList.update (gd_Subject g) (gd_OrderNumber g)) (filter (\<lambda>g. 0 < gd_Subject g \<and> 0 < gd_OrderNumber g) gs) []"

definition primeRushRuntimeGuardBatchSize :: int where "primeRushRuntimeGuardBatchSize = 256"

record primeEnv =
  re_Base :: orderEnv
  re_Shows :: "int \<Rightarrow> int list res"
  re_Preorder :: "int \<Rightarrow> PreorderInfo res"
  re_Keys :: "string list"
  re_Walk :: "bool \<Rightarrow> string \<Rightarrow> int \<Rightarrow> goerr option"
  re_Fault :: "int \<Rightarrow> nat \<Rightarrow> fault"

text \<open>The calls of the store in order; \<open>flt k\<close> is what happens to the \<open>k\<close>-th of them.\<close>

fun setQuotas :: "primeEnv \<Rightarrow> int \<Rightarrow> nat \<Rightarrow> PreorderTicketCategory list \<Rightarrow> redis \<Rightarrow> unit res \<times> redis" where
  "setQuotas env st k [] r = (Inr (), r)"
| "setQuotas env st k (c # cs) r =
     (if pt_Id c \<le> 0 then setQuotas env st k cs r
      else case eval_ctx (re_Fault env st k) (SetQuotaAvailable (oe_Store (re_Base env)) (oe_RushTime (re_Base env)) st (pt_Id c) (pt_AdmissionQuota c)) r of
        (Inl e, r1) \<Rightarrow> (Inl e, r1)
      | (Inr _, r1) \<Rightarrow> setQuotas env st (Suc k) cs r1)"

definition primeRushRuntimeByShowTime :: "primeEnv \<Rightarrow> int \<Rightarrow> repo \<Rightarrow> redis \<Rightarrow> unit res \<times> redis" where
  "primeRushRuntimeByShowTime env showTimeID repo r =
     (let b = re_Base env; s = oe_Store b; t = oe_RushTime b; now = oe_Now b 0 in
      case re_Preorder env showTimeID of Inl e \<Rightarrow> (Inl e, r) | Inr preorder \<Rightarrow>
      (let st = (if pi_ShowTimeId preorder \<le> 0 then showTimeID else pi_ShowTimeId preorder);
           ttl = computePrimeActiveTTLSeconds b preorder now in
       case eval_ctx (re_Fault env st 0) (ClearUserInflightByShowTime s st) r of (Inl e, r1) \<Rightarrow> (Inl e, r1) | (Inr _, r1) \<Rightarrow>
       (case eval_ctx (re_Fault env st 1) (ClearViewerInflightByShowTime s st) r1 of (Inl e, r2) \<Rightarrow> (Inl e, r2) | (Inr _, r2) \<Rightarrow>
       (case eval_ctx (re_Fault env st 2) (ClearQuotaByShowTime s st) r2 of (Inl e, r3) \<Rightarrow> (Inl e, r3) | (Inr _, r3) \<Rightarrow>
       (case WalkActiveUserGuardsByShowTime (re_Walk env True) st primeRushRuntimeGuardBatchSize (re_Keys env) repo of
          Inl e \<Rightarrow> (Inl e, r3) | Inr users \<Rightarrow>
       (case eval_ctx (re_Fault env st 3) (ReplaceUserActiveByShowTime s t st (guardRows users) ttl) r3 of (Inl e, r4) \<Rightarrow> (Inl e, r4) | (Inr _, r4) \<Rightarrow>
       (case WalkActiveViewerGuardsByShowTime (re_Walk env False) st primeRushRuntimeGuardBatchSize (re_Keys env) repo of
          Inl e \<Rightarrow> (Inl e, r4) | Inr viewers \<Rightarrow>
       (case eval_ctx (re_Fault env st 4) (ReplaceViewerActiveByShowTime s t st (guardRows viewers) ttl) r4 of (Inl e, r5) \<Rightarrow> (Inl e, r5) | (Inr _, r5) \<Rightarrow>
         setQuotas env st 5 (pi_TicketCategories preorder) r5))))))))"

fun primeShows :: "primeEnv \<Rightarrow> int list \<Rightarrow> repo \<Rightarrow> redis \<Rightarrow> unit res \<times> redis" where
  "primeShows env [] repo r = (Inr (), r)"
| "primeShows env (st # sts) repo r =
     (case primeRushRuntimeByShowTime env st repo r of (Inl e, r1) \<Rightarrow> (Inl e, r1) | (Inr _, r1) \<Rightarrow> primeShows env sts repo r1)"

definition PrimeRushRuntime :: "primeEnv \<Rightarrow> int \<Rightarrow> repo \<Rightarrow> redis \<Rightarrow> unit res \<times> redis" where
  "PrimeRushRuntime env programID repo r =
     (if programID \<le> 0 then (Inl (Sentinel ErrInvalidParam), r)
      else case re_Shows env programID of Inl e \<Rightarrow> (Inl e, r) | Inr shows \<Rightarrow>
      (let showTimeIDs = sort (remdups (filter (\<lambda>i. 0 < i) shows)) in
       if showTimeIDs = [] then (Inl (Sentinel ErrProgramShowTimeNotFound), r)
       else primeShows env showTimeIDs repo r))"

definition PrimeRushRuntimeHandler :: "primeEnv \<Rightarrow> int \<Rightarrow> repo \<Rightarrow> redis \<Rightarrow> unit res \<times> redis" where
  "PrimeRushRuntimeHandler env programID repo r =
     (if programID \<le> 0 then (Inl (mapOrderError (Sentinel ErrInvalidParam)), r)
      else case PrimeRushRuntime env programID repo r of
        (Inl e, r1) \<Rightarrow> (Inl (mapOrderError e), r1) | (Inr _, r1) \<Rightarrow> (Inr (), r1))"

section \<open>The walk visits every guard\<close>

lemma activeGuards_sorted:
  assumes "distinct (map gd_Id tbl)"
  shows "sorted_wrt (\<lambda>a b. gd_Id a < gd_Id b) (activeGuards st a tbl)"
proof -
  let ?xs = "filter (\<lambda>g. gd_ShowTimeId g = st \<and> gd_Status g = 1 \<and> a < gd_Id g) tbl"
  have "distinct (map gd_Id ?xs)" using assms by (rule distinct_map_filter)
  then have "distinct (map gd_Id (sort_key gd_Id ?xs))"
    using mset_eq_imp_distinct_iff [of "map gd_Id (sort_key gd_Id ?xs)" "map gd_Id ?xs"] by simp
  then have "sorted_wrt (<) (map gd_Id (sort_key gd_Id ?xs))" by (simp add: strict_sorted_iff)
  then show ?thesis by (simp add: activeGuards_def sorted_wrt_map)
qed

lemma activeGuards_next:
  assumes "distinct (map gd_Id tbl)" "0 < q" "q \<le> length (activeGuards st a tbl)"
  shows "activeGuards st (gd_Id (last (take q (activeGuards st a tbl)))) tbl = drop q (activeGuards st a tbl)"
proof -
  let ?xs = "activeGuards st a tbl"
  let ?z = "last (take q ?xs)"
  have "take q ?xs \<noteq> []" using assms(2,3) by auto
  then have "?z \<in> set ?xs" by (metis in_set_takeD last_in_set)
  then have "a < gd_Id ?z" by (auto simp: activeGuards_def)
  then have "activeGuards st (gd_Id ?z) tbl = filter (\<lambda>g. gd_Id ?z < gd_Id g) ?xs"
    by (auto simp: activeGuards_def filter_sort filter_filter intro!: arg_cong [of _ _ "sort_key gd_Id"] filter_cong)
  also have "\<dots> = drop q ?xs" by (rule filter_behind_cut [OF activeGuards_sorted [OF assms(1)] assms(2,3)])
  finally show ?thesis .
qed

lemma walkLoop_scan:
  assumes "distinct (map gd_Id tbl)" "0 < batchSize" "\<And>a. flt a = None"
  shows "walkLoop flt st batchSize tbl a seen = Inr (seen @ activeGuards st a tbl)"
  using assms
proof (induction flt st batchSize tbl a seen rule: walkLoop.induct)
  case (1 flt st batchSize tbl a seen)
  let ?xs = "activeGuards st a tbl" and ?q = "nat batchSize"
  let ?rows = "take ?q ?xs"
  have f: "FindActiveByShowTimeAfterID st a batchSize tbl = ?rows" using "1.prems"(2) by (simp add: FindActiveByShowTimeAfterID_def)
  consider "?xs = []" | "?xs \<noteq> []" "length ?xs < ?q" | "?q \<le> length ?xs" by linarith
  then show ?case
  proof cases
    case 1
    then show ?thesis using "1.prems" by (subst walkLoop.simps) (simp add: f)
  next
    case 2
    then have "int (length ?xs) < batchSize" by linarith
    then show ?thesis using 2 "1.prems" by (subst walkLoop.simps) (simp add: f Let_def)
  next
    case 3
    then have r: "?rows \<noteq> []" "\<not> int (length ?rows) < batchSize" using "1.prems"(2) by auto
    have "walkLoop flt st batchSize tbl a seen = walkLoop flt st batchSize tbl (gd_Id (last ?rows)) (seen @ ?rows)"
      using r "1.prems"(3) by (subst walkLoop.simps) (simp add: f Let_def)
    also have "\<dots> = Inr ((seen @ ?rows) @ activeGuards st (gd_Id (last ?rows)) tbl)"
      by (rule "1.IH" [OF "1.prems"(3) f [symmetric] r "1.prems"])
    finally show ?thesis using activeGuards_next [OF "1.prems"(1) _ 3] "1.prems"(2) by simp
  qed
qed

definition shardTable :: "(shardDb \<Rightarrow> orderGuard list) \<Rightarrow> repo \<Rightarrow> string \<Rightarrow> orderGuard list" where
  "shardTable table repo k = (case repo k of None \<Rightarrow> [] | Some db \<Rightarrow> table db)"

definition guardIdsOk :: "(shardDb \<Rightarrow> orderGuard list) \<Rightarrow> repo \<Rightarrow> bool" where
  "guardIdsOk table repo \<longleftrightarrow> (\<forall>k. distinct (map gd_Id (shardTable table repo k)))"

text \<open>A walk that answers met no error, so it agrees with one that cannot fail.\<close>

lemma walkLoop_faultless: "walkLoop flt st q tbl a seen = Inr rows \<Longrightarrow> walkLoop (\<lambda>a. None) st q tbl a seen = Inr rows"
proof (induction flt st q tbl a seen rule: walkLoop.induct)
  case (1 flt st q tbl a seen)
  let ?rows = "FindActiveByShowTimeAfterID st a q tbl"
  note step = walkLoop.simps [of _ st q tbl a seen]
  have nf: "flt a = None" using "1.prems" by (cases "flt a") (simp_all add: step)
  show ?case
  proof (cases "?rows = [] \<or> int (length ?rows) < q")
    case True
    then show ?thesis using "1.prems" by (auto simp: step nf Let_def)
  next
    case False
    then have "walkLoop flt st q tbl (gd_Id (last ?rows)) (seen @ ?rows) = Inr rows"
      using "1.prems" by (simp add: step nf Let_def)
    then have "walkLoop (\<lambda>a. None) st q tbl (gd_Id (last ?rows)) (seen @ ?rows) = Inr rows"
      using "1.IH" [OF nf refl] False by blast
    with False show ?thesis by (simp add: step Let_def)
  qed
qed

lemma walkLoop_ok:
  assumes "walkLoop flt st q tbl a seen = Inr rows" "distinct (map gd_Id tbl)" "0 < q"
  shows "rows = seen @ activeGuards st a tbl"
  using walkLoop_faultless [OF assms(1)] walkLoop_scan [OF assms(2,3), of "\<lambda>a. None" st a seen] by simp

lemma walkShards_scan:
  assumes "guardIdsOk table repo" "0 < batchSize"
  shows "(\<And>k a. flt k a = None) \<Longrightarrow> walkShards flt table st batchSize keys repo = Inr (concat (map (\<lambda>k. activeGuards st 0 (shardTable table repo k)) keys))"
    and "walkShards flt table st batchSize keys repo = Inr rows \<Longrightarrow> rows = concat (map (\<lambda>k. activeGuards st 0 (shardTable table repo k)) keys)"
proof -
  have d: "distinct (map gd_Id (case repo k of None \<Rightarrow> [] | Some db \<Rightarrow> table db))" for k
    using assms(1) by (simp add: guardIdsOk_def shardTable_def)
  show "(\<And>k a. flt k a = None) \<Longrightarrow> walkShards flt table st batchSize keys repo = Inr (concat (map (\<lambda>k. activeGuards st 0 (shardTable table repo k)) keys))"
    by (induction keys) (simp_all add: walkLoop_scan [OF d assms(2)] shardTable_def)
  show "walkShards flt table st batchSize keys repo = Inr rows \<Longrightarrow> rows = concat (map (\<lambda>k. activeGuards st 0 (shardTable table repo k)) keys)"
    by (induction keys arbitrary: rows)
      (auto simp: shardTable_def split: sum.splits dest!: walkLoop_ok [OF _ d assms(2)])
qed

text \<open>
  Walking a guard table of all shards in pages ends and hands out exactly the active guards of the
  show with a positive id, shard by shard and in the order of their ids, whatever the page size.
\<close>

theorem guard_walk_complete:
  assumes "0 < st" "guardIdsOk table repo" "\<And>k a. flt k a = None"
  shows "walkGuards flt table st batchSize keys repo = Inr (concat (map (\<lambda>k. sort_key gd_Id (filter (\<lambda>g.
    gd_ShowTimeId g = st \<and> gd_Status g = 1 \<and> 0 < gd_Id g) (case repo k of None \<Rightarrow> [] | Some db \<Rightarrow> table db))) keys))"
  using assms walkShards_scan(1) [OF assms(2), of "if batchSize \<le> 0 then 100 else batchSize" flt st keys]
  by (simp add: walkGuards_def activeGuards_def shardTable_def)

section \<open>What a primed show looks like\<close>

lemma eval_ctx_Inr: "eval_ctx flt f r = (Inr x, r') \<longleftrightarrow> flt = NoFault \<and> f r = (Inr x, r')"
  by (cases flt) (auto simp: eval_ctx_def)

lemma tidy_DEL: "tidy t r \<Longrightarrow> tidy t (DEL r k)"
  by (auto simp: tidy_def unexpired_def no_empty_hash_def DEL_def split: if_splits)

lemma guardRows_distinct: "distinct (map fst (guardRows gs))"
proof -
  have "distinct (map fst (fold (\<lambda>g. AList.update (gd_Subject g) (gd_OrderNumber g)) xs al))" if "distinct (map fst al)" for xs :: "orderGuard list" and al
    using that by (induction xs arbitrary: al) (auto simp: distinct_update)
  then show ?thesis by (simp add: guardRows_def)
qed

lemma guardRows_lookup:
  "map_of (guardRows gs) i \<noteq> None \<longleftrightarrow> (\<exists>g \<in> set gs. gd_Subject g = i \<and> 0 < gd_Subject g \<and> 0 < gd_OrderNumber g)"
proof -
  have "map_of (fold (\<lambda>g. AList.update (gd_Subject g) (gd_OrderNumber g)) xs al) i \<noteq> None
      \<longleftrightarrow> (\<exists>g \<in> set xs. gd_Subject g = i) \<or> map_of al i \<noteq> None" for xs :: "orderGuard list" and al
    by (induction xs arbitrary: al) (auto simp: update_conv')
  then show ?thesis by (auto simp: guardRows_def)
qed

text \<open>The text of a projection: subject and order number in decimal.\<close>

definition rowTexts :: "(int \<times> int) list \<Rightarrow> (string \<times> string) list" where
  "rowTexts rows = map (\<lambda>(i, n). (show_int i, show_int n)) rows"

lemma map_of_rowTexts: "map_of (rowTexts rows) (show_int i) = map_option show_int (map_of rows i)"
  by (induction rows) (auto simp: rowTexts_def)

lemma replaceActive_view:
  assumes "replaceActive key t st rows ttl r = (Inr (), r')" "tidy t r" "distinct (map fst rows)"
  shows "HGET r' key = map_of (rowTexts rows)" "k \<noteq> key \<Longrightarrow> HGET r' k = HGET r k" "tidy t r'"
proof -
  have r': "r' = EXPIRE_pos t (HMSET (DEL r key) key (rowTexts rows)) key ttl"
    using assms(1,2) by (auto simp: replaceActive_def Let_def rowTexts_def purge_unexpired tidy_def split: if_splits)
  have "distinct (map fst (rowTexts rows))"
    using assms(3) by (auto simp: rowTexts_def distinct_map inj_on_def o_def case_prod_unfold)
  then have "map_of (rev (rowTexts rows)) = map_of (rowTexts rows)" by (intro map_of_eqI) (auto simp: rev_map [symmetric])
  then show "HGET r' key = map_of (rowTexts rows)" by (auto simp: r' redis_simps fun_eq_iff split: option.split)
  show "k \<noteq> key \<Longrightarrow> HGET r' k = HGET r k" by (auto simp: r' redis_simps fun_eq_iff)
  show "tidy t r'" unfolding r' by (intro tidy_intros tidy_DEL assms(2))
qed

definition quotaTexts :: "PreorderTicketCategory list \<Rightarrow> (string \<times> string) list" where
  "quotaTexts cs = map (\<lambda>c. (show_int (pt_Id c), show_int (pt_AdmissionQuota c))) (filter (\<lambda>c. 0 < pt_Id c) cs)"

lemma SetQuotaAvailable_view:
  assumes "SetQuotaAvailable s t st c n r = (Inr x, r')" "tidy t r"
  shows "r' = HSET r (quotaAvailableKey (as_prefix s) st) (show_int c) (show_int n)" "tidy t r'"
proof -
  have "purge t r = r" using assms(2) by (simp add: purge_unexpired tidy_def)
  then show r': "r' = HSET r (quotaAvailableKey (as_prefix s) st) (show_int c) (show_int n)"
    using assms(1) by (auto simp: SetQuotaAvailable_def split: if_splits)
  show "tidy t r'" unfolding r' by (rule tidy_HSET [OF assms(2)])
qed

lemma setQuotas_view:
  assumes "setQuotas env st k cs r = (Inr (), r')" "tidy (oe_RushTime (re_Base env)) r"
  shows "HGET r' (quotaAvailableKey (as_prefix (oe_Store (re_Base env))) st)
        = HGET r (quotaAvailableKey (as_prefix (oe_Store (re_Base env))) st) ++ map_of (rev (quotaTexts cs))
      \<and> (\<forall>k'. k' \<noteq> quotaAvailableKey (as_prefix (oe_Store (re_Base env))) st \<longrightarrow> HGET r' k' = HGET r k')
      \<and> tidy (oe_RushTime (re_Base env)) r'"
  using assms
proof (induction env st k cs r rule: setQuotas.induct)
  case (2 env st k c cs r)
  let ?q = "quotaAvailableKey (as_prefix (oe_Store (re_Base env))) st"
  show ?case
  proof (cases "pt_Id c \<le> 0")
    case True
    then show ?thesis using 2 by (simp add: quotaTexts_def)
  next
    case False
    then obtain x r1 where r1: "SetQuotaAvailable (oe_Store (re_Base env)) (oe_RushTime (re_Base env)) st (pt_Id c) (pt_AdmissionQuota c) r = (Inr x, r1)"
      and nf: "re_Fault env st k = NoFault" and rest: "setQuotas env st (Suc k) cs r1 = (Inr (), r')"
      using "2.prems"(1) by (auto simp: eval_ctx_Inr split: prod.splits sum.splits)
    note v = SetQuotaAvailable_view [OF r1 "2.prems"(2)]
    have IH: "HGET r' ?q = HGET r1 ?q ++ map_of (rev (quotaTexts cs))" "\<And>k'. k' \<noteq> ?q \<Longrightarrow> HGET r' k' = HGET r1 k'"
      "tidy (oe_RushTime (re_Base env)) r'"
      using "2.IH"(2) [OF False _ _ rest v(2)] r1 nf by (auto simp: eval_ctx_def)
    have "HGET r1 ?q = (HGET r ?q)(show_int (pt_Id c) \<mapsto> show_int (pt_AdmissionQuota c))"
      "\<And>k'. k' \<noteq> ?q \<Longrightarrow> HGET r1 k' = HGET r k'"
      by (auto simp: v(1) redis_simps fun_eq_iff)
    moreover have "quotaTexts (c # cs) = (show_int (pt_Id c), show_int (pt_AdmissionQuota c)) # quotaTexts cs"
      using False by (simp add: quotaTexts_def)
    ultimately show ?thesis using IH by simp
  qed
qed (auto simp: quotaTexts_def)

text \<open>The guards of a show the walk reads, over all shards.\<close>

definition showGuards :: "(shardDb \<Rightarrow> orderGuard list) \<Rightarrow> repo \<Rightarrow> string list \<Rightarrow> int \<Rightarrow> orderGuard list" where
  "showGuards table repo keys st = concat (map (\<lambda>k. activeGuards st 0 (shardTable table repo k)) keys)"

definition primedView :: "orderGuard list \<Rightarrow> orderGuard list \<Rightarrow> PreorderTicketCategory list \<Rightarrow> rushView \<Rightarrow> rushView" where
  "primedView us vs cs v = v\<lparr>vQuota := map_of (rev (quotaTexts cs)), vUserActive := map_of (rowTexts (guardRows us)),
     vUserInflight := Map.empty, vViewerActive := map_of (rowTexts (guardRows vs)), vViewerInflight := Map.empty\<rparr>"

lemma walkGuards_ok:
  assumes "walkGuards flt table st q keys repo = Inr rows" "guardIdsOk table repo"
  shows "rows = showGuards table repo keys st"
  using assms walkShards_scan(2) [OF assms(2), of "if q \<le> 0 then 100 else q" flt st keys rows]
  by (auto simp: walkGuards_def showGuards_def split: if_splits)

text \<open>The hashes that priming a show writes.\<close>

definition showKeys :: "string \<Rightarrow> int \<Rightarrow> string set" where
  "showKeys p st = {userInflightKey p st, viewerInflightKey p st, userActiveKey p st, viewerActiveKey p st, quotaAvailableKey p st}"

lemma primeShow_view:
  assumes run: "primeRushRuntimeByShowTime env st repo r = (Inr (), r')" and tidy: "tidy (oe_RushTime (re_Base env)) r"
    and p: "re_Preorder env st = Inr p" "pi_ShowTimeId p = st"
    and ids: "guardIdsOk sd_userGuards repo" "guardIdsOk sd_viewerGuards repo"
  shows "view (oe_Store (re_Base env)) st r' = primedView (showGuards sd_userGuards repo (re_Keys env) st)
      (showGuards sd_viewerGuards repo (re_Keys env) st) (pi_TicketCategories p) (view (oe_Store (re_Base env)) st r)"
    and "tidy (oe_RushTime (re_Base env)) r'"
    and "k \<notin> showKeys (as_prefix (oe_Store (re_Base env))) st \<Longrightarrow> HGET r' k = HGET r k"
proof -
  define s where "s = oe_Store (re_Base env)"
  define t where "t = oe_RushTime (re_Base env)"
  define ttl where "ttl = computePrimeActiveTTLSeconds (re_Base env) p (oe_Now (re_Base env) 0)"
  define us where "us = showGuards sd_userGuards repo (re_Keys env) st"
  define vs where "vs = showGuards sd_viewerGuards repo (re_Keys env) st"
  define r3 where "r3 = DEL (DEL (DEL r (userInflightKey (as_prefix s) st)) (viewerInflightKey (as_prefix s) st)) (quotaAvailableKey (as_prefix s) st)"
  obtain r4 r5 where
    u: "replaceActive (userActiveKey (as_prefix s) st) t st (guardRows us) ttl r3 = (Inr (), r4)" and
    v: "replaceActive (viewerActiveKey (as_prefix s) st) t st (guardRows vs) ttl r4 = (Inr (), r5)" and
    q: "setQuotas env st 5 (pi_TicketCategories p) r5 = (Inr (), r')"
    using run p walkGuards_ok [OF _ ids(1)] walkGuards_ok [OF _ ids(2)]
    by (auto simp: primeRushRuntimeByShowTime_def Let_def eval_ctx_Inr ClearUserInflightByShowTime_def ClearViewerInflightByShowTime_def
        ClearQuotaByShowTime_def ReplaceUserActiveByShowTime_def ReplaceViewerActiveByShowTime_def WalkActiveUserGuardsByShowTime_def
        WalkActiveViewerGuardsByShowTime_def s_def t_def ttl_def us_def vs_def r3_def split: prod.splits sum.splits if_splits)
  have t3: "tidy t r3" unfolding r3_def by (intro tidy_DEL) (simp add: t_def tidy)
  note U = replaceActive_view [OF u t3 guardRows_distinct]
  note V = replaceActive_view [OF v U(3) guardRows_distinct]
  note Q = setQuotas_view [OF q, folded s_def t_def, OF V(3)]
  show "tidy (oe_RushTime (re_Base env)) r'" using Q by (simp add: t_def)
  have H3: "HGET r3 k = (if k \<in> {userInflightKey (as_prefix s) st, viewerInflightKey (as_prefix s) st, quotaAvailableKey (as_prefix s) st} then Map.empty else HGET r k)" for k
    by (auto simp: r3_def redis_simps fun_eq_iff)
  show "k \<notin> showKeys (as_prefix (oe_Store (re_Base env))) st \<Longrightarrow> HGET r' k = HGET r k"
    using Q V(2) U(2) H3 by (simp add: showKeys_def s_def)
  from H3 show "view (oe_Store (re_Base env)) st r' = primedView (showGuards sd_userGuards repo (re_Keys env) st)
      (showGuards sd_viewerGuards repo (re_Keys env) st) (pi_TicketCategories p) (view (oe_Store (re_Base env)) st r)"
    using Q V(1,2) U(1,2) by (simp add: view_def primedView_def s_def [symmetric] us_def [symmetric] vs_def [symmetric] key_simps)
qed

section \<open>Priming several shows\<close>

lemma showKeys_inject [key_simps]:
  "userInflightKey p i = userInflightKey p j \<longleftrightarrow> i = j" "viewerInflightKey p i = viewerInflightKey p j \<longleftrightarrow> i = j"
  "userActiveKey p i = userActiveKey p j \<longleftrightarrow> i = j" "viewerActiveKey p i = viewerActiveKey p j \<longleftrightarrow> i = j"
  "quotaAvailableKey p i = quotaAvailableKey p j \<longleftrightarrow> i = j"
  using rushScopeTag_inject [of i "[]" j "[]"]
  by (simp_all add: userInflightKey_def viewerInflightKey_def userActiveKey_def viewerActiveKey_def quotaAvailableKey_def)

lemma view_frame:
  assumes "\<And>k. k \<notin> showKeys (as_prefix s) st' \<Longrightarrow> HGET r' k = HGET r k" "st \<noteq> st'"
  shows "view s st r' = view s st r"
  using assms by (simp add: view_def showKeys_def key_simps)

lemma primeShows_view:
  assumes "primeShows env sts repo r = (Inr (), r')" "tidy (oe_RushTime (re_Base env)) r" "distinct sts"
    and "\<And>st. st \<in> set sts \<Longrightarrow> \<exists>p. re_Preorder env st = Inr p \<and> pi_ShowTimeId p = st"
    and ids: "guardIdsOk sd_userGuards repo" "guardIdsOk sd_viewerGuards repo"
  shows "(\<forall>st \<in> set sts. \<forall>p. re_Preorder env st = Inr p \<longrightarrow>
      vQuota (view (oe_Store (re_Base env)) st r') = map_of (rev (quotaTexts (pi_TicketCategories p))))
    \<and> (\<forall>st. st \<notin> set sts \<longrightarrow> view (oe_Store (re_Base env)) st r' = view (oe_Store (re_Base env)) st r)"
  using assms(1-4)
proof (induction sts arbitrary: r)
  case (Cons st sts)
  obtain r1 where r1: "primeRushRuntimeByShowTime env st repo r = (Inr (), r1)" "primeShows env sts repo r1 = (Inr (), r')"
    using Cons.prems(1) by (auto split: prod.splits sum.splits)
  obtain p where p: "re_Preorder env st = Inr p" "pi_ShowTimeId p = st" using Cons.prems(4) [of st] by auto
  note V = primeShow_view [OF r1(1) Cons.prems(2) p ids]
  have IH: "(\<forall>st \<in> set sts. \<forall>p. re_Preorder env st = Inr p \<longrightarrow>
      vQuota (view (oe_Store (re_Base env)) st r') = map_of (rev (quotaTexts (pi_TicketCategories p))))
    \<and> (\<forall>st. st \<notin> set sts \<longrightarrow> view (oe_Store (re_Base env)) st r' = view (oe_Store (re_Base env)) st r1)"
    using Cons.prems(3,4) by (intro Cons.IH [OF r1(2) V(2)]) auto
  have "vQuota (view (oe_Store (re_Base env)) st r1) = map_of (rev (quotaTexts (pi_TicketCategories p)))"
    by (simp add: V(1) primedView_def)
  moreover have "view (oe_Store (re_Base env)) st' r1 = view (oe_Store (re_Base env)) st' r" if "st' \<noteq> st" for st'
    using V(3) that by (rule view_frame)
  ultimately show ?case using IH Cons.prems(3) p(1) by auto
qed simp

definition guardRowsOk :: "(shardDb \<Rightarrow> orderGuard list) \<Rightarrow> repo \<Rightarrow> bool" where
  "guardRowsOk table repo \<longleftrightarrow> (\<forall>k. distinct (map gd_Id (shardTable table repo k))
     \<and> (\<forall>g \<in> set (shardTable table repo k). 0 < gd_Id g \<and> gd_Status g = 1 \<and> 0 < gd_Subject g \<and> 0 < gd_OrderNumber g))"

lemma csv_values_viewers: "csv_values (formatInt64CSV (normalizedInt64s vs)) = map show_int (normalizedInt64s vs)"
  using csv_values_join [of "map show_int (normalizedInt64s vs)"]
  by (simp add: formatInt64CSV_def dedup_distinct normalized_distinct)

lemma guard_marked:
  assumes "guardRowsOk table repo" "repo k = Some db" "k \<in> set keys" "hasGuard (table db) n st subj"
  shows "blank (map_of (rowTexts (guardRows (showGuards table repo keys st))) (show_int subj)) \<noteq> []"
proof -
  obtain g where g: "g \<in> set (table db)" "gd_OrderNumber g = n" "gd_ShowTimeId g = st" "gd_Subject g = subj"
    using assms(4) by (auto simp: hasGuard_def guardKey_def)
  then have ok: "0 < gd_Id g" "gd_Status g = 1" "0 < gd_Subject g" "0 < gd_OrderNumber g"
    using assms(1,2) by (auto simp: guardRowsOk_def shardTable_def dest!: spec [of _ k])
  have "g \<in> set (activeGuards st 0 (shardTable table repo k))"
    using g ok assms(2) by (simp add: activeGuards_def shardTable_def)
  then have "g \<in> set (showGuards table repo keys st)" using assms(3) by (auto simp: showGuards_def)
  then have "map_of (guardRows (showGuards table repo keys st)) subj \<noteq> None"
    using g ok by (simp only: guardRows_lookup) blast
  then show ?thesis by (auto simp: map_of_rowTexts blank_def)
qed

text \<open>
  Priming a show replaces what the rush store knows of it: no user and no viewer is left in
  flight, the users and viewers of the active guards of all shards are marked with their orders, and
  the quota holds exactly the categories of the catalogue with the seats it reports for each. Attempts
  are not touched.
\<close>

theorem prime_show_state:
  assumes "primeRushRuntimeByShowTime env st repo r = (Inr (), r')" "tidy (oe_RushTime (re_Base env)) r"
    and "re_Preorder env st = Inr p" "pi_ShowTimeId p = st" "guardRowsOk sd_userGuards repo" "guardRowsOk sd_viewerGuards repo"
  shows "view (oe_Store (re_Base env)) st r' = (view (oe_Store (re_Base env)) st r)
    \<lparr>vQuota := map_of (rev (quotaTexts (pi_TicketCategories p))),
     vUserActive := map_of (rowTexts (guardRows (showGuards sd_userGuards repo (re_Keys env) st))), vUserInflight := Map.empty,
     vViewerActive := map_of (rowTexts (guardRows (showGuards sd_viewerGuards repo (re_Keys env) st))), vViewerInflight := Map.empty\<rparr>"
  using primeShow_view(1) [OF assms(1-4)] assms(5,6) by (simp add: guardRowsOk_def guardIdsOk_def primedView_def)


section \<open>A sample show\<close>

text \<open>Show 9 of the sample order: order 7 of user 3 for viewer 31 is unpaid, six seats are left in category 2.\<close>

definition demoShow9 :: PreorderInfo where
  "demoShow9 = \<lparr>pi_ProgramId = 5, pi_ShowTimeId = 9, pi_Title = ''show'', pi_ItemPicture = [], pi_Place = [], pi_ShowTime = [],
     pi_RushSaleEndTime = [], pi_PermitChooseSeat = 0, pi_PerOrderLimit = 4, pi_PerAccountLimit = 4,
     pi_TicketCategories = [\<lparr>pt_Id = 2, pt_Introduce = [], pt_Price = 500, pt_AdmissionQuota = 6\<rparr>]\<rparr>"

definition demoPrimeEnv :: primeEnv where
  "demoPrimeEnv = \<lparr>re_Base = demoOrderEnv, re_Shows = (\<lambda>_. Inr [9]), re_Preorder = (\<lambda>_. Inr demoShow9),
     re_Keys = [''order-db-0''], re_Walk = (\<lambda>_ _ _. None), re_Fault = (\<lambda>_ _. NoFault)\<rparr>"

lemma demoDb_guards: "sd_userGuards demoDb = [demoGuard 3 3]" "sd_viewerGuards demoDb = [demoGuard 4 31]"
  by (simp_all add: demoDb_def commitTx_def withOrder_def openTx_def emptyShard_def demoWm_def)

lemma demo_guardRows: "guardRowsOk sd_userGuards demoRepo" "guardRowsOk sd_viewerGuards demoRepo"
  by (simp_all add: guardRowsOk_def shardTable_def demoRepo_eq demoDb_guards demoGuard_def)

lemma demo_showGuards: "showGuards sd_userGuards demoRepo [''order-db-0''] 9 = [demoGuard 3 3]"
  "showGuards sd_viewerGuards demoRepo [''order-db-0''] 9 = [demoGuard 4 31]"
  by (simp_all add: showGuards_def activeGuards_def shardTable_def demoRepo_eq demoDb_guards demoGuard_def)

lemma demo_prime:
  obtains r' where "primeRushRuntimeByShowTime demoPrimeEnv 9 demoRepo Map.empty = (Inr (), r')"
proof -
  have ids: "guardIdsOk sd_userGuards demoRepo" "guardIdsOk sd_viewerGuards demoRepo"
    using demo_guardRows by (simp_all add: guardRowsOk_def guardIdsOk_def)
  have walk: "walkGuards (\<lambda>_ _. None) sd_userGuards 9 256 [''order-db-0''] demoRepo = Inr [demoGuard 3 3]"
    "walkGuards (\<lambda>_ _. None) sd_viewerGuards 9 256 [''order-db-0''] demoRepo = Inr [demoGuard 4 31]"
    using walkShards_scan(1) [OF ids(1), of 256 "\<lambda>_ _. None" 9 "[''order-db-0'']"]
      walkShards_scan(1) [OF ids(2), of 256 "\<lambda>_ _. None" 9 "[''order-db-0'']"] demo_showGuards
    by (simp_all add: walkGuards_def showGuards_def)
  have rows: "guardRows [demoGuard 3 3] = [(3, 7)]" "guardRows [demoGuard 4 31] = [(31, 7)]"
    by (simp_all add: guardRows_def demoGuard_def)
  have ttl: "computePrimeActiveTTLSeconds demoOrderEnv demoShow9 (oe_Now demoOrderEnv 0) = 0"
    by (simp add: computePrimeActiveTTLSeconds_def parsePrimeRuntimeTime_def demoShow9_def)
  have env: "re_Base demoPrimeEnv = demoOrderEnv" "re_Preorder demoPrimeEnv 9 = Inr demoShow9" "re_Keys demoPrimeEnv = [''order-db-0'']"
    "\<And>b. re_Walk demoPrimeEnv b = (\<lambda>_ _. None)" "\<And>i k. re_Fault demoPrimeEnv i k = NoFault"
    and p: "pi_ShowTimeId demoShow9 = 9" "pi_TicketCategories demoShow9 = [\<lparr>pt_Id = 2, pt_Introduce = [], pt_Price = 500, pt_AdmissionQuota = 6\<rparr>]"
    by (simp_all add: demoPrimeEnv_def demoShow9_def)
  have "\<exists>r'. primeRushRuntimeByShowTime demoPrimeEnv 9 demoRepo Map.empty = (Inr (), r')"
    by (simp add: primeRushRuntimeByShowTime_def WalkActiveUserGuardsByShowTime_def WalkActiveViewerGuardsByShowTime_def
        primeRushRuntimeGuardBatchSize_def env p Let_def eval_ctx_def ttl walk rows ClearUserInflightByShowTime_def ClearViewerInflightByShowTime_def
        ClearQuotaByShowTime_def ReplaceUserActiveByShowTime_def ReplaceViewerActiveByShowTime_def replaceActive_def SetQuotaAvailable_def)
  then show thesis using that by blast
qed

theorem guard_walk_complete_witness:
  "walkGuards (\<lambda>_ _. None) sd_userGuards 9 0 [''order-db-0''] demoRepo = Inr [demoGuard 3 3]"
proof -
  have "guardIdsOk sd_userGuards demoRepo" using demo_guardRows(1) by (simp add: guardRowsOk_def guardIdsOk_def)
  from guard_walk_complete [OF _ this, of 9 "\<lambda>_ _. None" 0 "[''order-db-0'']"] show ?thesis
    by (simp add: demoRepo_eq demoDb_guards) (simp add: demoGuard_def)
qed

lemma demoPrimeEnv_facts:
  "tidy (oe_RushTime (re_Base demoPrimeEnv)) Map.empty" "re_Preorder demoPrimeEnv 9 = Inr demoShow9" "pi_ShowTimeId demoShow9 = 9"
  "re_Keys demoPrimeEnv = [''order-db-0'']"
  by (simp_all add: demoPrimeEnv_def demoShow9_def tidy_def unexpired_def no_empty_hash_def)

theorem prime_show_state_witness:
  "\<exists>r'. primeRushRuntimeByShowTime demoPrimeEnv 9 demoRepo Map.empty = (Inr (), r')
     \<and> vQuota (view (oe_Store (re_Base demoPrimeEnv)) 9 r') = [''2'' \<mapsto> ''6'']
     \<and> vUserActive (view (oe_Store (re_Base demoPrimeEnv)) 9 r') = [''3'' \<mapsto> ''7'']"
proof -
  obtain r' where r': "primeRushRuntimeByShowTime demoPrimeEnv 9 demoRepo Map.empty = (Inr (), r')" by (rule demo_prime)
  have n: "show_int 2 = ''2''" "show_int 6 = ''6''" "show_int 3 = ''3''" "show_int 7 = ''7''" by code_simp+
  have "rowTexts (guardRows [demoGuard 3 3]) = [(''3'', ''7'')]" "quotaTexts (pi_TicketCategories demoShow9) = [(''2'', ''6'')]"
    by (simp_all add: rowTexts_def guardRows_def demoGuard_def quotaTexts_def demoShow9_def n)
  with prime_show_state [OF r' demoPrimeEnv_facts(1-3) demo_guardRows] r' show ?thesis
    by (auto simp: demoPrimeEnv_facts(4) demo_showGuards)
qed


end
