(* ===== verification/Preheat.thy ===== *)
theory Preheat
  imports CatalogueRead RushPrime
begin

text \<open>
  The job that prepares a sale (\<open>jobs/rush-inventory-preheat\<close>): a task of the outbox names a program
  and the opening time it was scheduled for; its worker primes the rush store through the order
  service, primes the seat ledger of every show through the program service and marks program and task
  as done in one transaction. The services answer from the models of their own handlers.
\<close>

section \<open>The store of the worker\<close>

record ShowTimeRecord =
  st_ProgramID :: int
  st_ID :: int
  st_RushSaleOpenTime :: "int option"
  st_InventoryPreheatStatus :: int

definition showRecords :: "DProgram list \<Rightarrow> DProgramShowTime list \<Rightarrow> ShowTimeRecord list" where
  "showRecords programs shows = concat (map (\<lambda>s. map (\<lambda>p. \<lparr>st_ProgramID = sh_ProgramId s, st_ID = sh_Id s,
     st_RushSaleOpenTime = dp_RushSaleOpenTime p, st_InventoryPreheatStatus = dp_InventoryPreheatStatus p\<rparr>)
     (filter (\<lambda>p. dp_Id p = sh_ProgramId s \<and> dp_Status p = 1) programs)) shows)"

definition ListByProgramID :: "catalogue \<Rightarrow> int \<Rightarrow> ShowTimeRecord list" where
  "ListByProgramID c programID = showRecords (ct_Programs c)
     (sort_key (\<lambda>s. (sh_ShowTime s, sh_Id s)) (filter (\<lambda>s. sh_ProgramId s = programID \<and> sh_Status s = 1) (ct_Shows c)))"

definition activeTask :: "string \<Rightarrow> DDelayTaskOutbox \<Rightarrow> bool" where
  "activeTask taskKey row \<longleftrightarrow> sameTask TaskTypeRushInventoryPreheat taskKey row \<and> dt_Status row = 1"

definition MarkTaskProcessed :: "string \<Rightarrow> int \<Rightarrow> catalogue \<Rightarrow> catalogue" where
  "MarkTaskProcessed taskKey processedAt c =
     c\<lparr>ct_Outbox := map (\<lambda>r. if activeTask taskKey r then markTaskProcessed processedAt r else r) (ct_Outbox c)\<rparr>"

definition MarkTaskConsumeFailed :: "string \<Rightarrow> int \<Rightarrow> string \<Rightarrow> catalogue \<Rightarrow> catalogue" where
  "MarkTaskConsumeFailed taskKey failedAt consumeErr c =
     c\<lparr>ct_Outbox := map (\<lambda>r. if activeTask taskKey r
        then r\<lparr>dt_TaskStatus := 4, dt_ConsumeAttempts := dt_ConsumeAttempts r + 1, dt_LastConsumeError := consumeErr, dt_EditTime := failedAt\<rparr> else r)
        (ct_Outbox c)\<rparr>"

definition preheatTx :: "int \<Rightarrow> int \<Rightarrow> string \<Rightarrow> int \<Rightarrow> catalogue \<Rightarrow> bool res \<times> catalogue" where
  "preheatTx programID expectedOpenTime taskKey updatedAt c =
     (let hit = (\<lambda>p. dp_Id p = programID \<and> dp_Status p = 1 \<and> dp_RushSaleOpenTime p = Some expectedOpenTime) in
      (Inr (\<exists>p \<in> set (ct_Programs c). hit p),
       MarkTaskProcessed taskKey updatedAt (c\<lparr>ct_Programs := map (\<lambda>p. if hit p then p\<lparr>dp_InventoryPreheatStatus := 2, dp_EditTime := updatedAt\<rparr> else p) (ct_Programs c)\<rparr>)))"

definition MarkInventoryPreheatedByProgramAndTaskProcessed :: "txfault \<Rightarrow> int \<Rightarrow> int \<Rightarrow> string \<Rightarrow> int \<Rightarrow> catalogue \<Rightarrow> bool res \<times> catalogue" where
  "MarkInventoryPreheatedByProgramAndTaskProcessed tx programID expectedOpenTime taskKey updatedAt c =
     runTx tx (preheatTx programID expectedOpenTime taskKey updatedAt) c"

section \<open>The worker\<close>

record preheatWorld =
  pw_Catalogue :: catalogue
  pw_Repo :: repo
  pw_Rush :: redis

text \<open>
  \<open>he_Payload\<close> decodes a task; \<open>he_Mark\<close> are the errors of the marks outside a transaction; the catalogue
  that the services read is the one of the world.
\<close>

record preheatEnv =
  he_Payload :: "string \<Rightarrow> (int \<times> string) option"
  he_Cat :: catalogueEnv
  he_Prime :: primeEnv
  he_Store :: SeatStockStore
  he_Freeze :: freezeEnv
  he_List :: "goerr option"
  he_PrimeRpc :: fault
  he_LedgerRpc :: "int \<Rightarrow> fault"
  he_Mark :: "goerr option"
  he_MarkTx :: txfault
  he_Text :: "goerr \<Rightarrow> string"
  he_Now :: int

text \<open>The answer of the task queue: done, not to be retried, or to be retried.\<close>

datatype taskOutcome = TaskDone | TaskSkipRetry | TaskRetry goerr

definition primeEnvOf :: "preheatEnv \<Rightarrow> catalogue \<Rightarrow> primeEnv" where
  "primeEnvOf env c = (he_Prime env)
     \<lparr>re_Shows := (\<lambda>p. wireRes (map_sum id (map fr_ShowTimeId) (ListProgramShowTimesForRush (he_Cat env) p c))),
      re_Preorder := (\<lambda>st. wireRes (map_sum id preorderOf (GetProgramPreorder (he_Cat env) st c)))\<rparr>"

definition freezeEnvOf :: "preheatEnv \<Rightarrow> catalogue \<Rightarrow> freezeEnv" where
  "freezeEnvOf env c = (he_Freeze env)
     \<lparr>eShowTimes := map sh_Id (ct_Shows c),
      eCategories := (\<lambda>st. map tc_Id (FindCategoriesByShowTimeId (ct_Categories c) st))\<rparr>"

definition primeRush :: "preheatEnv \<Rightarrow> int \<Rightarrow> preheatWorld \<Rightarrow> unit res \<times> preheatWorld" where
  "primeRush env programID w =
     (case eval_ctx (he_PrimeRpc env) (PrimeRushRuntimeHandler (primeEnvOf env (pw_Catalogue w)) programID (pw_Repo w)) (pw_Rush w) of
        (r, rush) \<Rightarrow> (wireRes r, w\<lparr>pw_Rush := rush\<rparr>))"

fun primeLedgers :: "preheatEnv \<Rightarrow> int list \<Rightarrow> preheatWorld \<Rightarrow> unit res \<times> preheatWorld" where
  "primeLedgers env [] w = (Inr (), w)"
| "primeLedgers env (st # sts) w =
     (case eval_ctx (he_LedgerRpc env st) (PrimeSeatLedger (he_Store env) (freezeEnvOf env (pw_Catalogue w)) st) (ct_Seats (pw_Catalogue w)) of
        (Inl e, seats) \<Rightarrow> (Inl (overWire e), w\<lparr>pw_Catalogue := (pw_Catalogue w)\<lparr>ct_Seats := seats\<rparr>\<rparr>)
      | (Inr _, seats) \<Rightarrow> primeLedgers env sts (w\<lparr>pw_Catalogue := (pw_Catalogue w)\<lparr>ct_Seats := seats\<rparr>\<rparr>))"

definition markProcessed :: "preheatEnv \<Rightarrow> string \<Rightarrow> preheatWorld \<Rightarrow> taskOutcome \<times> preheatWorld" where
  "markProcessed env taskKey w =
     (case he_Mark env of
        Some e \<Rightarrow> (TaskRetry e, w)
      | None \<Rightarrow> (TaskDone, w\<lparr>pw_Catalogue := MarkTaskProcessed taskKey (he_Now env) (pw_Catalogue w)\<rparr>))"

definition markFailed :: "preheatEnv \<Rightarrow> string \<Rightarrow> goerr \<Rightarrow> preheatWorld \<Rightarrow> taskOutcome \<times> preheatWorld" where
  "markFailed env taskKey consumeErr w =
     (case he_Mark env of
        Some e \<Rightarrow> (TaskRetry e, w)
      | None \<Rightarrow> (TaskRetry consumeErr,
          w\<lparr>pw_Catalogue := MarkTaskConsumeFailed taskKey (he_Now env) (he_Text env consumeErr) (pw_Catalogue w)\<rparr>))"

text \<open>The loop over the shows: \<open>None\<close> when one of them opens at another time.\<close>

fun matchShows :: "catalogueEnv \<Rightarrow> int \<Rightarrow> ShowTimeRecord list \<Rightarrow> int list option" where
  "matchShows env expectedOpenTime [] = Some []"
| "matchShows env expectedOpenTime (s # ss) =
     (case st_RushSaleOpenTime s of
        None \<Rightarrow> matchShows env expectedOpenTime ss
      | Some t \<Rightarrow>
        (if ge_Format env t \<noteq> ge_Format env expectedOpenTime then None
         else map_option ((#) (st_ID s)) (matchShows env expectedOpenTime ss)))"

definition Handle :: "preheatEnv \<Rightarrow> string \<Rightarrow> preheatWorld \<Rightarrow> taskOutcome \<times> preheatWorld" where
  "Handle env payload w =
     (case he_Payload env payload of None \<Rightarrow> (TaskSkipRetry, w) | Some (programID, openText) \<Rightarrow>
     (case ge_Parse (he_Cat env) openText of None \<Rightarrow> (TaskSkipRetry, w) | Some expectedOpenTime \<Rightarrow>
      (let taskKey = preheatTaskKey (he_Cat env) programID expectedOpenTime in
       case orFault (he_List env) (Inr (ListByProgramID (pw_Catalogue w) programID)) of
         Inl e \<Rightarrow> if e = Sentinel ErrProgramShowTimeNotFound then markProcessed env taskKey w else (TaskRetry e, w)
       | Inr showTimes \<Rightarrow>
         (case matchShows (he_Cat env) expectedOpenTime showTimes of
            None \<Rightarrow> markProcessed env taskKey w
          | Some matched \<Rightarrow>
            (if matched = [] then markProcessed env taskKey w
             else case primeRush env programID w of
               (Inl e, w1) \<Rightarrow> markFailed env taskKey e w1
             | (Inr _, w1) \<Rightarrow>
               (case primeLedgers env matched w1 of
                  (Inl e, w2) \<Rightarrow> markFailed env taskKey e w2
                | (Inr _, w2) \<Rightarrow>
                  (case MarkInventoryPreheatedByProgramAndTaskProcessed (he_MarkTx env) programID expectedOpenTime taskKey (he_Now env) (pw_Catalogue w2) of
                     (Inl e, c) \<Rightarrow> (TaskRetry e, w2\<lparr>pw_Catalogue := c\<rparr>)
                   | (Inr _, c) \<Rightarrow> (TaskDone, w2\<lparr>pw_Catalogue := c\<rparr>))))))))"

text \<open>The dispatcher of the job, the same code as that of the other job on the one database of the programs.\<close>

definition preheatRun :: "dispatchEnv \<Rightarrow> goerr option \<Rightarrow> string \<Rightarrow> catalogue \<Rightarrow> unit res \<times> catalogue" where
  "preheatRun env listFault taskType c =
     (case Run env listFault taskType [(''program-db'', ct_Outbox c)] of (r, dbs) \<Rightarrow> (r, c\<lparr>ct_Outbox := concat (map snd dbs)\<rparr>))"

section \<open>Quota and stock after preheating\<close>

text \<open>The seats of a show and category that can still be sold.\<close>

definition availableSeats :: "seatTable \<Rightarrow> int \<Rightarrow> int \<Rightarrow> int" where
  "availableSeats tb st i = int (length (filter (\<lambda>s. ds_Status s = 1 \<and> ds_ShowTimeId s = st \<and> ds_SeatStatus s = 1 \<and> ds_TicketCategoryId s = i) tb))"

lemma map_of_rev_graph: "map_of (rev (map (\<lambda>c. (c, f c)) cs)) i = (if i \<in> set cs then Some (f i) else None)"
  by (induction cs) (auto simp: map_add_def)

lemma remain_available: "mapSeatRemainAggregates (FindAvailableCountByShowTimeId tb st) i = availableSeats tb st i"
proof -
  let ?xs = "filter (\<lambda>s. ds_Status s = 1 \<and> ds_ShowTimeId s = st \<and> ds_SeatStatus s = 1) tb"
  let ?cs = "sorted_list_of_set (set (map ds_TicketCategoryId ?xs))"
  let ?f = "\<lambda>c. int (length (filter (\<lambda>s. ds_TicketCategoryId s = c) ?xs))"
  have n: "?f i = availableSeats tb st i" by (simp add: availableSeats_def filter_filter conj_assoc)
  show ?thesis
  proof (cases "i \<in> set (map ds_TicketCategoryId ?xs)")
    case True
    then show ?thesis unfolding mapSeatRemainAggregates_def FindAvailableCountByShowTimeId_def remainBy_def map_of_rev_graph n by simp
  next
    case False
    then have "?f i = 0" by (auto simp: filter_empty_conv)
    then show ?thesis using False n unfolding mapSeatRemainAggregates_def FindAvailableCountByShowTimeId_def remainBy_def map_of_rev_graph by simp
  qed
qed

lemma stock_available: "stockOf (loadWithContext s t tb st i l) = availableSeats tb st i"
  by (auto simp: stockOf_def loadWithContext_def Let_def SEXPIRE_def FindByShowTimeAndTicketCategoryAndSeatStatus_def
      seat_status_defs availableSeats_def conj_ac split: option.splits)

text \<open>The quota of a category that occurs once.\<close>

lemma quotaTexts_lookup:
  assumes "distinct (map pt_Id cs)" "t \<in> set cs" "0 < pt_Id t"
  shows "map_of (rev (quotaTexts cs)) (show_int (pt_Id t)) = Some (show_int (pt_AdmissionQuota t))"
proof -
  have "distinct (map fst (quotaTexts cs))"
    using assms(1) by (auto simp: quotaTexts_def distinct_map inj_on_def)
  then have "distinct (map fst (rev (quotaTexts cs)))" by (simp add: rev_map [symmetric])
  moreover have "(show_int (pt_Id t), show_int (pt_AdmissionQuota t)) \<in> set (rev (quotaTexts cs))"
    using assms(2,3) by (auto simp: quotaTexts_def)
  ultimately show ?thesis by (rule map_of_is_SomeI)
qed

lemma preorder_reply:
  assumes "GetProgramPreorder env st c = Inr p" "cachedShow c st = Inr show" "ge_Fault env 2 = None"
  shows "pp_ShowTimeId p = sh_Id show"
    and "pp_TicketCategoryVoList p = toProgramPreorderTicketCategoryInfoList (FindCategoriesByShowTimeId (ct_Categories c) (sh_Id show))
           (availableSeats (wtable (ct_Seats c)) (sh_Id show))"
proof -
  have "mapSeatRemainAggregates (FindAvailableCountByShowTimeId tb i) = availableSeats tb i" for tb i
    by (simp add: fun_eq_iff remain_available)
  with assms show "pp_ShowTimeId p = sh_Id show"
    "pp_TicketCategoryVoList p = toProgramPreorderTicketCategoryInfoList (FindCategoriesByShowTimeId (ct_Categories c) (sh_Id show))
       (availableSeats (wtable (ct_Seats c)) (sh_Id show))"
    by (auto simp: GetProgramPreorder_def ifMissing_def orFault_def toProgramPreorderInfo_def split: sum.splits option.splits if_splits)
qed

lemma fold_ledgers:
  assumes "i \<in> set cs" "0 < i"
  shows "\<exists>l. wledger (fold (\<lambda>c w. if c \<le> 0 then w else setLedger st c (loadWithContext s t (wtable w) st c (wledger w st c)) w) cs w) st i
           = loadWithContext s t (wtable w) st i l"
  using assms(1)
proof (induction cs rule: rev_induct)
  case (snoc x xs)
  let ?g = "\<lambda>c w. if c \<le> 0 then w else setLedger st c (loadWithContext s t (wtable w) st c (wledger w st c)) w"
  have tb: "wtable (fold ?g ys v) = wtable v" for ys v
    by (induction ys arbitrary: v) (auto simp: setLedger_def)
  show ?case
  proof (cases "x = i")
    case True
    then show ?thesis using assms(2) by (auto simp: tb setLedger_def)
  next
    case False
    with snoc show ?thesis by (auto simp: setLedger_def)
  qed
qed simp

lemma freezeEnvOf_simps [simp]:
  "eNow (freezeEnvOf env c) = eNow (he_Freeze env)" "eShowTimes (freezeEnvOf env c) = map sh_Id (ct_Shows c)"
  "eCategories (freezeEnvOf env c) st = map tc_Id (FindCategoriesByShowTimeId (ct_Categories c) st)"
  by (simp_all add: freezeEnvOf_def)

lemma primeLedgers_ok:
  assumes "primeLedgers env sts w = (Inr (), w')"
  shows "(\<exists>seats. w' = w\<lparr>pw_Catalogue := (pw_Catalogue w)\<lparr>ct_Seats := seats\<rparr>\<rparr> \<and> wtable seats = wtable (ct_Seats (pw_Catalogue w))
      \<and> (\<forall>st i. st \<notin> set sts \<longrightarrow> wledger seats st i = wledger (ct_Seats (pw_Catalogue w)) st i))
    \<and> (\<forall>st \<in> set sts. 0 < st \<and> (\<forall>i. i \<in> tc_Id ` set (FindCategoriesByShowTimeId (ct_Categories (pw_Catalogue w)) st) \<longrightarrow> 0 < i \<longrightarrow>
         (\<exists>l. wledger (ct_Seats (pw_Catalogue w')) st i =
            loadWithContext (he_Store env) (eNow (he_Freeze env)) (wtable (ct_Seats (pw_Catalogue w))) st i l)))"
  using assms
proof (induction sts arbitrary: w)
  case Nil
  then show ?case by (auto intro!: exI [of _ "ct_Seats (pw_Catalogue w)"])
next
  case (Cons st sts)
  let ?c = "pw_Catalogue w" and ?fe = "freezeEnvOf env (pw_Catalogue w)"
  let ?tb = "wtable (ct_Seats ?c)"
  obtain seats where p: "PrimeSeatLedger (he_Store env) ?fe st (ct_Seats ?c) = (Inr True, seats)"
    and rest: "primeLedgers env sts (w\<lparr>pw_Catalogue := ?c\<lparr>ct_Seats := seats\<rparr>\<rparr>) = (Inr (), w')"
    using Cons.prems by (auto simp: PrimeSeatLedger_def eval_ctx_Inr split: prod.splits sum.splits if_splits)
  have st: "0 < st" and seats: "seats = fold (\<lambda>c w. if c \<le> 0 then w else setLedger st c (loadWithContext (he_Store env) (eNow (he_Freeze env)) (wtable w) st c
      (wledger w st c)) w) (map tc_Id (FindCategoriesByShowTimeId (ct_Categories ?c) st)) (ct_Seats ?c)"
    using p unfolding PrimeSeatLedger_def primeSeatLedger_def freezeEnvOf_simps by (auto split: sum.splits if_splits)
  have frame: "wtable (fold (\<lambda>c w. if c \<le> 0 then w else setLedger st c (F w c) w) ys v) = wtable v
      \<and> (\<forall>st' i. st' \<noteq> st \<longrightarrow> wledger (fold (\<lambda>c w. if c \<le> 0 then w else setLedger st c (F w c) w) ys v) st' i = wledger v st' i)" for F ys v
    by (induction ys arbitrary: v) (auto simp: setLedger_def)
  have fr: "wtable seats = ?tb" "\<And>st' i. st' \<noteq> st \<Longrightarrow> wledger seats st' i = wledger (ct_Seats ?c) st' i"
    using frame [where F = "\<lambda>w c. loadWithContext (he_Store env) (eNow (he_Freeze env)) (wtable w) st c (wledger w st c)"]
    by (simp_all add: seats)
  note IH = Cons.IH [OF rest]
  from conjunct1 [OF IH] obtain seats' where s': "w' = w\<lparr>pw_Catalogue := ?c\<lparr>ct_Seats := seats'\<rparr>\<rparr>" "wtable seats' = wtable seats"
    "\<And>st' i. st' \<notin> set sts \<Longrightarrow> wledger seats' st' i = wledger seats st' i"
    by (elim exE conjE) simp
  have c': "ct_Categories (pw_Catalogue (w\<lparr>pw_Catalogue := ?c\<lparr>ct_Seats := seats\<rparr>\<rparr>)) = ct_Categories ?c"
    "ct_Seats (pw_Catalogue (w\<lparr>pw_Catalogue := ?c\<lparr>ct_Seats := seats\<rparr>\<rparr>)) = seats" "ct_Seats (pw_Catalogue w') = seats'" by (simp_all add: s'(1))
  note IH' = conjunct2 [OF IH, unfolded c' fr(1)]
  have "\<exists>l. wledger seats' st i = loadWithContext (he_Store env) (eNow (he_Freeze env)) ?tb st i l"
    if i: "i \<in> tc_Id ` set (FindCategoriesByShowTimeId (ct_Categories ?c) st)" "0 < i" for i
  proof (cases "st \<in> set sts")
    case True
    then show ?thesis using IH' i by blast
  next
    case False
    from i(1) have "i \<in> set (map tc_Id (FindCategoriesByShowTimeId (ct_Categories ?c) st))" by simp
    from fold_ledgers [OF this i(2)] show ?thesis unfolding s'(3) [OF False] seats by blast
  qed
  moreover have "0 < st'" "\<And>i. i \<in> tc_Id ` set (FindCategoriesByShowTimeId (ct_Categories ?c) st') \<Longrightarrow> 0 < i \<Longrightarrow>
      \<exists>l. wledger seats' st' i = loadWithContext (he_Store env) (eNow (he_Freeze env)) ?tb st' i l" if "st' \<in> set sts" for st'
    using IH' that by blast+
  ultimately show ?case using s'(2,3) fr st unfolding c' s'(1) by auto
qed

lemma primeShows_preorders: "primeShows env sts repo r = (Inr (), r') \<Longrightarrow> st \<in> set sts \<Longrightarrow> \<exists>p. re_Preorder env st = Inr p"
  by (induction sts arbitrary: r) (auto simp: primeRushRuntimeByShowTime_def Let_def split: prod.splits sum.splits)

lemma matchShows_from: "matchShows env t ss = Some matched \<Longrightarrow> set matched \<subseteq> st_ID ` set ss"
  by (induction ss arbitrary: matched) (auto split: option.splits if_splits)

lemma listed_shows: "st_ID ` set (ListByProgramID c programID) \<subseteq> sh_Id ` set (FindByProgramIds (ct_Shows c) [programID])"
  by (auto simp: ListByProgramID_def showRecords_def FindByProgramIds_def)

lemma primeRush_quota:
  assumes run: "primeRush env programID w = (Inr (), w')" and tidy: "tidy (oe_RushTime (re_Base (he_Prime env))) (pw_Rush w)"
    and ids: "guardIdsOk sd_userGuards (pw_Repo w)" "guardIdsOk sd_viewerGuards (pw_Repo w)"
    and cache: "\<And>i s. cachedShow (pw_Catalogue w) i = Inr s \<Longrightarrow> sh_Id s = i" and nf: "ge_Fault (he_Cat env) 0 = None" "ge_Fault (he_Cat env) 2 = None"
    and st: "st \<in> sh_Id ` set (FindByProgramIds (ct_Shows (pw_Catalogue w)) [programID])" "0 < st"
  shows "w' = w\<lparr>pw_Rush := pw_Rush w'\<rparr>"
    and "\<exists>p. GetProgramPreorder (he_Cat env) st (pw_Catalogue w) = Inr p \<and>
      vQuota (view (oe_Store (re_Base (he_Prime env))) st (pw_Rush w')) = map_of (rev (quotaTexts (pi_TicketCategories (preorderOf p))))"
proof -
  let ?c = "pw_Catalogue w" let ?e = "primeEnvOf env ?c"
  let ?sts = "sort (remdups (filter (\<lambda>i. 0 < i) (map sh_Id (FindByProgramIds (ct_Shows ?c) [programID]))))"
  have e: "re_Base ?e = re_Base (he_Prime env)" by (simp add: primeEnvOf_def)
  from run have w': "w' = w\<lparr>pw_Rush := pw_Rush w'\<rparr>" by (auto simp: primeRush_def split: prod.splits)
  then show "w' = w\<lparr>pw_Rush := pw_Rush w'\<rparr>" .
  have h: "PrimeRushRuntime ?e programID (pw_Repo w) (pw_Rush w) = (Inr (), pw_Rush w')"
    using run by (auto simp: primeRush_def wireRes_def eval_ctx_Inr PrimeRushRuntimeHandler_def split: prod.splits sum.splits if_splits)
  then obtain sids where sids: "re_Shows ?e programID = Inr sids" by (auto simp: PrimeRushRuntime_def split: sum.splits if_splits)
  have "sids = map sh_Id (FindByProgramIds (ct_Shows ?c) [programID]) \<or> sids = []"
    using sids nf(1) by (auto simp: primeEnvOf_def wireRes_def ListProgramShowTimesForRush_def orFault_def split: sum.splits if_splits option.splits)
  then have run': "primeShows ?e ?sts (pw_Repo w) (pw_Rush w) = (Inr (), pw_Rush w')"
    using h sids by (auto simp: PrimeRushRuntime_def Let_def split: if_splits)
  have pre: "\<exists>p. GetProgramPreorder (he_Cat env) i ?c = Inr p \<and> re_Preorder ?e i = Inr (preorderOf p) \<and> pp_ShowTimeId p = i" if i: "i \<in> set ?sts" for i
  proof -
    obtain q where "re_Preorder ?e i = Inr q" using primeShows_preorders [OF run' i] by blast
    then obtain p where p: "GetProgramPreorder (he_Cat env) i ?c = Inr p" "re_Preorder ?e i = Inr (preorderOf p)"
      by (cases "GetProgramPreorder (he_Cat env) i ?c") (auto simp: primeEnvOf_def wireRes_def)
    obtain s where "cachedShow ?c i = Inr s" using p(1) nf(1)
      by (cases "cachedShow ?c i") (auto simp: GetProgramPreorder_def ifMissing_def orFault_def)
    with preorder_reply(1) [OF p(1) this nf(2)] cache p show ?thesis by auto
  qed
  have pi: "pi_ShowTimeId (preorderOf p) = pp_ShowTimeId p" for p by (simp add: preorderOf_def)
  have pre': "\<exists>p. re_Preorder ?e i = Inr p \<and> pi_ShowTimeId p = i" if "i \<in> set ?sts" for i using pre [OF that] pi by metis
  have "(\<forall>st \<in> set ?sts. \<forall>p. re_Preorder ?e st = Inr p \<longrightarrow>
      vQuota (view (oe_Store (re_Base ?e)) st (pw_Rush w')) = map_of (rev (quotaTexts (pi_TicketCategories p))))"
    using primeShows_view [OF run' _ _ pre' ids] tidy by (simp add: e)
  moreover have "st \<in> set ?sts" using st by auto
  ultimately show "\<exists>p. GetProgramPreorder (he_Cat env) st ?c = Inr p \<and>
      vQuota (view (oe_Store (re_Base (he_Prime env))) st (pw_Rush w')) = map_of (rev (quotaTexts (pi_TicketCategories (preorderOf p))))"
    using pre e by metis
qed

lemma distinct_categories:
  assumes "distinct (map tc_Id tb)" shows "distinct (map tc_Id (FindCategoriesByShowTimeId tb st))"
proof -
  let ?xs = "filter (\<lambda>c. tc_Status c = 1 \<and> tc_ShowTimeId c = st) tb"
  have "distinct (map tc_Id ?xs)" using assms by (rule distinct_map_filter)
  then show ?thesis using mset_eq_imp_distinct_iff [of "map tc_Id (FindCategoriesByShowTimeId tb st)" "map tc_Id ?xs"]
    by (simp add: FindCategoriesByShowTimeId_def)
qed

lemma Handle_done:
  assumes run: "Handle env payload w = (TaskDone, w')" and payload: "he_Payload env payload = Some (programID, openText)"
    and openAt: "ge_Parse (he_Cat env) openText = Some openTime" and nf: "he_List env = None"
    and matched: "matchShows (he_Cat env) openTime (ListByProgramID (pw_Catalogue w) programID) = Some matched" "matched \<noteq> []"
  shows "\<exists>w1 w2 c. primeRush env programID w = (Inr (), w1) \<and> primeLedgers env matched w1 = (Inr (), w2)
    \<and> c = snd (preheatTx programID openTime (preheatTaskKey (he_Cat env) programID openTime) (he_Now env) (pw_Catalogue w2))
    \<and> w' = w2\<lparr>pw_Catalogue := c\<rparr>"
proof -
  let ?key = "preheatTaskKey (he_Cat env) programID openTime"
  obtain w1 w2 x c where w1: "primeRush env programID w = (Inr (), w1)" and w2: "primeLedgers env matched w1 = (Inr (), w2)"
    and mk: "MarkInventoryPreheatedByProgramAndTaskProcessed (he_MarkTx env) programID openTime ?key (he_Now env) (pw_Catalogue w2) = (Inr x, c)"
    and w': "w' = w2\<lparr>pw_Catalogue := c\<rparr>"
    using assms by (auto simp: Handle_def Let_def orFault_def markFailed_def split: prod.splits sum.splits option.splits)
  have "c = snd (preheatTx programID openTime ?key (he_Now env) (pw_Catalogue w2))"
    using mk by (auto simp: MarkInventoryPreheatedByProgramAndTaskProcessed_def runTx_def preheatTx_def Let_def split: txfault.splits)
  with w1 w2 w' show ?thesis by blast
qed

text \<open>
  C9. A finished preheating leaves the two gates of a sale in step: for every show of the task and every
  category of that show, the quota of the rush store and the stock of the seat ledger are the number of
  seats that the table has available, and the program is marked as preheated.
\<close>

theorem preheat_consistent:
  assumes run: "Handle env payload w = (TaskDone, w')" and payload: "he_Payload env payload = Some (programID, openText)"
    and openAt: "ge_Parse (he_Cat env) openText = Some openTime" and nf: "he_List env = None" "ge_Fault (he_Cat env) 0 = None" "ge_Fault (he_Cat env) 2 = None"
    and matched: "matchShows (he_Cat env) openTime (ListByProgramID (pw_Catalogue w) programID) = Some matched" and st: "st \<in> set matched"
    and tidy: "tidy (oe_RushTime (re_Base (he_Prime env))) (pw_Rush w)"
    and ids: "guardIdsOk sd_userGuards (pw_Repo w)" "guardIdsOk sd_viewerGuards (pw_Repo w)" "distinct (map tc_Id (ct_Categories (pw_Catalogue w)))"
    and cache: "\<And>i s. cachedShow (pw_Catalogue w) i = Inr s \<Longrightarrow> sh_Id s = i"
    and t: "t \<in> set (FindCategoriesByShowTimeId (ct_Categories (pw_Catalogue w)) st)" "0 < tc_Id t"
  shows "vQuota (view (oe_Store (re_Base (he_Prime env))) st (pw_Rush w')) (show_int (tc_Id t))
      = Some (show_int (availableSeats (wtable (ct_Seats (pw_Catalogue w))) st (tc_Id t)))
    \<and> stockOf (wledger (ct_Seats (pw_Catalogue w')) st (tc_Id t)) = availableSeats (wtable (ct_Seats (pw_Catalogue w))) st (tc_Id t)
    \<and> (\<forall>p \<in> set (ct_Programs (pw_Catalogue w')). dp_Id p = programID \<longrightarrow> dp_Status p = 1 \<longrightarrow> dp_RushSaleOpenTime p = Some openTime
         \<longrightarrow> dp_InventoryPreheatStatus p = 2)"
proof -
  let ?c = "pw_Catalogue w"
  let ?n = "availableSeats (wtable (ct_Seats ?c)) st"
  let ?key = "preheatTaskKey (he_Cat env) programID openTime"
  have "matched \<noteq> []" using st by auto
  from Handle_done [OF run payload openAt nf(1) matched this]
  obtain w1 w2 c where w1: "primeRush env programID w = (Inr (), w1)" and w2: "primeLedgers env matched w1 = (Inr (), w2)"
    and c: "c = snd (preheatTx programID openTime ?key (he_Now env) (pw_Catalogue w2))" and w': "w' = w2\<lparr>pw_Catalogue := c\<rparr>"
    by blast
  have stIn: "st \<in> sh_Id ` set (FindByProgramIds (ct_Shows ?c) [programID])"
    using st matchShows_from [OF matched] listed_shows [of ?c programID] by blast
  note L = primeLedgers_ok [OF w2]
  have st0: "0 < st" using L st by blast
  note Q = primeRush_quota [OF w1 tidy ids(1,2) cache nf(2,3) stIn st0]
  have w1c: "pw_Catalogue w1 = ?c" using Q(1) by (metis preheatWorld.select_convs(1) preheatWorld.surjective preheatWorld.update_convs(3))
  have rush: "pw_Rush w' = pw_Rush w1" using conjunct1 [OF L] by (auto simp: w')
  have seats: "ct_Seats (pw_Catalogue w') = ct_Seats (pw_Catalogue w2)"
    by (simp add: w' c preheatTx_def MarkTaskProcessed_def Let_def)
  obtain p where p: "GetProgramPreorder (he_Cat env) st ?c = Inr p"
    "vQuota (view (oe_Store (re_Base (he_Prime env))) st (pw_Rush w1)) = map_of (rev (quotaTexts (pi_TicketCategories (preorderOf p))))"
    using Q(2) by blast
  obtain s where s: "cachedShow ?c st = Inr s" using p(1) nf(2)
    by (cases "cachedShow ?c st") (auto simp: GetProgramPreorder_def ifMissing_def orFault_def)
  have cats: "pi_TicketCategories (preorderOf p) = map (\<lambda>t. \<lparr>pt_Id = tc_Id t, pt_Introduce = tc_Introduce t, pt_Price = tc_Price t,
      pt_AdmissionQuota = ?n (tc_Id t)\<rparr>) (FindCategoriesByShowTimeId (ct_Categories ?c) st)"
    using preorder_reply(2) [OF p(1) s nf(3)] cache [OF s]
    by (simp add: preorderOf_def toProgramPreorderTicketCategoryInfoList_def o_def)
  note distinct_categories [OF ids(3), of st]
  then have "vQuota (view (oe_Store (re_Base (he_Prime env))) st (pw_Rush w')) (show_int (tc_Id t)) = Some (show_int (?n (tc_Id t)))"
    using quotaTexts_lookup [of "pi_TicketCategories (preorderOf p)" "\<lparr>pt_Id = tc_Id t, pt_Introduce = tc_Introduce t, pt_Price = tc_Price t,
      pt_AdmissionQuota = ?n (tc_Id t)\<rparr>"] t p(2) by (auto simp: cats rush o_def)
  moreover have "\<exists>l. wledger (ct_Seats (pw_Catalogue w2)) st (tc_Id t) =
      loadWithContext (he_Store env) (eNow (he_Freeze env)) (wtable (ct_Seats ?c)) st (tc_Id t) l"
    using bspec [OF conjunct2 [OF L] st] imageI [OF t(1), of tc_Id] t(2) unfolding w1c by blast
  then have "stockOf (wledger (ct_Seats (pw_Catalogue w')) st (tc_Id t)) = ?n (tc_Id t)"
    unfolding seats by (elim exE) (simp only: stock_available)
  moreover have "\<forall>p \<in> set (ct_Programs (pw_Catalogue w')). dp_Id p = programID \<longrightarrow> dp_Status p = 1 \<longrightarrow> dp_RushSaleOpenTime p = Some openTime
      \<longrightarrow> dp_InventoryPreheatStatus p = 2"
    unfolding w' c by (simp add: preheatTx_def MarkTaskProcessed_def Let_def) (intro ballI impI, elim UnE imageE IntE; simp)
  ultimately show ?thesis by (intro conjI)
qed

section \<open>A sale\<close>

definition demoCatEnv :: catalogueEnv where
  "demoCatEnv = \<lparr>ge_Parse = demoTime, ge_Format = demoPrint, ge_KeyTime = demoPrint, ge_Payload = (\<lambda>i t lead. t), ge_Json = (\<lambda>_. None),
     ge_Now = (\<lambda>k. 50 + int k), ge_Ids = (\<lambda>k. 60 + int k), ge_Lead = Some 10, ge_Tx = TxOk, ge_Fault = (\<lambda>_. None),
     ge_Clear = (\<lambda>_. None), ge_Invalidate = None\<rparr>"

definition demoProgramRow :: DProgram where
  "demoProgramRow = (case buildProgramModel demoTime (demoValues\<lparr>pv_id := 5\<rparr>) 7 of Inr d \<Rightarrow> d)"

definition demoShowRow :: DProgramShowTime where
  "demoShowRow = \<lparr>sh_Id = 9, sh_ProgramId = 5, sh_ShowTime = 200, sh_ShowDayTime = None, sh_ShowWeekTime = ''w'', sh_ShowEndTime = None,
     sh_CreateTime = None, sh_EditTime = None, sh_Status = 1\<rparr>"

definition demoCategoryRow :: DTicketCategory where
  "demoCategoryRow = \<lparr>tc_Id = 7, tc_ProgramId = 5, tc_ShowTimeId = 9, tc_Introduce = ''A'', tc_Price = 680, tc_TotalNumber = 4,
     tc_RemainNumber = 4, tc_CreateTime = 0, tc_EditTime = 0, tc_Status = 1\<rparr>"

definition noCaches :: programCaches where
  "noCaches = \<lparr>rc_Program = Map.empty, rc_Show = Map.empty, rc_FirstShow = Map.empty, rc_Group = Map.empty, lc_View = Map.empty,
     lc_NotFound = (\<lambda>_. False), lc_Kinds = None\<rparr>"

definition demoCatalogue :: catalogue where
  "demoCatalogue = \<lparr>ct_Groups = [], ct_Programs = [demoProgramRow\<lparr>dp_InventoryPreheatStatus := 1\<rparr>], ct_Shows = [demoShowRow],
     ct_Categories = [demoCategoryRow], ct_Kinds = [], ct_Outbox = [preheatTask demoCatEnv 10 5 100],
     ct_Seats = \<lparr>wtable = map (\<lambda>s. s\<lparr>ds_ProgramId := 5, ds_ShowTimeId := 9\<rparr>) demoTable, wledger = (\<lambda>_ _. emptyLedger)\<rparr>, ct_Caches = noCaches\<rparr>"

definition demoPreheatEnv :: preheatEnv where
  "demoPreheatEnv = \<lparr>he_Payload = (\<lambda>s. Some (5, s)), he_Cat = demoCatEnv, he_Prime = demoPrimeEnv\<lparr>re_Keys := []\<rparr>, he_Store = demoSeatStore,
     he_Freeze = demoEnv, he_List = None, he_PrimeRpc = NoFault, he_LedgerRpc = (\<lambda>_. NoFault), he_Mark = None, he_MarkTx = TxOk,
     he_Text = (\<lambda>_. []), he_Now = 90\<rparr>"

definition demoPreheatWorld :: preheatWorld where
  "demoPreheatWorld = \<lparr>pw_Catalogue = demoCatalogue, pw_Repo = Map.empty, pw_Rush = Map.empty\<rparr>"

lemma demo_handle: "fst (Handle demoPreheatEnv ''o'' demoPreheatWorld) = TaskDone"
  by code_simp

theorem preheat_consistent_witness:
  "vQuota (view (oe_Store demoOrderEnv) 9 (pw_Rush (snd (Handle demoPreheatEnv ''o'' demoPreheatWorld)))) ''7'' = Some ''2''
   \<and> stockOf (wledger (ct_Seats (pw_Catalogue (snd (Handle demoPreheatEnv ''o'' demoPreheatWorld)))) 9 7) = 2"
proof -
  let ?w = demoPreheatWorld
  have run: "Handle demoPreheatEnv ''o'' ?w = (TaskDone, snd (Handle demoPreheatEnv ''o'' ?w))"
    by (metis demo_handle prod.collapse)
  have env: "he_Payload demoPreheatEnv ''o'' = Some (5, ''o'')" "ge_Parse (he_Cat demoPreheatEnv) ''o'' = Some 100" "he_List demoPreheatEnv = None"
    "ge_Fault (he_Cat demoPreheatEnv) 0 = None" "ge_Fault (he_Cat demoPreheatEnv) 2 = None"
    by (simp_all add: demoPreheatEnv_def demoCatEnv_def demoTime_def)
  have m: "matchShows (he_Cat demoPreheatEnv) 100 (ListByProgramID (pw_Catalogue ?w) 5) = Some [9]" by code_simp
  have w: "tidy (oe_RushTime (re_Base (he_Prime demoPreheatEnv))) (pw_Rush ?w)" "guardIdsOk sd_userGuards (pw_Repo ?w)"
    "guardIdsOk sd_viewerGuards (pw_Repo ?w)" "distinct (map tc_Id (ct_Categories (pw_Catalogue ?w)))"
    by (simp_all add: demoPreheatWorld_def demoPreheatEnv_def tidy_def unexpired_def no_empty_hash_def guardIdsOk_def shardTable_def demoCatalogue_def)
  have cache: "sh_Id s = i" if "cachedShow (pw_Catalogue ?w) i = Inr s" for i s
    using that by (auto simp: demoPreheatWorld_def demoCatalogue_def noCaches_def cachedShow_def readThrough_def orNotFound_def showRow_def
        demoShowRow_def split: option.splits if_splits)
  have t: "demoCategoryRow \<in> set (FindCategoriesByShowTimeId (ct_Categories (pw_Catalogue ?w)) 9)" "0 < tc_Id demoCategoryRow"
    by (simp_all add: demoPreheatWorld_def demoCatalogue_def FindCategoriesByShowTimeId_def demoCategoryRow_def)
  have n: "availableSeats (wtable (ct_Seats (pw_Catalogue ?w))) 9 7 = 2" by code_simp
  have s: "tc_Id demoCategoryRow = 7" "show_int 7 = ''7''" "show_int 2 = ''2''" "oe_Store (re_Base (he_Prime demoPreheatEnv)) = oe_Store demoOrderEnv"
    by (simp_all add: demoCategoryRow_def demoPreheatEnv_def demoPrimeEnv_def) code_simp+
  from preheat_consistent [OF run env(1-5) m _ w cache t] show ?thesis by (simp add: s n)
qed

end
