(* ===== verification/CatalogueProps.thy ===== *)
theory CatalogueProps
  imports Preheat
begin

text \<open>
  What the handlers of the catalogue and the preheating job keep: no show of a program starts before
  its sale opens, and a program with an opening time and a show always has a preheating task. The
  proofs work on what matters of the tables, the keys of programs and shows.
\<close>

section \<open>Keys of the tables\<close>

type_synonym programKey = "int \<times> int option \<times> int"
type_synonym showKey = "int \<times> int \<times> int \<times> int"

definition pkey :: "DProgram \<Rightarrow> programKey" where
  "pkey p = (dp_Id p, dp_RushSaleOpenTime p, dp_InventoryPreheatStatus p)"

definition skey :: "DProgramShowTime \<Rightarrow> showKey" where
  "skey s = (sh_Id s, sh_ProgramId s, sh_ShowTime s, sh_Status s)"

definition hasShow :: "showKey list \<Rightarrow> int \<Rightarrow> bool" where
  "hasShow S i \<longleftrightarrow> (\<exists>(j, i', t, u) \<in> set S. u = 1 \<and> i' = i)"

definition taskKeyOf :: "(int \<Rightarrow> string) \<Rightarrow> int \<Rightarrow> int \<Rightarrow> string" where
  "taskKeyOf kt i openAt = TaskTypeRushInventoryPreheat @ '':'' @ show_int i @ '':'' @ kt openAt"

definition hasTask :: "(int \<Rightarrow> string) \<Rightarrow> DDelayTaskOutbox list \<Rightarrow> int \<Rightarrow> int \<Rightarrow> bool" where
  "hasTask kt ob i openAt \<longleftrightarrow> (\<exists>row \<in> set ob. sameTask TaskTypeRushInventoryPreheat (taskKeyOf kt i openAt) row)"

text \<open>Shows start after the opening, and every program on sale is scheduled.\<close>

definition programOk :: "(int \<Rightarrow> string) \<Rightarrow> showKey list \<Rightarrow> DDelayTaskOutbox list \<Rightarrow> programKey \<Rightarrow> bool" where
  "programOk kt S ob = (\<lambda>(i, openAt, k).
     (\<forall>(j, i', t, u) \<in> set S. u = 1 \<longrightarrow> i' = i \<longrightarrow> (\<forall>a. openAt = Some a \<longrightarrow> a \<le> t))
     \<and> (k \<in> {1, 2} \<longrightarrow> hasShow S i \<and> (\<exists>a. openAt = Some a \<and> hasTask kt ob i a))
     \<and> (openAt \<noteq> None \<longrightarrow> hasShow S i \<longrightarrow> k \<in> {1, 2}))"

definition keysInv :: "(int \<Rightarrow> string) \<Rightarrow> programKey list \<Rightarrow> showKey list \<Rightarrow> DDelayTaskOutbox list \<Rightarrow> bool" where
  "keysInv kt P S ob \<longleftrightarrow> distinct (map fst P) \<and> distinct (map fst S) \<and> (\<forall>x \<in> set P. programOk kt S ob x)"

text \<open>A cached row may only be behind the table in that the job has marked the program meanwhile.\<close>

definition cacheOk :: "(int \<rightharpoonup> DProgram option) \<Rightarrow> programKey list \<Rightarrow> bool" where
  "cacheOk rc P \<longleftrightarrow> (\<forall>i p. rc i = Some (Some p) \<longrightarrow> dp_Id p = i \<and>
     (\<exists>k. (i, dp_RushSaleOpenTime p, k) \<in> set P \<and> (k = dp_InventoryPreheatStatus p \<or> dp_InventoryPreheatStatus p = 1 \<and> k = 2)))"

definition catInv :: "(int \<Rightarrow> string) \<Rightarrow> catalogue \<Rightarrow> bool" where
  "catInv kt c \<longleftrightarrow> keysInv kt (map pkey (ct_Programs c)) (map skey (ct_Shows c)) (ct_Outbox c)
     \<and> cacheOk (rc_Program (ct_Caches c)) (map pkey (ct_Programs c))"

section \<open>Changes of the keys\<close>

lemma hasTask_map:
  assumes "hasTask kt ob i a" "\<And>row. dt_TaskType (f row) = dt_TaskType row \<and> dt_TaskKey (f row) = dt_TaskKey row"
  shows "hasTask kt (map f ob) i a"
  using assms by (auto simp: hasTask_def sameTask_def)

lemma hasTask_upsert_old:
  assumes "hasTask kt ob i a" shows "hasTask kt (upsertTask new ob) i a"
proof -
  have "hasTask kt (map (\<lambda>row. if P row then resetTask new row else row) ob) i a" for P
    by (rule hasTask_map [OF assms]) (simp add: resetTask_def)
  moreover have "hasTask kt (ob @ [new]) i a" using assms by (auto simp: hasTask_def)
  ultimately show ?thesis by (simp add: upsertTask_def)
qed

lemma hasTask_upsert_new:
  assumes "dt_Id new \<notin> dt_Id ` set ob" "sameTask TaskTypeRushInventoryPreheat (taskKeyOf kt i a) new"
  shows "hasTask kt (upsertTask new ob) i a"
proof (cases "\<exists>row \<in> set ob. sameTask (dt_TaskType new) (dt_TaskKey new) row")
  case True
  then obtain row where row: "row \<in> set ob" "sameTask (dt_TaskType new) (dt_TaskKey new) row" by blast
  then have "resetTask new row \<in> set (upsertTask new ob)" using assms(1) True by (auto simp: upsertTask_def)
  moreover have "sameTask TaskTypeRushInventoryPreheat (taskKeyOf kt i a) (resetTask new row)"
    using row(2) assms(2) by (simp add: sameTask_def resetTask_def)
  ultimately show ?thesis by (auto simp: hasTask_def)
next
  case False
  then show ?thesis using assms by (auto simp: hasTask_def upsertTask_def)
qed

lemma programOk_tasks:
  assumes "programOk kt S ob x" "\<And>i a. hasTask kt ob i a \<Longrightarrow> hasTask kt ob' i a"
  shows "programOk kt S ob' x"
  using assms by (auto simp: programOk_def split: prod.splits)

lemma keysInv_ok: "keysInv kt P S ob \<Longrightarrow> x \<in> set P \<Longrightarrow> programOk kt S ob x"
  by (simp add: keysInv_def)

lemma keysInv_tasks:
  assumes "keysInv kt P S ob" "\<And>i a. hasTask kt ob i a \<Longrightarrow> hasTask kt ob' i a"
  shows "keysInv kt P S ob'"
  using assms programOk_tasks [of kt S ob _ ob'] by (auto simp: keysInv_def)

text \<open>One program is replaced.\<close>

definition setKey :: "int \<Rightarrow> int option \<Rightarrow> int \<Rightarrow> programKey list \<Rightarrow> programKey list" where
  "setKey i openAt k = map (\<lambda>x. if fst x = i then (i, openAt, k) else x)"

lemma fst_setKey [simp]: "map fst (setKey i openAt k P) = map fst P"
  by (induction P) (auto simp: setKey_def)

lemma setKey_in: "x \<in> set (setKey i openAt k P) \<Longrightarrow> x = (i, openAt, k) \<or> x \<in> set P"
  by (auto simp: setKey_def)

lemma setKey_other: "x \<in> set P \<Longrightarrow> fst x \<noteq> i \<Longrightarrow> x \<in> set (setKey i openAt k P)"
  unfolding setKey_def by (force simp: image_iff)

lemma keysInv_setKey:
  assumes "keysInv kt P S ob" "i \<in> fst ` set P \<Longrightarrow> programOk kt S ob (i, openAt, k)"
  shows "keysInv kt (setKey i openAt k P) S ob"
proof -
  have "programOk kt S ob x" if "x \<in> set (setKey i openAt k P)" for x
    using that assms by (auto simp: setKey_def keysInv_def split: if_splits)
  with assms(1) show ?thesis by (simp add: keysInv_def)
qed

lemma cacheOk_setKey:
  assumes "cacheOk rc P"
  shows "cacheOk (rc(i := None)) (setKey i openAt k P)"
  using assms by (fastforce simp: cacheOk_def setKey_def)

lemma cacheOk_less: "cacheOk rc P \<Longrightarrow> (\<And>i p. rc' i = Some (Some p) \<Longrightarrow> rc i = Some (Some p)) \<Longrightarrow> cacheOk rc' P"
  unfolding cacheOk_def by blast

lemma keysInv_program:
  assumes "keysInv kt P S ob" "i \<notin> fst ` set P" "programOk kt S ob (i, openAt, k)"
  shows "keysInv kt (P @ [(i, openAt, k)]) S ob"
  using assms by (auto simp: keysInv_def)

text \<open>A new show of a program that is scheduled, or has no opening time.\<close>

lemma programOk_show:
  assumes "programOk kt S ob x" "fst x \<noteq> i"
  shows "programOk kt (S @ [(j, i, t, 1)]) ob x"
  using assms by (auto simp: programOk_def hasShow_def split: prod.splits)

lemma same_key:
  assumes "distinct (map fst P)" "x \<in> set P" "y \<in> set P" "fst x = fst y"
  shows "x = y"
  using assms by (auto simp: distinct_map inj_on_def)

lemma setKey_same:
  assumes "distinct (map fst P)" "(i, openAt, k) \<in> set P"
  shows "setKey i openAt k P = P"
proof -
  have "(if fst x = i then (i, openAt, k) else x) = x" if "x \<in> set P" for x
    using same_key [OF assms(1) that assms(2)] by simp
  then show ?thesis unfolding setKey_def by (intro map_idI) blast
qed

section \<open>Scheduling\<close>

lemma pkey_update: "map pkey (UpdateProgramRow data tb) = setKey (dp_Id data) (dp_RushSaleOpenTime data) (dp_InventoryPreheatStatus data) (map pkey tb)"
  by (induction tb) (auto simp: UpdateProgramRow_def setKey_def pkey_def)

lemma shows_of: "FindByProgramIds tb [i] = [] \<longleftrightarrow> \<not> hasShow (map skey tb) i"
proof -
  have "FindByProgramIds tb [i] = [] \<longleftrightarrow> set (FindByProgramIds tb [i]) = {}" by simp
  also have "\<dots> \<longleftrightarrow> \<not> hasShow (map skey tb) i" by (auto simp: FindByProgramIds_def hasShow_def skey_def simp del: set_empty)
  finally show ?thesis .
qed

text \<open>A program whose schedule may be out of date while all others are in order.\<close>

definition nearlyOk :: "(int \<Rightarrow> string) \<Rightarrow> programKey list \<Rightarrow> showKey list \<Rightarrow> DDelayTaskOutbox list \<Rightarrow> programKey \<Rightarrow> bool" where
  "nearlyOk kt P S ob = (\<lambda>(i, openAt, k). distinct (map fst P) \<and> distinct (map fst S)
     \<and> (\<forall>x \<in> set P. fst x \<noteq> i \<longrightarrow> programOk kt S ob x) \<and> (\<forall>x \<in> set P. fst x = i \<longrightarrow> x = (i, openAt, k))
     \<and> (\<forall>(j, i', t, u) \<in> set S. u = 1 \<longrightarrow> i' = i \<longrightarrow> (\<forall>a. openAt = Some a \<longrightarrow> a \<le> t))
     \<and> (k \<in> {1, 2} \<longrightarrow> hasShow S i \<and> openAt \<noteq> None))"

lemma nearlyOk_idle:
  assumes "nearlyOk kt P S ob (i, openAt, k)" "openAt = None \<or> \<not> hasShow S i"
  shows "keysInv kt P S ob"
proof -
  have own: "programOk kt S ob (i, openAt, k)" using assms by (auto simp: nearlyOk_def programOk_def)
  have "programOk kt S ob x" if x: "x \<in> set P" for x
  proof (cases "fst x = i")
    case True
    with x assms(1) have "x = (i, openAt, k)" by (simp add: nearlyOk_def)
    with own show ?thesis by simp
  next
    case False
    with x assms(1) show ?thesis by (simp add: nearlyOk_def)
  qed
  then show ?thesis using assms(1) by (simp add: nearlyOk_def keysInv_def)
qed

lemma nearlyOk_task:
  assumes "nearlyOk kt P S ob (i, Some a, k)" "hasShow S i" "hasTask kt ob' i a"
    and "\<And>i a. hasTask kt ob i a \<Longrightarrow> hasTask kt ob' i a"
  shows "keysInv kt (setKey i (Some a) 1 P) S ob'"
proof -
  have "programOk kt S ob' x" if "x \<in> set (setKey i (Some a) 1 P)" for x
  proof (cases "fst x = i")
    case True
    with that assms(1) have "x = (i, Some a, 1)" by (auto simp: setKey_def split: if_splits)
    then show ?thesis using assms(1-3) by (auto simp: programOk_def nearlyOk_def)
  next
    case False
    with that have "x \<in> set P" by (auto simp: setKey_def split: if_splits)
    with False assms(1) show ?thesis by (intro programOk_tasks [OF _ assms(4)]) (auto simp: nearlyOk_def)
  qed
  with assms(1) show ?thesis by (simp add: keysInv_def nearlyOk_def)
qed

lemma nearlyOk_new:
  assumes "keysInv kt P S ob" "i \<notin> fst ` set P" "\<not> hasShow S i" "k \<notin> {1, 2}"
  shows "nearlyOk kt (P @ [(i, openAt, k)]) S ob (i, openAt, k)"
  using assms by (force simp: nearlyOk_def keysInv_def hasShow_def)

lemma nearlyOk_changed:
  assumes inv: "keysInv kt P S ob" and own: "(i, openAt, k) \<in> set P"
    and new: "\<And>j t. (j, i, t, 1) \<in> set S \<Longrightarrow> a \<le> t"
  shows "nearlyOk kt (setKey i (Some a) k P) S ob (i, Some a, k)"
proof -
  have "programOk kt S ob (i, openAt, k)" using inv own by (simp add: keysInv_def)
  then have "k \<in> {1, 2} \<longrightarrow> hasShow S i" by (simp add: programOk_def)
  moreover have "fst x = i \<Longrightarrow> x = (i, Some a, k)" "fst x \<noteq> i \<Longrightarrow> x \<in> set P" if "x \<in> set (setKey i (Some a) k P)" for x
    using that by (auto simp: setKey_def split: if_splits)
  ultimately show ?thesis using inv new by (auto simp: nearlyOk_def keysInv_def)
qed

lemma nearlyOk_show:
  assumes inv: "keysInv kt P S ob" and own: "(i, openAt, k) \<in> set P" and new: "j \<notin> fst ` set S" "\<And>a. openAt = Some a \<Longrightarrow> a \<le> t"
  shows "nearlyOk kt P (S @ [(j, i, t, 1)]) ob (i, openAt, k)"
proof -
  have own': "programOk kt S ob (i, openAt, k)" using inv own by (simp add: keysInv_def)
  have "x = (i, openAt, k)" if "x \<in> set P" "fst x = i" for x
    using that own inv same_key [of P x "(i, openAt, k)"] by (simp add: keysInv_def)
  moreover have "programOk kt (S @ [(j, i, t, 1)]) ob x" if "x \<in> set P" "fst x \<noteq> i" for x
    using that inv by (intro programOk_show) (simp_all add: keysInv_def)
  moreover have "hasShow (S @ [(j, i, t, 1)]) i" by (simp add: hasShow_def)
  ultimately show ?thesis using inv new own' by (auto simp: nearlyOk_def keysInv_def programOk_def)
qed

text \<open>The configuration the system runs with, and ids not used before.\<close>

definition calm :: "(int \<Rightarrow> string) \<Rightarrow> catalogueEnv \<Rightarrow> catalogue \<Rightarrow> bool" where
  "calm kt env c \<longleftrightarrow> ge_KeyTime env = kt \<and> ge_Lead env \<noteq> None \<and> ge_Invalidate env = None \<and> (\<forall>e. ge_Tx env \<noteq> TxLostAck e)
     \<and> 0 < ge_Ids env 0 \<and> ge_Ids env 0 \<notin> sh_ProgramId ` set (ct_Shows c) \<and> ge_Ids env 1 \<notin> dt_Id ` set (ct_Outbox c)"

lemma schedule_keys:
  assumes "ge_KeyTime env = kt" "ge_Lead env \<noteq> None" "ge_Ids env 1 \<notin> dt_Id ` set (ct_Outbox c)"
    and near: "nearlyOk kt (map pkey (ct_Programs c)) (map skey (ct_Shows c)) (ct_Outbox c) (pkey p)"
    and sch: "scheduleRushInventoryPreheat env p c = (r, c')"
  shows "r = Inr ()" "ct_Shows c' = ct_Shows c" "ct_Caches c' = ct_Caches c"
    and "keysInv kt (map pkey (ct_Programs c')) (map skey (ct_Shows c')) (ct_Outbox c')"
    and "\<exists>k. map pkey (ct_Programs c') = setKey (dp_Id p) (dp_RushSaleOpenTime p) k (map pkey (ct_Programs c))"
proof -
  let ?P = "map pkey (ct_Programs c)" and ?S = "map skey (ct_Shows c)" and ?i = "dp_Id p" and ?k = "dp_InventoryPreheatStatus p"
  show "r = Inr ()" "ct_Shows c' = ct_Shows c" "ct_Caches c' = ct_Caches c"
    using sch by (auto simp: scheduleRushInventoryPreheat_def EnqueueWithConn_def split: option.splits if_splits)
  have near': "nearlyOk kt ?P ?S (ct_Outbox c) (?i, dp_RushSaleOpenTime p, ?k)" using near by (simp only: pkey_def)
  have own: "setKey ?i (dp_RushSaleOpenTime p) ?k ?P = ?P"
    using near by (auto simp: nearlyOk_def setKey_def pkey_def intro!: map_idI)
  have "keysInv kt (map pkey (ct_Programs c')) ?S (ct_Outbox c')
      \<and> (\<exists>k. map pkey (ct_Programs c') = setKey ?i (dp_RushSaleOpenTime p) k ?P)"
  proof (cases "dp_RushSaleOpenTime p = None \<or> \<not> hasShow ?S ?i")
    case True
    then have "c' = c" using sch by (auto simp: scheduleRushInventoryPreheat_def shows_of split: option.splits)
    with nearlyOk_idle [OF near' True] own show ?thesis by (intro conjI exI [of _ ?k]) simp_all
  next
    case False
    then obtain a where a: "dp_RushSaleOpenTime p = Some a" and sh: "hasShow ?S ?i" by (cases "dp_RushSaleOpenTime p") simp_all
    obtain lead where lead: "ge_Lead env = Some lead" using assms(2) by (cases "ge_Lead env") simp_all
    have c': "c' = EnqueueWithConn env lead ?i a (if ?k \<noteq> 1
        then c\<lparr>ct_Programs := UpdateProgramRow (p\<lparr>dp_InventoryPreheatStatus := 1, dp_EditTime := ge_Now env 1\<rparr>) (ct_Programs c)\<rparr> else c)"
      using sch sh by (simp add: scheduleRushInventoryPreheat_def shows_of a lead)
    have ob: "ct_Outbox c' = upsertTask (preheatTask env lead ?i a) (ct_Outbox c)" by (simp add: c' EnqueueWithConn_def)
    have P': "map pkey (ct_Programs c') = setKey ?i (Some a) 1 ?P"
      using own a by (cases "?k = 1") (simp_all add: c' EnqueueWithConn_def pkey_update)
    have "hasTask kt (ct_Outbox c') ?i a" unfolding ob
      by (rule hasTask_upsert_new) (use assms(1,3) in \<open>simp_all add: preheatTask_def sameTask_def preheatTaskKey_def taskKeyOf_def\<close>)
    from nearlyOk_task [OF near' [unfolded a] sh this] show ?thesis
      unfolding P' a ob using hasTask_upsert_old by blast
  qed
  then show "keysInv kt (map pkey (ct_Programs c')) (map skey (ct_Shows c')) (ct_Outbox c')"
    "\<exists>k. map pkey (ct_Programs c') = setKey ?i (dp_RushSaleOpenTime p) k ?P"
    using \<open>ct_Shows c' = ct_Shows c\<close> by simp_all
qed

section \<open>Transactions\<close>

text \<open>The effect of a transaction on program \<open>i\<close>: the tables are in order, and so are the cached rows but that of \<open>i\<close>.\<close>

definition txKeeps :: "(int \<Rightarrow> string) \<Rightarrow> int \<Rightarrow> catalogue \<Rightarrow> catalogue \<Rightarrow> bool" where
  "txKeeps kt i c c' \<longleftrightarrow> keysInv kt (map pkey (ct_Programs c')) (map skey (ct_Shows c')) (ct_Outbox c')
     \<and> cacheOk ((rc_Program (ct_Caches c))(i := None)) (map pkey (ct_Programs c')) \<and> ct_Caches c' = ct_Caches c"

lemma cacheOk_without:
  assumes "cacheOk rc P" "\<And>x. x \<in> set P \<Longrightarrow> fst x \<noteq> i \<Longrightarrow> x \<in> set P'"
  shows "cacheOk (rc(i := None)) P'"
  using assms unfolding cacheOk_def by (metis fst_conv fun_upd_apply option.distinct(1))

lemma programRow_key:
  assumes "programRow tb i = Some p"
  shows "p \<in> set tb" "dp_Id p = i"
  using assms by (auto simp: programRow_def find_Some_iff)

lemma firstShow_least:
  "firstShowRow tb i = None \<Longrightarrow> \<not> hasShow (map skey tb) i"
  "firstShowRow tb i = Some s \<Longrightarrow> (j, i, t, 1) \<in> set (map skey tb) \<Longrightarrow> sh_ShowTime s \<le> t"
proof -
  let ?xs = "filter (\<lambda>s. sh_Status s = 1 \<and> sh_ProgramId s = i) tb"
  have set: "set (sort_key sh_ShowTime ?xs) = {s \<in> set tb. sh_Status s = 1 \<and> sh_ProgramId s = i}" by auto
  show "\<not> hasShow (map skey tb) i" if "firstShowRow tb i = None"
  proof -
    have "sort_key sh_ShowTime ?xs = []" using that by (auto simp: firstShowRow_def split: list.splits)
    then have "{s \<in> set tb. sh_Status s = 1 \<and> sh_ProgramId s = i} = {}" using set by (metis empty_set)
    then show ?thesis by (auto simp: hasShow_def skey_def)
  qed
  show "sh_ShowTime s \<le> t" if f: "firstShowRow tb i = Some s" and k: "(j, i, t, 1) \<in> set (map skey tb)"
  proof -
    obtain ss where ss: "sort_key sh_ShowTime ?xs = s # ss" using f by (auto simp: firstShowRow_def split: list.splits)
    obtain x where x: "x \<in> set tb" "sh_Status x = 1" "sh_ProgramId x = i" "sh_ShowTime x = t" using k by (auto simp: skey_def)
    then have "x \<in> set (s # ss)" using set ss by auto
    moreover have "sorted (map sh_ShowTime (s # ss))" using sorted_sort_key [of sh_ShowTime ?xs] by (simp add: ss)
    ultimately show ?thesis using x(4) by auto
  qed
qed

lemma schedule_tx:
  assumes "ge_KeyTime env = kt" "ge_Lead env \<noteq> None" "ge_Ids env 1 \<notin> dt_Id ` set (ct_Outbox c1)"
    and near: "nearlyOk kt (map pkey (ct_Programs c1)) (map skey (ct_Shows c1)) (ct_Outbox c1) (pkey p)"
    and sch: "scheduleRushInventoryPreheat env p c1 = (Inr u, c')"
    and cache: "cacheOk (rc_Program (ct_Caches c)) P" "\<And>x. x \<in> set P \<Longrightarrow> fst x \<noteq> dp_Id p \<Longrightarrow> x \<in> set (map pkey (ct_Programs c1))" "ct_Caches c1 = ct_Caches c"
  shows "txKeeps kt (dp_Id p) c c'"
proof -
  note K = schedule_keys [OF assms(1-3) near sch]
  obtain k where k: "map pkey (ct_Programs c') = setKey (dp_Id p) (dp_RushSaleOpenTime p) k (map pkey (ct_Programs c1))" using K(5) by blast
  have "cacheOk ((rc_Program (ct_Caches c))(dp_Id p := None)) (map pkey (ct_Programs c'))"
    unfolding k by (rule cacheOk_without [OF cache(1)]) (rule setKey_other [OF cache(2)])
  with K(3,4) cache(3) show ?thesis by (simp add: txKeeps_def)
qed

lemma createProgram_tx:
  assumes inv: "catInv kt c" and calm: "calm kt env c" and data: "dp_Id data = ge_Ids env 0" "dp_InventoryPreheatStatus data = 0"
    and run: "createProgramTx env data c = (Inr u, c')"
  shows "txKeeps kt (dp_Id data) c c'"
proof -
  let ?P = "map pkey (ct_Programs c)"
  let ?c1 = "c\<lparr>ct_Programs := ct_Programs c @ [data]\<rparr>"
  have new: "dp_Id data \<notin> dp_Id ` set (ct_Programs c)" and sch: "scheduleRushInventoryPreheat env data ?c1 = (Inr u, c')"
    using run by (auto simp: createProgramTx_def InsertProgram_def split: if_splits)
  have nos: "\<not> hasShow (map skey (ct_Shows c)) (dp_Id data)"
  proof
    assume "hasShow (map skey (ct_Shows c)) (dp_Id data)"
    then obtain x where "x \<in> set (ct_Shows c)" "sh_ProgramId x = dp_Id data" by (auto simp: hasShow_def skey_def)
    with calm data(1) show False unfolding calm_def by (metis imageI)
  qed
  have fresh: "dp_Id data \<notin> fst ` set ?P" using new by (auto simp: pkey_def image_image)
  have "nearlyOk kt (?P @ [pkey data]) (map skey (ct_Shows c)) (ct_Outbox c) (pkey data)"
    using nearlyOk_new [OF _ fresh nos] inv data(2) unfolding pkey_def catInv_def by simp
  then show ?thesis
    using calm inv by (intro schedule_tx [OF _ _ _ _ sch, of kt c ?P]) (auto simp: calm_def catInv_def)
qed

lemma updateProgram_tx:
  assumes inv: "catInv kt c" and calm: "calm kt env c"
    and valid: "validateProgramWriteValues (ge_Parse env) values True = Inr ()" and data: "buildProgramModel (ge_Parse env) values now = Inr data"
    and run: "updateProgramTx env values data c = (Inr groupIDs, c')"
  shows "txKeeps kt (pv_id values) c c'"
proof -
  let ?P = "map pkey (ct_Programs c)" and ?S = "map skey (ct_Shows c)" and ?i = "pv_id values"
  have idp: "0 < ?i" and nb: "trim_space (pv_rushSaleOpenTime values) \<noteq> []"
    using valid by (auto simp: validateProgramWriteValues_def split: if_splits)
  obtain a where a: "ge_Parse env (pv_rushSaleOpenTime values) = Some a" "dp_RushSaleOpenTime data = Some a"
    using buildProgramModel_times(2) [OF data] nb by (auto simp: parseNullTime_def split: option.splits)
  have did: "dp_Id data = ?i" using data by (auto simp: buildProgramModel_def split: sum.splits)
  obtain cur where cur: "FindOneForUpdate (ct_Programs c) ?i = Inr cur"
    using run by (auto simp: updateProgramTx_def ifMissing_def split: if_splits sum.splits)
  define data' where "data' = data\<lparr>dp_CreateTime := dp_CreateTime cur, dp_InventoryPreheatStatus := dp_InventoryPreheatStatus cur\<rparr>"
  let ?c1 = "c\<lparr>ct_Programs := UpdateProgramRow data' (ct_Programs c)\<rparr>"
  have k': "pkey data' = (?i, Some a, dp_InventoryPreheatStatus cur)" by (simp add: data'_def pkey_def did a)
  have key: "(?i, dp_RushSaleOpenTime cur, dp_InventoryPreheatStatus cur) \<in> set ?P"
    using cur by (force simp: FindOneForUpdate_def orNotFound_def find_Some_iff pkey_def split: option.splits)
  have window: "a \<le> t" if "(j, ?i, t, 1) \<in> set ?S" for j t
  proof -
    have v: "validateProgramRushSaleWindowAgainstExistingShowTimes env (ct_Shows c) ?i (pv_rushSaleOpenTime values) = Inr ()"
      using run cur by (auto simp: updateProgramTx_def ifMissing_def Let_def split: if_splits sum.splits)
    have h: "hasShow ?S ?i" using that by (force simp: hasShow_def)
    obtain s where s: "firstShowRow (ct_Shows c) ?i = Some s" using h firstShow_least(1) by (cases "firstShowRow (ct_Shows c) ?i") auto
    have "a \<le> sh_ShowTime s" using v s a(1) idp nb
      by (auto simp: validateProgramRushSaleWindowAgainstExistingShowTimes_def split: if_splits)
    with firstShow_least(2) [OF s that] show ?thesis by simp
  qed
  have P1: "map pkey (ct_Programs ?c1) = setKey ?i (Some a) (dp_InventoryPreheatStatus cur) ?P"
    using k' by (simp add: pkey_update pkey_def)
  have near: "nearlyOk kt (map pkey (ct_Programs ?c1)) (map skey (ct_Shows ?c1)) (ct_Outbox ?c1) (pkey data')"
  proof -
    have "keysInv kt ?P ?S (ct_Outbox c)" using inv by (simp add: catInv_def)
    from nearlyOk_changed [OF this key window] show ?thesis unfolding P1 k' by simp
  qed
  show ?thesis
  proof (cases "dp_RushSaleOpenTime cur = dp_RushSaleOpenTime data' \<and> dp_RushSaleEndTime cur = dp_RushSaleEndTime data'")
    case True
    then have c': "c' = ?c1" using run cur by (auto simp: updateProgramTx_def ifMissing_def Let_def data'_def split: if_splits sum.splits)
    have k1: "keysInv kt ?P ?S (ct_Outbox c)" and ca: "cacheOk (rc_Program (ct_Caches c)) ?P" using inv by (simp_all add: catInv_def)
    have "dp_RushSaleOpenTime cur = Some a" using True a by (simp add: data'_def)
    with key have "(?i, Some a, dp_InventoryPreheatStatus cur) \<in> set ?P" by (simp only:)
    with k1 have "setKey ?i (Some a) (dp_InventoryPreheatStatus cur) ?P = ?P" by (intro setKey_same) (simp_all only: keysInv_def)
    then have P2: "map pkey (ct_Programs c') = ?P" using P1 c' by (simp only:)
    have rest: "ct_Shows c' = ct_Shows c" "ct_Outbox c' = ct_Outbox c" "ct_Caches c' = ct_Caches c" by (simp_all add: c')
    have "cacheOk ((rc_Program (ct_Caches c))(?i := None)) ?P" by (rule cacheOk_without [OF ca])
    with k1 show ?thesis unfolding txKeeps_def P2 rest by simp
  next
    case False
    then have sch: "scheduleRushInventoryPreheat env data' ?c1 = (Inr (), c')"
      using run cur by (auto simp: updateProgramTx_def ifMissing_def Let_def data'_def split: if_splits sum.splits prod.splits)
    have i': "dp_Id data' = ?i" using did by (simp add: data'_def)
    have "txKeeps kt (dp_Id data') c c'"
    proof (rule schedule_tx [OF _ _ _ near sch])
      show "cacheOk (rc_Program (ct_Caches c)) ?P" using inv by (simp add: catInv_def)
      show "x \<in> set (map pkey (ct_Programs ?c1))" if "x \<in> set ?P" "fst x \<noteq> dp_Id data'" for x
        unfolding P1 using that i' by (intro setKey_other) simp_all
    qed (use calm in \<open>simp_all add: calm_def\<close>)
    then show ?thesis by (simp add: i')
  qed
qed

lemma createShow_tx:
  assumes inv: "catInv kt c" and calm: "calm kt env c" and act: "sh_Status created = 1"
    and run: "createShowTx env created c = (Inr grp, c')"
  shows "txKeeps kt (sh_ProgramId created) c c'"
proof -
  let ?P = "map pkey (ct_Programs c)" and ?S = "map skey (ct_Shows c)" and ?i = "sh_ProgramId created"
  obtain p where p: "programRow (ct_Programs c) ?i = Some p"
    using run by (cases "programRow (ct_Programs c) ?i") (simp_all add: createShowTx_def ifMissing_def orNotFound_def)
  note run1 = run [unfolded createShowTx_def p ifMissing_def orNotFound_def option.case sum.case]
  have win: "validateShowTimeAgainstProgramRushSaleOpenTime p (sh_ShowTime created) = Inr ()"
    using run1 by (cases "validateShowTimeAgainstProgramRushSaleOpenTime p (sh_ShowTime created)") simp_all
  have new: "sh_Id created \<notin> sh_Id ` set (ct_Shows c)" using run1 win by (auto simp: InsertShow_def)
  obtain gs where sch: "scheduleRushInventoryPreheat env p (c\<lparr>ct_Shows := ct_Shows c @ [created\<lparr>sh_CreateTime := None\<rparr>], ct_Groups := gs\<rparr>) = (Inr (), c')"
    using run1 win new by (cases "groupRow (ct_Groups c) (dp_ProgramGroupId p)") (auto simp: InsertShow_def Let_def split: prod.splits sum.splits)
  let ?c1 = "c\<lparr>ct_Shows := ct_Shows c @ [created\<lparr>sh_CreateTime := None\<rparr>], ct_Groups := gs\<rparr>"
  have pid: "dp_Id p = ?i" by (rule programRow_key(2) [OF p])
  have key: "(?i, dp_RushSaleOpenTime p, dp_InventoryPreheatStatus p) \<in> set ?P"
    using programRow_key(1) [OF p] pid by (force simp: pkey_def)
  have fresh: "sh_Id created \<notin> fst ` set ?S" using new by (auto simp: skey_def image_image)
  have win': "a \<le> sh_ShowTime created" if "dp_RushSaleOpenTime p = Some a" for a
    using win that by (auto simp: validateShowTimeAgainstProgramRushSaleOpenTime_def split: if_splits)
  have S1: "map skey (ct_Shows ?c1) = ?S @ [(sh_Id created, ?i, sh_ShowTime created, 1)]" using act by (simp add: skey_def)
  have near: "nearlyOk kt (map pkey (ct_Programs ?c1)) (map skey (ct_Shows ?c1)) (ct_Outbox ?c1) (pkey p)"
  proof -
    have "keysInv kt ?P ?S (ct_Outbox c)" using inv by (simp add: catInv_def)
    from nearlyOk_show [OF this key fresh win'] show ?thesis unfolding S1 by (simp add: pkey_def pid)
  qed
  have "txKeeps kt (dp_Id p) c c'"
  proof (rule schedule_tx [OF _ _ _ near sch])
    show "cacheOk (rc_Program (ct_Caches c)) ?P" using inv by (simp add: catInv_def)
    show "x \<in> set (map pkey (ct_Programs ?c1))" if "x \<in> set ?P" for x using that by simp
  qed (use calm in \<open>simp_all add: calm_def\<close>)
  then show ?thesis by (simp add: pid)
qed

lemma updateShow_tx:
  assumes inv: "catInv kt c" and run: "updateShowTx env req e c = (Inr x, c')"
  shows "catInv kt c'"
proof -
  obtain cur where cur: "showRow (ct_Shows c) (su_Id req) = Some cur"
    and c': "c' = c\<lparr>ct_Shows := UpdateShowRow (cur\<lparr>sh_ShowWeekTime := su_ShowWeekTime req, sh_ShowEndTime := e,
           sh_EditTime := Some (ge_Now env 0)\<rparr>) (ct_Shows c)\<rparr>"
    using run by (auto simp: updateShowTx_def ifMissing_def orNotFound_def split: option.splits sum.splits)
  have "skey s = skey cur" if "s \<in> set (ct_Shows c)" "sh_Id s = sh_Id cur" for s
  proof -
    have "cur \<in> set (ct_Shows c)" using cur by (auto simp: showRow_def find_Some_iff)
    with that inv same_key [of "map skey (ct_Shows c)" "skey s" "skey cur"] show ?thesis
      by (auto simp: catInv_def keysInv_def) (simp add: skey_def)
  qed
  then have "map skey (ct_Shows c') = map skey (ct_Shows c)"
    by (auto simp: c' UpdateShowRow_def skey_def)
  with inv show ?thesis by (simp add: catInv_def c')
qed

section \<open>The handlers\<close>

lemma runTx_commit:
  assumes "runTx flt f d = (r, d')" "\<And>e. flt \<noteq> TxLostAck e"
  obtains "d' = d" | a where "r = Inr a" "f d = (Inr a, d')"
  using assms by (cases "f d"; cases "fst (f d)") (auto simp: runTx_def split: txfault.splits)

lemma txKeeps_invalidate:
  assumes "txKeeps kt i c c'" "0 < i" "ge_Invalidate env = None"
  shows "catInv kt (InvalidateProgram env i gs c')"
  using assms by (simp add: txKeeps_def catInv_def InvalidateProgram_def InvalidateView_def)

text \<open>An invariant of the programs, their shows and tasks is not touched by changes elsewhere.\<close>

lemma catInv_frame:
  assumes "catInv kt c" "ct_Programs c' = ct_Programs c" "ct_Shows c' = ct_Shows c" "ct_Outbox c' = ct_Outbox c"
    and "\<And>i p. rc_Program (ct_Caches c') i = Some (Some p) \<Longrightarrow> rc_Program (ct_Caches c) i = Some (Some p)"
  shows "catInv kt c'"
  using assms(1) cacheOk_less [of "rc_Program (ct_Caches c)" "map pkey (ct_Programs c)" "rc_Program (ct_Caches c')"] assms(5)
  unfolding catInv_def assms(2-4) by simp

lemma catInv_invalidate: "catInv kt c \<Longrightarrow> catInv kt (InvalidateProgram env i gs c)"
  by (erule catInv_frame) (auto simp: InvalidateProgram_def InvalidateView_def split: if_splits)

lemma clearLedgers_frame:
  "clearLedgers env f is c = (r, c') \<Longrightarrow> \<exists>seats. c' = c\<lparr>ct_Seats := seats\<rparr>"
proof (induction "is" arbitrary: c)
  case Nil
  then show ?case by (auto intro: exI [of _ "ct_Seats c"])
next
  case (Cons i "is")
  have same: "\<exists>seats. c = c\<lparr>ct_Seats := seats\<rparr>" by (rule exI [of _ "ct_Seats c"]) simp
  from Cons.prems show ?case
    using Cons.IH [of c] Cons.IH [of "c\<lparr>ct_Seats := setLedger (the (f i)) i (Clear (wledger (ct_Seats c) (the (f i)) i)) (ct_Seats c)\<rparr>"] same
    by (auto split: option.splits if_splits)
qed

lemma clear_frame:
  assumes "clearProgramSeatLedgers env k i cs c = (r, c')"
  obtains seats where "c' = c\<lparr>ct_Seats := seats\<rparr>"
proof (cases "ge_Fault env k")
  case None
  then show ?thesis using assms that clearLedgers_frame unfolding clearProgramSeatLedgers_def by fastforce
next
  case (Some e)
  then show ?thesis using assms that [of "ct_Seats c"] by (simp add: clearProgramSeatLedgers_def)
qed

lemma clearByProgram_frame:
  assumes "clearProgramSeatLedgersByProgram env k i c = (r, c')"
  obtains seats where "c' = c\<lparr>ct_Seats := seats\<rparr>"
proof (cases "ge_Fault env k")
  case None
  then show ?thesis using assms that by (auto simp: clearProgramSeatLedgersByProgram_def elim!: clear_frame)
next
  case (Some e)
  then show ?thesis using assms that [of "ct_Seats c"] by (simp add: clearProgramSeatLedgersByProgram_def)
qed

lemma clearLedgers_table: "clearLedgers env f is c = (r, c') \<Longrightarrow> wtable (ct_Seats c') = wtable (ct_Seats c)"
  by (induction "is" arbitrary: c) (fastforce simp: setLedger_def split: option.splits if_splits)+

lemma clear_table:
  assumes "clearProgramSeatLedgers env k i cs c = (r, c')" shows "wtable (ct_Seats c') = wtable (ct_Seats c)"
  using assms clearLedgers_table by (auto simp: clearProgramSeatLedgers_def split: option.splits)

lemma catInv_seats [simp]: "catInv kt (c\<lparr>ct_Seats := seats\<rparr>) = catInv kt c"
  by (simp add: catInv_def)

lemma catInv_categories [simp]: "catInv kt (c\<lparr>ct_Categories := cs\<rparr>) = catInv kt c"
  by (simp add: catInv_def)

lemma catInv_kinds [simp]: "catInv kt (c\<lparr>ct_Kinds := ks\<rparr>) = catInv kt c"
  by (simp add: catInv_def)

text \<open>A transaction on one program, and its entries dropped from the caches when it commits.\<close>

lemma tx_then_invalidate:
  assumes inv: "catInv kt c" and calm: "calm kt env c" and pos: "0 < i" and keeps: "\<And>a c1. f c = (Inr a, c1) \<Longrightarrow> txKeeps kt i c c1"
  shows "catInv kt (snd (case runTx (ge_Tx env) f c of (Inl e, c1) \<Rightarrow> (Inl e, c1) | (Inr a, c1) \<Rightarrow> (h a, InvalidateProgram env i (gs a) c1)))"
proof -
  have no: "ge_Invalidate env = None" "\<And>e. ge_Tx env \<noteq> TxLostAck e" using calm by (simp_all add: calm_def)
  obtain r c1 where run: "runTx (ge_Tx env) f c = (r, c1)" by (cases "runTx (ge_Tx env) f c")
  from run no(2) show ?thesis
  proof (rule runTx_commit)
    assume "c1 = c"
    then show ?thesis using inv by (cases r) (simp_all add: run catInv_invalidate)
  next
    fix a assume "r = Inr a" "f c = (Inr a, c1)"
    with keeps [OF this(2)] pos no(1) show ?thesis by (simp add: run txKeeps_invalidate)
  qed
qed

lemma CreateProgram_inv:
  assumes inv: "catInv kt c" and calm: "calm kt env c"
  shows "catInv kt (snd (CreateProgram env req c))"
proof -
  let ?v = "applyCreateProgramDefaults (newCreateProgramValues req)"
  note D = CreateProgram_def [of env req c, unfolded Let_def]
  show ?thesis
  proof (cases "validateProgramWriteValues (ge_Parse env) ?v False")
    case Inr
    show ?thesis
    proof (cases "buildProgramModel (ge_Parse env) (?v\<lparr>pv_id := ge_Ids env 0\<rparr>) (ge_Now env 0)")
      case Inr': (Inr data)
      have key: "dp_Id data = ge_Ids env 0" "dp_InventoryPreheatStatus data = 0"
        using Inr' by (auto simp: buildProgramModel_def applyCreateProgramDefaults_def newCreateProgramValues_def Let_def split: sum.splits)
      have "0 < ge_Ids env 0" using calm by (simp add: calm_def)
      moreover have "txKeeps kt (ge_Ids env 0) c c1" if "createProgramTx env data c = (Inr a, c1)" for a c1
        using createProgram_tx [OF inv calm key that] by (simp only: key)
      ultimately show ?thesis unfolding D Inr Inr' sum.case by (rule tx_then_invalidate [OF inv calm])
    qed (simp add: D Inr inv)
  qed (simp add: D inv)
qed

lemma UpdateProgram_inv:
  assumes inv: "catInv kt c" and calm: "calm kt env c"
  shows "catInv kt (snd (UpdateProgram env req c))"
proof -
  let ?v = "newUpdateProgramValues req"
  note D = UpdateProgram_def [of env req c, unfolded Let_def]
  show ?thesis
  proof (cases "validateProgramWriteValues (ge_Parse env) ?v True")
    case v: (Inr u)
    show ?thesis
    proof (cases "buildProgramModel (ge_Parse env) ?v (ge_Now env 0)")
      case b: (Inr data)
      have "0 < pv_id ?v" using v by (auto simp: validateProgramWriteValues_def split: if_splits)
      then show ?thesis unfolding D v b sum.case
        by (rule tx_then_invalidate [OF inv calm]) (use updateProgram_tx [OF inv calm _ b] v in simp)
    qed (simp add: D v inv)
  qed (simp add: D inv)
qed

lemma CreateProgramShowTime_inv:
  assumes inv: "catInv kt c" and calm: "calm kt env c"
  shows "catInv kt (snd (CreateProgramShowTime env req c))"
proof (cases "sr_ProgramId req \<le> 0 \<or> sr_ShowTime req = [] \<or> sr_ShowWeekTime req = [] \<or> ge_Parse env (sr_ShowTime req) = None
    \<or> isl (parseNullTime (ge_Parse env) (sr_ShowDayTime req)) \<or> isl (parseNullTime (ge_Parse env) (sr_ShowEndTime req))")
  case True
  then show ?thesis using inv by (auto simp: CreateProgramShowTime_def isl_def split: option.splits sum.splits)
next
  case False
  then obtain t d e where p: "ge_Parse env (sr_ShowTime req) = Some t" "parseNullTime (ge_Parse env) (sr_ShowDayTime req) = Inr d"
    "parseNullTime (ge_Parse env) (sr_ShowEndTime req) = Inr e" and g: "\<not> (sr_ProgramId req \<le> 0 \<or> sr_ShowTime req = [] \<or> sr_ShowWeekTime req = [])"
    by (auto simp: isl_def) (metis obj_sumE)+
  let ?s = "\<lparr>sh_Id = ge_Ids env 0, sh_ProgramId = sr_ProgramId req, sh_ShowTime = t, sh_ShowDayTime = d, sh_ShowWeekTime = sr_ShowWeekTime req,
    sh_ShowEndTime = e, sh_CreateTime = None, sh_EditTime = Some (ge_Now env 0), sh_Status = 1\<rparr>"
  have "txKeeps kt (sr_ProgramId req) c c1" if "createShowTx env ?s c = (Inr a, c1)" for a c1
    using createShow_tx [OF inv calm _ that] by simp
  moreover have "0 < sr_ProgramId req" using g by simp
  ultimately show ?thesis unfolding CreateProgramShowTime_def p option.case sum.case if_not_P [OF g]
    by (intro tx_then_invalidate [OF inv calm])
qed

lemma UpdateProgramShowTime_inv:
  assumes inv: "catInv kt c" and calm: "calm kt env c"
  shows "catInv kt (snd (UpdateProgramShowTime env req c))"
proof (cases "su_Id req \<le> 0 \<or> trim_space (su_ShowWeekTime req) = []")
  case g: False
  show ?thesis
  proof (cases "parseNullTime (ge_Parse env) (su_ShowEndTime req)")
    case e: (Inr e)
    have no: "\<And>x. ge_Tx env \<noteq> TxLostAck x" using calm by (simp add: calm_def)
    obtain r c1 where run: "runTx (ge_Tx env) (updateShowTx env req e) c = (r, c1)" by (cases "runTx (ge_Tx env) (updateShowTx env req e) c")
    have "catInv kt c1" by (rule runTx_commit [OF run no]) (use inv updateShow_tx [OF inv] in auto)
    then show ?thesis unfolding UpdateProgramShowTime_def e sum.case if_not_P [OF g] run
      by (cases r) (auto simp: catInv_invalidate split: prod.splits)
  qed (use g in \<open>simp add: UpdateProgramShowTime_def inv\<close>)
qed (simp add: UpdateProgramShowTime_def inv)

lemma CreateTicketCategory_inv:
  assumes inv: "catInv kt c"
  shows "catInv kt (snd (CreateTicketCategory env req c))"
  unfolding CreateTicketCategory_def using inv by (auto simp: catInv_invalidate split: sum.splits)

lemma CreateSeat_inv:
  assumes inv: "catInv kt c"
  shows "catInv kt (snd (CreateSeat env req c))"
proof -
  have "catInv kt c2" if "clearProgramSeatLedgers env 6 i is (c\<lparr>ct_Seats := seats\<rparr>) = (r, c2)" for i "is" seats r c2
    using inv by (rule_tac clear_frame [OF that]) simp
  then show ?thesis unfolding CreateSeat_def using inv by (auto split: sum.splits prod.splits)
qed

lemma runTx_inv:
  assumes "runTx flt f c = (r, c')" "catInv kt c" "\<And>a c1. f c = (Inr a, c1) \<Longrightarrow> catInv kt c1"
  shows "catInv kt c'"
  using assms by (cases "f c"; cases "fst (f c)") (auto simp: runTx_def split: txfault.splits)

lemma BatchCreateSeats_inv:
  assumes inv: "catInv kt c"
  shows "catInv kt (snd (BatchCreateSeats env programID items c))"
proof -
  have tx: "catInv kt c1" if run: "runTx (ge_Tx env) (batchTx env programID items) c = (r, c1)" for r c1
    by (rule runTx_inv [OF run inv]) (use inv in \<open>auto simp: batchTx_def split: sum.splits\<close>)
  have "catInv kt c2" if "clearProgramSeatLedgers env k i is c1 = (r, c2)" "catInv kt c1" for k i "is" r c1 c2
    using that(2) by (rule_tac clear_frame [OF that(1)]) simp
  with tx show ?thesis unfolding BatchCreateSeats_def using inv by (auto split: sum.splits prod.splits)
qed

lemma ResetProgram_inv:
  assumes inv: "catInv kt c"
  shows "catInv kt (snd (ResetProgram env programID c))"
proof -
  have tx: "catInv kt c1" if run: "runTx (ge_Tx env) (resetTx env programID) c = (r, c1)" for r c1
    by (rule runTx_inv [OF run inv]) (use inv in \<open>auto simp: resetTx_def split: sum.splits\<close>)
  have "catInv kt c2" if "clearProgramSeatLedgersByProgram env 0 i (InvalidateProgram env i gs c1) = (r, c2)" "catInv kt c1" for i gs r c1 c2
    using catInv_invalidate [OF that(2), of env i gs] by (rule_tac clearByProgram_frame [OF that(1)]) simp
  with tx show ?thesis unfolding ResetProgram_def using inv by (auto split: sum.splits prod.splits)
qed

lemma BatchCreateProgramCategories_inv:
  assumes inv: "catInv kt c"
  shows "catInv kt (snd (BatchCreateProgramCategories env req c))"
proof -
  have tx: "catInv kt c1" if run: "runTx (ge_Tx env) (kindsTx env items) c = (r, c1)" for r c1 items
    by (rule runTx_inv [OF run inv]) (use inv in \<open>auto simp: kindsTx_def split: sum.splits if_splits\<close>)
  have "catInv kt (InvalidateCategorySnapshot c1)" if "catInv kt c1" for c1
    using that by (rule catInv_frame) (simp_all add: InvalidateCategorySnapshot_def)
  with tx show ?thesis unfolding BatchCreateProgramCategories_def using inv by (auto split: sum.splits prod.splits)
qed

text \<open>The withdrawn program goes back as the cache has it, which may be one mark behind.\<close>

lemma cached_key:
  assumes inv: "catInv kt c" and p: "cachedProgram c i = Inr p"
  shows "dp_Id p = i" "\<exists>k. (i, dp_RushSaleOpenTime p, k) \<in> set (map pkey (ct_Programs c))
    \<and> (k = dp_InventoryPreheatStatus p \<or> dp_InventoryPreheatStatus p = 1 \<and> k = 2)"
proof -
  have "dp_Id p = i \<and> (\<exists>k. (i, dp_RushSaleOpenTime p, k) \<in> set (map pkey (ct_Programs c))
    \<and> (k = dp_InventoryPreheatStatus p \<or> dp_InventoryPreheatStatus p = 1 \<and> k = 2))"
  proof (cases "rc_Program (ct_Caches c) i")
    case None
    then have row: "programRow (ct_Programs c) i = Some p"
      using p by (cases "programRow (ct_Programs c) i") (simp_all add: cachedProgram_def readThrough_def orNotFound_def)
    have "pkey p \<in> set (map pkey (ct_Programs c))" using programRow_key(1) [OF row] by simp
    then show ?thesis unfolding pkey_def using programRow_key(2) [OF row] by (intro conjI exI [of _ "dp_InventoryPreheatStatus p"]) simp_all
  next
    case (Some x)
    then have "rc_Program (ct_Caches c) i = Some (Some p)"
      using p by (cases x) (simp_all add: cachedProgram_def readThrough_def orNotFound_def)
    moreover have "cacheOk (rc_Program (ct_Caches c)) (map pkey (ct_Programs c))" using inv by (simp only: catInv_def)
    ultimately show ?thesis unfolding cacheOk_def by (elim allE impE) 
  qed
  then show "dp_Id p = i" "\<exists>k. (i, dp_RushSaleOpenTime p, k) \<in> set (map pkey (ct_Programs c))
    \<and> (k = dp_InventoryPreheatStatus p \<or> dp_InventoryPreheatStatus p = 1 \<and> k = 2)" by (rule conjunct1, rule conjunct2)
qed

lemma programOk_behind:
  assumes "programOk kt S ob (i, openAt, k)" "k = k' \<or> k' = 1 \<and> k = 2"
  shows "programOk kt S ob (i, openAt, k')"
  using assms by (auto simp: programOk_def)

lemma InvalidProgram_inv:
  assumes inv: "catInv kt c"
  shows "catInv kt (snd (InvalidProgram env programID c))"
proof -
  let ?P = "map pkey (ct_Programs c)"
  have "catInv kt (snd (case clearProgramSeatLedgersByProgram env 2 (dp_Id p) (InvalidateProgram env (dp_Id p) [dp_ProgramGroupId p]
      (c\<lparr>ct_Programs := UpdateProgramRow (p\<lparr>dp_ProgramStatus := 0, dp_EditTime := ge_Now env 0\<rparr>) (ct_Programs c),
         ct_Caches := (ct_Caches c)\<lparr>rc_Program := (rc_Program (ct_Caches c))(dp_Id p := None)\<rparr>\<rparr>)) of
      (Inl e, c2) \<Rightarrow> (Inl e, c2) | (Inr _, c2) \<Rightarrow> (Inr True, c2)))"
    if p: "cachedProgram c programID = Inr p" for p
  proof -
    let ?c1 = "c\<lparr>ct_Programs := UpdateProgramRow (p\<lparr>dp_ProgramStatus := 0, dp_EditTime := ge_Now env 0\<rparr>) (ct_Programs c),
         ct_Caches := (ct_Caches c)\<lparr>rc_Program := (rc_Program (ct_Caches c))(dp_Id p := None)\<rparr>\<rparr>"
    note k = cached_key [OF inv p]
    have keys: "keysInv kt ?P (map skey (ct_Shows c)) (ct_Outbox c)" and cache: "cacheOk (rc_Program (ct_Caches c)) ?P"
      using inv by (simp_all only: catInv_def)
    obtain x where x: "(programID, dp_RushSaleOpenTime p, x) \<in> set ?P" "x = dp_InventoryPreheatStatus p \<or> dp_InventoryPreheatStatus p = 1 \<and> x = 2"
      using k(2) by (elim exE conjE)
    have "programOk kt (map skey (ct_Shows c)) (ct_Outbox c) (programID, dp_RushSaleOpenTime p, x)"
      using keysInv_ok [OF keys x(1)] .
    from keysInv_setKey [OF keys programOk_behind [OF this x(2)]] cacheOk_setKey [OF cache]
    have c1: "catInv kt ?c1" by (simp add: catInv_def pkey_update k(1))
    obtain r c2 where cl: "clearProgramSeatLedgersByProgram env 2 (dp_Id p) (InvalidateProgram env (dp_Id p) [dp_ProgramGroupId p] ?c1) = (r, c2)"
      by (rule prod.exhaust)
    have "catInv kt c2" by (rule clearByProgram_frame [OF cl]) (simp add: catInv_invalidate [OF c1])
    then show ?thesis unfolding cl by (cases r) simp_all
  qed
  then show ?thesis unfolding InvalidProgram_def Let_def using inv
    by (auto simp: ifMissing_def orFault_def split: sum.splits option.splits if_splits)
qed

section \<open>The job\<close>

lemma catInv_tasks:
  assumes "catInv kt c" "\<And>row. dt_TaskType (f row) = dt_TaskType row \<and> dt_TaskKey (f row) = dt_TaskKey row"
  shows "catInv kt (c\<lparr>ct_Outbox := map f (ct_Outbox c)\<rparr>)"
proof -
  have "keysInv kt (map pkey (ct_Programs c)) (map skey (ct_Shows c)) (map f (ct_Outbox c))"
    using assms(1) by (intro keysInv_tasks [OF _ hasTask_map [OF _ assms(2)]]) (simp_all add: catInv_def)
  with assms(1) show ?thesis by (simp add: catInv_def)
qed

lemma MarkTask_inv:
  assumes "catInv kt c"
  shows "catInv kt (MarkTaskProcessed key t c)" "catInv kt (MarkTaskConsumeFailed key t e c)"
  unfolding MarkTaskProcessed_def MarkTaskConsumeFailed_def
  by (rule catInv_tasks [OF assms], simp add: markTaskProcessed_def)+

lemma keysInv_mark:
  assumes keys: "keysInv kt P S ob" and ids: "map fst P' = map fst P"
    and old: "\<And>x. x \<in> set P' \<Longrightarrow> x \<in> set P \<or> (\<exists>i a k. x = (i, Some a, 2) \<and> (i, Some a, k) \<in> set P \<and> hasShow S i)"
  shows "keysInv kt P' S ob"
proof -
  have "programOk kt S ob (i, Some a, 2)" if "(i, Some a, k) \<in> set P" "hasShow S i" for i a k
    using keysInv_ok [OF keys that(1)] that(2) by (auto simp: programOk_def)
  then have "programOk kt S ob x" if "x \<in> set P'" for x using old [OF that] keysInv_ok [OF keys, of x] by blast
  then show ?thesis using keys ids by (simp add: keysInv_def)
qed

lemma cacheOk_mark:
  assumes keys: "keysInv kt P S ob" and cache: "cacheOk rc P"
    and new: "\<And>i openAt k. (i, openAt, k) \<in> set P \<Longrightarrow> (i, openAt, k) \<in> set P' \<or> openAt \<noteq> None \<and> (i, openAt, 2) \<in> set P' \<and> hasShow S i"
  shows "cacheOk rc P'"
  unfolding cacheOk_def
proof (intro allI impI)
  fix i p assume "rc i = Some (Some p)"
  then obtain k where k: "dp_Id p = i" "(i, dp_RushSaleOpenTime p, k) \<in> set P" "k = dp_InventoryPreheatStatus p \<or> dp_InventoryPreheatStatus p = 1 \<and> k = 2"
    using cache unfolding cacheOk_def by meson
  show "dp_Id p = i \<and> (\<exists>k. (i, dp_RushSaleOpenTime p, k) \<in> set P' \<and> (k = dp_InventoryPreheatStatus p \<or> dp_InventoryPreheatStatus p = 1 \<and> k = 2))"
  proof (cases "(i, dp_RushSaleOpenTime p, k) \<in> set P'")
    case True
    with k show ?thesis by (intro conjI exI [of _ k])
  next
    case False
    with new [OF k(2)] have m: "dp_RushSaleOpenTime p \<noteq> None" "(i, dp_RushSaleOpenTime p, 2) \<in> set P'" "hasShow S i" by simp_all
    have "k = 1 \<or> k = 2" using keysInv_ok [OF keys k(2)] m(1,3) unfolding programOk_def by simp
    then have "2 = dp_InventoryPreheatStatus p \<or> dp_InventoryPreheatStatus p = 1" using k(3) by (elim disjE conjE) simp_all
    with k(1) m(2) show ?thesis by (intro conjI exI [of _ 2]) simp_all
  qed
qed

lemma preheatTx_inv:
  assumes inv: "catInv kt c" and active: "hasShow (map skey (ct_Shows c)) programID"
  shows "catInv kt (snd (preheatTx programID openTime key t c))"
proof -
  let ?hit = "\<lambda>p. dp_Id p = programID \<and> dp_Status p = 1 \<and> dp_RushSaleOpenTime p = Some openTime"
  let ?m = "\<lambda>p. if ?hit p then p\<lparr>dp_InventoryPreheatStatus := 2, dp_EditTime := t\<rparr> else p"
  let ?P = "map pkey (ct_Programs c)" and ?S = "map skey (ct_Shows c)"
  let ?P' = "map pkey (map ?m (ct_Programs c))"
  have keys: "keysInv kt ?P ?S (ct_Outbox c)" and cache: "cacheOk (rc_Program (ct_Caches c)) ?P" using inv by (simp_all only: catInv_def)
  have m: "pkey (?m p) = pkey p \<or> (pkey (?m p) = (programID, Some openTime, 2) \<and> pkey p = (programID, Some openTime, dp_InventoryPreheatStatus p))" for p
    by (cases "?hit p") (simp_all add: pkey_def)
  have f: "fst (pkey (?m p)) = fst (pkey p)" for p by (cases "?hit p") (simp_all add: pkey_def)
  have "keysInv kt ?P' ?S (ct_Outbox c)"
  proof (rule keysInv_mark [OF keys])
    show "map fst ?P' = map fst ?P" using f by simp
    fix x assume "x \<in> set ?P'"
    then obtain p where p: "p \<in> set (ct_Programs c)" "x = pkey (?m p)" unfolding set_map image_image by (elim imageE)
    have "pkey p \<in> set ?P" using p(1) by simp
    with m [of p] active p(2) show "x \<in> set ?P \<or> (\<exists>i a k. x = (i, Some a, 2) \<and> (i, Some a, k) \<in> set ?P \<and> hasShow ?S i)"
      by (elim disjE conjE) (simp, metis)
  qed
  moreover have "cacheOk (rc_Program (ct_Caches c)) ?P'"
  proof (rule cacheOk_mark [OF keys cache])
    fix i openAt k assume "(i, openAt, k) \<in> set ?P"
    then obtain p where p: "p \<in> set (ct_Programs c)" "(i, openAt, k) = pkey p" unfolding set_map by (elim imageE)
    have "pkey (?m p) \<in> set ?P'" using p(1) unfolding set_map image_image by (rule imageI)
    with m [of p] active p(2) show "(i, openAt, k) \<in> set ?P' \<or> openAt \<noteq> None \<and> (i, openAt, 2) \<in> set ?P' \<and> hasShow ?S i"
      by (elim disjE conjE) (simp_all only: prod.inject simp_thms option.distinct not_Some_eq)
  qed
  ultimately have "catInv kt (c\<lparr>ct_Programs := map ?m (ct_Programs c)\<rparr>)" by (simp add: catInv_def)
  then show ?thesis by (simp add: preheatTx_def Let_def MarkTask_inv)
qed

lemma primeLedgers_frame:
  "primeLedgers env sts w = (r, w') \<Longrightarrow> \<exists>seats. pw_Catalogue w' = (pw_Catalogue w)\<lparr>ct_Seats := seats\<rparr>"
proof (induction sts arbitrary: w)
  case Nil
  then show ?case by (intro exI [of _ "ct_Seats (pw_Catalogue w)"]) simp
next
  case (Cons st sts)
  let ?x = "eval_ctx (he_LedgerRpc env st) (PrimeSeatLedger (he_Store env) (freezeEnvOf env (pw_Catalogue w)) st) (ct_Seats (pw_Catalogue w))"
  obtain r1 seats where x: "?x = (r1, seats)" by (rule prod.exhaust)
  show ?case
  proof (cases r1)
    case (Inl e)
    then show ?thesis using Cons.prems x by (intro exI [of _ seats]) auto
  next
    case (Inr y)
    then show ?thesis using Cons.IH [of "w\<lparr>pw_Catalogue := (pw_Catalogue w)\<lparr>ct_Seats := seats\<rparr>\<rparr>"] Cons.prems x by simp
  qed
qed

lemma Handle_inv:
  assumes inv: "catInv kt (pw_Catalogue w)"
  shows "catInv kt (pw_Catalogue (snd (Handle env payload w)))"
proof -
  let ?c = "pw_Catalogue w" and ?key = "preheatTaskKey (he_Cat env)"
  have marks: "catInv kt (pw_Catalogue (snd (markProcessed env key v)))" "catInv kt (pw_Catalogue (snd (markFailed env key e v)))"
    if "catInv kt (pw_Catalogue v)" for key e v
    using MarkTask_inv [OF that] by (simp_all add: markProcessed_def markFailed_def that split: option.splits)
  have rush: "pw_Catalogue w1 = ?c" if "primeRush env programID w = (r, w1)" for programID r w1
    using that by (auto simp: primeRush_def split: prod.splits)
  have main: "catInv kt (pw_Catalogue (snd (case primeRush env programID w of (Inl e, w1) \<Rightarrow> markFailed env (?key programID openTime) e w1
      | (Inr _, w1) \<Rightarrow> (case primeLedgers env matched w1 of (Inl e, w2) \<Rightarrow> markFailed env (?key programID openTime) e w2
      | (Inr _, w2) \<Rightarrow> (case MarkInventoryPreheatedByProgramAndTaskProcessed (he_MarkTx env) programID openTime (?key programID openTime) (he_Now env) (pw_Catalogue w2) of
          (Inl e, c) \<Rightarrow> (TaskRetry e, w2\<lparr>pw_Catalogue := c\<rparr>) | (Inr _, c) \<Rightarrow> (TaskDone, w2\<lparr>pw_Catalogue := c\<rparr>))))))"
    if m: "matchShows (he_Cat env) openTime (ListByProgramID ?c programID) = Some matched" "matched \<noteq> []" for programID openTime matched
  proof -
    have "ListByProgramID ?c programID \<noteq> []" using m by auto
    then obtain s where "s \<in> set (ListByProgramID ?c programID)" by (meson last_in_set)
    then have sh: "hasShow (map skey (ct_Shows ?c)) programID" by (auto simp: ListByProgramID_def showRecords_def hasShow_def skey_def)
    obtain r1 w1 where r1: "primeRush env programID w = (r1, w1)" by (rule prod.exhaust)
    obtain r2 w2 where r2: "primeLedgers env matched w1 = (r2, w2)" by (rule prod.exhaust)
    obtain seats where c2: "pw_Catalogue w2 = ?c\<lparr>ct_Seats := seats\<rparr>" using primeLedgers_frame [OF r2] rush [OF r1] by auto
    obtain r3 c3 where r3: "MarkInventoryPreheatedByProgramAndTaskProcessed (he_MarkTx env) programID openTime (?key programID openTime) (he_Now env) (pw_Catalogue w2) = (r3, c3)"
      by (rule prod.exhaust)
    have i2: "catInv kt (pw_Catalogue w2)" using inv by (simp add: c2)
    have "catInv kt c3"
      by (rule runTx_inv [OF r3 [unfolded MarkInventoryPreheatedByProgramAndTaskProcessed_def] i2])
        (use preheatTx_inv [OF i2, of programID openTime "?key programID openTime" "he_Now env"] sh in \<open>simp add: c2\<close>)
    moreover have "catInv kt (pw_Catalogue w1)" using inv rush [OF r1] by simp
    ultimately show ?thesis using marks i2 by (simp add: r1 r2 r3 split: sum.split)
  qed
  show ?thesis unfolding Handle_def Let_def using inv marks main
    by (auto simp: orFault_def split: option.splits prod.splits sum.splits if_splits)
qed

text \<open>The dispatcher, which runs on the outbox of the catalogue alone.\<close>

lemma hasTask_updateRow:
  assumes "\<forall>i a. hasTask kt ob i a \<longrightarrow> hasTask kt tbl i a" "\<And>row. dt_TaskType (f row) = dt_TaskType row \<and> dt_TaskKey (f row) = dt_TaskKey row"
  shows "\<exists>tbl'. updateRow k Q f [(db, tbl)] = [(db, tbl')] \<and> (\<forall>i a. hasTask kt ob i a \<longrightarrow> hasTask kt tbl' i a)"
proof -
  have "hasTask kt (map (\<lambda>row. if Q row then f row else row) tbl) i a" if "hasTask kt ob i a" for i a
    using assms(1) that by (intro hasTask_map) (simp_all add: assms(2))
  then show ?thesis using assms(1) by (simp add: updateRow_def)
qed

lemma dispatchLoop_tasks:
  assumes "\<forall>i a. hasTask kt ob i a \<longrightarrow> hasTask kt tbl i a"
  shows "\<exists>tbl'. snd (dispatchLoop denv n tasks [(db, tbl)]) = [(db, tbl')] \<and> (\<forall>i a. hasTask kt ob i a \<longrightarrow> hasTask kt tbl' i a)"
  using assms
proof (induction tasks arbitrary: n tbl)
  case (Cons task tasks)
  let ?mark = "case Publish (de_Enqueue denv) task of EnqueueError e \<Rightarrow> MarkPublishFailed (ta_DBKey task) (ta_ID task) (de_Now denv n) e
         | _ \<Rightarrow> MarkPublished (ta_DBKey task) (ta_ID task) (de_Now denv n)"
  have "\<exists>tbl'. snd (?mark [(db, tbl)]) = [(db, tbl')] \<and> (\<forall>i a. hasTask kt ob i a \<longrightarrow> hasTask kt tbl' i a)"
    using hasTask_updateRow [OF Cons.prems] Cons.prems by (simp add: MarkPublished_def MarkPublishFailed_def split: enqueueResult.splits)
  then obtain tbl' where t: "snd (eval_ctx (de_Fault denv n) ?mark [(db, tbl)]) = [(db, tbl')]" "\<forall>i a. hasTask kt ob i a \<longrightarrow> hasTask kt tbl' i a"
    using Cons.prems by (cases "de_Fault denv n") (auto simp: eval_ctx_def)
  obtain r where r: "eval_ctx (de_Fault denv n) ?mark [(db, tbl)] = (r, [(db, tbl')])" using t(1) by (metis prod.collapse)
  show ?case using Cons.IH [OF t(2)] t(2) by (cases r) (simp_all add: r)
qed simp

lemma preheatRun_inv:
  assumes inv: "catInv kt c"
  shows "catInv kt (snd (preheatRun denv flt ty c))"
proof -
  let ?dbs = "[(''program-db'', ct_Outbox c)]"
  obtain tbl where t: "snd (dispatchLoop denv 0 (ListDispatchableByTaskType ty ?dbs) ?dbs) = [(''program-db'', tbl)]"
    "\<forall>i a. hasTask kt (ct_Outbox c) i a \<longrightarrow> hasTask kt tbl i a"
    using dispatchLoop_tasks [of kt "ct_Outbox c" "ct_Outbox c"] by blast
  have keys: "keysInv kt (map pkey (ct_Programs c)) (map skey (ct_Shows c)) (ct_Outbox c)" using inv by (simp only: catInv_def)
  have "keysInv kt (map pkey (ct_Programs c)) (map skey (ct_Shows c)) tbl" by (rule keysInv_tasks [OF keys]) (use t(2) in blast)
  then have new: "catInv kt (c\<lparr>ct_Outbox := tbl\<rparr>)" using inv by (simp add: catInv_def)
  show ?thesis
  proof (cases flt)
    case None
    then show ?thesis using new t(1) by (simp add: preheatRun_def Run_def case_prod_unfold)
  qed (simp add: preheatRun_def Run_def inv)
qed

section \<open>The catalogue as a system\<close>

text \<open>Entries of the caches are filled from the tables and dropped at any time.\<close>

definition cacheMove :: "catalogue \<Rightarrow> programCaches \<Rightarrow> bool" where
  "cacheMove c k \<longleftrightarrow> (\<forall>i. rc_Program k i \<in> {rc_Program (ct_Caches c) i, None, Some (programRow (ct_Programs c) i)})"

inductive catStep :: "(int \<Rightarrow> string) \<Rightarrow> catalogue \<Rightarrow> catalogue \<Rightarrow> bool" for kt where
  create_program: "calm kt env c \<Longrightarrow> catStep kt c (snd (CreateProgram env cp c))"
| update_program: "calm kt env c \<Longrightarrow> catStep kt c (snd (UpdateProgram env up c))"
| create_show: "calm kt env c \<Longrightarrow> catStep kt c (snd (CreateProgramShowTime env cs c))"
| update_show: "calm kt env c \<Longrightarrow> catStep kt c (snd (UpdateProgramShowTime env us c))"
| create_category: "catStep kt c (snd (CreateTicketCategory env ct c))"
| create_seat: "catStep kt c (snd (CreateSeat env se c))"
| create_seats: "catStep kt c (snd (BatchCreateSeats env i items c))"
| reset: "catStep kt c (snd (ResetProgram env i c))"
| invalid: "catStep kt c (snd (InvalidProgram env i c))"
| kinds: "catStep kt c (snd (BatchCreateProgramCategories env ks c))"
| cache: "cacheMove c k \<Longrightarrow> catStep kt c (c\<lparr>ct_Caches := k\<rparr>)"
| dispatch: "catStep kt c (snd (preheatRun denv flt ty c))"
| preheat: "catStep kt (pw_Catalogue w) (pw_Catalogue (snd (Handle penv payload w)))"

lemma cacheMove_inv:
  assumes inv: "catInv kt c" and move: "cacheMove c k"
  shows "catInv kt (c\<lparr>ct_Caches := k\<rparr>)"
proof -
  let ?P = "map pkey (ct_Programs c)"
  have cache: "cacheOk (rc_Program (ct_Caches c)) ?P" using inv by (simp only: catInv_def)
  have "cacheOk (rc_Program k) ?P" unfolding cacheOk_def
  proof (intro allI impI)
    fix i p assume p: "rc_Program k i = Some (Some p)"
    have "rc_Program (ct_Caches c) i = Some (Some p) \<or> programRow (ct_Programs c) i = Some p"
      using move [unfolded cacheMove_def, rule_format, of i] unfolding p insert_iff empty_iff by (elim disjE) simp_all
    then show "dp_Id p = i \<and> (\<exists>s. (i, dp_RushSaleOpenTime p, s) \<in> set ?P \<and> (s = dp_InventoryPreheatStatus p \<or> dp_InventoryPreheatStatus p = 1 \<and> s = 2))"
    proof
      assume "rc_Program (ct_Caches c) i = Some (Some p)"
      with cache show ?thesis unfolding cacheOk_def by (elim allE impE)
    next
      assume row: "programRow (ct_Programs c) i = Some p"
      have "pkey p \<in> set ?P" using programRow_key(1) [OF row] by simp
      then show ?thesis unfolding pkey_def using programRow_key(2) [OF row] by (intro conjI exI [of _ "dp_InventoryPreheatStatus p"]) simp_all
    qed
  qed
  with inv show ?thesis by (simp add: catInv_def)
qed

lemmas handlers_inv = CreateProgram_inv UpdateProgram_inv CreateProgramShowTime_inv UpdateProgramShowTime_inv CreateTicketCategory_inv
  CreateSeat_inv BatchCreateSeats_inv ResetProgram_inv InvalidProgram_inv BatchCreateProgramCategories_inv cacheMove_inv preheatRun_inv Handle_inv

lemma catStep_inv:
  assumes "catInv kt c" "catStep kt c c'" shows "catInv kt c'"
  using assms(2,1) by cases (simp_all only: handlers_inv)

interpretation catalogue_sys: step_invariant "catStep kt" "catInv kt" for kt
  by unfold_locales (rule catStep_inv)

definition emptyCatalogue :: "catalogue \<Rightarrow> bool" where
  "emptyCatalogue c \<longleftrightarrow> ct_Programs c = [] \<and> ct_Shows c = [] \<and> rc_Program (ct_Caches c) = Map.empty"


section \<open>A program is put on sale\<close>

definition demoStart :: catalogue where
  "demoStart = demoCatalogue\<lparr>ct_Groups := [\<lparr>dg_Id = 3, dg_ProgramJson = [], dg_RecentShowTime = None, dg_CreateTime = 0, dg_EditTime = 0, dg_Status = 1\<rparr>],
     ct_Programs := [], ct_Shows := [], ct_Categories := [], ct_Outbox := []\<rparr>"

definition demoCreated :: catalogue where
  "demoCreated = snd (CreateProgram demoCatEnv demoProgramReq demoStart)"

definition demoShowReq :: ProgramShowTimeAddReq where
  "demoShowReq = \<lparr>sr_ProgramId = 60, sr_ShowTime = ''s'', sr_ShowDayTime = [], sr_ShowWeekTime = ''w'', sr_ShowEndTime = []\<rparr>"

definition demoOnSale :: catalogue where
  "demoOnSale = snd (CreateProgramShowTime demoCatEnv demoShowReq demoCreated)"

lemma demo_sale_calm: "calm demoPrint demoCatEnv demoStart" "calm demoPrint demoCatEnv demoCreated"
proof -
  have "ct_Shows demoCreated = []" "ct_Outbox demoCreated = []" by code_simp+
  then show "calm demoPrint demoCatEnv demoStart" "calm demoPrint demoCatEnv demoCreated"
    by (simp_all add: calm_def demoCatEnv_def demoStart_def)
qed

lemma demo_sale: "(catStep demoPrint)\<^sup>*\<^sup>* demoStart demoOnSale"
  using catStep.create_program [OF demo_sale_calm(1), of demoProgramReq] catStep.create_show [OF demo_sale_calm(2), of demoShowReq]
  unfolding demoCreated_def [symmetric] demoOnSale_def [symmetric] by (meson r_into_rtranclp rtranclp_trans)


end
