(* ===== verification/CatalogueGuards.thy ===== *)
theory CatalogueGuards
  imports CatalogueProps
begin

text \<open>
  The inventory of a program: which seats the batch handler lays out, when the guard of a preheated
  program holds, and what can be built through the handlers alone.
\<close>

section \<open>Seats in rows of ten\<close>

text \<open>The seats of one item, in the order they are inserted.\<close>

definition batchSeat :: "catalogueEnv \<Rightarrow> int \<Rightarrow> SeatBatchItem \<Rightarrow> nat \<Rightarrow> int \<Rightarrow> int \<Rightarrow> DSeat" where
  "batchSeat env programID item k row col = newSeat env (ge_Ids env k) programID (bi_TicketCategoryId item) row col 1 (bi_Price item) 1"

definition spot :: "DSeat \<Rightarrow> int \<times> int" where
  "spot s = (ds_RowCode s, ds_ColCode s)"

text \<open>New seats of a batch between two rows.\<close>

definition laidOut :: "int \<Rightarrow> int \<Rightarrow> int \<Rightarrow> DSeat list \<Rightarrow> bool" where
  "laidOut programID low high new \<longleftrightarrow> low \<le> high \<and> distinct (map spot new)
     \<and> (\<forall>s \<in> set new. ds_ProgramId s = programID \<and> ds_ShowTimeId s = 0 \<and> ds_SeatStatus s = 1 \<and> ds_Status s = 1
          \<and> low < ds_RowCode s \<and> ds_RowCode s \<le> high \<and> 1 \<le> ds_ColCode s \<and> ds_ColCode s \<le> 10)"

lemma laidOut_append:
  assumes "laidOut i a b xs" "laidOut i b c ys"
  shows "laidOut i a c (xs @ ys)"
proof -
  have "spot ` set xs \<inter> spot ` set ys = {}" using assms by (fastforce simp: laidOut_def spot_def)
  then show ?thesis using assms by (fastforce simp: laidOut_def)
qed

lemma insertCols_seats:
  assumes "insertCols env programID item row cols k tb = Inr (k', tb')"
  shows "\<exists>ks. length ks = length cols \<and> tb' = tb @ map (\<lambda>(k, col). batchSeat env programID item k row col) (zip ks cols)"
  using assms
proof (induction cols arbitrary: k tb)
  case (Cons col cols)
  let ?s = "batchSeat env programID item k row col"
  have "insertCols env programID item row cols (Suc k) (tb @ [?s]) = Inr (k', tb')"
    using Cons.prems by (auto simp: InsertSeat_def batchSeat_def split: if_splits)
  from Cons.IH [OF this] obtain ks where
    "length ks = length cols" "tb' = (tb @ [?s]) @ map (\<lambda>(k, col). batchSeat env programID item k row col) (zip ks cols)" by blast
  then show ?case by (intro exI [of _ "k # ks"]) simp
qed simp

lemma row_laidOut:
  assumes "length ks = length [1..n]" "n \<le> 10"
  shows "laidOut programID (row - 1) row (map (\<lambda>(k, col). batchSeat env programID item k row col) (zip ks [1..n]))"
proof -
  let ?new = "map (\<lambda>(k, col). batchSeat env programID item k row col) (zip ks [1..n])"
  have "map ds_ColCode ?new = [1..n]" using assms(1) by (simp add: batchSeat_def newSeat_def o_def case_prod_unfold)
  then have "distinct (map ds_ColCode ?new)" by simp
  then have "distinct (map spot ?new)" by (simp add: distinct_map inj_on_def spot_def)
  then show ?thesis using assms(2) by (auto simp: laidOut_def batchSeat_def newSeat_def dest: set_zip_rightD)
qed

lemma fillRows_seats:
  assumes "fillRows env programID item remaining row k tb = Inr (row', k', tb')"
  shows "\<exists>new. tb' = tb @ new \<and> length new = nat remaining \<and> laidOut programID row row' new
    \<and> (\<forall>s \<in> set new. ds_TicketCategoryId s = bi_TicketCategoryId item \<and> ds_Price s = bi_Price item)"
  using assms
proof (induction env programID item remaining row k tb rule: fillRows.induct)
  case (1 env programID item remaining row k tb)
  note step = fillRows.simps [of env programID item remaining row k tb]
  show ?case
  proof (cases "remaining \<le> 0")
    case True
    then show ?thesis using "1.prems" by (auto simp: step laidOut_def)
  next
    case False
    let ?n = "if remaining < 10 then remaining else 10"
    obtain k1 tb1 where i: "insertCols env programID item (row + 1) [1..?n] k tb = Inr (k1, tb1)"
      and rest: "fillRows env programID item (remaining - ?n) (row + 1) k1 tb1 = Inr (row', k', tb')"
      using "1.prems" False unfolding step Let_def
      by (cases "insertCols env programID item (row + 1) [1..?n] k tb") (simp, fastforce)
    obtain ks where ks: "length ks = length [1..?n]" "tb1 = tb @ map (\<lambda>(k, col). batchSeat env programID item k (row + 1) col) (zip ks [1..?n])"
      using insertCols_seats [OF i] by blast
    let ?new = "map (\<lambda>(k, col). batchSeat env programID item k (row + 1) col) (zip ks [1..?n])"
    obtain new where new: "tb' = tb1 @ new" "length new = nat (remaining - ?n)" "laidOut programID (row + 1) row' new"
      "\<forall>s \<in> set new. ds_TicketCategoryId s = bi_TicketCategoryId item \<and> ds_Price s = bi_Price item"
      using "1.IH" [OF False refl i refl rest] by blast
    have "laidOut programID row (row + 1) ?new" using row_laidOut [OF ks(1), of programID "row + 1"] by simp
    with new(3) have "laidOut programID row row' (?new @ new)" by (rule laidOut_append [rotated])
    moreover have "length (?new @ new) = nat remaining" using ks(1) new(2) False by (auto simp: nat_diff_distrib)
    moreover have "\<forall>s \<in> set (?new @ new). ds_TicketCategoryId s = bi_TicketCategoryId item \<and> ds_Price s = bi_Price item"
      using new(4) by (auto simp: batchSeat_def newSeat_def)
    ultimately show ?thesis using ks(2) new(1) by (intro exI [of _ "?new @ new"]) simp
  qed
qed

lemma batchItems_seats:
  assumes "batchItems env programID items i c row k tb = Inr tb'" "\<And>item. item \<in> set items \<Longrightarrow> 0 < bi_Count item"
  shows "\<exists>new row'. tb' = tb @ new \<and> laidOut programID row row' new
    \<and> (\<forall>x. int (length (filter (\<lambda>s. ds_TicketCategoryId s = x) new)) = sum_list (map bi_Count (filter (\<lambda>item. bi_TicketCategoryId item = x) items)))"
  using assms
proof (induction items arbitrary: i row k tb)
  case Nil
  then show ?case by (auto simp: laidOut_def)
next
  case (Cons item items)
  obtain row1 k1 tb1 where f: "fillRows env programID item (bi_Count item) row k tb = Inr (row1, k1, tb1)"
    and rest: "batchItems env programID items (Suc (Suc i)) c row1 k1 tb1 = Inr tb'"
    using Cons.prems(1) by (auto split: sum.splits)
  obtain a where a: "tb1 = tb @ a" "length a = nat (bi_Count item)" "laidOut programID row row1 a"
    "\<forall>s \<in> set a. ds_TicketCategoryId s = bi_TicketCategoryId item" using fillRows_seats [OF f] by blast
  obtain b row' where b: "tb' = tb1 @ b" "laidOut programID row1 row' b"
    "\<forall>x. int (length (filter (\<lambda>s. ds_TicketCategoryId s = x) b)) = sum_list (map bi_Count (filter (\<lambda>item. bi_TicketCategoryId item = x) items))"
    using Cons.IH [OF rest] Cons.prems(2) by auto
  have "filter (\<lambda>s. ds_TicketCategoryId s = x) a = (if bi_TicketCategoryId item = x then a else [])" for x
    using a(4) by (auto simp: filter_id_conv filter_empty_conv)
  then have "int (length (filter (\<lambda>s. ds_TicketCategoryId s = x) (a @ b)))
      = sum_list (map bi_Count (filter (\<lambda>item. bi_TicketCategoryId item = x) (item # items)))" for x
    using a(2) b(3) Cons.prems(2) [of item] by simp
  with laidOut_append [OF a(3) b(2)] show ?case using a(1) b(1) by (intro exI [of _ "a @ b"] exI [of _ row']) simp
qed

lemma foldl_rows: "foldl (\<lambda>r s. if r < ds_RowCode s then ds_RowCode s else r) r0 ss = foldl (\<lambda>r s. max r (ds_RowCode s)) r0 ss"
  by (induction ss arbitrary: r0) (auto simp: max_def)

lemma foldl_max: "s \<in> set ss \<Longrightarrow> ds_RowCode s \<le> foldl (\<lambda>r s. max r (ds_RowCode s)) r0 ss" "r0 \<le> foldl (\<lambda>r s. max r (ds_RowCode s)) r0 ss"
proof (induction ss arbitrary: r0)
  case (Cons x ss)
  { case 1 then show ?case using Cons.IH [of "max r0 (ds_RowCode x)"] by (auto intro: order_trans [of _ "max r0 (ds_RowCode x)"]) }
  { case 2 then show ?case using Cons.IH(2) [of "max r0 (ds_RowCode x)"] by simp }
qed simp_all

lemma highestRow_above: "s \<in> set tb \<Longrightarrow> ds_ProgramId s = programID \<Longrightarrow> ds_Status s = 1 \<Longrightarrow> ds_RowCode s \<le> highestRow tb programID"
  unfolding highestRow_def foldl_rows by (rule foldl_max(1)) (simp add: FindByProgramID_def)

text \<open>
  A batch of seats that succeeds adds for every ticket category exactly as many seats as its items ask
  for, all free, no two of them in the same row and column, in rows of at most ten above every row
  the program has had so far.
\<close>

theorem batch_seats_exact:
  assumes run: "BatchCreateSeats env programID items c = (Inr b, c')"
  shows "\<exists>new. wtable (ct_Seats c') = wtable (ct_Seats c) @ new
    \<and> (\<forall>x. int (length (filter (\<lambda>s. ds_TicketCategoryId s = x) new)) = sum_list (map bi_Count (filter (\<lambda>item. bi_TicketCategoryId item = x) items)))
    \<and> distinct (map (\<lambda>s. (ds_RowCode s, ds_ColCode s)) new)
    \<and> (\<forall>s \<in> set new. ds_ProgramId s = programID \<and> ds_SeatStatus s = 1 \<and> 1 \<le> ds_ColCode s \<and> ds_ColCode s \<le> 10
        \<and> (\<forall>s0 \<in> set (wtable (ct_Seats c)). ds_ProgramId s0 = programID \<longrightarrow> ds_Status s0 = 1 \<longrightarrow> ds_RowCode s0 < ds_RowCode s))"
proof -
  let ?tb = "wtable (ct_Seats c)"
  obtain c1 where tx: "runTx (ge_Tx env) (batchTx env programID items) c = (Inr (), c1)"
    and cl: "clearProgramSeatLedgers env (1 + 2 * length items) programID (map bi_TicketCategoryId items) c1 = (Inr (), c')"
    and pos: "\<And>item. item \<in> set items \<Longrightarrow> 0 < bi_Count item"
    using run by (auto simp: BatchCreateSeats_def not_le split: if_splits sum.splits prod.splits)
  obtain tb where b: "batchItems env programID items 1 c (highestRow ?tb programID) 0 ?tb = Inr tb" and c1: "wtable (ct_Seats c1) = tb"
    using tx by (auto simp: runTx_def batchTx_def split: sum.splits txfault.splits)
  have c': "wtable (ct_Seats c') = tb" using clear_table [OF cl] c1 by simp
  obtain new high where new: "tb = ?tb @ new" "laidOut programID (highestRow ?tb programID) high new"
    "\<forall>x. int (length (filter (\<lambda>s. ds_TicketCategoryId s = x) new)) = sum_list (map bi_Count (filter (\<lambda>item. bi_TicketCategoryId item = x) items))"
    using batchItems_seats [OF b pos] by blast
  have "ds_RowCode s0 < ds_RowCode s" if "s \<in> set new" "s0 \<in> set ?tb" "ds_ProgramId s0 = programID" "ds_Status s0 = 1" for s s0
    using highestRow_above [OF that(2-4)] new(2) that(1) by (fastforce simp: laidOut_def)
  moreover have "distinct (map (\<lambda>s. (ds_RowCode s, ds_ColCode s)) new)"
    using new(2) unfolding laidOut_def spot_def [abs_def] by (elim conjE)
  ultimately show ?thesis using new c' by (intro exI [of _ new] conjI ballI) (simp_all add: laidOut_def)
qed

definition demoItem :: SeatBatchItem where
  "demoItem = \<lparr>bi_TicketCategoryId = 7, bi_Price = 680, bi_Count = 12\<rparr>"

theorem batch_seats_exact_witness:
  "\<exists>new. wtable (ct_Seats (snd (BatchCreateSeats demoCatEnv 5 [demoItem] demoCatalogue))) = wtable (ct_Seats demoCatalogue) @ new
    \<and> length (filter (\<lambda>s. ds_TicketCategoryId s = 7) new) = 12"
proof -
  have "fst (BatchCreateSeats demoCatEnv 5 [demoItem] demoCatalogue) = Inr True" by code_simp
  then have "BatchCreateSeats demoCatEnv 5 [demoItem] demoCatalogue = (Inr True, snd (BatchCreateSeats demoCatEnv 5 [demoItem] demoCatalogue))"
    by (metis prod.collapse)
  from batch_seats_exact [OF this] obtain new where new:
    "wtable (ct_Seats (snd (BatchCreateSeats demoCatEnv 5 [demoItem] demoCatalogue))) = wtable (ct_Seats demoCatalogue) @ new"
    "\<forall>x. int (length (filter (\<lambda>s. ds_TicketCategoryId s = x) new)) = sum_list (map bi_Count (filter (\<lambda>item. bi_TicketCategoryId item = x) [demoItem]))"
    by (elim exE conjE)
  have "int (length (filter (\<lambda>s. ds_TicketCategoryId s = 7) new)) = 12" using new(2) [rule_format, of 7] by (simp add: demoItem_def)
  with new(1) show ?thesis by (intro exI [of _ new]) simp
qed

section \<open>The guard of a preheated program\<close>

lemma mapInventory_preheated: "mapInventoryMutationError (Sentinel ErrProgramInventoryPreheated) = Status CFailedPrecondition ErrProgramInventoryPreheated"
  by (simp add: mapInventoryMutationError_def)

lemma ensureProgram_preheated:
  assumes "cachedProgram c i = Inr p" "dp_InventoryPreheatStatus p = 2"
  shows "\<exists>e. ensureProgramInventoryMutable env k i c = Inl e"
    and "0 < i \<Longrightarrow> ge_Fault env k = None \<Longrightarrow> ensureProgramInventoryMutable env k i c = Inl (Sentinel ErrProgramInventoryPreheated)"
  using assms by (auto simp: ensureProgramInventoryMutable_def ensureProgramInventoryMutableRecord_def ifMissing_def orFault_def split: option.splits)

lemma checkSeatCategory_preheated:
  assumes "cachedShow c (tc_ShowTimeId t) = Inr s" "cachedProgram c (sh_ProgramId s) = Inr p" "dp_InventoryPreheatStatus p = 2"
    and "category = Inr t \<or> isl category"
  shows "\<exists>e. checkSeatCategory env k i category c = Inl e"
proof -
  have "\<exists>e. ensureShowTimeInventoryMutable env k (tc_ShowTimeId t) c = Inl e"
    using ensureProgram_preheated(1) [OF assms(2,3), of env "Suc k"] assms(1)
    by (auto simp: ensureShowTimeInventoryMutable_def ifMissing_def orFault_def split: option.splits)
  then show ?thesis using assms(4) by (auto simp: checkSeatCategory_def ifMissing_def isl_def)
qed

lemma batchItems_refused:
  assumes "item \<in> set items" "\<And>k. \<exists>e. checkSeatCategory env k programID (orNotFound (categoryRow (ct_Categories c) (bi_TicketCategoryId item))) c = Inl e"
  shows "\<exists>e. batchItems env programID items i c row k tb = Inl e"
  using assms(1)
proof (induction items arbitrary: i row k tb)
  case (Cons x items)
  show ?case
  proof (cases "x = item")
    case True
    with assms(2) [of i] show ?thesis by auto
  next
    case False
    with Cons have "item \<in> set items" by simp
    with Cons.IH [OF this] show ?thesis by (auto split: sum.split)
  qed
qed simp

lemma BatchCreateSeats_refused:
  assumes "item \<in> set items" "\<And>k. \<exists>e. checkSeatCategory env k programID (orNotFound (categoryRow (ct_Categories c) (bi_TicketCategoryId item))) c = Inl e"
  shows "\<exists>e. BatchCreateSeats env programID items c = (Inl e, c)"
proof -
  obtain e where "batchItems env programID items 1 c (highestRow (wtable (ct_Seats c)) programID) 0 (wtable (ct_Seats c)) = Inl e"
    using batchItems_refused [OF assms] by blast
  then have "runTx (ge_Tx env) (batchTx env programID items) c = (Inl e, c)" by (simp add: runTx_def batchTx_def)
  then show ?thesis by (auto simp: BatchCreateSeats_def split: sum.split)
qed

text \<open>
  The inventory of a program whose row, as the service reads it, is marked as preheated is closed: no
  ticket category is added to it, and neither single seats nor a batch with one item for a category
  of one of its shows change anything. A well-formed request gets the error for a preheated inventory.
\<close>

theorem preheated_inventory_fixed:
  assumes p: "cachedProgram c i = Inr p" "dp_InventoryPreheatStatus p = 2"
    and t: "categoryRow (ct_Categories c) x = Some t" "cachedShow c (tc_ShowTimeId t) = Inr s" "sh_ProgramId s = i"
    and req: "ta_ProgramId req = i" "sa_TicketCategoryId seat = x" "item \<in> set items" "bi_TicketCategoryId item = x"
  shows "(\<exists>e. CreateTicketCategory env req c = (Inl e, c)) \<and> (\<exists>e. CreateSeat env seat c = (Inl e, c))
    \<and> (\<exists>e. BatchCreateSeats env programID items c = (Inl e, c))
    \<and> (0 < i \<longrightarrow> trim_space (ta_Introduce req) \<noteq> [] \<longrightarrow> 0 < ta_Price req \<longrightarrow> 0 < ta_TotalNumber req \<longrightarrow> (\<forall>k. ge_Fault env k = None) \<longrightarrow>
        fst (CreateTicketCategory env req c) = Inl (Status CFailedPrecondition ErrProgramInventoryPreheated))"
proof (intro conjI impI)
  note pre = ensureProgram_preheated [OF p]
  show "\<exists>e. CreateTicketCategory env req c = (Inl e, c)"
    using pre(1) [of env 1] p req(1) by (auto simp: CreateTicketCategory_def ifMissing_def orFault_def split: option.splits)
  have cat: "\<exists>e. checkSeatCategory env k j category c = Inl e" if "category = Inr t \<or> isl category" for k j category
    by (rule checkSeatCategory_preheated [OF t(2) _ p(2) that]) (simp add: t(3) p(1))
  then have "\<exists>e. checkSeatCategory env 2 (sa_ProgramId seat)
      (orFault (ge_Fault env 1) (orNotFound (categoryRow (ct_Categories c) (sa_TicketCategoryId seat)))) c = Inl e"
    unfolding req(2) t(1) by (intro cat) (simp add: orFault_def orNotFound_def split: option.split)
  then show "\<exists>e. CreateSeat env seat c = (Inl e, c)" by (auto simp: CreateSeat_def split: sum.split)
  show "\<exists>e. BatchCreateSeats env programID items c = (Inl e, c)"
    by (rule BatchCreateSeats_refused [OF req(3)]) (simp add: req(4) t(1) orNotFound_def cat)
  show "fst (CreateTicketCategory env req c) = Inl (Status CFailedPrecondition ErrProgramInventoryPreheated)"
    if "0 < i" "trim_space (ta_Introduce req) \<noteq> []" "0 < ta_Price req" "0 < ta_TotalNumber req" "\<forall>k. ge_Fault env k = None"
    using that p req(1) pre(2) [of env 1] mapInventory_preheated by (simp add: CreateTicketCategory_def ifMissing_def orFault_def)
qed

definition demoPreheated :: catalogue where
  "demoPreheated = demoCatalogue\<lparr>ct_Programs := [demoProgramRow\<lparr>dp_InventoryPreheatStatus := 2\<rparr>]\<rparr>"

definition demoAddCategory :: TicketCategoryAddReq where
  "demoAddCategory = \<lparr>ta_ProgramId = 5, ta_Introduce = ''o'', ta_Price = 300, ta_TotalNumber = 20, ta_RemainNumber = 0\<rparr>"

definition demoAddSeat :: SeatAddReq where
  "demoAddSeat = \<lparr>sa_ProgramId = 5, sa_TicketCategoryId = 7, sa_RowCode = 8, sa_ColCode = 1, sa_SeatType = 1, sa_Price = 680, sa_SeatStatus = 0\<rparr>"

lemma demoProgramRow_id: "dp_Id demoProgramRow = 5"
  by code_simp

theorem preheated_inventory_fixed_witness:
  "CreateTicketCategory demoCatEnv demoAddCategory demoPreheated = (Inl (Status CFailedPrecondition ErrProgramInventoryPreheated), demoPreheated)
   \<and> snd (CreateSeat demoCatEnv demoAddSeat demoPreheated) = demoPreheated
   \<and> snd (BatchCreateSeats demoCatEnv 5 [demoItem] demoPreheated) = demoPreheated"
proof -
  have p: "cachedProgram demoPreheated 5 = Inr (demoProgramRow\<lparr>dp_InventoryPreheatStatus := 2\<rparr>)"
    by (simp add: cachedProgram_def readThrough_def demoPreheated_def demoCatalogue_def noCaches_def programRow_def demoProgramRow_id orNotFound_def)
  have t: "categoryRow (ct_Categories demoPreheated) 7 = Some demoCategoryRow" "cachedShow demoPreheated (tc_ShowTimeId demoCategoryRow) = Inr demoShowRow"
    by (simp_all add: demoPreheated_def demoCatalogue_def categoryRow_def demoCategoryRow_def cachedShow_def readThrough_def noCaches_def showRow_def
        demoShowRow_def orNotFound_def)
  have r: "ta_ProgramId demoAddCategory = 5" "sa_TicketCategoryId demoAddSeat = 7" "bi_TicketCategoryId demoItem = 7" "sh_ProgramId demoShowRow = 5"
    "trim_space (ta_Introduce demoAddCategory) \<noteq> []" "0 < ta_Price demoAddCategory" "0 < ta_TotalNumber demoAddCategory" "\<forall>k. ge_Fault demoCatEnv k = None"
    by (simp_all add: demoAddCategory_def demoAddSeat_def demoItem_def demoShowRow_def demoCatEnv_def)
  from preheated_inventory_fixed [of demoPreheated 5 _ 7 demoCategoryRow demoShowRow demoAddCategory demoAddSeat demoItem "[demoItem]" demoCatEnv 5, OF p _ t r(4) r(1,2) _ r(3)]
  show ?thesis using r by auto
qed

section \<open>A cached row outlives the mark\<close>

lemma primeLedgers_table: "primeLedgers env sts w = (r, w') \<Longrightarrow> wtable (ct_Seats (pw_Catalogue w')) = wtable (ct_Seats (pw_Catalogue w))"
proof (induction sts arbitrary: w)
  case (Cons st sts)
  let ?fe = "freezeEnvOf env (pw_Catalogue w)" and ?s = "ct_Seats (pw_Catalogue w)"
  have f: "wtable (fold (\<lambda>c w. if c \<le> 0 then w else setLedger st c (F w c) w) ys v) = wtable v" for F ys v
    by (induction ys arbitrary: v) (auto simp: setLedger_def)
  have "wtable (snd (PrimeSeatLedger (he_Store env) ?fe st ?s)) = wtable ?s"
    using f [where F = "\<lambda>w c. loadWithContext (he_Store env) (eNow ?fe) (wtable w) st c (wledger w st c)"]
    by (auto simp: PrimeSeatLedger_def primeSeatLedger_def split: sum.splits if_splits)
  then have "wtable (snd (eval_ctx (he_LedgerRpc env st) (PrimeSeatLedger (he_Store env) ?fe st) ?s)) = wtable ?s"
    by (cases "he_LedgerRpc env st") (simp_all add: eval_ctx_def)
  moreover obtain r1 s1 where x: "eval_ctx (he_LedgerRpc env st) (PrimeSeatLedger (he_Store env) ?fe st) ?s = (r1, s1)" by (rule prod.exhaust)
  ultimately have s1: "wtable s1 = wtable ?s" by simp
  show ?case
  proof (cases r1)
    case Inl
    then show ?thesis using Cons.prems x s1 by auto
  next
    case Inr
    then show ?thesis using Cons.prems x s1 Cons.IH [of "w\<lparr>pw_Catalogue := (pw_Catalogue w)\<lparr>ct_Seats := s1\<rparr>\<rparr>"] by simp
  qed
qed simp

text \<open>What a task leaves alone.\<close>

definition taskFrame :: "catalogue \<Rightarrow> catalogue \<Rightarrow> bool" where
  "taskFrame c c' \<longleftrightarrow> ct_Caches c' = ct_Caches c \<and> ct_Categories c' = ct_Categories c \<and> ct_Shows c' = ct_Shows c
     \<and> wtable (ct_Seats c') = wtable (ct_Seats c)"

lemma taskFrame_marks: "taskFrame c d \<Longrightarrow> taskFrame c (MarkTaskProcessed key t d)" "taskFrame c d \<Longrightarrow> taskFrame c (MarkTaskConsumeFailed key t e d)"
  "taskFrame c d \<Longrightarrow> taskFrame c (snd (preheatTx i a key t d))"
  by (simp_all add: taskFrame_def MarkTaskProcessed_def MarkTaskConsumeFailed_def preheatTx_def Let_def)

lemma Handle_frame: "taskFrame (pw_Catalogue w) (pw_Catalogue (snd (Handle env payload w)))"
proof -
  let ?c = "pw_Catalogue w"
  have marks: "taskFrame ?c (pw_Catalogue (snd (markProcessed env key v)))" "taskFrame ?c (pw_Catalogue (snd (markFailed env key e v)))"
    if "taskFrame ?c (pw_Catalogue v)" for key e v
    using taskFrame_marks [OF that] that by (simp_all add: markProcessed_def markFailed_def split: option.splits)
  have self: "taskFrame ?c ?c" by (simp add: taskFrame_def)
  have rush: "taskFrame ?c (pw_Catalogue w1)" if "primeRush env programID w = (r, w1)" for programID r w1
    using that self by (auto simp: primeRush_def split: prod.splits)
  have led: "taskFrame ?c (pw_Catalogue w2)" if "primeLedgers env sts w1 = (r, w2)" "taskFrame ?c (pw_Catalogue w1)" for sts r w1 w2
    using primeLedgers_frame [OF that(1)] primeLedgers_table [OF that(1)] that(2) by (auto simp: taskFrame_def)
  have tx: "taskFrame ?c c3" if "MarkInventoryPreheatedByProgramAndTaskProcessed flt i a key t d = (r, c3)" "taskFrame ?c d" for flt i a key t d r c3
    using that taskFrame_marks(3) [OF that(2), of i a key t]
    by (auto simp: MarkInventoryPreheatedByProgramAndTaskProcessed_def runTx_def preheatTx_def Let_def split: txfault.splits)
  show ?thesis unfolding Handle_def Let_def using self marks rush led tx
    by (auto simp: orFault_def split: option.splits prod.splits sum.splits if_splits)
qed

text \<open>
  The guard reads a cached row, and the preheating job, which marks the program in the table, does not drop it:
  after a finished task, as long as a row cached before lives, a ticket category can be added to the
  program although its inventory is preheated.
\<close>

theorem preheated_guard_stale:
  assumes run: "Handle env payload w = (TaskDone, w')" and stale: "rc_Program (ct_Caches (pw_Catalogue w)) (ta_ProgramId req) = Some (Some p)"
    and st: "dp_InventoryPreheatStatus p = 1"
    and req: "0 < ta_ProgramId req" "trim_space (ta_Introduce req) \<noteq> []" "0 < ta_Price req" "0 < ta_TotalNumber req"
    and cenv: "\<And>k. ge_Fault cenv k = None" "ge_Ids cenv 0 \<notin> tc_Id ` set (ct_Categories (pw_Catalogue w))"
  shows "fst (CreateTicketCategory cenv req (pw_Catalogue w')) = Inr (ge_Ids cenv 0)"
proof -
  have fr: "taskFrame (pw_Catalogue w) (pw_Catalogue w')" using Handle_frame [of w env payload] run by simp
  then have "cachedProgram (pw_Catalogue w') (ta_ProgramId req) = Inr p" using stale
    by (simp add: taskFrame_def cachedProgram_def readThrough_def orNotFound_def)
  moreover have "ct_Categories (pw_Catalogue w') = ct_Categories (pw_Catalogue w)" using fr by (simp add: taskFrame_def)
  ultimately show ?thesis using st req cenv
    by (simp add: CreateTicketCategory_def ifMissing_def orFault_def ensureProgramInventoryMutable_def ensureProgramInventoryMutableRecord_def
        InsertWithCreateTime_def)
qed

definition demoStaleWorld :: preheatWorld where
  "demoStaleWorld = demoPreheatWorld\<lparr>pw_Catalogue := demoCatalogue\<lparr>ct_Caches := noCaches\<lparr>rc_Program := [5 \<mapsto> Some (demoProgramRow\<lparr>dp_InventoryPreheatStatus := 1\<rparr>)]\<rparr>\<rparr>\<rparr>"

theorem preheated_guard_stale_witness:
  "map dp_InventoryPreheatStatus (ct_Programs (pw_Catalogue (snd (Handle demoPreheatEnv ''o'' demoStaleWorld)))) = [2]
   \<and> fst (CreateTicketCategory demoCatEnv demoAddCategory (pw_Catalogue (snd (Handle demoPreheatEnv ''o'' demoStaleWorld)))) = Inr 60"
proof -
  have "fst (Handle demoPreheatEnv ''o'' demoStaleWorld) = TaskDone" by code_simp
  then have run: "Handle demoPreheatEnv ''o'' demoStaleWorld = (TaskDone, snd (Handle demoPreheatEnv ''o'' demoStaleWorld))" by (metis prod.collapse)
  have "map dp_InventoryPreheatStatus (ct_Programs (pw_Catalogue (snd (Handle demoPreheatEnv ''o'' demoStaleWorld)))) = [2]" by code_simp
  then show ?thesis
    using preheated_guard_stale [OF run, of demoAddCategory "demoProgramRow\<lparr>dp_InventoryPreheatStatus := 1\<rparr>" demoCatEnv]
    by (simp add: demoStaleWorld_def demoAddCategory_def demoCatEnv_def demoCatalogue_def demoCategoryRow_def)
qed

section \<open>What the handlers alone can build\<close>

text \<open>No category has a show and there are no seats.\<close>

definition barren :: "catalogue \<Rightarrow> bool" where
  "barren c \<longleftrightarrow> (\<forall>t \<in> set (ct_Categories c). tc_ShowTimeId t = 0) \<and> wtable (ct_Seats c) = []"

lemma barren_frame: "barren c \<Longrightarrow> ct_Categories c' = ct_Categories c \<Longrightarrow> wtable (ct_Seats c') = wtable (ct_Seats c) \<Longrightarrow> barren c'"
  by (simp add: barren_def)

lemma barren_invalidate [simp]: "barren (InvalidateProgram env i gs c) = barren c" "barren (InvalidateCategorySnapshot c) = barren c"
  by (simp_all add: barren_def InvalidateProgram_def InvalidateCategorySnapshot_def)

lemma barren_runTx:
  assumes "barren c" "\<And>a c1. f c = (Inr a, c1) \<Longrightarrow> barren c1" "runTx flt f c = (r, c')"
  shows "barren c'"
  using assms by (cases "f c"; cases "fst (f c)") (auto simp: runTx_def split: txfault.splits)

lemma schedule_barren: "scheduleRushInventoryPreheat env p c = (r, c') \<Longrightarrow> barren c \<Longrightarrow> barren c'"
  by (auto simp: scheduleRushInventoryPreheat_def EnqueueWithConn_def barren_def split: option.splits if_splits)

lemma programTx_barren:
  assumes "barren c"
  shows "createProgramTx env data c = (Inr u, c1) \<Longrightarrow> barren c1" "updateProgramTx env values data c = (Inr gs, c1) \<Longrightarrow> barren c1"
    "createShowTx env created c = (Inr g, c1) \<Longrightarrow> barren c1" "updateShowTx env sreq e c = (Inr x, c1) \<Longrightarrow> barren c1"
proof -
  have "barren (c\<lparr>ct_Programs := ps\<rparr>)" "barren (c\<lparr>ct_Shows := ss, ct_Groups := gs\<rparr>)" "barren (c\<lparr>ct_Shows := ss\<rparr>)" for ps ss gs
    using assms by (simp_all add: barren_def)
  note parts = this schedule_barren [OF _ this(1)] schedule_barren [OF _ this(2)]
  show "createProgramTx env data c = (Inr u, c1) \<Longrightarrow> barren c1"
    by (auto simp: createProgramTx_def intro: parts split: if_splits sum.splits)
  show "updateProgramTx env values data c = (Inr gs, c1) \<Longrightarrow> barren c1"
    by (auto simp: updateProgramTx_def Let_def intro: parts split: if_splits sum.splits prod.splits)
  show "createShowTx env created c = (Inr g, c1) \<Longrightarrow> barren c1"
    by (auto simp: createShowTx_def Let_def intro: parts split: option.splits sum.splits prod.splits)
  show "updateShowTx env sreq e c = (Inr x, c1) \<Longrightarrow> barren c1"
    by (auto simp: updateShowTx_def intro: parts split: sum.splits)
qed

lemma writes_barren:
  assumes "barren c"
  shows "barren (snd (CreateProgram env cp c))" "barren (snd (UpdateProgram env up c))"
    "barren (snd (CreateProgramShowTime env cs c))" "barren (snd (UpdateProgramShowTime env us c))"
    "barren (snd (BatchCreateProgramCategories env ks c))"
proof -
  have tx: "runTx flt (createProgramTx env data) c = (r1, c1) \<Longrightarrow> barren c1" "runTx flt (updateProgramTx env vs data) c = (r2, c1) \<Longrightarrow> barren c1"
    "runTx flt (createShowTx env created) c = (r3, c1) \<Longrightarrow> barren c1" "runTx flt (updateShowTx env us e) c = (r4, c1) \<Longrightarrow> barren c1"
    for flt data vs created e r1 r2 r3 r4 c1
    by (erule barren_runTx [OF assms, rotated], erule programTx_barren [OF assms])+
  have kinds: "barren c1" if "runTx flt (kindsTx env items) c = (r, c1)" for flt items r c1
    by (rule barren_runTx [OF assms _ that]) (use assms in \<open>auto simp: kindsTx_def barren_def split: if_splits sum.splits\<close>)
  show "barren (snd (CreateProgram env cp c))" using assms tx(1) by (auto simp: CreateProgram_def Let_def split: sum.split prod.split)
  show "barren (snd (UpdateProgram env up c))" using assms tx(2) by (auto simp: UpdateProgram_def Let_def split: sum.split prod.split)
  show "barren (snd (CreateProgramShowTime env cs c))"
    using assms tx(3) by (auto simp: CreateProgramShowTime_def split: option.split sum.split prod.split)
  show "barren (snd (UpdateProgramShowTime env us c))" using assms tx(4) by (auto simp: UpdateProgramShowTime_def split: sum.split prod.split)
  show "barren (snd (BatchCreateProgramCategories env ks c))"
    using assms kinds by (auto simp: BatchCreateProgramCategories_def split: sum.split prod.split)
qed

lemma clear_barren:
  assumes "barren c"
  shows "clearProgramSeatLedgers env k i cs c = (r, c') \<Longrightarrow> barren c'" "clearProgramSeatLedgersByProgram env k i c = (r, c') \<Longrightarrow> barren c'"
proof -
  have cl: "barren c'" if run: "clearProgramSeatLedgers env k i cs c = (r, c')" for k cs
    by (rule clear_frame [OF run]) (use clear_table [OF run] assms in \<open>simp add: barren_def\<close>)
  then show "clearProgramSeatLedgers env k i cs c = (r, c') \<Longrightarrow> barren c'" .
  show "clearProgramSeatLedgersByProgram env k i c = (r, c') \<Longrightarrow> barren c'"
    using cl assms by (auto simp: clearProgramSeatLedgersByProgram_def split: option.splits)
qed

lemma withdraw_barren:
  assumes "barren c"
  shows "barren (snd (ResetProgram env i c))" "barren (snd (InvalidProgram env i c))"
proof -
  have reset: "barren c1" if "runTx flt (resetTx env i) c = (r, c1)" for flt r c1
    by (rule barren_runTx [OF assms _ that]) (use assms in \<open>auto simp: resetTx_def barren_def split: sum.splits\<close>)
  then have "barren c2" if "runTx (ge_Tx env) (resetTx env i) c = (r, c1)" "clearProgramSeatLedgersByProgram env 0 i (InvalidateProgram env i gs c1) = (r', c2)"
    for r c1 gs r' c2 using clear_barren(2) [OF _ that(2)] that(1) barren_invalidate(1) by blast
  then show "barren (snd (ResetProgram env i c))"
    using assms reset by (auto simp: ResetProgram_def split: sum.split prod.split)
  have inv: "barren (InvalidateProgram env j gs (c\<lparr>ct_Programs := ps, ct_Caches := k\<rparr>))" for j gs ps k
    using assms by (simp add: barren_def InvalidateProgram_def)
  show "barren (snd (InvalidProgram env i c))"
    using assms clear_barren(2) [OF inv] by (auto simp: InvalidProgram_def Let_def split: sum.split prod.split option.split)
qed

text \<open>Categories without a show are refused by both seat handlers.\<close>

lemma checkSeatCategory_barren:
  assumes "barren c" "category = orNotFound (categoryRow (ct_Categories c) x) \<or> isl category"
  shows "\<exists>e. checkSeatCategory env k i category c = Inl e"
proof -
  have "tc_ShowTimeId t = 0" if "categoryRow (ct_Categories c) x = Some t" for t
    using that assms(1) by (auto simp: categoryRow_def find_Some_iff barren_def)
  then show ?thesis using assms(2)
    by (auto simp: checkSeatCategory_def ifMissing_def isl_def orNotFound_def ensureShowTimeInventoryMutable_def split: option.splits)
qed

lemma seats_barren:
  assumes "barren c"
  shows "\<exists>e. CreateSeat env se c = (Inl e, c)" "\<exists>e. BatchCreateSeats env i items c = (Inl e, c)"
proof -
  have "\<exists>e. checkSeatCategory env 2 (sa_ProgramId se)
      (orFault (ge_Fault env 1) (orNotFound (categoryRow (ct_Categories c) (sa_TicketCategoryId se)))) c = Inl e"
    by (rule checkSeatCategory_barren [OF assms, of _ "sa_TicketCategoryId se"]) (simp add: orFault_def split: option.split)
  then show "\<exists>e. CreateSeat env se c = (Inl e, c)" by (auto simp: CreateSeat_def split: sum.split)
  show "\<exists>e. BatchCreateSeats env i items c = (Inl e, c)"
  proof (cases items)
    case Nil
    then show ?thesis by (simp add: BatchCreateSeats_def)
  next
    case (Cons item rest)
    show ?thesis
    proof (rule BatchCreateSeats_refused)
      show "item \<in> set items" by (simp add: Cons)
      show "\<exists>e. checkSeatCategory env k i (orNotFound (categoryRow (ct_Categories c) (bi_TicketCategoryId item))) c = Inl e" for k
        by (rule checkSeatCategory_barren [OF assms disjI1 [OF refl]])
    qed
  qed
qed

lemma CreateTicketCategory_barren:
  assumes "barren c" shows "barren (snd (CreateTicketCategory env ct c))"
proof -
  have "barren (c\<lparr>ct_Categories := tb\<rparr>)"
    if "orFault flt (InsertWithCreateTime data (ct_Categories c)) = Inr tb" "tc_ShowTimeId data = 0" for flt data tb
    using that assms by (auto simp: barren_def InsertWithCreateTime_def orFault_def split: option.splits if_splits)
  then show ?thesis using assms by (auto simp: CreateTicketCategory_def split: sum.split)
qed

lemma catStep_barren:
  assumes "barren c" "catStep kt c c'" shows "barren c'"
  using assms(2)
proof cases
  case (create_seat env se)
  then show ?thesis using seats_barren(1) [OF assms(1), of env se] assms(1) by auto
next
  case (create_seats env i items)
  then show ?thesis using seats_barren(2) [OF assms(1), of env i items] assms(1) by auto
next
  case (preheat w penv payload)
  then show ?thesis using Handle_frame [of w penv payload] assms(1) by (auto simp: taskFrame_def barren_def)
qed (use assms(1) in \<open>simp_all add: writes_barren withdraw_barren CreateTicketCategory_barren\<close>, simp_all add: barren_def preheatRun_def case_prod_unfold)

interpretation catalogue_barren: step_invariant "catStep kt" barren for kt
  by unfold_locales (rule catStep_barren)

text \<open>
  C32. Through the handlers of the program service alone no seat ever comes to exist: from a catalogue without
  ticket categories and seats, every run of handlers, cache moves, dispatcher and job ends with an
  empty seat table, every category it has created belongs to no show, and every further attempt to
  create seats for one is refused without a change.
\<close>

theorem no_seats_through_handlers:
  assumes "ct_Categories c0 = []" "wtable (ct_Seats c0) = []" "(catStep kt)\<^sup>*\<^sup>* c0 c"
  shows "wtable (ct_Seats c) = [] \<and> (\<forall>t \<in> set (ct_Categories c). tc_ShowTimeId t = 0)
    \<and> (\<exists>e. CreateSeat env req c = (Inl e, c)) \<and> (\<exists>e. BatchCreateSeats env programID items c = (Inl e, c))"
proof -
  have "barren c0" using assms(1,2) by (simp add: barren_def)
  with assms(3) have "barren c" by (rule catalogue_barren.run_inv)
  then show ?thesis using seats_barren by (simp add: barren_def)
qed

definition demoNoSeats :: catalogue where
  "demoNoSeats = demoCatalogue\<lparr>ct_Categories := [], ct_Seats := \<lparr>wtable = [], wledger = (\<lambda>_ _. emptyLedger)\<rparr>\<rparr>"

theorem no_seats_through_handlers_witness:
  "map tc_Id (ct_Categories (snd (CreateTicketCategory demoCatEnv demoAddCategory demoNoSeats))) = [60]
   \<and> wtable (ct_Seats (snd (CreateTicketCategory demoCatEnv demoAddCategory demoNoSeats))) = []
   \<and> (\<exists>e. CreateSeat demoCatEnv (demoAddSeat\<lparr>sa_TicketCategoryId := 60\<rparr>) (snd (CreateTicketCategory demoCatEnv demoAddCategory demoNoSeats))
        = (Inl e, snd (CreateTicketCategory demoCatEnv demoAddCategory demoNoSeats)))"
proof -
  have start: "ct_Categories demoNoSeats = []" "wtable (ct_Seats demoNoSeats) = []" by (simp_all add: demoNoSeats_def)
  have run: "(catStep demoPrint)\<^sup>*\<^sup>* demoNoSeats (snd (CreateTicketCategory demoCatEnv demoAddCategory demoNoSeats))"
    by (rule r_into_rtranclp, rule catStep.create_category)
  have "map tc_Id (ct_Categories (snd (CreateTicketCategory demoCatEnv demoAddCategory demoNoSeats))) = [60]" by code_simp
  with no_seats_through_handlers [OF start run, of demoCatEnv "demoAddSeat\<lparr>sa_TicketCategoryId := 60\<rparr>"] show ?thesis by blast
qed

end
