(* ===== verification/CacheInvalidation.thy ===== *)
theory CacheInvalidation
  imports CatalogueRead
begin

text \<open>
  The caches of several processes of \<open>program-rpc\<close>: \<open>programcache/detail_cache.go\<close> with the loads that
  \<open>load_group.go\<close> shares, \<open>cache_invalidator.go\<close>, and the messages between the processes
  (\<open>invalidation_message.go\<close>, \<open>invalidation_registry.go\<close>, \<open>invalidation_pubsub.go\<close>). A load is two steps
  here, so it can overlap with an invalidation. The result of a loader and the fate of a call to Redis
  are arguments, and so is the JSON of a message. A published message reaches the processes that are
  subscribed at that moment, in order.
\<close>

section \<open>Messages\<close>

record InvalidationEntry =
  ie_Cache :: string
  ie_ProgramID :: int

record InvalidationMessage =
  im_Version :: string
  im_Service :: string
  im_InstanceID :: string
  im_PublishedAt :: int
  im_Entries :: "InvalidationEntry list"

definition cacheProgramDetailView :: string where
  "cacheProgramDetailView = ''program_detail_view''"

definition cacheCategorySnapshot :: string where
  "cacheCategorySnapshot = ''category_snapshot''"

definition validateEntry :: "InvalidationEntry \<Rightarrow> unit res" where
  "validateEntry entry =
     (if ie_Cache entry = [] then Inl (Other ''invalidation entry cache is required'')
      else if ie_Cache entry = cacheProgramDetailView
        then (if ie_ProgramID entry \<le> 0 then Inl (Other ''program_detail_view requires program_id'') else Inr ())
      else if ie_Cache entry = cacheCategorySnapshot
        then (if ie_ProgramID entry \<noteq> 0 then Inl (Other ''category_snapshot does not accept program_id'') else Inr ())
      else Inl (Other (''unknown cache type: '' @ ie_Cache entry)))"

fun validateEntries :: "InvalidationEntry list \<Rightarrow> unit res" where
  "validateEntries [] = Inr ()"
| "validateEntries (entry # es) = (case validateEntry entry of Inl e \<Rightarrow> Inl e | Inr _ \<Rightarrow> validateEntries es)"

definition Validate :: "InvalidationMessage \<Rightarrow> unit res" where
  "Validate msg =
     (if im_Entries msg = [] then Inl (Other ''invalidation message entries is empty'') else validateEntries (im_Entries msg))"

definition MarshalInvalidationMessage :: "(InvalidationMessage \<Rightarrow> string) \<Rightarrow> InvalidationMessage \<Rightarrow> string res" where
  "MarshalInvalidationMessage enc msg = (case Validate msg of Inl e \<Rightarrow> Inl e | Inr _ \<Rightarrow> Inr (enc msg))"

definition ParseInvalidationMessage :: "(string \<Rightarrow> InvalidationMessage option) \<Rightarrow> string \<Rightarrow> InvalidationMessage res" where
  "ParseInvalidationMessage dec payload =
     (if payload = [] then Inl (Other ''invalidation payload is empty'')
      else case dec payload of None \<Rightarrow> Inl (Other ''json'')
      | Some msg \<Rightarrow> (case Validate msg of Inl e \<Rightarrow> Inl e | Inr _ \<Rightarrow> Inr msg))"

section \<open>The caches of a process\<close>

text \<open>\<open>mc_Loading\<close>: the loads of the group under way, with the result the loader will return.\<close>

record processCaches =
  mc_View :: "int \<rightharpoonup> ProgramDetailViewInfo"
  mc_NotFound :: "int \<Rightarrow> bool"
  mc_Kinds :: "DProgramCategory list option"
  mc_Loading :: "int \<rightharpoonup> ProgramDetailViewInfo res"

definition detailInvalidate :: "int \<Rightarrow> processCaches \<Rightarrow> processCaches" where
  "detailInvalidate programID l = l\<lparr>mc_View := (mc_View l)(programID := None), mc_NotFound := (mc_NotFound l)(programID := False)\<rparr>"

definition categoryInvalidate :: "processCaches \<Rightarrow> processCaches" where
  "categoryInvalidate l = l\<lparr>mc_Kinds := None\<rparr>"

text \<open>
  \<open>Get\<close> up to the call of the loader, which returns \<open>r\<close>: an entry answers at once and a load under way is
  joined. The second half stores the result of the load.
\<close>

definition detailGetBegin :: "int \<Rightarrow> ProgramDetailViewInfo res \<Rightarrow> processCaches \<Rightarrow> processCaches" where
  "detailGetBegin programID r l =
     (if mc_NotFound l programID \<or> mc_View l programID \<noteq> None \<or> mc_Loading l programID \<noteq> None then l
      else l\<lparr>mc_Loading := (mc_Loading l)(programID \<mapsto> r)\<rparr>)"

definition detailGetEnd :: "int \<Rightarrow> processCaches \<Rightarrow> processCaches" where
  "detailGetEnd programID l =
     (let l1 = l\<lparr>mc_Loading := (mc_Loading l)(programID := None)\<rparr> in
      case mc_Loading l programID of
        None \<Rightarrow> l
      | Some (Inl e) \<Rightarrow> if e = errViewNotFound then l1\<lparr>mc_NotFound := (mc_NotFound l)(programID := True)\<rparr> else l1
      | Some (Inr view) \<Rightarrow> l1\<lparr>mc_View := (mc_View l)(programID \<mapsto> view)\<rparr>)"

section \<open>Registry\<close>

fun dispatchEntries :: "(string \<times> int) set \<Rightarrow> InvalidationEntry list \<Rightarrow> processCaches \<Rightarrow> unit res \<times> processCaches" where
  "dispatchEntries seen [] l = (Inr (), l)"
| "dispatchEntries seen (entry # es) l =
     (let key = (ie_Cache entry, ie_ProgramID entry) in
      if key \<in> seen then dispatchEntries seen es l
      else if ie_Cache entry = cacheProgramDetailView
        then dispatchEntries (insert key seen) es (detailInvalidate (ie_ProgramID entry) l)
      else if ie_Cache entry = cacheCategorySnapshot then dispatchEntries (insert key seen) es (categoryInvalidate l)
      else (Inl (Other (''unknown cache type: '' @ ie_Cache entry)), l))"

definition Dispatch :: "InvalidationMessage \<Rightarrow> processCaches \<Rightarrow> unit res \<times> processCaches" where
  "Dispatch msg l = (case Validate msg of Inl e \<Rightarrow> (Inl e, l) | Inr _ \<Rightarrow> dispatchEntries {} (im_Entries msg) l)"

section \<open>Subscriber\<close>

definition handlePayload :: "(string \<Rightarrow> InvalidationMessage option) \<Rightarrow> string \<Rightarrow> processCaches \<Rightarrow> unit res \<times> processCaches" where
  "handlePayload dec payload l = (case ParseInvalidationMessage dec payload of Inl e \<Rightarrow> (Inl e, l) | Inr msg \<Rightarrow> Dispatch msg l)"

text \<open>
  What the subscriber meets: the context is done or \<open>Close\<close> was called, a client cannot be made, a connection, a message, an
  error of the connection. \<open>consume\<close> returns the caches and, unless it was stopped, the events that are
  left. The waiting between two connections ends early when the subscriber is stopped, and the next
  turn of the loop would see that as well.
\<close>

datatype subEvent = SubStop | ClientFails | Connected | Message string | ReceiveFails

fun consume :: "(string \<Rightarrow> InvalidationMessage option) \<Rightarrow> subEvent list \<Rightarrow> processCaches \<Rightarrow> processCaches \<times> subEvent list option" where
  "consume dec [] l = (l, Some [])"
| "consume dec (SubStop # evs) l = (l, None)"
| "consume dec (ReceiveFails # evs) l = (l, Some evs)"
| "consume dec (Message payload # evs) l = consume dec evs (snd (handlePayload dec payload l))"
| "consume dec (ClientFails # evs) l = consume dec evs l"
| "consume dec (Connected # evs) l = consume dec evs l"

lemma consume_rest: "consume dec evs l = (l', Some rest) \<Longrightarrow> length rest \<le> length evs"
  by (induction dec evs l rule: consume.induct) auto

function (sequential) Start :: "(string \<Rightarrow> InvalidationMessage option) \<Rightarrow> subEvent list \<Rightarrow> processCaches \<Rightarrow> processCaches" where
  "Start dec [] l = l"
| "Start dec (SubStop # evs) l = l"
| "Start dec (Connected # evs) l =
     (case consume dec evs l of (l1, None) \<Rightarrow> l1 | (l1, Some rest) \<Rightarrow> Start dec rest l1)"
| "Start dec (ev # evs) l = Start dec evs l"
  by pat_completeness auto
termination
  by (relation "measure (\<lambda>(dec, evs, l). length evs)") (auto dest!: sym [THEN consume_rest] intro: le_imp_less_Suc)

definition splitRedisAddrs :: "string \<Rightarrow> string list" where
  "splitRedisAddrs addr = (if addr = [] then [] else filter (\<lambda>a. a \<noteq> []) (map trim_space (split_on (CHR '','') addr)))"

section \<open>Invalidator and cluster\<close>

text \<open>
  \<open>cl_Redis\<close> holds the rows all processes share, \<open>cl_Inbox\<close> the messages on their way to a process, if it
  is subscribed.
\<close>

record cluster =
  cl_Redis :: "string \<rightharpoonup> string"
  cl_Process :: "nat \<Rightarrow> processCaches"
  cl_Inbox :: "nat \<Rightarrow> string list option"

record invalidateEnv =
  ve_Namespace :: string
  ve_Publisher :: bool
  ve_Clock :: int
  ve_Instance :: string
  ve_Encode :: "InvalidationMessage \<Rightarrow> string"
  ve_Del :: fault
  ve_Publish :: fault

definition namespacedCachePrefix :: "string \<Rightarrow> string \<Rightarrow> string" where
  "namespacedCachePrefix ns base =
     (let ns1 = trim_space ns in
      if ns1 = [] then base
      else rev (dropWhile (\<lambda>ch. ch = CHR '':'') (rev (dropWhile (\<lambda>ch. ch = CHR '':'') ns1))) @ '':'' @ base)"

definition ProgramCacheKey :: "string \<Rightarrow> int \<Rightarrow> string" where
  "ProgramCacheKey ns programID = namespacedCachePrefix ns ''cache:dProgram:id:'' @ show_int programID"

definition ProgramGroupCacheKey :: "string \<Rightarrow> int \<Rightarrow> string" where
  "ProgramGroupCacheKey ns programGroupID = namespacedCachePrefix ns ''cache:dProgramGroup:id:'' @ show_int programGroupID"

definition ProgramFirstShowTimeCacheKey :: "string \<Rightarrow> int \<Rightarrow> string" where
  "ProgramFirstShowTimeCacheKey ns programID = namespacedCachePrefix ns ''cache:dProgramShowTime:first:programId:'' @ show_int programID"

fun uniqueKeysFrom :: "string set \<Rightarrow> string list \<Rightarrow> string list" where
  "uniqueKeysFrom seen [] = []"
| "uniqueKeysFrom seen (key # keys) =
     (if key = [] \<or> key \<in> seen then uniqueKeysFrom seen keys else key # uniqueKeysFrom (insert key seen) keys)"

definition uniqueCacheKeys :: "string list \<Rightarrow> string list" where
  "uniqueCacheKeys keys = uniqueKeysFrom {} keys"

definition delKeys :: "string list \<Rightarrow> cluster \<Rightarrow> unit res \<times> cluster" where
  "delKeys keys w = (Inr (), w\<lparr>cl_Redis := (\<lambda>k. if k \<in> set keys then None else cl_Redis w k)\<rparr>)"

definition invalidationMessage :: "invalidateEnv \<Rightarrow> InvalidationEntry list \<Rightarrow> InvalidationMessage" where
  "invalidationMessage env es = \<lparr>im_Version = ''v1'', im_Service = ''program-rpc'', im_InstanceID = ve_Instance env,
     im_PublishedAt = ve_Clock env, im_Entries = es\<rparr>"

definition broadcast :: "string \<Rightarrow> cluster \<Rightarrow> unit res \<times> cluster" where
  "broadcast payload w = (Inr (), w\<lparr>cl_Inbox := (\<lambda>q. map_option (\<lambda>ms. ms @ [payload]) (cl_Inbox w q))\<rparr>)"

definition publishMessage :: "invalidateEnv \<Rightarrow> InvalidationMessage \<Rightarrow> cluster \<Rightarrow> unit res \<times> cluster" where
  "publishMessage env msg w =
     (case MarshalInvalidationMessage (ve_Encode env) msg of
        Inl e \<Rightarrow> (Inl e, w)
      | Inr payload \<Rightarrow> eval_ctx (ve_Publish env) (broadcast payload) w)"

definition publish :: "invalidateEnv \<Rightarrow> InvalidationEntry list \<Rightarrow> cluster \<Rightarrow> unit res \<times> cluster" where
  "publish env es w = (if ve_Publisher env then publishMessage env (invalidationMessage env es) w else (Inr (), w))"

definition onProcess :: "nat \<Rightarrow> (processCaches \<Rightarrow> processCaches) \<Rightarrow> cluster \<Rightarrow> cluster" where
  "onProcess q f w = w\<lparr>cl_Process := (cl_Process w)(q := f (cl_Process w q))\<rparr>"

definition programEntry :: "int \<Rightarrow> InvalidationEntry" where
  "programEntry programID = \<lparr>ie_Cache = cacheProgramDetailView, ie_ProgramID = programID\<rparr>"

definition InvalidateProgramAll :: "invalidateEnv \<Rightarrow> nat \<Rightarrow> int \<Rightarrow> int list \<Rightarrow> cluster \<Rightarrow> unit res \<times> cluster" where
  "InvalidateProgramAll env p programID programGroupIDs w =
     (if programID \<le> 0 then (Inl (Other ''program id must be greater than zero''), w)
      else
        (let keys = [ProgramCacheKey (ve_Namespace env) programID, ProgramFirstShowTimeCacheKey (ve_Namespace env) programID]
               @ map (ProgramGroupCacheKey (ve_Namespace env)) (filter (\<lambda>g. 0 < g) programGroupIDs) in
         case eval_ctx (ve_Del env) (delKeys (uniqueCacheKeys keys)) w of
           (Inl e, w1) \<Rightarrow> (Inl e, w1)
         | (Inr _, w1) \<Rightarrow> publish env [programEntry programID] (onProcess p (detailInvalidate programID) w1)))"

definition InvalidateCategoriesAll :: "invalidateEnv \<Rightarrow> nat \<Rightarrow> cluster \<Rightarrow> unit res \<times> cluster" where
  "InvalidateCategoriesAll env p w =
     publish env [\<lparr>ie_Cache = cacheCategorySnapshot, ie_ProgramID = 0\<rparr>] (onProcess p categoryInvalidate w)"

text \<open>
  The events of a cluster: invalidations by a process, the receipt of a message, a lost and a new
  connection, the two halves of a load, and entries that expire.
\<close>

datatype event =
    EInvalidate invalidateEnv nat int "int list"
  | EInvalidateKinds invalidateEnv nat
  | EReceive nat
  | EDisconnect nat
  | ESubscribe nat
  | ELoadBegin nat int "ProgramDetailViewInfo res"
  | ELoadEnd nat int
  | EExpire nat int
  | EFillKinds nat "DProgramCategory list"

definition receive :: "(string \<Rightarrow> InvalidationMessage option) \<Rightarrow> nat \<Rightarrow> cluster \<Rightarrow> cluster" where
  "receive dec q w =
     (case cl_Inbox w q of
        Some (payload # ms) \<Rightarrow> onProcess q (\<lambda>l. snd (handlePayload dec payload l)) (w\<lparr>cl_Inbox := (cl_Inbox w)(q \<mapsto> ms)\<rparr>)
      | _ \<Rightarrow> w)"

fun clusterStep :: "(string \<Rightarrow> InvalidationMessage option) \<Rightarrow> event \<Rightarrow> cluster \<Rightarrow> cluster" where
  "clusterStep dec (EInvalidate env p i gs) w = snd (InvalidateProgramAll env p i gs w)"
| "clusterStep dec (EInvalidateKinds env p) w = snd (InvalidateCategoriesAll env p w)"
| "clusterStep dec (EReceive q) w = receive dec q w"
| "clusterStep dec (EDisconnect q) w = w\<lparr>cl_Inbox := (cl_Inbox w)(q := None)\<rparr>"
| "clusterStep dec (ESubscribe q) w = (if cl_Inbox w q = None then w\<lparr>cl_Inbox := (cl_Inbox w)(q := Some [])\<rparr> else w)"
| "clusterStep dec (ELoadBegin q i r) w = onProcess q (detailGetBegin i r) w"
| "clusterStep dec (ELoadEnd q i) w = onProcess q (detailGetEnd i) w"
| "clusterStep dec (EExpire q i) w = onProcess q (detailInvalidate i) w"
| "clusterStep dec (EFillKinds q ks) w = onProcess q (\<lambda>l. l\<lparr>mc_Kinds := Some ks\<rparr>) w"

definition runEvents :: "(string \<Rightarrow> InvalidationMessage option) \<Rightarrow> event list \<Rightarrow> cluster \<Rightarrow> cluster" where
  "runEvents dec evs w = fold (clusterStep dec) evs w"

section \<open>What a message removes\<close>

definition namesView :: "InvalidationMessage \<Rightarrow> int \<Rightarrow> bool" where
  "namesView msg i \<longleftrightarrow> programEntry i \<in> set (im_Entries msg)"

definition forget :: "InvalidationMessage \<Rightarrow> processCaches \<Rightarrow> processCaches" where
  "forget msg l = l\<lparr>mc_View := (\<lambda>i. if namesView msg i then None else mc_View l i),
     mc_NotFound := (\<lambda>i. \<not> namesView msg i \<and> mc_NotFound l i),
     mc_Kinds := (if cacheCategorySnapshot \<in> ie_Cache ` set (im_Entries msg) then None else mc_Kinds l)\<rparr>"

lemma cache_names [simp]: "cacheProgramDetailView \<noteq> cacheCategorySnapshot" "cacheCategorySnapshot \<noteq> cacheProgramDetailView"
  by (simp_all add: cacheProgramDetailView_def cacheCategorySnapshot_def)

lemma validateEntries_ok:
  "validateEntries es = Inr u \<longleftrightarrow>
     (\<forall>entry \<in> set es. ie_Cache entry = cacheProgramDetailView \<and> 0 < ie_ProgramID entry
       \<or> ie_Cache entry = cacheCategorySnapshot \<and> ie_ProgramID entry = 0)"
proof (induction es)
  case (Cons a es)
  have "validateEntry a = Inr v \<longleftrightarrow> ie_Cache a = cacheProgramDetailView \<and> 0 < ie_ProgramID a
       \<or> ie_Cache a = cacheCategorySnapshot \<and> ie_ProgramID a = 0" for v
    by (auto simp: validateEntry_def) (simp_all add: cacheProgramDetailView_def cacheCategorySnapshot_def)
  with Cons show ?case by (auto split: sum.split)
qed simp

text \<open>Dispatching a valid message removes what it names, whatever the order and the repetitions of its entries.\<close>

lemma forget_simps [simp]:
  "mc_View (forget msg l) i = (if namesView msg i then None else mc_View l i)"
  "mc_NotFound (forget msg l) i \<longleftrightarrow> \<not> namesView msg i \<and> mc_NotFound l i"
  "mc_Loading (forget msg l) = mc_Loading l"
  by (simp_all add: forget_def)

lemma forget_Nil: "forget (msg\<lparr>im_Entries := []\<rparr>) l = l"
  by (simp add: forget_def namesView_def)

lemma forget_Cons:
  "ie_Cache a = cacheProgramDetailView \<Longrightarrow>
     forget (msg\<lparr>im_Entries := a # es\<rparr>) l = forget (msg\<lparr>im_Entries := es\<rparr>) (detailInvalidate (ie_ProgramID a) l)"
  "ie_Cache a = cacheCategorySnapshot \<Longrightarrow>
     forget (msg\<lparr>im_Entries := a # es\<rparr>) l = forget (msg\<lparr>im_Entries := es\<rparr>) (categoryInvalidate l)"
proof -
  have "programEntry i = a \<longleftrightarrow> ie_Cache a = cacheProgramDetailView \<and> i = ie_ProgramID a" for i
    by (cases a) (auto simp: programEntry_def)
  note eq = this
  show "ie_Cache a = cacheProgramDetailView \<Longrightarrow>
     forget (msg\<lparr>im_Entries := a # es\<rparr>) l = forget (msg\<lparr>im_Entries := es\<rparr>) (detailInvalidate (ie_ProgramID a) l)"
    by (rule processCaches.equality) (auto simp: forget_def namesView_def detailInvalidate_def eq fun_eq_iff)
  show "ie_Cache a = cacheCategorySnapshot \<Longrightarrow>
     forget (msg\<lparr>im_Entries := a # es\<rparr>) l = forget (msg\<lparr>im_Entries := es\<rparr>) (categoryInvalidate l)"
    by (rule processCaches.equality) (auto simp: forget_def namesView_def categoryInvalidate_def eq fun_eq_iff)
qed

lemma invalidate_gone:
  "mc_View l i = None \<Longrightarrow> \<not> mc_NotFound l i \<Longrightarrow> detailInvalidate i l = l"
  "mc_Kinds l = None \<Longrightarrow> categoryInvalidate l = l"
  by (auto simp: detailInvalidate_def categoryInvalidate_def fun_upd_idem)

lemma dispatchEntries_forget:
  assumes "validateEntries es = Inr ()"
    and "\<And>i. (cacheProgramDetailView, i) \<in> seen \<Longrightarrow> mc_View l i = None \<and> \<not> mc_NotFound l i"
    and "\<And>i. (cacheCategorySnapshot, i) \<in> seen \<Longrightarrow> mc_Kinds l = None"
  shows "dispatchEntries seen es l = (Inr (), forget (msg\<lparr>im_Entries := es\<rparr>) l)"
  using assms
proof (induction seen es l rule: dispatchEntries.induct)
  case (1 seen l)
  then show ?case by (simp add: forget_Nil)
next
  case (2 seen a es l)
  have valid: "validateEntries es = Inr ()" using "2.prems"(1) by (auto split: sum.splits)
  have "ie_Cache a = cacheProgramDetailView \<and> 0 < ie_ProgramID a \<or> ie_Cache a = cacheCategorySnapshot \<and> ie_ProgramID a = 0"
    using "2.prems"(1) by (simp only: validateEntries_ok) simp
  then show ?case
  proof (elim disjE conjE)
    assume a: "ie_Cache a = cacheProgramDetailView"
    show ?thesis
    proof (cases "(cacheProgramDetailView, ie_ProgramID a) \<in> seen")
      case True
      then show ?thesis
        using "2.IH"(1) [OF refl _ valid] "2.prems"(2,3) a by (simp add: forget_Cons(1) [OF a] invalidate_gone)
    next
      case False
      have "dispatchEntries (insert (ie_Cache a, ie_ProgramID a) seen) es (detailInvalidate (ie_ProgramID a) l)
          = (Inr (), forget (msg\<lparr>im_Entries := es\<rparr>) (detailInvalidate (ie_ProgramID a) l))"
        by (rule "2.IH"(2) [OF refl _ a valid]) (use False "2.prems"(2,3) a in \<open>auto simp: detailInvalidate_def\<close>)
      with False show ?thesis by (simp add: forget_Cons(1) [OF a] a)
    qed
  next
    assume a: "ie_Cache a = cacheCategorySnapshot"
    show ?thesis
    proof (cases "(cacheCategorySnapshot, ie_ProgramID a) \<in> seen")
      case True
      then show ?thesis
        using "2.IH"(1) [OF refl _ valid] "2.prems"(2,3) a by (simp add: forget_Cons(2) [OF a] invalidate_gone)
    next
      case False
      then show ?thesis
        using "2.IH"(3) [OF refl _ _ a valid] "2.prems"(2,3) a by (auto simp: forget_Cons(2) [OF a] categoryInvalidate_def)
    qed
  qed
qed

lemma Dispatch_forget: "Dispatch msg l = (case Validate msg of Inl e \<Rightarrow> (Inl e, l) | Inr _ \<Rightarrow> (Inr (), forget msg l))"
  using dispatchEntries_forget [of "im_Entries msg" "{}" l msg]
  by (auto simp: Dispatch_def Validate_def split: sum.splits)

lemma handlePayload_forget:
  "snd (handlePayload dec payload l) = (case ParseInvalidationMessage dec payload of Inl _ \<Rightarrow> l | Inr msg \<Rightarrow> forget msg l)"
  by (auto simp: handlePayload_def ParseInvalidationMessage_def Dispatch_forget split: sum.splits option.splits if_splits)

text \<open>A payload that is no valid message is skipped: it changes nothing and the subscriber goes on.\<close>

lemma Start_skips_bad_payloads:
  assumes "ParseInvalidationMessage dec payload = Inl e"
  shows "consume dec (Message payload # evs) l = consume dec evs l"
  by (simp add: handlePayload_forget assms)

section \<open>Invalidations reach the subscribed processes\<close>

text \<open>
  The entry of a process is fresh when it was loaded after a certain moment: its value is among the
  results \<open>R\<close> of the loads begun since.
\<close>

definition fresh :: "ProgramDetailViewInfo res set \<Rightarrow> int \<Rightarrow> processCaches \<Rightarrow> bool" where
  "fresh R i l \<longleftrightarrow> (\<forall>view. mc_View l i = Some view \<longrightarrow> Inr view \<in> R) \<and> (mc_NotFound l i \<longrightarrow> Inl errViewNotFound \<in> R)"

definition pendingOrFresh :: "string \<Rightarrow> ProgramDetailViewInfo res set \<Rightarrow> nat \<Rightarrow> int \<Rightarrow> cluster \<Rightarrow> bool" where
  "pendingOrFresh payload R q i w \<longleftrightarrow>
     (\<exists>ms. cl_Inbox w q = Some ms \<and> (payload \<in> set ms \<or> fresh R i (cl_Process w q)))
     \<and> (\<forall>r. mc_Loading (cl_Process w q) i = Some r \<longrightarrow> r \<in> R)"

text \<open>Steps in which \<open>q\<close> stays connected and loads nothing of \<open>i\<close> but results of \<open>R\<close>.\<close>

definition connectedStep :: "(string \<Rightarrow> InvalidationMessage option) \<Rightarrow> ProgramDetailViewInfo res set \<Rightarrow> nat \<Rightarrow> int \<Rightarrow> cluster \<Rightarrow> cluster \<Rightarrow> bool" where
  "connectedStep dec R q i w w' \<longleftrightarrow> (\<exists>ev. w' = clusterStep dec ev w \<and> ev \<noteq> EDisconnect q \<and> (\<forall>r. ev = ELoadBegin q i r \<longrightarrow> r \<in> R))"

lemma onProcess_simps [simp]:
  "cl_Process (onProcess p f w) q = (if q = p then f (cl_Process w q) else cl_Process w q)"
  "cl_Inbox (onProcess p f w) = cl_Inbox w"
  by (simp_all add: onProcess_def)

lemma fresh_invalidate [simp]:
  "fresh R i l \<Longrightarrow> fresh R i (detailInvalidate j l)" "mc_Loading (detailInvalidate j l) = mc_Loading l"
  "fresh R i (categoryInvalidate l) = fresh R i l" "mc_Loading (categoryInvalidate l) = mc_Loading l"
  by (auto simp: fresh_def detailInvalidate_def categoryInvalidate_def)

lemma fresh_handle:
  "fresh R i l \<Longrightarrow> fresh R i (snd (handlePayload dec payload l))"
  "mc_Loading (snd (handlePayload dec payload l)) = mc_Loading l"
  by (auto simp: handlePayload_forget fresh_def split: sum.splits)

lemma publish_frame:
  "cl_Process (snd (publish env es w)) = cl_Process w"
  "\<exists>new. cl_Inbox (snd (publish env es w)) q = map_option (\<lambda>ms. ms @ new) (cl_Inbox w q)"
proof -
  have "\<exists>new. cl_Inbox w q = map_option (\<lambda>ms. ms @ new) (cl_Inbox w q)"
    by (rule exI [of _ "[]"]) (cases "cl_Inbox w q", simp_all)
  then show "\<exists>new. cl_Inbox (snd (publish env es w)) q = map_option (\<lambda>ms. ms @ new) (cl_Inbox w q)"
    by (auto simp: publish_def publishMessage_def broadcast_def eval_ctx_def split: sum.splits fault.splits)
qed (simp add: publish_def publishMessage_def broadcast_def eval_ctx_def split: sum.splits fault.splits)

text \<open>An invalidation removes entries of the invalidating process only, and adds to the inboxes.\<close>

lemma invalidate_frame:
  assumes "w' = snd (InvalidateProgramAll env p i gs w) \<or> w' = snd (InvalidateCategoriesAll env p w)"
  shows "cl_Process w' q \<in> {cl_Process w q, detailInvalidate i (cl_Process w q), categoryInvalidate (cl_Process w q)}"
    and "\<exists>new. cl_Inbox w' q = map_option (\<lambda>ms. ms @ new) (cl_Inbox w q)"
proof -
  have same: "\<exists>new. cl_Inbox w q = map_option (\<lambda>ms. ms @ new) (cl_Inbox w q)"
    by (rule exI [of _ "[]"]) (cases "cl_Inbox w q", simp_all)
  have "cl_Process w' q \<in> {cl_Process w q, detailInvalidate i (cl_Process w q), categoryInvalidate (cl_Process w q)}
    \<and> (\<exists>new. cl_Inbox w' q = map_option (\<lambda>ms. ms @ new) (cl_Inbox w q))"
    using assms
  proof
    assume "w' = snd (InvalidateCategoriesAll env p w)"
    then show ?thesis
      using publish_frame(2) [of env _ "onProcess p categoryInvalidate w" q] by (simp add: InvalidateCategoriesAll_def publish_frame(1))
  next
    assume w': "w' = snd (InvalidateProgramAll env p i gs w)"
    show ?thesis
      using same publish_frame(2) [of env "[programEntry i]" "onProcess p (detailInvalidate i) (snd (delKeys _ w))" q]
      by (simp add: w' InvalidateProgramAll_def Let_def eval_ctx_def publish_frame(1) delKeys_def split: fault.split)
  qed
  then show "cl_Process w' q \<in> {cl_Process w q, detailInvalidate i (cl_Process w q), categoryInvalidate (cl_Process w q)}"
    "\<exists>new. cl_Inbox w' q = map_option (\<lambda>ms. ms @ new) (cl_Inbox w q)" by blast+
qed

lemma pendingOrFresh_more:
  assumes "pendingOrFresh payload R q i w"
    and "cl_Process w' q \<in> {cl_Process w q, detailInvalidate j (cl_Process w q), categoryInvalidate (cl_Process w q)}"
    and "\<exists>new. cl_Inbox w' q = map_option (\<lambda>ms. ms @ new) (cl_Inbox w q)"
  shows "pendingOrFresh payload R q i w'"
  using assms by (auto simp: pendingOrFresh_def)

lemma pendingOrFresh_receive:
  assumes inv: "pendingOrFresh payload R q i w" and msg: "ParseInvalidationMessage dec payload = Inr msg" "namesView msg i"
  shows "pendingOrFresh payload R q i (receive dec p w)"
proof (cases "p = q")
  case False
  then show ?thesis using inv by (auto simp: receive_def pendingOrFresh_def split: option.splits list.splits)
next
  case True
  obtain ms where ms: "cl_Inbox w q = Some ms" "payload \<in> set ms \<or> fresh R i (cl_Process w q)"
    and load: "\<forall>r. mc_Loading (cl_Process w q) i = Some r \<longrightarrow> r \<in> R"
    using inv by (auto simp: pendingOrFresh_def)
  show ?thesis
  proof (cases ms)
    case Nil
    then show ?thesis using inv ms True by (simp add: receive_def)
  next
    case (Cons m ms')
    have "fresh R i (snd (handlePayload dec payload l))" for l
      using msg by (simp add: handlePayload_forget fresh_def)
    with ms(2) Cons have "payload \<in> set ms' \<or> fresh R i (snd (handlePayload dec m (cl_Process w q)))"
      by (auto intro: fresh_handle)
    then show ?thesis using ms(1) load True Cons by (simp add: receive_def pendingOrFresh_def fresh_handle(2))
  qed
qed

lemma fresh_load:
  assumes "\<forall>r. mc_Loading l i = Some r \<longrightarrow> r \<in> R"
  shows "fresh R i l \<Longrightarrow> fresh R i (detailGetEnd j l)" "fresh R i l \<Longrightarrow> fresh R i (detailGetBegin j r l)"
    "\<forall>r. mc_Loading (detailGetEnd j l) i = Some r \<longrightarrow> r \<in> R"
    "(j = i \<longrightarrow> s \<in> R) \<Longrightarrow> \<forall>r. mc_Loading (detailGetBegin j s l) i = Some r \<longrightarrow> r \<in> R"
  using assms by (auto simp: fresh_def detailGetEnd_def detailGetBegin_def Let_def split: option.splits sum.splits)

lemma pendingOrFresh_local:
  assumes "pendingOrFresh payload R q i w"
    and "fresh R i (cl_Process w q) \<Longrightarrow> fresh R i (f (cl_Process w q))"
    and "\<forall>r. mc_Loading (f (cl_Process w q)) i = Some r \<longrightarrow> r \<in> R"
  shows "pendingOrFresh payload R q i (onProcess p f w)"
  using assms by (auto simp: pendingOrFresh_def)

lemma connectedStep_inv:
  assumes msg: "ParseInvalidationMessage dec payload = Inr msg" "namesView msg i"
    and inv: "pendingOrFresh payload R q i w" and step: "connectedStep dec R q i w w'"
  shows "pendingOrFresh payload R q i w'"
proof -
  obtain ev where ev: "w' = clusterStep dec ev w" "ev \<noteq> EDisconnect q" "\<forall>r. ev = ELoadBegin q i r \<longrightarrow> r \<in> R"
    using step by (auto simp: connectedStep_def)
  have load: "\<forall>r. mc_Loading (cl_Process w q) i = Some r \<longrightarrow> r \<in> R" using inv by (simp add: pendingOrFresh_def)
  have frame: "pendingOrFresh payload R q i w2"
    if "w2 = snd (InvalidateProgramAll env p j gs w) \<or> w2 = snd (InvalidateCategoriesAll env p w)" for w2 env p j gs
    by (rule pendingOrFresh_more [OF inv invalidate_frame [OF that]])
  note local = pendingOrFresh_local [OF inv]
  show ?thesis
  proof (cases ev)
    case (EInvalidate env p j gs)
    then show ?thesis using frame [of w' env p j gs] ev(1) by auto
  next
    case (EInvalidateKinds env p)
    then show ?thesis using frame [of w' env p] ev(1) by auto
  next
    case (EReceive p)
    then show ?thesis using pendingOrFresh_receive [OF inv msg] ev(1) by simp
  next
    case (EDisconnect p)
    then show ?thesis using inv ev by (auto simp: pendingOrFresh_def)
  next
    case (ESubscribe p)
    then show ?thesis using inv ev(1) by (auto simp: pendingOrFresh_def)
  next
    case (ELoadBegin p j r)
    show ?thesis
    proof (cases "p = q")
      case True
      then have "\<forall>x. mc_Loading (detailGetBegin j r (cl_Process w q)) i = Some x \<longrightarrow> x \<in> R"
        using ELoadBegin ev(3) by (intro fresh_load(4) [OF load]) simp
      then show ?thesis using local [of "detailGetBegin j r" q] fresh_load(2) [OF load] True ELoadBegin ev(1) by simp
    next
      case False
      then show ?thesis using inv ELoadBegin ev(1) by (simp add: pendingOrFresh_def)
    qed
  next
    case (ELoadEnd p j)
    then show ?thesis using local [of "detailGetEnd j" p] fresh_load(1,3) [OF load] ev(1) by simp
  next
    case (EExpire p j)
    then show ?thesis using local [of "detailInvalidate j" p] load ev(1) by simp
  next
    case (EFillKinds p ks)
    then show ?thesis using local [of "\<lambda>l. l\<lparr>mc_Kinds := Some ks\<rparr>" p] load ev(1) by (simp add: fresh_def)
  qed
qed

text \<open>The events since an invalidation as a run of the system, by the general lemma on invariants.\<close>

interpretation connected: step_invariant
  "\<lambda>w w'. connectedStep dec R q i w w' \<and> ParseInvalidationMessage dec payload = Inr msg \<and> namesView msg i" "pendingOrFresh payload R q i"
  for dec R q i payload msg
  by unfold_locales (auto intro: connectedStep_inv)

lemma run_connected:
  assumes "ParseInvalidationMessage dec payload = Inr msg" "namesView msg i" "EDisconnect q \<notin> set evs"
    and "\<And>r. ELoadBegin q i r \<in> set evs \<Longrightarrow> r \<in> R"
  shows "(\<lambda>w w'. connectedStep dec R q i w w' \<and> ParseInvalidationMessage dec payload = Inr msg \<and> namesView msg i)\<^sup>*\<^sup>* w (runEvents dec evs w)"
  using assms(3,4)
proof (induction evs arbitrary: w)
  case (Cons ev evs)
  have "connectedStep dec R q i w (clusterStep dec ev w)" using Cons.prems by (auto simp: connectedStep_def)
  then show ?case using Cons assms(1,2) by (auto simp: runEvents_def intro: converse_rtranclp_into_rtranclp)
qed (simp add: runEvents_def)

lemma invalidate_publishes:
  assumes "InvalidateProgramAll env p i gs w = (Inr (), w')" "ve_Publisher env"
  shows "0 < i" "cl_Inbox w' q = map_option (\<lambda>ms. ms @ [ve_Encode env (invalidationMessage env [programEntry i])]) (cl_Inbox w q)"
    "mc_Loading (cl_Process w' q) = mc_Loading (cl_Process w q)"
proof -
  show i: "0 < i" using assms(1) by (simp add: InvalidateProgramAll_def split: if_splits)
  have "MarshalInvalidationMessage (ve_Encode env) (invalidationMessage env [programEntry i]) = Inr (ve_Encode env (invalidationMessage env [programEntry i]))"
    using i by (simp add: MarshalInvalidationMessage_def Validate_def invalidationMessage_def programEntry_def validateEntry_def cacheProgramDetailView_def)
  then show "cl_Inbox w' q = map_option (\<lambda>ms. ms @ [ve_Encode env (invalidationMessage env [programEntry i])]) (cl_Inbox w q)"
    "mc_Loading (cl_Process w' q) = mc_Loading (cl_Process w q)"
    using assms i by (auto simp: InvalidateProgramAll_def Let_def eval_ctx_def delKeys_def publish_def publishMessage_def broadcast_def split: fault.splits)
qed

text \<open>
  C35. An invalidation reaches every subscribed process. After \<open>InvalidateProgram\<close> has answered with success,
  a process that was subscribed, had no load of the program under way and stays connected holds no outdated
  entry once it has handled its messages: a view it then has, and a note that there is none, come from
  a load begun after the invalidation, whatever the processes did in between. JSON is
  only assumed to give back the message that was encoded.
\<close>

theorem invalidation_reaches_subscribers:
  assumes "ve_Encode env (invalidationMessage env [programEntry i]) \<noteq> []"
    and "dec (ve_Encode env (invalidationMessage env [programEntry i])) = Some (invalidationMessage env [programEntry i])"
    and "InvalidateProgramAll env p i gs w = (Inr (), w1)" "ve_Publisher env"
    and "cl_Inbox w q \<noteq> None" "mc_Loading (cl_Process w q) i = None"
    and "EDisconnect q \<notin> set evs" "cl_Inbox (runEvents dec evs w1) q = Some []"
  shows "(\<forall>view. mc_View (cl_Process (runEvents dec evs w1) q) i = Some view \<longrightarrow> ELoadBegin q i (Inr view) \<in> set evs)
    \<and> (mc_NotFound (cl_Process (runEvents dec evs w1) q) i \<longrightarrow> ELoadBegin q i (Inl errViewNotFound) \<in> set evs)"
proof -
  let ?m = "invalidationMessage env [programEntry i]" and ?R = "{r. ELoadBegin q i r \<in> set evs}"
  let ?payload = "ve_Encode env ?m"
  note pub = invalidate_publishes [OF assms(3,4)]
  have msg: "ParseInvalidationMessage dec ?payload = Inr ?m" "namesView ?m i"
    using assms(1,2) pub(1)
    by (simp_all add: ParseInvalidationMessage_def Validate_def invalidationMessage_def programEntry_def validateEntry_def
        cacheProgramDetailView_def namesView_def)
  have "pendingOrFresh ?payload ?R q i w1" using assms(5,6) pub(2,3) [of q] by (auto simp: pendingOrFresh_def)
  moreover have "(\<lambda>w w'. connectedStep dec ?R q i w w' \<and> ParseInvalidationMessage dec ?payload = Inr ?m \<and> namesView ?m i)\<^sup>*\<^sup>*
      w1 (runEvents dec evs w1)"
    by (rule run_connected [OF msg assms(7)]) simp
  ultimately have "pendingOrFresh ?payload ?R q i (runEvents dec evs w1)" using connected.run_inv by blast
  then show ?thesis using assms(8) by (auto simp: pendingOrFresh_def fresh_def)
qed

text \<open>Two processes; the second has cached a view of program 5 and is subscribed.\<close>

definition duoEnv :: invalidateEnv where
  "duoEnv = \<lparr>ve_Namespace = [], ve_Publisher = True, ve_Clock = 0, ve_Instance = ''a'', ve_Encode = (\<lambda>_. ''m''), ve_Del = NoFault, ve_Publish = NoFault\<rparr>"

definition duoDecode :: "string \<Rightarrow> InvalidationMessage option" where
  "duoDecode s = (if s = ''m'' then Some (invalidationMessage duoEnv [programEntry 5]) else None)"

definition emptyProcess :: processCaches where
  "emptyProcess = \<lparr>mc_View = Map.empty, mc_NotFound = (\<lambda>_. False), mc_Kinds = None, mc_Loading = Map.empty\<rparr>"

definition duoView :: ProgramDetailViewInfo where
  "duoView = toProgramDetailViewInfo demoPrint (case buildProgramModel demoTime demoValues 7 of Inr d \<Rightarrow> d) None None Map.empty []"

definition duoCluster :: "string list option \<Rightarrow> cluster" where
  "duoCluster inbox = \<lparr>cl_Redis = Map.empty, cl_Process = (\<lambda>_. emptyProcess)(1 := emptyProcess\<lparr>mc_View := [5 \<mapsto> duoView]\<rparr>),
     cl_Inbox = [1 \<mapsto> []](1 := inbox)\<rparr>"

lemma duo_invalidates: "fst (InvalidateProgramAll duoEnv p 5 gs w) = Inr ()"
  by (simp add: InvalidateProgramAll_def duoEnv_def Let_def eval_ctx_def delKeys_def publish_def publishMessage_def MarshalInvalidationMessage_def
      Validate_def invalidationMessage_def programEntry_def validateEntry_def cacheProgramDetailView_def broadcast_def)

lemma duo_message: "duoDecode (ve_Encode duoEnv (invalidationMessage duoEnv [programEntry 5])) = Some (invalidationMessage duoEnv [programEntry 5])"
  by (simp add: duoDecode_def duoEnv_def)

theorem invalidation_reaches_subscribers_witness:
  "\<forall>v. mc_View (cl_Process (runEvents duoDecode [EReceive 1] (snd (InvalidateProgramAll duoEnv 0 5 [] (duoCluster (Some []))))) 1) 5 \<noteq> Some v"
proof -
  let ?w = "duoCluster (Some [])"
  let ?w1 = "snd (InvalidateProgramAll duoEnv 0 5 [] ?w)"
  have inv: "InvalidateProgramAll duoEnv 0 5 [] ?w = (Inr (), ?w1)" using duo_invalidates by (metis prod.collapse)
  have pub: "ve_Publisher duoEnv" "ve_Encode duoEnv (invalidationMessage duoEnv [programEntry 5]) \<noteq> []" by (simp_all add: duoEnv_def)
  have w: "cl_Inbox ?w 1 \<noteq> None" "mc_Loading (cl_Process ?w 1) 5 = None" by (simp_all add: duoCluster_def emptyProcess_def)
  have "cl_Inbox ?w1 1 = Some [''m'']"
    using invalidate_publishes(2) [OF inv pub(1), of 1] by (simp add: duoCluster_def) (simp add: duoEnv_def)
  then have "cl_Inbox (runEvents duoDecode [EReceive 1] ?w1) 1 = Some []" by (simp add: runEvents_def receive_def)
  from invalidation_reaches_subscribers [OF pub(2) duo_message inv pub(1) w _ this]
  show ?thesis by simp
qed

section \<open>Where outdated views survive\<close>

text \<open>
  C37. Two ways for a process to keep an outdated view although the invalidation has succeeded. A load that
  was under way puts what it had read before into the cache after the invalidation, even after the message, because
  invalidating does not reach the load group. And a process that was not connected when the message was published
  never gets it: connecting again starts from an empty inbox and clears nothing.
\<close>

theorem outdated_view_survives:
  assumes "InvalidateProgramAll env p i gs w = (Inr (), w1)" "ve_Publisher env" "p \<noteq> q"
  shows "(cl_Inbox w q = Some [] \<and> mc_Loading (cl_Process w q) i = Some (Inr view) \<longrightarrow>
      cl_Inbox (runEvents dec [EReceive q, ELoadEnd q i] w1) q = Some []
      \<and> mc_View (cl_Process (runEvents dec [EReceive q, ELoadEnd q i] w1) q) i = Some view)
    \<and> (cl_Inbox w q = None \<and> mc_View (cl_Process w q) i = Some view \<longrightarrow>
      cl_Inbox (runEvents dec [ESubscribe q, EReceive q] w1) q = Some []
      \<and> mc_View (cl_Process (runEvents dec [ESubscribe q, EReceive q] w1) q) i = Some view)"
proof -
  note pub = invalidate_publishes [OF assms(1,2)]
  have same: "cl_Process w1 q = cl_Process w q"
    using assms pub(1)
    by (auto simp: InvalidateProgramAll_def Let_def eval_ctx_def delKeys_def publish_def publishMessage_def broadcast_def MarshalInvalidationMessage_def
        split: fault.splits sum.splits)
  have "mc_Loading (snd (handlePayload dec m l)) = mc_Loading l" for m l by (rule fresh_handle(2))
  then show ?thesis
    using pub(2,3) [of q] same by (auto simp: runEvents_def receive_def detailGetEnd_def Let_def)
qed

theorem outdated_view_survives_witness:
  "mc_View (cl_Process (runEvents duoDecode [ESubscribe 1, EReceive 1] (snd (InvalidateProgramAll duoEnv 0 5 [] (duoCluster None)))) 1) 5 = Some duoView"
proof -
  let ?w = "duoCluster None"
  have inv: "InvalidateProgramAll duoEnv 0 5 [] ?w = (Inr (), snd (InvalidateProgramAll duoEnv 0 5 [] ?w))"
    using duo_invalidates by (metis prod.collapse)
  have pub: "ve_Publisher duoEnv" by (simp add: duoEnv_def)
  have "cl_Inbox ?w 1 = None \<and> mc_View (cl_Process ?w 1) 5 = Some duoView" by (simp add: duoCluster_def emptyProcess_def)
  with outdated_view_survives [OF inv pub, of 1 duoView duoDecode] show ?thesis by simp
qed

section \<open>One process of the cluster\<close>

text \<open>
  The catalogue of one process and the cluster agree: reading a view is the two halves of a load run
  without interruption, and an invalidation in the catalogue is what \<open>InvalidateProgramAll\<close> does to the
  process that calls it.
\<close>

definition processOf :: "catalogue \<Rightarrow> processCaches" where
  "processOf c = \<lparr>mc_View = lc_View (ct_Caches c), mc_NotFound = lc_NotFound (ct_Caches c), mc_Kinds = lc_Kinds (ct_Caches c),
     mc_Loading = Map.empty\<rparr>"

lemma LoadView_local:
  "lc_View (ct_Caches (snd (LoadView env i c))) = lc_View (ct_Caches c)"
  "lc_NotFound (ct_Caches (snd (LoadView env i c))) = lc_NotFound (ct_Caches c)"
proof -
  have "lc_View (ct_Caches (snd (GetAll env k c))) = lc_View (ct_Caches c) \<and> lc_NotFound (ct_Caches (snd (GetAll env k c))) = lc_NotFound (ct_Caches c)" for k
    by (simp add: GetAll_def Let_def split: option.split)
  then have "lc_View (ct_Caches (snd (LoadView env i c))) = lc_View (ct_Caches c) \<and> lc_NotFound (ct_Caches (snd (LoadView env i c))) = lc_NotFound (ct_Caches c)"
    by (auto simp: LoadView_def split: sum.split prod.split) (metis snd_conv)+
  then show "lc_View (ct_Caches (snd (LoadView env i c))) = lc_View (ct_Caches c)"
    "lc_NotFound (ct_Caches (snd (LoadView env i c))) = lc_NotFound (ct_Caches c)" by simp_all
qed

lemma GetView_halves:
  "mc_View (processOf (snd (GetView env i c))) = mc_View (detailGetEnd i (detailGetBegin i (fst (LoadView env i c)) (processOf c)))"
  "mc_NotFound (processOf (snd (GetView env i c))) = mc_NotFound (detailGetEnd i (detailGetBegin i (fst (LoadView env i c)) (processOf c)))"
  using LoadView_local [of env i c]
  by (cases "LoadView env i c"; cases "fst (LoadView env i c)";
      force simp: GetView_def processOf_def detailGetEnd_def detailGetBegin_def Let_def split: option.split)+

lemma InvalidateProgram_of_process:
  assumes "cl_Process w p = processOf c" "ge_Invalidate env = None \<longleftrightarrow> ve_Del venv = NoFault"
  shows "processOf (InvalidateProgram env i gs c) = cl_Process (snd (InvalidateProgramAll venv p i gs w)) p"
  using assms by (auto simp: InvalidateProgram_def InvalidateProgramAll_def processOf_def InvalidateView_def Let_def eval_ctx_def delKeys_def
      publish_frame(1) detailInvalidate_def split: fault.split)

end
