(* ===== verification/ProgramLists.thy ===== *)
theory ProgramLists
  imports CatalogueProps "HOL-Library.Option_ord"
begin

text \<open>
  The lists of programs: \<open>page_programs_logic.go\<close>, \<open>list_home_programs_logic.go\<close>, the queries of
  \<open>model/d_program_model.go\<close> behind them and the maps of \<open>program_domain_helper.go\<close> that join programs with
  their first show, their categories and their prices. The lists read the tables and no cache. \<open>day\<close> is
  how the database reads a text as a time in a comparison; a text it does not read, like a null in
  the column, compares to nothing. In an ascending order nulls come first.
\<close>

section \<open>Queries\<close>

record ProgramHomeListQuery =
  hq_AreaId :: int
  hq_ParentProgramCategoryIds :: "int list"
  hq_Limit :: int

record ProgramPageListQuery =
  pq_PageNumber :: int
  pq_PageSize :: int
  pq_AreaId :: int
  pq_ParentProgramCategoryId :: int
  pq_ProgramCategoryId :: int
  pq_TimeType :: int
  pq_StartDateTime :: string
  pq_EndDateTime :: string
  pq_Type :: int

definition buildProgramBaseConditions :: "int \<Rightarrow> DProgram \<Rightarrow> bool" where
  "buildProgramBaseConditions areaId p \<longleftrightarrow>
     dp_Status p = 1 \<and> dp_ProgramStatus p = 1 \<and> (if 0 < areaId then dp_AreaId p = areaId else dp_Prime p = 1)"

definition showWithin :: "(string \<Rightarrow> int option) \<Rightarrow> string \<Rightarrow> string \<Rightarrow> DProgramShowTime \<Rightarrow> bool" where
  "showWithin day a b s \<longleftrightarrow>
     (case (sh_ShowDayTime s, day a, day b) of (Some t, Some x, Some y) \<Rightarrow> x \<le> t \<and> t \<le> y | _ \<Rightarrow> False)"

definition buildProgramPageConditions :: "(string \<Rightarrow> int option) \<Rightarrow> DProgramShowTime list \<Rightarrow> ProgramPageListQuery \<Rightarrow> DProgram \<Rightarrow> bool" where
  "buildProgramPageConditions day shows q p \<longleftrightarrow>
     buildProgramBaseConditions (pq_AreaId q) p \<and>
     (0 < pq_ParentProgramCategoryId q \<longrightarrow> dp_ParentProgramCategoryId p = pq_ParentProgramCategoryId q) \<and>
     (0 < pq_ProgramCategoryId q \<longrightarrow> dp_ProgramCategoryId p = pq_ProgramCategoryId q) \<and>
     (0 < pq_TimeType q \<and> pq_StartDateTime q \<noteq> [] \<and> pq_EndDateTime q \<noteq> [] \<longrightarrow>
       list_ex (\<lambda>s. sh_ProgramId s = dp_Id p \<and> sh_Status s = 1 \<and> showWithin day (pq_StartDateTime q) (pq_EndDateTime q) s) shows)"

definition hotFirst :: "DProgram \<Rightarrow> int \<times> int" where
  "hotFirst p = (- dp_HighHeat p, - dp_Id p)"

text \<open>The subquery of the third order is null for a program without an active show.\<close>

definition buildProgramPageOrderBy :: "DProgramShowTime list \<Rightarrow> int \<Rightarrow> DProgram list \<Rightarrow> DProgram list" where
  "buildProgramPageOrderBy shows tp =
     (if tp = 2 then sort_key hotFirst
      else if tp = 3 then sort_key (\<lambda>p. (map_option sh_ShowTime (firstShowRow shows (dp_Id p)), dp_Id p))
      else if tp = 4 then sort_key (\<lambda>p. (dp_IssueTime p, dp_Id p))
      else sort_key (\<lambda>p. - dp_Id p))"

definition FindHomeList :: "DProgram list \<Rightarrow> ProgramHomeListQuery \<Rightarrow> DProgram list" where
  "FindHomeList tb q =
     (let rows = sort_key hotFirst (filter (\<lambda>p. buildProgramBaseConditions (hq_AreaId q) p \<and>
        (hq_ParentProgramCategoryIds q \<noteq> [] \<longrightarrow> dp_ParentProgramCategoryId p \<in> set (hq_ParentProgramCategoryIds q))) tb) in
      if 0 < hq_Limit q then take (nat (hq_Limit q)) rows else rows)"

definition CountPageList :: "(string \<Rightarrow> int option) \<Rightarrow> catalogue \<Rightarrow> ProgramPageListQuery \<Rightarrow> int" where
  "CountPageList day c q = int (length (filter (buildProgramPageConditions day (ct_Shows c) q) (ct_Programs c)))"

text \<open>The offset is computed in 64 bits; the database refuses a negative one.\<close>

definition FindPageList :: "(string \<Rightarrow> int option) \<Rightarrow> catalogue \<Rightarrow> ProgramPageListQuery \<Rightarrow> DProgram list res" where
  "FindPageList day c q =
     (let pageNumber = (if pq_PageNumber q \<le> 0 then 1 else pq_PageNumber q);
          pageSize = (if pq_PageSize q \<le> 0 then 10 else pq_PageSize q);
          offset = wrap64 ((pageNumber - 1) * pageSize) in
      if offset < 0 then Inl (Other ''negative offset'')
      else Inr (take (nat pageSize) (drop (nat offset)
        (buildProgramPageOrderBy (ct_Shows c) (pq_Type q) (filter (buildProgramPageConditions day (ct_Shows c) q) (ct_Programs c))))))"

text \<open>One row per program with an active category, by \<open>group by\<close>: the program, its lowest and its highest price.\<close>

definition FindPriceAggregateByProgramIds :: "DTicketCategory list \<Rightarrow> int list \<Rightarrow> (int \<times> int \<times> int) list" where
  "FindPriceAggregateByProgramIds tb ids =
     (let rows = filter (\<lambda>t. tc_Status t = 1 \<and> tc_ProgramId t \<in> set ids) tb in
      map (\<lambda>i. let prices = map tc_Price (filter (\<lambda>t. tc_ProgramId t = i) rows) in
        (i, fold min (tl prices) (hd prices), fold max (tl prices) (hd prices))) (remdups (map tc_ProgramId rows)))"

section \<open>Cards\<close>

record ticketPriceRange =
  tr_MinPrice :: int
  tr_MaxPrice :: int

record ProgramListInfo =
  li_Id :: int
  li_Title :: string
  li_Actor :: string
  li_Place :: string
  li_ItemPicture :: string
  li_AreaId :: int
  li_AreaName :: string
  li_ProgramCategoryId :: int
  li_ProgramCategoryName :: string
  li_ParentProgramCategoryId :: int
  li_ParentProgramCategoryName :: string
  li_ShowTime :: string
  li_ShowDayTime :: string
  li_ShowWeekTime :: string
  li_MinPrice :: int
  li_MaxPrice :: int
  li_EsId :: int

text \<open>A missing key of the map of ranges reads as the zero range.\<close>

definition mapTicketPriceRange :: "(int \<times> int \<times> int) list \<Rightarrow> int \<Rightarrow> ticketPriceRange" where
  "mapTicketPriceRange aggregates =
     fold (\<lambda>(i, lo, hi) m. m(i := \<lparr>tr_MinPrice = lo, tr_MaxPrice = hi\<rparr>)) aggregates (\<lambda>_. \<lparr>tr_MinPrice = 0, tr_MaxPrice = 0\<rparr>)"

definition mapFirstShowTime :: "DProgramShowTime list \<Rightarrow> int \<rightharpoonup> DProgramShowTime" where
  "mapFirstShowTime showTimes =
     fold (\<lambda>s m. if m (sh_ProgramId s) \<noteq> None then m else m(sh_ProgramId s \<mapsto> s)) showTimes Map.empty"

text \<open>No handler sets \<open>EsId\<close>.\<close>

definition toProgramListInfo :: "(int \<Rightarrow> string) \<Rightarrow> DProgram \<Rightarrow> DProgramShowTime option \<Rightarrow> (int \<rightharpoonup> DProgramCategory)
    \<Rightarrow> ticketPriceRange \<Rightarrow> ProgramListInfo" where
  "toProgramListInfo fmt program firstShowTime categories priceRange =
     \<lparr>li_Id = dp_Id program, li_Title = dp_Title program, li_Actor = nullStringValue (dp_Actor program),
      li_Place = nullStringValue (dp_Place program), li_ItemPicture = nullStringValue (dp_ItemPicture program),
      li_AreaId = dp_AreaId program, li_AreaName = [], li_ProgramCategoryId = dp_ProgramCategoryId program,
      li_ProgramCategoryName = categoryName (categories (dp_ProgramCategoryId program)),
      li_ParentProgramCategoryId = dp_ParentProgramCategoryId program,
      li_ParentProgramCategoryName = categoryName (categories (dp_ParentProgramCategoryId program)),
      li_ShowTime = formatProgramShowTime fmt firstShowTime, li_ShowDayTime = formatProgramShowDayTime fmt firstShowTime,
      li_ShowWeekTime = programShowWeekTime firstShowTime, li_MinPrice = tr_MinPrice priceRange, li_MaxPrice = tr_MaxPrice priceRange, li_EsId = 0\<rparr>"

text \<open>A statement that finds nothing leaves an empty list; the handlers go on with it.\<close>

definition orEmpty :: "'a list res \<Rightarrow> 'a list res" where
  "orEmpty r = (case r of Inl e \<Rightarrow> if e = ModelNotFound then Inr [] else Inl e | Inr xs \<Rightarrow> Inr xs)"

section \<open>Pages\<close>

record PageProgramsReq =
  pr_PageNumber :: int
  pr_PageSize :: int
  pr_AreaId :: int
  pr_ParentProgramCategoryId :: int
  pr_ProgramCategoryId :: int
  pr_TimeType :: int
  pr_StartDateTime :: string
  pr_EndDateTime :: string
  pr_Type :: int

record ProgramPageResp =
  gp_PageNum :: int
  gp_PageSize :: int
  gp_TotalSize :: int
  gp_List :: "ProgramListInfo list"

definition validatePageProgramsReq :: "PageProgramsReq \<Rightarrow> unit res" where
  "validatePageProgramsReq req =
     (if pr_TimeType req = 5 \<and> (pr_StartDateTime req = [] \<or> pr_EndDateTime req = []) then Inl errInvalid else Inr ())"

definition pageQuery :: "PageProgramsReq \<Rightarrow> ProgramPageListQuery" where
  "pageQuery req = \<lparr>pq_PageNumber = (if pr_PageNumber req \<le> 0 then 1 else pr_PageNumber req),
     pq_PageSize = (if pr_PageSize req \<le> 0 then 10 else pr_PageSize req), pq_AreaId = pr_AreaId req,
     pq_ParentProgramCategoryId = pr_ParentProgramCategoryId req, pq_ProgramCategoryId = pr_ProgramCategoryId req,
     pq_TimeType = pr_TimeType req, pq_StartDateTime = pr_StartDateTime req, pq_EndDateTime = pr_EndDateTime req, pq_Type = pr_Type req\<rparr>"

definition PagePrograms :: "(string \<Rightarrow> int option) \<Rightarrow> catalogueEnv \<Rightarrow> PageProgramsReq \<Rightarrow> catalogue \<Rightarrow> ProgramPageResp res" where
  "PagePrograms day env req c =
     (case validatePageProgramsReq req of Inl e \<Rightarrow> Inl e | Inr _ \<Rightarrow>
      (let query = pageQuery req in
       case (case ge_Fault env 0 of Some e \<Rightarrow> if e = ModelNotFound then Inr 0 else Inl e | None \<Rightarrow> Inr (CountPageList day c query)) of
         Inl e \<Rightarrow> Inl e
       | Inr totalSize \<Rightarrow>
         (let resp = \<lparr>gp_PageNum = pq_PageNumber query, gp_PageSize = pq_PageSize query, gp_TotalSize = totalSize, gp_List = []\<rparr> in
          if totalSize = 0 then Inr resp else
          case orFault (ge_Fault env 1) (FindPageList day c query) of
            Inl e \<Rightarrow> if e = ModelNotFound then Inr resp else Inl e
          | Inr programs \<Rightarrow>
          (case orEmpty (orFault (ge_Fault env 2) (Inr (FindAllKinds (ct_Kinds c)))) of Inl e \<Rightarrow> Inl e | Inr categories \<Rightarrow>
          (case orEmpty (orFault (ge_Fault env 3) (Inr (FindByProgramIds (ct_Shows c) (map dp_Id programs)))) of Inl e \<Rightarrow> Inl e | Inr showTimes \<Rightarrow>
          (case orEmpty (orFault (ge_Fault env 4) (Inr (FindPriceAggregateByProgramIds (ct_Categories c) (map dp_Id programs)))) of
             Inl e \<Rightarrow> Inl e
           | Inr priceAggregates \<Rightarrow>
             Inr (resp\<lparr>gp_List := map (\<lambda>p. toProgramListInfo (ge_Format env) p (mapFirstShowTime showTimes (dp_Id p))
               (buildCategoryMap categories) (mapTicketPriceRange priceAggregates (dp_Id p))) programs\<rparr>)))))))"

section \<open>Home list\<close>

record ProgramHomeSection =
  hs_CategoryName :: string
  hs_CategoryId :: int
  hs_ProgramListVoList :: "ProgramListInfo list"

definition homeListLimit :: "int list \<Rightarrow> int" where
  "homeListLimit parentCategoryIDs = (if parentCategoryIDs = [] then 7 else int (length parentCategoryIDs * 7))"

text \<open>The Go map of groups is an association list: appending to the value of a key, which starts empty.\<close>

fun appendGroup :: "int \<Rightarrow> 'a \<Rightarrow> (int \<times> 'a list) list \<Rightarrow> (int \<times> 'a list) list" where
  "appendGroup k x [] = [(k, [x])]"
| "appendGroup k x ((j, ys) # al) = (if j = k then (j, ys @ [x]) # al else (j, ys) # appendGroup k x al)"

definition groupOf :: "(int \<times> 'a list) list \<Rightarrow> int \<Rightarrow> 'a list" where
  "groupOf al k = (case map_of al k of None \<Rightarrow> [] | Some xs \<Rightarrow> xs)"

definition orderedHomeParentCategoryIDs :: "int list \<Rightarrow> (int \<times> 'a list) list \<Rightarrow> int list" where
  "orderedHomeParentCategoryIDs parentCategoryIDs grouped =
     (if parentCategoryIDs \<noteq> [] then parentCategoryIDs else sort (map fst grouped))"

definition ListHomePrograms :: "catalogueEnv \<Rightarrow> int \<Rightarrow> int list \<Rightarrow> catalogue \<Rightarrow> ProgramHomeSection list res" where
  "ListHomePrograms env areaId parentIds c =
     (case orEmpty (orFault (ge_Fault env 0) (Inr (FindAllKinds (ct_Kinds c)))) of Inl e \<Rightarrow> Inl e | Inr categories \<Rightarrow>
     (case orEmpty (orFault (ge_Fault env 1) (Inr (FindHomeList (ct_Programs c)
        \<lparr>hq_AreaId = areaId, hq_ParentProgramCategoryIds = parentIds, hq_Limit = homeListLimit parentIds\<rparr>))) of Inl e \<Rightarrow> Inl e | Inr programs \<Rightarrow>
      if programs = [] then Inr [] else
     (case orEmpty (orFault (ge_Fault env 2) (Inr (FindByProgramIds (ct_Shows c) (map dp_Id programs)))) of Inl e \<Rightarrow> Inl e | Inr showTimes \<Rightarrow>
     (case orEmpty (orFault (ge_Fault env 3) (Inr (FindPriceAggregateByProgramIds (ct_Categories c) (map dp_Id programs)))) of
        Inl e \<Rightarrow> Inl e
      | Inr priceAggregates \<Rightarrow>
        (let grouped = fold (\<lambda>p. appendGroup (dp_ParentProgramCategoryId p) (toProgramListInfo (ge_Format env) p
               (mapFirstShowTime showTimes (dp_Id p)) (buildCategoryMap categories) (mapTicketPriceRange priceAggregates (dp_Id p)))) programs [];
             orderedIDs = orderedHomeParentCategoryIDs parentIds grouped in
         Inr (map (\<lambda>i. \<lparr>hs_CategoryName = categoryName (buildCategoryMap categories i), hs_CategoryId = i,
             hs_ProgramListVoList = take 7 (groupOf grouped i)\<rparr>) (filter (\<lambda>i. groupOf grouped i \<noteq> []) orderedIDs)))))))"

section \<open>Cards of the reference\<close>

text \<open>
  What a card has to show: the first active show of the program and the range of the prices of its
  active categories, looked up for the program alone.
\<close>

definition activePrices :: "DTicketCategory list \<Rightarrow> int \<Rightarrow> int list" where
  "activePrices tb i = map tc_Price (filter (\<lambda>t. tc_Status t = 1 \<and> tc_ProgramId t = i) tb)"

definition priceRangeOf :: "DTicketCategory list \<Rightarrow> int \<Rightarrow> ticketPriceRange" where
  "priceRangeOf tb i =
     (if activePrices tb i = [] then \<lparr>tr_MinPrice = 0, tr_MaxPrice = 0\<rparr>
      else \<lparr>tr_MinPrice = Min (set (activePrices tb i)), tr_MaxPrice = Max (set (activePrices tb i))\<rparr>)"

definition programCard :: "catalogueEnv \<Rightarrow> catalogue \<Rightarrow> DProgram \<Rightarrow> ProgramListInfo" where
  "programCard env c p = toProgramListInfo (ge_Format env) p (firstShowRow (ct_Shows c) (dp_Id p))
     (buildCategoryMap (FindAllKinds (ct_Kinds c))) (priceRangeOf (ct_Categories c) (dp_Id p))"

lemma find_filter: "find P xs = (case filter P xs of [] \<Rightarrow> None | x # _ \<Rightarrow> Some x)"
  by (induction xs) auto

lemma sort_key_order:
  assumes "\<And>x y. x \<in> set xs \<Longrightarrow> y \<in> set xs \<Longrightarrow> f x \<le> f y \<longleftrightarrow> g x \<le> g y"
  shows "sort_key f xs = sort_key g xs"
  using assms
proof (induction xs)
  case (Cons a xs)
  have "insort_key f a ys = insort_key g a ys" if "set ys \<subseteq> set (a # xs)" for ys
    using that by (induction ys) (auto simp: Cons.prems)
  then show ?case using Cons by (auto simp: subset_insertI)
qed simp

lemma mapFirstShowTime_find: "mapFirstShowTime xs i = find (\<lambda>s. sh_ProgramId s = i) xs"
proof -
  have "fold (\<lambda>s m. if m (sh_ProgramId s) \<noteq> None then m else m(sh_ProgramId s \<mapsto> s)) xs m i
    = (case m i of None \<Rightarrow> find (\<lambda>s. sh_ProgramId s = i) xs | Some s \<Rightarrow> Some s)" for m
    by (induction xs arbitrary: m) (auto split: option.splits)
  then show ?thesis by (simp add: mapFirstShowTime_def)
qed

lemma first_show_of_ids:
  assumes "i \<in> set ids"
  shows "mapFirstShowTime (FindByProgramIds tb ids) i = firstShowRow tb i"
proof -
  let ?xs = "filter (\<lambda>s. sh_Status s = 1 \<and> sh_ProgramId s = i) tb"
  have "filter (\<lambda>s. sh_ProgramId s = i) (FindByProgramIds tb ids) = sort_key (\<lambda>s. (sh_ProgramId s, sh_ShowTime s)) ?xs"
    using assms by (auto simp: FindByProgramIds_def filter_sort conj_commute intro!: arg_cong [of _ _ "sort_key _"] filter_cong)
  also have "\<dots> = sort_key sh_ShowTime ?xs" by (rule sort_key_order) (auto simp: less_eq_prod_def)
  finally show ?thesis by (simp add: mapFirstShowTime_find find_filter firstShowRow_def)
qed

lemma mapTicketPriceRange_keys:
  "mapTicketPriceRange (map (\<lambda>j. (j, a j, b j)) ks) i
     = (if i \<in> set ks then \<lparr>tr_MinPrice = a i, tr_MaxPrice = b i\<rparr> else \<lparr>tr_MinPrice = 0, tr_MaxPrice = 0\<rparr>)"
  by (induction ks rule: rev_induct) (auto simp: mapTicketPriceRange_def)

lemma fold_min_max:
  assumes "xs \<noteq> []"
  shows "fold min (tl xs) (hd xs) = Min (set xs)" and "fold max (tl xs) (hd xs) = Max (set (xs :: int list))"
  using assms by (cases xs; simp add: Min.set_eq_fold Max.set_eq_fold del: set_simps list.set)+

lemma price_range_of_ids:
  assumes "i \<in> set ids"
  shows "mapTicketPriceRange (FindPriceAggregateByProgramIds tb ids) i = priceRangeOf tb i"
proof -
  let ?rows = "filter (\<lambda>t. tc_Status t = 1 \<and> tc_ProgramId t \<in> set ids) tb"
  have p: "map tc_Price (filter (\<lambda>t. tc_ProgramId t = i) ?rows) = activePrices tb i"
    using assms by (auto simp: activePrices_def intro!: arg_cong [of _ _ "map _"] filter_cong)
  have "i \<in> set (remdups (map tc_ProgramId ?rows)) \<longleftrightarrow> activePrices tb i \<noteq> []"
    using assms by (auto simp: activePrices_def filter_empty_conv)
  then show ?thesis
    by (simp add: FindPriceAggregateByProgramIds_def Let_def mapTicketPriceRange_keys p fold_min_max priceRangeOf_def del: set_remdups filter_filter)
qed

lemma cards_of_ids:
  "map (\<lambda>p. toProgramListInfo (ge_Format env) p (mapFirstShowTime (FindByProgramIds (ct_Shows c) (map dp_Id ps)) (dp_Id p))
     (buildCategoryMap (FindAllKinds (ct_Kinds c))) (mapTicketPriceRange (FindPriceAggregateByProgramIds (ct_Categories c) (map dp_Id ps)) (dp_Id p))) ps
   = map (programCard env c) ps"
  by (auto simp: programCard_def first_show_of_ids price_range_of_ids)

section \<open>Pages cover the list\<close>

definition matching :: "(string \<Rightarrow> int option) \<Rightarrow> PageProgramsReq \<Rightarrow> catalogue \<Rightarrow> DProgram list" where
  "matching day req c = filter (buildProgramPageConditions day (ct_Shows c) (pageQuery req)) (ct_Programs c)"

definition listed :: "(string \<Rightarrow> int option) \<Rightarrow> PageProgramsReq \<Rightarrow> catalogue \<Rightarrow> DProgram list" where
  "listed day req c = buildProgramPageOrderBy (ct_Shows c) (pr_Type req) (matching day req c)"

lemma orderBy_mset [simp]: "mset (buildProgramPageOrderBy shows tp xs) = mset xs"
  by (simp add: buildProgramPageOrderBy_def)

lemma orderBy_length [simp]: "length (buildProgramPageOrderBy shows tp xs) = length xs"
  by (metis orderBy_mset size_mset)

lemma orderBy_set [simp]: "set (buildProgramPageOrderBy shows tp xs) = set xs"
  by (metis orderBy_mset set_mset_mset)

lemma concat_pages: "concat (map (\<lambda>k. take s (drop (k * s) xs)) [0..<n]) = take (n * s) xs"
proof (induction n)
  case (Suc n)
  have "take (Suc n * s) xs = take (n * s) xs @ take s (drop (n * s) xs)" by (metis add.commute mult_Suc take_add)
  with Suc show ?case by simp
qed simp

lemma matching_page: "matching day (req\<lparr>pr_PageNumber := a, pr_PageSize := b\<rparr>) c = matching day req c"
  by (simp add: matching_def pageQuery_def buildProgramPageConditions_def [abs_def])

lemma PagePrograms_page:
  assumes ok: "\<forall>k. ge_Fault env k = None" and valid: "validatePageProgramsReq req = Inr ()"
    and s: "0 < s" and k: "in_int64 (int k * s)"
  shows "PagePrograms day env (req\<lparr>pr_PageNumber := int k + 1, pr_PageSize := s\<rparr>) c
    = Inr \<lparr>gp_PageNum = int k + 1, gp_PageSize = s, gp_TotalSize = int (length (listed day req c)),
        gp_List = map (programCard env c) (take (nat s) (drop (k * nat s) (listed day req c)))\<rparr>"
proof -
  let ?req = "req\<lparr>pr_PageNumber := int k + 1, pr_PageSize := s\<rparr>"
  have v: "validatePageProgramsReq ?req = Inr ()" using valid by (simp add: validatePageProgramsReq_def)
  have q: "pq_PageNumber (pageQuery ?req) = int k + 1" "pq_PageSize (pageQuery ?req) = s" "pq_Type (pageQuery ?req) = pr_Type req"
    using s by (simp_all add: pageQuery_def)
  have count: "CountPageList day c (pageQuery ?req) = int (length (listed day req c))"
    using matching_page [of day s "int k + 1" req c] by (simp add: CountPageList_def listed_def matching_def)
  have off: "nat (int k * s) = k * nat s" using s by (simp add: nat_mult_distrib)
  have find: "FindPageList day c (pageQuery ?req) = Inr (take (nat s) (drop (k * nat s) (listed day req c)))"
    using matching_page [of day s "int k + 1" req c] s
    by (simp add: FindPageList_def Let_def q wrap64_id [OF k] listed_def matching_def off mult_less_0_iff)
  show ?thesis
    by (simp add: PagePrograms_def v Let_def ok count find orFault_def orEmpty_def cards_of_ids q)
qed

text \<open>
  C34. Turning the pages of a list shows it completely: while the database answers, page after page reports
  the same total, no page is longer than asked for, and the pages put together are the cards of the
  matching programs in the requested order, every matching program exactly once, with the first show and
  the price range of the program. The joins of a page look up the programs of this page only, and the
  cards do not depend on the page they are on.
\<close>

theorem pages_cover_list:
  assumes "\<forall>k. ge_Fault env k = None" "validatePageProgramsReq req = Inr ()" "0 < s" "in_int64 (int n * s)"
    and "int (length (matching day req c)) \<le> int n * s"
  shows "\<exists>pages. length pages = n
    \<and> (\<forall>k < n. length (pages ! k) \<le> nat s
        \<and> PagePrograms day env (req\<lparr>pr_PageNumber := int k + 1, pr_PageSize := s\<rparr>) c
          = Inr \<lparr>gp_PageNum = int k + 1, gp_PageSize = s, gp_TotalSize = int (length (matching day req c)), gp_List = pages ! k\<rparr>)
    \<and> concat pages = map (programCard env c) (listed day req c)
    \<and> mset (listed day req c) = mset (matching day req c)"
proof (intro exI conjI allI impI)
  let ?page = "\<lambda>k. map (programCard env c) (take (nat s) (drop (k * nat s) (listed day req c)))"
  have len: "length (listed day req c) = length (matching day req c)" by (simp add: listed_def)
  show "length (map ?page [0..<n]) = n" by simp
  show "mset (listed day req c) = mset (matching day req c)" by (simp add: listed_def)
  have "length (matching day req c) \<le> n * nat s"
    using assms(3,5) by (metis nat_int nat_mono nat_mult_distrib of_nat_0_le_iff)
  moreover have "concat (map ?page [0..<n]) = map (programCard env c) (concat (map (\<lambda>k. take (nat s) (drop (k * nat s) (listed day req c))) [0..<n]))"
    by (simp add: map_concat comp_def)
  ultimately show "concat (map ?page [0..<n]) = map (programCard env c) (listed day req c)"
    by (simp add: concat_pages len)
  fix k assume k: "k < n"
  then show "length (map ?page [0..<n] ! k) \<le> nat s" by simp
  have "int k * s \<le> int n * s" using k assms(3) by (intro mult_right_mono) simp_all
  moreover have "0 \<le> int k * s" using assms(3) by simp
  ultimately have "in_int64 (int k * s)" using assms(4) by (auto simp: in_int64_def int64_min_def)
  from PagePrograms_page [OF assms(1-3) this] k
  show "PagePrograms day env (req\<lparr>pr_PageNumber := int k + 1, pr_PageSize := s\<rparr>) c
    = Inr \<lparr>gp_PageNum = int k + 1, gp_PageSize = s, gp_TotalSize = int (length (matching day req c)), gp_List = map ?page [0..<n] ! k\<rparr>"
    by (simp add: len)
qed

text \<open>Fifteen programs on sale: fourteen of one category, which are hot, and one of another.\<close>

definition fairProgram :: "int \<Rightarrow> int \<Rightarrow> int \<Rightarrow> DProgram" where
  "fairProgram i parent heat = demoProgramRow\<lparr>dp_Id := i, dp_ParentProgramCategoryId := parent, dp_HighHeat := heat, dp_Prime := 1,
     dp_ProgramStatus := 1, dp_Status := 1\<rparr>"

definition fairCatalogue :: catalogue where
  "fairCatalogue = demoCatalogue\<lparr>ct_Programs := fairProgram 100 2 0 # map (\<lambda>k. fairProgram (int k + 1) 1 1) [0..<14]\<rparr>"

definition fairReq :: PageProgramsReq where
  "fairReq = \<lparr>pr_PageNumber = 0, pr_PageSize = 0, pr_AreaId = 0, pr_ParentProgramCategoryId = 0, pr_ProgramCategoryId = 0,
     pr_TimeType = 0, pr_StartDateTime = [], pr_EndDateTime = [], pr_Type = 2\<rparr>"

lemma demoCatEnv_works: "\<forall>k. ge_Fault demoCatEnv k = None"
  by (simp add: demoCatEnv_def)

theorem pages_cover_list_witness:
  "\<exists>pages. length pages = 3 \<and> concat pages = map (programCard demoCatEnv fairCatalogue) (listed demoTime fairReq fairCatalogue)"
proof -
  have "length (matching demoTime fairReq fairCatalogue) = 15" "validatePageProgramsReq fairReq = Inr ()" by code_simp+
  then show ?thesis
    using pages_cover_list [OF demoCatEnv_works, of fairReq 6 3 demoTime fairCatalogue]
    by (auto simp: in_int64_def int64_min_def int64_max_def)
qed

section \<open>Sections of the home list\<close>

definition homeCandidates :: "int \<Rightarrow> int list \<Rightarrow> catalogue \<Rightarrow> DProgram list" where
  "homeCandidates areaId parentIds c = sort_key hotFirst (filter (\<lambda>p. buildProgramBaseConditions areaId p \<and>
     (parentIds \<noteq> [] \<longrightarrow> dp_ParentProgramCategoryId p \<in> set parentIds)) (ct_Programs c))"

definition homeSection :: "catalogueEnv \<Rightarrow> catalogue \<Rightarrow> DProgram list \<Rightarrow> int \<Rightarrow> ProgramHomeSection" where
  "homeSection env c ps i = \<lparr>hs_CategoryName = categoryName (buildCategoryMap (FindAllKinds (ct_Kinds c)) i), hs_CategoryId = i,
     hs_ProgramListVoList = take 7 (map (programCard env c) (filter (\<lambda>p. dp_ParentProgramCategoryId p = i) ps))\<rparr>"

definition homeOrder :: "int list \<Rightarrow> DProgram list \<Rightarrow> int list" where
  "homeOrder parentIds ps =
     (if parentIds = [] then sorted_list_of_set (dp_ParentProgramCategoryId ` set ps)
      else filter (\<lambda>i. i \<in> dp_ParentProgramCategoryId ` set ps) parentIds)"

lemma groupOf_append: "groupOf (appendGroup k x al) i = (if i = k then groupOf al i @ [x] else groupOf al i)"
  by (induction k x al rule: appendGroup.induct) (auto simp: groupOf_def)

lemma groupOf_Nil [simp]: "groupOf [] i = []"
  by (simp add: groupOf_def)

lemma appendGroup_keys: "fst ` set (appendGroup k x al) = insert k (fst ` set al)"
  by (induction k x al rule: appendGroup.induct) auto

lemma appendGroup_distinct: "distinct (map fst al) \<Longrightarrow> distinct (map fst (appendGroup k x al))"
  by (induction k x al rule: appendGroup.induct) (auto simp: appendGroup_keys)

lemma groupOf_fold:
  "groupOf (fold (\<lambda>p. appendGroup (f p) (g p)) ps al) i = groupOf al i @ map g (filter (\<lambda>p. f p = i) ps)"
  by (induction ps arbitrary: al) (auto simp: groupOf_append)

lemma fold_group_keys:
  "fst ` set (fold (\<lambda>p. appendGroup (f p) (g p)) ps al) = f ` set ps \<union> fst ` set al"
  "distinct (map fst al) \<Longrightarrow> distinct (map fst (fold (\<lambda>p. appendGroup (f p) (g p)) ps al))"
  by (induction ps arbitrary: al) (simp_all add: appendGroup_keys appendGroup_distinct)

lemma ordered_groups:
  fixes f :: "DProgram \<Rightarrow> int" and g :: "DProgram \<Rightarrow> 'a" and ps :: "DProgram list"
  defines "al \<equiv> fold (\<lambda>p. appendGroup (f p) (g p)) ps []"
  shows "filter (\<lambda>i. groupOf al i \<noteq> []) (orderedHomeParentCategoryIDs parentIds al)
    = (if parentIds = [] then sorted_list_of_set (f ` set ps) else filter (\<lambda>i. i \<in> f ` set ps) parentIds)"
proof -
  have ne: "groupOf al i \<noteq> [] \<longleftrightarrow> i \<in> f ` set ps" for i
    by (auto simp: al_def groupOf_fold filter_empty_conv)
  have keys: "set (map fst al) = f ` set ps" "distinct (map fst al)"
    by (simp_all add: al_def fold_group_keys)
  then have "sort (map fst al) = sorted_list_of_set (f ` set ps)"
    by (metis sorted_list_of_set_sort_remdups distinct_remdups_id)
  moreover have "filter (\<lambda>i. i \<in> f ` set ps) (sort (map fst al)) = sort (map fst al)"
    using keys(1) by (intro filter_True) auto
  ultimately show ?thesis by (simp add: ne orderedHomeParentCategoryIDs_def)
qed

lemma ListHomePrograms_top:
  assumes ok: "\<forall>k. ge_Fault env k = None"
  shows "ListHomePrograms env areaId parentIds c
    = (let ps = take (nat (homeListLimit parentIds)) (homeCandidates areaId parentIds c) in
       Inr (map (homeSection env c ps) (homeOrder parentIds ps)))"
proof -
  let ?ps = "take (nat (homeListLimit parentIds)) (homeCandidates areaId parentIds c)"
  let ?card = "\<lambda>p. toProgramListInfo (ge_Format env) p (mapFirstShowTime (FindByProgramIds (ct_Shows c) (map dp_Id ?ps)) (dp_Id p))
     (buildCategoryMap (FindAllKinds (ct_Kinds c))) (mapTicketPriceRange (FindPriceAggregateByProgramIds (ct_Categories c) (map dp_Id ?ps)) (dp_Id p))"
  have find: "FindHomeList (ct_Programs c) \<lparr>hq_AreaId = areaId, hq_ParentProgramCategoryIds = parentIds, hq_Limit = homeListLimit parentIds\<rparr> = ?ps"
    by (simp add: FindHomeList_def homeCandidates_def homeListLimit_def)
  have card: "map ?card (filter P ?ps) = map (programCard env c) (filter P ?ps)" for P
    by (auto simp: programCard_def first_show_of_ids price_range_of_ids)
  let ?al = "fold (\<lambda>p. appendGroup (dp_ParentProgramCategoryId p) (?card p)) ?ps []"
  have order: "filter (\<lambda>i. groupOf ?al i \<noteq> []) (orderedHomeParentCategoryIDs parentIds ?al) = homeOrder parentIds ?ps"
    unfolding homeOrder_def by (rule ordered_groups)
  have group: "groupOf ?al i = map (programCard env c) (filter (\<lambda>p. dp_ParentProgramCategoryId p = i) ?ps)" for i
    by (simp only: groupOf_fold groupOf_Nil card append_Nil)
  have sections: "map (\<lambda>i. \<lparr>hs_CategoryName = categoryName (buildCategoryMap (FindAllKinds (ct_Kinds c)) i), hs_CategoryId = i,
      hs_ProgramListVoList = take 7 (groupOf ?al i)\<rparr>) is = map (homeSection env c ?ps) is" for "is"
    by (intro map_cong refl) (simp only: group homeSection_def)
  show ?thesis
  proof (cases "?ps = []")
    case True
    then show ?thesis by (simp add: ListHomePrograms_def ok orFault_def orEmpty_def find homeOrder_def Let_def del: take_eq_Nil2 take_eq_Nil)
  next
    case False
    then show ?thesis
      by (simp add: ListHomePrograms_def ok orFault_def orEmpty_def find Let_def order sections)
  qed
qed

text \<open>
  The home page is complete while few programs compete: as long as no more programs match than the
  query may return, seven for every category asked for, the sections are the categories with a matching program, in the
  order asked for or by id, and every section shows the cards of the seven hottest programs of its
  category.
\<close>

theorem home_sections_exact:
  assumes "\<forall>k. ge_Fault env k = None" "int (length (homeCandidates areaId parentIds c)) \<le> homeListLimit parentIds"
  shows "ListHomePrograms env areaId parentIds c
    = Inr (map (homeSection env c (homeCandidates areaId parentIds c)) (homeOrder parentIds (homeCandidates areaId parentIds c)))"
proof -
  have "take (nat (homeListLimit parentIds)) (homeCandidates areaId parentIds c) = homeCandidates areaId parentIds c"
    using assms(2) by simp
  then show ?thesis by (simp add: ListHomePrograms_top [OF assms(1)] Let_def)
qed

theorem home_sections_exact_witness:
  "ListHomePrograms demoCatEnv 0 [2] fairCatalogue
    = Inr (map (homeSection demoCatEnv fairCatalogue (homeCandidates 0 [2] fairCatalogue)) (homeOrder [2] (homeCandidates 0 [2] fairCatalogue)))"
proof -
  have "length (homeCandidates 0 [2] fairCatalogue) = 1" by code_simp
  then show ?thesis using home_sections_exact [OF demoCatEnv_works, of 0 "[2]" fairCatalogue] by (simp add: homeListLimit_def)
qed

lemma smaller_before:
  fixes f :: "'a \<Rightarrow> 'b :: linorder"
  assumes "sorted (map f xs)" "x \<in> set (take n xs)" "\<forall>y \<in> set xs. P y \<longrightarrow> f y < f x"
  shows "length (filter P xs) < n"
proof -
  obtain k where k: "k < length xs" "k < n" "xs ! k = x" using assms(2) by (auto simp: in_set_conv_nth)
  have "\<not> P y" if y: "y \<in> set (drop k xs)" for y
  proof -
    obtain j where j: "j < length (drop k xs)" "drop k xs ! j = y" using y by (auto simp only: in_set_conv_nth)
    have "map f xs ! k \<le> map f xs ! (k + j)" using j(1) k(1) by (intro sorted_nth_mono [OF assms(1)]) auto
    then have "f x \<le> f y" using j k(1,3) by simp
    then show ?thesis using assms(3) y by (meson in_set_dropD leD)
  qed
  then have "filter P xs = filter P (take k xs)"
    by (metis append_Nil2 append_take_drop_id filter_False filter_append)
  then show ?thesis using length_filter_le [of P "take k xs"] k by simp
qed

text \<open>
  C38. Hot programs crowd other categories off the home page. The query takes the hottest programs of all
  categories asked for together, seven times their number, before they are put into sections of seven:
  when one category has that many programs hotter than every program of another one, the other category gets no
  section although programs of it are on sale.
\<close>

theorem home_category_crowded_out:
  assumes "\<forall>k. ge_Fault env k = None" "parentIds \<noteq> []"
    and "7 * length parentIds \<le> length (filter (\<lambda>q. dp_ParentProgramCategoryId q = hot) (homeCandidates areaId parentIds c))"
    and "\<forall>p \<in> set (homeCandidates areaId parentIds c). \<forall>q \<in> set (homeCandidates areaId parentIds c).
      dp_ParentProgramCategoryId p = other \<and> dp_ParentProgramCategoryId q = hot \<longrightarrow> dp_HighHeat p < dp_HighHeat q"
  shows "\<exists>sections. ListHomePrograms env areaId parentIds c = Inr sections \<and> other \<notin> hs_CategoryId ` set sections"
proof -
  let ?all = "homeCandidates areaId parentIds c" and ?n = "nat (homeListLimit parentIds)"
  have "other \<notin> dp_ParentProgramCategoryId ` set (take ?n ?all)"
  proof
    assume "other \<in> dp_ParentProgramCategoryId ` set (take ?n ?all)"
    then obtain p where p: "p \<in> set (take ?n ?all)" "dp_ParentProgramCategoryId p = other" by blast
    have "\<forall>q \<in> set ?all. dp_ParentProgramCategoryId q = hot \<longrightarrow> hotFirst q < hotFirst p"
      using assms(4) p in_set_takeD [OF p(1)] by (auto simp: hotFirst_def)
    moreover have "sorted (map hotFirst ?all)" by (simp add: homeCandidates_def)
    ultimately have "length (filter (\<lambda>q. dp_ParentProgramCategoryId q = hot) ?all) < ?n"
      using smaller_before [OF _ p(1), of hotFirst "\<lambda>q. dp_ParentProgramCategoryId q = hot"] by blast
    then show False using assms(2,3) by (simp add: homeListLimit_def)
  qed
  then have "other \<notin> set (homeOrder parentIds (take ?n ?all))" using assms(2) by (simp add: homeOrder_def)
  then have "other \<notin> hs_CategoryId ` set (map (homeSection env c (take ?n ?all)) (homeOrder parentIds (take ?n ?all)))"
    by (auto simp: homeSection_def)
  then show ?thesis unfolding ListHomePrograms_top [OF assms(1)] Let_def by blast
qed

theorem home_category_crowded_out_witness:
  "fairProgram 100 2 0 \<in> set (homeCandidates 0 [1, 2] fairCatalogue)
   \<and> (\<exists>sections. ListHomePrograms demoCatEnv 0 [1, 2] fairCatalogue = Inr sections \<and> 2 \<notin> hs_CategoryId ` set sections)"
proof
  let ?all = "homeCandidates 0 [1, 2] fairCatalogue"
  show "fairProgram 100 2 0 \<in> set ?all"
    unfolding homeCandidates_def set_sort by (simp add: fairCatalogue_def buildProgramBaseConditions_def fairProgram_def)
  have "length (filter (\<lambda>q. dp_ParentProgramCategoryId q = 1) ?all) = 14"
    "list_all (\<lambda>p. list_all (\<lambda>q. dp_ParentProgramCategoryId p = 2 \<and> dp_ParentProgramCategoryId q = 1 \<longrightarrow> dp_HighHeat p < dp_HighHeat q) ?all) ?all"
    by code_simp+
  then show "\<exists>sections. ListHomePrograms demoCatEnv 0 [1, 2] fairCatalogue = Inr sections \<and> 2 \<notin> hs_CategoryId ` set sections"
    by (intro home_category_crowded_out [OF demoCatEnv_works, where hot = 1]) (simp_all add: list_all_iff)
qed

section \<open>Withdrawn programs\<close>

lemma toProgramListInfo_Id [simp]: "li_Id (toProgramListInfo fmt p s g r) = dp_Id p"
  by (simp add: toProgramListInfo_def)

lemma page_shows_on_sale:
  assumes "PagePrograms day env req c = Inr resp" "x \<in> set (gp_List resp)"
  shows "\<exists>p \<in> set (ct_Programs c). dp_Id p = li_Id x \<and> dp_ProgramStatus p = 1"
proof -
  obtain ps where ps: "FindPageList day c (pageQuery req) = Inr ps" "li_Id x \<in> dp_Id ` set ps"
    using assms by (auto simp: PagePrograms_def Let_def orFault_def split: sum.splits option.splits if_splits)
  have "set ps \<subseteq> set (filter (buildProgramPageConditions day (ct_Shows c) (pageQuery req)) (ct_Programs c))"
    using ps(1) by (fastforce simp: FindPageList_def Let_def split: if_splits dest!: in_set_takeD in_set_dropD)
  with ps(2) show ?thesis by (auto simp: buildProgramPageConditions_def buildProgramBaseConditions_def)
qed

lemma orEmpty_within: "orEmpty (orFault flt (Inr xs)) = Inr ys \<Longrightarrow> set ys \<subseteq> set xs"
  by (auto simp: orEmpty_def orFault_def split: option.splits if_splits)

lemma home_shows_on_sale:
  assumes "ListHomePrograms env areaId parentIds c = Inr sections" "sec \<in> set sections" "x \<in> set (hs_ProgramListVoList sec)"
  shows "\<exists>p \<in> set (ct_Programs c). dp_Id p = li_Id x \<and> dp_ProgramStatus p = 1"
proof -
  let ?ps = "FindHomeList (ct_Programs c) \<lparr>hq_AreaId = areaId, hq_ParentProgramCategoryIds = parentIds, hq_Limit = homeListLimit parentIds\<rparr>"
  have "li_Id x \<in> dp_Id ` set ?ps"
    using assms unfolding ListHomePrograms_def
    by (fastforce simp: Let_def groupOf_fold dest!: in_set_takeD orEmpty_within [of _ ?ps] split: sum.splits if_splits)
  then show ?thesis
    by (auto simp: FindHomeList_def Let_def buildProgramBaseConditions_def dest!: in_set_takeD split: if_splits)
qed

lemma InvalidProgram_rows:
  assumes "catInv kt c" "InvalidProgram env i c = (Inr b, c')" "p \<in> set (ct_Programs c')" "dp_Id p = i"
  shows "dp_ProgramStatus p = 0"
proof -
  obtain q where q: "cachedProgram c i = Inr q"
    using assms(2) by (auto simp: InvalidProgram_def ifMissing_def orFault_def split: sum.splits option.splits if_splits)
  have id: "dp_Id q = i" by (rule cached_key(1) [OF assms(1) q])
  let ?q = "q\<lparr>dp_ProgramStatus := 0, dp_EditTime := ge_Now env 0\<rparr>"
  let ?c1 = "c\<lparr>ct_Programs := UpdateProgramRow ?q (ct_Programs c),
     ct_Caches := (ct_Caches c)\<lparr>rc_Program := (rc_Program (ct_Caches c))(dp_Id q := None)\<rparr>\<rparr>"
  obtain r c2 where cl: "clearProgramSeatLedgersByProgram env 2 (dp_Id q) (InvalidateProgram env (dp_Id q) [dp_ProgramGroupId q] ?c1) = (r, c2)"
    by (rule prod.exhaust)
  have "c' = c2"
    using assms(2) by (auto simp: InvalidProgram_def q ifMissing_def orFault_def Let_def cl split: sum.splits option.splits if_splits)
  moreover have "ct_Programs c2 = ct_Programs ?c1"
    by (rule clearByProgram_frame [OF cl]) (simp add: InvalidateProgram_def)
  ultimately have "p \<in> set (UpdateProgramRow ?q (ct_Programs c))" using assms(3) by simp
  then show ?thesis using assms(4) id by (auto simp: UpdateProgramRow_def)
qed

text \<open>
  C36. A withdrawn program is gone from the lists at once: in every reachable catalogue, after
  \<open>InvalidProgram\<close> has answered with success, no page and no section of the home list shows the program,
  whatever is asked for and whichever statement fails, because the lists read the table and not the caches.
\<close>

theorem withdrawn_program_unlisted:
  assumes "emptyCatalogue c0" "(catStep kt)\<^sup>*\<^sup>* c0 c" "InvalidProgram env i c = (Inr b, c')"
  shows "(PagePrograms day env' req c' = Inr resp \<longrightarrow> i \<notin> li_Id ` set (gp_List resp))
    \<and> (ListHomePrograms env' areaId parentIds c' = Inr sections \<longrightarrow> (\<forall>sec \<in> set sections. i \<notin> li_Id ` set (hs_ProgramListVoList sec)))"
proof -
  have "catInv kt c0" using assms(1) by (simp add: emptyCatalogue_def catInv_def keysInv_def cacheOk_def)
  with assms(2) have inv: "catInv kt c" by (rule catalogue_sys.run_inv)
  have "\<not> (\<exists>p \<in> set (ct_Programs c'). dp_Id p = i \<and> dp_ProgramStatus p = 1)"
    using InvalidProgram_rows [OF inv assms(3)] by auto
  then show ?thesis using page_shows_on_sale home_shows_on_sale by fast
qed

theorem withdrawn_program_unlisted_witness:
  "fst (InvalidProgram demoCatEnv 60 demoOnSale) = Inr True
   \<and> 60 \<notin> li_Id ` set (gp_List (projr (PagePrograms demoTime demoCatEnv fairReq (snd (InvalidProgram demoCatEnv 60 demoOnSale)))))"
proof -
  let ?c = "snd (InvalidProgram demoCatEnv 60 demoOnSale)"
  have ok: "fst (InvalidProgram demoCatEnv 60 demoOnSale) = Inr True" by code_simp
  have start: "emptyCatalogue demoStart" by (simp add: emptyCatalogue_def demoStart_def demoCatalogue_def noCaches_def)
  have "isl (PagePrograms demoTime demoCatEnv fairReq ?c) = False" by code_simp
  then have "PagePrograms demoTime demoCatEnv fairReq ?c = Inr (projr (PagePrograms demoTime demoCatEnv fairReq ?c))" by simp
  moreover have "InvalidProgram demoCatEnv 60 demoOnSale = (Inr True, ?c)" using ok by (metis prod.collapse)
  ultimately show ?thesis using withdrawn_program_unlisted [OF start demo_sale] ok by blast
qed

end
