(* ===== verification/Users.thy ===== *)
theory Users
  imports Redis
begin

text \<open>
  The user service (\<open>services/user-rpc\<close>): accounts with their mobile and email mappings, the ticket users
  of an account, logins with a counter of failures and the login state in Redis. No handler uses a
  transaction: each is a sequence of statements, any of which may fail before or after it takes
  effect. MD5, the parser of mail addresses and the signing of tokens are arguments; texts compare
  by equality.
\<close>

section \<open>Rows\<close>

record DUser =
  du_Id :: int
  du_Name :: "string option"
  du_RelName :: "string option"
  du_Mobile :: string
  du_Gender :: int
  du_Password :: "string option"
  du_EmailStatus :: int
  du_Email :: "string option"
  du_RelAuthenticationStatus :: int
  du_IdNumber :: "string option"
  du_Address :: "string option"
  du_CreateTime :: gotime
  du_EditTime :: gotime
  du_Status :: int

record DUserMobile =
  um_Id :: int
  um_UserId :: int
  um_Mobile :: string
  um_CreateTime :: gotime
  um_EditTime :: gotime
  um_Status :: int

record DUserEmail =
  em_Id :: int
  em_UserId :: int
  em_Email :: string
  em_EmailStatus :: int
  em_CreateTime :: gotime
  em_EditTime :: gotime
  em_Status :: int

record DTicketUser =
  tu_Id :: int
  tu_UserId :: int
  tu_RelName :: string
  tu_IdType :: int
  tu_IdNumber :: string
  tu_CreateTime :: gotime
  tu_EditTime :: gotime
  tu_Status :: int

text \<open>The string keys of Redis, each with the time it expires at.\<close>

type_synonym kvStore = "string \<rightharpoonup> string \<times> int option"

record userDb =
  ub_Users :: "DUser list"
  ub_Mobiles :: "DUserMobile list"
  ub_Emails :: "DUserEmail list"
  ub_TicketUsers :: "DTicketUser list"
  ub_Redis :: kvStore

record jwtClaims =
  jc_UserID :: int
  jc_ExpiresAt :: int
  jc_IssuedAt :: int

text \<open>
  \<open>ve_Db k\<close> and \<open>ve_Redis k\<close> say what happens to the \<open>k\<close>-th statement and Redis command of a handler, \<open>ve_Ids k\<close> is
  the \<open>k\<close>-th id it draws; \<open>ve_Parse\<close>, \<open>ve_Sign\<close> and \<open>ve_Verify\<close> are \<open>mail.ParseAddress\<close> and the two
  operations of the token library.
\<close>

record userEnv =
  ve_Db :: "nat \<Rightarrow> fault"
  ve_Redis :: "nat \<Rightarrow> fault"
  ve_HasRedis :: bool
  ve_Now :: int
  ve_Ids :: "nat \<Rightarrow> int"
  ve_Md5 :: "string \<Rightarrow> string"
  ve_Parse :: "string \<Rightarrow> string option"
  ve_Sign :: "jwtClaims \<Rightarrow> string \<Rightarrow> string res"
  ve_Verify :: "string \<Rightarrow> string \<Rightarrow> jwtClaims res"
  ve_TokenExpire :: int
  ve_LoginFailLimit :: int
  ve_AccessSecret :: string

section \<open>Sequences of statements\<close>

type_synonym 'a userIO = "userDb \<Rightarrow> 'a res \<times> userDb"

definition thenDo :: "'a userIO \<Rightarrow> ('a \<Rightarrow> 'b userIO) \<Rightarrow> 'b userIO" where
  "thenDo f g s = (case f s of (Inl e, s1) \<Rightarrow> (Inl e, s1) | (Inr a, s1) \<Rightarrow> g a s1)"

definition answer :: "'a \<Rightarrow> 'a userIO" where
  "answer a s = (Inr a, s)"

definition refuse :: "goerr \<Rightarrow> 'a userIO" where
  "refuse e s = (Inl e, s)"

definition query :: "userEnv \<Rightarrow> nat \<Rightarrow> (userDb \<Rightarrow> 'a res) \<Rightarrow> 'a userIO" where
  "query env k q = eval_ctx (ve_Db env k) (\<lambda>s. (q s, s))"

definition exec :: "userEnv \<Rightarrow> nat \<Rightarrow> (userDb \<Rightarrow> userDb res) \<Rightarrow> unit userIO" where
  "exec env k f = eval_ctx (ve_Db env k) (\<lambda>s. case f s of Inl e \<Rightarrow> (Inl e, s) | Inr s' \<Rightarrow> (Inr (), s'))"

section \<open>Tables\<close>

definition FindUser :: "int \<Rightarrow> userDb \<Rightarrow> DUser res" where
  "FindUser i s = orNotFound (find (\<lambda>u. du_Id u = i) (ub_Users s))"

definition InsertUser :: "DUser \<Rightarrow> userDb \<Rightarrow> userDb res" where
  "InsertUser data s = (if du_Id data \<in> du_Id ` set (ub_Users s) then Inl (Duplicate ''PRIMARY'') else Inr (s\<lparr>ub_Users := ub_Users s @ [data]\<rparr>))"

definition UpdateUserRow :: "DUser \<Rightarrow> userDb \<Rightarrow> userDb res" where
  "UpdateUserRow data s = Inr (s\<lparr>ub_Users := map (\<lambda>u. if du_Id u = du_Id data then data\<lparr>du_CreateTime := du_CreateTime u\<rparr> else u) (ub_Users s)\<rparr>)"

definition FindOneByMobile :: "string \<Rightarrow> userDb \<Rightarrow> DUserMobile res" where
  "FindOneByMobile mobile s = orNotFound (find (\<lambda>m. um_Mobile m = mobile \<and> um_Status m = 1) (ub_Mobiles s))"

definition InsertMobile :: "DUserMobile \<Rightarrow> userDb \<Rightarrow> userDb res" where
  "InsertMobile data s =
     (if um_Id data \<in> um_Id ` set (ub_Mobiles s) then Inl (Duplicate ''PRIMARY'')
      else if um_Mobile data \<in> um_Mobile ` set (ub_Mobiles s) then Inl (Duplicate ''uk_d_user_mobile_mobile'')
      else Inr (s\<lparr>ub_Mobiles := ub_Mobiles s @ [data]\<rparr>))"

definition DeleteMobile :: "int \<Rightarrow> userDb \<Rightarrow> userDb res" where
  "DeleteMobile i s = Inr (s\<lparr>ub_Mobiles := filter (\<lambda>m. um_Id m \<noteq> i) (ub_Mobiles s)\<rparr>)"

definition FindOneByEmail :: "string \<Rightarrow> userDb \<Rightarrow> DUserEmail res" where
  "FindOneByEmail email s = orNotFound (find (\<lambda>m. em_Email m = email \<and> em_Status m = 1) (ub_Emails s))"

definition InsertEmail :: "DUserEmail \<Rightarrow> userDb \<Rightarrow> userDb res" where
  "InsertEmail data s =
     (if em_Id data \<in> em_Id ` set (ub_Emails s) then Inl (Duplicate ''PRIMARY'')
      else if em_Email data \<in> em_Email ` set (ub_Emails s) then Inl (Duplicate ''uk_d_user_email_email'')
      else Inr (s\<lparr>ub_Emails := ub_Emails s @ [data]\<rparr>))"

definition DeleteEmail :: "int \<Rightarrow> userDb \<Rightarrow> userDb res" where
  "DeleteEmail i s = Inr (s\<lparr>ub_Emails := filter (\<lambda>m. em_Id m \<noteq> i) (ub_Emails s)\<rparr>)"

definition FindByUserId :: "int \<Rightarrow> userDb \<Rightarrow> DTicketUser list" where
  "FindByUserId userId s = sort_key tu_Id (filter (\<lambda>t. tu_UserId t = userId \<and> tu_Status t = 1) (ub_TicketUsers s))"

definition FindOneByUserIdAndIdTypeAndIdNumber :: "int \<Rightarrow> int \<Rightarrow> string \<Rightarrow> userDb \<Rightarrow> DTicketUser res" where
  "FindOneByUserIdAndIdTypeAndIdNumber userId idType idNumber s = orNotFound
     (find (\<lambda>t. tu_UserId t = userId \<and> tu_IdType t = idType \<and> tu_IdNumber t = idNumber \<and> tu_Status t = 1) (ub_TicketUsers s))"

definition identityOf :: "DTicketUser \<Rightarrow> int \<times> int \<times> string" where
  "identityOf t = (tu_UserId t, tu_IdType t, tu_IdNumber t)"

definition InsertTicketUser :: "DTicketUser \<Rightarrow> userDb \<Rightarrow> userDb res" where
  "InsertTicketUser data s =
     (if tu_Id data \<in> tu_Id ` set (ub_TicketUsers s) then Inl (Duplicate ''PRIMARY'')
      else if identityOf data \<in> identityOf ` set (ub_TicketUsers s) then Inl (Duplicate ''uk_d_ticket_user_identity'')
      else Inr (s\<lparr>ub_TicketUsers := ub_TicketUsers s @ [data]\<rparr>))"

definition DeleteTicketUserRow :: "int \<Rightarrow> userDb \<Rightarrow> userDb res" where
  "DeleteTicketUserRow i s = Inr (s\<lparr>ub_TicketUsers := filter (\<lambda>t. tu_Id t \<noteq> i) (ub_TicketUsers s)\<rparr>)"

section \<open>Redis\<close>

definition kvGet :: "int \<Rightarrow> string \<Rightarrow> kvStore \<Rightarrow> string option" where
  "kvGet t key r = (case r key of None \<Rightarrow> None
     | Some (v, deadline) \<Rightarrow> (case deadline of Some d \<Rightarrow> if d \<le> t then None else Some v | None \<Rightarrow> Some v))"

text \<open>\<open>INCR\<close> counts from zero when the key is missing and keeps its expiry.\<close>

definition kvIncr :: "int \<Rightarrow> string \<Rightarrow> kvStore \<Rightarrow> int res \<times> kvStore" where
  "kvIncr t key r =
     (case kvGet t key r of
        None \<Rightarrow> (Inr 1, r(key \<mapsto> (show_int 1, None)))
      | Some v \<Rightarrow>
        (case parse_int64 v of
           None \<Rightarrow> (Inl (Other ''value is not an integer or out of range''), r)
         | Some n \<Rightarrow> if in_int64 (n + 1) then (Inr (n + 1), r(key \<mapsto> (show_int (n + 1), snd (the (r key)))))
             else (Inl (Other ''increment or decrement would overflow''), r)))"

definition kvExpire :: "int \<Rightarrow> string \<Rightarrow> int \<Rightarrow> kvStore \<Rightarrow> kvStore" where
  "kvExpire t key seconds r = (case kvGet t key r of None \<Rightarrow> r | Some v \<Rightarrow> r(key \<mapsto> (v, Some (t + seconds))))"

text \<open>A Redis command of a handler, on the Redis part of the state.\<close>

definition redis :: "userEnv \<Rightarrow> nat \<Rightarrow> (kvStore \<Rightarrow> 'a res \<times> kvStore) \<Rightarrow> 'a userIO" where
  "redis env k f = eval_ctx (ve_Redis env k) (\<lambda>s. case f (ub_Redis s) of (r, kv) \<Rightarrow> (r, s\<lparr>ub_Redis := kv\<rparr>))"

text \<open>A command whose error the code ignores.\<close>

definition attempt :: "'a userIO \<Rightarrow> 'a res userIO" where
  "attempt f s = (case f s of (r, s') \<Rightarrow> (Inr r, s'))"

section \<open>Helpers\<close>

definition userInvalid :: goerr where
  "userInvalid = Status CInvalidArgument ErrInvalidParam"

definition userNotFound :: goerr where
  "userNotFound = Status CNotFound ErrUserNotFound"

definition loginStateKey :: "int \<Rightarrow> string" where
  "loginStateKey userID = ''user:login:token:'' @ show_int userID"

definition mobileFailKey :: "string \<Rightarrow> string" where
  "mobileFailKey mobile = ''user:login:fail:mobile:'' @ mobile"

definition emailFailKey :: "string \<Rightarrow> string" where
  "emailFailKey email = ''user:login:fail:email:'' @ email"

definition tokenSeconds :: "int \<Rightarrow> int" where
  "tokenSeconds d = (let seconds = d div 1000000000 in if seconds \<le> 0 then 1 else seconds)"

definition parseFailCount :: "string \<Rightarrow> int" where
  "parseFailCount value = (case parse_int64 value of None \<Rightarrow> 0 | Some n \<Rightarrow> n)"

definition accessSecret :: "userEnv \<Rightarrow> string res" where
  "accessSecret env = (let secret = trim_space (ve_AccessSecret env) in if secret = [] then Inl userInvalid else Inr secret)"

definition normalizeOptionalEmail :: "userEnv \<Rightarrow> string \<Rightarrow> string res" where
  "normalizeOptionalEmail env value =
     (let trimmed = trim_space value in
      if trimmed = [] then Inr []
      else if ve_Parse env trimmed \<noteq> Some trimmed then Inl userInvalid else Inr trimmed)"

definition emailStatusForAddress :: "string \<Rightarrow> int" where
  "emailStatusForAddress email = (if email = [] then 0 else 1)"

definition validString :: "string \<Rightarrow> string option" where
  "validString x = (if x = [] then None else Some x)"

definition CreateToken :: "userEnv \<Rightarrow> int \<Rightarrow> string \<Rightarrow> string res" where
  "CreateToken env userID secret =
     ve_Sign env \<lparr>jc_UserID = userID, jc_ExpiresAt = ve_Now env + ve_TokenExpire env div 1000000000, jc_IssuedAt = ve_Now env\<rparr> secret"

definition ParseToken :: "userEnv \<Rightarrow> string \<Rightarrow> string \<Rightarrow> jwtClaims res" where
  "ParseToken env tokenString secret = ve_Verify env tokenString secret"

text \<open>Reads one user for a handler.\<close>

definition loadUser :: "userEnv \<Rightarrow> nat \<Rightarrow> int \<Rightarrow> DUser userIO" where
  "loadUser env k i = query env k (\<lambda>s. ifMissing userNotFound (FindUser i s))"

section \<open>Registration and login\<close>

record RegisterReq =
  rg_Mobile :: string
  rg_Password :: string
  rg_ConfirmPassword :: string
  rg_Mail :: string

definition newUser :: "userEnv \<Rightarrow> RegisterReq \<Rightarrow> string \<Rightarrow> DUser" where
  "newUser env req email =
     \<lparr>du_Id = ve_Ids env 0, du_Name = None, du_RelName = None, du_Mobile = rg_Mobile req, du_Gender = 1,
      du_Password = Some (ve_Md5 env (rg_Password req)), du_EmailStatus = emailStatusForAddress email, du_Email = validString email,
      du_RelAuthenticationStatus = 0, du_IdNumber = None, du_Address = None, du_CreateTime = Some (ve_Now env),
      du_EditTime = Some (ve_Now env), du_Status = 1\<rparr>"

definition newMobile :: "userEnv \<Rightarrow> nat \<Rightarrow> int \<Rightarrow> string \<Rightarrow> DUserMobile" where
  "newMobile env k userId mobile =
     \<lparr>um_Id = ve_Ids env k, um_UserId = userId, um_Mobile = mobile, um_CreateTime = Some (ve_Now env), um_EditTime = Some (ve_Now env), um_Status = 1\<rparr>"

definition newEmail :: "userEnv \<Rightarrow> nat \<Rightarrow> int \<Rightarrow> string \<Rightarrow> DUserEmail" where
  "newEmail env k userId email =
     \<lparr>em_Id = ve_Ids env k, em_UserId = userId, em_Email = email, em_EmailStatus = emailStatusForAddress email,
      em_CreateTime = Some (ve_Now env), em_EditTime = Some (ve_Now env), em_Status = 1\<rparr>"

text \<open>A lookup that the handlers make to learn whether a key is free.\<close>

definition unused :: "'a res \<Rightarrow> ('a \<Rightarrow> bool) \<Rightarrow> goerr \<Rightarrow> unit res" where
  "unused r taken e = (case r of Inr x \<Rightarrow> if taken x then Inl e else Inr () | Inl x \<Rightarrow> if x = ModelNotFound then Inr () else Inl x)"

definition Register :: "userEnv \<Rightarrow> RegisterReq \<Rightarrow> bool userIO" where
  "Register env req =
     (if rg_Mobile req = [] \<or> rg_Password req = [] then refuse userInvalid
      else if rg_ConfirmPassword req \<noteq> [] \<and> rg_Password req \<noteq> rg_ConfirmPassword req then refuse userInvalid
      else case normalizeOptionalEmail env (rg_Mail req) of Inl e \<Rightarrow> refuse e | Inr email \<Rightarrow>
        thenDo (query env 0 (\<lambda>s. unused (FindOneByMobile (rg_Mobile req) s) (\<lambda>_. True) (Status CAlreadyExists ErrUserAlreadyExists))) (\<lambda>_.
        thenDo (exec env 1 (InsertUser (newUser env req email))) (\<lambda>_.
        thenDo (exec env 2 (InsertMobile (newMobile env 1 (ve_Ids env 0) (rg_Mobile req)))) (\<lambda>_.
        if email \<noteq> [] then thenDo (exec env 3 (InsertEmail (newEmail env 2 (ve_Ids env 0) email))) (\<lambda>_. answer True)
        else answer True))))"

record LoginReq =
  lg_Mobile :: string
  lg_Email :: string
  lg_Password :: string

text \<open>The account of a login and the key of its failures.\<close>

definition loginUser :: "userEnv \<Rightarrow> LoginReq \<Rightarrow> (DUser \<times> string) userIO" where
  "loginUser env req =
     (if lg_Mobile req \<noteq> [] then
        thenDo (query env 0 (\<lambda>s. ifMissing userNotFound (FindOneByMobile (lg_Mobile req) s))) (\<lambda>m.
        thenDo (loadUser env 1 (um_UserId m)) (\<lambda>user. answer (user, mobileFailKey (lg_Mobile req))))
      else
        thenDo (query env 0 (\<lambda>s. ifMissing userNotFound (FindOneByEmail (lg_Email req) s))) (\<lambda>m.
        thenDo (loadUser env 1 (em_UserId m)) (\<lambda>user. answer (user, emailFailKey (lg_Email req)))))"

text \<open>The counter blocks the login; an error of Redis does not.\<close>

definition checkFailures :: "userEnv \<Rightarrow> string \<Rightarrow> unit userIO" where
  "checkFailures env failKey =
     (if \<not> ve_HasRedis env then answer ()
      else thenDo (attempt (redis env 0 (\<lambda>r. (Inr (case kvGet (ve_Now env) failKey r of None \<Rightarrow> [] | Some v \<Rightarrow> v), r)))) (\<lambda>got.
        case got of
          Inl _ \<Rightarrow> answer ()
        | Inr v \<Rightarrow> if ve_LoginFailLimit env \<le> parseFailCount v then refuse (Status CResourceExhausted ErrLoginFailedTooMany) else answer ()))"

definition countFailure :: "userEnv \<Rightarrow> string \<Rightarrow> unit userIO" where
  "countFailure env failKey =
     (if \<not> ve_HasRedis env then answer ()
      else thenDo (attempt (redis env 1 (kvIncr (ve_Now env) failKey))) (\<lambda>got.
        if got = Inr 1
        then thenDo (attempt (redis env 2 (\<lambda>r. (Inr (), kvExpire (ve_Now env) failKey (tokenSeconds (ve_TokenExpire env)) r)))) (\<lambda>_. answer ())
        else answer ()))"

definition keepLogin :: "userEnv \<Rightarrow> string \<Rightarrow> int \<Rightarrow> string \<Rightarrow> unit userIO" where
  "keepLogin env failKey userId token =
     (if \<not> ve_HasRedis env then answer ()
      else thenDo (attempt (redis env 3 (\<lambda>r. (Inr (), r(failKey := None))))) (\<lambda>_.
        redis env 4 (\<lambda>r. (Inr (), r(loginStateKey userId \<mapsto> (token, Some (ve_Now env + tokenSeconds (ve_TokenExpire env))))))))"

definition Login :: "userEnv \<Rightarrow> LoginReq \<Rightarrow> (int \<times> string) userIO" where
  "Login env req =
     (case accessSecret env of Inl e \<Rightarrow> refuse e | Inr secret \<Rightarrow>
      (if lg_Password req = [] \<or> lg_Mobile req = [] \<and> lg_Email req = [] then refuse userInvalid
       else thenDo (loginUser env req) (\<lambda>(user, failKey).
         thenDo (checkFailures env failKey) (\<lambda>_.
         if du_Password user \<noteq> Some (ve_Md5 env (lg_Password req))
         then thenDo (countFailure env failKey) (\<lambda>_. refuse (Status CUnauthenticated ErrInvalidPassword))
         else case CreateToken env (du_Id user) secret of Inl e \<Rightarrow> refuse e | Inr token \<Rightarrow>
           thenDo (keepLogin env failKey (du_Id user) token) (\<lambda>_. answer (du_Id user, token))))))"

definition Logout :: "userEnv \<Rightarrow> string \<Rightarrow> bool userIO" where
  "Logout env token =
     (case accessSecret env of Inl e \<Rightarrow> refuse e | Inr secret \<Rightarrow>
      (case ParseToken env token secret of Inl e \<Rightarrow> refuse e | Inr claims \<Rightarrow>
       if ve_HasRedis env then thenDo (redis env 0 (\<lambda>r. (Inr (), r(loginStateKey (jc_UserID claims) := None)))) (\<lambda>_. answer True)
       else answer True))"

definition Exist :: "userEnv \<Rightarrow> string \<Rightarrow> bool userIO" where
  "Exist env mobile =
     (if mobile = [] then refuse userInvalid
      else thenDo (query env 0 (\<lambda>s. unused (FindOneByMobile mobile s) (\<lambda>_. True) (Status CAlreadyExists ErrUserAlreadyExists))) (\<lambda>_. answer True))"

section \<open>Changes of an account\<close>

text \<open>A new mobile: taken by another account, else the old mapping goes and a new one comes.\<close>

definition moveMobile :: "userEnv \<Rightarrow> DUser \<Rightarrow> string \<Rightarrow> unit userIO" where
  "moveMobile env user mobile =
     thenDo (query env 1 (\<lambda>s. unused (FindOneByMobile mobile s) (\<lambda>m. um_UserId m \<noteq> du_Id user) (Status CAlreadyExists ErrMobileAlreadyUsed))) (\<lambda>_.
     thenDo (attempt (query env 2 (FindOneByMobile (du_Mobile user)))) (\<lambda>old.
     thenDo (case old of Inr m \<Rightarrow> exec env 3 (DeleteMobile (um_Id m)) | Inl _ \<Rightarrow> answer ()) (\<lambda>_.
     exec env 4 (InsertMobile (newMobile env 0 (du_Id user) mobile)))))"

definition UpdateMobile :: "userEnv \<Rightarrow> int \<Rightarrow> string \<Rightarrow> bool userIO" where
  "UpdateMobile env i mobile =
     thenDo (loadUser env 0 i) (\<lambda>user.
     if mobile \<noteq> [] \<and> mobile \<noteq> du_Mobile user
     then thenDo (moveMobile env user mobile) (\<lambda>_.
       thenDo (exec env 5 (UpdateUserRow (user\<lparr>du_EditTime := Some (ve_Now env), du_Mobile := mobile\<rparr>))) (\<lambda>_. answer True))
     else thenDo (exec env 5 (UpdateUserRow (user\<lparr>du_EditTime := Some (ve_Now env)\<rparr>))) (\<lambda>_. answer True))"

record UpdateUserReq =
  uu_Id :: int
  uu_Name :: string
  uu_Gender :: int
  uu_Mobile :: string
  uu_Address :: string

definition UpdateUser :: "userEnv \<Rightarrow> UpdateUserReq \<Rightarrow> bool userIO" where
  "UpdateUser env req =
     thenDo (loadUser env 0 (uu_Id req)) (\<lambda>user.
     let user' = user\<lparr>du_Name := (if uu_Name req \<noteq> [] then Some (uu_Name req) else du_Name user),
           du_Address := (if uu_Address req \<noteq> [] then Some (uu_Address req) else du_Address user),
           du_Gender := (if uu_Gender req \<noteq> 0 then uu_Gender req else du_Gender user), du_EditTime := Some (ve_Now env)\<rparr> in
     if uu_Mobile req \<noteq> [] \<and> uu_Mobile req \<noteq> du_Mobile user
     then thenDo (moveMobile env user (uu_Mobile req)) (\<lambda>_.
       thenDo (exec env 5 (UpdateUserRow (user'\<lparr>du_Mobile := uu_Mobile req\<rparr>))) (\<lambda>_. answer True))
     else thenDo (exec env 5 (UpdateUserRow user')) (\<lambda>_. answer True))"

definition UpdatePassword :: "userEnv \<Rightarrow> int \<Rightarrow> string \<Rightarrow> bool userIO" where
  "UpdatePassword env i password =
     thenDo (loadUser env 0 i) (\<lambda>user.
     thenDo (exec env 1 (UpdateUserRow (user\<lparr>du_Password := (if password \<noteq> [] then Some (ve_Md5 env password) else None),
       du_EditTime := Some (ve_Now env)\<rparr>))) (\<lambda>_. answer True))"

definition Authentication :: "userEnv \<Rightarrow> int \<Rightarrow> string \<Rightarrow> string \<Rightarrow> bool userIO" where
  "Authentication env i relName idNumber =
     thenDo (loadUser env 0 i) (\<lambda>user.
     thenDo (exec env 1 (UpdateUserRow (user\<lparr>du_RelName := validString relName, du_IdNumber := validString idNumber,
       du_RelAuthenticationStatus := 1, du_EditTime := Some (ve_Now env)\<rparr>))) (\<lambda>_. answer True))"

text \<open>A new email: the mapping of the old one goes first.\<close>

definition moveEmail :: "userEnv \<Rightarrow> DUser \<Rightarrow> string \<Rightarrow> unit userIO" where
  "moveEmail env user email =
     thenDo (if email \<noteq> [] \<and> du_Email user \<noteq> Some email
        then query env 1 (\<lambda>s. unused (FindOneByEmail email s) (\<lambda>m. em_UserId m \<noteq> du_Id user) (Status CAlreadyExists ErrEmailAlreadyUsed))
        else answer ()) (\<lambda>_.
     thenDo (case du_Email user of
          None \<Rightarrow> answer ()
        | Some old \<Rightarrow> if old \<noteq> [] \<and> old \<noteq> email
            then thenDo (attempt (query env 2 (FindOneByEmail old))) (\<lambda>got. case got of
                Inl e \<Rightarrow> if e = ModelNotFound then answer () else refuse e | Inr m \<Rightarrow> exec env 3 (DeleteEmail (em_Id m)))
            else answer ()) (\<lambda>_.
     if email \<noteq> [] \<and> du_Email user \<noteq> Some email then exec env 4 (InsertEmail (newEmail env 0 (du_Id user) email)) else answer ()))"

definition UpdateEmail :: "userEnv \<Rightarrow> int \<Rightarrow> string \<Rightarrow> bool userIO" where
  "UpdateEmail env i newEmailText =
     thenDo (loadUser env 0 i) (\<lambda>user.
     case normalizeOptionalEmail env newEmailText of Inl e \<Rightarrow> refuse e | Inr email \<Rightarrow>
       thenDo (moveEmail env user email) (\<lambda>_.
       thenDo (exec env 5 (UpdateUserRow (user\<lparr>du_Email := validString email, du_EmailStatus := emailStatusForAddress email,
         du_EditTime := Some (ve_Now env)\<rparr>))) (\<lambda>_. answer True)))"

section \<open>Ticket users and reads\<close>

record TicketUserVo =
  tv_Id :: int
  tv_UserId :: int
  tv_RelName :: string
  tv_IdType :: int
  tv_IdNumber :: string

definition buildTicketUserInfo :: "DTicketUser \<Rightarrow> TicketUserVo" where
  "buildTicketUserInfo t = \<lparr>tv_Id = tu_Id t, tv_UserId = tu_UserId t, tv_RelName = tu_RelName t, tv_IdType = tu_IdType t, tv_IdNumber = tu_IdNumber t\<rparr>"

record UserVo =
  uv_Id :: int
  uv_Name :: string
  uv_RelName :: string
  uv_Gender :: int
  uv_Mobile :: string
  uv_EmailStatus :: int
  uv_Email :: string
  uv_RelAuthenticationStatus :: int
  uv_IdNumber :: string
  uv_Address :: string

definition orBlank :: "string option \<Rightarrow> string" where
  "orBlank x = (case x of None \<Rightarrow> [] | Some v \<Rightarrow> v)"

definition buildUserInfo :: "DUser \<Rightarrow> UserVo" where
  "buildUserInfo u = \<lparr>uv_Id = du_Id u, uv_Name = orBlank (du_Name u), uv_RelName = orBlank (du_RelName u), uv_Gender = du_Gender u,
     uv_Mobile = du_Mobile u, uv_EmailStatus = du_EmailStatus u, uv_Email = orBlank (du_Email u),
     uv_RelAuthenticationStatus = du_RelAuthenticationStatus u, uv_IdNumber = orBlank (du_IdNumber u), uv_Address = orBlank (du_Address u)\<rparr>"

record AddTicketUserReq =
  at_UserId :: int
  at_RelName :: string
  at_IdType :: int
  at_IdNumber :: string

definition AddTicketUser :: "userEnv \<Rightarrow> AddTicketUserReq \<Rightarrow> bool userIO" where
  "AddTicketUser env req =
     thenDo (loadUser env 0 (at_UserId req)) (\<lambda>_.
     thenDo (query env 1 (\<lambda>s. unused (FindOneByUserIdAndIdTypeAndIdNumber (at_UserId req) (at_IdType req) (at_IdNumber req) s) (\<lambda>_. True)
       (Status CAlreadyExists ErrTicketUserExists))) (\<lambda>_.
     thenDo (exec env 2 (InsertTicketUser \<lparr>tu_Id = ve_Ids env 0, tu_UserId = at_UserId req, tu_RelName = at_RelName req, tu_IdType = at_IdType req,
       tu_IdNumber = at_IdNumber req, tu_CreateTime = Some (ve_Now env), tu_EditTime = Some (ve_Now env), tu_Status = 1\<rparr>)) (\<lambda>_. answer True)))"

definition DeleteTicketUser :: "userEnv \<Rightarrow> int \<Rightarrow> bool userIO" where
  "DeleteTicketUser env i = thenDo (exec env 0 (DeleteTicketUserRow i)) (\<lambda>_. answer True)"

definition ListTicketUsers :: "userEnv \<Rightarrow> nat \<Rightarrow> int \<Rightarrow> TicketUserVo list userIO" where
  "ListTicketUsers env k userId = query env k (\<lambda>s. Inr (map buildTicketUserInfo (FindByUserId userId s)))"

definition GetUserById :: "userEnv \<Rightarrow> int \<Rightarrow> UserVo userIO" where
  "GetUserById env i = thenDo (loadUser env 0 i) (\<lambda>user. answer (buildUserInfo user))"

definition GetUserByMobile :: "userEnv \<Rightarrow> string \<Rightarrow> UserVo userIO" where
  "GetUserByMobile env mobile =
     thenDo (query env 0 (\<lambda>s. ifMissing userNotFound (FindOneByMobile mobile s))) (\<lambda>m.
     thenDo (loadUser env 1 (um_UserId m)) (\<lambda>user. answer (buildUserInfo user)))"

definition GetUserAndTicketUserList :: "userEnv \<Rightarrow> int \<Rightarrow> (UserVo \<times> TicketUserVo list) userIO" where
  "GetUserAndTicketUserList env userId =
     thenDo (loadUser env 0 userId) (\<lambda>user.
     thenDo (ListTicketUsers env 1 userId) (\<lambda>list. answer (buildUserInfo user, list)))"

text \<open>The handler of \<open>user-api\<close> that deletes a ticket user of the user who is logged in.\<close>

definition deleteOwnTicketUser :: "userEnv \<Rightarrow> userEnv \<Rightarrow> int option \<Rightarrow> int \<Rightarrow> bool userIO" where
  "deleteOwnTicketUser env env' current i =
     (case current of None \<Rightarrow> refuse (Status CUnauthenticated ErrUnauthorized) | Some userID \<Rightarrow>
      thenDo (ListTicketUsers env 0 userID) (\<lambda>list.
      if i \<notin> tv_Id ` set list then refuse (Status CUnauthenticated ErrUnauthorized) else DeleteTicketUser env' i))"

section \<open>Runs without database faults\<close>

definition dbOk :: "userEnv \<Rightarrow> bool" where
  "dbOk env \<longleftrightarrow> (\<forall>k. ve_Db env k = NoFault)"

lemma query_ok: "dbOk env \<Longrightarrow> query env k q s = (q s, s)"
  by (simp add: dbOk_def query_def eval_ctx_def)

lemma exec_ok: "dbOk env \<Longrightarrow> exec env k f s = (case f s of Inl e \<Rightarrow> (Inl e, s) | Inr s' \<Rightarrow> (Inr (), s'))"
  by (simp add: dbOk_def exec_def eval_ctx_def)

lemma loadUser_ok: "dbOk env \<Longrightarrow> loadUser env k i s = (ifMissing userNotFound (FindUser i s), s)"
  by (simp add: loadUser_def query_ok)

lemmas io_simps = thenDo_def answer_def refuse_def attempt_def query_ok exec_ok loadUser_ok

section \<open>What handlers leave alone\<close>

text \<open>
  A relation between states that every single step of a sequence keeps holds for the whole sequence; the
  rules follow the way handlers are put together.
\<close>

definition keeps :: "(userDb \<Rightarrow> userDb \<Rightarrow> bool) \<Rightarrow> 'a userIO \<Rightarrow> bool" where
  "keeps R f \<longleftrightarrow> (\<forall>s. R s (snd (f s)))"

lemma keepsD: "keeps R f \<Longrightarrow> f s = (r, s') \<Longrightarrow> R s s'"
  unfolding keeps_def by (metis snd_conv)

lemma keeps_if: "keeps R f \<Longrightarrow> keeps R g \<Longrightarrow> keeps R (if b then f else g)"
  by simp

lemma keeps_sum: "(\<And>a. keeps R (f a)) \<Longrightarrow> (\<And>b. keeps R (g b)) \<Longrightarrow> keeps R (case x of Inl a \<Rightarrow> f a | Inr b \<Rightarrow> g b)"
  by (cases x) simp_all

lemma keeps_option: "keeps R f \<Longrightarrow> (\<And>a. keeps R (g a)) \<Longrightarrow> keeps R (case x of None \<Rightarrow> f | Some a \<Rightarrow> g a)"
  by (cases x) simp_all

lemma keeps_prod: "(\<And>a b. keeps R (f a b)) \<Longrightarrow> keeps R (case x of (a, b) \<Rightarrow> f a b)"
  by (cases x) simp

locale state_frame =
  fixes R :: "userDb \<Rightarrow> userDb \<Rightarrow> bool"
  assumes frame_refl: "R s s"
    and frame_trans: "R s s1 \<Longrightarrow> R s1 s2 \<Longrightarrow> R s s2"
begin

lemma keeps_answer: "keeps R (answer a)" "keeps R (refuse e)"
  by (simp_all add: keeps_def answer_def refuse_def frame_refl)

lemma keeps_query: "keeps R (query env k q)"
  by (simp add: keeps_def query_def eval_ctx_def frame_refl split: fault.split)

lemma keeps_thenDo: "keeps R f \<Longrightarrow> (\<And>a. keeps R (g a)) \<Longrightarrow> keeps R (thenDo f g)"
  unfolding keeps_def thenDo_def by (auto split: prod.splits sum.splits) (metis snd_conv, metis frame_trans snd_conv)

lemma keeps_attempt: "keeps R f \<Longrightarrow> keeps R (attempt f)"
  by (simp add: keeps_def attempt_def case_prod_unfold)

lemma keeps_exec: "(\<And>s s'. f s = Inr s' \<Longrightarrow> R s s') \<Longrightarrow> keeps R (exec env k f)"
  by (auto simp: keeps_def exec_def eval_ctx_def frame_refl split: fault.split sum.split)

lemma keeps_redis: "(\<And>s kv. R s (s\<lparr>ub_Redis := kv\<rparr>)) \<Longrightarrow> keeps R (redis env k f)"
  by (auto simp: keeps_def redis_def eval_ctx_def frame_refl split: fault.split prod.split)

lemmas keeps_intros = keeps_answer keeps_query keeps_thenDo keeps_attempt keeps_if keeps_sum keeps_option keeps_prod

end

text \<open>Logins only touch Redis, and only what concerns ticket users touches ticket users.\<close>

definition sameTables :: "userDb \<Rightarrow> userDb \<Rightarrow> bool" where
  "sameTables s s' \<longleftrightarrow> ub_Users s' = ub_Users s \<and> ub_Mobiles s' = ub_Mobiles s \<and> ub_Emails s' = ub_Emails s \<and> ub_TicketUsers s' = ub_TicketUsers s"

interpretation tables: state_frame sameTables
  by unfold_locales (simp_all add: sameTables_def)

lemma redis_tables: "keeps sameTables (redis env k f)"
  by (rule tables.keeps_redis) (simp add: sameTables_def)

lemma Login_tables: "keeps sameTables (Login env req)" "keeps sameTables (Logout env token)"
  unfolding Login_def Logout_def loginUser_def loadUser_def checkFailures_def countFailure_def keepLogin_def
  by (intro tables.keeps_intros redis_tables)+

definition sameAccounts :: "userDb \<Rightarrow> userDb \<Rightarrow> bool" where
  "sameAccounts s s' \<longleftrightarrow> ub_Users s' = ub_Users s \<and> ub_Mobiles s' = ub_Mobiles s \<and> ub_Emails s' = ub_Emails s"

interpretation accounts: state_frame sameAccounts
  by unfold_locales (simp_all add: sameAccounts_def)

lemma ticket_accounts: "keeps sameAccounts (AddTicketUser env req)" "keeps sameAccounts (DeleteTicketUser env i)"
proof -
  have "keeps sameAccounts (exec env k (InsertTicketUser data))" "keeps sameAccounts (exec env k (DeleteTicketUserRow i))" for k data i
    by (rule accounts.keeps_exec; auto simp: InsertTicketUser_def DeleteTicketUserRow_def sameAccounts_def split: if_splits)+
  then show "keeps sameAccounts (AddTicketUser env req)" "keeps sameAccounts (DeleteTicketUser env i)"
    unfolding AddTicketUser_def DeleteTicketUser_def loadUser_def by (intro accounts.keeps_intros; simp)+
qed

section \<open>Mobiles and accounts\<close>

text \<open>Every account has the mapping of its mobile, and no other.\<close>

definition accountsOk :: "userDb \<Rightarrow> bool" where
  "accountsOk s \<longleftrightarrow> distinct (map du_Id (ub_Users s)) \<and> distinct (map um_Mobile (ub_Mobiles s)) \<and> distinct (map um_Id (ub_Mobiles s))
     \<and> (\<forall>m \<in> set (ub_Mobiles s). um_Status m = 1)
     \<and> set (map (\<lambda>m. (um_UserId m, um_Mobile m)) (ub_Mobiles s)) = set (map (\<lambda>u. (du_Id u, du_Mobile u)) (ub_Users s))"

lemma accountsOk_frame: "accountsOk s \<Longrightarrow> sameAccounts s s' \<Longrightarrow> accountsOk s'" "accountsOk s \<Longrightarrow> sameTables s s' \<Longrightarrow> accountsOk s'"
  by (simp_all add: accountsOk_def sameAccounts_def sameTables_def)

lemma accountsOk_emails: "accountsOk (s\<lparr>ub_Emails := es\<rparr>) = accountsOk s"
  by (simp add: accountsOk_def)

lemma find_mobile:
  assumes "accountsOk s"
  shows "FindOneByMobile x s = Inr m \<longleftrightarrow> m \<in> set (ub_Mobiles s) \<and> um_Mobile m = x"
    and "FindOneByMobile x s = Inl ModelNotFound \<longleftrightarrow> x \<notin> um_Mobile ` set (ub_Mobiles s)"
    and "FindOneByMobile x s = Inl e \<Longrightarrow> e = ModelNotFound"
proof -
  have st: "um_Status m = 1" if "m \<in> set (ub_Mobiles s)" for m using that assms by (simp add: accountsOk_def)
  have eq: "find (\<lambda>m. um_Mobile m = x \<and> um_Status m = 1) (ub_Mobiles s) = find (\<lambda>m. um_Mobile m = x) (ub_Mobiles s)"
    using st by (intro find_cong) auto
  have "distinct (map um_Mobile (ub_Mobiles s))" using assms by (simp add: accountsOk_def)
  from find_unique_key [OF this, of m "\<lambda>_. True"]
  have "m \<in> set (ub_Mobiles s) \<Longrightarrow> find (\<lambda>y. um_Mobile y = um_Mobile m) (ub_Mobiles s) = Some m" by simp
  then show "FindOneByMobile x s = Inr m \<longleftrightarrow> m \<in> set (ub_Mobiles s) \<and> um_Mobile m = x"
    by (auto simp: FindOneByMobile_def eq orNotFound_def dest: find_someD split: option.splits)
  show "FindOneByMobile x s = Inl ModelNotFound \<longleftrightarrow> x \<notin> um_Mobile ` set (ub_Mobiles s)"
    by (auto simp: FindOneByMobile_def eq orNotFound_def find_None_iff dest: find_someD split: option.splits)
  show "FindOneByMobile x s = Inl e \<Longrightarrow> e = ModelNotFound" by (auto simp: FindOneByMobile_def orNotFound_def split: option.splits)
qed

lemma find_user:
  assumes "accountsOk s"
  shows "FindUser i s = Inr u \<longleftrightarrow> u \<in> set (ub_Users s) \<and> du_Id u = i"
proof -
  have "distinct (map du_Id (ub_Users s))" using assms by (simp add: accountsOk_def)
  from find_unique_key [OF this, of u "\<lambda>_. True"]
  have "u \<in> set (ub_Users s) \<Longrightarrow> find (\<lambda>y. du_Id y = du_Id u) (ub_Users s) = Some u" by simp
  then show ?thesis by (auto simp: FindUser_def orNotFound_def dest: find_someD split: option.splits)
qed

lemma account_mobile:
  assumes "accountsOk s" "u \<in> set (ub_Users s)"
  shows "\<exists>m. FindOneByMobile (du_Mobile u) s = Inr m \<and> um_UserId m = du_Id u"
proof -
  have "(du_Id u, du_Mobile u) \<in> set (map (\<lambda>m. (um_UserId m, um_Mobile m)) (ub_Mobiles s))" using assms by (auto simp: accountsOk_def)
  then obtain m where "m \<in> set (ub_Mobiles s)" "um_Mobile m = du_Mobile u" "um_UserId m = du_Id u" by auto
  then show ?thesis using find_mobile(1) [OF assms(1), of "du_Mobile u" m] by auto
qed

lemma mapping_account:
  assumes "accountsOk s" "FindOneByMobile x s = Inr m" "FindUser (um_UserId m) s = Inr u"
  shows "u \<in> set (ub_Users s) \<and> du_Mobile u = x"
proof -
  have m: "m \<in> set (ub_Mobiles s)" "um_Mobile m = x" using find_mobile(1) [OF assms(1)] assms(2) by auto
  have u: "u \<in> set (ub_Users s)" "du_Id u = um_UserId m" using find_user [OF assms(1)] assms(3) by auto
  have "(um_UserId m, x) \<in> set (map (\<lambda>u. (du_Id u, du_Mobile u)) (ub_Users s))"
  proof -
    have "(um_UserId m, x) \<in> set (map (\<lambda>m. (um_UserId m, um_Mobile m)) (ub_Mobiles s))" using m by force
    with assms(1) show ?thesis by (simp only: accountsOk_def)
  qed
  then obtain v where v: "v \<in> set (ub_Users s)" "du_Id v = um_UserId m" "du_Mobile v = x" by auto
  have "v = u" using v(1,2) u assms(1) by (auto simp: accountsOk_def distinct_map inj_on_def)
  with v u show ?thesis by simp
qed

lemma swap_pair:
  assumes "distinct (map fst A)" "distinct (map snd M)" "set M = set A" "(i, old) \<in> set A"
  shows "set (filter (\<lambda>p. snd p \<noteq> old) M @ [(i, x)]) = set (map (\<lambda>p. if fst p = i then (i, x) else p) A)"
proof -
  have fst: "p = q" if "p \<in> set A" "q \<in> set A" "fst p = fst q" for p q using that assms(1) by (auto simp: distinct_map inj_on_def)
  have snd: "p = q" if "p \<in> set A" "q \<in> set A" "snd p = snd q" for p q using that assms(2,3) by (auto simp: distinct_map inj_on_def)
  have "snd p \<noteq> old \<longleftrightarrow> fst p \<noteq> i" if "p \<in> set A" for p
    using fst [OF that assms(4)] snd [OF that assms(4)] by (metis fst_conv snd_conv)
  then show ?thesis using assms(3,4) by (auto simp: image_iff)
qed

lemma change_mobile_ok:
  assumes ok: "accountsOk s" and u: "u \<in> set (ub_Users s)" and data: "du_Id data = du_Id u" "du_Mobile data = x"
    and x: "x \<notin> um_Mobile ` set (ub_Mobiles s)" and i: "ve_Ids env k \<notin> um_Id ` set (ub_Mobiles s)"
    and s': "UpdateUserRow data (s\<lparr>ub_Mobiles := filter (\<lambda>m. um_Mobile m \<noteq> du_Mobile u) (ub_Mobiles s) @ [newMobile env k (du_Id u) x]\<rparr>) = Inr s'"
  shows "accountsOk s'"
proof -
  let ?pm = "\<lambda>m. (um_UserId m, um_Mobile m)" and ?pu = "\<lambda>u. (du_Id u, du_Mobile u)"
  let ?A = "map ?pu (ub_Users s)" and ?M = "map ?pm (ub_Mobiles s)"
  have users: "map du_Id (ub_Users s') = map du_Id (ub_Users s)" "map ?pu (ub_Users s') = map (\<lambda>p. if fst p = du_Id u then (du_Id u, x) else p) ?A"
    using s' data by (auto simp: UpdateUserRow_def)
  have mobs: "ub_Mobiles s' = filter (\<lambda>m. um_Mobile m \<noteq> du_Mobile u) (ub_Mobiles s) @ [newMobile env k (du_Id u) x]"
    using s' by (auto simp: UpdateUserRow_def)
  have pm: "map ?pm (ub_Mobiles s') = filter (\<lambda>p. snd p \<noteq> du_Mobile u) ?M @ [(du_Id u, x)]"
    unfolding mobs by (simp add: newMobile_def filter_map o_def)
  have d: "distinct (map fst ?A)" "distinct (map snd ?M)" "set ?M = set ?A" using ok by (simp_all add: accountsOk_def o_def)
  have in_A: "(du_Id u, du_Mobile u) \<in> set ?A" using u by simp
  from swap_pair [OF d in_A, of x] have "set (map ?pm (ub_Mobiles s')) = set (map ?pu (ub_Users s'))" unfolding pm users(2) .
  moreover have "distinct (map um_Mobile (ub_Mobiles s'))" "distinct (map um_Id (ub_Mobiles s'))" "\<forall>m \<in> set (ub_Mobiles s'). um_Status m = 1"
    using ok x i unfolding mobs by (auto simp: accountsOk_def newMobile_def distinct_map_filter)
  moreover have "distinct (map du_Id (ub_Users s'))" using ok unfolding users(1) by (simp add: accountsOk_def)
  ultimately show ?thesis unfolding accountsOk_def by (intro conjI)
qed

lemma moveMobile_effect:
  assumes db: "dbOk env" and ok: "accountsOk s" and u: "u \<in> set (ub_Users s)" and x: "x \<noteq> du_Mobile u"
    and i: "ve_Ids env 0 \<notin> um_Id ` set (ub_Mobiles s)"
  shows "(\<exists>e. moveMobile env u x s = (Inl e, s)) \<or> x \<notin> um_Mobile ` set (ub_Mobiles s) \<and> moveMobile env u x s =
    (Inr (), s\<lparr>ub_Mobiles := filter (\<lambda>m. um_Mobile m \<noteq> du_Mobile u) (ub_Mobiles s) @ [newMobile env 0 (du_Id u) x]\<rparr>)"
proof (cases "FindOneByMobile x s")
  case (Inr m)
  have "um_UserId m \<noteq> du_Id u"
  proof
    assume "um_UserId m = du_Id u"
    then have "FindUser (um_UserId m) s = Inr u" using u find_user [OF ok] by simp
    with mapping_account [OF ok Inr] x show False by simp
  qed
  then show ?thesis by (simp add: moveMobile_def io_simps db Inr unused_def)
next
  case (Inl e)
  then have e: "e = ModelNotFound" by (rule find_mobile(3) [OF ok])
  have free: "x \<notin> um_Mobile ` set (ub_Mobiles s)" using Inl e find_mobile(2) [OF ok, of x] by simp
  obtain m where m: "FindOneByMobile (du_Mobile u) s = Inr m" using account_mobile [OF ok u] by blast
  have m': "m \<in> set (ub_Mobiles s)" "um_Mobile m = du_Mobile u" using find_mobile(1) [OF ok] m by auto
  have inj: "inj_on um_Mobile (set (ub_Mobiles s))" "inj_on um_Id (set (ub_Mobiles s))" using ok by (auto simp: accountsOk_def distinct_map)
  have "um_Id y = um_Id m \<longleftrightarrow> um_Mobile y = du_Mobile u" if "y \<in> set (ub_Mobiles s)" for y
    using that m' inj by (metis inj_on_def)
  then have del: "filter (\<lambda>y. um_Id y \<noteq> um_Id m) (ub_Mobiles s) = filter (\<lambda>y. um_Mobile y \<noteq> du_Mobile u) (ub_Mobiles s)"
    by (intro filter_cong) auto
  have ins: "InsertMobile (newMobile env 0 (du_Id u) x) (s\<lparr>ub_Mobiles := filter (\<lambda>y. um_Mobile y \<noteq> du_Mobile u) (ub_Mobiles s)\<rparr>)
      = Inr (s\<lparr>ub_Mobiles := filter (\<lambda>m. um_Mobile m \<noteq> du_Mobile u) (ub_Mobiles s) @ [newMobile env 0 (du_Id u) x]\<rparr>)"
    using free i by (auto simp: InsertMobile_def newMobile_def)
  show ?thesis using free ins by (simp add: moveMobile_def io_simps db Inl e unused_def m DeleteMobile_def del)
qed

text \<open>A handler keeps the accounts in order.\<close>

lemma Register_ok:
  assumes db: "dbOk env" and ok: "accountsOk s" and i: "ve_Ids env 1 \<notin> um_Id ` set (ub_Mobiles s)"
  shows "accountsOk (snd (Register env req s))"
proof -
  let ?x = "rg_Mobile req"
  have step: "accountsOk (s\<lparr>ub_Users := ub_Users s @ [newUser env req email], ub_Mobiles := ub_Mobiles s @ [newMobile env 1 (ve_Ids env 0) ?x]\<rparr>)"
    if "?x \<notin> um_Mobile ` set (ub_Mobiles s)" "ve_Ids env 0 \<notin> du_Id ` set (ub_Users s)" for email
    using that ok i by (auto simp: accountsOk_def newUser_def newMobile_def)
  have ins: "InsertMobile (newMobile env 1 (ve_Ids env 0) ?x) (s\<lparr>ub_Users := us\<rparr>) = Inr (s\<lparr>ub_Users := us, ub_Mobiles := ub_Mobiles s @ [newMobile env 1 (ve_Ids env 0) ?x]\<rparr>)"
    if "?x \<notin> um_Mobile ` set (ub_Mobiles s)" for us
    using that i by (auto simp: InsertMobile_def newMobile_def)
  have mail: "accountsOk s2" if "InsertEmail data s1 = Inr s2" "accountsOk s1" for data s1 s2
    using that by (auto simp: InsertEmail_def accountsOk_emails split: if_splits)
  show ?thesis
  proof (cases "FindOneByMobile ?x s")
    case Inr
    then show ?thesis using ok by (auto simp: Register_def io_simps db unused_def split: sum.split)
  next
    case (Inl e)
    then have e: "e = ModelNotFound" by (rule find_mobile(3) [OF ok])
    have free: "?x \<notin> um_Mobile ` set (ub_Mobiles s)" using Inl e find_mobile(2) [OF ok, of ?x] by simp
    note step' = step [OF free] ins [OF free]
    show ?thesis using ok step' mail [OF _ step'(1)] unfolding Register_def
      by (auto simp: io_simps db Inl e unused_def InsertUser_def split: sum.split if_splits) (simp_all add: newUser_def)
  qed
qed

lemma row_ok:
  assumes ok: "accountsOk s" and u: "u \<in> set (ub_Users s)" and data: "du_Id data = du_Id u" "du_Mobile data = du_Mobile u"
    and s': "UpdateUserRow data s = Inr s'"
  shows "accountsOk s'"
proof -
  have "v = u" if "v \<in> set (ub_Users s)" "du_Id v = du_Id u" for v using that u ok by (auto simp: accountsOk_def distinct_map inj_on_def)
  then have same: "du_Mobile u = du_Mobile v" if "v \<in> set (ub_Users s)" "du_Id v = du_Id u" for v using that by blast
  have "map du_Id (ub_Users s') = map du_Id (ub_Users s)" "map (\<lambda>u. (du_Id u, du_Mobile u)) (ub_Users s') = map (\<lambda>u. (du_Id u, du_Mobile u)) (ub_Users s)"
    "ub_Mobiles s' = ub_Mobiles s"
    using s' data same by (auto simp: UpdateUserRow_def)
  with ok show ?thesis by (simp add: accountsOk_def del: set_map)
qed

lemma UpdateMobile_ok:
  assumes db: "dbOk env" and ok: "accountsOk s" and i: "ve_Ids env 0 \<notin> um_Id ` set (ub_Mobiles s)"
  shows "accountsOk (snd (UpdateMobile env j mobile s))" "accountsOk (snd (UpdateUser env req s))"
proof -
  have main: "accountsOk (snd (if mobile \<noteq> [] \<and> mobile \<noteq> du_Mobile u
     then thenDo (moveMobile env u mobile) (\<lambda>_. thenDo (exec env 5 (UpdateUserRow (d\<lparr>du_Mobile := mobile\<rparr>))) (\<lambda>_. answer True)) s
     else thenDo (exec env 5 (UpdateUserRow d)) (\<lambda>_. answer True) s))"
    if u: "u \<in> set (ub_Users s)" and d: "du_Id d = du_Id u" "du_Mobile d = du_Mobile u" for u d mobile
  proof (cases "mobile \<noteq> [] \<and> mobile \<noteq> du_Mobile u")
    case True
    then have x: "mobile \<noteq> du_Mobile u" by simp
    let ?s1 = "s\<lparr>ub_Mobiles := filter (\<lambda>m. um_Mobile m \<noteq> du_Mobile u) (ub_Mobiles s) @ [newMobile env 0 (du_Id u) mobile]\<rparr>"
    obtain s2 where s2: "UpdateUserRow (d\<lparr>du_Mobile := mobile\<rparr>) ?s1 = Inr s2" by (simp add: UpdateUserRow_def)
    from moveMobile_effect [OF db ok u x i] show ?thesis
    proof (elim disjE exE conjE)
      fix e assume "moveMobile env u mobile s = (Inl e, s)"
      then show ?thesis using True ok by (simp add: io_simps)
    next
      assume free: "mobile \<notin> um_Mobile ` set (ub_Mobiles s)" and run: "moveMobile env u mobile s = (Inr (), ?s1)"
      have "accountsOk s2" by (rule change_mobile_ok [OF ok u _ _ free i s2]) (simp_all add: d)
      then show ?thesis using True by (simp add: io_simps db run s2)
    qed
  next
    case False
    obtain s1 where s1: "UpdateUserRow d s = Inr s1" by (simp add: UpdateUserRow_def)
    with row_ok [OF ok u d s1] False show ?thesis by (auto simp: io_simps db)
  qed
  show "accountsOk (snd (UpdateMobile env j mobile s))"
  proof (cases "FindUser j s")
    case (Inr u)
    then have "u \<in> set (ub_Users s)" using find_user [OF ok] by simp
    from main [OF this, of "u\<lparr>du_EditTime := Some (ve_Now env)\<rparr>" mobile] Inr show ?thesis
      by (auto simp: UpdateMobile_def thenDo_def [of "loadUser env 0 j"] loadUser_ok db ifMissing_def if_distribR)
  qed (simp add: UpdateMobile_def io_simps db ifMissing_def ok)
  show "accountsOk (snd (UpdateUser env req s))"
  proof (cases "FindUser (uu_Id req) s")
    case (Inr u)
    let ?d = "u\<lparr>du_Name := (if uu_Name req \<noteq> [] then Some (uu_Name req) else du_Name u),
           du_Address := (if uu_Address req \<noteq> [] then Some (uu_Address req) else du_Address u),
           du_Gender := (if uu_Gender req \<noteq> 0 then uu_Gender req else du_Gender u), du_EditTime := Some (ve_Now env)\<rparr>"
    have "u \<in> set (ub_Users s)" using Inr find_user [OF ok] by simp
    from main [OF this, of ?d "uu_Mobile req"] Inr show ?thesis
      unfolding UpdateUser_def Let_def thenDo_def [of "loadUser env 0 (uu_Id req)"] by (auto simp: loadUser_ok db ifMissing_def if_distribR)
  qed (simp add: UpdateUser_def io_simps db ifMissing_def ok)
qed

lemma rows_ok:
  assumes db: "dbOk env" and ok: "accountsOk s"
  shows "accountsOk (snd (UpdatePassword env j pw s))" "accountsOk (snd (Authentication env j a b s))"
proof -
  have row: "accountsOk s'" if "FindUser j s = Inr u" "UpdateUserRow d s = Inr s'" "du_Id d = du_Id u" "du_Mobile d = du_Mobile u" for u d s'
    using that find_user [OF ok] by (intro row_ok [OF ok, of u d]) simp_all
  show "accountsOk (snd (UpdatePassword env j pw s))" using row ok
    by (auto simp: UpdatePassword_def io_simps db ifMissing_def split: sum.splits)
  show "accountsOk (snd (Authentication env j a b s))" using row ok
    by (auto simp: Authentication_def io_simps db ifMissing_def split: sum.splits)
qed

text \<open>The mappings of emails are apart from those of mobiles.\<close>

definition sameMobiles :: "userDb \<Rightarrow> userDb \<Rightarrow> bool" where
  "sameMobiles s s' \<longleftrightarrow> ub_Users s' = ub_Users s \<and> ub_Mobiles s' = ub_Mobiles s"

interpretation mobiles: state_frame sameMobiles
  by unfold_locales (simp_all add: sameMobiles_def)

lemma email_rows: "keeps sameMobiles (exec env k (InsertEmail d))" "keeps sameMobiles (exec env k (DeleteEmail i))"
  by (rule mobiles.keeps_exec; auto simp: InsertEmail_def DeleteEmail_def sameMobiles_def split: if_splits)+

lemma moveEmail_mobiles: "keeps sameMobiles (moveEmail env user email)"
  unfolding moveEmail_def by (intro mobiles.keeps_intros email_rows)

lemma UpdateEmail_ok:
  assumes db: "dbOk env" and ok: "accountsOk s"
  shows "accountsOk (snd (UpdateEmail env j text s))"
proof (cases "FindUser j s")
  case (Inr u)
  have u: "u \<in> set (ub_Users s)" using Inr find_user [OF ok] by simp
  show ?thesis
  proof (cases "normalizeOptionalEmail env text")
    case e: (Inr email)
    let ?d = "u\<lparr>du_Email := validString email, du_EmailStatus := emailStatusForAddress email, du_EditTime := Some (ve_Now env)\<rparr>"
    have D: "UpdateEmail env j text s = thenDo (moveEmail env u email) (\<lambda>_. thenDo (exec env 5 (UpdateUserRow ?d)) (\<lambda>_. answer True)) s"
      unfolding UpdateEmail_def by (simp add: thenDo_def [of "loadUser env 0 j"] loadUser_ok db Inr ifMissing_def e)
    obtain r s1 where run: "moveEmail env u email s = (r, s1)" by (rule prod.exhaust)
    have same: "sameMobiles s s1" by (rule keepsD [OF moveEmail_mobiles run])
    then have s1: "accountsOk s1" "u \<in> set (ub_Users s1)" using ok u by (simp_all add: accountsOk_def sameMobiles_def)
    obtain s2 where s2: "UpdateUserRow ?d s1 = Inr s2" by (simp add: UpdateUserRow_def)
    have "accountsOk s2" by (rule row_ok [OF s1 _ _ s2]) simp_all
    with s1 show ?thesis unfolding D by (cases r) (simp_all add: io_simps db run s2)
  qed (simp add: UpdateEmail_def io_simps db Inr ifMissing_def ok)
qed (simp add: UpdateEmail_def io_simps db ifMissing_def ok)

section \<open>The user service as a system\<close>

text \<open>Handlers run with a working database, any behaviour of Redis, and ids not used before.\<close>

inductive userStep :: "userDb \<Rightarrow> userDb \<Rightarrow> bool" where
  register: "dbOk env \<Longrightarrow> ve_Ids env 1 \<notin> um_Id ` set (ub_Mobiles s) \<Longrightarrow> userStep s (snd (Register env rg s))"
| login: "userStep s (snd (Login env lg s))"
| logout: "userStep s (snd (Logout env token s))"
| update_mobile: "dbOk env \<Longrightarrow> ve_Ids env 0 \<notin> um_Id ` set (ub_Mobiles s) \<Longrightarrow> userStep s (snd (UpdateMobile env i mobile s))"
| update_user: "dbOk env \<Longrightarrow> ve_Ids env 0 \<notin> um_Id ` set (ub_Mobiles s) \<Longrightarrow> userStep s (snd (UpdateUser env uu s))"
| update_email: "dbOk env \<Longrightarrow> userStep s (snd (UpdateEmail env i email s))"
| update_password: "dbOk env \<Longrightarrow> userStep s (snd (UpdatePassword env i pw s))"
| authentication: "dbOk env \<Longrightarrow> userStep s (snd (Authentication env i name number s))"
| add_ticket_user: "userStep s (snd (AddTicketUser env at s))"
| delete_ticket_user: "userStep s (snd (DeleteTicketUser env i s))"

lemma userStep_ok:
  assumes "accountsOk s" "userStep s s'" shows "accountsOk s'"
  using assms(2)
proof cases
  case (login env lg)
  then show ?thesis using accountsOk_frame(2) [OF assms(1)] Login_tables(1) by (auto simp: keeps_def)
next
  case (logout env token)
  then show ?thesis using accountsOk_frame(2) [OF assms(1)] Login_tables(2) by (auto simp: keeps_def)
next
  case (add_ticket_user env at)
  then show ?thesis using accountsOk_frame(1) [OF assms(1)] ticket_accounts(1) by (auto simp: keeps_def)
next
  case (delete_ticket_user env i)
  then show ?thesis using accountsOk_frame(1) [OF assms(1)] ticket_accounts(2) by (auto simp: keeps_def)
qed (simp_all add: assms(1) Register_ok UpdateMobile_ok UpdateEmail_ok rows_ok)

interpretation user_sys: step_invariant userStep accountsOk
  by unfold_locales (rule userStep_ok)

definition noUsers :: userDb where
  "noUsers = \<lparr>ub_Users = [], ub_Mobiles = [], ub_Emails = [], ub_TicketUsers = [], ub_Redis = Map.empty\<rparr>"

lemma noUsers_ok: "accountsOk noUsers"
  by (simp add: noUsers_def accountsOk_def)

text \<open>A successful login by mobile, whatever Redis does.\<close>

lemma Login_success:
  assumes run: "Login env req s = (Inr (i, token), s')" and mobile: "lg_Mobile req \<noteq> []"
  shows "\<exists>m u. FindOneByMobile (lg_Mobile req) s = Inr m \<and> FindUser (um_UserId m) s = Inr u \<and> du_Id u = i
    \<and> du_Password u = Some (ve_Md5 env (lg_Password req))"
proof -
  obtain u key s1 where l: "loginUser env req s = (Inr (u, key), s1)"
    and rest: "du_Id u = i" "du_Password u = Some (ve_Md5 env (lg_Password req))"
    using run unfolding Login_def by (auto simp: thenDo_def refuse_def answer_def split: sum.splits if_splits prod.splits)
  obtain m where "FindOneByMobile (lg_Mobile req) s = Inr m" "FindUser (um_UserId m) s = Inr u"
    using l mobile unfolding loginUser_def loadUser_def
    by (auto simp: thenDo_def answer_def query_def eval_ctx_def ifMissing_def split: sum.splits fault.splits if_splits prod.splits)
  with rest show ?thesis by blast
qed


end
