(* ===== verification/UserLogins.thy ===== *)
theory UserLogins
  imports Users
begin

text \<open>
  Runs of the user service: what failed logins do to later ones, what a registration leaves behind when it fails
  and when it succeeds, and whose ticket users a user can delete.
\<close>

section \<open>Failed logins\<close>

definition loginEnv :: "userEnv \<Rightarrow> bool" where
  "loginEnv env \<longleftrightarrow> dbOk env \<and> ve_HasRedis env \<and> (\<forall>k. ve_Redis env k = NoFault) \<and> trim_space (ve_AccessSecret env) \<noteq> []"

definition byMobile :: "string \<Rightarrow> string \<Rightarrow> LoginReq" where
  "byMobile mobile password = \<lparr>lg_Mobile = mobile, lg_Email = [], lg_Password = password\<rparr>"

definition accountOf :: "string \<Rightarrow> userDb \<Rightarrow> DUser \<Rightarrow> bool" where
  "accountOf mobile s u \<longleftrightarrow> mobile \<noteq> [] \<and> (\<exists>m. FindOneByMobile mobile s = Inr m \<and> FindUser (um_UserId m) s = Inr u)"

lemma redis_ok: "loginEnv env \<Longrightarrow> redis env k f s = (case f (ub_Redis s) of (r, kv) \<Rightarrow> (r, s\<lparr>ub_Redis := kv\<rparr>))"
  by (simp add: loginEnv_def redis_def eval_ctx_def)

lemma loginUser_ok:
  assumes "loginEnv env" "accountOf mobile s u"
  shows "loginUser env (byMobile mobile password) s = (Inr (u, mobileFailKey mobile), s)"
  using assms by (auto simp: loginUser_def accountOf_def byMobile_def loginEnv_def io_simps ifMissing_def)

lemma Login_locked:
  assumes env: "loginEnv env" and acc: "accountOf mobile s u" and pw: "password \<noteq> []"
    and n: "kvGet (ve_Now env) (mobileFailKey mobile) (ub_Redis s) = Some v" "ve_LoginFailLimit env \<le> parseFailCount v"
  shows "Login env (byMobile mobile password) s = (Inl (Status CResourceExhausted ErrLoginFailedTooMany), s)"
proof -
  have m: "lg_Password (byMobile mobile password) = password" "lg_Mobile (byMobile mobile password) = mobile" "mobile \<noteq> []"
    using acc by (simp_all add: byMobile_def accountOf_def)
  have h: "ve_HasRedis env" "trim_space (ve_AccessSecret env) \<noteq> []" using env by (simp_all add: loginEnv_def)
  show ?thesis using pw m h n
    by (simp add: Login_def accessSecret_def Let_def thenDo_def [of "loginUser env (byMobile mobile password)"] loginUser_ok [OF env acc]
        checkFailures_def thenDo_def attempt_def redis_ok [OF env] refuse_def)
qed

definition counted :: "userEnv \<Rightarrow> string \<Rightarrow> kvStore \<Rightarrow> kvStore" where
  "counted env key r = (case kvIncr (ve_Now env) key r of
     (got, r') \<Rightarrow> if got = Inr 1 then kvExpire (ve_Now env) key (tokenSeconds (ve_TokenExpire env)) r' else r')"

lemma Login_wrong:
  assumes env: "loginEnv env" and acc: "accountOf mobile s u" and pw: "password \<noteq> []" "du_Password u \<noteq> Some (ve_Md5 env password)"
    and n: "parseFailCount (case kvGet (ve_Now env) (mobileFailKey mobile) (ub_Redis s) of None \<Rightarrow> [] | Some v \<Rightarrow> v) < ve_LoginFailLimit env"
  shows "Login env (byMobile mobile password) s =
    (Inl (Status CUnauthenticated ErrInvalidPassword), s\<lparr>ub_Redis := counted env (mobileFailKey mobile) (ub_Redis s)\<rparr>)"
proof -
  have m: "lg_Password (byMobile mobile password) = password" "lg_Mobile (byMobile mobile password) = mobile" "mobile \<noteq> []"
    using acc by (simp_all add: byMobile_def accountOf_def)
  have h: "ve_HasRedis env" "trim_space (ve_AccessSecret env) \<noteq> []" using env by (simp_all add: loginEnv_def)
  have check: "checkFailures env (mobileFailKey mobile) s = (Inr (), s)"
    using h n by (simp add: checkFailures_def thenDo_def attempt_def redis_ok [OF env] answer_def)
  have count: "countFailure env (mobileFailKey mobile) s = (Inr (), s\<lparr>ub_Redis := counted env (mobileFailKey mobile) (ub_Redis s)\<rparr>)"
    using h by (simp add: countFailure_def counted_def thenDo_def attempt_def redis_ok [OF env] answer_def split: prod.split)
  show ?thesis using pw m h
    by (simp add: Login_def accessSecret_def Let_def thenDo_def loginUser_ok [OF env acc] check count refuse_def)
qed

lemma counted_first:
  assumes "kvGet (ve_Now env) key r = None"
  shows "counted env key r key = Some (show_int 1, Some (ve_Now env + tokenSeconds (ve_TokenExpire env)))"
  using assms by (simp add: counted_def kvIncr_def kvExpire_def) (simp add: kvGet_def)

lemma counted_next:
  assumes "r key = Some (show_int n, Some d)" "ve_Now env < d" "in_int64 (n + 1)" "1 \<le> n"
  shows "counted env key r key = Some (show_int (n + 1), Some d)"
proof -
  have "in_int64 n" using assms(3,4) by (simp add: in_int64_def int64_min_def)
  then have "parse_int64 (show_int n) = Some n" by (rule parse_int64_show_int)
  then show ?thesis using assms by (simp add: counted_def kvIncr_def kvGet_def)
qed

fun loginAttempts :: "string \<Rightarrow> (userEnv \<times> string) list \<Rightarrow> userDb \<Rightarrow> userDb" where
  "loginAttempts mobile [] s = s"
| "loginAttempts mobile ((env, password) # rest) s = loginAttempts mobile rest (snd (Login env (byMobile mobile password) s))"

text \<open>An attempt with a wrong password at a time before \<open>d\<close>.\<close>

definition wrongAttempt :: "int \<Rightarrow> int \<Rightarrow> DUser \<Rightarrow> userEnv \<times> string \<Rightarrow> bool" where
  "wrongAttempt limit d u = (\<lambda>(env, password). loginEnv env \<and> ve_LoginFailLimit env = limit \<and> ve_Now env < d
     \<and> password \<noteq> [] \<and> du_Password u \<noteq> Some (ve_Md5 env password))"

lemma attempts_count:
  assumes "accountOf mobile s u" "ub_Redis s (mobileFailKey mobile) = Some (show_int n, Some d)" "1 \<le> n" "n \<le> limit" "in_int64 limit"
    and "\<And>x. x \<in> set xs \<Longrightarrow> wrongAttempt limit d u x"
  shows "accountOf mobile (loginAttempts mobile xs s) u
    \<and> ub_Redis (loginAttempts mobile xs s) (mobileFailKey mobile) = Some (show_int (min (n + int (length xs)) limit), Some d)"
  using assms
proof (induction xs arbitrary: s n)
  case Nil
  then show ?case by simp
next
  case (Cons x xs)
  obtain env password where x: "x = (env, password)" by (cases x)
  have w: "loginEnv env" "ve_LoginFailLimit env = limit" "ve_Now env < d" "password \<noteq> []" "du_Password u \<noteq> Some (ve_Md5 env password)"
    using Cons.prems(6) [of x] by (simp_all add: wrongAttempt_def x)
  have range: "in_int64 n" using Cons.prems(3-5) by (simp add: in_int64_def int64_min_def)
  have get: "kvGet (ve_Now env) (mobileFailKey mobile) (ub_Redis s) = Some (show_int n)" using Cons.prems(2) w(3) by (simp add: kvGet_def)
  have count: "parseFailCount (show_int n) = n" using parse_int64_show_int [OF range] by (simp add: parseFailCount_def)
  let ?s1 = "snd (Login env (byMobile mobile password) s)"
  have rest: "\<And>y. y \<in> set xs \<Longrightarrow> wrongAttempt limit d u y" using Cons.prems(6) by simp
  show ?case
  proof (cases "n = limit")
    case True
    have "?s1 = s" using Login_locked [OF w(1) Cons.prems(1) w(4) get] True w(2) count by simp
    with Cons.IH [OF Cons.prems(1-5) rest] True show ?thesis by (simp add: x)
  next
    case False
    have s1: "?s1 = s\<lparr>ub_Redis := counted env (mobileFailKey mobile) (ub_Redis s)\<rparr>"
      using Login_wrong [OF w(1) Cons.prems(1) w(4,5)] False Cons.prems(4) w(2) count get by simp
    have n1: "in_int64 (n + 1)" using Cons.prems(3-5) False by (simp add: in_int64_def int64_min_def)
    have "accountOf mobile ?s1 u" using Cons.prems(1) unfolding s1 by (simp add: accountOf_def FindOneByMobile_def FindUser_def)
    moreover have "ub_Redis ?s1 (mobileFailKey mobile) = Some (show_int (n + 1), Some d)"
      unfolding s1 using counted_next [of "ub_Redis s" "mobileFailKey mobile" n d env, OF Cons.prems(2) w(3) n1 Cons.prems(3)] by simp
    ultimately have "accountOf mobile (loginAttempts mobile xs ?s1) u
      \<and> ub_Redis (loginAttempts mobile xs ?s1) (mobileFailKey mobile) = Some (show_int (min (n + 1 + int (length xs)) limit), Some d)"
      using Cons.prems(3-5) False by (intro Cons.IH rest) simp_all
    then show ?thesis by (simp add: x add_ac)
  qed
qed

text \<open>
  C16. Guessing is bounded: once as many logins of a mobile as the limit allows have failed, counted from the
  first of them, every further login of this mobile before the counter expires is refused, also with
  the right password, and changes nothing.
\<close>

theorem login_lockout:
  assumes acc: "accountOf mobile s u" and fresh: "kvGet (ve_Now env) (mobileFailKey mobile) (ub_Redis s) = None"
    and d: "d = ve_Now env + tokenSeconds (ve_TokenExpire env)"
    and wrong: "\<And>x. x \<in> set ((env, password) # rest) \<Longrightarrow> wrongAttempt limit d u x"
    and limit: "0 < limit" "limit \<le> int (length ((env, password) # rest))" "in_int64 limit"
    and later: "loginEnv env'" "ve_LoginFailLimit env' = limit" "ve_Now env' < d" "password' \<noteq> []"
  shows "Login env' (byMobile mobile password') (loginAttempts mobile ((env, password) # rest) s)
    = (Inl (Status CResourceExhausted ErrLoginFailedTooMany), loginAttempts mobile ((env, password) # rest) s)"
proof -
  let ?s1 = "snd (Login env (byMobile mobile password) s)"
  have w: "loginEnv env" "ve_LoginFailLimit env = limit" "password \<noteq> []" "du_Password u \<noteq> Some (ve_Md5 env password)"
    using wrong [of "(env, password)"] by (simp_all add: wrongAttempt_def)
  have s1: "?s1 = s\<lparr>ub_Redis := counted env (mobileFailKey mobile) (ub_Redis s)\<rparr>"
    using Login_wrong [OF w(1) acc w(3,4)] limit(1) w(2) fresh by (simp add: parseFailCount_def parse_int64_def)
  have acc1: "accountOf mobile ?s1 u" using acc unfolding s1 by (simp add: accountOf_def FindOneByMobile_def FindUser_def)
  have one: "ub_Redis ?s1 (mobileFailKey mobile) = Some (show_int 1, Some d)" unfolding s1 d using counted_first [OF fresh] by simp
  have "accountOf mobile (loginAttempts mobile rest ?s1) u
      \<and> ub_Redis (loginAttempts mobile rest ?s1) (mobileFailKey mobile) = Some (show_int (min (1 + int (length rest)) limit), Some d)"
    using limit wrong by (intro attempts_count [OF acc1 one]) simp_all
  moreover have "min (1 + int (length rest)) limit = limit" using limit(2) by simp
  ultimately have fin: "accountOf mobile (loginAttempts mobile rest ?s1) u"
    "kvGet (ve_Now env') (mobileFailKey mobile) (ub_Redis (loginAttempts mobile rest ?s1)) = Some (show_int limit)"
    using later(3) by (simp_all add: kvGet_def)
  have "parseFailCount (show_int limit) = limit" using parse_int64_show_int [OF limit(3)] by (simp add: parseFailCount_def)
  then show ?thesis using Login_locked [OF later(1) fin(1) later(4) fin(2)] later(2) by simp
qed

section \<open>Registrations\<close>

text \<open>What a registration of a free mobile writes before it turns to the email.\<close>

definition registered :: "userEnv \<Rightarrow> RegisterReq \<Rightarrow> string \<Rightarrow> userDb \<Rightarrow> userDb" where
  "registered env req email s = s\<lparr>ub_Users := ub_Users s @ [newUser env req email],
     ub_Mobiles := ub_Mobiles s @ [newMobile env 1 (ve_Ids env 0) (rg_Mobile req)]\<rparr>"

text \<open>A request that passes the checks of \<open>Register\<close>, with ids not used before.\<close>

definition canRegister :: "userEnv \<Rightarrow> RegisterReq \<Rightarrow> string \<Rightarrow> userDb \<Rightarrow> bool" where
  "canRegister env req email s \<longleftrightarrow> dbOk env \<and> rg_Mobile req \<noteq> [] \<and> rg_Password req \<noteq> []
     \<and> (rg_ConfirmPassword req = [] \<or> rg_ConfirmPassword req = rg_Password req) \<and> normalizeOptionalEmail env (rg_Mail req) = Inr email
     \<and> rg_Mobile req \<notin> um_Mobile ` set (ub_Mobiles s) \<and> ve_Ids env 0 \<notin> du_Id ` set (ub_Users s) \<and> ve_Ids env 1 \<notin> um_Id ` set (ub_Mobiles s)"

lemma find_free:
  "k \<notin> f ` set xs \<Longrightarrow> find (\<lambda>x. f x = k) xs = None" "k \<notin> f ` set xs \<Longrightarrow> find (\<lambda>x. f x = k \<and> p x) xs = None"
  by (induction xs) auto

lemma find_snoc: "find p xs = None \<Longrightarrow> find p (xs @ [x]) = (if p x then Some x else None)"
  by (induction xs) (auto split: if_splits)

lemma find_free_mobile: "x \<notin> um_Mobile ` set (ub_Mobiles s) \<Longrightarrow> FindOneByMobile x s = Inl ModelNotFound"
  by (simp add: FindOneByMobile_def orNotFound_def find_free)

lemma Register_run:
  assumes "canRegister env req email s"
  shows "Register env req s =
    (if email \<noteq> [] then thenDo (exec env 3 (InsertEmail (newEmail env 2 (ve_Ids env 0) email))) (\<lambda>_. answer True) (registered env req email s)
     else (Inr True, registered env req email s))"
proof -
  have free: "FindOneByMobile (rg_Mobile req) s = Inl ModelNotFound"
    by (rule find_free_mobile) (use assms in \<open>simp add: canRegister_def\<close>)
  have db: "dbOk env" using assms by (simp add: canRegister_def)
  have user: "InsertUser (newUser env req email) s = Inr (s\<lparr>ub_Users := ub_Users s @ [newUser env req email]\<rparr>)"
    using assms by (auto simp: canRegister_def InsertUser_def newUser_def)
  have mobile: "InsertMobile (newMobile env 1 (ve_Ids env 0) (rg_Mobile req)) (s\<lparr>ub_Users := ub_Users s @ [newUser env req email]\<rparr>) = Inr (registered env req email s)"
    using assms by (auto simp: canRegister_def InsertMobile_def newMobile_def registered_def)
  have pre: "(rg_Mobile req = [] \<or> rg_Password req = []) = False" "(rg_ConfirmPassword req \<noteq> [] \<and> rg_Password req \<noteq> rg_ConfirmPassword req) = False"
    "normalizeOptionalEmail env (rg_Mail req) = Inr email" using assms by (auto simp: canRegister_def)
  show ?thesis unfolding Register_def pre
    by (simp del: One_nat_def add: thenDo_def [of "query env k q" for k q] thenDo_def [of "exec env 1 f" for f] thenDo_def [of "exec env 2 f" for f]
        query_ok [OF db] exec_ok [OF db, of 1] exec_ok [OF db, of 2] free unused_def user mobile answer_def)
qed

lemma registered_account:
  assumes "canRegister env req email s"
  shows "accountOf (rg_Mobile req) (registered env req email s) (newUser env req email)"
    "FindOneByMobile (rg_Mobile req) (registered env req email s) = Inr (newMobile env 1 (ve_Ids env 0) (rg_Mobile req))"
proof -
  have none: "find (\<lambda>m. um_Mobile m = rg_Mobile req \<and> um_Status m = 1) (ub_Mobiles s) = None" "find (\<lambda>u. du_Id u = ve_Ids env 0) (ub_Users s) = None"
    using assms by (simp_all add: canRegister_def find_free)
  have ne: "rg_Mobile req \<noteq> []" using assms by (simp add: canRegister_def)
  show "FindOneByMobile (rg_Mobile req) (registered env req email s) = Inr (newMobile env 1 (ve_Ids env 0) (rg_Mobile req))"
    and "accountOf (rg_Mobile req) (registered env req email s) (newUser env req email)"
    using ne by (simp_all add: accountOf_def FindOneByMobile_def FindUser_def registered_def find_snoc none newUser_def newMobile_def orNotFound_def)
qed

text \<open>
  A registration whose email another account has already mapped fails although it has created the account: the answer is
  the error of the unique key, the account and the mapping of its mobile are in the tables, and every retry
  is refused because the account exists.
\<close>

theorem register_half_done:
  assumes can: "canRegister env req email s" and email: "email \<noteq> []" "email \<in> em_Email ` set (ub_Emails s)"
    and i: "ve_Ids env 2 \<notin> em_Id ` set (ub_Emails s)"
    and again: "dbOk env'" "normalizeOptionalEmail env' (rg_Mail req) = Inr email"
  shows "Register env req s = (Inl (Duplicate ''uk_d_user_email_email''), registered env req email s)
    \<and> accountOf (rg_Mobile req) (registered env req email s) (newUser env req email)
    \<and> Register env' req (registered env req email s) = (Inl (Status CAlreadyExists ErrUserAlreadyExists), registered env req email s)"
proof (intro conjI)
  have db: "dbOk env" using can by (simp add: canRegister_def)
  have "InsertEmail (newEmail env 2 (ve_Ids env 0) email) (registered env req email s) = Inl (Duplicate ''uk_d_user_email_email'')"
    using email i by (simp add: InsertEmail_def newEmail_def registered_def)
  then show "Register env req s = (Inl (Duplicate ''uk_d_user_email_email''), registered env req email s)"
    unfolding Register_run [OF can] using email by (simp add: io_simps db)
  show "accountOf (rg_Mobile req) (registered env req email s) (newUser env req email)" by (rule registered_account [OF can])
  show "Register env' req (registered env req email s) = (Inl (Status CAlreadyExists ErrUserAlreadyExists), registered env req email s)"
    using can again registered_account(2) [OF can] by (auto simp: canRegister_def Register_def io_simps unused_def)
qed

lemma Login_right:
  assumes env: "loginEnv env" and acc: "accountOf mobile s u" and pw: "password \<noteq> []" "du_Password u = Some (ve_Md5 env password)"
    and n: "parseFailCount (case kvGet (ve_Now env) (mobileFailKey mobile) (ub_Redis s) of None \<Rightarrow> [] | Some v \<Rightarrow> v) < ve_LoginFailLimit env"
    and tok: "CreateToken env (du_Id u) (trim_space (ve_AccessSecret env)) = Inr token"
  shows "fst (Login env (byMobile mobile password) s) = Inr (du_Id u, token)"
    "kvGet (ve_Now env) (loginStateKey (du_Id u)) (ub_Redis (snd (Login env (byMobile mobile password) s))) = Some token"
proof -
  have m: "lg_Password (byMobile mobile password) = password" "lg_Mobile (byMobile mobile password) = mobile" "mobile \<noteq> []"
    using acc by (simp_all add: byMobile_def accountOf_def)
  have h: "ve_HasRedis env" "trim_space (ve_AccessSecret env) \<noteq> []" using env by (simp_all add: loginEnv_def)
  have check: "checkFailures env (mobileFailKey mobile) s = (Inr (), s)"
    using h n by (simp add: checkFailures_def thenDo_def attempt_def redis_ok [OF env] answer_def)
  have keep: "keepLogin env (mobileFailKey mobile) (du_Id u) token s = (Inr (), s\<lparr>ub_Redis := (ub_Redis s)(mobileFailKey mobile := None,
      loginStateKey (du_Id u) \<mapsto> (token, Some (ve_Now env + tokenSeconds (ve_TokenExpire env))))\<rparr>)"
    using h by (simp add: keepLogin_def thenDo_def attempt_def redis_ok [OF env])
  have run: "Login env (byMobile mobile password) s = (Inr (du_Id u, token), s\<lparr>ub_Redis := (ub_Redis s)(mobileFailKey mobile := None,
      loginStateKey (du_Id u) \<mapsto> (token, Some (ve_Now env + tokenSeconds (ve_TokenExpire env))))\<rparr>)"
    using pw m h by (simp add: Login_def accessSecret_def Let_def thenDo_def loginUser_ok [OF env acc] check keep tok answer_def)
  have "0 < tokenSeconds (ve_TokenExpire env)" by (simp add: tokenSeconds_def Let_def)
  then show "fst (Login env (byMobile mobile password) s) = Inr (du_Id u, token)"
    "kvGet (ve_Now env) (loginStateKey (du_Id u)) (ub_Redis (snd (Login env (byMobile mobile password) s))) = Some token"
    by (simp_all add: run kvGet_def)
qed

text \<open>
  What the token library promises: a token signed with a secret verifies with this secret until it expires,
  and gives its claims back.
\<close>

definition verifies :: "userEnv \<Rightarrow> userEnv \<Rightarrow> bool" where
  "verifies env env' \<longleftrightarrow> (\<forall>claims secret token. ve_Sign env claims secret = Inr token \<and> ve_Now env' < jc_ExpiresAt claims
     \<longrightarrow> ve_Verify env' token secret = Inr claims)"

text \<open>
  A registration without email can be used: after it, a login with the mobile and the password gives the new account
  and a token, Redis keeps the token as the login of the account, the account reads back with the mobile
  it registered, and until the token expires it is accepted as the identity of this account.
\<close>

theorem register_login_roundtrip:
  assumes can: "canRegister env req [] s" and env': "loginEnv env'" "ve_Md5 env' = ve_Md5 env" "0 < ve_LoginFailLimit env'"
    and fresh: "kvGet (ve_Now env') (mobileFailKey (rg_Mobile req)) (ub_Redis s) = None"
    and signed: "CreateToken env' (ve_Ids env 0) (trim_space (ve_AccessSecret env')) = Inr token"
    and law: "verifies env' later" and time: "ve_Now later < ve_Now env' + ve_TokenExpire env' div 1000000000"
    and run: "s1 = snd (Register env req s)" "s2 = snd (Login env' (byMobile (rg_Mobile req) (rg_Password req)) s1)"
  shows "fst (Register env req s) = Inr True
    \<and> fst (Login env' (byMobile (rg_Mobile req) (rg_Password req)) s1) = Inr (ve_Ids env 0, token)
    \<and> kvGet (ve_Now env') (loginStateKey (ve_Ids env 0)) (ub_Redis s2) = Some token
    \<and> GetUserByMobile env' (rg_Mobile req) s2 = (Inr (buildUserInfo (newUser env req [])), s2)
    \<and> (\<exists>claims. ParseToken later token (trim_space (ve_AccessSecret env')) = Inr claims \<and> jc_UserID claims = ve_Ids env 0)"
proof -
  have s1: "Register env req s = (Inr True, registered env req [] s)" by (simp add: Register_run [OF can])
  then have s1': "s1 = registered env req [] s" using run by simp
  note acc = registered_account [OF can]
  have u: "du_Id (newUser env req []) = ve_Ids env 0" "du_Password (newUser env req []) = Some (ve_Md5 env' (rg_Password req))"
    by (simp_all add: newUser_def env'(2))
  have pw: "rg_Password req \<noteq> []" using can by (simp add: canRegister_def)
  have n: "parseFailCount (case kvGet (ve_Now env') (mobileFailKey (rg_Mobile req)) (ub_Redis s1) of None \<Rightarrow> [] | Some v \<Rightarrow> v) < ve_LoginFailLimit env'"
    using fresh env'(3) by (simp add: s1' registered_def parseFailCount_def parse_int64_def)
  note login = Login_right [OF env'(1) acc(1) pw u(2) n [unfolded s1'] signed [folded u(1)], folded s1' run(2), unfolded u(1)]
  have same: "sameTables s1 s2" using Login_tables(1) by (simp add: keeps_def run(2))
  then have "FindOneByMobile (rg_Mobile req) s2 = FindOneByMobile (rg_Mobile req) s1" "FindUser i s2 = FindUser i s1" for i
    by (simp_all add: sameTables_def FindOneByMobile_def FindUser_def)
  then have "GetUserByMobile env' (rg_Mobile req) s2 = (Inr (buildUserInfo (newUser env req [])), s2)"
    using acc env'(1) by (auto simp: GetUserByMobile_def io_simps loginEnv_def ifMissing_def accountOf_def s1')
  moreover have "\<exists>claims. ParseToken later token (trim_space (ve_AccessSecret env')) = Inr claims \<and> jc_UserID claims = ve_Ids env 0"
  proof -
    let ?claims = "\<lparr>jc_UserID = ve_Ids env 0, jc_ExpiresAt = ve_Now env' + ve_TokenExpire env' div 1000000000, jc_IssuedAt = ve_Now env'\<rparr>"
    have "ve_Verify later token (trim_space (ve_AccessSecret env')) = Inr ?claims"
      using law signed time by (simp add: verifies_def CreateToken_def)
    then show ?thesis by (simp add: ParseToken_def)
  qed
  ultimately show ?thesis using s1 login unfolding run(2) by simp
qed

section \<open>Ticket users of others\<close>

lemma own_listed:
  assumes "i \<in> tv_Id ` set (map buildTicketUserInfo (FindByUserId userID s))"
  shows "\<exists>t \<in> set (ub_TicketUsers s). tu_Id t = i \<and> tu_UserId t = userID"
  using assms by (auto simp: FindByUserId_def buildTicketUserInfo_def)

text \<open>
  Whatever fails on the way, and whichever id a request names, the handler that deletes a ticket user leaves the
  ticket users of all other users and every account as they are; without a user who is logged in it changes
  nothing at all.
\<close>

theorem deletes_own_ticket_users_only:
  assumes ids: "distinct (map tu_Id (ub_TicketUsers s))" and run: "deleteOwnTicketUser env env' current i s = (r, s')"
  shows "filter (\<lambda>t. current \<noteq> Some (tu_UserId t)) (ub_TicketUsers s') = filter (\<lambda>t. current \<noteq> Some (tu_UserId t)) (ub_TicketUsers s)
    \<and> sameAccounts s s' \<and> (current = None \<longrightarrow> s' = s)"
proof (cases current)
  case None
  with run show ?thesis by (auto simp: deleteOwnTicketUser_def refuse_def sameAccounts_def)
next
  case (Some userID)
  have list: "snd (ListTicketUsers env 0 userID s) = s" "fst (ListTicketUsers env 0 userID s) = Inr l \<Longrightarrow> l = map buildTicketUserInfo (FindByUserId userID s)" for l
    by (auto simp: ListTicketUsers_def query_def eval_ctx_def split: fault.splits)
  have "s' = s \<or> (\<exists>t \<in> set (ub_TicketUsers s). tu_Id t = i \<and> tu_UserId t = userID) \<and> s' = s\<lparr>ub_TicketUsers := filter (\<lambda>t. tu_Id t \<noteq> i) (ub_TicketUsers s)\<rparr>"
  proof (cases "fst (ListTicketUsers env 0 userID s)")
    case (Inr l)
    have l: "l = map buildTicketUserInfo (FindByUserId userID s)" by (rule list(2) [OF Inr])
    have "ListTicketUsers env 0 userID s = (Inr l, s)" using Inr list(1) by (metis prod.collapse)
    with run Some own_listed [of i userID s] show ?thesis
      by (auto simp: deleteOwnTicketUser_def thenDo_def refuse_def DeleteTicketUser_def exec_def eval_ctx_def answer_def DeleteTicketUserRow_def l
          split: if_splits fault.splits)
  next
    case (Inl e)
    then have "ListTicketUsers env 0 userID s = (Inl e, s)" using list(1) by (metis prod.collapse)
    with run Some show ?thesis by (simp add: deleteOwnTicketUser_def thenDo_def)
  qed
  moreover have "filter (\<lambda>t. userID \<noteq> tu_UserId t) (filter (\<lambda>t. tu_Id t \<noteq> i) (ub_TicketUsers s)) = filter (\<lambda>t. userID \<noteq> tu_UserId t) (ub_TicketUsers s)"
    if "t \<in> set (ub_TicketUsers s)" "tu_Id t = i" "tu_UserId t = userID" for t
  proof -
    have "x = t" if "x \<in> set (ub_TicketUsers s)" "tu_Id x = i" for x
      using that \<open>t \<in> _\<close> \<open>tu_Id t = i\<close> ids by (auto simp: distinct_map inj_on_def)
    with \<open>tu_UserId t = userID\<close> show ?thesis unfolding filter_filter by (intro filter_cong) auto
  qed
  ultimately show ?thesis using Some by (auto simp: sameAccounts_def)
qed

section \<open>Instances\<close>

text \<open>A token that spells its claims out, and the account they are used for.\<close>

definition acctWrite :: "int \<Rightarrow> string" where
  "acctWrite n = (if n < 0 then ''-'' else []) @ replicate (nat \<bar>n\<bar>) CHR ''a'' @ '';''"

definition acctRead :: "string \<Rightarrow> int \<times> string" where
  "acctRead t = (let w = takeWhile (\<lambda>c. c \<noteq> CHR '';'') t in
     (if take 1 w = ''-'' then - int (length w - 1) else int (length w), drop (Suc (length w)) t))"

definition acctSign :: "jwtClaims \<Rightarrow> string \<Rightarrow> string res" where
  "acctSign c secret = Inr (acctWrite (jc_UserID c) @ acctWrite (jc_ExpiresAt c) @ acctWrite (jc_IssuedAt c) @ secret)"

definition acctVerify :: "int \<Rightarrow> string \<Rightarrow> string \<Rightarrow> jwtClaims res" where
  "acctVerify now t secret = (case acctRead t of (i, t1) \<Rightarrow> case acctRead t1 of (e, t2) \<Rightarrow> case acctRead t2 of (a, key) \<Rightarrow>
     if key = secret \<and> now < e then Inr \<lparr>jc_UserID = i, jc_ExpiresAt = e, jc_IssuedAt = a\<rparr> else Inl (Other ''token is invalid''))"

lemma acct_read_write: "acctRead (acctWrite n @ t) = (n, t)"
proof -
  have "takeWhile (\<lambda>c. c \<noteq> CHR '';'') (acctWrite n @ t) = (if n < 0 then ''-'' else []) @ replicate (nat \<bar>n\<bar>) CHR ''a''"
    by (simp add: acctWrite_def takeWhile_append)
  moreover have "take 1 (replicate k CHR ''a'') \<noteq> ''-''" for k by (cases k) simp_all
  ultimately show ?thesis by (auto simp: acctRead_def acctWrite_def Let_def simp del: One_nat_def)
qed

definition acctEnv :: "int \<Rightarrow> int \<Rightarrow> userEnv" where
  "acctEnv now base =
     \<lparr>ve_Db = \<lambda>_. NoFault, ve_Redis = \<lambda>_. NoFault, ve_HasRedis = True, ve_Now = now, ve_Ids = \<lambda>k. base + int k, ve_Md5 = rev,
      ve_Parse = \<lambda>x. if CHR ''@'' \<in> set x then Some x else None, ve_Sign = acctSign, ve_Verify = acctVerify now,
      ve_TokenExpire = 10000000000, ve_LoginFailLimit = 2, ve_AccessSecret = ''k''\<rparr>"

lemma acct_laws: "dbOk (acctEnv now base)" "loginEnv (acctEnv now base)" "verifies (acctEnv now base) (acctEnv now' base')"
proof -
  have "trim_space ''k'' = ''k''" by code_simp
  then show "loginEnv (acctEnv now base)" by (simp add: loginEnv_def dbOk_def acctEnv_def)
qed (auto simp: dbOk_def acctEnv_def verifies_def acctSign_def acctVerify_def acct_read_write)

definition acctRegister :: "string \<Rightarrow> string \<Rightarrow> RegisterReq" where
  "acctRegister mobile mail = \<lparr>rg_Mobile = mobile, rg_Password = ''pw'', rg_ConfirmPassword = ''pw'', rg_Mail = mail\<rparr>"

lemma acct_plain: "normalizeOptionalEmail (acctEnv now base) [] = Inr []"
  by (simp add: normalizeOptionalEmail_def) code_simp

lemma acct_can: "canRegister (acctEnv 100 50) (acctRegister ''139'' []) [] noUsers"
  by (simp add: canRegister_def acct_laws acct_plain acctRegister_def noUsers_def)

definition acctDb :: userDb where
  "acctDb = snd (Register (acctEnv 100 50) (acctRegister ''139'' []) noUsers)"

lemma acctDb_eq: "acctDb = registered (acctEnv 100 50) (acctRegister ''139'' []) [] noUsers"
  by (simp add: acctDb_def Register_run [OF acct_can])

lemma acct_account: "accountOf ''139'' acctDb (newUser (acctEnv 100 50) (acctRegister ''139'' []) [])"
  using registered_account(1) [OF acct_can] by (simp add: acctDb_eq acctRegister_def)

text \<open>Two wrong passwords, then the right one.\<close>

theorem login_lockout_witness:
  "Login (acctEnv 105 90) (byMobile ''139'' ''pw'') (loginAttempts ''139'' [(acctEnv 101 70, ''no''), (acctEnv 103 80, ''nil'')] acctDb)
    = (Inl (Status CResourceExhausted ErrLoginFailedTooMany), loginAttempts ''139'' [(acctEnv 101 70, ''no''), (acctEnv 103 80, ''nil'')] acctDb)"
proof (rule login_lockout [OF acct_account])
  show "kvGet (ve_Now (acctEnv 101 70)) (mobileFailKey ''139'') (ub_Redis acctDb) = None"
    by (simp add: acctDb_eq registered_def noUsers_def kvGet_def)
  show "wrongAttempt 2 (ve_Now (acctEnv 101 70) + tokenSeconds (ve_TokenExpire (acctEnv 101 70))) (newUser (acctEnv 100 50) (acctRegister ''139'' []) []) x"
    if "x \<in> set [(acctEnv 101 70, ''no''), (acctEnv 103 80, ''nil'')]" for x
    using that acct_laws by (auto simp: wrongAttempt_def) (simp_all add: acctEnv_def newUser_def acctRegister_def tokenSeconds_def)
  show "loginEnv (acctEnv 105 90)" by (rule acct_laws)
qed (simp_all add: acctEnv_def tokenSeconds_def in_int64_def int64_min_def int64_max_def)

theorem register_login_roundtrip_witness:
  "fst (Register (acctEnv 100 50) (acctRegister ''139'' []) noUsers) = Inr True
    \<and> (\<exists>token. fst (Login (acctEnv 101 70) (byMobile ''139'' ''pw'') acctDb) = Inr (50, token)
      \<and> (\<exists>claims. ParseToken (acctEnv 110 0) token ''k'' = Inr claims \<and> jc_UserID claims = 50))"
proof -
  have k: "trim_space ''k'' = ''k''" by code_simp
  have token: "CreateToken (acctEnv 101 70) (ve_Ids (acctEnv 100 50) 0) (trim_space (ve_AccessSecret (acctEnv 101 70)))
      = acctSign \<lparr>jc_UserID = 50, jc_ExpiresAt = 111, jc_IssuedAt = 101\<rparr> ''k''"
    by (simp add: CreateToken_def acctEnv_def k)
  have fresh: "kvGet (ve_Now (acctEnv 101 70)) (mobileFailKey (rg_Mobile (acctRegister ''139'' []))) (ub_Redis noUsers) = None"
    by (simp add: noUsers_def kvGet_def)
  have limits: "ve_Md5 (acctEnv 101 70) = ve_Md5 (acctEnv 100 50)" "0 < ve_LoginFailLimit (acctEnv 101 70)"
    "ve_Now (acctEnv 110 0) < ve_Now (acctEnv 101 70) + ve_TokenExpire (acctEnv 101 70) div 1000000000"
    by (simp_all add: acctEnv_def)
  from register_login_roundtrip [OF acct_can acct_laws(2) limits(1,2) fresh token [unfolded acctSign_def] acct_laws(3) limits(3) refl refl]
  show ?thesis by (simp add: acctDb_def [symmetric] acctRegister_def) (simp add: acctEnv_def acctRegister_def acctDb_def k)
qed

definition acctMailed :: userDb where
  "acctMailed = noUsers\<lparr>ub_Emails := [newEmail (acctEnv 90 10) 2 10 ''a@b'']\<rparr>"

theorem register_half_done_witness:
  "fst (Register (acctEnv 100 50) (acctRegister ''139'' ''a@b'') acctMailed) = Inl (Duplicate ''uk_d_user_email_email'')
    \<and> fst (Register (acctEnv 200 80) (acctRegister ''139'' ''a@b'') (snd (Register (acctEnv 100 50) (acctRegister ''139'' ''a@b'') acctMailed)))
      = Inl (Status CAlreadyExists ErrUserAlreadyExists)"
proof -
  have trim: "trim_space ''a@b'' = ''a@b''" by code_simp
  have mail: "normalizeOptionalEmail (acctEnv now base) (rg_Mail (acctRegister ''139'' ''a@b'')) = Inr ''a@b''" for now base
    by (simp add: normalizeOptionalEmail_def acctRegister_def trim acctEnv_def)
  have can: "canRegister (acctEnv 100 50) (acctRegister ''139'' ''a@b'') ''a@b'' acctMailed"
    by (simp add: canRegister_def acct_laws mail acctMailed_def noUsers_def) (simp add: acctRegister_def)
  have "''a@b'' \<in> em_Email ` set (ub_Emails acctMailed)" "ve_Ids (acctEnv 100 50) 2 \<notin> em_Id ` set (ub_Emails acctMailed)"
    by (simp_all add: acctMailed_def newEmail_def) (simp add: acctEnv_def)
  from register_half_done [OF can _ this acct_laws(1) mail, of 200 80] show ?thesis by simp
qed

definition acctTickets :: userDb where
  "acctTickets = noUsers\<lparr>ub_TicketUsers :=
     [\<lparr>tu_Id = 1, tu_UserId = 50, tu_RelName = ''a'', tu_IdType = 1, tu_IdNumber = ''n1'', tu_CreateTime = None, tu_EditTime = None, tu_Status = 1\<rparr>,
      \<lparr>tu_Id = 2, tu_UserId = 60, tu_RelName = ''b'', tu_IdType = 1, tu_IdNumber = ''n2'', tu_CreateTime = None, tu_EditTime = None, tu_Status = 1\<rparr>]\<rparr>"

theorem deletes_own_ticket_users_only_witness:
  "filter (\<lambda>t. tu_UserId t \<noteq> 50) (ub_TicketUsers (snd (deleteOwnTicketUser (acctEnv 100 0) (acctEnv 101 0) (Some 50) 1 acctTickets)))
    = filter (\<lambda>t. tu_UserId t \<noteq> 50) (ub_TicketUsers acctTickets)
    \<and> ub_TicketUsers (snd (deleteOwnTicketUser (acctEnv 100 0) (acctEnv 101 0) (Some 50) 1 acctTickets)) \<noteq> ub_TicketUsers acctTickets"
proof -
  have d: "distinct (map tu_Id (ub_TicketUsers acctTickets))" by (simp add: acctTickets_def)
  have "ub_TicketUsers (snd (deleteOwnTicketUser (acctEnv 100 0) (acctEnv 101 0) (Some 50) 1 acctTickets)) \<noteq> ub_TicketUsers acctTickets" by code_simp
  with deletes_own_ticket_users_only [of acctTickets "acctEnv 100 0" "acctEnv 101 0" "Some 50" 1, OF d prod.collapse [symmetric]]
  show ?thesis by (simp add: eq_commute [of 50])
qed

lemma acct_reach: "userStep\<^sup>*\<^sup>* noUsers acctDb"
proof -
  have "userStep noUsers acctDb" unfolding acctDb_def by (rule userStep.register) (simp_all add: acct_laws noUsers_def)
  then show ?thesis by (rule r_into_rtranclp)
qed


end
