(* ===== verification/Gateway.thy ===== *)
theory Gateway
  imports UserLogins
begin

text \<open>
  Who a request speaks for (\<open>pkg/xmiddleware\<close>, the middleware of \<open>gateway-api\<close> and of the api services):
  the gateway verifies the token of a client and passes the user on in signed headers, which the api
  services verify again. The token library and the keyed hash are arguments, and so is the clock, in nanoseconds.
\<close>

section \<open>Headers\<close>

text \<open>The headers of the standard library: values by canonical name, \<open>Get\<close> gives the first one.\<close>

type_synonym httpHeader = "string \<Rightarrow> string list"

definition isLower :: "char \<Rightarrow> bool" where
  "isLower c \<longleftrightarrow> 97 \<le> (of_char c :: nat) \<and> (of_char c :: nat) \<le> 122"

definition isUpper :: "char \<Rightarrow> bool" where
  "isUpper c \<longleftrightarrow> 65 \<le> (of_char c :: nat) \<and> (of_char c :: nat) \<le> 90"

definition isTokenChar :: "char \<Rightarrow> bool" where
  "isTokenChar c \<longleftrightarrow> isLower c \<or> isUpper c \<or> is_digit c \<or> c \<in> set ''!#$%&*+-.^_`|~'' \<or> (of_char c :: nat) = 39"

fun titleCase :: "bool \<Rightarrow> string \<Rightarrow> string" where
  "titleCase up [] = []"
| "titleCase up (c # cs) =
     (if up \<and> isLower c then char_of ((of_char c :: nat) - 32) else if \<not> up \<and> isUpper c then char_of ((of_char c :: nat) + 32) else c)
     # titleCase (c = CHR ''-'') cs"

definition canonicalKey :: "string \<Rightarrow> string" where
  "canonicalKey k = (if list_all isTokenChar k then titleCase True k else k)"

definition headerGet :: "httpHeader \<Rightarrow> string \<Rightarrow> string" where
  "headerGet h k = (case h (canonicalKey k) of [] \<Rightarrow> [] | v # _ \<Rightarrow> v)"

definition headerSet :: "string \<Rightarrow> string \<Rightarrow> httpHeader \<Rightarrow> httpHeader" where
  "headerSet k v h = h(canonicalKey k := [v])"

definition headerDel :: "string \<Rightarrow> httpHeader \<Rightarrow> httpHeader" where
  "headerDel k h = h(canonicalKey k := [])"

definition hasPrefix :: "string \<Rightarrow> string \<Rightarrow> bool" where
  "hasPrefix p s \<longleftrightarrow> take (length p) s = p"

section \<open>The identity in the headers\<close>

definition UserIDHeader :: string where "UserIDHeader = ''X-User-Id''"
definition GatewayTimestampHeader :: string where "GatewayTimestampHeader = ''X-Gateway-Timestamp''"
definition GatewaySignatureHeader :: string where "GatewaySignatureHeader = ''X-Gateway-Signature''"
definition defaultGatewayClockSkew :: int where "defaultGatewayClockSkew = 300000000000"

definition unauthorized :: goerr where
  "unauthorized = Sentinel ErrUnauthorized"

type_synonym keyedHash = "string \<Rightarrow> string \<Rightarrow> string"

definition signGatewayIdentity :: "keyedHash \<Rightarrow> int \<Rightarrow> int \<Rightarrow> string \<Rightarrow> string" where
  "signGatewayIdentity mac userID timestamp secret = mac secret (show_int userID @ '':'' @ show_int timestamp)"

definition AttachGatewayIdentityHeaders :: "keyedHash \<Rightarrow> int \<Rightarrow> int \<Rightarrow> string \<Rightarrow> httpHeader \<Rightarrow> httpHeader res" where
  "AttachGatewayIdentityHeaders mac now userID secret h =
     (if userID \<le> 0 then Inl unauthorized
      else let secret' = trim_space secret; timestamp = unix_sec now in
        if secret' = [] then Inl unauthorized
        else Inr (headerSet GatewaySignatureHeader (signGatewayIdentity mac userID timestamp secret')
          (headerSet GatewayTimestampHeader (show_int timestamp) (headerSet UserIDHeader (show_int userID) h))))"

text \<open>
  \<open>time.Unix\<close> counts seconds from the year 1 in 64 bits, so that a timestamp near the end of the range wraps
  around.
\<close>

definition yearOne :: int where "yearOne = 62135596800"

definition outsideSkew :: "int \<Rightarrow> int \<Rightarrow> int \<Rightarrow> bool" where
  "outsideSkew now clockSkew timestamp \<longleftrightarrow>
     (let issuedAt = wrap64 (timestamp + yearOne) * 1000000000; current = now + yearOne * 1000000000 in
      issuedAt < current - clockSkew \<or> current + clockSkew < issuedAt)"

definition AuthenticateGatewayIdentity :: "keyedHash \<Rightarrow> int \<Rightarrow> int \<Rightarrow> string \<Rightarrow> httpHeader \<Rightarrow> int res" where
  "AuthenticateGatewayIdentity mac now maxClockSkew secret h =
     (let secret' = trim_space secret in
      if secret' = [] then Inl unauthorized
      else case parse_int64 (trim_space (headerGet h UserIDHeader)) of None \<Rightarrow> Inl unauthorized | Some userID \<Rightarrow>
      (if userID \<le> 0 then Inl unauthorized
       else case parse_int64 (trim_space (headerGet h GatewayTimestampHeader)) of None \<Rightarrow> Inl unauthorized | Some timestamp \<Rightarrow>
       (let signature = trim_space (headerGet h GatewaySignatureHeader);
            clockSkew = (if maxClockSkew \<le> 0 then defaultGatewayClockSkew else maxClockSkew) in
        if signature = [] then Inl unauthorized
        else if outsideSkew now clockSkew timestamp then Inl unauthorized
        else if signature \<noteq> signGatewayIdentity mac userID timestamp secret' then Inl unauthorized
        else Inr userID)))"

definition ClearGatewayIdentityHeaders :: "httpHeader \<Rightarrow> httpHeader" where
  "ClearGatewayIdentityHeaders h = headerDel GatewaySignatureHeader (headerDel GatewayTimestampHeader (headerDel UserIDHeader h))"

definition ClearExternalAuthHeaders :: "httpHeader \<Rightarrow> httpHeader" where
  "ClearExternalAuthHeaders h = headerDel ''Authorization'' h"

section \<open>The gateway\<close>

type_synonym verifier = "string \<Rightarrow> string \<Rightarrow> jwtClaims res"

definition Authenticate :: "verifier \<Rightarrow> string \<Rightarrow> httpHeader \<Rightarrow> int res" where
  "Authenticate verify secret h =
     (let authHeader = trim_space (headerGet h ''Authorization'') in
      if \<not> hasPrefix ''Bearer '' authHeader then Inl unauthorized
      else let token = trim_space (drop 7 authHeader); secret' = trim_space secret in
        if token = [] then Inl unauthorized
        else if secret' = [] then Inl unauthorized
        else case verify token secret' of
          Inl _ \<Rightarrow> Inl unauthorized
        | Inr claims \<Rightarrow> if jc_UserID claims \<le> 0 then Inl unauthorized else Inr (jc_UserID claims))"

definition publicUserPaths :: "string list" where
  "publicUserPaths = [''/user/register'', ''/user/exist'', ''/user/login'']"

definition requiresAuth :: "string \<Rightarrow> bool" where
  "requiresAuth path =
     (if hasPrefix ''/user/'' path then path \<notin> set publicUserPaths
      else hasPrefix ''/ticket/user/'' path \<or> hasPrefix ''/order/'' path \<or> hasPrefix ''/pay/'' path \<or> hasPrefix ''/agent/'' path)"

record PerfAuthConfig =
  pf_Enabled :: bool
  pf_HeaderName :: string
  pf_HeaderSecret :: string
  pf_UserIDHeader :: string
  pf_AllowedPaths :: "string list"

definition toAllowedPathMap :: "string list \<Rightarrow> string list" where
  "toAllowedPathMap paths = filter (\<lambda>p. p \<noteq> []) paths"

definition requiresPerfAuth :: "string \<Rightarrow> string list \<Rightarrow> bool" where
  "requiresPerfAuth path allowedPaths \<longleftrightarrow> path \<in> set allowedPaths"

definition authenticatePerfRequest :: "PerfAuthConfig \<Rightarrow> httpHeader \<Rightarrow> int res" where
  "authenticatePerfRequest cfg h =
     (if \<not> pf_Enabled cfg then Inl unauthorized
      else let headerName = trim_space (pf_HeaderName cfg); headerSecret = trim_space (pf_HeaderSecret cfg);
               userIDHeader = trim_space (pf_UserIDHeader cfg) in
        if headerName = [] \<or> headerSecret = [] \<or> userIDHeader = [] then Inl unauthorized
        else if trim_space (headerGet h headerName) \<noteq> headerSecret then Inl unauthorized
        else case parse_int64 (trim_space (headerGet h userIDHeader)) of
          None \<Rightarrow> Inl unauthorized
        | Some userID \<Rightarrow> if userID \<le> 0 then Inl unauthorized else Inr userID)"

record AuthMiddleware =
  am_accessSecret :: string
  am_internalSecret :: string
  am_perfCfg :: PerfAuthConfig

definition authenticate :: "AuthMiddleware \<Rightarrow> verifier \<Rightarrow> string \<Rightarrow> httpHeader \<Rightarrow> int res" where
  "authenticate m verify path h =
     (case (if requiresPerfAuth path (pf_AllowedPaths (am_perfCfg m)) then authenticatePerfRequest (am_perfCfg m) h else Inl unauthorized) of
        Inr userID \<Rightarrow> Inr userID
      | Inl _ \<Rightarrow> Authenticate verify (am_accessSecret m) h)"

text \<open>
  What the gateway does with a request: refuse it, or pass it on with other headers and, for a user it
  knows, the user in the context.
\<close>

definition unauthenticated :: goerr where
  "unauthenticated = Status CUnauthenticated ErrUnauthorized"

definition gatewayHandle :: "AuthMiddleware \<Rightarrow> keyedHash \<Rightarrow> verifier \<Rightarrow> int \<Rightarrow> string \<Rightarrow> string \<Rightarrow> httpHeader \<Rightarrow> (httpHeader \<times> int option) res" where
  "gatewayHandle m mac verify now httpMethod path h0 =
     (let h = ClearGatewayIdentityHeaders h0 in
      if httpMethod = ''OPTIONS'' then Inr (h, None)
      else if \<not> requiresAuth path then Inr (ClearExternalAuthHeaders h, None)
      else case authenticate m verify path h of
        Inl _ \<Rightarrow> Inl unauthenticated
      | Inr userID \<Rightarrow>
        (case AttachGatewayIdentityHeaders mac now userID (am_internalSecret m) (ClearExternalAuthHeaders h) of
           Inl _ \<Rightarrow> Inl unauthenticated
         | Inr h' \<Rightarrow> Inr (h', Some userID)))"

section \<open>The api services\<close>

text \<open>The middleware of \<open>user-api\<close> and \<open>order-api\<close>, and what their handlers read from the context.\<close>

definition apiHandle :: "keyedHash \<Rightarrow> int \<Rightarrow> int \<Rightarrow> string \<Rightarrow> httpHeader \<Rightarrow> int option res" where
  "apiHandle mac now maxClockSkew secret h =
     (case AuthenticateGatewayIdentity mac now maxClockSkew secret h of Inl _ \<Rightarrow> Inl unauthenticated | Inr userID \<Rightarrow> Inr (Some userID))"

definition UserIDFromContext :: "int option \<Rightarrow> int option" where
  "UserIDFromContext ctx = (case ctx of None \<Rightarrow> None | Some value \<Rightarrow> if value \<le> 0 then None else Some value)"

definition requireCurrentUserID :: "int option \<Rightarrow> int res" where
  "requireCurrentUserID ctx = (case UserIDFromContext ctx of None \<Rightarrow> Inl unauthenticated | Some userID \<Rightarrow> Inr userID)"

section \<open>Reading the headers back\<close>

lemma canonical_names:
  "canonicalKey UserIDHeader = ''X-User-Id''" "canonicalKey GatewayTimestampHeader = ''X-Gateway-Timestamp''"
  "canonicalKey GatewaySignatureHeader = ''X-Gateway-Signature''" "canonicalKey ''Authorization'' = ''Authorization''"
  by code_simp+

lemmas header_defs = headerGet_def headerSet_def headerDel_def canonical_names

lemma attached_headers:
  assumes "AttachGatewayIdentityHeaders mac now userID secret h = Inr h'"
  shows "headerGet h' UserIDHeader = show_int userID" "headerGet h' GatewayTimestampHeader = show_int (unix_sec now)"
    "headerGet h' GatewaySignatureHeader = signGatewayIdentity mac userID (unix_sec now) (trim_space secret)"
    "0 < userID" "trim_space secret \<noteq> []"
  using assms by (auto simp: AttachGatewayIdentityHeaders_def header_defs Let_def split: if_splits)

lemma cleared_headers:
  "headerGet (ClearGatewayIdentityHeaders h) UserIDHeader = []" "headerGet (ClearExternalAuthHeaders (ClearGatewayIdentityHeaders h)) UserIDHeader = []"
  "headerGet (ClearGatewayIdentityHeaders h) ''Authorization'' = headerGet h ''Authorization''"
  by (simp_all add: ClearGatewayIdentityHeaders_def ClearExternalAuthHeaders_def header_defs)

lemma no_user_header: "headerGet h UserIDHeader = [] \<Longrightarrow> apiHandle mac now skew secret h = Inl unauthenticated"
proof -
  have "parse_int64 (trim_space []) = None" by code_simp
  then show "headerGet h UserIDHeader = [] \<Longrightarrow> apiHandle mac now skew secret h = Inl unauthenticated"
    by (simp add: apiHandle_def AuthenticateGatewayIdentity_def Let_def)
qed

section \<open>Who a request speaks for\<close>

lemma parse_show_pos:
  assumes "0 < i" shows "parse_int64 (show_int i) = (if in_int64 i then Some i else None)"
proof -
  obtain c cs where s: "show_nat (nat i) = c # cs" using show_nat_nonempty by (metis neq_Nil_conv)
  then have "is_digit c" by (metis list.set_intros(1) show_nat_digits)
  then have c: "c \<noteq> CHR ''-''" "c \<noteq> CHR ''+''" by auto
  have "parse_nat (c # cs) = Some (nat i)" by (metis s parse_nat_show_nat)
  then show ?thesis using assms c by (simp add: parse_int64_def show_int_def s)
qed

text \<open>The token of a client, as the gateway reads it.\<close>

definition bearerToken :: "httpHeader \<Rightarrow> string option" where
  "bearerToken h = (let a = trim_space (headerGet h ''Authorization'') in if hasPrefix ''Bearer '' a then Some (trim_space (drop 7 a)) else None)"

lemma Authenticate_iff:
  "Authenticate verify secret h = Inr u \<longleftrightarrow>
    (\<exists>token claims. bearerToken h = Some token \<and> token \<noteq> [] \<and> trim_space secret \<noteq> [] \<and> verify token (trim_space secret) = Inr claims
       \<and> jc_UserID claims = u \<and> 0 < u)"
  by (auto simp: Authenticate_def bearerToken_def Let_def split: sum.splits if_splits)

definition perfRequest :: "PerfAuthConfig \<Rightarrow> string \<Rightarrow> httpHeader \<Rightarrow> bool" where
  "perfRequest cfg path h \<longleftrightarrow> pf_Enabled cfg \<and> path \<in> set (pf_AllowedPaths cfg) \<and> trim_space (pf_HeaderSecret cfg) \<noteq> []
     \<and> trim_space (headerGet h (trim_space (pf_HeaderName cfg))) = trim_space (pf_HeaderSecret cfg)"

lemma headerGet_cleared: "headerGet (ClearGatewayIdentityHeaders h) k \<noteq> [] \<Longrightarrow> headerGet (ClearGatewayIdentityHeaders h) k = headerGet h k"
  by (auto simp: ClearGatewayIdentityHeaders_def headerGet_def headerDel_def split: if_splits)

lemma authenticate_source:
  assumes "authenticate m verify path (ClearGatewayIdentityHeaders h) = Inr u"
  shows "0 < u \<and> (perfRequest (am_perfCfg m) path h
    \<or> (\<exists>token claims. bearerToken h = Some token \<and> verify token (trim_space (am_accessSecret m)) = Inr claims \<and> jc_UserID claims = u))"
proof (cases "Authenticate verify (am_accessSecret m) (ClearGatewayIdentityHeaders h) = Inr u")
  case True
  then show ?thesis by (auto simp: Authenticate_iff bearerToken_def cleared_headers)
next
  case False
  then have perf: "requiresPerfAuth path (pf_AllowedPaths (am_perfCfg m))" "authenticatePerfRequest (am_perfCfg m) (ClearGatewayIdentityHeaders h) = Inr u"
    using assms by (auto simp: authenticate_def split: sum.splits if_splits)
  let ?k = "trim_space (pf_HeaderName (am_perfCfg m))"
  have v: "trim_space (headerGet (ClearGatewayIdentityHeaders h) ?k) = trim_space (pf_HeaderSecret (am_perfCfg m))"
    "trim_space (pf_HeaderSecret (am_perfCfg m)) \<noteq> []" "pf_Enabled (am_perfCfg m)" "0 < u"
    using perf(2) by (auto simp: authenticatePerfRequest_def Let_def split: if_splits option.splits)
  have "trim_space [] = []" by code_simp
  then have "headerGet (ClearGatewayIdentityHeaders h) ?k \<noteq> []" using v(1,2) by metis
  then show ?thesis using v perf(1) headerGet_cleared [of h ?k] by (simp add: perfRequest_def requiresPerfAuth_def)
qed

lemma accepted_identity:
  assumes pass: "gatewayHandle m mac verify now httpMethod path h = Inr (h', ctx)"
    and acc: "apiHandle mac now' skew secret h' = Inr (Some u)"
  shows "requiresAuth path \<and> ctx = Some u \<and> 0 < u \<and> (perfRequest (am_perfCfg m) path h
    \<or> (\<exists>token claims. bearerToken h = Some token \<and> verify token (trim_space (am_accessSecret m)) = Inr claims \<and> jc_UserID claims = u))"
proof -
  have blank: "apiHandle mac now' skew secret (ClearGatewayIdentityHeaders h) = Inl unauthenticated"
    "apiHandle mac now' skew secret (ClearExternalAuthHeaders (ClearGatewayIdentityHeaders h)) = Inl unauthenticated"
    by (simp_all add: no_user_header cleared_headers)
  obtain v where v: "requiresAuth path" "authenticate m verify path (ClearGatewayIdentityHeaders h) = Inr v" "ctx = Some v"
    "AttachGatewayIdentityHeaders mac now v (am_internalSecret m) (ClearExternalAuthHeaders (ClearGatewayIdentityHeaders h)) = Inr h'"
    using pass acc blank by (auto simp: gatewayHandle_def Let_def split: if_splits sum.splits)
  have "headerGet h' UserIDHeader = show_int v" "0 < v" using attached_headers [OF v(4)] by simp_all
  then have "u = v" using acc
    by (auto simp: apiHandle_def AuthenticateGatewayIdentity_def Let_def parse_show_pos split: sum.splits if_splits option.splits)
  then show ?thesis using v authenticate_source [OF v(2)] by simp
qed

text \<open>
  C13. No client can choose whom it speaks for: whatever headers it sends, if an api service behind the gateway takes a
  request as one of user \<open>u\<close>, then the path is protected and the gateway has verified a token of \<open>u\<close>, or
  the request came through the entrance for load tests with its secret.
\<close>

theorem identity_from_token:
  assumes pass: "gatewayHandle m mac verify now httpMethod path h = Inr (h', ctx)"
    and acc: "apiHandle mac now' skew secret h' = Inr (Some u)"
  shows "requiresAuth path \<and> ctx = Some u \<and> 0 < u \<and> (perfRequest (am_perfCfg m) path h
    \<or> (\<exists>token claims. bearerToken h = Some token \<and> verify token (trim_space (am_accessSecret m)) = Inr claims \<and> jc_UserID claims = u))"
  using accepted_identity [OF assms] .

lemma Login_token:
  assumes "Login env req s = (Inr (i, token), s')"
  shows "CreateToken env i (trim_space (ve_AccessSecret env)) = Inr token" "trim_space (ve_AccessSecret env) \<noteq> []"
  using assms unfolding Login_def accessSecret_def
  by (auto simp: thenDo_def refuse_def answer_def Let_def split: sum.splits if_splits prod.splits)

text \<open>The digits of a hash are no blanks, and the signature of a token has no blanks at its ends.\<close>

definition hashOk :: "keyedHash \<Rightarrow> bool" where
  "hashOk mac \<longleftrightarrow> (\<forall>k t. mac k t \<noteq> [] \<and> trim_space (mac k t) = mac k t)"

lemma unskewed:
  assumes "0 \<le> now" "now \<le> now'" "now' + 1000000000 \<le> now + skew" "in_int64 (unix_sec now + yearOne)"
  shows "\<not> outsideSkew now' skew (unix_sec now)"
proof -
  have "now - 1000000000 < unix_sec now * 1000000000" "unix_sec now * 1000000000 \<le> now" by (simp_all add: unix_sec_def)
  moreover have "wrap64 (unix_sec now + yearOne) = unix_sec now + yearOne" using assms(4) by (rule wrap64_id)
  ultimately show ?thesis using assms by (simp add: outsideSkew_def Let_def)
qed

lemma attached_accepted:
  assumes att: "AttachGatewayIdentityHeaders mac now u secret h = Inr h'" and mac: "hashOk mac" and u: "in_int64 u"
    and t: "in_int64 (unix_sec now + yearOne)" "in_int64 (unix_sec now)" "0 \<le> now" "now \<le> now'" "now' + 1000000000 \<le> now + skew"
  shows "apiHandle mac now' skew secret h' = Inr (Some u)"
proof -
  note a = attached_headers [OF att]
  have "0 < skew" using t by simp
  then show ?thesis using a u t(2) mac unskewed [OF t(3-5) t(1)]
    by (simp add: apiHandle_def AuthenticateGatewayIdentity_def Let_def hashOk_def signGatewayIdentity_def)
qed

text \<open>
  C17. A login opens the api: until the token of a login expires, a request on a protected path that carries it passes
  the gateway and is taken by the api services, while it arrives there within the allowed clock skew, as
  one of the account that logged in.
\<close>

theorem login_opens_api:
  assumes login: "Login env req s = (Inr (i, token), s')" and i: "0 < i" "in_int64 i"
    and law: "verifies env later" and live: "ve_Now later < ve_Now env + ve_TokenExpire env div 1000000000"
    and m: "am_accessSecret m = ve_AccessSecret env" "trim_space (am_internalSecret m) \<noteq> []" "\<not> requiresPerfAuth path (pf_AllowedPaths (am_perfCfg m))"
    and request: "requiresAuth path" "httpMethod \<noteq> ''OPTIONS''" "bearerToken h = Some token" "token \<noteq> []"
    and mac: "hashOk mac"
    and time: "in_int64 (unix_sec now + yearOne)" "in_int64 (unix_sec now)" "0 \<le> now" "now \<le> now'" "now' + 1000000000 \<le> now + skew"
  shows "\<exists>h'. gatewayHandle m mac (ve_Verify later) now httpMethod path h = Inr (h', Some i)
    \<and> apiHandle mac now' skew (am_internalSecret m) h' = Inr (Some i) \<and> requireCurrentUserID (Some i) = Inr i"
proof -
  note tok = Login_token [OF login]
  let ?claims = "\<lparr>jc_UserID = i, jc_ExpiresAt = ve_Now env + ve_TokenExpire env div 1000000000, jc_IssuedAt = ve_Now env\<rparr>"
  have "ve_Verify later token (trim_space (ve_AccessSecret env)) = Inr ?claims"
    using law tok(1) live by (simp add: verifies_def CreateToken_def)
  then have "Authenticate (ve_Verify later) (am_accessSecret m) (ClearGatewayIdentityHeaders h) = Inr i"
    using request(3,4) tok(2) i(1) m(1) by (simp add: Authenticate_iff) (simp add: bearerToken_def cleared_headers)
  then have auth: "authenticate m (ve_Verify later) path (ClearGatewayIdentityHeaders h) = Inr i" using m(3) by (simp add: authenticate_def)
  obtain h' where att: "AttachGatewayIdentityHeaders mac now i (am_internalSecret m) (ClearExternalAuthHeaders (ClearGatewayIdentityHeaders h)) = Inr h'"
    using i(1) m(2) by (simp add: AttachGatewayIdentityHeaders_def Let_def)
  have "gatewayHandle m mac (ve_Verify later) now httpMethod path h = Inr (h', Some i)"
    using request auth att by (simp add: gatewayHandle_def Let_def)
  moreover have "apiHandle mac now' skew (am_internalSecret m) h' = Inr (Some i)" by (rule attached_accepted [OF att mac i(2) time])
  ultimately show ?thesis using i(1) by (simp add: requireCurrentUserID_def UserIDFromContext_def)
qed

section \<open>Instances\<close>

definition acctMac :: keyedHash where
  "acctMac k t = CHR ''m'' # k @ t @ ''m''"

lemma acctMac_ok: "hashOk acctMac"
proof -
  have "\<not> is_space (CHR ''m'')" by code_simp
  then have "dropWhile is_space (CHR ''m'' # xs) = CHR ''m'' # xs" for xs by simp
  then show ?thesis by (simp add: hashOk_def acctMac_def trim_space_def)
qed

definition acctGateway :: AuthMiddleware where
  "acctGateway = \<lparr>am_accessSecret = ''k'', am_internalSecret = ''g'',
     am_perfCfg = \<lparr>pf_Enabled = False, pf_HeaderName = [], pf_HeaderSecret = [], pf_UserIDHeader = [], pf_AllowedPaths = []\<rparr>\<rparr>"

text \<open>A client that sends a token of its own and the headers of another user.\<close>

definition acctHeaders :: "string \<Rightarrow> httpHeader" where
  "acctHeaders token = headerSet ''x-user-id'' ''1'' (headerSet ''authorization'' (''Bearer '' @ token) (\<lambda>_. []))"

definition acctToken :: string where
  "acctToken = acctWrite 50 @ acctWrite 111 @ acctWrite 101 @ ''k''"

lemma acctToken_facts: "bearerToken (acctHeaders acctToken) = Some acctToken" "acctToken \<noteq> []"
  by code_simp+

lemma acct_login: "Login (acctEnv 101 70) (byMobile ''139'' ''pw'') acctDb = (Inr (50, acctToken), snd (Login (acctEnv 101 70) (byMobile ''139'' ''pw'') acctDb))"
proof -
  have k: "trim_space ''k'' = ''k''" by code_simp
  let ?u = "newUser (acctEnv 100 50) (acctRegister ''139'' []) []"
  have u: "du_Password ?u = Some (ve_Md5 (acctEnv 101 70) ''pw'')" "du_Id ?u = 50" by (simp_all add: newUser_def acctEnv_def acctRegister_def)
  have n: "parseFailCount (case kvGet (ve_Now (acctEnv 101 70)) (mobileFailKey ''139'') (ub_Redis acctDb) of None \<Rightarrow> [] | Some v \<Rightarrow> v)
      < ve_LoginFailLimit (acctEnv 101 70)"
    by (simp add: acctDb_eq registered_def noUsers_def kvGet_def parseFailCount_def parse_int64_def) (simp add: acctEnv_def)
  have token: "CreateToken (acctEnv 101 70) (du_Id ?u) (trim_space (ve_AccessSecret (acctEnv 101 70))) = Inr acctToken"
    by (simp add: u(2)) (simp add: CreateToken_def acctEnv_def acctSign_def k acctToken_def)
  have "fst (Login (acctEnv 101 70) (byMobile ''139'' ''pw'') acctDb) = Inr (50, acctToken)"
    using Login_right(1) [OF acct_laws(2) acct_account _ u(1) n token] u(2) by simp
  then show ?thesis by (metis prod.collapse)
qed

theorem login_opens_api_witness:
  "\<exists>h'. gatewayHandle acctGateway acctMac (acctVerify 105) 105000000000 ''POST'' ''/order/pay'' (acctHeaders acctToken) = Inr (h', Some 50)
    \<and> apiHandle acctMac 105500000000 300000000000 ''g'' h' = Inr (Some 50)"
proof -
  have v: "ve_Verify (acctEnv 105 0) = acctVerify 105" by (simp add: acctEnv_def)
  have m: "am_accessSecret acctGateway = ve_AccessSecret (acctEnv 101 70)" "trim_space (am_internalSecret acctGateway) \<noteq> []"
    "\<not> requiresPerfAuth ''/order/pay'' (pf_AllowedPaths (am_perfCfg acctGateway))" "am_internalSecret acctGateway = ''g''" "requiresAuth ''/order/pay''"
    by code_simp+
  have t: "ve_Now (acctEnv 105 0) < ve_Now (acctEnv 101 70) + ve_TokenExpire (acctEnv 101 70) div 1000000000" by (simp add: acctEnv_def)
  have "in_int64 (unix_sec 105000000000 + yearOne)" "in_int64 (unix_sec 105000000000)" "in_int64 50" by code_simp+
  from login_opens_api [OF acct_login _ this(3) acct_laws(3) t m(1-3,5) _ acctToken_facts acctMac_ok this(1,2), of "''POST''" 105500000000 300000000000]
  show ?thesis unfolding v m(4) by simp blast
qed

theorem identity_from_token_witness:
  "requiresAuth ''/order/pay'' \<and> (\<exists>token claims. bearerToken (acctHeaders acctToken) = Some token \<and> acctVerify 105 token ''k'' = Inr claims \<and> jc_UserID claims = 50)"
proof -
  have run: "(case gatewayHandle acctGateway acctMac (acctVerify 105) 105000000000 ''POST'' ''/order/pay'' (acctHeaders acctToken) of
      Inl _ \<Rightarrow> False | Inr (h', ctx) \<Rightarrow> apiHandle acctMac 105500000000 300000000000 ''g'' h' = Inr (Some 50))" by code_simp
  then obtain h' ctx where "gatewayHandle acctGateway acctMac (acctVerify 105) 105000000000 ''POST'' ''/order/pay'' (acctHeaders acctToken) = Inr (h', ctx)"
    "apiHandle acctMac 105500000000 300000000000 ''g'' h' = Inr (Some 50)" by (auto split: sum.splits)
  from identity_from_token [OF this] have "requiresAuth ''/order/pay''" "perfRequest (am_perfCfg acctGateway) ''/order/pay'' (acctHeaders acctToken)
    \<or> (\<exists>token claims. bearerToken (acctHeaders acctToken) = Some token \<and> acctVerify 105 token (trim_space (am_accessSecret acctGateway)) = Inr claims \<and> jc_UserID claims = 50)"
    by simp_all
  moreover have "\<not> perfRequest (am_perfCfg acctGateway) ''/order/pay'' (acctHeaders acctToken)" "trim_space (am_accessSecret acctGateway) = ''k''" by code_simp+
  ultimately show ?thesis by simp
qed

end
