(* ===== verification/OrderOutcomes.thy ===== *)
theory OrderOutcomes
  imports OrderProps
begin

text \<open>
  What single calls of the order service achieve and what they leave undone: refunds, the return of a
  late payment, closing an expired order when the program service cannot be reached, and refunds of
  nothing.
\<close>

section \<open>Refunded orders\<close>

lemma transact_success:
  assumes "transact env i n f w = (Inr a, w1)"
  shows "\<exists>route db tx. RouteByOrderNumber (oe_Map env) (oe_Sec env) n = Inr route \<and> ow_repo w (DBKey route) = Some db
    \<and> f (openTx (TableSuffix route) db) = (Inr a, tx)
    \<and> w1 = w\<lparr>ow_repo := (ow_repo w)(DBKey route \<mapsto> commitTx (TableSuffix route) tx db)\<rparr>"
  using assms by (auto simp: transact_def TransactByOrderNumber_def transactByRoute_def runTx_def
      split: sum.splits option.splits prod.splits txfault.splits)

lemma moved_refunded:
  assumes "tableInv P tx" "findOrder (tx_orders tx) n = Some ord" "od_OrderStatus ord \<in> {2, 3}"
  shows "moveOrder [2, 3] 4 stamp n ord = stamp (ord\<lparr>od_OrderStatus := 4\<rparr>)"
  using assms(3) findOrder_iff [OF assms(1), of n ord] assms(1,2) by (auto simp: moveOrder_def tableInv_def orderOk_def)

lemma refundTx_result:
  assumes inv: "tableInv P tx" and run: "refundTx t n tx = (Inr a, tx')"
  shows "\<exists>ord ord'. ord \<in> set (tx_orders tx) \<and> ord' \<in> set (tx_orders tx') \<and> od_OrderNumber ord = n
    \<and> sameOrder ord ord' \<and> od_OrderStatus ord' = orderStatusRefunded"
proof -
  obtain ord where ord: "findOrder (tx_orders tx) n = Some ord"
    using run by (auto simp: refundTx_def FindOrderByNumberForUpdate_def split: option.splits)
  have o: "ord \<in> set (tx_orders tx)" "od_OrderNumber ord = n" using findOrder_iff [OF inv] ord by auto
  show ?thesis
  proof (cases "od_OrderStatus ord = orderStatusRefunded")
    case True
    then have "tx' = tx" using run ord by (simp add: refundTx_def FindOrderByNumberForUpdate_def)
    then show ?thesis using True o sameOrder_refl by blast
  next
    case False
    let ?stamp = "\<lambda>ord. ord\<lparr>od_EditTime := t\<rparr>"
    have st: "od_OrderStatus ord \<in> {2, 3}" and tx': "tx' = DeleteGuardsByOrderNumber n (UpdateOrderRefundStatus n t tx)"
      using run ord False o by (auto simp: refundTx_def FindOrderByNumberForUpdate_def order_status_defs split: if_splits)
    let ?ord = "ord\<lparr>od_OrderStatus := 4, od_EditTime := t\<rparr>"
    have "?ord \<in> set (tx_orders tx')"
      using o(1) moved_refunded [OF inv ord st, of ?stamp]
      by (simp add: tx' DeleteGuardsByOrderNumber_def UpdateOrderRefundStatus_def moveStatus_def image_iff) metis
    moreover have "sameOrder ord ?ord" unfolding sameOrder_def
      by (intro exI [of _ 4] exI [of _ "od_CancelOrderTime ord"] exI [of _ "od_PayOrderTime ord"] exI [of _ t]) simp
    ultimately show ?thesis using o by (intro exI [of _ ord] exI [of _ ?ord]) (simp add: order_status_defs)
  qed
qed

lemma converge_result:
  assumes inv: "worldInv m w" and env: "oe_Map env = m" and run: "convergeOrderRefunded env i n w = (Inr a, w1)"
  shows "\<exists>ord ord'. hasOrder (ow_repo w) ord \<and> hasOrder (ow_repo w1) ord' \<and> od_OrderNumber ord = n \<and> sameOrder ord ord'
    \<and> od_OrderStatus ord' = orderStatusRefunded"
proof -
  obtain route :: Route and db tx where r: "ow_repo w (DBKey route) = Some db" "refundTx (oe_Now env 0) n (openTx (TableSuffix route) db) = (Inr a, tx)"
    "w1 = w\<lparr>ow_repo := (ow_repo w)(DBKey route \<mapsto> commitTx (TableSuffix route) tx db)\<rparr>"
    using transact_success [OF run [unfolded convergeOrderRefunded_def]] by blast
  have "tableInv (placed m (DBKey route) (TableSuffix route)) (openTx (TableSuffix route) db)"
    using inv r(1) by (simp add: worldInv_def repoInv_def shardInv_def)
  from refundTx_result [OF this r(2)] obtain ord ord' where o: "ord \<in> set (sd_orders db (TableSuffix route))" "ord' \<in> set (tx_orders tx)"
    "od_OrderNumber ord = n" "sameOrder ord ord'" "od_OrderStatus ord' = orderStatusRefunded" by (auto simp: openTx_def)
  have "hasOrder (ow_repo w) ord" using r(1) o(1) unfolding hasOrder_def by blast
  moreover have "hasOrder (ow_repo w1) ord'" unfolding hasOrder_def
    by (intro exI [of _ "DBKey route"] exI [of _ "commitTx (TableSuffix route) tx db"] exI [of _ "TableSuffix route"])
      (use o(2) in \<open>simp add: r(3) commitTx_def\<close>)
  ultimately show ?thesis using o by blast
qed

definition refundRow :: "orderWorld \<Rightarrow> int \<Rightarrow> int \<Rightarrow> bool" where
  "refundRow w n amount \<longleftrightarrow> (\<exists>b \<in> set (refundBills (ow_pay w)). rb_OrderNumber b = n \<and> rb_RefundAmount b = amount)"

lemma payCall_frame: "ow_repo (snd (payCall env i f w)) = ow_repo w" "ow_rush (snd (payCall env i f w)) = ow_rush w"
  "ow_seats (snd (payCall env i f w)) = ow_seats w"
  using payCall_snd [of env i f w] by auto

lemma refundCall_row:
  assumes "worldInv m w" "refundCall env ord u amount reason w = (Inr resp, w1)"
  shows "refundRow w1 (od_OrderNumber ord) (rp_RefundAmount resp)" "ow_repo w1 = ow_repo w" "ow_rush w1 = ow_rush w" "worldInv m w1"
proof -
  let ?rq = "\<lparr>rr_OrderNumber = od_OrderNumber ord, rr_UserId = u, rr_Amount = amount, rr_Reason = reason\<rparr>"
  have run: "payCall env 1 (Refund (oe_PayEnv env 1) ?rq) w = (Inr resp, w1)" using assms(2) by (simp add: refundCall_def)
  obtain d where d: "Refund (oe_PayEnv env 1) ?rq (ow_pay w) = (Inr resp, d)" "w1 = w\<lparr>ow_pay := d\<rparr>" using payCall_reply [OF run] by blast
  have "payInv (ow_pay w)" using assms(1) by (simp add: worldInv_def)
  from Refund_row [OF this d(1)] show "refundRow w1 (od_OrderNumber ord) (rp_RefundAmount resp)"
    by (auto simp: refundRow_def d(2) mapRefundResp_def)
  show "ow_repo w1 = ow_repo w" "ow_rush w1 = ow_rush w" using d(2) by simp_all
  show "worldInv m w1" using order_core.run_inv [OF refund_reach assms(1), of env 1 "oe_PayEnv env 1" ?rq] run by simp
qed

lemma refundOrReuse_row:
  assumes "worldInv m w" "refundOrReuse env ord b u reason w = (Inr (resp, pct), w1)"
  shows "refundRow w1 (od_OrderNumber ord) (rp_RefundAmount resp) \<and> ow_repo w1 = ow_repo w \<and> ow_rush w1 = ow_rush w \<and> worldInv m w1"
  using assms(2) unfolding refundOrReuse_def
  by (auto split: if_splits sum.splits prod.splits dest: refundCall_row [OF assms(1)])

lemma converge_frame: "ow_pay (snd (convergeOrderRefunded env i n w)) = ow_pay w" "ow_rush (snd (convergeOrderRefunded env i n w)) = ow_rush w"
  "ow_seats (snd (convergeOrderRefunded env i n w)) = ow_seats w"
  by (simp_all add: convergeOrderRefunded_def transact_snd)

text \<open>The last part of \<open>RefundOrder\<close>: seats, then the order.\<close>

lemma refund_finish:
  assumes inv: "worldInv (oe_Map env) w1" and own: "hasOrder (ow_repo w1) ord"
    and seats: "(if c then seatCall env f w1 else (Inr True, w1)) = (Inr x, w2)"
    and conv: "convergeOrderRefunded env 0 (od_OrderNumber ord) w2 = (Inr y, w3)"
  shows "\<exists>ord'. hasOrder (ow_repo w3) ord' \<and> sameOrder ord ord' \<and> od_OrderStatus ord' = orderStatusRefunded
    \<and> ow_pay w3 = ow_pay w1 \<and> ow_rush w3 = ow_rush w1"
proof -
  have frame: "ow_repo w2 = ow_repo w1" "ow_pay w2 = ow_pay w1" "ow_rush w2 = ow_rush w1"
    using seats seatCall_frame [of env f w1] by (auto split: if_splits)
  then have inv2: "worldInv (oe_Map env) w2" using inv by (simp add: worldInv_def)
  obtain a ord' where a: "hasOrder (ow_repo w2) a" "hasOrder (ow_repo w3) ord'" "od_OrderNumber a = od_OrderNumber ord" "sameOrder a ord'"
    "od_OrderStatus ord' = orderStatusRefunded" using converge_result [OF inv2 refl conv] by blast
  have "a = ord" using hasOrder_unique [of "oe_Map env" "ow_repo w2" a ord] inv2 a(1,3) own frame(1) by (simp add: worldInv_def)
  then show ?thesis using a frame converge_frame [of env 0 "od_OrderNumber ord" w2] conv by auto
qed

lemma refundRow_bounds:
  assumes "worldInv m w" "hasOrder (ow_repo w) ord" "od_OrderStatus ord = orderStatusRefunded" "refundRow w (od_OrderNumber ord) amount"
  shows "0 < amount \<and> amount \<le> od_OrderPrice ord"
proof -
  obtain b where b: "b \<in> set (refundBills (ow_pay w))" "rb_OrderNumber b = od_OrderNumber ord" "rb_RefundAmount b = amount"
    using assms(4) by (auto simp: refundRow_def)
  obtain r where r: "r \<in> set (refundBills (ow_pay w))" "rb_OrderNumber r = od_OrderNumber ord" "0 < rb_RefundAmount r" "rb_RefundAmount r \<le> od_OrderPrice ord"
    using money_facts(2) [OF assms(1-3)] by blast
  have "distinct (map rb_OrderNumber (refundBills (ow_pay w)))" using assms(1) by (simp add: worldInv_def payInv_def)
  then have "b = r" using b r by (auto simp: distinct_map inj_on_def)
  then show ?thesis using b r by simp
qed

lemma RefundOrder_success:
  assumes inv: "worldInv (oe_Map env) w" and run: "RefundOrder env u n reason w = (Inr resp, w')"
  shows "\<exists>ord. hasOrder (ow_repo w') ord \<and> od_OrderNumber ord = n \<and> od_UserId ord = u \<and> od_OrderStatus ord = orderStatusRefunded
    \<and> refundRow w' n (ro_RefundAmount resp) \<and> ow_rush w' = ow_rush w"
proof -
  obtain ord tks where own: "findOwnedOrder env 0 u n w = Inr ord"
    and tks: "FindOrderTicketsByNumber (oe_Map env) (oe_Sec env) (oe_Query env 1) n (ow_repo w) = Inr tks"
    and ok: "validateUserOrderReq u n = Inr ()"
    using run by (auto simp: RefundOrder_def Let_def split: sum.splits)
  note o = owned [OF own]
  note go = run [unfolded RefundOrder_def Let_def ok own tks sum.case]
  show ?thesis
  proof (cases "od_OrderStatus ord = orderStatusRefunded")
    case True
    then obtain r where "refundCall env ord u (od_OrderPrice ord) reason w = (Inr r, w')" "ro_RefundAmount resp = rp_RefundAmount r"
      using go by (auto simp: mapRefundOrderResp_def split: prod.splits sum.splits)
    then show ?thesis using refundCall_row [OF inv] o True by auto
  next
    case False
    then obtain b r pct w1 where reuse: "refundOrReuse env ord b u reason w = (Inr (r, pct), w1)"
      and rest: "(case (if orderTicketSeatIDs tks \<noteq> []
                   then seatCall env (ReleaseSoldSeats (oe_FreezeEnv env) (programOf env) (od_ShowTimeId ord)
                          (orderTicketSeatIDs tks) (buildRefundRequestNo (od_OrderNumber ord))) w1
                   else (Inr True, w1)) of
               (Inl e, w2) \<Rightarrow> (Inl (mapOrderError e), w2)
             | (Inr _, w2) \<Rightarrow>
               (case convergeOrderRefunded env 0 (od_OrderNumber ord) w2 of
                  (Inl e, w3) \<Rightarrow> (Inl (mapOrderError e), w3)
                | (Inr _, w3) \<Rightarrow> (Inr (mapRefundOrderResp ord r pct), w3))) = (Inr resp, w')"
      using go by (simp split: if_splits sum.splits prod.splits)
    note row = refundOrReuse_row [OF inv reuse]
    obtain x w2 y where fin: "(if orderTicketSeatIDs tks \<noteq> []
                   then seatCall env (ReleaseSoldSeats (oe_FreezeEnv env) (programOf env) (od_ShowTimeId ord)
                          (orderTicketSeatIDs tks) (buildRefundRequestNo (od_OrderNumber ord))) w1
                   else (Inr True, w1)) = (Inr x, w2)"
      "convergeOrderRefunded env 0 (od_OrderNumber ord) w2 = (Inr y, w')" "ro_RefundAmount resp = rp_RefundAmount r"
      using rest by (auto simp: mapRefundOrderResp_def split: prod.splits sum.splits)
    have "worldInv (oe_Map env) w1" "hasOrder (ow_repo w1) ord" using row o by simp_all
    from refund_finish [OF this fin(1,2)] obtain ord' where f: "hasOrder (ow_repo w') ord'" "sameOrder ord ord'"
      "od_OrderStatus ord' = orderStatusRefunded" "ow_pay w' = ow_pay w1" "ow_rush w' = ow_rush w1" by blast
    have "refundRow w' n (ro_RefundAmount resp)" using row o(1) f(4) fin(3) by (simp add: refundRow_def)
    then show ?thesis using f row o sameOrder_fields [OF f(2)] by metis
  qed
qed

text \<open>
  C26. A refund that is answered with success is complete in the order store and in the pay service:
  the order is the caller's and is marked refunded, and the pay service holds one refund of the
  answered amount, which is positive and does not exceed the price. The rush store is not touched:
  the quota and the active marks of the refunded order stay taken.
\<close>

theorem refund_order_completes:
  assumes inv: "worldInv (oe_Map env) w" and run: "RefundOrder env u n reason w = (Inr resp, w')"
  shows "(\<exists>ord. hasOrder (ow_repo w') ord \<and> od_OrderNumber ord = n \<and> od_UserId ord = u \<and> od_OrderStatus ord = orderStatusRefunded
      \<and> 0 < ro_RefundAmount resp \<and> ro_RefundAmount resp \<le> od_OrderPrice ord)
    \<and> refundRow w' n (ro_RefundAmount resp) \<and> ow_rush w' = ow_rush w"
proof -
  have "worldInv (oe_Map env) w'" using order_core.run_inv [OF RefundOrder_reach [OF inv] inv, of u n reason] run by simp
  then show ?thesis using RefundOrder_success [OF inv run] refundRow_bounds by blast
qed

section \<open>Late payments\<close>

text \<open>No call of this request fails: the lock is free, the network answers, transactions commit and new ids are new.\<close>

definition calm :: "orderEnv \<Rightarrow> orderWorld \<Rightarrow> bool" where
  "calm env w \<longleftrightarrow> (\<forall>i. oe_Tx env i = TxOk \<and> oe_Query env i = None \<and> oe_PayRpc env i = NoFault \<and> pe_Tx (oe_PayEnv env i) = TxOk)
     \<and> (\<forall>b \<in> set (refundBills (ow_pay w)). rb_Id b \<noteq> pe_Id (oe_PayEnv env 1) \<and> rb_RefundBillNo b \<noteq> pe_No (oe_PayEnv env 1))"

lemma payCall_calm: "oe_PayRpc env i = NoFault \<Longrightarrow> f (ow_pay w) = (Inr a, d) \<Longrightarrow> payCall env i f w = (Inr a, w\<lparr>ow_pay := d\<rparr>)"
  by (simp add: payCall_def eval_ctx_def wireRes_def)

lemma owned_route:
  assumes "findOwnedOrder env i u n w = Inr ord"
  shows "\<exists>route db. RouteByOrderNumber (oe_Map env) (oe_Sec env) n = Inr route \<and> ow_repo w (DBKey route) = Some db
    \<and> findOrder (sd_orders db (TableSuffix route)) n = Some ord"
  using assms by (auto simp: findOwnedOrder_def FindOrderByNumber_def queryRoute_def split: sum.splits option.splits if_splits)

lemma converge_calm:
  assumes "findOwnedOrder env i u n w = Inr ord" "od_OrderStatus ord = orderStatusCancelled" "oe_Tx env j = TxOk" "ow_repo w1 = ow_repo w"
  shows "\<exists>w2. convergeOrderRefunded env j n w1 = (Inr (), w2)"
proof -
  obtain route :: Route and db where "RouteByOrderNumber (oe_Map env) (oe_Sec env) n = Inr route" "ow_repo w (DBKey route) = Some db"
    "findOrder (sd_orders db (TableSuffix route)) n = Some ord" using owned_route [OF assms(1)] by blast
  then show ?thesis using assms(2-4)
    by (simp add: convergeOrderRefunded_def transact_def TransactByOrderNumber_def transactByRoute_def runTx_def refundTx_def
        FindOrderByNumberForUpdate_def openTx_def order_status_defs)
qed

lemma bill_read:
  assumes "payInv (ow_pay w)" "p \<in> set (payBills (ow_pay w))" "pb_OrderNumber p = n" "0 < n" "oe_PayRpc env i = NoFault"
  shows "payRead env i (GetPayBill (oe_PayEnv env i) n) w = Inr (mapGetPayBillResp (pe_Format (oe_PayEnv env i)) p)"
proof -
  have "find (\<lambda>q. True \<and> pb_OrderNumber q = pb_OrderNumber p) (payBills (ow_pay w)) = Some p"
    using assms(1,2) by (intro find_unique_key) (simp_all add: payInv_def)
  then show ?thesis using assms(3-5)
    by (simp add: payRead_def payCall_def eval_ctx_def wireRes_def GetPayBill_def validateGetPayBillReq_def payFindOneByOrderNumber_def)
qed

lemma full_refund:
  assumes inv: "worldInv m w" and calm: "calm env w" and own: "hasOrder (ow_repo w) ord" "0 < od_OrderNumber ord" "0 < u"
    and bill: "p \<in> set (payBills (ow_pay w))" "pb_OrderNumber p = od_OrderNumber ord" "pb_PayStatus p = payStatusPaid"
  shows "\<exists>resp d. Refund (oe_PayEnv env 1) \<lparr>rr_OrderNumber = od_OrderNumber ord, rr_UserId = u, rr_Amount = od_OrderPrice ord, rr_Reason = rs\<rparr> (ow_pay w)
      = (Inr resp, d) \<and> rp_RefundAmount resp = od_OrderPrice ord \<and> rp_PayStatus resp = payStatusRefunded"
proof -
  let ?rq = "\<lparr>rr_OrderNumber = od_OrderNumber ord, rr_UserId = u, rr_Amount = od_OrderPrice ord, rr_Reason = rs\<rparr>"
  have pinv: "payInv (ow_pay w)" and money: "moneyInv (ow_repo w) (ow_pay w)" using inv by (simp_all add: worldInv_def)
  have price: "pb_OrderAmount p = od_OrderPrice ord" using money own(1) bill(1,2) by (simp add: moneyInv_def)
  have "0 < pb_OrderAmount p" using pinv bill(1) by (simp add: payInv_def)
  then have valid: "validateRefundReq ?rq = Inr ()" using own price by (simp add: validateRefundReq_def)
  have none: "rb_OrderNumber r \<noteq> od_OrderNumber ord" if r: "r \<in> set (refundBills (ow_pay w))" for r
  proof
    assume n: "rb_OrderNumber r = od_OrderNumber ord"
    obtain q where q: "q \<in> set (payBills (ow_pay w))" "refundOf r q" using pinv r by (auto simp: payInv_def)
    have "distinct (map pb_OrderNumber (payBills (ow_pay w)))" using pinv by (simp add: payInv_def)
    then have "q = p" using q n bill by (auto simp: refundOf_def distinct_map inj_on_def)
    then show False using q(2) bill(3) by (simp add: refundOf_def pay_status_defs)
  qed
  have "payFindForUpdate (ow_pay w) (od_OrderNumber ord) = Some p" using payFind_iff [OF pinv] bill(1,2) by blast
  with Refund_first [OF pinv valid, of "oe_PayEnv env 1"] calm none price show ?thesis by (simp add: calm_def)
qed

text \<open>
  C27. A payment that arrives after its order was cancelled is returned: when the payer asks for the
  state of the payment and no call fails, the whole price is refunded, the order is marked refunded
  and the answer says so.
\<close>

theorem late_payment_returned:
  assumes inv: "worldInv (oe_Map env) w" and calm: "calm env w" and valid: "validateUserOrderReq u n = Inr ()"
    and own: "findOwnedOrder env 0 u n w = Inr ord" and cancelled: "od_OrderStatus ord = orderStatusCancelled"
    and bill: "p \<in> set (payBills (ow_pay w))" "pb_OrderNumber p = n" "pb_PayStatus p = payStatusPaid"
  shows "\<exists>resp w' ord'. PayCheck env u n w = (Inr resp, w') \<and> po_OrderStatus resp = orderStatusRefunded \<and> po_PayStatus resp = payStatusRefunded
    \<and> refundRow w' n (od_OrderPrice ord) \<and> hasOrder (ow_repo w') ord' \<and> sameOrder ord ord' \<and> od_OrderStatus ord' = orderStatusRefunded"
proof -
  note o = owned [OF own]
  have pos: "0 < u" "0 < n" using valid by (auto simp: validateUserOrderReq_def split: if_splits)
  have nofault: "oe_PayRpc env i = NoFault" "oe_Tx env i = TxOk" for i using calm by (simp_all add: calm_def)
  have pinv: "payInv (ow_pay w)" using inv by (simp add: worldInv_def)
  have read: "payRead env 0 (GetPayBill (oe_PayEnv env 0) n) w = Inr (mapGetPayBillResp (pe_Format (oe_PayEnv env 0)) p)"
    by (rule bill_read [OF pinv bill(1,2) pos(2) nofault(1)])
  let ?rq = "\<lparr>rr_OrderNumber = n, rr_UserId = u, rr_Amount = od_OrderPrice ord, rr_Reason = compensationRefundReason\<rparr>"
  obtain resp d where ref: "Refund (oe_PayEnv env 1) ?rq (ow_pay w) = (Inr resp, d)" "rp_RefundAmount resp = od_OrderPrice ord"
    "rp_PayStatus resp = payStatusRefunded"
    using full_refund [OF inv calm o(2) _ pos(1) bill(1) _ bill(3), of compensationRefundReason] pos(2) o(1) bill(2) by auto
  have call: "payCall env 1 (Refund (oe_PayEnv env 1) ?rq) w = (Inr resp, w\<lparr>ow_pay := d\<rparr>)" using nofault(1) ref(1) by (rule payCall_calm)
  obtain w2 where conv: "convergeOrderRefunded env 0 n (w\<lparr>ow_pay := d\<rparr>) = (Inr (), w2)"
    using converge_calm [OF own cancelled nofault(2), of "w\<lparr>ow_pay := d\<rparr>" 0] by auto
  have rcall: "refundCall env ord u (od_OrderPrice ord) compensationRefundReason w = (Inr resp, w\<lparr>ow_pay := d\<rparr>)"
    using call o(1) by (simp add: refundCall_def)
  note row = refundCall_row [OF inv rcall]
  obtain ord' where f: "hasOrder (ow_repo w2) ord'" "sameOrder ord ord'" "od_OrderStatus ord' = orderStatusRefunded" "ow_pay w2 = d"
    using refund_finish [OF row(4), of ord False _ True "w\<lparr>ow_pay := d\<rparr>" "()" w2] conv o by auto
  have "refundRow w2 n (od_OrderPrice ord)" using row(1) ref(2) o(1) f(4) by (simp add: refundRow_def)
  moreover have "PayCheck env u n w = (Inr (mapPayCheckResp (ord\<lparr>od_OrderStatus := orderStatusRefunded\<rparr>)
      (Some (applyRefundPayStatus (mapGetPayBillResp (pe_Format (oe_PayEnv env 0)) p) resp))), w2)"
    unfolding PayCheck_def Let_def valid own sum.case o(1) read
    using cancelled bill(3) call conv by (simp add: mapGetPayBillResp_def order_status_defs)
  ultimately show ?thesis using f ref(3)
    by (simp add: mapPayCheckResp_def applyRefundPayStatus_def pay_status_defs) blast
qed

section \<open>Sample worlds\<close>

definition demoBilled :: payDb where
  "demoBilled = snd (MockPay (demoPayEnv 1 TxOk) demoPayReq \<lparr>payBills = [], refundBills = []\<rparr>)"

lemma demoBilled_eq: "demoBilled = \<lparr>payBills = [newPayBill (demoPayEnv 1 TxOk) demoPayReq], refundBills = []\<rparr>"
  by (simp add: demoBilled_def pay_eval)

definition demoBilledWorld :: orderWorld where
  "demoBilledWorld = demoOrderWorld\<lparr>ow_pay := demoBilled\<rparr>"

definition demoSoldWorld :: orderWorld where
  "demoSoldWorld = demoBilledWorld\<lparr>ow_repo := [''order-db-0'' \<mapsto> paidDb]\<rparr>"

definition cancelledDb :: shardDb where
  "cancelledDb = commitTx ''00'' (DeleteGuardsByOrderNumber 7 (UpdateCancelStatus 7 2500 (openTx ''00'' demoDb))) demoDb"

definition demoLateWorld :: orderWorld where
  "demoLateWorld = demoBilledWorld\<lparr>ow_repo := [''order-db-0'' \<mapsto> cancelledDb]\<rparr>"

lemma demo_repo_transact:
  "snd (TransactByOrderNumber demoMap 1777356000 TxOk 7 f [''order-db-0'' \<mapsto> db])
     = [''order-db-0'' \<mapsto> commitTx ''00'' (snd (runTx TxOk f (openTx ''00'' db))) db]"
  using demo_route by (auto simp: TransactByOrderNumber_def transactByRoute_def split: prod.splits)

lemma demo_worlds_inv: "worldInv demoMap demoSoldWorld" "worldInv demoMap demoLateWorld"
proof -
  have inv0: "worldInv demoMap demoOrderWorld" by (rule order_service.run_inv [OF demo_service_run(1) freshWorld_inv])
  have pay0: "ow_pay demoOrderWorld = \<lparr>payBills = [], refundBills = []\<rparr>" by (simp add: demoOrderWorld_def freshWorld_def)
  have "hasOrder (ow_repo demoOrderWorld) demoOrder"
    by (rule ordersOf_has) (simp add: ordersOf_def demoOrderWorld_eq demoDb_rows)
  from coreStep.pay [OF this, of demoPayReq demoMap "demoPayEnv 1 TxOk"]
  have "coreStep demoMap demoOrderWorld demoBilledWorld"
    by (simp add: demoPayReq_def demoOrder_def demoBilledWorld_def demoBilled_def pay0)
  then have inv1: "worldInv demoMap demoBilledWorld" using inv0 by (rule coreStep_inv [rotated])
  have repo1: "ow_repo demoBilledWorld = [''order-db-0'' \<mapsto> demoDb]" by (simp add: demoBilledWorld_def demoOrderWorld_eq)
  have b: "billed (ow_pay demoBilledWorld) 7" by (simp add: billed_def demoBilledWorld_def demoBilled_eq newPayBill_def demoPayReq_def)
  have "snd (runTx TxOk (payTx 1610000 7) (openTx ''00'' demoDb)) = UpdatePayStatus 7 1610000 (openTx ''00'' demoDb)"
    by (simp add: tx_eval demo_open) (simp add: demoOrder_def order_status_defs)
  then show "worldInv demoMap demoSoldWorld"
    using coreStep_inv [OF inv1 coreStep.paid [OF b, of demoMap 1777356000 TxOk 1610000]]
    by (simp add: repo1 demo_repo_transact demoSoldWorld_def paidDb_def)
  have "snd (runTx TxOk (cancelTx 2500 7) (openTx ''00'' demoDb)) = DeleteGuardsByOrderNumber 7 (UpdateCancelStatus 7 2500 (openTx ''00'' demoDb))"
    by (simp add: tx_eval demo_open) (simp add: demoOrder_def order_status_defs)
  then show "worldInv demoMap demoLateWorld"
    using coreStep_inv [OF inv1 coreStep.cancel [of demoMap demoBilledWorld 1777356000 TxOk 7 2500]]
    by (simp add: repo1 demo_repo_transact demoLateWorld_def cancelledDb_def)
qed

lemma demo_owned:
  assumes "ow_repo w = [''order-db-0'' \<mapsto> db]" "findOrder (sd_orders db ''00'') 7 = Some ord" "od_UserId ord = 3"
  shows "findOwnedOrder demoOrderEnv i 3 7 w = Inr ord"
  using assms demo_route by (auto simp: findOwnedOrder_def FindOrderByNumber_def queryRoute_def demoOrderEnv_def)

definition cancelledOrder :: DOrder where
  "cancelledOrder = demoOrder\<lparr>od_OrderStatus := 2, od_CancelOrderTime := Some 2500, od_EditTime := 2500\<rparr>"

definition paidOrder :: DOrder where
  "paidOrder = demoOrder\<lparr>od_OrderStatus := 3, od_PayOrderTime := Some 1610000, od_EditTime := 1610000\<rparr>"

lemma demo_orders: "sd_orders cancelledDb ''00'' = [cancelledOrder]" "sd_orders paidDb ''00'' = [paidOrder]"
  by (simp_all add: cancelledDb_def paidDb_def commitTx_def DeleteGuardsByOrderNumber_def UpdateCancelStatus_def UpdatePayStatus_def
      moveStatus_def moveOrder_def demo_open cancelledOrder_def paidOrder_def demoOrder_def order_status_defs)

lemma demo_finds: "findOrder [cancelledOrder] 7 = Some cancelledOrder" "findOrder [paidOrder] 7 = Some paidOrder"
  by (simp_all add: findOrder_def cancelledOrder_def paidOrder_def demoOrder_def)

lemma demo_calm: "calm demoOrderEnv demoLateWorld"
  by (simp add: calm_def demoOrderEnv_def demoPayEnv_def demoLateWorld_def demoBilledWorld_def demoBilled_eq)

theorem late_payment_returned_witness:
  "\<exists>resp w'. PayCheck demoOrderEnv 3 7 demoLateWorld = (Inr resp, w') \<and> po_OrderStatus resp = 4 \<and> refundRow w' 7 500"
proof -
  have own: "findOwnedOrder demoOrderEnv 0 3 7 demoLateWorld = Inr cancelledOrder"
    by (rule demo_owned [of _ cancelledDb]) (simp_all add: demoLateWorld_def demo_orders findOrder_def cancelledOrder_def demoOrder_def)
  have "validateUserOrderReq 3 7 = Inr ()" "od_OrderStatus cancelledOrder = orderStatusCancelled"
    "newPayBill (demoPayEnv 1 TxOk) demoPayReq \<in> set (payBills (ow_pay demoLateWorld))"
    "pb_OrderNumber (newPayBill (demoPayEnv 1 TxOk) demoPayReq) = 7" "pb_PayStatus (newPayBill (demoPayEnv 1 TxOk) demoPayReq) = payStatusPaid"
    by (simp_all add: validateUserOrderReq_def cancelledOrder_def order_status_defs demoLateWorld_def demoBilledWorld_def demoBilled_eq
        newPayBill_def demoPayReq_def)
  from late_payment_returned [OF _ demo_calm this(1) own this(2-5)] demo_worlds_inv(2) show ?thesis
    by (auto simp: demoOrderEnv_map cancelledOrder_def demoOrder_def order_status_defs)
qed

lemma demo_sold_owned: "findOwnedOrder demoOrderEnv 0 3 7 demoSoldWorld = Inr paidOrder"
  by (rule demo_owned [of _ paidDb]) (simp_all add: demoSoldWorld_def demo_orders findOrder_def paidOrder_def demoOrder_def)

lemma demo_sold_bill:
  "\<exists>b. mustGetPayBillForOrder demoOrderEnv 0 7 demoSoldWorld = Inr b \<and> gb_PayStatus b = payStatusPaid \<and> payStatusPaid \<noteq> payStatusRefunded"
  using bill_read [of demoSoldWorld "newPayBill (demoPayEnv 1 TxOk) demoPayReq" 7 demoOrderEnv 0] demo_worlds_inv(1)
  by (simp add: worldInv_def mustGetPayBillForOrder_def demoSoldWorld_def demoBilledWorld_def demoBilled_eq demoOrderEnv_def
      newPayBill_def demoPayReq_def mapGetPayBillResp_def pay_status_defs)

lemma demo_refund_runs: "\<exists>resp w'. RefundOrder demoOrderEnv 3 7 [] demoSoldWorld = (Inr resp, w') \<and> ro_RefundAmount resp = 500"
proof -
  note own = demo_sold_owned
  have f: "od_OrderNumber paidOrder = 7" "od_OrderStatus paidOrder = orderStatusPaid" "orderStatusPaid \<noteq> orderStatusRefunded"
    "od_OrderPrice paidOrder = 500" "od_ShowTimeId paidOrder = 9"
    by (simp_all add: paidOrder_def demoOrder_def order_status_defs)
  obtain tks where tks: "FindOrderTicketsByNumber (oe_Map demoOrderEnv) (oe_Sec demoOrderEnv) (oe_Query demoOrderEnv 1) 7 (ow_repo demoSoldWorld) = Inr tks"
    "orderTicketSeatIDs tks = [77]"
    using demo_route by (auto simp: FindOrderTicketsByNumber_def queryRoute_def demoOrderEnv_def demoSoldWorld_def paidDb_def UpdatePayStatus_def
      moveStatus_def moveTicket_def commitTx_def openTx_def demoDb_rows demoTicket_def orderTicketSeatIDs_def)
  obtain b where b: "mustGetPayBillForOrder demoOrderEnv 0 7 demoSoldWorld = Inr b" "gb_PayStatus b = payStatusPaid" "payStatusPaid \<noteq> payStatusRefunded"
    using demo_sold_bill by blast
  have ev: "evaluateCall demoOrderEnv 9 500 = Inr \<lparr>er_AllowRefund = True, er_RefundPercent = 100, er_RefundAmount = 500, er_RejectReason = []\<rparr>"
    by (simp add: evaluateCall_def demoOrderEnv_def EvaluateRefundRule_def wireRes_def demoProgram_def isRefundBlockedDuringRushSale_def)
  obtain resp d where ref: "refundCall demoOrderEnv paidOrder 3 500 [] demoSoldWorld = (Inr resp, demoSoldWorld\<lparr>ow_pay := d\<rparr>)" "rp_RefundAmount resp = 500"
    by (simp add: refundCall_def payCall_def demoOrderEnv_def eval_ctx_def wireRes_def demoSoldWorld_def demoBilledWorld_def demoBilled_eq pay_eval f)
  have "fst (ReleaseSoldSeats (oe_FreezeEnv demoOrderEnv) (programOf demoOrderEnv) 9 [77] (buildRefundRequestNo 7) demoSeats) = Inr True"
    by code_simp
  then obtain sw where sw: "seatCall demoOrderEnv (ReleaseSoldSeats (oe_FreezeEnv demoOrderEnv) (programOf demoOrderEnv) 9 [77] (buildRefundRequestNo 7))
      (demoSoldWorld\<lparr>ow_pay := d\<rparr>) = (Inr True, demoSoldWorld\<lparr>ow_pay := d, ow_seats := sw\<rparr>)"
    by (cases "ReleaseSoldSeats (oe_FreezeEnv demoOrderEnv) (programOf demoOrderEnv) 9 [77] (buildRefundRequestNo 7) demoSeats")
      (auto simp: seatCall_def eval_ctx_def wireRes_def demoSoldWorld_def demoBilledWorld_def demoOrderWorld_eq freshWorld_def demoOrderEnv_def)
  have "\<exists>w3. convergeOrderRefunded demoOrderEnv 0 7 (demoSoldWorld\<lparr>ow_pay := d, ow_seats := sw\<rparr>) = (Inr (), w3)"
    unfolding convergeOrderRefunded_def
    by (subst demo_transact [of _ paidDb])
      (simp_all add: demoSoldWorld_def tx_eval openTx_def demo_orders, simp add: paidOrder_def demoOrder_def)
  then show ?thesis using ref sw f b ev tks
    by (auto simp: RefundOrder_def validateUserOrderReq_def own refundOrReuse_def mapRefundOrderResp_def)
qed

theorem refund_order_completes_witness:
  "\<exists>resp w'. RefundOrder demoOrderEnv 3 7 [] demoSoldWorld = (Inr resp, w') \<and> refundRow w' 7 500 \<and> ow_rush w' = ow_rush demoSoldWorld"
proof -
  obtain resp w' where run: "RefundOrder demoOrderEnv 3 7 [] demoSoldWorld = (Inr resp, w')" "ro_RefundAmount resp = 500"
    using demo_refund_runs by blast
  from refund_order_completes [OF _ run(1)] demo_worlds_inv(1) run show ?thesis by (simp add: demoOrderEnv_map)
qed

section \<open>Refunds of nothing\<close>

lemma Refund_nothing: "amount \<le> 0 \<Longrightarrow> Refund penv \<lparr>rr_OrderNumber = k, rr_UserId = u, rr_Amount = amount, rr_Reason = rs\<rparr> d
    = (Inl (Status CInvalidArgument ErrInvalidParam), d)"
  by (simp add: Refund_def validateRefundReq_def)

lemma refundCall_nothing:
  "amount \<le> 0 \<Longrightarrow> \<exists>e. refundCall env ord u amount reason w = (Inl e, w) \<and> (oe_PayRpc env 1 = NoFault \<longrightarrow> e = Status CInvalidArgument ErrInvalidParam)"
  by (auto simp: refundCall_def payCall_def eval_ctx_def Refund_nothing wireRes_def overWire_def split: fault.splits)

text \<open>
  A refund of nothing is offered and never given: when the preview allows a refund whose amount
  is zero, as a stage of zero percent or a share rounded down to zero gives, the refund itself fails
  and changes nothing; with a working network it fails as an invalid argument.
\<close>

theorem zero_offer_unredeemable:
  assumes "PreviewRefundOrder env u n w = Inr pv" "pv_AllowRefund pv" "pv_RefundAmount pv \<le> 0"
  shows "\<exists>e. RefundOrder env u n reason w = (Inl e, w)
    \<and> (oe_PayRpc env 1 = NoFault \<and> oe_Query env 1 = None \<longrightarrow> e = Status CInvalidArgument ErrInvalidParam)"
proof -
  obtain ord where ok: "validateUserOrderReq u n = Inr ()" and own: "findOwnedOrder env 0 u n w = Inr ord"
    and pre: "previewRefundOrder env ord w = Inr pv"
    using assms(1) by (auto simp: PreviewRefundOrder_def split: sum.splits)
  obtain b er where st: "od_OrderStatus ord = orderStatusPaid" "od_OrderStatus ord \<noteq> orderStatusRefunded"
    and bill: "mustGetPayBillForOrder env 0 (od_OrderNumber ord) w = Inr b" "gb_PayStatus b = payStatusPaid" "gb_PayStatus b \<noteq> payStatusRefunded"
    and ev: "evaluateCall env (od_ShowTimeId ord) (od_OrderPrice ord) = Inr er" "er_AllowRefund er" "er_RefundAmount er \<le> 0"
    using pre assms(2,3) by (auto simp: previewRefundOrder_def previewReject_def split: if_splits sum.splits)
  obtain e where e: "refundCall env ord u (er_RefundAmount er) reason w = (Inl e, w)"
    "oe_PayRpc env 1 = NoFault \<longrightarrow> e = Status CInvalidArgument ErrInvalidParam" using refundCall_nothing [OF ev(3)] by blast
  have reuse: "refundOrReuse env ord b u reason w = (Inl e, w)" using bill ev e(1) by (simp add: refundOrReuse_def)
  show ?thesis
  proof (cases "FindOrderTicketsByNumber (oe_Map env) (oe_Sec env) (oe_Query env 1) n (ow_repo w)")
    case (Inl x)
    then have "oe_Query env 1 \<noteq> None" using owned_route [OF own] by (auto simp: FindOrderTicketsByNumber_def queryRoute_def split: option.splits)
    then show ?thesis using Inl by (auto simp: RefundOrder_def ok own)
  next
    case (Inr tks)
    then have "RefundOrder env u n reason w = (Inl (mapOrderError e), w)"
      using st bill(1) reuse by (simp add: RefundOrder_def ok own)
    then show ?thesis using e(2) by (auto simp: mapOrderError_def)
  qed
qed

definition demoZeroEnv :: orderEnv where
  "demoZeroEnv = demoOrderEnv\<lparr>oe_FindProgram := (\<lambda>_. Inr demoProgram), oe_FindShow := (\<lambda>_. Inr (5, Some 1000000000000000000)),
     oe_Now := (\<lambda>_. demoNow 100)\<rparr>"

theorem zero_offer_unredeemable_witness:
  "\<exists>pv. PreviewRefundOrder demoZeroEnv 3 7 demoSoldWorld = Inr pv \<and> pv_AllowRefund pv \<and> pv_RefundAmount pv = 0
     \<and> RefundOrder demoZeroEnv 3 7 [] demoSoldWorld = (Inl (Status CInvalidArgument ErrInvalidParam), demoSoldWorld)"
proof -
  have own: "findOwnedOrder demoZeroEnv 0 3 7 demoSoldWorld = Inr paidOrder"
    using demo_sold_owned by (simp add: findOwnedOrder_def demoZeroEnv_def)
  have f: "od_OrderNumber paidOrder = 7" "od_OrderStatus paidOrder = orderStatusPaid" "orderStatusPaid \<noteq> orderStatusRefunded"
    "od_OrderPrice paidOrder = 500" "od_ShowTimeId paidOrder = 9"
    by (simp_all add: paidOrder_def demoOrder_def order_status_defs)
  obtain b where b: "mustGetPayBillForOrder demoZeroEnv 0 7 demoSoldWorld = Inr b" "gb_PayStatus b = payStatusPaid" "payStatusPaid \<noteq> payStatusRefunded"
    using demo_sold_bill by (auto simp: mustGetPayBillForOrder_def demoZeroEnv_def payRead_def payCall_def)
  have ev: "evaluateCall demoZeroEnv 9 500 = Inr \<lparr>er_AllowRefund = True, er_RefundPercent = 0, er_RefundAmount = 0, er_RejectReason = []\<rparr>"
  proof -
    have "remainingMinutes 1000000000000000000 (demoNow 100) = 100"
      by (simp add: remainingMinutes_def demoNow_def subDuration_def int64_min_def int64_max_def tdiv_def)
    then show ?thesis
      using evaluate_ok [of "\<lambda>_. Some demoRule" "''x''" demoRule 500 "1000000000000000000" "demoNow 100", OF refl demoRule_ok]
      by (simp add: evaluateCall_def demoZeroEnv_def demoOrderEnv_def wireRes_def EvaluateRefundRule_def demoProgram_def
          isRefundBlockedDuringRushSale_def nullStringValue_def demoRule_def stageAmount_def int64_max_def)
  qed
  obtain pv where pv: "PreviewRefundOrder demoZeroEnv 3 7 demoSoldWorld = Inr pv" "pv_AllowRefund pv" "pv_RefundAmount pv = 0"
    by (simp add: PreviewRefundOrder_def validateUserOrderReq_def own previewRefundOrder_def f b ev)
  have "oe_PayRpc demoZeroEnv 1 = NoFault" "oe_Query demoZeroEnv 1 = None" by (simp_all add: demoZeroEnv_def demoOrderEnv_def)
  with zero_offer_unredeemable [OF pv(1,2), of "[]"] pv show ?thesis by auto
qed

section \<open>Closing without the program service\<close>

text \<open>The seats of an order that is cancelled are out of reach of the handlers.\<close>

lemma found_has:
  assumes "ow_repo w (DBKey (route :: Route)) = Some db" "FindOrderByNumberForUpdate n (openTx (TableSuffix route) db) = Some a"
  shows "hasOrder (ow_repo w) a" "od_OrderNumber a = n"
proof -
  have a: "a \<in> set (sd_orders db (TableSuffix route))" "od_OrderNumber a = n"
    using assms(2) by (auto simp: FindOrderByNumberForUpdate_def findOrder_def openTx_def dest: find_someD)
  then show "hasOrder (ow_repo w) a" "od_OrderNumber a = n" using assms(1) unfolding hasOrder_def by blast+
qed

lemma transact_seats: "ow_seats (snd (transact env i n f w)) = ow_seats w"
  by (simp add: transact_snd)

lemma closeTx_changed:
  assumes "closeTx t n tx = (Inr (snap, True, x, y), tx')"
  shows "\<exists>a. FindOrderByNumberForUpdate n tx = Some a \<and> od_OrderStatus a = orderStatusUnpaid"
  using assms by (cases "FindOrderByNumberForUpdate n tx") (simp_all add: closeTx_def Let_def case_prod_unfold split: if_splits)

lemma cancelled_keeps_seats:
  assumes inv: "repoInv (oe_Map env) (ow_repo w)" and ord: "hasOrder (ow_repo w) ord" "od_OrderNumber ord = n" "od_OrderStatus ord = orderStatusCancelled"
  shows "ow_seats (snd (CancelOrder env u n w)) = ow_seats w" "ow_seats (snd (CloseExpiredOrder env n w)) = ow_seats w"
proof -
  have uniq: "a = ord" if "ow_repo w (DBKey (route :: Route)) = Some db" "FindOrderByNumberForUpdate n (openTx (TableSuffix route) db) = Some a" for route db a
    using hasOrder_unique [OF inv found_has(1) [OF that] ord(1)] found_has(2) [OF that] ord(2) by simp
  have load: "a = ord" if "loadOrderSnapshot env 0 n w = (Inr a, w1)" for a w1
    using transact_success [OF that [unfolded loadOrderSnapshot_def]] uniq by (auto simp: loadTx_def split: option.splits)
  have close: "\<not> changed" if fin: "finalizeCloseTimeoutTask env 0 n t w = (Inr (snap, changed, x, y), w1)" for t snap changed x y w1
  proof
    assume changed
    then obtain route :: Route and db tx where r: "ow_repo w (DBKey route) = Some db" "closeTx t n (openTx (TableSuffix route) db) = (Inr (snap, True, x, y), tx)"
      using transact_success [OF fin [unfolded finalizeCloseTimeoutTask_def]] by auto
    then show False using closeTx_changed [OF r(2)] uniq [OF r(1)] ord(3) by (auto simp: order_status_defs)
  qed
  have seats: "ow_seats w1 = ow_seats w" if "loadOrderSnapshot env 0 n w = (r, w1)" for r w1
    using that transact_seats [of env 0 n "loadTx n" w] by (simp add: loadOrderSnapshot_def)
  have "ow_seats (snd (cancelOrderWithLock env n u True w)) = ow_seats w"
  proof -
    obtain r w1 where r: "loadOrderSnapshot env 0 n w = (r, w1)" by fastforce
    show ?thesis
    proof (cases r)
      case (Inl e)
      then show ?thesis using r seats [OF r] by (simp add: cancelOrderWithLock_def split: sum.split)
    next
      case (Inr a)
      then show ?thesis using r seats [OF r] load [of a w1] ord(3) by (simp add: cancelOrderWithLock_def sync_frame split: sum.split)
    qed
  qed
  then show "ow_seats (snd (CancelOrder env u n w)) = ow_seats w"
    by (auto simp: CancelOrder_def split: sum.split prod.split)
  have fseats: "ow_seats w1 = ow_seats w" if "finalizeCloseTimeoutTask env 0 n t w = (r, w1)" for r t w1
    using that transact_seats [of env 0 n "closeTx t n" w] by (simp add: finalizeCloseTimeoutTask_def)
  show "ow_seats (snd (CloseExpiredOrder env n w)) = ow_seats w"
  proof -
    obtain r w1 where r: "finalizeCloseTimeoutTask env 0 n (oe_Now env 0) w = (r, w1)" by fastforce
    show ?thesis
    proof (cases r)
      case (Inl e)
      then show ?thesis using r fseats [OF r] by (simp add: CloseExpiredOrder_def split: sum.split)
    next
      case (Inr a)
      obtain snap changed x y where "a = (snap, changed, x, y)" using prod_cases4 by blast
      then show ?thesis using r Inr fseats [OF r] close [of "oe_Now env 0" snap changed x y w1]
        by (simp add: CloseExpiredOrder_def split: sum.split option.split)
    qed
  qed
qed

text \<open>
  Closing an expired order forgets its seats when the program service cannot be reached: the
  call answers success and the order is cancelled, the seats stay frozen, and no later cancelling or
  closing of that order, with whatever network, ever touches them.
\<close>

theorem close_forgets_seats:
  assumes inv: "worldInv (oe_Map env) w" and env: "oe_Lock env = LockFree" "oe_Tx env 0 = TxOk" "oe_ProgramRpc env = LostRequest e"
    and ord: "findOwnedOrder env 0 u n w = Inr ord" "0 < n" "od_OrderStatus ord = orderStatusUnpaid" "od_OrderExpireTime ord \<le> oe_Now env 0"
  shows "\<exists>w1. CloseExpiredOrder env n w = (Inr True, w1) \<and> ow_seats w1 = ow_seats w
    \<and> (\<exists>ord'. hasOrder (ow_repo w1) ord' \<and> sameOrder ord ord' \<and> od_OrderStatus ord' = orderStatusCancelled)
    \<and> (\<forall>env' u'. oe_Map env' = oe_Map env \<longrightarrow>
         ow_seats (snd (CancelOrder env' u' n w1)) = ow_seats w \<and> ow_seats (snd (CloseExpiredOrder env' n w1)) = ow_seats w)"
proof -
  obtain route :: Route and db where r: "RouteByOrderNumber (oe_Map env) (oe_Sec env) n = Inr route" "ow_repo w (DBKey route) = Some db"
    "findOrder (sd_orders db (TableSuffix route)) n = Some ord" using owned_route [OF ord(1)] by blast
  let ?sfx = "TableSuffix route" and ?t = "oe_Now env 0"
  let ?tx = "DeleteGuardsByOrderNumber n (UpdateCancelStatus n ?t (openTx ?sfx db))"
  obtain fs ca tx where mark: "MarkDelayTaskProcessed TaskTypeCloseTimeout (TaskKey n) ?t ?tx = ((fs, ca), tx)" by (metis prod.collapse)
  have on: "od_OrderNumber ord = n" using owned(1) [OF ord(1)] .
  let ?snap = "ord\<lparr>od_OrderStatus := orderStatusCancelled, od_CancelOrderTime := Some ?t\<rparr>"
  let ?w1 = "w\<lparr>ow_repo := (ow_repo w)(DBKey route \<mapsto> commitTx ?sfx tx db)\<rparr>"
  have "closeTx ?t n (openTx ?sfx db) = (Inr (Some ?snap, True, fs, ca), tx)"
    using r(3) ord(3,4) mark on by (simp add: closeTx_def Let_def FindOrderByNumberForUpdate_def openTx_def order_status_defs)
  then have fin: "finalizeCloseTimeoutTask env 0 n ?t w = (Inr (Some ?snap, True, fs, ca), ?w1)"
    using r env(2) by (simp add: finalizeCloseTimeoutTask_def transact_def TransactByOrderNumber_def transactByRoute_def runTx_def)
  let ?w2 = "snd (syncClosedRushAttempt env (od_ShowTimeId ord) n (oe_Now env 1) ?w1)"
  have run: "CloseExpiredOrder env n w = (Inr True, ?w2)"
    using fin env ord(2) on by (simp add: CloseExpiredOrder_def lockOrderStatusGuard_def seatCall_def eval_ctx_def)
  have frame: "ow_repo ?w2 = ow_repo ?w1" "ow_seats ?w2 = ow_seats w" by (simp_all add: sync_frame)
  let ?ord = "ord\<lparr>od_OrderStatus := 2, od_CancelOrderTime := Some ?t, od_EditTime := ?t\<rparr>"
  have tinv: "tableInv (placed (oe_Map env) (DBKey route) ?sfx) (openTx ?sfx db)"
    using inv r(2) by (simp add: worldInv_def repoInv_def shardInv_def)
  have o: "ord \<in> set (sd_orders db ?sfx)" "od_Status ord = 1"
    using findOrder_iff [OF tinv, of n ord] r(3) tinv by (auto simp: openTx_def tableInv_def orderOk_def)
  have "tx_orders tx = tx_orders ?tx" using mark mark_outbox [of TaskTypeCloseTimeout "TaskKey n" ?t ?tx] by auto
  then have "?ord \<in> set (tx_orders tx)"
    using o ord(3) on by (auto simp: DeleteGuardsByOrderNumber_def UpdateCancelStatus_def moveStatus_def moveOrder_def openTx_def order_status_defs
        image_iff intro!: bexI [of _ ord])
  then have has: "hasOrder (ow_repo ?w2) ?ord" unfolding frame(1) hasOrder_def
    by (intro exI [of _ "DBKey route"] exI [of _ "commitTx ?sfx tx db"] exI [of _ ?sfx]) (simp add: commitTx_def)
  have "repoInv (oe_Map env) (ow_repo ?w2)"
    using order_core.run_inv [OF CloseExpiredOrder_reach [OF inv, of n] inv] run by (simp add: worldInv_def)
  then have "ow_seats (snd (CancelOrder env' u' n ?w2)) = ow_seats w \<and> ow_seats (snd (CloseExpiredOrder env' n ?w2)) = ow_seats w"
    if "oe_Map env' = oe_Map env" for env' u'
    using cancelled_keeps_seats [of env' ?w2 ?ord n] has that on frame(2) by (simp add: order_status_defs)
  moreover have "sameOrder ord ?ord" unfolding sameOrder_def
    by (intro exI [of _ 2] exI [of _ "Some ?t"] exI [of _ "od_PayOrderTime ord"] exI [of _ ?t]) simp
  ultimately show ?thesis using run has frame(2) by (intro exI [of _ ?w2] conjI exI [of _ ?ord]) (auto simp: order_status_defs)
qed

definition demoCutEnv :: orderEnv where
  "demoCutEnv = demoOrderEnv\<lparr>oe_Now := (\<lambda>_. 2500), oe_ProgramRpc := LostRequest Timeout\<rparr>"

theorem close_forgets_seats_witness:
  "\<exists>w1. CloseExpiredOrder demoCutEnv 7 demoOrderWorld = (Inr True, w1)
     \<and> ow_seats (snd (CancelOrder (demoCutEnv\<lparr>oe_ProgramRpc := NoFault\<rparr>) 3 7 w1)) = demoSeats"
proof -
  have inv: "worldInv (oe_Map demoCutEnv) demoOrderWorld"
    using order_service.run_inv [OF demo_service_run(1) freshWorld_inv] by (simp add: demoCutEnv_def demoOrderEnv_map)
  have own: "findOwnedOrder demoCutEnv 0 3 7 demoOrderWorld = Inr demoOrder"
    using demo_owned [of demoOrderWorld demoDb demoOrder 0]
    by (simp add: findOwnedOrder_def demoCutEnv_def demoOrderWorld_eq demoDb_rows findOrder_def demoOrder_def)
  have env: "oe_Lock demoCutEnv = LockFree" "oe_Tx demoCutEnv 0 = TxOk" "oe_ProgramRpc demoCutEnv = LostRequest Timeout"
    "od_OrderExpireTime demoOrder \<le> oe_Now demoCutEnv 0" "od_OrderStatus demoOrder = orderStatusUnpaid"
    "oe_Map (demoCutEnv\<lparr>oe_ProgramRpc := NoFault\<rparr>) = oe_Map demoCutEnv" "ow_seats demoOrderWorld = demoSeats"
    by (simp_all add: demoCutEnv_def demoOrderEnv_def demoOrder_def demoOrderWorld_def freshWorld_def)
  from close_forgets_seats [OF inv env(1-3) own _ env(5,4)] env(6,7) show ?thesis by auto
qed

end
