(* ===== verification/OwnOrders.thy ===== *)
theory OwnOrders
  imports OrderOutcomes
begin

text \<open>
  What a handler that acts for a user leaves alone: the orders of all other users, their bills and their
  refunds. The relation is kept by the single calls a handler is made of, provided they name an order of the user.
\<close>

section \<open>Rows of other orders\<close>

definition txOwn :: "int \<Rightarrow> (orderTx \<Rightarrow> 'a res \<times> orderTx) \<Rightarrow> bool" where
  "txOwn n f \<longleftrightarrow> (\<forall>tx a tx'. f tx = (Inr a, tx') \<longrightarrow>
     filter (\<lambda>ord. od_OrderNumber ord \<noteq> n) (tx_orders tx') = filter (\<lambda>ord. od_OrderNumber ord \<noteq> n) (tx_orders tx))"

lemma filter_map_other:
  assumes "\<And>x. k x \<noteq> n \<Longrightarrow> f x = x" "\<And>x. k x = n \<Longrightarrow> k (f x) = n"
  shows "filter (\<lambda>x. k x \<noteq> n) (map f xs) = filter (\<lambda>x. k x \<noteq> n) xs"
  using assms by (induction xs) auto

lemma moveStatus_other:
  assumes "stampOk stamp"
  shows "filter (\<lambda>ord. od_OrderNumber ord \<noteq> n) (tx_orders (moveStatus from to stamp now n tx)) = filter (\<lambda>ord. od_OrderNumber ord \<noteq> n) (tx_orders tx)"
proof -
  have "od_OrderNumber (stamp (ord\<lparr>od_OrderStatus := to\<rparr>)) = od_OrderNumber ord" for ord
  proof -
    obtain c p e where "stamp (ord\<lparr>od_OrderStatus := to\<rparr>) = (ord\<lparr>od_OrderStatus := to\<rparr>)\<lparr>od_CancelOrderTime := c, od_PayOrderTime := p, od_EditTime := e\<rparr>"
      using assms unfolding stampOk_def by blast
    then show ?thesis by simp
  qed
  then show ?thesis by (simp add: moveStatus_def) (rule filter_map_other; simp add: moveOrder_def)
qed

lemma tx_own: "txOwn n (cancelTx t n)" "txOwn n (payTx t n)" "txOwn n (refundTx t n)"
proof -
  have del: "tx_orders (DeleteGuardsByOrderNumber k tx) = tx_orders tx" for k tx by (simp add: DeleteGuardsByOrderNumber_def)
  have find: "od_OrderNumber ord = n" if "FindOrderByNumberForUpdate n tx = Some ord" for tx ord
    using that by (auto simp: FindOrderByNumberForUpdate_def findOrder_def dest: find_someD)
  note upd = UpdateCancelStatus_def UpdatePayStatus_def UpdateOrderRefundStatus_def moveStatus_other stamps_ok
  show "txOwn n (cancelTx t n)"
    unfolding txOwn_def by (auto simp: cancelTx_def del upd dest!: find split: option.splits if_splits)
  show "txOwn n (payTx t n)"
    unfolding txOwn_def by (auto simp: payTx_def del upd dest!: find split: option.splits if_splits)
  show "txOwn n (refundTx t n)"
    unfolding txOwn_def by (auto simp: refundTx_def del upd dest!: find split: option.splits if_splits)
qed

lemma filter_mem:
  assumes "filter P xs = filter P ys" "P x"
  shows "x \<in> set xs \<longleftrightarrow> x \<in> set ys"
proof -
  have "x \<in> set (filter P xs) \<longleftrightarrow> x \<in> set (filter P ys)" using assms(1) by simp
  with assms(2) show ?thesis by simp
qed

lemma transact_own:
  assumes "txOwn n f" "od_OrderNumber ord \<noteq> n"
  shows "hasOrder (snd (TransactByOrderNumber m s flt n f repo)) ord \<longleftrightarrow> hasOrder repo ord"
proof (cases "RouteByOrderNumber m s n")
  case (Inl e)
  then show ?thesis by (simp add: TransactByOrderNumber_def)
next
  case (Inr route)
  show ?thesis
  proof (cases "repo (DBKey route)")
    case None
    then show ?thesis using Inr by (simp add: TransactByOrderNumber_def transactByRoute_def)
  next
    case (Some db)
    let ?k = "DBKey route" and ?sfx = "TableSuffix route"
    let ?tx' = "snd (runTx flt f (openTx ?sfx db))"
    have repo': "snd (TransactByOrderNumber m s flt n f repo) = repo(?k \<mapsto> commitTx ?sfx ?tx' db)"
      using Inr Some by (simp add: TransactByOrderNumber_def transactByRoute_def case_prod_unfold)
    have keep: "ord \<in> set (tx_orders tx') \<longleftrightarrow> ord \<in> set (tx_orders tx)" if "f tx = (Inr a, tx')" for tx a tx'
    proof (rule filter_mem)
      show "filter (\<lambda>ord. od_OrderNumber ord \<noteq> n) (tx_orders tx') = filter (\<lambda>ord. od_OrderNumber ord \<noteq> n) (tx_orders tx)"
        using assms(1) that unfolding txOwn_def by blast
    qed (rule assms(2))
    from runTx_snd [of flt f "openTx ?sfx db"] have "ord \<in> set (tx_orders ?tx') \<longleftrightarrow> ord \<in> set (tx_orders (openTx ?sfx db))"
      by (elim disjE exE conjE) (simp, simp only: keep)
    then have "ord \<in> set (tx_orders ?tx') \<longleftrightarrow> ord \<in> set (sd_orders db ?sfx)" by (simp add: openTx_def)
    then have "ord \<in> set (sd_orders (commitTx ?sfx ?tx' db) sfx) \<longleftrightarrow> ord \<in> set (sd_orders db sfx)" for sfx
      by (simp add: commitTx_def)
    then have "(\<exists>db' sfx. (repo(?k \<mapsto> commitTx ?sfx ?tx' db)) k = Some db' \<and> ord \<in> set (sd_orders db' sfx))
        \<longleftrightarrow> (\<exists>db' sfx. repo k = Some db' \<and> ord \<in> set (sd_orders db' sfx))" for k
      using Some by (cases "k = ?k") auto
    then show ?thesis unfolding repo' hasOrder_def by blast
  qed
qed

section \<open>Orders and bills of others\<close>

definition ownOrder :: "int \<Rightarrow> int \<Rightarrow> orderWorld \<Rightarrow> bool" where
  "ownOrder u n w \<longleftrightarrow> (\<exists>ord. hasOrder (ow_repo w) ord \<and> od_OrderNumber ord = n \<and> od_UserId ord = u)"

definition othersSame :: "int \<Rightarrow> orderWorld \<Rightarrow> orderWorld \<Rightarrow> bool" where
  "othersSame u w w' \<longleftrightarrow> (\<forall>ord. od_UserId ord \<noteq> u \<longrightarrow> hasOrder (ow_repo w') ord = hasOrder (ow_repo w) ord)
     \<and> (\<forall>p. \<not> ownOrder u (pb_OrderNumber p) w \<longrightarrow> (p \<in> set (payBills (ow_pay w'))) = (p \<in> set (payBills (ow_pay w))))
     \<and> (\<forall>r. \<not> ownOrder u (rb_OrderNumber r) w \<longrightarrow> (r \<in> set (refundBills (ow_pay w'))) = (r \<in> set (refundBills (ow_pay w))))
     \<and> (\<forall>n. ownOrder u n w' = ownOrder u n w)"

text \<open>A step that keeps the invariant and leaves others alone.\<close>

definition ownRun :: "RouteMap \<Rightarrow> int \<Rightarrow> orderWorld \<Rightarrow> orderWorld \<Rightarrow> bool" where
  "ownRun m u w w' \<longleftrightarrow> worldInv m w' \<and> othersSame u w w'"

lemma ownRun_refl: "worldInv m w \<Longrightarrow> ownRun m u w w"
  by (simp add: ownRun_def othersSame_def)

lemma ownRun_trans: "ownRun m u w w1 \<Longrightarrow> ownRun m u w1 w2 \<Longrightarrow> ownRun m u w w2"
  by (auto simp: ownRun_def othersSame_def)

lemma ownRun_other: "worldInv m w \<Longrightarrow> ow_repo w' = ow_repo w \<Longrightarrow> ow_pay w' = ow_pay w \<Longrightarrow> ownRun m u w w'"
  by (simp add: ownRun_def othersSame_def ownOrder_def worldInv_def)

lemma ownRun_case:
  assumes "ownRun m u w (snd p)"
    and "\<And>e w1. p = (Inl e, w1) \<Longrightarrow> ownRun m u w w1 \<Longrightarrow> ownRun m u w1 (snd (A e w1))"
    and "\<And>a w1. p = (Inr a, w1) \<Longrightarrow> ownRun m u w w1 \<Longrightarrow> ownRun m u w1 (snd (B a w1))"
  shows "ownRun m u w (snd (case p of (Inl e, w1) \<Rightarrow> A e w1 | (Inr a, w1) \<Rightarrow> B a w1))"
proof -
  obtain r w1 where p: "p = (r, w1)" by fastforce
  with assms(1) have "ownRun m u w w1" by simp
  with assms(2,3) show ?thesis by (cases r) (auto simp: p intro: ownRun_trans)
qed

lemma ownRun_own: "ownRun m u w w' \<Longrightarrow> ownOrder u n w \<Longrightarrow> ownOrder u n w'"
  by (simp add: ownRun_def othersSame_def)

lemma ownRun_inv: "ownRun m u w w' \<Longrightarrow> worldInv m w'"
  by (simp add: ownRun_def)

text \<open>A transaction on an order of the user.\<close>

lemma own_transact:
  assumes inv: "worldInv m w" and own: "ownOrder u n w" and tx: "txOwn n f" "txMoves n S {} f"
    and step: "coreStep m w (w\<lparr>ow_repo := snd (TransactByOrderNumber m s flt n f (ow_repo w))\<rparr>)"
    and evo: "repoEvolves (ow_repo w) (snd (TransactByOrderNumber m s flt n f (ow_repo w)))"
  shows "ownRun m u w (w\<lparr>ow_repo := snd (TransactByOrderNumber m s flt n f (ow_repo w))\<rparr>)"
proof -
  let ?r = "ow_repo w" and ?r' = "snd (TransactByOrderNumber m s flt n f (ow_repo w))"
  have inv': "worldInv m (w\<lparr>ow_repo := ?r'\<rparr>)" by (rule coreStep_inv [OF inv step])
  obtain mine where mine: "hasOrder ?r mine" "od_OrderNumber mine = n" "od_UserId mine = u" using own by (auto simp: ownOrder_def)
  have uniq: "od_UserId ord = u" if "hasOrder ?r ord" "od_OrderNumber ord = n" for ord
    using hasOrder_unique [of m ?r ord mine] inv mine that by (auto simp: worldInv_def)
  have after: "\<exists>ord. hasOrder ?r ord \<and> od_OrderNumber ord = od_OrderNumber ord' \<and> od_UserId ord = od_UserId ord'" if "hasOrder ?r' ord'" for ord'
    using transact_moves [OF tx(2) that] sameOrder_fields by (auto simp: arises_def)
  have before: "\<exists>ord'. hasOrder ?r' ord' \<and> od_OrderNumber ord' = od_OrderNumber ord \<and> od_UserId ord' = od_UserId ord" if "hasOrder ?r ord" for ord
  proof -
    obtain k db sfx where "?r k = Some db" "ord \<in> set (sd_orders db sfx)" using \<open>hasOrder ?r ord\<close> by (auto simp: hasOrder_def)
    then obtain db' ord' where 1: "?r' k = Some db'" "ord' \<in> set (sd_orders db' sfx)" "evolves ord ord'"
      using evo unfolding repoEvolves_def by blast
    then have "od_OrderNumber ord' = od_OrderNumber ord" "od_UserId ord' = od_UserId ord" using sameOrder_fields by (auto simp: evolves_def)
    then show ?thesis using 1 unfolding hasOrder_def by blast
  qed
  have "hasOrder ?r' ord = hasOrder ?r ord" if "od_UserId ord \<noteq> u" for ord
  proof (cases "od_OrderNumber ord = n")
    case True
    have "\<not> hasOrder ?r ord" using uniq True that by auto
    moreover have "\<not> hasOrder ?r' ord" using after [of ord] uniq True that by auto
    ultimately show ?thesis by simp
  next
    case False
    then show ?thesis by (rule transact_own [OF tx(1)])
  qed
  moreover have "ownOrder u k (w\<lparr>ow_repo := ?r'\<rparr>) = ownOrder u k w" for k
    using after before by (auto simp: ownOrder_def)
  ultimately show ?thesis using inv' by (simp add: ownRun_def othersSame_def)
qed

lemma own_cancel: "worldInv (oe_Map env) w \<Longrightarrow> ownOrder u n w \<Longrightarrow> ownRun (oe_Map env) u w (snd (finalizeOrderCancel env i n w))"
  unfolding finalizeOrderCancel_def transact_snd
  by (rule own_transact [OF _ _ tx_own(1) tx_moves(2) coreStep.cancel]) (auto simp: worldInv_def intro: repoStep_step [THEN conjunct2] repoStep.cancel)

lemma own_pay: "worldInv (oe_Map env) w \<Longrightarrow> ownOrder u n w \<Longrightarrow> billed (ow_pay w) n \<Longrightarrow> ownRun (oe_Map env) u w (snd (finalizeOrderPay env i n t w))"
  unfolding finalizeOrderPay_def transact_snd
  by (rule own_transact [OF _ _ tx_own(2) tx_moves(3) coreStep.paid]) (auto simp: worldInv_def intro: repoStep_step [THEN conjunct2] repoStep.pay)

lemma own_converge: "worldInv (oe_Map env) w \<Longrightarrow> ownOrder u n w \<Longrightarrow> returned (ow_pay w) n \<Longrightarrow> ownRun (oe_Map env) u w (snd (convergeOrderRefunded env i n w))"
  unfolding convergeOrderRefunded_def transact_snd
  by (rule own_transact [OF _ _ tx_own(3) tx_moves(4) coreStep.refunded]) (auto simp: worldInv_def intro: repoStep_step [THEN conjunct2] repoStep.refund)

text \<open>Calls to the pay service for an order of the user.\<close>

lemma own_bills:
  assumes inv: "worldInv m w" and inv': "worldInv m (w\<lparr>ow_pay := d\<rparr>)" and own: "ownOrder u n w"
    and pay: "\<And>p. pb_OrderNumber p \<noteq> n \<Longrightarrow> p \<in> set (payBills d) \<longleftrightarrow> p \<in> set (payBills (ow_pay w))"
    and refund: "\<And>r. rb_OrderNumber r \<noteq> n \<Longrightarrow> r \<in> set (refundBills d) \<longleftrightarrow> r \<in> set (refundBills (ow_pay w))"
  shows "ownRun m u w (w\<lparr>ow_pay := d\<rparr>)"
proof -
  have key: "k \<noteq> n" if "\<not> ownOrder u k w" for k using own that by auto
  have "ownOrder u k (w\<lparr>ow_pay := d\<rparr>) = ownOrder u k w" for k by (simp add: ownOrder_def)
  then show ?thesis using inv' pay [OF key] refund [OF key] by (simp add: ownRun_def othersSame_def)
qed

lemma MockPay_others: "pb_OrderNumber p \<noteq> mp_OrderNumber rq \<Longrightarrow> p \<in> set (payBills (snd (MockPay penv rq d))) \<longleftrightarrow> p \<in> set (payBills d)"
  "refundBills (snd (MockPay penv rq d)) = refundBills d"
  using MockPay_effect [of penv rq d] by (auto simp: newPayBill_def)

lemma Refund_others: "pb_OrderNumber p \<noteq> rr_OrderNumber rq \<Longrightarrow> p \<in> set (payBills (snd (Refund penv rq d))) \<longleftrightarrow> p \<in> set (payBills d)"
  "rb_OrderNumber r \<noteq> rr_OrderNumber rq \<Longrightarrow> r \<in> set (refundBills (snd (Refund penv rq d))) \<longleftrightarrow> r \<in> set (refundBills d)"
proof -
  have "p \<in> set (payBills (UpdateRefundStatus d (rr_OrderNumber rq) t)) \<longleftrightarrow> p \<in> set (payBills d)" if "pb_OrderNumber p \<noteq> rr_OrderNumber rq" for t
    using that by (auto simp: UpdateRefundStatus_def split: if_splits)
  then show "p \<in> set (payBills (snd (Refund penv rq d))) \<longleftrightarrow> p \<in> set (payBills d)" if "pb_OrderNumber p \<noteq> rr_OrderNumber rq"
    using that Refund_effect [of penv rq d] by auto
  show "r \<in> set (refundBills (snd (Refund penv rq d))) \<longleftrightarrow> r \<in> set (refundBills d)" if "rb_OrderNumber r \<noteq> rr_OrderNumber rq"
    using that Refund_effect [of penv rq d] by (auto simp: newRefundBill_def)
qed

lemma own_refund:
  assumes inv: "worldInv m w" and own: "ownOrder u (rr_OrderNumber rq) w"
  shows "ownRun m u w (snd (payCall env i (Refund penv rq) w))"
proof -
  have "ownRun m u w (w\<lparr>ow_pay := snd (Refund penv rq (ow_pay w))\<rparr>)"
    by (rule own_bills [OF inv coreStep_inv [OF inv coreStep.refund] own]) (simp_all add: Refund_others)
  then show ?thesis using payCall_snd [of env i "Refund penv rq" w] ownRun_refl [OF inv] by auto
qed

lemma own_mock:
  assumes inv: "worldInv m w" and ord: "hasOrder (ow_repo w) ord" "od_UserId ord = u"
    and rq: "mp_OrderNumber rq = od_OrderNumber ord" "mp_Amount rq = od_OrderPrice ord"
  shows "ownRun m u w (snd (payCall env i (MockPay penv rq) w))"
proof -
  have own: "ownOrder u (mp_OrderNumber rq) w" using ord rq by (auto simp: ownOrder_def)
  have "ownRun m u w (w\<lparr>ow_pay := snd (MockPay penv rq (ow_pay w))\<rparr>)"
    by (rule own_bills [OF inv coreStep_inv [OF inv coreStep.pay [OF ord(1) rq]] own]) (simp_all add: MockPay_others)
  then show ?thesis using payCall_snd [of env i "MockPay penv rq" w] ownRun_refl [OF inv] by auto
qed

lemma load_same: "snd (loadOrderSnapshot env i n w) = w"
proof -
  have "snd (runTx flt (loadTx n) tx) = tx" for flt tx
    using runTx_snd [of flt "loadTx n" tx] by (auto simp: loadTx_def split: option.splits)
  then show ?thesis
    by (auto simp: loadOrderSnapshot_def transact_snd TransactByOrderNumber_def transactByRoute_def case_prod_unfold fun_upd_idem
        split: sum.splits option.splits)
qed

lemma own_seat: "worldInv m w \<Longrightarrow> ownRun m u w (snd (seatCall env f w))"
  by (rule ownRun_other) (simp_all add: seatCall_frame)

lemma own_sync: "worldInv m w \<Longrightarrow> ownRun m u w (snd (syncClosedRushAttempt env st n t w))"
  by (rule ownRun_other) (simp_all add: sync_frame)

lemma loaded_same:
  assumes "loadOrderSnapshot env i n w = (r, w1)" shows "w1 = w"
  using load_same [of env i n w] assms by simp

section \<open>The handlers of a user\<close>

lemma CancelOrder_own:
  assumes inv: "worldInv (oe_Map env) w"
  shows "ownRun (oe_Map env) u w (snd (CancelOrder env u n w))"
proof -
  have fin: "ownRun (oe_Map env) u w1 (snd (case finalizeOrderCancel env 1 k w1 of (Inl e, w3) \<Rightarrow> (Inl e, w3)
      | (Inr changed, w3) \<Rightarrow> (if changed then (Inr True, snd (syncClosedRushAttempt env st k t w3)) else (Inr False, w3))))"
    if "worldInv (oe_Map env) w1" "ownOrder u k w1" for w1 k st t
    by (rule ownRun_case [OF own_cancel [OF that]]) (auto intro: ownRun_refl own_sync dest: ownRun_inv)
  have "ownRun (oe_Map env) u w (snd (cancelOrderWithLock env n u True w))"
  proof (cases "loadOrderSnapshot env 0 n w")
    case (Pair r w1)
    then have w1: "w1 = w" by (rule loaded_same)
    show ?thesis
    proof (cases r)
      case (Inl e)
      then show ?thesis using Pair w1 ownRun_refl [OF inv] by (simp add: cancelOrderWithLock_def split: sum.split)
    next
      case (Inr ord)
      have ord: "od_OrderNumber ord = n" "hasOrder (ow_repo w) ord" using loaded Pair Inr w1 by metis+
      show ?thesis
      proof (cases "od_UserId ord = u")
        case True
        then have own: "ownOrder u (od_OrderNumber ord) w" using ord by (auto simp: ownOrder_def)
        have "ownRun (oe_Map env) u w (snd (case seatCall env f w of (Inl e, w2) \<Rightarrow> (Inl e, w2)
            | (Inr _, w2) \<Rightarrow> (case finalizeOrderCancel env 1 (od_OrderNumber ord) w2 of (Inl e, w3) \<Rightarrow> (Inl e, w3)
              | (Inr changed, w3) \<Rightarrow> (if changed then (Inr True, snd (syncClosedRushAttempt env st (od_OrderNumber ord) t w3)) else (Inr False, w3)))))"
          for f :: "seatWorld \<Rightarrow> bool res \<times> seatWorld" and st t
        proof (rule ownRun_case [OF own_seat [OF inv]], goal_cases)
          case (1 e w2)
          then show ?case by (simp add: ownRun_refl ownRun_inv)
        next
          case (2 b w2)
          show ?case by (rule fin [OF ownRun_inv [OF 2(2)] ownRun_own [OF 2(2) own]])
        qed
        then show ?thesis using Pair Inr w1 True inv
          by (simp add: cancelOrderWithLock_def own_sync ownRun_refl split: sum.split)
      next
        case False
        then show ?thesis using Pair Inr w1 ownRun_refl [OF inv] by (simp add: cancelOrderWithLock_def split: sum.split)
      qed
    qed
  qed
  then show ?thesis unfolding CancelOrder_def using ownRun_refl [OF inv]
    by (auto split: sum.split prod.split)
qed

lemma PayOrder_own:
  assumes inv: "worldInv (oe_Map env) w"
  shows "ownRun (oe_Map env) u w (snd (PayOrder env u n subj ch w))"
proof -
  let ?m = "oe_Map env"
  have fin: "ownRun ?m u w2 (snd (case seatCall env f w2 of (Inl e, w3) \<Rightarrow> (Inl (mapOrderError e), w3) | (Inr _, w3) \<Rightarrow>
      (case t of Inl e \<Rightarrow> (Inl (mapOrderError e), w3) | Inr payTime \<Rightarrow>
      (case finalizeOrderPay env j k payTime w3 of (Inl e, w4) \<Rightarrow> (Inl (mapOrderError e), w4) | (Inr _, w4) \<Rightarrow> (Inr r, w4)))))"
    if "worldInv ?m w2" "ownOrder u k w2" "billed (ow_pay w2) k" for u w2 k t j and r :: PayOrderResp and f :: "seatWorld \<Rightarrow> bool res \<times> seatWorld"
  proof (rule ownRun_case [OF own_seat [OF that(1)]], goal_cases)
    case (1 e w3)
    then show ?case by (simp add: ownRun_refl ownRun_inv)
  next
    case (2 a w3)
    have b: "billed (ow_pay w3) k" using seatCall_frame(2) [of env f w2] that(3) by (simp add: 2(1))
    note pay = own_pay [OF ownRun_inv [OF 2(2)] ownRun_own [OF 2(2) that(2)] b]
    show ?case by (cases t) (auto intro!: ownRun_case [OF pay] ownRun_refl dest: ownRun_inv simp: ownRun_inv [OF 2(2)])
  qed
  have paid: "ownRun ?m u w (snd (case payCall env j (MockPay penv rq) w of (Inl e, w2) \<Rightarrow> (Inl (mapOrderError e), w2) | (Inr resp, w2) \<Rightarrow> g resp w2))"
    if ord: "hasOrder (ow_repo w) ord" "od_UserId ord = u" and rq: "mp_OrderNumber rq = od_OrderNumber ord" "mp_Amount rq = od_OrderPrice ord"
      and g: "\<And>resp w2. worldInv ?m w2 \<Longrightarrow> ownOrder u (od_OrderNumber ord) w2 \<Longrightarrow> billed (ow_pay w2) (od_OrderNumber ord) \<Longrightarrow> ownRun ?m u w2 (snd (g resp w2))"
    for u ord rq penv j and g :: "MockPayResp \<Rightarrow> orderWorld \<Rightarrow> PayOrderResp res \<times> orderWorld"
  proof (rule ownRun_case [OF own_mock [OF inv ord rq]], goal_cases)
    case (1 e w2)
    then show ?case by (simp add: ownRun_refl ownRun_inv)
  next
    case (2 resp w2)
    have "ownOrder u (od_OrderNumber ord) w" using ord by (auto simp: ownOrder_def)
    moreover have "billed (ow_pay w2) (od_OrderNumber ord)" using paid_billed [OF inv 2(1)] rq by simp
    ultimately show ?case using 2(2) by (intro g ownRun_inv [OF 2(2)] ownRun_own [OF 2(2)])
  qed
  show ?thesis
  proof (cases "loadOrderSnapshot env 0 n w")
    case (Pair r w1)
    then have w1: "w1 = w" by (rule loaded_same)
    show ?thesis unfolding PayOrder_def Let_def Pair w1 using loaded [of env 0 n w] Pair w1
      by (cases "validateUserOrderReq u n"; cases "lockOrderStatusGuard env"; cases r)
        (auto intro!: paid fin ownRun_refl [OF inv] split: sum.split)
  qed
qed

lemma own_converge_case:
  assumes "worldInv (oe_Map env) w" "ownOrder u k w" "returned (ow_pay w) k"
  shows "ownRun (oe_Map env) u w (snd (case convergeOrderRefunded env i k w of (Inl e, w2) \<Rightarrow> (E e, w2) | (Inr _, w2) \<Rightarrow> (r, w2)))"
  by (rule ownRun_case [OF own_converge [OF assms]]) (auto intro: ownRun_refl dest: ownRun_inv)

lemma own_after_refund:
  assumes inv: "worldInv (oe_Map env) w" and own: "ownOrder u (rr_OrderNumber rq) w"
    and B: "\<And>resp w1. B resp w1 = (case convergeOrderRefunded env i (rr_OrderNumber rq) w1 of (Inl e, w2) \<Rightarrow> (E e, w2) | (Inr _, w2) \<Rightarrow> (r resp, w2))"
  shows "ownRun (oe_Map env) u w (snd (case payCall env j (Refund penv rq) w of (Inl e, w1) \<Rightarrow> (E' e, w1) | (Inr resp, w1) \<Rightarrow> B resp w1))"
proof (rule ownRun_case [OF own_refund [OF inv own]], goal_cases)
  case (1 e w1)
  then show ?case by (simp add: ownRun_refl ownRun_inv)
next
  case (2 resp w1)
  show ?case unfolding B
    by (rule own_converge_case [OF ownRun_inv [OF 2(2)] ownRun_own [OF 2(2) own] refunded_returned [OF inv 2(1)]])
qed

lemma found_own: "findOwnedOrder env i u n w = Inr ord \<Longrightarrow> ownOrder u (od_OrderNumber ord) w"
  using owned [of env i u n w ord] by (auto simp: ownOrder_def)

lemma PayCheck_own:
  assumes inv: "worldInv (oe_Map env) w"
  shows "ownRun (oe_Map env) u w (snd (PayCheck env u n w))"
  unfolding PayCheck_def Let_def
  by (cases "validateUserOrderReq u n"; cases "findOwnedOrder env 0 u n w")
    (auto intro!: ownRun_refl [OF inv] own_converge_case [OF inv] own_after_refund [OF inv] dest: bill_returned [OF inv] found_own split: sum.split)

lemma RefundOrder_own:
  assumes inv: "worldInv (oe_Map env) w"
  shows "ownRun (oe_Map env) u w (snd (RefundOrder env u n reason w))"
proof (cases "findOwnedOrder env 0 u n w")
  case (Inl e)
  then show ?thesis using ownRun_refl [OF inv] by (auto simp: RefundOrder_def split: sum.split)
next
  case (Inr ord)
  let ?m = "oe_Map env" and ?k = "od_OrderNumber ord"
  have own: "ownOrder u ?k w" by (rule found_own [OF Inr])
  have call: "ownRun ?m u w (snd (refundCall env ord u amount reason w))" for amount unfolding refundCall_def by (rule own_refund [OF inv]) (simp add: own)
  have reuse: "ownRun ?m u w (snd (refundOrReuse env ord b u reason w))" for b
    unfolding refundOrReuse_def
    by (auto intro!: ownRun_case [OF call] ownRun_refl [OF inv] ownRun_refl dest: ownRun_inv split: sum.split)
  have fin: "ownRun ?m u w1 (snd (case (if c then seatCall env f w1 else (Inr True, w1)) of (Inl e, w2) \<Rightarrow> (Inl (mapOrderError e), w2)
      | (Inr _, w2) \<Rightarrow> (case convergeOrderRefunded env 0 ?k w2 of (Inl e, w3) \<Rightarrow> (Inl (mapOrderError e), w3) | (Inr _, w3) \<Rightarrow> (Inr r, w3))))"
    if w1: "worldInv ?m w1" "ownOrder u ?k w1" "returned (ow_pay w1) ?k" for w1 c f and r :: RefundOrderResp
  proof (rule ownRun_case, goal_cases)
    case 1
    show ?case using w1(1) by (simp add: own_seat ownRun_refl)
  next
    case (2 e w2)
    then show ?case by (simp add: ownRun_refl ownRun_inv)
  next
    case (3 a w2)
    then have "ow_pay w2 = ow_pay w1" using seatCall_frame(2) [of env f w1] by (auto split: if_splits)
    then show ?case using w1(3) by (intro own_converge_case ownRun_inv [OF 3(2)] ownRun_own [OF 3(2) w1(2)]) simp
  qed
  have main: "ownRun ?m u w (snd (case refundOrReuse env ord b u reason w of (Inl e, w1) \<Rightarrow> (Inl (mapOrderError e), w1)
      | (Inr x, w1) \<Rightarrow> G x w1))"
    if "\<And>x w1. worldInv ?m w1 \<Longrightarrow> ownOrder u ?k w1 \<Longrightarrow> returned (ow_pay w1) ?k \<Longrightarrow> ownRun ?m u w1 (snd (G x w1))"
    for b and G :: "RefundResp \<times> int \<Rightarrow> orderWorld \<Rightarrow> RefundOrderResp res \<times> orderWorld"
  proof (rule ownRun_case [OF reuse], goal_cases)
    case (1 e w1)
    then show ?case by (simp add: ownRun_refl ownRun_inv)
  next
    case (2 x w1)
    show ?case by (rule that [OF ownRun_inv [OF 2(2)] ownRun_own [OF 2(2) own] refundOrReuse_reach(2) [OF inv 2(1)]])
  qed
  show ?thesis unfolding RefundOrder_def Let_def Inr
    by (cases "validateUserOrderReq u n")
      (auto intro!: ownRun_refl [OF inv] ownRun_case [OF call] main fin ownRun_refl dest: ownRun_inv split: sum.split)
qed

end
