(* ===== verification/Api.thy ===== *)
theory Api
  imports Gateway OwnOrders
begin

text \<open>
  The handlers of \<open>order-api\<close>, \<open>pay-api\<close> and \<open>user-api\<close>: each takes the user from the context, or a field of the
  request where the code does so, calls the service behind it and passes the answer on field by field.
  Every call may lose its request or its reply. The last sections put them behind the gateway.
\<close>

section \<open>Calls\<close>

definition rpcCall :: "fault \<Rightarrow> ('w \<Rightarrow> 'a res \<times> 'w) \<Rightarrow> 'w \<Rightarrow> 'a res \<times> 'w" where
  "rpcCall flt f w = (case eval_ctx flt f w of (r, w') \<Rightarrow> (wireRes r, w'))"

definition rpcRead :: "fault \<Rightarrow> 'a res \<Rightarrow> 'a res" where
  "rpcRead flt r = fst (rpcCall flt (\<lambda>s. (r, s)) ())"

text \<open>A handler that needs the user of the context.\<close>

definition asUser :: "int option \<Rightarrow> (int \<Rightarrow> 'w \<Rightarrow> 'a res \<times> 'w) \<Rightarrow> 'w \<Rightarrow> 'a res \<times> 'w" where
  "asUser ctx f w = (case UserIDFromContext ctx of None \<Rightarrow> (Inl unauthenticated, w) | Some userID \<Rightarrow> f userID w)"

definition asReader :: "int option \<Rightarrow> (int \<Rightarrow> 'a res) \<Rightarrow> 'a res" where
  "asReader ctx f = (case UserIDFromContext ctx of None \<Rightarrow> Inl unauthenticated | Some userID \<Rightarrow> f userID)"

section \<open>order-api\<close>

definition apiCancelOrder :: "orderEnv \<Rightarrow> fault \<Rightarrow> int option \<Rightarrow> int \<Rightarrow> orderWorld \<Rightarrow> bool res \<times> orderWorld" where
  "apiCancelOrder env flt ctx orderNumber = asUser ctx (\<lambda>userID. rpcCall flt (CancelOrder env userID orderNumber))"

definition apiPayOrder :: "orderEnv \<Rightarrow> fault \<Rightarrow> int option \<Rightarrow> int \<Rightarrow> string \<Rightarrow> string \<Rightarrow> orderWorld \<Rightarrow> PayOrderResp res \<times> orderWorld" where
  "apiPayOrder env flt ctx orderNumber subject channel = asUser ctx (\<lambda>userID. rpcCall flt (PayOrder env userID orderNumber subject channel))"

definition apiPayCheck :: "orderEnv \<Rightarrow> fault \<Rightarrow> int option \<Rightarrow> int \<Rightarrow> orderWorld \<Rightarrow> PayOrderResp res \<times> orderWorld" where
  "apiPayCheck env flt ctx orderNumber = asUser ctx (\<lambda>userID. rpcCall flt (PayCheck env userID orderNumber))"

definition apiRefundOrder :: "orderEnv \<Rightarrow> fault \<Rightarrow> int option \<Rightarrow> int \<Rightarrow> string \<Rightarrow> orderWorld \<Rightarrow> RefundOrderResp res \<times> orderWorld" where
  "apiRefundOrder env flt ctx orderNumber reason = asUser ctx (\<lambda>userID. rpcCall flt (RefundOrder env userID orderNumber reason))"

definition apiCreateOrder ::
    "orderEnv \<Rightarrow> PurchaseTokenCodec \<Rightarrow> int \<Rightarrow> fault \<Rightarrow> int option \<Rightarrow> string \<Rightarrow> redis \<Rightarrow> ((int \<times> int) \<times> asyncOrderCreateEvent option) res \<times> redis" where
  "apiCreateOrder env codec eventId flt ctx purchaseToken = asUser ctx (\<lambda>userID. rpcCall flt (CreateOrder env codec eventId userID purchaseToken))"

definition apiCreatePurchaseToken ::
    "orderEnv \<Rightarrow> PurchaseTokenCodec \<Rightarrow> (int \<Rightarrow> PreorderInfo res) \<Rightarrow> (int \<Rightarrow> TicketUserInfo list res) \<Rightarrow> int \<Rightarrow> fault \<Rightarrow> int option
     \<Rightarrow> CreatePurchaseTokenReq \<Rightarrow> repo \<Rightarrow> string res" where
  "apiCreatePurchaseToken env codec preorderOf usersOf orderNumber flt ctx req repo =
     asReader ctx (\<lambda>userID. rpcRead flt (CreatePurchaseToken env codec preorderOf usersOf orderNumber (req\<lparr>tq_UserId := userID\<rparr>) repo))"

definition apiGetOrder :: "orderEnv \<Rightarrow> fault \<Rightarrow> int option \<Rightarrow> int \<Rightarrow> orderWorld \<Rightarrow> OrderDetailInfo res" where
  "apiGetOrder env flt ctx orderNumber w = asReader ctx (\<lambda>userID. rpcRead flt (GetOrder env userID orderNumber w))"

definition apiListOrders :: "orderEnv \<Rightarrow> fault \<Rightarrow> int option \<Rightarrow> int \<Rightarrow> int \<Rightarrow> int \<Rightarrow> orderWorld \<Rightarrow> ListOrdersResp res" where
  "apiListOrders env flt ctx pageNumber0 pageSize0 orderStatus w =
     asReader ctx (\<lambda>userID.
       let pageNumber = (if pageNumber0 \<le> 0 then 1 else pageNumber0); pageSize = (if pageSize0 \<le> 0 then 10 else pageSize0) in
       rpcRead flt (ListOrders env userID orderStatus pageNumber pageSize w))"

definition apiPollOrder :: "orderEnv \<Rightarrow> fault \<Rightarrow> int option \<Rightarrow> int \<Rightarrow> int \<Rightarrow> orderWorld \<Rightarrow> orderProgressProjection res" where
  "apiPollOrder env flt ctx orderNumber showTimeID w = asReader ctx (\<lambda>userID. rpcRead flt (PollOrderProgress env userID orderNumber showTimeID w))"

text \<open>These two take no notice of the context; the second counts for the user named in the request.\<close>

definition apiGetOrderCache :: "orderEnv \<Rightarrow> fault \<Rightarrow> int \<Rightarrow> int \<Rightarrow> orderWorld \<Rightarrow> string res" where
  "apiGetOrderCache env flt orderNumber showTimeID w = rpcRead flt (GetOrderCache env orderNumber showTimeID w)"

definition apiAccountOrderCount :: "orderEnv \<Rightarrow> fault \<Rightarrow> int \<Rightarrow> int \<Rightarrow> orderWorld \<Rightarrow> int res" where
  "apiAccountOrderCount env flt userID showTimeID w = rpcRead flt (CountActiveTickets env userID showTimeID w)"

section \<open>pay-api\<close>

definition apiCommonPay :: "payEnv \<Rightarrow> fault \<Rightarrow> MockPayReq \<Rightarrow> payDb \<Rightarrow> MockPayResp res \<times> payDb" where
  "apiCommonPay penv flt req = rpcCall flt (MockPay penv req)"

definition apiGetPayBill :: "payEnv \<Rightarrow> fault \<Rightarrow> int \<Rightarrow> payDb \<Rightarrow> GetPayBillResp res" where
  "apiGetPayBill penv flt orderNumber d = rpcRead flt (GetPayBill penv orderNumber d)"

text \<open>The refund is asked for in the name of the user of the bill, whoever sends the request.\<close>

definition apiRefund :: "payEnv \<Rightarrow> fault \<Rightarrow> fault \<Rightarrow> int \<Rightarrow> int \<Rightarrow> string \<Rightarrow> payDb \<Rightarrow> RefundResp res \<times> payDb" where
  "apiRefund penv flt1 flt2 orderNumber amount reason d =
     (case rpcRead flt1 (GetPayBill penv orderNumber d) of
        Inl e \<Rightarrow> (Inl e, d)
      | Inr payBill \<Rightarrow> rpcCall flt2 (Refund penv \<lparr>rr_OrderNumber = orderNumber, rr_UserId = gb_UserId payBill, rr_Amount = amount, rr_Reason = reason\<rparr>) d)"

section \<open>user-api\<close>

definition currentUser :: "int option \<Rightarrow> (int \<Rightarrow> 'a userIO) \<Rightarrow> 'a userIO" where
  "currentUser ctx f s = (case requireCurrentUserID ctx of Inl e \<Rightarrow> (Inl e, s) | Inr userID \<Rightarrow> f userID s)"

definition apiUpdateMobile :: "userEnv \<Rightarrow> fault \<Rightarrow> int option \<Rightarrow> string \<Rightarrow> bool userIO" where
  "apiUpdateMobile env flt ctx mobile = currentUser ctx (\<lambda>userID. rpcCall flt (UpdateMobile env userID mobile))"

definition apiUpdateEmail :: "userEnv \<Rightarrow> fault \<Rightarrow> int option \<Rightarrow> string \<Rightarrow> bool userIO" where
  "apiUpdateEmail env flt ctx email = currentUser ctx (\<lambda>userID. rpcCall flt (UpdateEmail env userID email))"

definition apiUpdatePassword :: "userEnv \<Rightarrow> fault \<Rightarrow> int option \<Rightarrow> string \<Rightarrow> bool userIO" where
  "apiUpdatePassword env flt ctx password = currentUser ctx (\<lambda>userID. rpcCall flt (UpdatePassword env userID password))"

definition apiUpdateUser :: "userEnv \<Rightarrow> fault \<Rightarrow> int option \<Rightarrow> UpdateUserReq \<Rightarrow> bool userIO" where
  "apiUpdateUser env flt ctx req = currentUser ctx (\<lambda>userID. rpcCall flt (UpdateUser env (req\<lparr>uu_Id := userID\<rparr>)))"

definition apiAuthentication :: "userEnv \<Rightarrow> fault \<Rightarrow> int option \<Rightarrow> string \<Rightarrow> string \<Rightarrow> bool userIO" where
  "apiAuthentication env flt ctx relName idNumber = currentUser ctx (\<lambda>userID. rpcCall flt (Authentication env userID relName idNumber))"

definition apiAddTicketUser :: "userEnv \<Rightarrow> fault \<Rightarrow> int option \<Rightarrow> AddTicketUserReq \<Rightarrow> bool userIO" where
  "apiAddTicketUser env flt ctx req = currentUser ctx (\<lambda>userID. rpcCall flt (AddTicketUser env (req\<lparr>at_UserId := userID\<rparr>)))"

definition apiDeleteTicketUser :: "userEnv \<Rightarrow> userEnv \<Rightarrow> int option \<Rightarrow> int \<Rightarrow> bool userIO" where
  "apiDeleteTicketUser env env' ctx i = deleteOwnTicketUser env env' (UserIDFromContext ctx) i"

definition apiListTicketUsers :: "userEnv \<Rightarrow> fault \<Rightarrow> int option \<Rightarrow> TicketUserVo list userIO" where
  "apiListTicketUsers env flt ctx = currentUser ctx (\<lambda>userID. rpcCall flt (ListTicketUsers env 0 userID))"

definition apiGetUser :: "userEnv \<Rightarrow> fault \<Rightarrow> int option \<Rightarrow> UserVo userIO" where
  "apiGetUser env flt ctx = currentUser ctx (\<lambda>userID. rpcCall flt (GetUserById env userID))"

definition apiGetUserAndTicketUserList :: "userEnv \<Rightarrow> fault \<Rightarrow> int option \<Rightarrow> (UserVo \<times> TicketUserVo list) userIO" where
  "apiGetUserAndTicketUserList env flt ctx = currentUser ctx (\<lambda>userID. rpcCall flt (GetUserAndTicketUserList env userID))"

text \<open>The open handlers pass the request on.\<close>

definition apiRegister :: "userEnv \<Rightarrow> fault \<Rightarrow> RegisterReq \<Rightarrow> bool userIO" where
  "apiRegister env flt req = rpcCall flt (Register env req)"

definition apiExist :: "userEnv \<Rightarrow> fault \<Rightarrow> string \<Rightarrow> bool userIO" where
  "apiExist env flt mobile = rpcCall flt (Exist env mobile)"

definition apiLogin :: "userEnv \<Rightarrow> fault \<Rightarrow> LoginReq \<Rightarrow> (int \<times> string) userIO" where
  "apiLogin env flt req = rpcCall flt (Login env req)"

definition apiLogout :: "userEnv \<Rightarrow> fault \<Rightarrow> string \<Rightarrow> bool userIO" where
  "apiLogout env flt token = rpcCall flt (Logout env token)"

section \<open>Behind the gateway\<close>

record edge =
  eg_Gateway :: AuthMiddleware
  eg_Mac :: keyedHash
  eg_Verify :: verifier
  eg_GatewayNow :: int
  eg_ApiNow :: int
  eg_Skew :: int
  eg_Secret :: string

definition throughGateway :: "edge \<Rightarrow> string \<Rightarrow> httpHeader \<Rightarrow> (int option \<Rightarrow> 'w \<Rightarrow> 'a res \<times> 'w) \<Rightarrow> 'w \<Rightarrow> 'a res \<times> 'w" where
  "throughGateway eg path h handler w =
     (case gatewayHandle (eg_Gateway eg) (eg_Mac eg) (eg_Verify eg) (eg_GatewayNow eg) ''POST'' path h of
        Inl e \<Rightarrow> (Inl e, w)
      | Inr (h', _) \<Rightarrow>
        (case apiHandle (eg_Mac eg) (eg_ApiNow eg) (eg_Skew eg) (eg_Secret eg) h' of Inl e \<Rightarrow> (Inl e, w) | Inr ctx \<Rightarrow> handler ctx w))"

text \<open>The routes of \<open>order-api\<close> that change orders.\<close>

datatype orderRequest = CancelRequest int | PayRequest int string string | PayCheckRequest int | RefundRequest int string

fun orderPath :: "orderRequest \<Rightarrow> string" where
  "orderPath (CancelRequest _) = ''/order/cancel''"
| "orderPath (PayRequest _ _ _) = ''/order/pay''"
| "orderPath (PayCheckRequest _) = ''/order/pay/check''"
| "orderPath (RefundRequest _ _) = ''/order/refund''"

fun orderApi :: "orderEnv \<Rightarrow> fault \<Rightarrow> orderRequest \<Rightarrow> int option \<Rightarrow> orderWorld \<Rightarrow> unit res \<times> orderWorld" where
  "orderApi env flt (CancelRequest n) ctx w = apfst (map_sum id (\<lambda>_. ())) (apiCancelOrder env flt ctx n w)"
| "orderApi env flt (PayRequest n subject channel) ctx w = apfst (map_sum id (\<lambda>_. ())) (apiPayOrder env flt ctx n subject channel w)"
| "orderApi env flt (PayCheckRequest n) ctx w = apfst (map_sum id (\<lambda>_. ())) (apiPayCheck env flt ctx n w)"
| "orderApi env flt (RefundRequest n reason) ctx w = apfst (map_sum id (\<lambda>_. ())) (apiRefundOrder env flt ctx n reason w)"

definition speaksFor :: "edge \<Rightarrow> string \<Rightarrow> httpHeader \<Rightarrow> int \<Rightarrow> bool" where
  "speaksFor eg path h u \<longleftrightarrow> perfRequest (am_perfCfg (eg_Gateway eg)) path h
     \<or> (\<exists>token claims. bearerToken h = Some token \<and> eg_Verify eg token (trim_space (am_accessSecret (eg_Gateway eg))) = Inr claims \<and> jc_UserID claims = u)"

lemma rpcCall_snd: "snd (rpcCall flt f w) = w \<or> snd (rpcCall flt f w) = snd (f w)"
  by (auto simp: rpcCall_def eval_ctx_def split: fault.splits prod.splits)

lemma own_call:
  assumes "worldInv m w" "ownRun m u w (snd (f w))" shows "ownRun m u w (snd (rpcCall flt f w))"
  using rpcCall_snd [of flt f w] assms ownRun_refl by auto

lemma orderApi_own:
  assumes inv: "worldInv (oe_Map env) w"
  shows "ownRun (oe_Map env) u w (snd (orderApi env flt req (Some u) w))"
proof -
  have user: "ownRun (oe_Map env) u w (snd (asUser (Some u) f w))" if "ownRun (oe_Map env) u w (snd (f u w))" for f :: "int \<Rightarrow> orderWorld \<Rightarrow> 'b res \<times> orderWorld"
    using that ownRun_refl [OF inv] by (auto simp: asUser_def UserIDFromContext_def)
  show ?thesis
    by (cases req) (simp_all add: apiCancelOrder_def apiPayOrder_def apiPayCheck_def apiRefundOrder_def user own_call [OF inv]
        CancelOrder_own [OF inv] PayOrder_own [OF inv] PayCheck_own [OF inv] RefundOrder_own [OF inv])
qed

lemma gateway_context:
  assumes "throughGateway eg path h (\<lambda>ctx w. (Inr ctx, w)) w = (Inr ctx, w')"
  shows "\<exists>u. ctx = Some u \<and> speaksFor eg path h u"
proof -
  obtain h' c where g: "gatewayHandle (eg_Gateway eg) (eg_Mac eg) (eg_Verify eg) (eg_GatewayNow eg) ''POST'' path h = Inr (h', c)"
    and a: "apiHandle (eg_Mac eg) (eg_ApiNow eg) (eg_Skew eg) (eg_Secret eg) h' = Inr ctx"
    using assms by (auto simp: throughGateway_def split: sum.splits prod.splits)
  obtain u where u: "ctx = Some u" using a by (auto simp: apiHandle_def split: sum.splits)
  from accepted_identity [OF g a [unfolded u]] show ?thesis using u by (auto simp: speaksFor_def)
qed

text \<open>
  C12. Nobody can touch the orders of others through the order api: whatever request with whatever headers reaches the gateway,
  and whatever fails on the way, either nothing changes or the gateway has verified that the request speaks
  for a user \<open>u\<close>, and then all orders, bills and refunds of other users stay as they are.
\<close>

theorem order_requests_touch_own_orders:
  assumes inv: "worldInv (oe_Map env) w"
    and run: "throughGateway eg (orderPath req) h (orderApi env flt req) w = (r, w')"
  shows "w' = w \<or> (\<exists>u. speaksFor eg (orderPath req) h u \<and> othersSame u w w' \<and> worldInv (oe_Map env) w')"
proof (cases "throughGateway eg (orderPath req) h (\<lambda>ctx w. (Inr ctx, w)) w")
  case (Pair c t)
  then show ?thesis
  proof (cases c)
    case (Inl e)
    then show ?thesis using run Pair by (auto simp: throughGateway_def split: sum.splits prod.splits)
  next
    case (Inr ctx)
    from gateway_context [OF Pair [unfolded Inr]] obtain u where u: "ctx = Some u" "speaksFor eg (orderPath req) h u" by blast
    moreover have "w' = snd (orderApi env flt req ctx w)" using run Pair Inr by (auto simp: throughGateway_def split: sum.splits prod.splits)
    ultimately show ?thesis using orderApi_own [OF inv, of u flt req] by (auto simp: ownRun_def)
  qed
qed

section \<open>Accounts of others\<close>

datatype userRequest = MobileRequest string | EmailRequest string | PasswordRequest string | UserRequest UpdateUserReq
  | AuthenticationRequest string string | AddTicketUserRequest AddTicketUserReq | DeleteTicketUserRequest int

fun userPath :: "userRequest \<Rightarrow> string" where
  "userPath (MobileRequest _) = ''/user/update/mobile''"
| "userPath (EmailRequest _) = ''/user/update/email''"
| "userPath (PasswordRequest _) = ''/user/update/password''"
| "userPath (UserRequest _) = ''/user/update''"
| "userPath (AuthenticationRequest _ _) = ''/user/authentication''"
| "userPath (AddTicketUserRequest _) = ''/ticket/user/add''"
| "userPath (DeleteTicketUserRequest _) = ''/ticket/user/delete''"

fun userApi :: "userEnv \<Rightarrow> userEnv \<Rightarrow> fault \<Rightarrow> userRequest \<Rightarrow> int option \<Rightarrow> bool userIO" where
  "userApi env env' flt (MobileRequest x) ctx s = apiUpdateMobile env flt ctx x s"
| "userApi env env' flt (EmailRequest x) ctx s = apiUpdateEmail env flt ctx x s"
| "userApi env env' flt (PasswordRequest x) ctx s = apiUpdatePassword env flt ctx x s"
| "userApi env env' flt (UserRequest x) ctx s = apiUpdateUser env flt ctx x s"
| "userApi env env' flt (AuthenticationRequest x y) ctx s = apiAuthentication env flt ctx x y s"
| "userApi env env' flt (AddTicketUserRequest x) ctx s = apiAddTicketUser env flt ctx x s"
| "userApi env env' flt (DeleteTicketUserRequest i) ctx s = apiDeleteTicketUser env env' ctx i s"

definition accountsKept :: "int \<Rightarrow> userDb \<Rightarrow> userDb \<Rightarrow> bool" where
  "accountsKept u s s' \<longleftrightarrow> filter (\<lambda>x. du_Id x \<noteq> u) (ub_Users s') = filter (\<lambda>x. du_Id x \<noteq> u) (ub_Users s)
     \<and> filter (\<lambda>t. DTicketUser.tu_UserId t \<noteq> u) (ub_TicketUsers s') = filter (\<lambda>t. DTicketUser.tu_UserId t \<noteq> u) (ub_TicketUsers s)"

interpretation kept: state_frame "accountsKept u" for u
  by unfold_locales (simp_all add: accountsKept_def)

context state_frame
begin

lemma keeps_load:
  assumes "\<And>user. du_Id user = i \<Longrightarrow> keeps R (g user)"
  shows "keeps R (thenDo (loadUser env k i) g)"
proof -
  have "snd (loadUser env k i s) = s" and id: "fst (loadUser env k i s) = Inr user \<Longrightarrow> du_Id user = i" for s user
    by (auto simp: loadUser_def query_def eval_ctx_def ifMissing_def FindUser_def orNotFound_def
        split: fault.splits option.splits sum.splits if_splits dest: find_someD)
  then have "thenDo (loadUser env k i) g s = (case fst (loadUser env k i s) of Inl e \<Rightarrow> (Inl e, s) | Inr user \<Rightarrow> g user s)" for s
    by (simp add: thenDo_def case_prod_unfold split: sum.split)
  then show ?thesis using assms [OF id] frame_refl unfolding keeps_def by (auto split: sum.split)
qed

lemma keeps_rpc: "keeps R f \<Longrightarrow> keeps R (rpcCall flt f)"
  unfolding keeps_def using rpcCall_snd frame_refl by metis

lemma keeps_current:
  assumes "\<And>u. ctx = Some u \<Longrightarrow> keeps R (f u)" shows "keeps R (currentUser ctx f)"
  using assms by (auto simp: keeps_def currentUser_def requireCurrentUserID_def UserIDFromContext_def frame_refl split: sum.splits option.splits if_splits)

end

lemma kept_update: "du_Id d = u \<Longrightarrow> keeps (accountsKept u) (exec env k (UpdateUserRow d))"
proof (rule kept.keeps_exec)
  fix s s' assume u: "du_Id d = u" and "UpdateUserRow d s = Inr s'"
  then have s': "s' = s\<lparr>ub_Users := map (\<lambda>u. if du_Id u = du_Id d then d\<lparr>du_CreateTime := du_CreateTime u\<rparr> else u) (ub_Users s)\<rparr>"
    by (simp add: UpdateUserRow_def)
  have "filter (\<lambda>x. du_Id x \<noteq> u) (map (\<lambda>u. if du_Id u = du_Id d then d\<lparr>du_CreateTime := du_CreateTime u\<rparr> else u) (ub_Users s)) = filter (\<lambda>x. du_Id x \<noteq> u) (ub_Users s)"
    by (rule filter_map_other) (simp_all add: u)
  then show "accountsKept u s s'" by (simp add: accountsKept_def s')
qed

lemma kept_rows: "keeps (accountsKept u) (exec env k (InsertMobile d1))" "keeps (accountsKept u) (exec env k (DeleteMobile i))"
  "keeps (accountsKept u) (exec env k (InsertEmail d2))" "keeps (accountsKept u) (exec env k (DeleteEmail i))"
  "DTicketUser.tu_UserId d3 = u \<Longrightarrow> keeps (accountsKept u) (exec env k (InsertTicketUser d3))"
  by (rule kept.keeps_exec; auto simp: accountsKept_def InsertMobile_def DeleteMobile_def InsertEmail_def DeleteEmail_def InsertTicketUser_def split: if_splits)+

lemma userApi_kept:
  assumes "distinct (map DTicketUser.tu_Id (ub_TicketUsers s))"
  shows "accountsKept u s (snd (userApi env env' flt req (Some u) s))"
proof -
  have move: "keeps (accountsKept u) (moveMobile env user x)" "keeps (accountsKept u) (moveEmail env user y)" for user x y
    unfolding moveMobile_def moveEmail_def by (intro kept.keeps_intros kept_rows)+
  have up: "keeps (accountsKept u) (UpdateMobile env u a)" "keeps (accountsKept u) (UpdateEmail env u a)" "keeps (accountsKept u) (UpdatePassword env u a)"
    "keeps (accountsKept u) (Authentication env u a b)" for a b
    unfolding UpdateMobile_def UpdateEmail_def UpdatePassword_def Authentication_def
    by (intro kept.keeps_load kept.keeps_intros kept_update move; simp)+
  have user: "uu_Id rq = u \<Longrightarrow> keeps (accountsKept u) (UpdateUser env rq)" for rq
    unfolding UpdateUser_def Let_def by (intro kept.keeps_load kept.keeps_intros kept_update move; simp)
  have add: "at_UserId rq = u \<Longrightarrow> keeps (accountsKept u) (AddTicketUser env rq)" for rq
    unfolding AddTicketUser_def by (intro kept.keeps_load kept.keeps_intros kept_rows; simp)
  note call = kept.keeps_current [OF kept.keeps_rpc]
  have all: "keeps (accountsKept u) (apiUpdateMobile env flt (Some u) a)" "keeps (accountsKept u) (apiUpdateEmail env flt (Some u) a)"
    "keeps (accountsKept u) (apiUpdatePassword env flt (Some u) a)" "keeps (accountsKept u) (apiAuthentication env flt (Some u) a b)"
    "keeps (accountsKept u) (apiUpdateUser env flt (Some u) rq)" "keeps (accountsKept u) (apiAddTicketUser env flt (Some u) rq')" for a b rq rq'
    unfolding apiUpdateMobile_def apiUpdateEmail_def apiUpdatePassword_def apiAuthentication_def apiUpdateUser_def apiAddTicketUser_def
    by (rule call, simp add: up user add)+
  show ?thesis
  proof (cases req)
    case (DeleteTicketUserRequest i)
    obtain r s' where run: "deleteOwnTicketUser env env' (UserIDFromContext (Some u)) i s = (r, s')" by (rule prod.exhaust)
    have eq: "snd (userApi env env' flt req (Some u) s) = s'" by (simp add: DeleteTicketUserRequest apiDeleteTicketUser_def run)
    from deletes_own_ticket_users_only [OF assms run] show ?thesis unfolding eq
      by (auto simp: accountsKept_def sameAccounts_def UserIDFromContext_def eq_commute [of u] split: if_splits)
  qed (use all in \<open>simp_all add: keeps_def\<close>)
qed


section \<open>The pay service in the open\<close>

lemma PayOrder_success:
  assumes run: "PayOrder env u n subj ch w = (Inr resp, w')"
  shows "(\<exists>ord. hasOrder (ow_repo w) ord \<and> od_OrderNumber ord = n \<and> od_OrderStatus ord = orderStatusPaid \<and> w' = w)
    \<or> (\<exists>rq mr w2 f b w3 t. mp_OrderNumber rq = n \<and> payCall env 1 (MockPay (oe_PayEnv env 1) rq) w = (Inr mr, w2)
        \<and> seatCall env (f :: seatWorld \<Rightarrow> bool res \<times> seatWorld) w2 = (Inr b, w3) \<and> finalizeOrderPay env 1 n t w3 = (Inr (), w'))"
proof (cases "loadOrderSnapshot env 0 n w")
  case (Pair r w1)
  then have w1: "w1 = w" by (rule loaded_same)
  obtain ord where r: "r = Inr ord" using run Pair by (auto simp: PayOrder_def Let_def split: sum.splits)
  have ord: "od_OrderNumber ord = n" "hasOrder (ow_repo w) ord" using loaded Pair r w1 by metis+
  show ?thesis
  proof (cases "od_OrderStatus ord = orderStatusPaid")
    case True
    then have "w' = w" using run Pair r w1 by (auto simp: PayOrder_def Let_def split: sum.splits if_splits)
    then show ?thesis using True ord by blast
  next
    case False
    let ?rq = "\<lparr>mp_OrderNumber = od_OrderNumber ord, mp_UserId = od_UserId ord, mp_Subject = (if subj = [] then od_ProgramTitle ord else subj),
      mp_Channel = ch, mp_Amount = od_OrderPrice ord\<rparr>"
    obtain mr w2 b w3 t where "payCall env 1 (MockPay (oe_PayEnv env 1) ?rq) w = (Inr mr, w2)"
      "seatCall env (ConfirmSeatFreeze (oe_SeatStore env) (oe_FreezeEnv env) (od_FreezeToken ord)) w2 = (Inr b, w3)"
      "finalizeOrderPay env 1 (od_OrderNumber ord) t w3 = (Inr (), w')"
      using run Pair r w1 False unfolding PayOrder_def Let_def by (auto split: sum.splits if_splits prod.splits)
    moreover have "mp_OrderNumber ?rq = n" using ord by simp
    ultimately show ?thesis unfolding ord(1) by blast
  qed
qed

lemma payTx_result:
  assumes inv: "tableInv P tx" and run: "payTx t n tx = (Inr a, tx')"
  shows "\<exists>ord' \<in> set (tx_orders tx'). od_OrderNumber ord' = n \<and> od_OrderStatus ord' = orderStatusPaid"
proof -
  obtain ord where ord: "findOrder (tx_orders tx) n = Some ord"
    using run by (auto simp: payTx_def FindOrderByNumberForUpdate_def split: option.splits)
  have o: "ord \<in> set (tx_orders tx)" "od_OrderNumber ord = n" using findOrder_iff [OF inv] ord by auto
  show ?thesis
  proof (cases "od_OrderStatus ord = orderStatusPaid")
    case True
    then show ?thesis using o run ord by (auto simp: payTx_def FindOrderByNumberForUpdate_def)
  next
    case False
    then have st: "od_OrderStatus ord = orderStatusUnpaid" and tx': "tx' = UpdatePayStatus n t tx"
      using run ord o by (auto simp: payTx_def FindOrderByNumberForUpdate_def split: if_splits)
    have "od_Status ord = 1" using inv o(1) by (auto simp: tableInv_def orderOk_def)
    then have "ord\<lparr>od_OrderStatus := 3, od_PayOrderTime := Some t, od_EditTime := t\<rparr> = moveOrder [1] 3 (\<lambda>ord. ord\<lparr>od_PayOrderTime := Some t, od_EditTime := t\<rparr>) n ord"
      using o(2) st by (simp add: moveOrder_def order_status_defs)
    then have "ord\<lparr>od_OrderStatus := 3, od_PayOrderTime := Some t, od_EditTime := t\<rparr> \<in> set (tx_orders tx')"
      using o(1) by (simp add: tx' UpdatePayStatus_def moveStatus_def)
    then show ?thesis using o(2) by (intro bexI) (simp_all add: order_status_defs)
  qed
qed

lemma finalizePay_result:
  assumes inv: "repoInv (oe_Map env) (ow_repo w)" and run: "finalizeOrderPay env i n t w = (Inr (), w1)"
  shows "\<exists>ord. hasOrder (ow_repo w1) ord \<and> od_OrderNumber ord = n \<and> od_OrderStatus ord = orderStatusPaid" "ow_pay w1 = ow_pay w"
proof -
  obtain route :: Route and db tx where r: "ow_repo w (DBKey route) = Some db" "payTx t n (openTx (TableSuffix route) db) = (Inr (), tx)"
    "w1 = w\<lparr>ow_repo := (ow_repo w)(DBKey route \<mapsto> commitTx (TableSuffix route) tx db)\<rparr>"
    using transact_success [OF run [unfolded finalizeOrderPay_def]] by blast
  have "tableInv (placed (oe_Map env) (DBKey route) (TableSuffix route)) (openTx (TableSuffix route) db)"
    using inv r(1) by (simp add: repoInv_def shardInv_def)
  from payTx_result [OF this r(2)] obtain ord where o: "ord \<in> set (tx_orders tx)" "od_OrderNumber ord = n" "od_OrderStatus ord = orderStatusPaid" by auto
  have "hasOrder (ow_repo w1) ord" unfolding hasOrder_def
    by (intro exI [of _ "DBKey route"] exI [of _ "commitTx (TableSuffix route) tx db"] exI [of _ "TableSuffix route"])
      (use o(1) in \<open>simp add: r(3) commitTx_def\<close>)
  then show "\<exists>ord. hasOrder (ow_repo w1) ord \<and> od_OrderNumber ord = n \<and> od_OrderStatus ord = orderStatusPaid" using o by blast
  show "ow_pay w1 = ow_pay w" by (simp add: r(3))
qed


text \<open>
  Anybody can return the money: a request to the pay api, whoever sends it, refunds any paid bill up to its amount
  without a look at the order, which stays as it was, so that it can be marked paid while the money is returned.
\<close>

theorem pay_api_refunds_any_bill:
  assumes inv: "payInv d" and bill: "p \<in> set (payBills d)" "pb_PayStatus p = payStatusPaid" "0 < pb_OrderNumber p" "0 < pb_UserId p"
    and amount: "0 < a" "a \<le> pb_OrderAmount p" and env: "pe_Tx penv = TxOk"
    and ids: "pe_Id penv \<notin> rb_Id ` set (refundBills d)" "pe_No penv \<notin> rb_RefundBillNo ` set (refundBills d)"
  shows "\<exists>resp d'. apiRefund penv NoFault NoFault (pb_OrderNumber p) a reason d = (Inr resp, d') \<and> rp_RefundAmount resp = a
    \<and> (\<exists>q \<in> set (payBills d'). pb_OrderNumber q = pb_OrderNumber p \<and> pb_PayStatus q = payStatusRefunded)"
proof -
  let ?n = "pb_OrderNumber p"
  let ?rq = "\<lparr>rr_OrderNumber = ?n, rr_UserId = pb_UserId p, rr_Amount = a, rr_Reason = reason\<rparr>"
  have find: "payFindForUpdate d ?n = Some p" using payFind_iff [OF inv] bill(1) by simp
  then have find': "payFindOneByOrderNumber d ?n = Some p"
    using inv bill(1) find_unique_key [of pb_OrderNumber "payBills d" p "\<lambda>_. True"] by (simp add: payFindOneByOrderNumber_def payInv_def)
  have none: "r \<notin> set (refundBills d)" if "rb_OrderNumber r = ?n" for r
  proof
    assume "r \<in> set (refundBills d)"
    then obtain q where "q \<in> set (payBills d)" "refundOf r q" using inv by (auto simp: payInv_def)
    moreover have "q = p" using \<open>q \<in> set (payBills d)\<close> \<open>refundOf r q\<close> that bill(1) inv by (auto simp: payInv_def refundOf_def distinct_map inj_on_def)
    ultimately show False using bill(2) by (simp add: refundOf_def pay_status_defs)
  qed
  then have none': "?n \<notin> rb_OrderNumber ` set (refundBills d)" by (auto simp: image_iff)
  have unref: "refundFindForUpdate d ?n = None" using none refundFind_iff [OF inv, of ?n] by (cases "refundFindForUpdate d ?n") auto
  let ?b = "newRefundBill penv ?rq p"
  let ?d = "(UpdateRefundStatus d ?n (pe_Now penv))\<lparr>refundBills := refundBills d @ [?b]\<rparr>"
  have st: "pb_Status p = 1" using inv bill(1) by (auto simp: payInv_def)
  have "Refund penv ?rq d = (Inr (mapRefundResp (pe_Format penv) ?b), ?d)"
    using find unref bill amount env ids none'
    by (simp add: Refund_def Let_def validateRefundReq_def runTx_def refundInsert_def UpdateRefundStatus_def newRefundBill_def)
  moreover have "GetPayBill penv ?n d = Inr (mapGetPayBillResp (pe_Format penv) p)"
    using find' bill(3) by (simp add: GetPayBill_def validateGetPayBillReq_def)
  ultimately have "apiRefund penv NoFault NoFault ?n a reason d = (Inr (mapRefundResp (pe_Format penv) ?b), ?d)"
    by (simp add: apiRefund_def rpcRead_def rpcCall_def eval_ctx_def wireRes_def mapGetPayBillResp_def)
  moreover have "\<exists>q \<in> set (payBills ?d). pb_OrderNumber q = ?n \<and> pb_PayStatus q = payStatusRefunded"
  proof
    show "p\<lparr>pb_PayStatus := 3, pb_EditTime := pe_Now penv\<rparr> \<in> set (payBills ?d)"
      using bill(1) st by (simp add: UpdateRefundStatus_def)
  qed (simp add: pay_status_defs)
  ultimately show ?thesis by (simp add: mapRefundResp_def newRefundBill_def)
qed

section \<open>Instances\<close>

definition acctEdge :: edge where
  "acctEdge = \<lparr>eg_Gateway = acctGateway, eg_Mac = acctMac, eg_Verify = acctVerify 105, eg_GatewayNow = 105000000000,
     eg_ApiNow = 105500000000, eg_Skew = 300000000000, eg_Secret = ''g''\<rparr>"

text \<open>User 50 asks for the refund of an order of user 3.\<close>

theorem order_requests_touch_own_orders_witness:
  "hasOrder (ow_repo (snd (throughGateway acctEdge ''/order/refund'' (acctHeaders acctToken) (orderApi demoOrderEnv NoFault (RefundRequest 7 [])) demoSoldWorld))) paidOrder"
proof -
  let ?run = "throughGateway acctEdge (orderPath (RefundRequest 7 [])) (acctHeaders acctToken) (orderApi demoOrderEnv NoFault (RefundRequest 7 [])) demoSoldWorld"
  have has: "hasOrder (ow_repo demoSoldWorld) paidOrder"
    by (rule ordersOf_has) (simp add: ordersOf_def demoSoldWorld_def demo_orders)
  have inv: "worldInv (oe_Map demoOrderEnv) demoSoldWorld" using demo_worlds_inv(1) by (simp add: demoOrderEnv_map)
  have user: "od_UserId paidOrder \<noteq> 50" by code_simp
  have only: "\<not> perfRequest (am_perfCfg (eg_Gateway acctEdge)) ''/order/refund'' (acctHeaders acctToken)"
    "acctVerify 105 acctToken (trim_space (am_accessSecret (eg_Gateway acctEdge))) = Inr \<lparr>jc_UserID = 50, jc_ExpiresAt = 111, jc_IssuedAt = 101\<rparr>" by code_simp+
  then have fifty: "u = 50" if "speaksFor acctEdge (orderPath (RefundRequest 7 [])) (acctHeaders acctToken) u" for u
    using that acctToken_facts(1) by (auto simp: speaksFor_def acctEdge_def)
  from order_requests_touch_own_orders [OF inv prod.collapse [symmetric], of acctEdge "RefundRequest 7 []" "acctHeaders acctToken" NoFault]
  have "snd ?run = demoSoldWorld \<or> othersSame 50 demoSoldWorld (snd ?run)" using fifty by blast
  then have "hasOrder (ow_repo (snd ?run)) paidOrder" using has user unfolding othersSame_def by (elim disjE) simp_all
  then show ?thesis by simp
qed

definition cheapReq :: MockPayReq where
  "cheapReq = \<lparr>mp_OrderNumber = 7, mp_UserId = 99, mp_Subject = ''x'', mp_Channel = [], mp_Amount = 1\<rparr>"

definition cheapDb :: payDb where
  "cheapDb = \<lparr>payBills = [newPayBill (demoPayEnv 1610 TxOk) cheapReq], refundBills = []\<rparr>"

lemma cheap_pays:
  assumes "ow_pay w = cheapDb"
  shows "payCall demoOrderEnv 1 (MockPay (oe_PayEnv demoOrderEnv 1) \<lparr>mp_OrderNumber = 7, mp_UserId = 3, mp_Subject = ''show'', mp_Channel = [],
     mp_Amount = 500\<rparr>) w = (Inr \<lparr>mr_PayBillNo = 1611, mr_PayStatus = 2, mr_PayTime = show_int 1610000\<rparr>, w)"
  using assms by (simp add: payCall_def demoOrderEnv_def eval_ctx_def wireRes_def pay_eval cheapDb_def cheapReq_def)

lemma cheap_run:
  assumes w: "ow_repo w = [''order-db-0'' \<mapsto> demoDb]" "ow_pay w = cheapDb" "ow_seats w = demoSeats"
  shows "\<exists>resp w'. PayOrder demoOrderEnv 3 7 [] [] w = (Inr resp, w')"
proof -
  obtain sw where confirm: "seatCall demoOrderEnv (ConfirmSeatFreeze (oe_SeatStore demoOrderEnv) (oe_FreezeEnv demoOrderEnv) ''freeze-st9-tc2-o7'') w
      = (Inr True, w\<lparr>ow_seats := sw\<rparr>)"
    using demo_confirm [of w] w by (auto simp: demoOrderEnv_def)
  have "finalizeOrderPay demoOrderEnv 1 7 1610000 (w\<lparr>ow_seats := sw\<rparr>) = (Inr (), w\<lparr>ow_seats := sw, ow_repo := [''order-db-0'' \<mapsto> paidDb]\<rparr>)"
    by (rule demo_pay) (simp add: w)
  moreover have "oe_Now demoOrderEnv 0 = 1500" "oe_Lock demoOrderEnv = LockFree" by (simp_all add: demoOrderEnv_def)
  ultimately show ?thesis
    using cheap_pays [OF w(2)] confirm demo_load [OF w(1), of 0]
    by (simp add: PayOrder_def validateUserOrderReq_def lockOrderStatusGuard_def demoOrder_def order_status_defs demo_paytime)
qed


theorem pay_api_refunds_any_bill_witness:
  "\<exists>resp d'. apiRefund (demoPayEnv 1700 TxOk) NoFault NoFault 7 500 [] demoBilled = (Inr resp, d') \<and> rp_RefundAmount resp = 500"
proof -
  let ?p = "newPayBill (demoPayEnv 1 TxOk) demoPayReq"
  have inv: "payInv demoBilled" using demo_worlds_inv(1) by (simp add: worldInv_def demoSoldWorld_def demoBilledWorld_def)
  have p: "?p \<in> set (payBills demoBilled)" "pb_PayStatus ?p = payStatusPaid" "0 < pb_OrderNumber ?p" "0 < pb_UserId ?p" "500 \<le> pb_OrderAmount ?p"
    "pb_OrderNumber ?p = 7" "refundBills demoBilled = []"
    by (simp_all add: demoBilled_eq newPayBill_def demoPayReq_def)
  have "pe_Tx (demoPayEnv 1700 TxOk) = TxOk" by (simp add: demoPayEnv_def)
  from pay_api_refunds_any_bill [OF inv p(1-4) _ p(5) this, of "[]"] p show ?thesis by auto
qed


end
