(* ===== verification/ProgramApi.thy ===== *)
theory ProgramApi
  imports ProgramLists Api
begin

text \<open>
  The handlers of \<open>program-api\<close> with the mappers of \<open>logic/mapper.go\<close>: a request of the api is copied into
  a message of the program service and the answer is copied back. None of the routes asks for a user.
  Every call may lose its request or its reply.
\<close>

section \<open>Messages\<close>

text \<open>The types of the api that the handlers fill field by field. A list of the service has no null elements.\<close>

record ProgramAddReqA =
  ap_ProgramGroupID :: int
  ap_Prime :: int
  ap_AreaID :: int
  ap_ProgramCategoryID :: int
  ap_ParentProgramCategoryID :: int
  ap_Title :: string
  ap_Actor :: string
  ap_Place :: string
  ap_ItemPicture :: string
  ap_PreSell :: int
  ap_PreSellInstruction :: string
  ap_ImportantNotice :: string
  ap_Detail :: string
  ap_PerOrderLimitPurchaseCount :: int
  ap_PerAccountLimitPurchaseCount :: int
  ap_RefundTicketRule :: string
  ap_DeliveryInstruction :: string
  ap_EntryRule :: string
  ap_ChildPurchase :: string
  ap_InvoiceSpecification :: string
  ap_RealTicketPurchaseRule :: string
  ap_AbnormalOrderDescription :: string
  ap_KindReminder :: string
  ap_PerformanceDuration :: string
  ap_EntryTime :: string
  ap_MinPerformanceCount :: int
  ap_MainActor :: string
  ap_MinPerformanceDuration :: string
  ap_ProhibitedItem :: string
  ap_DepositSpecification :: string
  ap_TotalCount :: int
  ap_PermitRefund :: int
  ap_RefundExplain :: string
  ap_RefundRuleJSON :: string
  ap_RelNameTicketEntrance :: int
  ap_RelNameTicketEntranceExplain :: string
  ap_PermitChooseSeat :: int
  ap_ChooseSeatExplain :: string
  ap_ElectronicDeliveryTicket :: int
  ap_ElectronicDeliveryTicketExplain :: string
  ap_ElectronicInvoice :: int
  ap_ElectronicInvoiceExplain :: string
  ap_HighHeat :: int
  ap_ProgramStatus :: int
  ap_IssueTime :: string
  ap_RushSaleOpenTime :: string
  ap_RushSaleEndTime :: string
  ap_Status :: int

record ProgramUpdateReqA =
  au_ID :: int
  au_ProgramGroupID :: int
  au_Prime :: int
  au_AreaID :: int
  au_ProgramCategoryID :: int
  au_ParentProgramCategoryID :: int
  au_Title :: string
  au_Actor :: string
  au_Place :: string
  au_ItemPicture :: string
  au_PreSell :: int
  au_PreSellInstruction :: string
  au_ImportantNotice :: string
  au_Detail :: string
  au_PerOrderLimitPurchaseCount :: int
  au_PerAccountLimitPurchaseCount :: int
  au_RefundTicketRule :: string
  au_DeliveryInstruction :: string
  au_EntryRule :: string
  au_ChildPurchase :: string
  au_InvoiceSpecification :: string
  au_RealTicketPurchaseRule :: string
  au_AbnormalOrderDescription :: string
  au_KindReminder :: string
  au_PerformanceDuration :: string
  au_EntryTime :: string
  au_MinPerformanceCount :: int
  au_MainActor :: string
  au_MinPerformanceDuration :: string
  au_ProhibitedItem :: string
  au_DepositSpecification :: string
  au_TotalCount :: int
  au_PermitRefund :: int
  au_RefundExplain :: string
  au_RefundRuleJSON :: string
  au_RelNameTicketEntrance :: int
  au_RelNameTicketEntranceExplain :: string
  au_PermitChooseSeat :: int
  au_ChooseSeatExplain :: string
  au_ElectronicDeliveryTicket :: int
  au_ElectronicDeliveryTicketExplain :: string
  au_ElectronicInvoice :: int
  au_ElectronicInvoiceExplain :: string
  au_HighHeat :: int
  au_ProgramStatus :: int
  au_IssueTime :: string
  au_RushSaleOpenTime :: string
  au_RushSaleEndTime :: string
  au_Status :: int

record ProgramShowTimeAddReqA =
  ast_ProgramID :: int
  ast_ShowTime :: string
  ast_ShowDayTime :: string
  ast_ShowWeekTime :: string

definition addReq :: "ProgramAddReqA \<Rightarrow> CreateProgramReq" where
  "addReq req =
     \<lparr>cq_ProgramGroupId = ap_ProgramGroupID req, cq_Prime = ap_Prime req, cq_AreaId = ap_AreaID req,
      cq_ProgramCategoryId = ap_ProgramCategoryID req, cq_ParentProgramCategoryId = ap_ParentProgramCategoryID req,
      cq_Title = ap_Title req, cq_Actor = ap_Actor req, cq_Place = ap_Place req, cq_ItemPicture = ap_ItemPicture req,
      cq_PreSell = ap_PreSell req, cq_PreSellInstruction = ap_PreSellInstruction req,
      cq_ImportantNotice = ap_ImportantNotice req, cq_Detail = ap_Detail req,
      cq_PerOrderLimitPurchaseCount = ap_PerOrderLimitPurchaseCount req,
      cq_PerAccountLimitPurchaseCount = ap_PerAccountLimitPurchaseCount req,
      cq_RefundTicketRule = ap_RefundTicketRule req, cq_DeliveryInstruction = ap_DeliveryInstruction req,
      cq_EntryRule = ap_EntryRule req, cq_ChildPurchase = ap_ChildPurchase req,
      cq_InvoiceSpecification = ap_InvoiceSpecification req,
      cq_RealTicketPurchaseRule = ap_RealTicketPurchaseRule req,
      cq_AbnormalOrderDescription = ap_AbnormalOrderDescription req, cq_KindReminder = ap_KindReminder req,
      cq_PerformanceDuration = ap_PerformanceDuration req, cq_EntryTime = ap_EntryTime req,
      cq_MinPerformanceCount = ap_MinPerformanceCount req, cq_MainActor = ap_MainActor req,
      cq_MinPerformanceDuration = ap_MinPerformanceDuration req, cq_ProhibitedItem = ap_ProhibitedItem req,
      cq_DepositSpecification = ap_DepositSpecification req, cq_TotalCount = ap_TotalCount req,
      cq_PermitRefund = ap_PermitRefund req, cq_RefundExplain = ap_RefundExplain req,
      cq_RefundRuleJson = ap_RefundRuleJSON req, cq_RelNameTicketEntrance = ap_RelNameTicketEntrance req,
      cq_RelNameTicketEntranceExplain = ap_RelNameTicketEntranceExplain req,
      cq_PermitChooseSeat = ap_PermitChooseSeat req, cq_ChooseSeatExplain = ap_ChooseSeatExplain req,
      cq_ElectronicDeliveryTicket = ap_ElectronicDeliveryTicket req,
      cq_ElectronicDeliveryTicketExplain = ap_ElectronicDeliveryTicketExplain req,
      cq_ElectronicInvoice = ap_ElectronicInvoice req, cq_ElectronicInvoiceExplain = ap_ElectronicInvoiceExplain req,
      cq_HighHeat = ap_HighHeat req, cq_ProgramStatus = ap_ProgramStatus req, cq_IssueTime = ap_IssueTime req,
      cq_RushSaleOpenTime = ap_RushSaleOpenTime req, cq_RushSaleEndTime = ap_RushSaleEndTime req,
      cq_Status = ap_Status req\<rparr>"

definition updateReq :: "ProgramUpdateReqA \<Rightarrow> UpdateProgramReq" where
  "updateReq req =
     \<lparr>uq_Id = au_ID req, uq_ProgramGroupId = au_ProgramGroupID req, uq_Prime = au_Prime req,
      uq_AreaId = au_AreaID req, uq_ProgramCategoryId = au_ProgramCategoryID req,
      uq_ParentProgramCategoryId = au_ParentProgramCategoryID req, uq_Title = au_Title req, uq_Actor = au_Actor req,
      uq_Place = au_Place req, uq_ItemPicture = au_ItemPicture req, uq_PreSell = au_PreSell req,
      uq_PreSellInstruction = au_PreSellInstruction req, uq_ImportantNotice = au_ImportantNotice req,
      uq_Detail = au_Detail req, uq_PerOrderLimitPurchaseCount = au_PerOrderLimitPurchaseCount req,
      uq_PerAccountLimitPurchaseCount = au_PerAccountLimitPurchaseCount req,
      uq_RefundTicketRule = au_RefundTicketRule req, uq_DeliveryInstruction = au_DeliveryInstruction req,
      uq_EntryRule = au_EntryRule req, uq_ChildPurchase = au_ChildPurchase req,
      uq_InvoiceSpecification = au_InvoiceSpecification req,
      uq_RealTicketPurchaseRule = au_RealTicketPurchaseRule req,
      uq_AbnormalOrderDescription = au_AbnormalOrderDescription req, uq_KindReminder = au_KindReminder req,
      uq_PerformanceDuration = au_PerformanceDuration req, uq_EntryTime = au_EntryTime req,
      uq_MinPerformanceCount = au_MinPerformanceCount req, uq_MainActor = au_MainActor req,
      uq_MinPerformanceDuration = au_MinPerformanceDuration req, uq_ProhibitedItem = au_ProhibitedItem req,
      uq_DepositSpecification = au_DepositSpecification req, uq_TotalCount = au_TotalCount req,
      uq_PermitRefund = au_PermitRefund req, uq_RefundExplain = au_RefundExplain req,
      uq_RefundRuleJson = au_RefundRuleJSON req, uq_RelNameTicketEntrance = au_RelNameTicketEntrance req,
      uq_RelNameTicketEntranceExplain = au_RelNameTicketEntranceExplain req,
      uq_PermitChooseSeat = au_PermitChooseSeat req, uq_ChooseSeatExplain = au_ChooseSeatExplain req,
      uq_ElectronicDeliveryTicket = au_ElectronicDeliveryTicket req,
      uq_ElectronicDeliveryTicketExplain = au_ElectronicDeliveryTicketExplain req,
      uq_ElectronicInvoice = au_ElectronicInvoice req, uq_ElectronicInvoiceExplain = au_ElectronicInvoiceExplain req,
      uq_HighHeat = au_HighHeat req, uq_ProgramStatus = au_ProgramStatus req, uq_IssueTime = au_IssueTime req,
      uq_RushSaleOpenTime = au_RushSaleOpenTime req, uq_RushSaleEndTime = au_RushSaleEndTime req,
      uq_Status = au_Status req\<rparr>"

text \<open>The api has no end of a show; the message has the empty text then.\<close>

definition showTimeReq :: "ProgramShowTimeAddReqA \<Rightarrow> ProgramShowTimeAddReq" where
  "showTimeReq req =
     \<lparr>sr_ProgramId = ast_ProgramID req, sr_ShowTime = ast_ShowTime req, sr_ShowDayTime = ast_ShowDayTime req,
      sr_ShowWeekTime = ast_ShowWeekTime req, sr_ShowEndTime = []\<rparr>"

section \<open>Answers\<close>

record ProgramCategoryInfoA =
  ak_ID :: int
  ak_ParentID :: int
  ak_Name :: string
  ak_Type :: int

definition mapProgramCategoryInfoList :: "ProgramCategoryInfo list \<Rightarrow> ProgramCategoryInfoA list" where
  "mapProgramCategoryInfoList xs =
     map (\<lambda>item. \<lparr>ak_ID = pk_Id item, ak_ParentID = pk_ParentId item, ak_Name = pk_Name item, ak_Type = pk_Type item\<rparr>) xs"

record ProgramListInfoA =
  al_ID :: int
  al_Title :: string
  al_Actor :: string
  al_Place :: string
  al_ItemPicture :: string
  al_AreaID :: int
  al_AreaName :: string
  al_ProgramCategoryID :: int
  al_ProgramCategoryName :: string
  al_ParentProgramCategoryID :: int
  al_ParentProgramCategoryName :: string
  al_ShowTime :: string
  al_ShowDayTime :: string
  al_ShowWeekTime :: string
  al_MinPrice :: int
  al_MaxPrice :: int
  al_EsID :: int

definition mapProgramListInfo :: "ProgramListInfo \<Rightarrow> ProgramListInfoA" where
  "mapProgramListInfo resp =
     \<lparr>al_ID = li_Id resp, al_Title = li_Title resp, al_Actor = li_Actor resp, al_Place = li_Place resp,
      al_ItemPicture = li_ItemPicture resp, al_AreaID = li_AreaId resp, al_AreaName = li_AreaName resp,
      al_ProgramCategoryID = li_ProgramCategoryId resp, al_ProgramCategoryName = li_ProgramCategoryName resp,
      al_ParentProgramCategoryID = li_ParentProgramCategoryId resp,
      al_ParentProgramCategoryName = li_ParentProgramCategoryName resp, al_ShowTime = li_ShowTime resp,
      al_ShowDayTime = li_ShowDayTime resp, al_ShowWeekTime = li_ShowWeekTime resp, al_MinPrice = li_MinPrice resp,
      al_MaxPrice = li_MaxPrice resp, al_EsID = li_EsId resp\<rparr>"

definition mapProgramListInfoList :: "ProgramListInfo list \<Rightarrow> ProgramListInfoA list" where
  "mapProgramListInfoList xs = map mapProgramListInfo xs"

record ProgramHomeSectionA =
  ah_CategoryName :: string
  ah_CategoryID :: int
  ah_ProgramListVoList :: "ProgramListInfoA list"

definition mapProgramHomeSectionList :: "ProgramHomeSection list \<Rightarrow> ProgramHomeSectionA list" where
  "mapProgramHomeSectionList xs =
     map (\<lambda>item. \<lparr>ah_CategoryName = hs_CategoryName item, ah_CategoryID = hs_CategoryId item,
      ah_ProgramListVoList = mapProgramListInfoList (hs_ProgramListVoList item)\<rparr>) xs"

record ProgramPageRespA =
  aw_PageNum :: int
  aw_PageSize :: int
  aw_TotalSize :: int
  aw_List :: "ProgramListInfoA list"

definition mapProgramPageResp :: "ProgramPageResp \<Rightarrow> ProgramPageRespA" where
  "mapProgramPageResp resp =
     \<lparr>aw_PageNum = gp_PageNum resp, aw_PageSize = gp_PageSize resp, aw_TotalSize = gp_TotalSize resp,
      aw_List = mapProgramListInfoList (gp_List resp)\<rparr>"

record ProgramSimpleInfoA =
  as_ProgramID :: int
  as_AreaID :: int
  as_AreaIDName :: string

definition mapProgramSimpleInfoList :: "ProgramSimpleInfo list \<Rightarrow> ProgramSimpleInfoA list" where
  "mapProgramSimpleInfoList xs =
     map (\<lambda>item. \<lparr>as_ProgramID = si_ProgramId item, as_AreaID = si_AreaId item, as_AreaIDName = si_AreaIdName item\<rparr>) xs"

record ProgramGroupInfoA =
  ag_ID :: int
  ag_ProgramSimpleInfoVoList :: "ProgramSimpleInfoA list"
  ag_RecentShowTime :: string

definition mapProgramGroupInfo :: "ProgramGroupInfo option \<Rightarrow> ProgramGroupInfoA" where
  "mapProgramGroupInfo resp =
     (case resp of None \<Rightarrow> \<lparr>ag_ID = 0, ag_ProgramSimpleInfoVoList = [], ag_RecentShowTime = []\<rparr>
      | Some g \<Rightarrow> \<lparr>ag_ID = gi_Id g, ag_ProgramSimpleInfoVoList = mapProgramSimpleInfoList (gi_ProgramSimpleInfoVoList g),
          ag_RecentShowTime = gi_RecentShowTime g\<rparr>)"

record TicketCategoryInfoA =
  at_ID :: int
  at_Introduce :: string
  at_Price :: int

definition mapTicketCategoryInfoList :: "TicketCategoryInfo list \<Rightarrow> TicketCategoryInfoA list" where
  "mapTicketCategoryInfoList xs =
     map (\<lambda>item. \<lparr>at_ID = ti_Id item, at_Introduce = ti_Introduce item, at_Price = ti_Price item\<rparr>) xs"

record ProgramDetailViewInfoA =
  av_ID :: int
  av_ProgramGroupID :: int
  av_Prime :: int
  av_ProgramGroupVo :: ProgramGroupInfoA
  av_Title :: string
  av_Actor :: string
  av_Place :: string
  av_ItemPicture :: string
  av_PreSell :: int
  av_PreSellInstruction :: string
  av_ImportantNotice :: string
  av_AreaID :: int
  av_AreaName :: string
  av_ProgramCategoryID :: int
  av_ProgramCategoryName :: string
  av_ParentProgramCategoryID :: int
  av_ParentProgramCategoryName :: string
  av_Detail :: string
  av_PerOrderLimitPurchaseCount :: int
  av_PerAccountLimitPurchaseCount :: int
  av_RefundTicketRule :: string
  av_DeliveryInstruction :: string
  av_EntryRule :: string
  av_ChildPurchase :: string
  av_InvoiceSpecification :: string
  av_RealTicketPurchaseRule :: string
  av_AbnormalOrderDescription :: string
  av_KindReminder :: string
  av_PerformanceDuration :: string
  av_EntryTime :: string
  av_MinPerformanceCount :: int
  av_MainActor :: string
  av_MinPerformanceDuration :: string
  av_ProhibitedItem :: string
  av_DepositSpecification :: string
  av_TotalCount :: int
  av_PermitRefund :: int
  av_RefundExplain :: string
  av_RelNameTicketEntrance :: int
  av_RelNameTicketEntranceExplain :: string
  av_PermitChooseSeat :: int
  av_ChooseSeatExplain :: string
  av_ElectronicDeliveryTicket :: int
  av_ElectronicDeliveryTicketExplain :: string
  av_ElectronicInvoice :: int
  av_ElectronicInvoiceExplain :: string
  av_HighHeat :: int
  av_ProgramStatus :: int
  av_IssueTime :: string
  av_RushSaleOpenTime :: string
  av_RushSaleEndTime :: string
  av_InventoryPreheatStatus :: int
  av_ShowTime :: string
  av_ShowDayTime :: string
  av_ShowWeekTime :: string
  av_TicketCategoryVoList :: "TicketCategoryInfoA list"

definition mapProgramDetailViewInfo :: "ProgramDetailViewInfo \<Rightarrow> ProgramDetailViewInfoA" where
  "mapProgramDetailViewInfo resp =
     \<lparr>av_ID = dv_Id resp, av_ProgramGroupID = dv_ProgramGroupId resp, av_Prime = dv_Prime resp,
      av_ProgramGroupVo = mapProgramGroupInfo (dv_ProgramGroupVo resp), av_Title = dv_Title resp,
      av_Actor = dv_Actor resp, av_Place = dv_Place resp, av_ItemPicture = dv_ItemPicture resp,
      av_PreSell = dv_PreSell resp, av_PreSellInstruction = dv_PreSellInstruction resp,
      av_ImportantNotice = dv_ImportantNotice resp, av_AreaID = dv_AreaId resp, av_AreaName = dv_AreaName resp,
      av_ProgramCategoryID = dv_ProgramCategoryId resp, av_ProgramCategoryName = dv_ProgramCategoryName resp,
      av_ParentProgramCategoryID = dv_ParentProgramCategoryId resp,
      av_ParentProgramCategoryName = dv_ParentProgramCategoryName resp, av_Detail = dv_Detail resp,
      av_PerOrderLimitPurchaseCount = dv_PerOrderLimitPurchaseCount resp,
      av_PerAccountLimitPurchaseCount = dv_PerAccountLimitPurchaseCount resp,
      av_RefundTicketRule = dv_RefundTicketRule resp, av_DeliveryInstruction = dv_DeliveryInstruction resp,
      av_EntryRule = dv_EntryRule resp, av_ChildPurchase = dv_ChildPurchase resp,
      av_InvoiceSpecification = dv_InvoiceSpecification resp,
      av_RealTicketPurchaseRule = dv_RealTicketPurchaseRule resp,
      av_AbnormalOrderDescription = dv_AbnormalOrderDescription resp, av_KindReminder = dv_KindReminder resp,
      av_PerformanceDuration = dv_PerformanceDuration resp, av_EntryTime = dv_EntryTime resp,
      av_MinPerformanceCount = dv_MinPerformanceCount resp, av_MainActor = dv_MainActor resp,
      av_MinPerformanceDuration = dv_MinPerformanceDuration resp, av_ProhibitedItem = dv_ProhibitedItem resp,
      av_DepositSpecification = dv_DepositSpecification resp, av_TotalCount = dv_TotalCount resp,
      av_PermitRefund = dv_PermitRefund resp, av_RefundExplain = dv_RefundExplain resp,
      av_RelNameTicketEntrance = dv_RelNameTicketEntrance resp,
      av_RelNameTicketEntranceExplain = dv_RelNameTicketEntranceExplain resp,
      av_PermitChooseSeat = dv_PermitChooseSeat resp, av_ChooseSeatExplain = dv_ChooseSeatExplain resp,
      av_ElectronicDeliveryTicket = dv_ElectronicDeliveryTicket resp,
      av_ElectronicDeliveryTicketExplain = dv_ElectronicDeliveryTicketExplain resp,
      av_ElectronicInvoice = dv_ElectronicInvoice resp,
      av_ElectronicInvoiceExplain = dv_ElectronicInvoiceExplain resp, av_HighHeat = dv_HighHeat resp,
      av_ProgramStatus = dv_ProgramStatus resp, av_IssueTime = dv_IssueTime resp,
      av_RushSaleOpenTime = dv_RushSaleOpenTime resp, av_RushSaleEndTime = dv_RushSaleEndTime resp,
      av_InventoryPreheatStatus = dv_InventoryPreheatStatus resp, av_ShowTime = dv_ShowTime resp,
      av_ShowDayTime = dv_ShowDayTime resp, av_ShowWeekTime = dv_ShowWeekTime resp,
      av_TicketCategoryVoList = mapTicketCategoryInfoList (dv_TicketCategoryVoList resp)\<rparr>"

record ProgramPreorderTicketCategoryInfoA =
  ay_ID :: int
  ay_Introduce :: string
  ay_Price :: int
  ay_TotalNumber :: int
  ay_RemainNumber :: int

definition mapProgramPreorderTicketCategoryInfoList :: "ProgramPreorderTicketCategoryInfo list \<Rightarrow> ProgramPreorderTicketCategoryInfoA list" where
  "mapProgramPreorderTicketCategoryInfoList xs =
     map (\<lambda>item. \<lparr>ay_ID = po_Id item, ay_Introduce = po_Introduce item, ay_Price = po_Price item,
      ay_TotalNumber = po_TotalNumber item, ay_RemainNumber = po_RemainNumber item\<rparr>) xs"

record ProgramPreorderInfoA =
  ax_ProgramID :: int
  ax_ShowTimeID :: int
  ax_ProgramGroupID :: int
  ax_Title :: string
  ax_Actor :: string
  ax_Place :: string
  ax_ItemPicture :: string
  ax_ShowTime :: string
  ax_ShowDayTime :: string
  ax_ShowWeekTime :: string
  ax_RushSaleOpenTime :: string
  ax_RushSaleEndTime :: string
  ax_PerOrderLimitPurchaseCount :: int
  ax_PerAccountLimitPurchaseCount :: int
  ax_PermitChooseSeat :: int
  ax_ChooseSeatExplain :: string
  ax_TicketCategoryVoList :: "ProgramPreorderTicketCategoryInfoA list"

definition mapProgramPreorderInfo :: "ProgramPreorderInfo \<Rightarrow> ProgramPreorderInfoA" where
  "mapProgramPreorderInfo resp =
     \<lparr>ax_ProgramID = pp_ProgramId resp, ax_ShowTimeID = pp_ShowTimeId resp,
      ax_ProgramGroupID = pp_ProgramGroupId resp, ax_Title = pp_Title resp, ax_Actor = pp_Actor resp,
      ax_Place = pp_Place resp, ax_ItemPicture = pp_ItemPicture resp, ax_ShowTime = pp_ShowTime resp,
      ax_ShowDayTime = pp_ShowDayTime resp, ax_ShowWeekTime = pp_ShowWeekTime resp,
      ax_RushSaleOpenTime = pp_RushSaleOpenTime resp, ax_RushSaleEndTime = pp_RushSaleEndTime resp,
      ax_PerOrderLimitPurchaseCount = pp_PerOrderLimitPurchaseCount resp,
      ax_PerAccountLimitPurchaseCount = pp_PerAccountLimitPurchaseCount resp,
      ax_PermitChooseSeat = pp_PermitChooseSeat resp, ax_ChooseSeatExplain = pp_ChooseSeatExplain resp,
      ax_TicketCategoryVoList = mapProgramPreorderTicketCategoryInfoList (pp_TicketCategoryVoList resp)\<rparr>"

record TicketCategoryDetailInfoA =
  ad_ProgramID :: int
  ad_Introduce :: string
  ad_Price :: int
  ad_TotalNumber :: int
  ad_RemainNumber :: int

definition mapTicketCategoryDetailInfo :: "TicketCategoryDetailInfo \<Rightarrow> TicketCategoryDetailInfoA" where
  "mapTicketCategoryDetailInfo resp =
     \<lparr>ad_ProgramID = td_ProgramId resp, ad_Introduce = td_Introduce resp, ad_Price = td_Price resp,
      ad_TotalNumber = td_TotalNumber resp, ad_RemainNumber = td_RemainNumber resp\<rparr>"

definition mapTicketCategoryDetailInfoList :: "TicketCategoryDetailInfo list \<Rightarrow> TicketCategoryDetailInfoA list" where
  "mapTicketCategoryDetailInfoList xs = map mapTicketCategoryDetailInfo xs"

record SeatInfoA =
  ai_SeatID :: int
  ai_TicketCategoryID :: int
  ai_RowCode :: int
  ai_ColCode :: int
  ai_Price :: int

definition mapSeatInfoList :: "SeatInfoView list \<Rightarrow> SeatInfoA list" where
  "mapSeatInfoList xs =
     map (\<lambda>item. \<lparr>ai_SeatID = sv_SeatId item, ai_TicketCategoryID = sv_TicketCategoryId item, ai_RowCode = sv_RowCode item,
      ai_ColCode = sv_ColCode item, ai_Price = sv_Price item\<rparr>) xs"

record PriceSeatGroupA =
  aj_Price :: string
  aj_Seats :: "SeatInfoA list"

definition mapPriceSeatGroupList :: "(string \<times> SeatInfoView list) list \<Rightarrow> PriceSeatGroupA list" where
  "mapPriceSeatGroupList xs = map (\<lambda>(price, seats). \<lparr>aj_Price = price, aj_Seats = mapSeatInfoList seats\<rparr>) xs"

record SeatRelateInfoRespA =
  ar_ProgramID :: int
  ar_Place :: string
  ar_ShowTime :: string
  ar_ShowWeekTime :: string
  ar_PriceList :: "string list"
  ar_PriceSeatGroupList :: "PriceSeatGroupA list"

definition mapSeatRelateInfo :: "SeatRelateInfo \<Rightarrow> SeatRelateInfoRespA" where
  "mapSeatRelateInfo resp =
     \<lparr>ar_ProgramID = sl_ProgramId resp, ar_Place = sl_Place resp, ar_ShowTime = sl_ShowTime resp,
      ar_ShowWeekTime = sl_ShowWeekTime resp, ar_PriceList = sl_PriceList resp,
      ar_PriceSeatGroupList = mapPriceSeatGroupList (sl_PriceSeatGroupList resp)\<rparr>"

section \<open>Handlers\<close>

definition mapRes :: "('a \<Rightarrow> 'b) \<Rightarrow> 'a res \<Rightarrow> 'b res" where
  "mapRes f r = (case r of Inl e \<Rightarrow> Inl e | Inr a \<Rightarrow> Inr (f a))"

definition apiAddProgram :: "catalogueEnv \<Rightarrow> fault \<Rightarrow> ProgramAddReqA \<Rightarrow> catalogue \<Rightarrow> int res \<times> catalogue" where
  "apiAddProgram env flt req = rpcCall flt (CreateProgram env (addReq req))"

definition apiUpdateProgram :: "catalogueEnv \<Rightarrow> fault \<Rightarrow> ProgramUpdateReqA \<Rightarrow> catalogue \<Rightarrow> bool res \<times> catalogue" where
  "apiUpdateProgram env flt req = rpcCall flt (UpdateProgram env (updateReq req))"

definition apiCreateProgramShowTime :: "catalogueEnv \<Rightarrow> fault \<Rightarrow> ProgramShowTimeAddReqA \<Rightarrow> catalogue \<Rightarrow> int res \<times> catalogue" where
  "apiCreateProgramShowTime env flt req = rpcCall flt (CreateProgramShowTime env (showTimeReq req))"

text \<open>Requests whose fields are those of the message are the record of the message.\<close>

definition apiCreateTicketCategory :: "catalogueEnv \<Rightarrow> fault \<Rightarrow> TicketCategoryAddReq \<Rightarrow> catalogue \<Rightarrow> int res \<times> catalogue" where
  "apiCreateTicketCategory env flt req = rpcCall flt (CreateTicketCategory env req)"

definition apiCreateSeat :: "catalogueEnv \<Rightarrow> fault \<Rightarrow> SeatAddReq \<Rightarrow> catalogue \<Rightarrow> int res \<times> catalogue" where
  "apiCreateSeat env flt req = rpcCall flt (CreateSeat env req)"

definition apiBatchCreateSeats :: "catalogueEnv \<Rightarrow> fault \<Rightarrow> int \<Rightarrow> SeatBatchItem list \<Rightarrow> catalogue \<Rightarrow> bool res \<times> catalogue" where
  "apiBatchCreateSeats env flt programID items = rpcCall flt (BatchCreateSeats env programID items)"

definition apiBatchCreateProgramCategories :: "catalogueEnv \<Rightarrow> fault \<Rightarrow> ProgramCategoryBatchItem list \<Rightarrow> catalogue \<Rightarrow> bool res \<times> catalogue" where
  "apiBatchCreateProgramCategories env flt items = rpcCall flt (BatchCreateProgramCategories env items)"

definition apiResetProgram :: "catalogueEnv \<Rightarrow> fault \<Rightarrow> int \<Rightarrow> catalogue \<Rightarrow> bool res \<times> catalogue" where
  "apiResetProgram env flt programID = rpcCall flt (ResetProgram env programID)"

definition apiInvalidProgram :: "catalogueEnv \<Rightarrow> fault \<Rightarrow> int \<Rightarrow> catalogue \<Rightarrow> bool res \<times> catalogue" where
  "apiInvalidProgram env flt programID = rpcCall flt (InvalidProgram env programID)"

definition apiGetProgramDetailView :: "catalogueEnv \<Rightarrow> fault \<Rightarrow> int \<Rightarrow> catalogue \<Rightarrow> ProgramDetailViewInfoA res \<times> catalogue" where
  "apiGetProgramDetailView env flt programID c =
     (case rpcCall flt (GetProgramDetailView env programID) c of (r, c1) \<Rightarrow> (mapRes mapProgramDetailViewInfo r, c1))"

definition apiPagePrograms :: "(string \<Rightarrow> int option) \<Rightarrow> catalogueEnv \<Rightarrow> fault \<Rightarrow> PageProgramsReq \<Rightarrow> catalogue \<Rightarrow> ProgramPageRespA res" where
  "apiPagePrograms day env flt req c = mapRes mapProgramPageResp (rpcRead flt (PagePrograms day env req c))"

definition apiListHomePrograms :: "catalogueEnv \<Rightarrow> fault \<Rightarrow> int \<Rightarrow> int list \<Rightarrow> catalogue \<Rightarrow> ProgramHomeSectionA list res" where
  "apiListHomePrograms env flt areaId parentIds c = mapRes mapProgramHomeSectionList (rpcRead flt (ListHomePrograms env areaId parentIds c))"

definition apiGetProgramPreorder :: "catalogueEnv \<Rightarrow> fault \<Rightarrow> int \<Rightarrow> catalogue \<Rightarrow> ProgramPreorderInfoA res" where
  "apiGetProgramPreorder env flt showTimeID c = mapRes mapProgramPreorderInfo (rpcRead flt (GetProgramPreorder env showTimeID c))"

definition apiGetSeatRelateInfo :: "catalogueEnv \<Rightarrow> fault \<Rightarrow> int \<Rightarrow> catalogue \<Rightarrow> SeatRelateInfoRespA res" where
  "apiGetSeatRelateInfo env flt programID c = mapRes mapSeatRelateInfo (rpcRead flt (GetSeatRelateInfo env programID c))"

definition apiGetTicketCategoryDetail :: "catalogueEnv \<Rightarrow> fault \<Rightarrow> int \<Rightarrow> catalogue \<Rightarrow> TicketCategoryDetailInfoA res" where
  "apiGetTicketCategoryDetail env flt i c = mapRes mapTicketCategoryDetailInfo (rpcRead flt (GetTicketCategoryDetail env i c))"

definition apiListTicketCategoriesByProgram :: "catalogueEnv \<Rightarrow> fault \<Rightarrow> int \<Rightarrow> catalogue \<Rightarrow> TicketCategoryDetailInfoA list res" where
  "apiListTicketCategoriesByProgram env flt programID c =
     mapRes mapTicketCategoryDetailInfoList (rpcRead flt (ListTicketCategoriesByProgram env programID c))"

definition apiListProgramCategories :: "catalogueEnv \<Rightarrow> fault \<Rightarrow> catalogue \<Rightarrow> ProgramCategoryInfoA list res" where
  "apiListProgramCategories env flt c = mapRes mapProgramCategoryInfoList (rpcRead flt (ListProgramCategories env c))"

definition apiListProgramCategoriesByType :: "catalogueEnv \<Rightarrow> fault \<Rightarrow> int \<Rightarrow> catalogue \<Rightarrow> ProgramCategoryInfoA list res" where
  "apiListProgramCategoriesByType env flt tp c = mapRes mapProgramCategoryInfoList (rpcRead flt (ListProgramCategoriesByType env tp c))"

definition apiListProgramCategoriesByParent :: "catalogueEnv \<Rightarrow> fault \<Rightarrow> int \<Rightarrow> catalogue \<Rightarrow> ProgramCategoryInfoA list res" where
  "apiListProgramCategoriesByParent env flt parentID c = mapRes mapProgramCategoryInfoList (rpcRead flt (ListProgramCategoriesByParent env parentID c))"

section \<open>Requests as steps of the catalogue\<close>

datatype programRequest =
    AddRequest ProgramAddReqA
  | ProgramUpdateRequest ProgramUpdateReqA
  | ShowTimeRequest ProgramShowTimeAddReqA
  | CategoryRequest TicketCategoryAddReq
  | SeatRequest SeatAddReq
  | SeatsRequest int "SeatBatchItem list"
  | KindsRequest "ProgramCategoryBatchItem list"
  | ResetRequest int
  | InvalidRequest int
  | ViewRequest int

fun programApi :: "catalogueEnv \<Rightarrow> fault \<Rightarrow> programRequest \<Rightarrow> catalogue \<Rightarrow> catalogue" where
  "programApi env flt (AddRequest req) c = snd (apiAddProgram env flt req c)"
| "programApi env flt (ProgramUpdateRequest req) c = snd (apiUpdateProgram env flt req c)"
| "programApi env flt (ShowTimeRequest req) c = snd (apiCreateProgramShowTime env flt req c)"
| "programApi env flt (CategoryRequest req) c = snd (apiCreateTicketCategory env flt req c)"
| "programApi env flt (SeatRequest req) c = snd (apiCreateSeat env flt req c)"
| "programApi env flt (SeatsRequest programID items) c = snd (apiBatchCreateSeats env flt programID items c)"
| "programApi env flt (KindsRequest items) c = snd (apiBatchCreateProgramCategories env flt items c)"
| "programApi env flt (ResetRequest programID) c = snd (apiResetProgram env flt programID c)"
| "programApi env flt (InvalidRequest programID) c = snd (apiInvalidProgram env flt programID c)"
| "programApi env flt (ViewRequest programID) c = snd (apiGetProgramDetailView env flt programID c)"

lemma rpcCall_state: "snd (rpcCall flt f w) \<in> {w, snd (f w)}"
  by (auto simp: rpcCall_def eval_ctx_def split: fault.split prod.split)

lemma rpcCall_step: "catStep kt c (snd (f c)) \<Longrightarrow> snd (rpcCall flt f c) = c \<or> catStep kt c (snd (rpcCall flt f c))"
  using rpcCall_state [of flt f c] by auto

lemma LoadView_state: "snd (LoadView env i c) \<in> {c, snd (GetAll env 2 c)}"
  by (auto simp: LoadView_def split: sum.split prod.split)

lemma view_only_caches:
  "\<exists>k. snd (GetProgramDetailView env i c) = c\<lparr>ct_Caches := k\<rparr> \<and> rc_Program k = rc_Program (ct_Caches c)"
proof -
  have kinds: "\<exists>k. snd (GetAll env n c) = c\<lparr>ct_Caches := k\<rparr> \<and> rc_Program k = rc_Program (ct_Caches c)" for n
    by (cases "lc_Kinds (ct_Caches c)"; cases "ge_Fault env n") (auto simp: GetAll_def Let_def intro: exI [of _ "ct_Caches c"])
  have same: "\<exists>k. c = c\<lparr>ct_Caches := k\<rparr> \<and> rc_Program k = rc_Program (ct_Caches c)" by (rule exI [of _ "ct_Caches c"]) simp
  have "\<exists>k. snd (LoadView env i c) = c\<lparr>ct_Caches := k\<rparr> \<and> rc_Program k = rc_Program (ct_Caches c)"
    using LoadView_state [of env i c] same kinds [of 2] by (elim insertE) (simp_all only: empty_iff)
  then obtain k where k: "snd (LoadView env i c) = c\<lparr>ct_Caches := k\<rparr>" "rc_Program k = rc_Program (ct_Caches c)" by blast
  obtain r where "LoadView env i c = (r, c\<lparr>ct_Caches := k\<rparr>)" using k(1) by (metis prod.collapse)
  then show ?thesis using same k(2)
    by (cases r) (auto simp: GetProgramDetailView_def GetView_def split: option.split sum.split)
qed

definition demoAddReq :: ProgramAddReqA where
  "demoAddReq =
     \<lparr>ap_ProgramGroupID = 3, ap_Prime = 0, ap_AreaID = 1, ap_ProgramCategoryID = 11, ap_ParentProgramCategoryID = 10,
      ap_Title = ''t'', ap_Actor = '' '', ap_Place = ''p'', ap_ItemPicture = [], ap_PreSell = 0,
      ap_PreSellInstruction = [], ap_ImportantNotice = [], ap_Detail = ''d'', ap_PerOrderLimitPurchaseCount = 0,
      ap_PerAccountLimitPurchaseCount = 0, ap_RefundTicketRule = [], ap_DeliveryInstruction = [], ap_EntryRule = [],
      ap_ChildPurchase = [], ap_InvoiceSpecification = [], ap_RealTicketPurchaseRule = [],
      ap_AbnormalOrderDescription = [], ap_KindReminder = [], ap_PerformanceDuration = [], ap_EntryTime = [],
      ap_MinPerformanceCount = 0, ap_MainActor = [], ap_MinPerformanceDuration = [], ap_ProhibitedItem = [],
      ap_DepositSpecification = [], ap_TotalCount = - 4, ap_PermitRefund = 0, ap_RefundExplain = [],
      ap_RefundRuleJSON = [], ap_RelNameTicketEntrance = 0, ap_RelNameTicketEntranceExplain = [],
      ap_PermitChooseSeat = 0, ap_ChooseSeatExplain = [], ap_ElectronicDeliveryTicket = 0,
      ap_ElectronicDeliveryTicketExplain = [], ap_ElectronicInvoice = 0, ap_ElectronicInvoiceExplain = [],
      ap_HighHeat = 0, ap_ProgramStatus = 0, ap_IssueTime = [], ap_RushSaleOpenTime = ''o'',
      ap_RushSaleEndTime = ''e'', ap_Status = 0\<rparr>"

text \<open>
  Whatever is asked of the program api, the catalogue makes a step of its system or stays as it is,
  also when a call is lost on the way; so what holds in every reachable catalogue holds behind the api.
\<close>

theorem program_api_steps:
  assumes "CatalogueProps.calm kt env c"
  shows "programApi env flt req c = c \<or> catStep kt c (programApi env flt req c)"
proof -
  have view: "catStep kt c (snd (GetProgramDetailView env i c))" for i
  proof -
    obtain k where k: "snd (GetProgramDetailView env i c) = c\<lparr>ct_Caches := k\<rparr>" "rc_Program k = rc_Program (ct_Caches c)"
      using view_only_caches [of env i c] by blast
    show ?thesis unfolding k(1) by (rule catStep.cache) (simp add: cacheMove_def k(2))
  qed
  note defs = apiAddProgram_def apiUpdateProgram_def apiCreateProgramShowTime_def apiCreateTicketCategory_def apiCreateSeat_def
    apiBatchCreateSeats_def apiBatchCreateProgramCategories_def apiResetProgram_def apiInvalidProgram_def
  show ?thesis
  proof (cases req)
    case (ViewRequest i)
    then show ?thesis using rpcCall_step [of kt c "GetProgramDetailView env i" flt] view [of i] by (simp add: apiGetProgramDetailView_def case_prod_unfold)
  qed (simp_all only: programApi.simps defs, (rule rpcCall_step catStep.intros assms)+)
qed

theorem program_api_steps_witness:
  "programApi demoCatEnv NoFault (AddRequest demoAddReq) demoStart = demoStart
   \<or> catStep demoPrint demoStart (programApi demoCatEnv NoFault (AddRequest demoAddReq) demoStart)"
  using program_api_steps [OF demo_sale_calm(1), of NoFault "AddRequest demoAddReq"] .

section \<open>What is added is what is shown\<close>

text \<open>
  What the view of a program has to show of the request it was added with: every value under its own name,
  a blank text as empty, a negative count as zero and the defaults where nothing was given.
\<close>

definition orDefault :: "int \<Rightarrow> int \<Rightarrow> int" where
  "orDefault d x = (if x = 0 then d else x)"

definition showsRequest :: "ProgramAddReqA \<Rightarrow> ProgramDetailViewInfoA \<Rightarrow> bool" where
  "showsRequest req v \<longleftrightarrow>
     av_ProgramGroupID v = ap_ProgramGroupID req \<and> av_Prime v = orDefault 1 (ap_Prime req) \<and>
     av_AreaID v = ap_AreaID req \<and> av_ProgramCategoryID v = ap_ProgramCategoryID req \<and>
     av_ParentProgramCategoryID v = ap_ParentProgramCategoryID req \<and> av_Title v = ap_Title req \<and>
     av_Actor v = blankText (ap_Actor req) \<and> av_Place v = blankText (ap_Place req) \<and>
     av_ItemPicture v = blankText (ap_ItemPicture req) \<and> av_PreSell v = ap_PreSell req \<and>
     av_PreSellInstruction v = blankText (ap_PreSellInstruction req) \<and>
     av_ImportantNotice v = blankText (ap_ImportantNotice req) \<and> av_Detail v = ap_Detail req \<and>
     av_PerOrderLimitPurchaseCount v = orDefault 6 (ap_PerOrderLimitPurchaseCount req) \<and>
     av_PerAccountLimitPurchaseCount v = orDefault 6 (ap_PerAccountLimitPurchaseCount req) \<and>
     av_RefundTicketRule v = blankText (ap_RefundTicketRule req) \<and>
     av_DeliveryInstruction v = blankText (ap_DeliveryInstruction req) \<and>
     av_EntryRule v = blankText (ap_EntryRule req) \<and>
     av_ChildPurchase v = blankText (ap_ChildPurchase req) \<and>
     av_InvoiceSpecification v = blankText (ap_InvoiceSpecification req) \<and>
     av_RealTicketPurchaseRule v = blankText (ap_RealTicketPurchaseRule req) \<and>
     av_AbnormalOrderDescription v = blankText (ap_AbnormalOrderDescription req) \<and>
     av_KindReminder v = blankText (ap_KindReminder req) \<and>
     av_PerformanceDuration v = blankText (ap_PerformanceDuration req) \<and>
     av_EntryTime v = blankText (ap_EntryTime req) \<and>
     av_MinPerformanceCount v = max 0 (ap_MinPerformanceCount req) \<and>
     av_MainActor v = blankText (ap_MainActor req) \<and>
     av_MinPerformanceDuration v = blankText (ap_MinPerformanceDuration req) \<and>
     av_ProhibitedItem v = blankText (ap_ProhibitedItem req) \<and>
     av_DepositSpecification v = blankText (ap_DepositSpecification req) \<and>
     av_TotalCount v = max 0 (ap_TotalCount req) \<and> av_PermitRefund v = ap_PermitRefund req \<and>
     av_RefundExplain v = blankText (ap_RefundExplain req) \<and>
     av_RelNameTicketEntrance v = ap_RelNameTicketEntrance req \<and>
     av_RelNameTicketEntranceExplain v = blankText (ap_RelNameTicketEntranceExplain req) \<and>
     av_PermitChooseSeat v = ap_PermitChooseSeat req \<and>
     av_ChooseSeatExplain v = blankText (ap_ChooseSeatExplain req) \<and>
     av_ElectronicDeliveryTicket v = orDefault 1 (ap_ElectronicDeliveryTicket req) \<and>
     av_ElectronicDeliveryTicketExplain v = blankText (ap_ElectronicDeliveryTicketExplain req) \<and>
     av_ElectronicInvoice v = orDefault 1 (ap_ElectronicInvoice req) \<and>
     av_ElectronicInvoiceExplain v = blankText (ap_ElectronicInvoiceExplain req) \<and>
     av_HighHeat v = ap_HighHeat req \<and> av_ProgramStatus v = orDefault 1 (ap_ProgramStatus req) \<and>
     av_IssueTime v = blankText (ap_IssueTime req) \<and>
     av_RushSaleOpenTime v = blankText (ap_RushSaleOpenTime req) \<and>
     av_RushSaleEndTime v = blankText (ap_RushSaleEndTime req)"

lemma CreateProgram_row:
  assumes "CreateProgram env req c = (Inr i, c1)"
  obtains data p where "buildProgramModel (ge_Parse env) ((applyCreateProgramDefaults (newCreateProgramValues req))\<lparr>pv_id := i\<rparr>) (ge_Now env 0) = Inr data"
    and "programRow (ct_Programs c1) i = Some p" "\<exists>k t. p = data\<lparr>dp_InventoryPreheatStatus := k, dp_EditTime := t\<rparr>"
proof -
  let ?v = "(applyCreateProgramDefaults (newCreateProgramValues req))\<lparr>pv_id := ge_Ids env 0\<rparr>"
  have i: "i = ge_Ids env 0" using assms by (auto simp: CreateProgram_def Let_def split: sum.splits prod.splits)
  obtain data c2 g where data: "buildProgramModel (ge_Parse env) ?v (ge_Now env 0) = Inr data"
    and tx: "runTx (ge_Tx env) (createProgramTx env data) c = (Inr (), c2)" and c1: "c1 = InvalidateProgram env i g c2"
    using assms i by (auto simp: CreateProgram_def Let_def split: sum.splits prod.splits)
  have id: "dp_Id data = i" using data i by (auto simp: buildProgramModel_def split: sum.splits)
  have tx': "createProgramTx env data c = (Inr (), c2)" using tx by (auto simp: runTx_def split: prod.splits sum.splits txfault.splits)
  then have "dp_Id data \<notin> dp_Id ` set (ct_Programs c)" and sch: "scheduleRushInventoryPreheat env data (c\<lparr>ct_Programs := ct_Programs c @ [data]\<rparr>) = (Inr (), c2)"
    by (auto simp: createProgramTx_def InsertProgram_def split: if_splits)
  then have new: "\<forall>x \<in> set (ct_Programs c). dp_Id x \<noteq> i" using id by (metis imageI)
  have none: "find (\<lambda>p. dp_Id p = i) (ct_Programs c) = None" using new unfolding find_None_iff by blast
  have app: "find P (xs @ ys) = (case find P xs of None \<Rightarrow> find P ys | Some x \<Rightarrow> Some x)" for P and xs ys :: "DProgram list"
    by (induction xs) auto
  have upd: "UpdateProgramRow (data\<lparr>dp_InventoryPreheatStatus := 1, dp_EditTime := ge_Now env 1\<rparr>) (ct_Programs c @ [data])
      = ct_Programs c @ [data\<lparr>dp_InventoryPreheatStatus := 1, dp_EditTime := ge_Now env 1\<rparr>]"
    using new id by (simp add: UpdateProgramRow_def map_idI)
  have "ct_Programs c1 = ct_Programs c2" by (simp add: c1 InvalidateProgram_def)
  moreover have "ct_Programs c2 = ct_Programs c @ [data]
      \<or> ct_Programs c2 = ct_Programs c @ [data\<lparr>dp_InventoryPreheatStatus := 1, dp_EditTime := ge_Now env 1\<rparr>]"
    using sch upd by (auto simp: scheduleRushInventoryPreheat_def EnqueueWithConn_def split: option.splits if_splits)
  ultimately have "programRow (ct_Programs c1) i = Some data
      \<or> programRow (ct_Programs c1) i = Some (data\<lparr>dp_InventoryPreheatStatus := 1, dp_EditTime := ge_Now env 1\<rparr>)"
    by (elim disjE) (simp_all add: programRow_def app none id)
  moreover have "\<exists>k t. data = data\<lparr>dp_InventoryPreheatStatus := k, dp_EditTime := t\<rparr>"
    by (rule exI [of _ "dp_InventoryPreheatStatus data"], rule exI [of _ "dp_EditTime data"]) simp
  ultimately show thesis using that data i by blast
qed

lemma view_of_row:
  assumes "GetProgramDetailView env i c = (Inr v, c')" "\<not> lc_NotFound (ct_Caches c) i" "lc_View (ct_Caches c) i = None"
    and "rc_Program (ct_Caches c) i = None" "programRow (ct_Programs c) i = Some p"
  obtains s g ks ts where "v = toProgramDetailViewInfo (ge_Format env) p s g ks ts"
proof -
  have "cachedProgram c i = Inr p" by (simp add: cachedProgram_def readThrough_def orNotFound_def assms(4,5))
  then show thesis
    using assms(1-3) that
    by (auto simp: GetProgramDetailView_def GetView_def LoadView_def ifMissing_def orFault_def split: sum.splits prod.splits option.splits if_splits)
qed

lemma view_shows_request:
  assumes b: "buildProgramModel parse ((applyCreateProgramDefaults (newCreateProgramValues (addReq req)))\<lparr>pv_id := i\<rparr>) now = Inr data"
    and times: "canonicalTime parse fmt (ap_IssueTime req)" "canonicalTime parse fmt (ap_RushSaleOpenTime req)"
      "canonicalTime parse fmt (ap_RushSaleEndTime req)"
  shows "showsRequest req (mapProgramDetailViewInfo (toProgramDetailViewInfo fmt (data\<lparr>dp_InventoryPreheatStatus := k, dp_EditTime := t\<rparr>) s g ks ts))"
    and "av_ID (mapProgramDetailViewInfo (toProgramDetailViewInfo fmt (data\<lparr>dp_InventoryPreheatStatus := k, dp_EditTime := t\<rparr>) s g ks ts)) = i"
proof -
  let ?v = "(applyCreateProgramDefaults (newCreateProgramValues (addReq req)))\<lparr>pv_id := i\<rparr>"
  note new = newCreateProgramValues_def [of "addReq req", unfolded addReq_def, simplified, folded addReq_def]
  note vals = arg_cong [OF applyCreateProgramDefaults_def [of "newCreateProgramValues (addReq req)", unfolded new Let_def, simplified],
      of "pv_id_update (\<lambda>_. i)", simplified, folded orDefault_def]
  have pv: "pv_issueTime ?v = ap_IssueTime req" "pv_rushSaleOpenTime ?v = ap_RushSaleOpenTime req" "pv_rushSaleEndTime ?v = ap_RushSaleEndTime req"
    unfolding new vals by simp_all
  note view = program_view_roundtrip [OF b, unfolded pv, OF times, of s g ks ts, unfolded new vals, simplified]
  have row: "toProgramDetailViewInfo fmt (data\<lparr>dp_InventoryPreheatStatus := k, dp_EditTime := t\<rparr>) s g ks ts
      = (toProgramDetailViewInfo fmt data s g ks ts)\<lparr>dv_InventoryPreheatStatus := k\<rparr>"
    by (simp add: toProgramDetailViewInfo_def)
  show "showsRequest req (mapProgramDetailViewInfo (toProgramDetailViewInfo fmt (data\<lparr>dp_InventoryPreheatStatus := k, dp_EditTime := t\<rparr>) s g ks ts))"
    unfolding row view by (simp add: showsRequest_def mapProgramDetailViewInfo_def orDefault_def cong: if_cong split del: if_split)
  show "av_ID (mapProgramDetailViewInfo (toProgramDetailViewInfo fmt (data\<lparr>dp_InventoryPreheatStatus := k, dp_EditTime := t\<rparr>) s g ks ts)) = i"
    unfolding row view by (simp add: mapProgramDetailViewInfo_def)
qed

text \<open>
  C33. A program added through the api is shown through the api as it was asked for. When the view of the
  program is later answered from its row, and of the row only the mark of the preheating and the time of the
  last change differ from what was written, every field of the view carries the value of the request
  under the same name, through all copies of the fields on the way: from the request to the message, to
  the values, to the row, to the view, and to the answer.
\<close>

theorem added_program_shown:
  assumes "apiAddProgram env flt req c = (Inr i, c1)" "programRow (ct_Programs c1) i = Some p"
    and "programRow (ct_Programs c2) i = Some (p\<lparr>dp_InventoryPreheatStatus := k, dp_EditTime := t\<rparr>)"
    and "\<not> lc_NotFound (ct_Caches c2) i" "lc_View (ct_Caches c2) i = None" "rc_Program (ct_Caches c2) i = None"
    and "apiGetProgramDetailView env2 flt2 i c2 = (Inr v, c3)"
    and "canonicalTime (ge_Parse env) (ge_Format env2) (ap_IssueTime req)" "canonicalTime (ge_Parse env) (ge_Format env2) (ap_RushSaleOpenTime req)"
      "canonicalTime (ge_Parse env) (ge_Format env2) (ap_RushSaleEndTime req)"
  shows "av_ID v = i \<and> showsRequest req v"
proof -
  have "CreateProgram env (addReq req) c = (Inr i, c1)"
    using assms(1) by (auto simp: apiAddProgram_def rpcCall_def eval_ctx_def wireRes_def split: fault.splits prod.splits sum.splits)
  then obtain data p' where row: "buildProgramModel (ge_Parse env) ((applyCreateProgramDefaults (newCreateProgramValues (addReq req)))\<lparr>pv_id := i\<rparr>) (ge_Now env 0) = Inr data"
    "programRow (ct_Programs c1) i = Some p'" "\<exists>k t. p' = data\<lparr>dp_InventoryPreheatStatus := k, dp_EditTime := t\<rparr>"
    by (rule CreateProgram_row)
  have p: "p\<lparr>dp_InventoryPreheatStatus := k, dp_EditTime := t\<rparr> = data\<lparr>dp_InventoryPreheatStatus := k, dp_EditTime := t\<rparr>"
    using row(2,3) assms(2) by auto
  obtain v' where v': "GetProgramDetailView env2 i c2 = (Inr v', c3)" "v = mapProgramDetailViewInfo v'"
    using assms(7) by (auto simp: apiGetProgramDetailView_def rpcCall_def eval_ctx_def wireRes_def mapRes_def split: fault.splits prod.splits sum.splits)
  obtain s g ks ts where "v' = toProgramDetailViewInfo (ge_Format env2) (data\<lparr>dp_InventoryPreheatStatus := k, dp_EditTime := t\<rparr>) s g ks ts"
    using view_of_row [OF v'(1) assms(4-6) assms(3)] p by metis
  then show ?thesis using view_shows_request [OF row(1) assms(8-10)] v'(2) by simp
qed

text \<open>The program of the catalogue \<open>demoOnSale\<close>, which got a show after it was added.\<close>

lemma demo_added_rows:
  "length (ct_Programs demoOnSale) = 1" "length (ct_Programs demoCreated) = 1" "dp_Id (hd (ct_Programs demoOnSale)) = 60"
  "hd (ct_Programs demoOnSale) = (hd (ct_Programs demoCreated))\<lparr>dp_InventoryPreheatStatus := 1, dp_EditTime := 51\<rparr>"
  by code_simp+

theorem added_program_shown_witness:
  "\<exists>v. fst (apiGetProgramDetailView demoCatEnv NoFault 60 demoOnSale) = Inr v \<and> av_ID v = 60 \<and> showsRequest demoAddReq v"
proof -
  have req: "addReq demoAddReq = demoProgramReq" by (simp add: addReq_def demoAddReq_def demoProgramReq_def)
  have "fst (CreateProgram demoCatEnv demoProgramReq demoStart) = Inr 60" by code_simp
  then have add: "apiAddProgram demoCatEnv NoFault demoAddReq demoStart = (Inr 60, demoCreated)"
    by (simp add: apiAddProgram_def rpcCall_def eval_ctx_def req demoCreated_def wireRes_def case_prod_unfold)
  obtain p where p: "ct_Programs demoCreated = [p]" "ct_Programs demoOnSale = [p\<lparr>dp_InventoryPreheatStatus := 1, dp_EditTime := 51\<rparr>]" "dp_Id p = 60"
    using demo_added_rows by (auto simp: length_Suc_conv)
  then have rows: "programRow (ct_Programs demoCreated) 60 = Some p"
    "programRow (ct_Programs demoOnSale) 60 = Some (p\<lparr>dp_InventoryPreheatStatus := 1, dp_EditTime := 51\<rparr>)"
    by (simp_all add: programRow_def)
  have caches: "\<not> lc_NotFound (ct_Caches demoOnSale) 60" "lc_View (ct_Caches demoOnSale) 60 = None" "rc_Program (ct_Caches demoOnSale) 60 = None"
    by code_simp+
  have "isl (fst (apiGetProgramDetailView demoCatEnv NoFault 60 demoOnSale)) = False" by code_simp
  then obtain v c3 where v: "apiGetProgramDetailView demoCatEnv NoFault 60 demoOnSale = (Inr v, c3)"
    by (cases "apiGetProgramDetailView demoCatEnv NoFault 60 demoOnSale"; cases "fst (apiGetProgramDetailView demoCatEnv NoFault 60 demoOnSale)") simp_all
  have times: "canonicalTime (ge_Parse demoCatEnv) (ge_Format demoCatEnv) (ap_IssueTime demoAddReq)"
    "canonicalTime (ge_Parse demoCatEnv) (ge_Format demoCatEnv) (ap_RushSaleOpenTime demoAddReq)"
    "canonicalTime (ge_Parse demoCatEnv) (ge_Format demoCatEnv) (ap_RushSaleEndTime demoAddReq)"
    by code_simp+
  show ?thesis using added_program_shown [OF add rows caches v times] v by simp
qed

end
