(* ===== verification/Spec2Isabelle.thy ===== *)
theory Spec2Isabelle
  imports OrderNumberGen RushInvariant CatalogueGuards CacheInvalidation ProgramApi
begin

text \<open>
  Verification of the ticketing back end \<open>livepass\<close>.

  \<^bold>\<open>The program.\<close> \<open>livepass\<close> sells seats of shows under load. A buyer asks \<open>order-rpc\<close> for a purchase
  token (\<open>CreatePurchaseToken\<close>) and spends it with \<open>CreateOrder\<close>, which admits the attempt in the rush
  store, a Redis keyspace changed by Lua scripts, and puts an event on a queue. The consumer of the
  queue freezes seats with \<open>program-rpc\<close>, whose seat ledger, again in Redis, is backed by the seat table
  in MySQL, and writes the order into the sharded order store with guards that exclude double sales
  and a task that closes the order when it is not paid in time. The order is then paid through
  \<open>pay-rpc\<close>, cancelled, closed by the task or refunded under the rule of the program. A job dispatches
  the tasks of the outbox tables. The catalogue of programs, shows, ticket categories and seats is kept
  by \<open>program-rpc\<close>; before a sale opens, a second job primes the rush store and the seat ledgers from it
  and closes the inventory of the program.

  \<^bold>\<open>Theories and sources\<close> (below \<open>src/services\<close> unless noted):
  \<^item> \<open>Prelude\<close>: results and errors (\<open>pkg/xerr\<close> sentinels, gRPC statuses, timeouts), 64-bit wrap-around,
    decimal texts, splitting and joining, the locales \<open>increasing_source\<close>, \<open>step_invariant\<close> and
    \<open>ticket_pool\<close>.
  \<^item> \<open>Sharding\<close>: \<open>order-rpc/sharding\<close>, the genes of a user, order numbers, the route map; locale
    \<open>gene_router\<close>. \<open>OrderNumberGen\<close>: \<open>order_number_generator.go\<close>, alone and interleaved.
  \<^item> \<open>Redis\<close>: hashes with expiry and the faults of a call (request lost, reply lost). \<open>AttemptStore\<close>:
    \<open>order-rpc/internal/rush\<close> with its seven scripts. \<open>RushInvariant\<close>: the abstract view of a show, its
    specification and the proofs.
  \<^item> \<open>SeatAssign\<close>, \<open>SeatTable\<close>, \<open>SeatLedger\<close>, \<open>SeatFreeze\<close>: \<open>seat_assignment.go\<close>, \<open>d_seat_model.go\<close>,
    \<open>seatcache\<close> with its scripts, and the four seat handlers of \<open>program-rpc\<close>. \<open>RefundRule\<close>:
    \<open>refund_rule.go\<close> and its handler.
  \<^item> \<open>Pay\<close>: the tables and handlers of \<open>pay-rpc\<close>.
  \<^item> \<open>DelayTask\<close>: \<open>pkg/delaytask\<close>, the outbox model and the dispatcher of \<open>jobs/order-close\<close>.
  \<^item> \<open>OrderRepo\<close>, \<open>OrderInvariant\<close>: tables, transactions and queries of the order store
    (\<open>order-rpc/repository\<close>, \<open>order-rpc/internal/model\<close>).
  \<^item> \<open>OrderLogic\<close>: handlers on existing orders. \<open>OrderCreate\<close>: tokens, \<open>CreateOrder\<close>, the sender, the
    consumer and the progress handlers. \<open>OrderProps\<close>, \<open>OrderOutcomes\<close>, \<open>OrderCreateProps\<close>: what they
    guarantee together. \<open>RushPrime\<close>: \<open>prime_rush_runtime_logic.go\<close>, which rebuilds the rush store of a show
    from the guards of the order store.
  \<^item> \<open>ProgramModel\<close>: rows, write requests and views of programs (\<open>program_write_helper.go\<close>,
    \<open>detail_loader.go\<close>). \<open>Catalogue\<close>: the tables and caches of \<open>program-rpc\<close> and every handler that writes
    them. \<open>CatalogueRead\<close>: the handlers that read one program, show or category list. \<open>Preheat\<close>: the
    worker and dispatcher of \<open>jobs/rush-inventory-preheat\<close>. \<open>CatalogueProps\<close>, \<open>CatalogueGuards\<close>: the
    catalogue as a system of steps and its invariants. \<open>ProgramLists\<close>: the pages and the home list of
    programs with their queries. \<open>CacheInvalidation\<close>: the caches of several processes and the messages
    that invalidate them (\<open>programcache\<close>).
  \<^item> \<open>Users\<close>: \<open>user-rpc\<close> with \<open>pkg/xjwt\<close>, accounts, logins and ticket users as sequences of statements;
    locale \<open>state_frame\<close>. \<open>UserLogins\<close>: runs of logins and registrations.
  \<^item> \<open>Gateway\<close>: \<open>pkg/xmiddleware\<close> and the middleware of \<open>gateway-api\<close> and of the API services, HTTP headers
    included. \<open>OwnOrders\<close>: the orders a handler on an existing order may change. \<open>Api\<close>: the handlers of
    \<open>order-api\<close>, \<open>pay-api\<close> and \<open>user-api\<close>, the routes of the order and user services and the composition
    with the gateway. \<open>ProgramApi\<close>: the handlers and mappers of \<open>program-api\<close>.

  \<^bold>\<open>State and effects.\<close> Tables are lists of records, Redis keys finite maps with an expiry, and the
  world of the order service is the record \<open>orderWorld\<close> of order store, pay service, seats and rush
  store; the world of the catalogue is the record \<open>catalogue\<close>, and \<open>preheatWorld\<close> joins it with the order
  store and the rush store. A handler is a function from its request and the world to a result and the new world. Times,
  generated ids and the outcome of every remote call or transaction are arguments (\<open>orderEnv\<close>,
  \<open>consumeEnv\<close>, \<open>freezeEnv\<close>, \<open>payEnv\<close>, \<open>primeEnv\<close>, \<open>catalogueEnv\<close>, \<open>preheatEnv\<close>), so a theorem over all of them covers every clock and every failure:
  a request or a reply may be lost, a transaction may abort or commit without an acknowledgement.
  JSON, base64, HMAC, time formats and the task queue are arguments as well.

  \<^bold>\<open>What is shown.\<close> Quota and seats are conserved and never oversold under every interleaving of
  calls; live attempts and active orders of a show exclude each other on users, viewers and seats;
  an order moves along its life cycle only and agrees with its bill and its refund; order numbers
  route to the shard of their user; tokens carry what they were issued for; an event is processed at
  most once and writes the requested order; tasks are never lost; the optimised script selects the
  seats of the reference assignment; the page loop of the expiry scan ends with the full answer. After a preheating the quota of the rush
  store and the stock of the ledger are the free seats of the table, and the holders of active orders are
  refused; in every reachable catalogue shows start after the opening of their sale and programs on
  sale have a task; batches of seats are laid out exactly; the
  pages of a list show it completely, a program is shown as it was added and not once it is withdrawn, and an
  invalidation reaches the processes that listen. A mobile names one account, guessing its
  password is bounded, and a registration can be used to log in. Behind the gateway nobody speaks for another user: a
  request to the order or user service changes the orders or the account of the token's user only. The pay service
  has no such guard; the agreement of orders and bills is about bills written by the order
  service. Some
  theorems establish what the code gets wrong; they are the ones the findings of the manifest name.

  \<^bold>\<open>Bounds.\<close> Identifiers, prices and times are integers; where a value is stored or multiplied in 64 bits
  the wrap-around is written out (\<open>wrap64\<close>, \<open>in_int64\<close>). Loops are structural recursions or have a
  termination proof; no fuel is used.

  \<^bold>\<open>Caches.\<close> A cached row is read in place of the table; filling an entry from the table and losing it
  are steps of the system \<open>catStep\<close>. A handler is one step there; a load that is overtaken by an invalidation
  before it fills the cache is a matter of \<open>CacheInvalidation\<close>. Outside the model is a transaction whose acknowledgement is
  lost (\<open>calm\<close>), after which a handler does not invalidate.

  \<^bold>\<open>Not modelled.\<close> The JSON of requests and replies and the copying of replies in the order, pay and user
  API services; cross-origin headers; generated
  protobuf and model code beyond the rows used; Kafka, asynq, MySQL and Redis clients; configuration
  and start-up; the agents in Python; logging and performance recording.
\<close>

end
